(* ===== verification/Prelude.thy ===== *)
theory Prelude
  imports Main "HOL-Library.Word"
begin

text \<open>
  Shared vocabulary of the development: bytes and byte strings, the error monad in which
  every fallible routine of the SDK is written, the little- and big-endian images of a
  natural number, and the lemma collections the component theories extend.
\<close>

unbundle bit_operations_syntax

section \<open>Types\<close>

type_synonym byte = "8 word"
type_synonym bytes = "byte list"
type_synonym u16 = "16 word"
type_synonym u32 = "32 word"
type_synonym u64 = "64 word"
type_synonym u256 = "256 word"

section \<open>Lemma collections\<close>

named_theorems codec_simps \<open>rewrite rules that run an encoder or a decoder on a known image\<close>
named_theorems inv_intros \<open>preservation of component invariants\<close>

section \<open>The error monad\<close>

text \<open>
  A C++ routine that may throw is a function into \<open>'e + 'a\<close>: \<open>Inl\<close> is the thrown
  value, \<open>Inr\<close> the normal result. Sequencing is \<open>bindE\<close>: an exception leaves the rest
  of the routine unexecuted.
\<close>

definition bindE :: "'e + 'a \<Rightarrow> ('a \<Rightarrow> 'e + 'b) \<Rightarrow> 'e + 'b" where
  "bindE m f = (case m of Inl e \<Rightarrow> Inl e | Inr x \<Rightarrow> f x)"

lemma bindE_simps [simp]:
  "bindE (Inl e) f = Inl e"
  "bindE (Inr x) f = f x"
  by (simp_all add: bindE_def)

lemma bindE_cong [fundef_cong]:
  "m = m' \<Longrightarrow> (\<And>x. m' = Inr x \<Longrightarrow> f x = g x) \<Longrightarrow> bindE m f = bindE m' g"
  by (cases m') (simp_all add: bindE_def)

lemma bindE_assoc: "bindE (bindE m f) g = bindE m (\<lambda>x. bindE (f x) g)"
  by (cases m) simp_all

lemma bindE_Inr_iff: "bindE m f = Inr y \<longleftrightarrow> (\<exists>x. m = Inr x \<and> f x = Inr y)"
  by (cases m) auto

lemma bindE_InrE [elim]:
  assumes "bindE m f = Inr y"
  obtains x where "m = Inr x" and "f x = Inr y"
  using assms by (auto simp: bindE_Inr_iff)

lemma bindE_Inl_iff: "bindE m f = Inl e \<longleftrightarrow> m = Inl e \<or> (\<exists>x. m = Inr x \<and> f x = Inl e)"
  by (cases m) auto

lemma sum_pair_exhaust:
  obtains (Inl) e where "m = Inl e" | (Inr) a b where "m = Inr (a, b)"
proof (cases m)
  case (Inr x)
  then show ?thesis using that(2) by (cases x) blast
qed (blast intro: that(1))

section \<open>Byte images of natural numbers\<close>

primrec le_bytes :: "nat \<Rightarrow> nat \<Rightarrow> bytes" where
  "le_bytes 0 v = []"
| "le_bytes (Suc n) v = word_of_nat (v mod 256) # le_bytes n (v div 256)"

primrec le_val :: "bytes \<Rightarrow> nat" where
  "le_val [] = 0"
| "le_val (b # bs) = unat b + 256 * le_val bs"

definition be_bytes :: "nat \<Rightarrow> nat \<Rightarrow> bytes" where
  "be_bytes n v = rev (le_bytes n v)"

definition be_val :: "bytes \<Rightarrow> nat" where
  "be_val bs = le_val (rev bs)"

lemma unat_byte_of_nat [simp]: "unat (word_of_nat (v mod 256) :: byte) = v mod 256"
  by (simp add: unat_of_nat)

lemma unat_byte_less [simp]: "unat (b :: byte) < 256"
proof -
  have "unat b < 2 ^ LENGTH(8)" by (rule unsigned_less)
  then show ?thesis by simp
qed

lemma length_le_bytes [simp]: "length (le_bytes n v) = n"
  by (induction n arbitrary: v) simp_all

lemma le_val_le_bytes: "le_val (le_bytes n v) = v mod 256 ^ n"
proof (induction n arbitrary: v)
  case (Suc n)
  have "v mod (256 * 256 ^ n) = v mod 256 + 256 * (v div 256 mod 256 ^ n)"
    by (simp add: mod_mult2_eq)
  with Suc show ?case by simp
qed simp

lemma le_val_le_bytes_id [simp]: "v < 256 ^ n \<Longrightarrow> le_val (le_bytes n v) = v"
  by (simp add: le_val_le_bytes)

lemma le_val_less: "le_val bs < 256 ^ length bs"
proof (induction bs)
  case (Cons b bs)
  have "unat b < 256" by (rule unat_byte_less)
  with Cons show ?case by (simp del: unat_byte_less)
qed simp

lemma le_bytes_le_val [simp]: "le_bytes (length bs) (le_val bs) = bs"
proof (induction bs)
  case (Cons b bs)
  have "(unat b + 256 * le_val bs) mod 256 = unat b"
    by simp
  moreover have "(unat b + 256 * le_val bs) div 256 = le_val bs"
    by simp
  ultimately show ?case using Cons by simp
qed simp

lemma le_val_append: "le_val (xs @ ys) = le_val xs + 256 ^ length xs * le_val ys"
  by (induction xs) (simp_all add: algebra_simps)

lemma le_val_inj: "length xs = length ys \<Longrightarrow> le_val xs = le_val ys \<Longrightarrow> xs = ys"
  by (metis le_bytes_le_val)

lemma le_bytes_inj: "v < 256 ^ n \<Longrightarrow> w < 256 ^ n \<Longrightarrow> le_bytes n v = le_bytes n w \<Longrightarrow> v = w"
  by (metis le_val_le_bytes_id)

lemma length_be_bytes [simp]: "length (be_bytes n v) = n"
  by (simp add: be_bytes_def)

lemma be_val_be_bytes [simp]: "v < 256 ^ n \<Longrightarrow> be_val (be_bytes n v) = v"
  by (simp add: be_val_def be_bytes_def)

lemma be_bytes_be_val [simp]: "be_bytes (length bs) (be_val bs) = bs"
  by (metis be_bytes_def be_val_def le_bytes_le_val length_rev rev_rev_ident)

lemma be_val_less: "be_val bs < 256 ^ length bs"
  by (metis be_val_def le_val_less length_rev)

lemma nth_le_bytes: "i < n \<Longrightarrow> le_bytes n v ! i = word_of_nat (v div 256 ^ i mod 256)"
proof (induction n arbitrary: v i)
  case (Suc n)
  then show ?case
    by (cases i) (simp_all add: div_mult2_eq)
qed simp

lemma le_bytes_conv_map: "le_bytes n v = map (\<lambda>i. word_of_nat (v div 256 ^ i mod 256)) [0..<n]"
  by (rule nth_equalityI) (simp_all add: nth_le_bytes)

section \<open>Words read as natural numbers\<close>

lemma unat_word_of_nat_id: "n < 2 ^ LENGTH('a) \<Longrightarrow> unat (word_of_nat n :: 'a::len word) = n"
  by (simp add: unat_of_nat)

lemma unat_drop_bit: "unat (drop_bit n w) = unat w div 2 ^ n"
proof -
  have "unat (drop_bit n w) = drop_bit n (unat w)"
    by (simp add: unsigned_drop_bit_eq take_bit_nat_eq_self)
  then show ?thesis by (simp only: drop_bit_eq_div)
qed

lemma unat_take_bit: "unat (take_bit n w) = unat w mod 2 ^ n"
proof -
  have "unat (take_bit n w) = take_bit n (unat w)"
    by (simp add: unsigned_take_bit_eq)
  then show ?thesis by (simp only: take_bit_eq_mod)
qed

lemma word_of_unat_ucast: "word_of_nat (unat w) = ucast w"
  by simp

section \<open>Strings and bytes\<close>

definition bytes_of_string :: "string \<Rightarrow> bytes" where
  "bytes_of_string s = map (\<lambda>c. word_of_nat (of_char c)) s"

definition string_of_bytes :: "bytes \<Rightarrow> string" where
  "string_of_bytes bs = map (\<lambda>b. char_of (unat b)) bs"

lemma length_bytes_of_string [simp]: "length (bytes_of_string s) = length s"
  by (simp add: bytes_of_string_def)

lemma string_of_bytes_of_string [simp]: "string_of_bytes (bytes_of_string s) = s"
proof -
  have "char_of (unat (word_of_nat (of_char c) :: byte)) = c" for c
    by (subst unat_word_of_nat_id) simp_all
  then show ?thesis by (simp add: string_of_bytes_def bytes_of_string_def comp_def)
qed

lemma bytes_of_string_of_bytes [simp]: "bytes_of_string (string_of_bytes bs) = bs"
proof -
  have "word_of_nat (of_char (char_of (unat b))) = b" for b :: byte
    by (simp add: of_char_of take_bit_nat_eq_self)
  then show ?thesis by (simp add: string_of_bytes_def bytes_of_string_def comp_def)
qed

section \<open>Messages\<close>

text \<open>What the SDK sets and reads of a message of the websocket library.\<close>

record ws_message =
  seq :: string
  packetType :: nat
  payload :: bytes

section \<open>Invariants of transition systems\<close>

text \<open>
  The contract between a step relation and an invariant; the components that are state machines
  interpret it, once for each invariant.
\<close>

locale invariant_system =
  fixes step :: "'w \<Rightarrow> 'w \<Rightarrow> bool"
    and init :: 'w
    and inv :: "'w \<Rightarrow> bool"
  assumes inv_init: "inv init"
    and inv_step: "step w w' \<Longrightarrow> inv w \<Longrightarrow> inv w'"
begin

lemma inv_star: "step\<^sup>*\<^sup>* w w' \<Longrightarrow> inv w \<Longrightarrow> inv w'"
  by (induction rule: rtranclp_induct) (auto intro: inv_step)

lemma inv_reachable: "step\<^sup>*\<^sup>* init w \<Longrightarrow> inv w"
  using inv_star inv_init by blast

end

section \<open>Functional refinement\<close>

text \<open>
  The contract between the operations of a component and the operations of its specification, on
  states that satisfy the component's invariant.
\<close>

locale refinement_system =
  fixes exec :: "'op \<Rightarrow> 's \<Rightarrow> 's"
    and spec :: "'op \<Rightarrow> 'a \<Rightarrow> 'a"
    and abs :: "'s \<Rightarrow> 'a"
    and inv :: "'s \<Rightarrow> bool"
  assumes exec_inv: "inv s \<Longrightarrow> inv (exec op s)"
    and exec_abs: "inv s \<Longrightarrow> abs (exec op s) = spec op (abs s)"
begin

lemma fold_inv: "inv s \<Longrightarrow> inv (fold exec ops s)"
  by (induction ops arbitrary: s) (simp_all add: exec_inv)

lemma fold_abs: "inv s \<Longrightarrow> abs (fold exec ops s) = fold spec ops (abs s)"
  by (induction ops arbitrary: s) (simp_all add: exec_inv exec_abs)

end

end
