(* ===== verification/ScaleStream.thy ===== *)
theory ScaleStream
  imports Prelude
begin

text \<open>
  The two byte streams of the SCALE codec (\<open>utilities/abi/scale\<close>): the encoder appends to a
  byte queue, the decoder walks over a fixed span with an iterator and an index. This theory
  holds the stream operations, the fixed-width integer codec
  (\<open>FixedWidthIntegerCodec.h\<close>) and the compact-integer codec
  (\<open>ScaleEncoderStream.cpp\<close>, \<open>ScaleDecoderStream.cpp\<close>), and proves the two codecs
  against their wire images.
\<close>

unbundle bit_operations_syntax

section \<open>Errors and third-party operations\<close>

text \<open>
  \<open>ScaleEncodeException\<close> and \<open>ScaleDecodeException\<close> are the exceptions of
  \<open>Exceptions.h\<close>, with their comment. \<open>Std_length_error\<close> is the exception of
  \<open>std::vector::resize\<close> that the decoder does not catch. \<open>Span_out_of_range\<close> is a span
  iterator moved past the end of its span, and \<open>Signed_overflow\<close> the negation of the least
  value of a signed type: both are outside the defined behaviour of the source.
\<close>

datatype scale_error =
    ScaleEncodeException string
  | ScaleDecodeException string
  | Std_length_error
  | Span_out_of_range
  | Signed_overflow

datatype alloc_result = Alloc_ok | Alloc_bad_alloc | Alloc_length_error

text \<open>
  What the codec calls outside the repository. \<open>endian_little n v\<close> is the storage of
  \<open>boost::endian::endian_buffer<order::little, I, 8 * n>\<close> holding the value with the
  unsigned representation \<open>v\<close>; \<open>convert_uint b v\<close> is \<open>cpp_int::convert_to\<close> (or the
  explicit conversion) to the unsigned type of \<open>b\<close> bits; \<open>toBigEndian\<close>,
  \<open>fromBigEndian\<close>, \<open>s2u\<close> and \<open>u2s\<close> are the conversions of \<open>bcos-utilities\<close>;
  \<open>vec_alloc n\<close> is the outcome of allocating room for \<open>n\<close> elements.
\<close>

record scale_ext =
  endian_little :: "nat \<Rightarrow> nat \<Rightarrow> bytes"
  convert_uint :: "nat \<Rightarrow> int \<Rightarrow> nat"
  toBigEndian :: "u256 \<Rightarrow> bytes"
  fromBigEndian :: "bytes \<Rightarrow> u256"
  s2u :: "int \<Rightarrow> u256"
  u2s :: "u256 \<Rightarrow> int"
  vec_alloc :: "nat \<Rightarrow> alloc_result"

text \<open>The documented behaviour of those operations, on the arguments the codec gives them.\<close>

definition scale_ext_ok :: "scale_ext \<Rightarrow> bool" where
  "scale_ext_ok X \<longleftrightarrow>
     (\<forall>n v. v < 256 ^ n \<longrightarrow> endian_little X n v = le_bytes n v) \<and>
     (\<forall>b v. 0 \<le> v \<longrightarrow> v < 2 ^ b \<longrightarrow> convert_uint X b v = nat v) \<and>
     (\<forall>v. toBigEndian X v = be_bytes 32 (unat v)) \<and>
     (\<forall>bs. length bs = 32 \<longrightarrow> fromBigEndian X bs = word_of_nat (be_val bs)) \<and>
     (\<forall>v. - (2 ^ 255) \<le> v \<longrightarrow> v < 2 ^ 255 \<longrightarrow> u2s X (s2u X v) = v)"

lemma scale_ext_okD:
  assumes "scale_ext_ok X"
  shows "v < 256 ^ n \<Longrightarrow> endian_little X n v = le_bytes n v"
    and "0 \<le> k \<Longrightarrow> k < 2 ^ b \<Longrightarrow> convert_uint X b k = nat k"
    and "toBigEndian X w = be_bytes 32 (unat w)"
    and "length bs = 32 \<Longrightarrow> fromBigEndian X bs = word_of_nat (be_val bs)"
    and "- (2 ^ 255) \<le> k \<Longrightarrow> k < 2 ^ 255 \<Longrightarrow> u2s X (s2u X k) = k"
  using assms by (simp_all add: scale_ext_ok_def)

section \<open>The streams\<close>

record ScaleEncoderStream =
  m_stream :: bytes

record ScaleDecoderStream =
  m_span :: bytes
  m_currentIterator :: nat
  m_currentIndex :: nat

type_synonym enc_result = "scale_error + ScaleEncoderStream"
type_synonym 'a dec_result = "scale_error + 'a \<times> ScaleDecoderStream"
type_synonym 'a encoder = "'a \<Rightarrow> ScaleEncoderStream \<Rightarrow> enc_result"
type_synonym 'a decoder = "ScaleDecoderStream \<Rightarrow> 'a dec_result"

definition new_encoder :: ScaleEncoderStream where
  "new_encoder = \<lparr>m_stream = []\<rparr>"

definition data :: "ScaleEncoderStream \<Rightarrow> bytes" where
  "data s = m_stream s"

definition putByte :: "byte encoder" where
  "putByte v s = Inr (s\<lparr>m_stream := m_stream s @ [v]\<rparr>)"

definition new_decoder :: "bytes \<Rightarrow> ScaleDecoderStream" where
  "new_decoder sp = \<lparr>m_span = sp, m_currentIterator = 0, m_currentIndex = 0\<rparr>"

definition hasMore :: "nat \<Rightarrow> ScaleDecoderStream \<Rightarrow> bool" where
  "hasMore n s \<longleftrightarrow> m_currentIndex s + n \<le> length (m_span s)"

definition nextByte :: "byte decoder" where
  "nextByte s =
     (if \<not> hasMore 1 s
      then Inl (ScaleDecodeException ''nextByte exception for NOT_ENOUGH_DATA'')
      else if m_currentIterator s < length (m_span s)
      then Inr (m_span s ! m_currentIterator s,
                s\<lparr>m_currentIndex := m_currentIndex s + 1,
                  m_currentIterator := m_currentIterator s + 1\<rparr>)
      else Inl Span_out_of_range)"

text \<open>\<open>for (c : cs) out << c\<close> on bytes.\<close>

primrec putBytes :: "bytes encoder" where
  "putBytes [] s = Inr s"
| "putBytes (c # cs) s = bindE (putByte c s) (putBytes cs)"

text \<open>
  Bulk access: \<open>v.assign(m_currentIterator, m_currentIterator + n)\<close> followed by the two
  increments. There is no \<open>hasMore\<close> test in front of it; advancing a span iterator past the
  end is out of range.
\<close>

definition takeBytes :: "nat \<Rightarrow> bytes decoder" where
  "takeBytes n s =
     (if m_currentIterator s + n \<le> length (m_span s)
      then Inr (take n (drop (m_currentIterator s) (m_span s)),
                s\<lparr>m_currentIterator := m_currentIterator s + n,
                  m_currentIndex := m_currentIndex s + n\<rparr>)
      else Inl Span_out_of_range)"

section \<open>Fixed-width integers\<close>

definition sign_bit :: "u64 list" where
  "sign_bit = [0x80, 0x8000, 0x800000, 0x80000000, 0x8000000000, 0x800000000000,
               0x80000000000000, 0x8000000000000000]"

definition multiplier :: "u64 list" where
  "multiplier = [0x1, 0x100, 0x10000, 0x1000000, 0x100000000, 0x10000000000,
                 0x1000000000000, 0x100000000000000]"

text \<open>
  A C++ integral type is its size in bytes and its signedness; a value of it is the integer it
  denotes. The endian buffer stores the two's complement representation.
\<close>

definition encodeInteger :: "scale_ext \<Rightarrow> nat \<Rightarrow> int encoder" where
  "encodeInteger X sz v s =
     putBytes (endian_little X sz (nat (v mod 2 ^ (8 * sz)))) s"

fun readInteger :: "u64 list \<Rightarrow> u64 \<Rightarrow> u64 decoder" where
  "readInteger [] v s = Inr (v, s)"
| "readInteger (m # ms) v s =
     bindE (nextByte s) (\<lambda>(b, s1). readInteger ms (v + m * ucast b) s1)"

definition decodeInteger :: "bool \<Rightarrow> nat \<Rightarrow> int decoder" where
  "decodeInteger is_unsigned sz s =
     (if \<not> hasMore sz s
      then Inl (ScaleDecodeException ''decodeInteger exception for NOT_ENOUGH_DATA'')
      else bindE (readInteger (take sz multiplier) 0 s) (\<lambda>(v, s1).
        if is_unsigned then Inr (take_bit (8 * sz) (uint v), s1)
        else if v < sign_bit ! (sz - 1) then Inr (signed_take_bit (8 * sz - 1) (uint v), s1)
        else let x = signed_take_bit (8 * sz - 1) (uint (NOT v + 1))
             in if 4 \<le> sz \<and> x = - (2 ^ (8 * sz - 1)) then Inl Signed_overflow
                else Inr (signed_take_bit (8 * sz - 1) (- x), s1)))"

section \<open>Compact integers\<close>

definition kMinUint16 :: nat where "kMinUint16 = 2 ^ 6"
definition kMinUint32 :: nat where "kMinUint32 = 2 ^ 14"
definition kMinBigInteger :: nat where "kMinBigInteger = 2 ^ 30"

fun countBytes :: "nat \<Rightarrow> nat" where
  "countBytes v = (if v div 256 \<noteq> 0 then Suc (countBytes (v div 256)) else 1)"

declare countBytes.simps [simp del]

definition compactLen :: "nat \<Rightarrow> nat" where
  "compactLen val =
     (if val < kMinUint16 then 1
      else if val < kMinUint32 then 2
      else if val < kMinBigInteger then 4
      else countBytes val)"

definition encodeFirstCategory :: "byte encoder" where
  "encodeFirstCategory value out = putByte (push_bit 2 value) out"

definition encodeSecondCategory :: "u16 encoder" where
  "encodeSecondCategory value out =
     (let v = push_bit 2 value + 1;
          minor_byte = ucast (v AND 0xFF);
          v1 = drop_bit 8 v;
          major_byte = ucast (v1 AND 0xFF)
      in bindE (putByte minor_byte out) (putByte major_byte))"

definition encodeThirdCategory :: "scale_ext \<Rightarrow> u32 encoder" where
  "encodeThirdCategory X value out =
     (let v = push_bit 2 value + 2 in encodeInteger X 4 (uint v) out)"

primrec bigBody :: "scale_ext \<Rightarrow> nat \<Rightarrow> int \<Rightarrow> bytes" where
  "bigBody X 0 v = []"
| "bigBody X (Suc n) v =
     word_of_nat (convert_uint X 8 (v AND 0xFF)) # bigBody X n (drop_bit 8 v)"

definition encodeCompactInteger :: "scale_ext \<Rightarrow> int encoder" where
  "encodeCompactInteger X value out =
     (if value < 0
      then Inl (ScaleEncodeException ''encodeCompactInteger exception for NEGATIVE_COMPACT_INTEGER'')
      else if value < int kMinUint16
      then encodeFirstCategory (word_of_nat (convert_uint X 8 value)) out
      else if value < int kMinUint32
      then encodeSecondCategory (word_of_nat (convert_uint X 16 value)) out
      else if value < int kMinBigInteger
      then encodeThirdCategory X (word_of_nat (convert_uint X 32 value)) out
      else let bigIntLength = countBytes (nat value)
           in if bigIntLength > 67
              then Inl (ScaleEncodeException
                          ''encodeCompactInteger exception for COMPACT_INTEGER_TOO_BIG'')
              else let header = ucast ((word_of_nat bigIntLength - 4) * 4 + 3 :: u64)
                   in putBytes (header # bigBody X bigIntLength value) out)"

text \<open>The two accumulating loops of \<open>decodeCompactInteger\<close>.\<close>

primrec readNumber :: "nat \<Rightarrow> u64 \<Rightarrow> u64 \<Rightarrow> u64 decoder" where
  "readNumber 0 number mult s = Inr (number, s)"
| "readNumber (Suc n) number mult s =
     bindE (nextByte s) (\<lambda>(b, s1). readNumber n (number + ucast b * mult) (push_bit 8 mult) s1)"

primrec readBig :: "nat \<Rightarrow> int \<Rightarrow> int \<Rightarrow> int decoder" where
  "readBig 0 value mult s = Inr (value, s)"
| "readBig (Suc n) value mult s =
     bindE (nextByte s) (\<lambda>(b, s1). readBig n (value + uint b * mult) (mult * 256) s1)"

definition decodeCompactInteger :: "int decoder" where
  "decodeCompactInteger s =
     bindE (nextByte s) (\<lambda>(first_byte, s1).
       let flag = first_byte AND 3 in
       if flag = 0 then Inr (uint (ucast (drop_bit 2 first_byte) :: u64), s1)
       else if flag = 1 then
         bindE (nextByte s1) (\<lambda>(second_byte, s2).
           Inr (uint (drop_bit 2 (ucast (first_byte AND 0xFC) + ucast second_byte * 256 :: u64)), s2))
       else if flag = 2 then
         (if \<not> hasMore 3 s1
          then Inl (ScaleDecodeException ''decodeOptionalBool exception for not enough data'')
          else bindE (readNumber 3 (ucast first_byte) 256 s1) (\<lambda>(number, s2).
                 Inr (uint (drop_bit 2 number), s2)))
       else if flag = 3 then
         (let bytes_count = unat (drop_bit 2 first_byte) + 4
          in if \<not> hasMore bytes_count s1
             then Inl (ScaleDecodeException ''decodeCompactInteger exception for not enough data'')
             else readBig bytes_count 0 1 s1)
       else Inl (ScaleDecodeException ''decodeCompactInteger exception for not supported flag''))"

section \<open>Streams at a position\<close>

text \<open>
  \<open>stream_at pre post\<close> is the decoder that has consumed \<open>pre\<close> and has \<open>post\<close> left;
  \<open>appended s bs\<close> is the encoder after writing \<open>bs\<close>. Every decoder state in which the
  iterator and the index agree is of the first form.
\<close>

definition stream_at :: "bytes \<Rightarrow> bytes \<Rightarrow> ScaleDecoderStream" where
  "stream_at pre post =
     \<lparr>m_span = pre @ post, m_currentIterator = length pre, m_currentIndex = length pre\<rparr>"

definition appended :: "ScaleEncoderStream \<Rightarrow> bytes \<Rightarrow> ScaleEncoderStream" where
  "appended s bs = s\<lparr>m_stream := m_stream s @ bs\<rparr>"

definition stream_inv :: "ScaleDecoderStream \<Rightarrow> bool" where
  "stream_inv s \<longleftrightarrow> m_currentIterator s = m_currentIndex s \<and> m_currentIndex s \<le> length (m_span s)"

lemma stream_inv_iff: "stream_inv s \<longleftrightarrow> (\<exists>pre post. s = stream_at pre post)"
proof
  assume "stream_inv s"
  then have "s = stream_at (take (m_currentIndex s) (m_span s)) (drop (m_currentIndex s) (m_span s))"
    by (simp add: stream_inv_def stream_at_def min_def)
  then show "\<exists>pre post. s = stream_at pre post" by blast
qed (auto simp: stream_inv_def stream_at_def)

lemma stream_inv_at [simp, intro]: "stream_inv (stream_at pre post)"
  by (auto simp: stream_inv_iff)

lemma new_decoder_at: "new_decoder bs = stream_at [] bs"
  by (simp add: new_decoder_def stream_at_def)

lemma appended_simps [simp]:
  "appended s [] = s"
  "appended (appended s a) b = appended s (a @ b)"
  "m_stream (appended s a) = m_stream s @ a"
  by (simp_all add: appended_def)

lemma appended_inject [simp]: "appended s a = appended s b \<longleftrightarrow> a = b"
  by (metis appended_simps(3) same_append_eq)

lemma data_new_encoder [simp]: "data (appended new_encoder bs) = bs"
  by (simp add: data_def new_encoder_def)

lemma putByte_eq [codec_simps]: "putByte b s = Inr (appended s [b])"
  by (simp add: putByte_def appended_def)

lemma putBytes_eq [codec_simps]: "putBytes bs s = Inr (appended s bs)"
  by (induction bs arbitrary: s) (simp_all add: putByte_eq)

lemma hasMore_at [codec_simps]: "hasMore n (stream_at pre post) \<longleftrightarrow> n \<le> length post"
  by (simp add: hasMore_def stream_at_def)

lemma nextByte_at [codec_simps]:
  "nextByte (stream_at pre (b # post)) = Inr (b, stream_at (pre @ [b]) post)"
  by (simp add: nextByte_def stream_at_def hasMore_def)

lemma nextByte_at_end [codec_simps]:
  "nextByte (stream_at pre []) = Inl (ScaleDecodeException ''nextByte exception for NOT_ENOUGH_DATA'')"
  by (simp add: nextByte_def stream_at_def hasMore_def)

lemma takeBytes_at [codec_simps]:
  "n = length bs \<Longrightarrow>
     takeBytes n (stream_at pre (bs @ post)) = Inr (bs, stream_at (pre @ bs) post)"
  by (simp add: takeBytes_def stream_at_def)

lemma takeBytes_at_short:
  "length post < n \<Longrightarrow> takeBytes n (stream_at pre post) = Inl Span_out_of_range"
  by (simp add: takeBytes_def stream_at_def)

section \<open>Fixed-width integers against their image\<close>

definition int_image :: "nat \<Rightarrow> int \<Rightarrow> bytes" where
  "int_image sz v = le_bytes sz (nat (v mod 2 ^ (8 * sz)))"

definition int_range :: "bool \<Rightarrow> nat \<Rightarrow> int \<Rightarrow> bool" where
  "int_range is_unsigned sz v \<longleftrightarrow>
     (if is_unsigned then 0 \<le> v \<and> v < 2 ^ (8 * sz)
      else - (2 ^ (8 * sz - 1)) \<le> v \<and> v < 2 ^ (8 * sz - 1))"

lemma pow256: "(256::nat) ^ n = 2 ^ (8 * n)"
  by (simp add: power_mult)

lemma nat_mod_less: "nat (v mod 2 ^ (8 * n)) < 256 ^ n"
proof -
  have "v mod 2 ^ (8 * n) < 2 ^ (8 * n)" by simp
  then have "nat (v mod 2 ^ (8 * n)) < nat (2 ^ (8 * n))" by (subst nat_less_eq_zless) simp_all
  then show ?thesis by (simp add: pow256 nat_power_eq)
qed

lemma length_int_image [simp]: "length (int_image sz v) = sz"
  by (simp add: int_image_def)

lemma encodeInteger_image:
  "scale_ext_ok X \<Longrightarrow> encodeInteger X sz v s = Inr (appended s (int_image sz v))"
  by (simp add: encodeInteger_def scale_ext_okD(1) [OF _ nat_mod_less] putBytes_eq int_image_def)

lemma multiplier_conv:
  assumes "n \<le> 8"
  shows "take n multiplier = map (\<lambda>i. word_of_nat (256 ^ i)) [0..<n]"
proof -
  have m: "multiplier = map (\<lambda>i. word_of_nat (256 ^ i)) [0..<8]"
    by (simp add: multiplier_def upt_rec)
  have "take n [0..<8] = [0..<n]" using assms by simp
  then show ?thesis by (simp only: m take_map)
qed

lemma sign_bit_conv: "0 < n \<Longrightarrow> n \<le> 8 \<Longrightarrow> sign_bit ! (n - 1) = 2 ^ (8 * n - 1)"
  by (auto simp: sign_bit_def le_Suc_eq numeral_eq_Suc)

lemma readInteger_at:
  "length bs = n \<Longrightarrow>
   readInteger (map (\<lambda>i. word_of_nat (256 ^ i)) [k..<k + n]) v (stream_at pre (bs @ post)) =
     Inr (v + word_of_nat (256 ^ k * le_val bs), stream_at (pre @ bs) post)"
proof (induction bs arbitrary: k n v pre)
  case (Cons b bs)
  then obtain m where n: "n = Suc m" and m: "length bs = m" by auto
  have w: "v + word_of_nat (256 ^ k) * ucast b + word_of_nat (256 ^ Suc k * le_val bs) =
        v + (word_of_nat (256 ^ k * (unat b + 256 * le_val bs)) :: u64)"
    by (simp add: algebra_simps)
  have "[k..<k + n] = k # [Suc k..<Suc k + m]"
    by (simp add: n upt_conv_Cons del: upt_Suc)
  then show ?case
    using Cons.IH [OF m, of "Suc k"] w
    by (simp add: nextByte_at del: upt_Suc)
qed simp

lemma uint_le_val:
  assumes "length bs \<le> 8"
  shows "uint (word_of_nat (le_val bs) :: u64) = int (le_val bs)"
proof -
  have "le_val bs < 256 ^ length bs" by (rule le_val_less)
  also have "(256::nat) ^ length bs \<le> 256 ^ 8" using assms by (rule power_increasing) simp
  finally have "le_val bs < 2 ^ LENGTH(64)" by simp
  then have "unat (word_of_nat (le_val bs) :: u64) = le_val bs"
    by (simp add: unat_of_nat)
  then show ?thesis by (metis uint_nat)
qed

lemma signed_take_bit_id:
  "0 < n \<Longrightarrow> - (2 ^ (n - 1)) \<le> v \<Longrightarrow> v < 2 ^ (n - 1) \<Longrightarrow> signed_take_bit (n - 1) (v::int) = v"
  by (rule signed_take_bit_int_eq_self) simp_all

lemma two_pow_pred: "0 < n \<Longrightarrow> (2::int) ^ n = 2 * 2 ^ (n - 1)"
  by (cases n) simp_all

lemma signed_take_bit_pow: "signed_take_bit k (2 ^ k) = - (2 ^ k :: int)"
proof -
  have "(2 ^ k) mod (2 ^ Suc k) = (- (2 ^ k)) mod (2 ^ Suc k :: int)"
    unfolding mod_eq_dvd_iff by simp
  then have "signed_take_bit k (2 ^ k) = signed_take_bit k (- (2 ^ k :: int))"
    by (simp only: signed_take_bit_eq_iff_take_bit_eq take_bit_eq_mod)
  also have "\<dots> = - (2 ^ k)" by (rule signed_take_bit_int_eq_self) simp_all
  finally show ?thesis .
qed

text \<open>
  The negative branch: with \<open>v\<close> the 64-bit value read, \<open>NOT v + 1\<close> is \<open>- v\<close>, and the
  cast to the narrower signed type keeps its low bits.
\<close>

lemma neg_cast:
  fixes w :: u64
  assumes "0 < n" and "n \<le> 64" and "uint w = v mod 2 ^ n"
  shows "signed_take_bit (n - 1) (uint (NOT w + 1)) = signed_take_bit (n - 1) (- v)"
proof -
  have "NOT w + 1 = - w" by (simp add: minus_eq_not_plus_1)
  then have "uint (NOT w + 1) = (- uint w) mod 2 ^ 64"
    by (simp add: uint_word_ariths)
  moreover have "(2::int) ^ n dvd 2 ^ 64"
    using assms(2) by (rule le_imp_power_dvd)
  ultimately have "take_bit n (uint (NOT w + 1)) = take_bit n (- uint w)"
    by (simp only: take_bit_eq_mod mod_mod_cancel)
  also have "\<dots> = take_bit n (- v)"
    by (simp add: assms(3) take_bit_eq_mod mod_minus_eq)
  finally show ?thesis
    using assms(1) by (simp only: signed_take_bit_eq_iff_take_bit_eq Suc_diff_1)
qed

lemma decodeInteger_value:
  assumes "length bs = sz" and "0 < sz" and "sz \<le> 8"
  shows "readInteger (take sz multiplier) 0 (stream_at pre (bs @ post)) =
           Inr (word_of_nat (le_val bs), stream_at (pre @ bs) post)"
  using readInteger_at [OF assms(1), of 0 0 pre post] assms(3)
  by (simp add: multiplier_conv)

lemma uint_int_image:
  assumes "sz \<le> 8"
  shows "uint (word_of_nat (le_val (int_image sz v)) :: u64) = v mod 2 ^ (8 * sz)"
  using uint_le_val [of "int_image sz v"] assms nat_mod_less [of v sz]
  by (simp add: int_image_def)

lemma decodeInteger_unsigned:
  assumes "0 < sz" and "sz \<le> 8" and "int_range True sz v"
  shows "decodeInteger True sz (stream_at pre (int_image sz v @ post)) =
           Inr (v, stream_at (pre @ int_image sz v) post)"
  using assms uint_int_image [OF assms(2), of v]
  by (simp add: decodeInteger_def hasMore_at decodeInteger_value int_range_def take_bit_eq_mod)

text \<open>
  The least value of a signed type of four or more bytes makes the source negate that same
  value; every other value comes back.
\<close>

definition negates_least :: "bool \<Rightarrow> nat \<Rightarrow> int \<Rightarrow> bool" where
  "negates_least is_unsigned sz v \<longleftrightarrow> \<not> is_unsigned \<and> 4 \<le> sz \<and> v = - (2 ^ (8 * sz - 1))"

lemma signed_word_less_sign_bit:
  assumes "0 < sz" and "sz \<le> 8" and "int_range False sz v"
  shows "(word_of_nat (le_val (int_image sz v)) :: u64) < sign_bit ! (sz - 1) \<longleftrightarrow> 0 \<le> v"
proof -
  let ?h = "(2::int) ^ (8 * sz - 1)"
  from assms(1,2) have "8 * sz - 1 < LENGTH(64)" by simp
  then have s: "uint (sign_bit ! (sz - 1)) = ?h"
    unfolding sign_bit_conv [OF assms(1,2)] by (intro uint_2p) (simp add: word_gt_0)
  have d: "2 ^ (8 * sz) = 2 * ?h" by (rule two_pow_pred) (use assms(1) in simp)
  have r: "- ?h \<le> v" "v < ?h" using assms(3) by (simp_all add: int_range_def)
  have "v mod 2 ^ (8 * sz) = (if 0 \<le> v then v else v + 2 * ?h)"
  proof (cases "0 \<le> v")
    case True
    then show ?thesis using r d by simp
  next
    case False
    then have "(v + 2 * ?h) mod (2 * ?h) = v + 2 * ?h" using r by (intro mod_pos_pos_trivial) simp_all
    then show ?thesis using False d by simp
  qed
  then show ?thesis using r uint_int_image [OF assms(2), of v] s
    by (simp add: word_less_def)
qed

lemma decodeInteger_signed:
  assumes "0 < sz" and "sz \<le> 8" and "int_range False sz v"
  shows "decodeInteger False sz (stream_at pre (int_image sz v @ post)) =
           (if negates_least False sz v then Inl Signed_overflow
            else Inr (v, stream_at (pre @ int_image sz v) post))"
proof -
  let ?n = "8 * sz" and ?w = "word_of_nat (le_val (int_image sz v)) :: u64"
  have n: "0 < ?n" "?n \<le> 64" using assms(1,2) by simp_all
  have r: "- (2 ^ (?n - 1)) \<le> v" "v < 2 ^ (?n - 1)" using assms(3) by (simp_all add: int_range_def)
  have id: "signed_take_bit (?n - 1) v = v" using n(1) r by (rule signed_take_bit_id)
  have w: "uint ?w = v mod 2 ^ ?n" by (rule uint_int_image [OF assms(2)])
  have pos: "signed_take_bit (?n - 1) (uint ?w) = v"
  proof -
    have "take_bit ?n (uint ?w) = take_bit ?n v" by (simp add: w take_bit_eq_mod)
    then have "signed_take_bit (?n - 1) (uint ?w) = signed_take_bit (?n - 1) v"
      using n(1) by (simp only: signed_take_bit_eq_iff_take_bit_eq Suc_diff_1)
    with id show ?thesis by simp
  qed
  have neg: "signed_take_bit (?n - 1) (uint (NOT ?w + 1)) =
      (if v = - (2 ^ (?n - 1)) then v else - v)" if "\<not> 0 \<le> v"
  proof (cases "v = - (2 ^ (?n - 1))")
    case True
    with neg_cast [OF n w] signed_take_bit_pow [of "?n - 1"] show ?thesis by simp
  next
    case False
    then have "signed_take_bit (?n - 1) (- v) = - v" using n(1) r that by (intro signed_take_bit_id) simp_all
    with False neg_cast [OF n w] show ?thesis by simp
  qed
  show ?thesis
  proof (cases "0 \<le> v")
    case True
    then have "v \<noteq> - (2 ^ (?n - 1))"
      by (metis neg_0_le_iff_le not_le zero_less_numeral zero_less_power)
    then show ?thesis
      using True assms signed_word_less_sign_bit [OF assms] pos
      by (simp add: decodeInteger_def hasMore_at decodeInteger_value negates_least_def)
  next
    case False
    show ?thesis
      using False assms signed_word_less_sign_bit [OF assms] neg [OF False] id
        signed_take_bit_pow [of "?n - 1"] r(2)
      by (simp add: decodeInteger_def hasMore_at decodeInteger_value negates_least_def Let_def)
  qed
qed

section \<open>Compact integers against their image\<close>

lemma countBytes_pos: "0 < countBytes v"
  by (subst countBytes.simps) simp

lemma countBytes_upper: "v < 256 ^ countBytes v"
proof (induction v rule: countBytes.induct)
  case (1 v)
  show ?case
  proof (cases "v div 256 = 0")
    case True
    then show ?thesis by (subst countBytes.simps) simp
  next
    case False
    then have "v div 256 < 256 ^ countBytes (v div 256)" by (rule 1)
    then have "v < 256 * 256 ^ countBytes (v div 256)" by linarith
    with False show ?thesis by (simp add: countBytes.simps [of v])
  qed
qed

lemma countBytes_lower: "0 < v \<Longrightarrow> 256 ^ (countBytes v - 1) \<le> v"
proof (induction v rule: countBytes.induct)
  case (1 v)
  show ?case
  proof (cases "v div 256 = 0")
    case True
    with "1.prems" show ?thesis by (simp add: countBytes.simps [of v])
  next
    case False
    then have "256 ^ (countBytes (v div 256) - 1) \<le> v div 256" by (intro "1.IH") simp_all
    then have "256 * 256 ^ (countBytes (v div 256) - 1) \<le> v" by linarith
    moreover have "256 * 256 ^ (countBytes (v div 256) - 1) = (256::nat) ^ countBytes (v div 256)"
      using countBytes_pos [of "v div 256"] by (cases "countBytes (v div 256)") simp_all
    ultimately show ?thesis using False by (simp add: countBytes.simps [of v])
  qed
qed

lemma countBytes_le_iff:
  assumes "0 < n"
  shows "countBytes v \<le> n \<longleftrightarrow> v < 256 ^ n"
proof
  assume "countBytes v \<le> n"
  then have "(256::nat) ^ countBytes v \<le> 256 ^ n" by (rule power_increasing) simp
  with countBytes_upper [of v] show "v < 256 ^ n" by linarith
next
  assume lt: "v < 256 ^ n"
  show "countBytes v \<le> n"
  proof (cases "v = 0")
    case True
    with assms show ?thesis by (simp add: countBytes.simps [of 0])
  next
    case False
    with lt countBytes_lower [of v] have "(256::nat) ^ (countBytes v - 1) < 256 ^ n" by linarith
    then have "countBytes v - 1 < n" by (rule power_less_imp_less_exp [rotated]) simp
    then show ?thesis by linarith
  qed
qed

lemma countBytes_big: "2 ^ 30 \<le> v \<Longrightarrow> 4 \<le> countBytes v"
  using countBytes_le_iff [of 3 v] by simp

definition compact_image :: "nat \<Rightarrow> bytes" where
  "compact_image v =
     (if v < 2 ^ 6 then [word_of_nat (4 * v)]
      else if v < 2 ^ 14 then le_bytes 2 (4 * v + 1)
      else if v < 2 ^ 30 then le_bytes 4 (4 * v + 2)
      else word_of_nat ((countBytes v - 4) * 4 + 3) # le_bytes (countBytes v) v)"

definition compact_fits :: "int \<Rightarrow> bool" where
  "compact_fits v \<longleftrightarrow> 0 \<le> v \<and> v < 2 ^ 536"

lemma compact_fits_iff: "compact_fits v \<longleftrightarrow> 0 \<le> v \<and> countBytes (nat v) \<le> 67"
proof -
  have "nat v < 256 ^ 67 \<longleftrightarrow> v < 2 ^ 536" if "0 \<le> v"
    using that by (simp add: nat_less_iff)
  then show ?thesis by (auto simp: compact_fits_def countBytes_le_iff)
qed

lemma bigBody_image:
  "scale_ext_ok X \<Longrightarrow> 0 \<le> v \<Longrightarrow> bigBody X n v = le_bytes n (nat v)"
proof (induction n arbitrary: v)
  case (Suc n)
  have and255: "v AND 255 = v mod 256"
    using take_bit_eq_mask [of 8 v] by (simp add: take_bit_eq_mod mask_eq_exp_minus_1)
  have "convert_uint X 8 (v AND 255) = nat v mod 256"
    using scale_ext_okD(2) [OF Suc.prems(1), of "v mod 256" 8] Suc.prems(2)
    by (simp add: and255 nat_mod_distrib)
  moreover have "nat (drop_bit 8 v) = nat v div 256"
    using Suc.prems(2) by (simp add: drop_bit_eq_div nat_div_distrib)
  ultimately show ?case
    using Suc by (simp add: drop_bit_eq_div)
qed simp

lemma ucast_byte_and: "ucast (v AND 0xFF :: u16) = (word_of_nat (unat v mod 256) :: byte)"
proof -
  have "v AND 0xFF = take_bit 8 v"
    by (simp add: take_bit_eq_mask mask_eq_exp_minus_1)
  then have "unat (v AND 0xFF) = unat v mod 256"
    by (simp only: unat_take_bit) simp
  then show ?thesis by (metis word_of_unat_ucast)
qed

lemma unat_shift_add:
  assumes "4 * n + k < 2 ^ LENGTH('a)"
  shows "unat (push_bit 2 (word_of_nat n) + word_of_nat k :: 'a::len word) = 4 * n + k"
proof -
  have "push_bit 2 (word_of_nat n) + word_of_nat k = (word_of_nat (4 * n + k) :: 'a word)"
    by (simp add: push_bit_eq_mult mult.commute)
  with assms show ?thesis by (simp only: unat_word_of_nat_id)
qed

lemma encodeSecondCategory_image:
  assumes "n < 2 ^ 14"
  shows "encodeSecondCategory (word_of_nat n) out = Inr (appended out (le_bytes 2 (4 * n + 1)))"
proof -
  let ?v = "push_bit 2 (word_of_nat n) + 1 :: u16"
  have v: "unat ?v = 4 * n + 1"
    using assms unat_shift_add [of n 1, where 'a = 16] by simp
  then have "unat (drop_bit 8 ?v) = (4 * n + 1) div 256"
    by (simp add: unat_drop_bit)
  with v show ?thesis
    by (simp add: encodeSecondCategory_def Let_def putByte_eq ucast_byte_and numeral_2_eq_2)
qed

lemma encodeThirdCategory_image:
  assumes "scale_ext_ok X" and "n < 2 ^ 30"
  shows "encodeThirdCategory X (word_of_nat n) out = Inr (appended out (le_bytes 4 (4 * n + 2)))"
proof -
  have "unat (push_bit 2 (word_of_nat n) + 2 :: u32) = 4 * n + 2"
    using assms(2) unat_shift_add [of n 2, where 'a = 32] by simp
  then have u: "uint (push_bit 2 (word_of_nat n) + 2 :: u32) = int (4 * n + 2)"
    by (metis uint_nat)
  have "nat (int (4 * n + 2) mod 2 ^ (8 * 4)) = 4 * n + 2"
    using assms(2) by (subst mod_pos_pos_trivial) simp_all
  then show ?thesis
    using assms(1) by (simp only: encodeThirdCategory_def Let_def encodeInteger_image int_image_def u)
qed

lemma header_byte:
  assumes "4 \<le> n" and "n \<le> 67"
  shows "(ucast ((word_of_nat n - 4) * 4 + 3 :: u64) :: byte) = word_of_nat ((n - 4) * 4 + 3)"
proof -
  have "(word_of_nat n - 4) * 4 + 3 = (word_of_nat ((n - 4) * 4 + 3) :: u64)"
    using assms(1) by (simp add: of_nat_diff)
  moreover have "unat (word_of_nat ((n - 4) * 4 + 3) :: u64) = (n - 4) * 4 + 3"
    using assms(2) by (intro unat_word_of_nat_id) simp
  ultimately show ?thesis by (metis word_of_unat_ucast)
qed

lemma encodeCompactInteger_image:
  assumes X: "scale_ext_ok X" and "compact_fits v"
  shows "encodeCompactInteger X v out = Inr (appended out (compact_image (nat v)))"
proof -
  obtain n where v: "v = int n" and c: "countBytes n \<le> 67"
    using assms(2) by (auto simp: compact_fits_iff elim: nonneg_int_cases)
  note defs = v encodeCompactInteger_def compact_image_def
    kMinUint16_def kMinUint32_def kMinBigInteger_def
  note conv = scale_ext_okD(2) [OF X, of "int n"]
  consider "n < 2 ^ 6" | "2 ^ 6 \<le> n" "n < 2 ^ 14" | "2 ^ 14 \<le> n" "n < 2 ^ 30" | "2 ^ 30 \<le> n"
    by linarith
  then show ?thesis
  proof cases
    case 1
    then show ?thesis using conv [of 8]
      by (simp add: defs encodeFirstCategory_def putByte_eq push_bit_eq_mult mult.commute)
  next
    case 2
    then show ?thesis using conv [of 16] encodeSecondCategory_image [of n] by (simp add: defs)
  next
    case 3
    then show ?thesis using conv [of 32] encodeThirdCategory_image [OF X, of n] by (simp add: defs)
  next
    case 4
    then have "4 \<le> countBytes n" by (rule countBytes_big)
    note h = header_byte [OF this c]
    from 4 c X show ?thesis
      unfolding defs Let_def nat_int h putBytes_eq by (simp add: bigBody_image)
  qed
qed

lemma encodeCompactInteger_error:
  assumes "\<not> compact_fits v"
  shows "\<exists>m. encodeCompactInteger X v out = Inl (ScaleEncodeException m)"
proof (cases "v < 0")
  case False
  then have big: "(2::int) ^ 536 \<le> v" using assms by (simp add: compact_fits_def)
  have "int kMinUint16 \<le> 2 ^ 536" "int kMinUint32 \<le> 2 ^ 536" "int kMinBigInteger \<le> 2 ^ 536"
    by (simp_all add: kMinUint16_def kMinUint32_def kMinBigInteger_def)
  with big have "\<not> v < int kMinUint16" "\<not> v < int kMinUint32" "\<not> v < int kMinBigInteger"
    by linarith+
  moreover have "67 < countBytes (nat v)" using assms False by (simp add: compact_fits_iff)
  ultimately show ?thesis using False by (simp add: encodeCompactInteger_def)
qed (simp add: encodeCompactInteger_def)

lemma readNumber_at:
  "length bs = n \<Longrightarrow>
   readNumber n number mult (stream_at pre (bs @ post)) =
     Inr (number + mult * word_of_nat (le_val bs), stream_at (pre @ bs) post)"
proof (induction bs arbitrary: n number mult pre)
  case (Cons b bs)
  then obtain m where n: "n = Suc m" and m: "length bs = m" by auto
  show ?case
    using Cons.IH [OF m]
    by (simp add: n nextByte_at push_bit_eq_mult algebra_simps)
qed simp

lemma readBig_at:
  "length bs = n \<Longrightarrow>
   readBig n val mult (stream_at pre (bs @ post)) =
     Inr (val + mult * int (le_val bs), stream_at (pre @ bs) post)"
proof (induction bs arbitrary: n val mult pre)
  case (Cons b bs)
  then obtain m where n: "n = Suc m" and m: "length bs = m" by auto
  show ?case
    using Cons.IH [OF m]
    by (simp add: n nextByte_at algebra_simps)
qed simp

lemma unat_flag: "unat (b AND 3 :: byte) = unat b mod 4"
proof -
  have "b AND 3 = take_bit 2 b" by (simp add: take_bit_eq_mask mask_eq_exp_minus_1)
  then show ?thesis by (simp only: unat_take_bit) simp
qed

lemma flag_eq_iff:
  "(b AND 3 :: byte) = 0 \<longleftrightarrow> unat b mod 4 = 0"
  "(b AND 3 :: byte) = 1 \<longleftrightarrow> unat b mod 4 = 1"
  "(b AND 3 :: byte) = 2 \<longleftrightarrow> unat b mod 4 = 2"
  "(b AND 3 :: byte) = 3 \<longleftrightarrow> unat b mod 4 = 3"
  by (simp_all add: word_unat_eq_iff unat_flag)

lemma unat_and_252: "unat (b AND 0xFC :: byte) = 4 * (unat b div 4)"
proof -
  have "b AND 0xFC = push_bit 2 (drop_bit 2 b)"
    by (rule bit_word_eqI) (simp add: bit_simps, auto simp: bit_numeral_rec bit_1_iff less_Suc_eq numeral_eq_Suc bit_Suc)
  then have "unat (b AND 0xFC) = unat (push_bit 2 (drop_bit 2 b))" by simp
  also have "\<dots> = 4 * unat (drop_bit 2 b) mod 256"
    by (simp add: push_bit_eq_mult unat_word_ariths mult.commute)
  also have "\<dots> = 4 * (unat b div 4) mod 256" by (simp add: unat_drop_bit)
  also have "4 * (unat b div 4) < 256"
    using unat_byte_less [of b] div_times_less_eq_dividend [of "unat b" 4] by linarith
  then have "4 * (unat b div 4) mod 256 = 4 * (unat b div 4)" by simp
  finally show ?thesis .
qed

text \<open>Reading the number a word denotes: everything is moved to natural numbers.\<close>

lemma uint_eqI: "unat w = n \<Longrightarrow> uint w = int n"
  by auto

lemma unat_ucast_u64: "unat (ucast (b :: byte) :: u64) = unat b"
proof -
  have "unat b < 2 ^ LENGTH(64)" by (rule order.strict_trans [OF unat_byte_less]) simp
  then have "unat (word_of_nat (unat b) :: u64) = unat b" by (rule unat_word_of_nat_id)
  then show ?thesis by simp
qed

lemma quad_byte_split:
  assumes "k < (4::nat)"
  shows "(4 * n + k) mod 256 = 4 * (n mod 64) + k" and "(4 * n + k) div 256 = n div 64"
proof -
  have e: "4 * n + k = 4 * (n mod 64) + k + 256 * (n div 64)"
    using div_mult_mod_eq [of n 64] by linarith
  have "n mod 64 < 64" by simp
  then have l: "4 * (n mod 64) + k < 256" using assms by linarith
  show "(4 * n + k) mod 256 = 4 * (n mod 64) + k" unfolding e using l by simp
  show "(4 * n + k) div 256 = n div 64" unfolding e using l by simp
qed

lemma decode_first_category:
  assumes "n < 2 ^ 6"
  shows "decodeCompactInteger (stream_at pre (word_of_nat (4 * n) # post)) =
           Inr (int n, stream_at (pre @ [word_of_nat (4 * n)]) post)"
proof -
  let ?b = "word_of_nat (4 * n) :: byte"
  have b: "unat ?b = 4 * n" using assms by (intro unat_word_of_nat_id) simp
  have f: "?b AND 3 = 0" unfolding flag_eq_iff(1) b by simp
  have "uint (ucast (drop_bit 2 ?b) :: u64) = int n"
    by (rule uint_eqI) (simp only: unat_ucast_u64 unat_drop_bit b, simp)
  with f show ?thesis
    unfolding decodeCompactInteger_def nextByte_at bindE_simps prod.case Let_def by simp
qed

lemma decode_second_category:
  assumes "n < 2 ^ 14"
  shows "decodeCompactInteger (stream_at pre (le_bytes 2 (4 * n + 1) @ post)) =
           Inr (int n, stream_at (pre @ le_bytes 2 (4 * n + 1)) post)"
proof -
  let ?m = "4 * n + 1"
  let ?b = "word_of_nat (?m mod 256) :: byte" and ?c = "word_of_nat (?m div 256 mod 256) :: byte"
  have img: "le_bytes 2 ?m = [?b, ?c]" by (simp add: numeral_2_eq_2)
  have "?m div 256 < 256" using assms by simp
  then have c: "unat ?c = ?m div 256" by (subst unat_byte_of_nat) (rule mod_less)
  have b: "unat ?b = ?m mod 256" by (rule unat_byte_of_nat)
  have q: "?m mod 256 = 4 * (n mod 64) + 1" "?m div 256 = n div 64"
    by (rule quad_byte_split, simp)+
  have f: "?b AND 3 = 1" unfolding flag_eq_iff(2) b unfolding q by simp
  let ?s = "ucast (?b AND 0xFC) + ucast ?c * 256 :: u64"
  have small: "4 * (unat ?b div 4) + unat ?c * 256 < 2 ^ 64"
    unfolding b c unfolding q using assms by simp
  have "unat ?s = 4 * (unat ?b div 4) + unat ?c * 256"
    using small by (simp only: unat_word_ariths unat_ucast_u64 unat_and_252) simp
  also have "\<dots> div 4 = (4 * (n mod 64) + 1) div 4 + n div 64 * 64"
    unfolding b c unfolding q by simp
  also have "(4 * (n mod 64) + 1) div 4 = n mod 64" by simp
  also have "n mod 64 + n div 64 * 64 = n" by simp
  finally have "uint (drop_bit 2 ?s) = int n"
    by (intro uint_eqI) (simp add: unat_drop_bit)
  with f show ?thesis
    unfolding decodeCompactInteger_def img append_Cons append_Nil nextByte_at bindE_simps prod.case Let_def
    by simp
qed

lemma decode_third_category:
  assumes "n < 2 ^ 30"
  shows "decodeCompactInteger (stream_at pre (le_bytes 4 (4 * n + 2) @ post)) =
           Inr (int n, stream_at (pre @ le_bytes 4 (4 * n + 2)) post)"
proof -
  let ?m = "4 * n + 2"
  let ?b = "word_of_nat (?m mod 256) :: byte" and ?r = "le_bytes 3 (?m div 256)"
  have img: "le_bytes 4 ?m = ?b # ?r"
    using le_bytes.simps(2) [of 3 ?m] by (simp only: eval_nat_numeral BitM.simps)
  have b: "unat ?b = ?m mod 256" by (rule unat_byte_of_nat)
  have q: "?m mod 256 = 4 * (n mod 64) + 2" by (rule quad_byte_split) simp
  have f: "?b AND 3 = 2" unfolding flag_eq_iff(3) b unfolding q mod_mult_self4 by simp
  have r: "le_val ?r = ?m div 256" using assms by (intro le_val_le_bytes_id) simp
  let ?s = "ucast ?b + 256 * word_of_nat (le_val ?r) :: u64"
  have "?s = word_of_nat (unat ?b + 256 * le_val ?r)"
    by (simp only: of_nat_add of_nat_mult word_of_unat_ucast of_nat_numeral)
  also have "unat ?b + 256 * le_val ?r = ?m" unfolding b r by (rule mod_mult_div_eq)
  finally have e: "?s = word_of_nat ?m" .
  have "unat ?s = ?m" unfolding e using assms by (intro unat_word_of_nat_id) simp
  then have u: "uint (drop_bit 2 ?s) = int n"
    by (intro uint_eqI) (simp add: unat_drop_bit)
  have rd: "readNumber 3 (ucast ?b) 256 (stream_at (pre @ [?b]) (?r @ post)) =
      Inr (?s, stream_at ((pre @ [?b]) @ ?r) post)"
    by (rule readNumber_at) simp
  show ?thesis
    unfolding decodeCompactInteger_def img append_Cons nextByte_at bindE_simps prod.case Let_def f
      hasMore_at rd using u by simp
qed

lemma decode_big_category:
  assumes "4 \<le> k" and "k \<le> 67" and "n < 256 ^ k"
  defines "h \<equiv> word_of_nat ((k - 4) * 4 + 3)"
  shows "decodeCompactInteger (stream_at pre (h # le_bytes k n @ post)) =
           Inr (int n, stream_at (pre @ h # le_bytes k n) post)"
proof -
  have h: "unat h = (k - 4) * 4 + 3"
    unfolding h_def using assms(2) by (intro unat_word_of_nat_id) simp
  then have f: "h AND 3 = 3" unfolding flag_eq_iff(4) by simp
  have c: "unat (drop_bit 2 h) + 4 = k"
    using assms(1) by (simp add: unat_drop_bit h)
  have rd: "readBig k 0 1 (stream_at (pre @ [h]) (le_bytes k n @ post)) =
      Inr (0 + 1 * int (le_val (le_bytes k n)), stream_at ((pre @ [h]) @ le_bytes k n) post)"
    by (rule readBig_at) simp
  show ?thesis
    unfolding decodeCompactInteger_def nextByte_at bindE_simps prod.case Let_def f c hasMore_at rd
    using assms(3) by simp
qed

lemma decodeCompactInteger_image:
  assumes "compact_fits v"
  shows "decodeCompactInteger (stream_at pre (compact_image (nat v) @ post)) =
           Inr (v, stream_at (pre @ compact_image (nat v)) post)"
proof -
  obtain n where v: "v = int n" and c: "countBytes n \<le> 67"
    using assms by (auto simp: compact_fits_iff elim: nonneg_int_cases)
  consider "n < 2 ^ 6" | "2 ^ 6 \<le> n" "n < 2 ^ 14" | "2 ^ 14 \<le> n" "n < 2 ^ 30" | "2 ^ 30 \<le> n"
    by linarith
  then show ?thesis
  proof cases
    case 1
    then show ?thesis using decode_first_category [of n pre post] by (simp add: v compact_image_def)
  next
    case 2
    then show ?thesis using decode_second_category [of n pre post] by (simp add: v compact_image_def)
  next
    case 3
    then show ?thesis using decode_third_category [of n pre post] by (simp add: v compact_image_def)
  next
    case 4
    from decode_big_category [OF countBytes_big [OF 4] c countBytes_upper, of pre post]
    show ?thesis using 4 unfolding v compact_image_def nat_int by simp
  qed
qed

end
