(* ===== verification/ScaleCodec.thy ===== *)
theory ScaleCodec
  imports ScaleStream
begin

text \<open>
  The overloads of \<open>operator<<\<close> and \<open>operator>>\<close> in \<open>ScaleEncoderStream.h\<close> and
  \<open>ScaleDecoderStream.h\<close>. A C++ template over element types is a definition that takes the
  element encoders and decoders as arguments; overload resolution over all types built from the
  overloads is the pair \<open>encode_ty\<close>, \<open>decode_ty\<close> over the type codes \<open>sty\<close>. The
  locale \<open>scale_codec\<close> is the contract of one overload, and every overload is shown to meet
  it whenever its element types do.
\<close>

section \<open>Overloads\<close>

subsection \<open>Booleans and integers\<close>

definition encode_bool :: "bool encoder" where
  "encode_bool v s = putByte (if v then 1 else 0) s"

definition decodeBool :: "bool decoder" where
  "decodeBool s =
     bindE (nextByte s) (\<lambda>(b, s1).
       if b = 0 then Inr (False, s1)
       else if b = 1 then Inr (True, s1)
       else Inl (ScaleDecodeException ''decodeBool exception for UNEXPECTED_VALUE''))"

definition encode_integral :: "scale_ext \<Rightarrow> nat \<Rightarrow> int encoder" where
  "encode_integral X sz v s =
     (if sz = 1 then putByte (word_of_int v) s else encodeInteger X sz v s)"

definition byte_value :: "bool \<Rightarrow> byte \<Rightarrow> int" where
  "byte_value is_unsigned b = (if is_unsigned then uint b else sint b)"

definition decode_integral :: "bool \<Rightarrow> nat \<Rightarrow> int decoder" where
  "decode_integral is_unsigned sz s =
     (if sz = 1 then bindE (nextByte s) (\<lambda>(b, s1). Inr (byte_value is_unsigned b, s1))
      else decodeInteger is_unsigned sz s)"

subsection \<open>256-bit integers\<close>

definition encode_u256 :: "scale_ext \<Rightarrow> u256 encoder" where
  "encode_u256 X v s = Inr (s\<lparr>m_stream := m_stream s @ toBigEndian X v\<rparr>)"

definition decode_u256 :: "scale_ext \<Rightarrow> u256 decoder" where
  "decode_u256 X s = bindE (takeBytes 32 s) (\<lambda>(bs, s1). Inr (fromBigEndian X bs, s1))"

definition encode_s256 :: "scale_ext \<Rightarrow> int encoder" where
  "encode_s256 X v s = encode_u256 X (s2u X v) s"

definition decode_s256 :: "scale_ext \<Rightarrow> int decoder" where
  "decode_s256 X s = bindE (decode_u256 X s) (\<lambda>(u, s1). Inr (u2s X u, s1))"

subsection \<open>Pairs, tuples and variants\<close>

definition encode_pair :: "'a encoder \<Rightarrow> 'b encoder \<Rightarrow> ('a \<times> 'b) encoder" where
  "encode_pair e1 e2 p s = bindE (e1 (fst p) s) (e2 (snd p))"

definition decode_pair :: "'a decoder \<Rightarrow> 'b decoder \<Rightarrow> ('a \<times> 'b) decoder" where
  "decode_pair d1 d2 s =
     bindE (d1 s) (\<lambda>(a, s1). bindE (d2 s1) (\<lambda>(b, s2). Inr ((a, b), s2)))"

text \<open>
  A tuple is the list of its components, with one encoder per component; the recursion over the
  index \<open>I\<close> is the recursion over both lists.
\<close>

fun encodeElementOfTuple :: "'a encoder list \<Rightarrow> 'a list encoder" where
  "encodeElementOfTuple (e # es) (v # vs) s = bindE (e v s) (encodeElementOfTuple es vs)"
| "encodeElementOfTuple _ _ s = Inr s"

fun decodeElementOfTuple :: "'a decoder list \<Rightarrow> 'a list decoder" where
  "decodeElementOfTuple [] s = Inr ([], s)"
| "decodeElementOfTuple (d # ds) s =
     bindE (d s) (\<lambda>(v, s1). bindE (decodeElementOfTuple ds s1) (\<lambda>(vs, s2). Inr (v # vs, s2)))"

text \<open>
  A variant value is the position of its type among the alternatives and the value. The encoder
  walks the alternatives from \<open>I\<close> on until the type matches.
\<close>

fun tryEncodeAsOneOfVariant :: "nat \<Rightarrow> 'a encoder list \<Rightarrow> (nat \<times> 'a) encoder" where
  "tryEncodeAsOneOfVariant I [] v s = Inr s"
| "tryEncodeAsOneOfVariant I (e # es) (i, x) s =
     (if i = I then bindE (putByte (word_of_nat I) s) (e x)
      else tryEncodeAsOneOfVariant (Suc I) es (i, x) s)"

fun tryDecodeAsOneOfVariant :: "nat \<Rightarrow> 'a decoder list \<Rightarrow> nat \<Rightarrow> (nat \<times> 'a) option decoder" where
  "tryDecodeAsOneOfVariant I [] i s = Inr (None, s)"
| "tryDecodeAsOneOfVariant I (d # ds) i s =
     (if I = i then bindE (d s) (\<lambda>(x, s1). Inr (Some (I, x), s1))
      else tryDecodeAsOneOfVariant (Suc I) ds i s)"

definition encode_variant :: "'a encoder list \<Rightarrow> (nat \<times> 'a) encoder" where
  "encode_variant es v s = tryEncodeAsOneOfVariant 0 es v s"

text \<open>\<open>old\<close> is the value of the variant before the call, kept if no alternative is taken.\<close>

definition decode_variant :: "nat \<times> 'a \<Rightarrow> 'a decoder list \<Rightarrow> (nat \<times> 'a) decoder" where
  "decode_variant old ds s =
     bindE (decode_integral True 1 s) (\<lambda>(type_index, s1).
       if int (length ds) \<le> type_index
       then Inl (ScaleDecodeException ''exception for WRONG_TYPE_INDEX'')
       else bindE (tryDecodeAsOneOfVariant 0 ds (nat type_index) s1) (\<lambda>(r, s2).
         Inr (case r of None \<Rightarrow> old | Some v \<Rightarrow> v, s2)))"

subsection \<open>Pointers and optionals\<close>

definition encode_ptr :: "'a encoder \<Rightarrow> 'a option encoder" where
  "encode_ptr e v s =
     (case v of None \<Rightarrow> Inl (ScaleEncodeException ''encode exception for DEREF_NULLPOINTER'')
      | Some x \<Rightarrow> e x s)"

definition decode_ptr :: "'a decoder \<Rightarrow> 'a option decoder" where
  "decode_ptr d s = bindE (d s) (\<lambda>(x, s1). Inr (Some x, s1))"

definition encodeOptionalBool :: "bool option encoder" where
  "encodeOptionalBool v s =
     putByte (case v of None \<Rightarrow> 0 | Some b \<Rightarrow> if \<not> b then 2 else 1) s"

definition decodeOptionalBool :: "bool option decoder" where
  "decodeOptionalBool s =
     bindE (nextByte s) (\<lambda>(b, s1).
       if b = 0 then Inr (None, s1)
       else if b = 2 then Inr (Some False, s1)
       else if b = 1 then Inr (Some True, s1)
       else Inl (ScaleDecodeException ''decodeOptionalBool exception for unexpected value''))"

definition encode_optional :: "'a encoder \<Rightarrow> 'a option encoder" where
  "encode_optional e v s =
     (case v of None \<Rightarrow> putByte 0 s | Some x \<Rightarrow> bindE (putByte 1 s) (e x))"

definition decode_optional :: "'a decoder \<Rightarrow> 'a option decoder" where
  "decode_optional d s =
     bindE (decodeBool s) (\<lambda>(has_value, s1).
       if \<not> has_value then Inr (None, s1)
       else bindE (d s1) (\<lambda>(x, s2). Inr (Some x, s2)))"

subsection \<open>Collections\<close>

primrec encode_each :: "'a encoder \<Rightarrow> 'a list encoder" where
  "encode_each e [] s = Inr s"
| "encode_each e (x # xs) s = bindE (e x s) (encode_each e xs)"

primrec decode_each :: "'a decoder \<Rightarrow> nat \<Rightarrow> 'a list decoder" where
  "decode_each d 0 s = Inr ([], s)"
| "decode_each d (Suc n) s =
     bindE (d s) (\<lambda>(x, s1). bindE (decode_each d n s1) (\<lambda>(xs, s2). Inr (x # xs, s2)))"

definition encodeCollection :: "scale_ext \<Rightarrow> 'a encoder \<Rightarrow> int \<Rightarrow> 'a list encoder" where
  "encodeCollection X e n xs s = bindE (encodeCompactInteger X n s) (encode_each e xs)"

definition encode_vector :: "scale_ext \<Rightarrow> 'a encoder \<Rightarrow> 'a list encoder" where
  "encode_vector X e c s = encodeCollection X e (int (length c)) c s"

text \<open>
  \<open>bulk\<close> is the byte conversion of an element type of size one, for which the decoder copies
  the bytes without reading them one by one.
\<close>

definition decode_vector :: "scale_ext \<Rightarrow> (byte \<Rightarrow> 'a) option \<Rightarrow> 'a decoder \<Rightarrow> 'a list decoder" where
  "decode_vector X bulk d s =
     bindE (decodeCompactInteger s) (\<lambda>(n, s1).
       let item_count = convert_uint X 64 n in
       case vec_alloc X item_count of
         Alloc_bad_alloc \<Rightarrow> Inl (ScaleDecodeException ''exception for TOO_MANY_ITEMS'')
       | Alloc_length_error \<Rightarrow> Inl Std_length_error
       | Alloc_ok \<Rightarrow>
           (case bulk of
              Some f \<Rightarrow> bindE (takeBytes item_count s1) (\<lambda>(bs, s2). Inr (map f bs, s2))
            | None \<Rightarrow> decode_each d item_count s1))"

text \<open>\<open>std::map\<close> is the list of its entries in key order; \<open>emplace\<close> keeps a present key.\<close>

fun map_emplace :: "'k::linorder \<Rightarrow> 'v \<Rightarrow> ('k \<times> 'v) list \<Rightarrow> ('k \<times> 'v) list" where
  "map_emplace k v [] = [(k, v)]"
| "map_emplace k v ((k', v') # m) =
     (if k < k' then (k, v) # (k', v') # m
      else if k = k' then (k', v') # m
      else (k', v') # map_emplace k v m)"

definition encode_map ::
    "scale_ext \<Rightarrow> 'k encoder \<Rightarrow> 'v encoder \<Rightarrow> ('k::linorder \<times> 'v) list encoder" where
  "encode_map X ek ev c s = encodeCollection X (encode_pair ek ev) (int (length c)) c s"

primrec decode_entries ::
    "('k \<times> 'v) decoder \<Rightarrow> nat \<Rightarrow> ('k::linorder \<times> 'v) list \<Rightarrow> ('k \<times> 'v) list decoder" where
  "decode_entries d 0 m s = Inr (m, s)"
| "decode_entries d (Suc n) m s =
     bindE (d s) (\<lambda>((k, v), s1). decode_entries d n (map_emplace k v m) s1)"

definition decode_map ::
    "scale_ext \<Rightarrow> 'k decoder \<Rightarrow> 'v decoder \<Rightarrow> ('k::linorder \<times> 'v) list decoder" where
  "decode_map X dk dv s =
     bindE (decodeCompactInteger s) (\<lambda>(n, s1).
       decode_entries (decode_pair dk dv) (convert_uint X 64 n) [] s1)"

definition encode_array :: "'a encoder \<Rightarrow> 'a list encoder" where
  "encode_array e a s = encode_each e a s"

definition decode_array :: "nat \<Rightarrow> 'a decoder \<Rightarrow> 'a list decoder" where
  "decode_array n d s = decode_each d n s"

definition encode_fixed_bytes :: "bytes encoder" where
  "encode_fixed_bytes v s = encode_each putByte v s"

definition decode_fixed_bytes :: "nat \<Rightarrow> bytes decoder" where
  "decode_fixed_bytes n s = decode_each nextByte n s"

definition encode_string :: "scale_ext \<Rightarrow> bytes encoder" where
  "encode_string X sv s = encodeCollection X putByte (int (length sv)) sv s"

definition decode_string :: "scale_ext \<Rightarrow> bytes decoder" where
  "decode_string X s = decode_vector X (Some (\<lambda>b. b)) nextByte s"

subsection \<open>Entry points\<close>

definition scale_encode :: "'a encoder \<Rightarrow> 'a \<Rightarrow> scale_error + bytes" where
  "scale_encode e v = bindE (e v new_encoder) (\<lambda>s. Inr (data s))"

definition scale_decode :: "'a decoder \<Rightarrow> bytes \<Rightarrow> scale_error + 'a" where
  "scale_decode d sp = bindE (d (new_decoder sp)) (\<lambda>(v, s). Inr v)"

section \<open>The contract of a codec\<close>

locale scale_codec =
  fixes enc :: "'a encoder"
    and dec :: "'a decoder"
    and image :: "'a \<Rightarrow> bytes"
    and ok :: "'a \<Rightarrow> bool"
  assumes enc_image: "ok v \<Longrightarrow> enc v s = Inr (appended s (image v))"
    and dec_image:
      "ok v \<Longrightarrow> dec (stream_at pre (image v @ post)) = Inr (v, stream_at (pre @ image v) post)"
begin

lemma encode_decode:
  assumes "ok v"
  shows "scale_encode enc v = Inr (image v)" and "scale_decode dec (image v @ rest) = Inr v"
  using enc_image [OF assms, of new_encoder] dec_image [OF assms, of "[]" rest]
  by (simp_all add: scale_encode_def scale_decode_def new_decoder_at)

lemma image_prefix_free:
  assumes "ok v" and "ok w" and "image v @ p = image w @ q"
  shows "v = w \<and> p = q"
proof -
  have "scale_decode dec (image v @ p) = Inr v" by (rule encode_decode(2) [OF assms(1)])
  moreover have "scale_decode dec (image w @ q) = Inr w" by (rule encode_decode(2) [OF assms(2)])
  ultimately have "v = w" using assms(3) by simp
  with assms(3) show ?thesis by simp
qed

lemma each_image:
  assumes "\<forall>v \<in> set vs. ok v"
  shows "encode_each enc vs s = Inr (appended s (concat (map image vs)))"
    and "decode_each dec (length vs) (stream_at pre (concat (map image vs) @ post)) =
           Inr (vs, stream_at (pre @ concat (map image vs)) post)"
proof -
  show "encode_each enc vs s = Inr (appended s (concat (map image vs)))"
    using assms by (induction vs arbitrary: s) (simp_all add: enc_image)
  show "decode_each dec (length vs) (stream_at pre (concat (map image vs) @ post)) =
          Inr (vs, stream_at (pre @ concat (map image vs)) post)"
    using assms by (induction vs arbitrary: pre) (simp_all add: dec_image)
qed

end

section \<open>The overloads meet the contract\<close>

subsection \<open>Scalars\<close>

interpretation bool_codec: scale_codec encode_bool decodeBool "\<lambda>v. [if v then 1 else 0]" "\<lambda>_. True"
  by unfold_locales (simp_all add: encode_bool_def decodeBool_def codec_simps)

interpretation opt_bool_codec: scale_codec encodeOptionalBool decodeOptionalBool
  "\<lambda>v. [case v of None \<Rightarrow> 0 | Some b \<Rightarrow> if b then 1 else 2]" "\<lambda>_. True"
  by unfold_locales
     (simp_all add: encodeOptionalBool_def decodeOptionalBool_def codec_simps split: option.split)

interpretation byte_codec: scale_codec putByte nextByte "\<lambda>b. [b]" "\<lambda>_. True"
  by unfold_locales (simp_all add: codec_simps)

interpretation compact_codec: scale_codec "encodeCompactInteger X" decodeCompactInteger
  "\<lambda>v. compact_image (nat v)" "\<lambda>v. scale_ext_ok X \<and> compact_fits v" for X
  by unfold_locales (simp_all add: encodeCompactInteger_image decodeCompactInteger_image)

definition integral_ok :: "scale_ext \<Rightarrow> bool \<Rightarrow> nat \<Rightarrow> int \<Rightarrow> bool" where
  "integral_ok X is_unsigned sz v \<longleftrightarrow>
     scale_ext_ok X \<and> 0 < sz \<and> sz \<le> 8 \<and> int_range is_unsigned sz v \<and> \<not> negates_least is_unsigned sz v"

lemma int_image_1: "int_image 1 v = [word_of_int v]"
proof -
  have "word_of_nat (nat (v mod 2 ^ 8) mod 256) = (word_of_int (v mod 256) :: byte)"
    by (simp add: nat_mod_distrib)
  also have "\<dots> = word_of_int v"
    by (rule word_of_int_eq_iff [THEN iffD2]) (simp add: take_bit_eq_mod)
  finally show ?thesis by (simp add: int_image_def)
qed

lemma byte_value_of_int: "int_range is_unsigned 1 v \<Longrightarrow> byte_value is_unsigned (word_of_int v) = v"
  by (auto simp: int_range_def byte_value_def take_bit_eq_mod signed_of_int uint_word_of_int
      signed_take_bit_int_eq_self)

interpretation integral_codec: scale_codec "encode_integral X sz" "decode_integral is_unsigned sz"
  "int_image sz" "integral_ok X is_unsigned sz" for X is_unsigned sz
proof unfold_locales
  fix v s assume "integral_ok X is_unsigned sz v"
  then show "encode_integral X sz v s = Inr (appended s (int_image sz v))"
    by (cases "sz = 1")
       (simp_all add: integral_ok_def encode_integral_def int_image_1 [simplified] putByte_eq encodeInteger_image)
next
  fix v pre post assume ok: "integral_ok X is_unsigned sz v"
  show "decode_integral is_unsigned sz (stream_at pre (int_image sz v @ post)) =
          Inr (v, stream_at (pre @ int_image sz v) post)"
  proof (cases "sz = 1")
    case True
    with ok show ?thesis
      by (simp add: integral_ok_def decode_integral_def int_image_1 [simplified] nextByte_at
          byte_value_of_int [simplified])
  next
    case False
    with ok show ?thesis
      by (cases is_unsigned)
         (simp_all add: integral_ok_def decode_integral_def decodeInteger_unsigned decodeInteger_signed)
  qed
qed

interpretation u256_codec: scale_codec "encode_u256 X" "decode_u256 X"
  "\<lambda>v. be_bytes 32 (unat v)" "\<lambda>_. scale_ext_ok X" for X
proof unfold_locales
  fix v :: u256 and s assume "scale_ext_ok X"
  then show "encode_u256 X v s = Inr (appended s (be_bytes 32 (unat v)))"
    by (simp add: encode_u256_def scale_ext_okD(3) appended_def)
next
  fix v :: u256 and pre post assume X: "scale_ext_ok X"
  have "unat v < 2 ^ LENGTH(256)" by (rule unsigned_less)
  then have "unat v < 256 ^ 32" by simp
  then have "fromBigEndian X (be_bytes 32 (unat v)) = v"
    by (simp add: scale_ext_okD(4) [OF X])
  then show "decode_u256 X (stream_at pre (be_bytes 32 (unat v) @ post)) =
               Inr (v, stream_at (pre @ be_bytes 32 (unat v)) post)"
    by (simp add: decode_u256_def takeBytes_at)
qed

definition s256_ok :: "scale_ext \<Rightarrow> int \<Rightarrow> bool" where
  "s256_ok X v \<longleftrightarrow> scale_ext_ok X \<and> - (2 ^ 255) \<le> v \<and> v < 2 ^ 255"

interpretation s256_codec: scale_codec "encode_s256 X" "decode_s256 X"
  "\<lambda>v. be_bytes 32 (unat (s2u X v))" "s256_ok X" for X
  by unfold_locales
     (auto simp: encode_s256_def decode_s256_def s256_ok_def u256_codec.enc_image
        u256_codec.dec_image scale_ext_okD(5))

subsection \<open>Products, variants, optionals\<close>

lemma pair_codec:
  assumes "scale_codec e1 d1 i1 o1" and "scale_codec e2 d2 i2 o2"
  shows "scale_codec (encode_pair e1 e2) (decode_pair d1 d2)
           (\<lambda>p. i1 (fst p) @ i2 (snd p)) (\<lambda>p. o1 (fst p) \<and> o2 (snd p))"
  by unfold_locales
     (auto simp: encode_pair_def decode_pair_def scale_codec.enc_image [OF assms(1)]
        scale_codec.enc_image [OF assms(2)] scale_codec.dec_image [OF assms(1)]
        scale_codec.dec_image [OF assms(2), of _ "_ @ _", simplified])

lemma ptr_codec:
  assumes "scale_codec e d i ok"
  shows "scale_codec (encode_ptr e) (decode_ptr d) (\<lambda>v. i (the v)) (\<lambda>v. v \<noteq> None \<and> ok (the v))"
  by unfold_locales
     (auto simp: encode_ptr_def decode_ptr_def scale_codec.enc_image [OF assms]
        scale_codec.dec_image [OF assms])

lemma optional_codec:
  assumes "scale_codec e d i ok"
  shows "scale_codec (encode_optional e) (decode_optional d)
           (\<lambda>v. case v of None \<Rightarrow> [0] | Some x \<Rightarrow> 1 # i x)
           (\<lambda>v. case v of None \<Rightarrow> True | Some x \<Rightarrow> ok x)"
proof
  fix v s assume "case v of None \<Rightarrow> True | Some x \<Rightarrow> ok x"
  then show "encode_optional e v s =
      Inr (appended s (case v of None \<Rightarrow> [0] | Some x \<Rightarrow> 1 # i x))"
    by (auto simp: encode_optional_def putByte_eq scale_codec.enc_image [OF assms] split: option.splits)
next
  fix v pre post assume "case v of None \<Rightarrow> True | Some x \<Rightarrow> ok x"
  then show "decode_optional d (stream_at pre ((case v of None \<Rightarrow> [0] | Some x \<Rightarrow> 1 # i x) @ post)) =
      Inr (v, stream_at (pre @ (case v of None \<Rightarrow> [0] | Some x \<Rightarrow> 1 # i x)) post)"
    by (auto simp: decode_optional_def decodeBool_def nextByte_at scale_codec.dec_image [OF assms]
        split: option.splits)
qed

lemma tuple_codec:
  assumes "list_all (\<lambda>(e, d, i, ok). scale_codec e d i ok) cs"
  shows "scale_codec (encodeElementOfTuple (map (\<lambda>(e, d, i, ok). e) cs))
           (decodeElementOfTuple (map (\<lambda>(e, d, i, ok). d) cs))
           (\<lambda>vs. concat (map2 (\<lambda>(e, d, i, ok) v. i v) cs vs))
           (\<lambda>vs. list_all2 (\<lambda>(e, d, i, ok) v. ok v) cs vs)"
proof
  fix vs s assume "list_all2 (\<lambda>(e, d, i, ok) v. ok v) cs vs"
  with assms show "encodeElementOfTuple (map (\<lambda>(e, d, i, ok). e) cs) vs s =
      Inr (appended s (concat (map2 (\<lambda>(e, d, i, ok) v. i v) cs vs)))"
  proof (induction cs vs arbitrary: s rule: list_induct2')
    case (4 c cs v vs)
    then show ?case
      by (cases c) (auto simp: scale_codec.enc_image)
  qed simp_all
next
  fix vs pre post assume "list_all2 (\<lambda>(e, d, i, ok) v. ok v) cs vs"
  with assms show "decodeElementOfTuple (map (\<lambda>(e, d, i, ok). d) cs)
        (stream_at pre (concat (map2 (\<lambda>(e, d, i, ok) v. i v) cs vs) @ post)) =
      Inr (vs, stream_at (pre @ concat (map2 (\<lambda>(e, d, i, ok) v. i v) cs vs)) post)"
  proof (induction cs vs arbitrary: pre rule: list_induct2')
    case (4 c cs v vs)
    then show ?case
      by (cases c) (auto simp: scale_codec.dec_image)
  qed simp_all
qed

lemma tryEncode_image:
  assumes "i < length es" and "\<And>s. (es ! i) x s = Inr (appended s bs)"
  shows "tryEncodeAsOneOfVariant I es (I + i, x) s = Inr (appended s (word_of_nat (I + i) # bs))"
  using assms
proof (induction es arbitrary: I i)
  case (Cons e es)
  then show ?case
    using Cons.IH [of "i - 1" "Suc I"] by (cases i) (simp_all add: putByte_eq)
qed simp

lemma tryDecode_at:
  assumes "i < length ds"
  shows "tryDecodeAsOneOfVariant I ds (I + i) s =
           bindE ((ds ! i) s) (\<lambda>(x, s1). Inr (Some (I + i, x), s1))"
  using assms
proof (induction ds arbitrary: I i)
  case (Cons d ds)
  then show ?case
    using Cons.IH [of "i - 1" "Suc I"] by (cases i) simp_all
qed simp

lemma variant_codec:
  assumes "list_all (\<lambda>(e, d, i, ok). scale_codec e d i ok) cs"
  shows "scale_codec (encode_variant (map (\<lambda>(e, d, i, ok). e) cs))
           (decode_variant old (map (\<lambda>(e, d, i, ok). d) cs))
           (\<lambda>(n, v). word_of_nat n # (case cs ! n of (e, d, i, ok) \<Rightarrow> i v))
           (\<lambda>(n, v). n < length cs \<and> n < 256 \<and> (case cs ! n of (e, d, i, ok) \<Rightarrow> ok v))"
proof
  fix v s
  assume *: "case v of (n, x) \<Rightarrow> n < length cs \<and> n < 256 \<and> (case cs ! n of (e, d, i, ok) \<Rightarrow> ok x)"
  obtain n x where v: "v = (n, x)" by (cases v)
  obtain e d i ok where c: "cs ! n = (e, d, i, ok)" by (cases "cs ! n")
  from * v c have n: "n < length cs" and x: "ok x" by simp_all
  from assms n c have "scale_codec e d i ok" by (auto simp: list_all_length)
  then have "e x s = Inr (appended s (i x))" for s using x by (rule scale_codec.enc_image)
  then show "encode_variant (map (\<lambda>(e, d, i, ok). e) cs) v s = Inr (appended s
      (case v of (n, v) \<Rightarrow> word_of_nat n # (case cs ! n of (e, d, i, ok) \<Rightarrow> i v)))"
    using tryEncode_image [of n "map (\<lambda>(e, d, i, ok). e) cs" x "i x" 0 s] n
    by (simp add: encode_variant_def v c)
next
  fix v pre post
  assume *: "case v of (n, x) \<Rightarrow> n < length cs \<and> n < 256 \<and> (case cs ! n of (e, d, i, ok) \<Rightarrow> ok x)"
  obtain n x where v: "v = (n, x)" by (cases v)
  obtain e d i ok where c: "cs ! n = (e, d, i, ok)" by (cases "cs ! n")
  from * v c have n: "n < length cs" "n < 256" and x: "ok x" by simp_all
  from assms n c have "scale_codec e d i ok" by (auto simp: list_all_length)
  note dec = scale_codec.dec_image [OF this x]
  have b: "uint (word_of_nat n :: byte) = int n" using n(2) by (intro uint_eqI unat_word_of_nat_id) simp
  show "decode_variant old (map (\<lambda>(e, d, i, ok). d) cs) (stream_at pre
      ((case v of (n, v) \<Rightarrow> word_of_nat n # (case cs ! n of (e, d, i, ok) \<Rightarrow> i v)) @ post)) =
      Inr (v, stream_at (pre @
      (case v of (n, v) \<Rightarrow> word_of_nat n # (case cs ! n of (e, d, i, ok) \<Rightarrow> i v))) post)"
    using tryDecode_at [of n "map (\<lambda>(e, d, i, ok). d) cs" 0] n b dec [of "pre @ [word_of_nat n]" post]
    by (simp add: decode_variant_def decode_integral_def byte_value_def nextByte_at v c)
qed

subsection \<open>Collections\<close>

definition count_ok :: "scale_ext \<Rightarrow> nat \<Rightarrow> bool" where
  "count_ok X n \<longleftrightarrow> scale_ext_ok X \<and> n < 2 ^ 64"

lemma count_ok_compact: "count_ok X n \<Longrightarrow> scale_ext_ok X \<and> compact_fits (int n)"
  by (auto simp: count_ok_def compact_fits_def)

lemma count_ok_convert: "count_ok X n \<Longrightarrow> convert_uint X 64 (int n) = n"
  using scale_ext_okD(2) [of X "int n" 64] by (simp add: count_ok_def)

lemma decodeCount_at:
  "count_ok X n \<Longrightarrow> decodeCompactInteger (stream_at pre (compact_image n @ post)) =
     Inr (int n, stream_at (pre @ compact_image n) post)"
  using compact_codec.dec_image [OF count_ok_compact, of X n pre post] by simp

lemma array_codec:
  assumes "scale_codec e d i ok"
  shows "scale_codec (encode_array e) (decode_array n d) (\<lambda>a. concat (map i a))
           (\<lambda>a. length a = n \<and> (\<forall>x \<in> set a. ok x))"
  by unfold_locales
     (auto simp: encode_array_def decode_array_def scale_codec.each_image [OF assms])

interpretation fixed_bytes_codec: scale_codec encode_fixed_bytes "decode_fixed_bytes n"
  "\<lambda>v. v" "\<lambda>v. length v = n" for n
proof unfold_locales
  have c: "concat (map (\<lambda>b. [b]) v) = v" for v :: bytes by (induction v) simp_all
  fix v s
  show "encode_fixed_bytes v s = Inr (appended s v)"
    using byte_codec.each_image(1) [of v s] by (simp add: encode_fixed_bytes_def c)
  fix pre post assume "length v = n"
  then show "decode_fixed_bytes n (stream_at pre (v @ post)) = Inr (v, stream_at (pre @ v) post)"
    using byte_codec.each_image(2) [of v pre post] by (simp add: decode_fixed_bytes_def c)
qed

lemma encodeCollection_image:
  assumes "scale_codec e d i ok" and "count_ok X (length xs)" and "\<forall>x \<in> set xs. ok x"
  shows "encodeCollection X e (int (length xs)) xs s =
           Inr (appended s (compact_image (length xs) @ concat (map i xs)))"
  using compact_codec.enc_image [OF count_ok_compact [OF assms(2)], of s]
    scale_codec.each_image(1) [OF assms(1,3)]
  by (simp add: encodeCollection_def)

lemma vector_codec:
  assumes c: "scale_codec e d i ok"
    and bulk: "\<And>f x. bulk = Some f \<Longrightarrow> ok x \<Longrightarrow> \<exists>b. i x = [b] \<and> f b = x"
  shows "scale_codec (encode_vector X e) (decode_vector X bulk d)
           (\<lambda>xs. compact_image (length xs) @ concat (map i xs))
           (\<lambda>xs. count_ok X (length xs) \<and> vec_alloc X (length xs) = Alloc_ok \<and> (\<forall>x \<in> set xs. ok x))"
proof
  fix xs s
  assume "count_ok X (length xs) \<and> vec_alloc X (length xs) = Alloc_ok \<and> (\<forall>x \<in> set xs. ok x)"
  then show "encode_vector X e xs s = Inr (appended s (compact_image (length xs) @ concat (map i xs)))"
    by (simp add: encode_vector_def encodeCollection_image [OF c])
next
  fix xs pre post
  assume *: "count_ok X (length xs) \<and> vec_alloc X (length xs) = Alloc_ok \<and> (\<forall>x \<in> set xs. ok x)"
  let ?body = "concat (map i xs)"
  have n: "decodeCompactInteger (stream_at pre (compact_image (length xs) @ ?body @ post)) =
      Inr (int (length xs), stream_at (pre @ compact_image (length xs)) (?body @ post))"
    by (rule decodeCount_at) (use * in blast)
  have blk: "length ?body = length xs \<and> map f ?body = xs" if f: "bulk = Some f" for f
  proof -
    from * have "\<forall>x \<in> set xs. ok x" by blast
    then show ?thesis
    proof (induction xs)
      case (Cons x xs)
      then obtain b where "i x = [b]" "f b = x" using bulk [OF f] by fastforce
      with Cons show ?case by simp
    qed simp
  qed
  show "decode_vector X bulk d (stream_at pre ((compact_image (length xs) @ ?body) @ post)) =
      Inr (xs, stream_at (pre @ compact_image (length xs) @ ?body) post)"
  proof (cases bulk)
    case None
    with n * show ?thesis
      by (simp add: decode_vector_def count_ok_convert scale_codec.each_image(2) [OF c])
  next
    case (Some f)
    with n * blk [OF Some] show ?thesis
      by (simp add: decode_vector_def count_ok_convert takeBytes_at)
  qed
qed

lemma map_emplace_last:
  "sorted_wrt (<) (map fst m) \<Longrightarrow> \<forall>k' \<in> set (map fst m). k' < k \<Longrightarrow> map_emplace k v m = m @ [(k, v)]"
  by (induction m) auto

lemma decode_entries_at:
  assumes c: "scale_codec e d i ok" and "\<forall>x \<in> set xs. ok x" and "sorted_wrt (<) (map fst (m @ xs))"
  shows "decode_entries d (length xs) m (stream_at pre (concat (map i xs) @ post)) =
           Inr (m @ xs, stream_at (pre @ concat (map i xs)) post)"
  using assms(2,3)
proof (induction xs arbitrary: m pre)
  case (Cons x xs)
  obtain k v where x: "x = (k, v)" by (cases x)
  have "map_emplace k v m = m @ [x]"
    using Cons.prems(2) x by (auto simp: sorted_wrt_append intro!: map_emplace_last)
  moreover have "sorted_wrt (<) (map fst ((m @ [x]) @ xs))" using Cons.prems(2) by simp
  ultimately show ?case
    using Cons.prems(1) Cons.IH [of "m @ [x]" "pre @ i x"] x
    by (simp add: scale_codec.dec_image [OF c])
qed simp

lemma map_codec:
  assumes "scale_codec ek dk ik okk" and "scale_codec ev dv iv okv"
  shows "scale_codec (encode_map X ek ev) (decode_map X dk dv)
           (\<lambda>m. compact_image (length m) @ concat (map (\<lambda>p. ik (fst p) @ iv (snd p)) m))
           (\<lambda>m. count_ok X (length m) \<and> sorted_wrt (<) (map fst m) \<and>
                (\<forall>p \<in> set m. okk (fst p) \<and> okv (snd p)))"
proof
  note pc = pair_codec [OF assms]
  fix m s
  assume *: "count_ok X (length m) \<and> sorted_wrt (<) (map fst m) \<and> (\<forall>p \<in> set m. okk (fst p) \<and> okv (snd p))"
  then show "encode_map X ek ev m s = Inr (appended s
      (compact_image (length m) @ concat (map (\<lambda>p. ik (fst p) @ iv (snd p)) m)))"
    unfolding encode_map_def by (intro encodeCollection_image [OF pc]) auto
  fix pre post
  show "decode_map X dk dv (stream_at pre
      ((compact_image (length m) @ concat (map (\<lambda>p. ik (fst p) @ iv (snd p)) m)) @ post)) =
      Inr (m, stream_at (pre @ compact_image (length m) @ concat (map (\<lambda>p. ik (fst p) @ iv (snd p)) m)) post)"
    using * decode_entries_at [OF pc, of m "[]" "pre @ compact_image (length m)" post]
    by (simp add: decode_map_def decodeCount_at [of X] count_ok_convert)
qed

definition string_ok :: "scale_ext \<Rightarrow> bytes \<Rightarrow> bool" where
  "string_ok X sv \<longleftrightarrow> count_ok X (length sv) \<and> vec_alloc X (length sv) = Alloc_ok"

interpretation string_codec: scale_codec "encode_string X" "decode_string X"
  "\<lambda>sv. compact_image (length sv) @ sv" "string_ok X" for X
proof -
  have c: "concat (map (\<lambda>b. [b]) v) = v" for v :: bytes by (induction v) simp_all
  have "encode_string X = encode_vector X putByte" "decode_string X = decode_vector X (Some (\<lambda>b. b)) nextByte"
    by (simp_all add: fun_eq_iff encode_string_def encode_vector_def decode_string_def)
  moreover have "string_ok X = (\<lambda>xs. count_ok X (length xs) \<and> vec_alloc X (length xs) = Alloc_ok \<and> (\<forall>x \<in> set xs. True))"
    by (simp add: fun_eq_iff string_ok_def)
  moreover have "scale_codec (encode_vector X putByte) (decode_vector X (Some (\<lambda>b. b)) nextByte)
      (\<lambda>xs. compact_image (length xs) @ concat (map (\<lambda>b. [b]) xs))
      (\<lambda>xs. count_ok X (length xs) \<and> vec_alloc X (length xs) = Alloc_ok \<and> (\<forall>x \<in> set xs. True))"
    by (rule vector_codec [OF byte_codec.scale_codec_axioms]) auto
  ultimately show "scale_codec (encode_string X) (decode_string X)
      (\<lambda>sv. compact_image (length sv) @ sv) (string_ok X)"
    by (simp only: c)
qed

end
