(* ===== verification/ScaleTypes.thy ===== *)
theory ScaleTypes
  imports ScaleCodec
begin

text \<open>
  All the C++ types the SCALE streams serialise, as type codes, with overload resolution as a
  function from type codes to the overloads of \<open>ScaleCodec\<close>. The contract of one overload
  lifts to every type code by induction, which gives the round trip and the unambiguity of the
  wire format for nested types (a map from strings to vectors of optionals, ...). A map is the list of its
  entries in the order of the keys. \<open>std::list\<close> has an encoder equal to the vector's, and its decoder calls \<open>std::list::reserve\<close>, which does not exist, so that no
  program instantiates it.
\<close>

section \<open>Type codes and values\<close>

datatype sty =
    TBool
  | TInt bool nat
  | TCompact
  | TU256
  | TS256
  | TString
  | TFixedBytes nat
  | TOpt sty
  | TPtr sty
  | TVec sty
  | TArr sty nat
  | TMap sty sty
  | TPair sty sty
  | TTuple "sty list"
  | TVariant "sty list"

datatype sval =
    VBool (the_bool: bool)
  | VInt (the_int: int)
  | VU256 (the_u256: u256)
  | VBytes (the_bytes: bytes)
  | VOpt (the_opt: "sval option")
  | VList (the_list: "sval list")
  | VPair (the_pair: "sval \<times> sval")
  | VVariant (the_variant: "nat \<times> sval")

section \<open>The order of keys\<close>

text \<open>
  \<open>std::map\<close> keeps its entries in the order of \<open>operator<\<close> on the keys: numbers by value, strings, vectors, arrays,
  pairs and tuples lexicographically, an empty optional before a full one, variants by index and then by value. Each
  of these is the lexicographic order of a tree of numbers. Pointers are ordered by address, and are no keys here.
\<close>

datatype key_tree = Key int "key_tree list"

fun key_le :: "key_tree \<Rightarrow> key_tree \<Rightarrow> bool" and keys_le :: "key_tree list \<Rightarrow> key_tree list \<Rightarrow> bool" where
  "key_le (Key a ts) (Key b us) \<longleftrightarrow> a < b \<or> a = b \<and> keys_le ts us"
| "keys_le [] us \<longleftrightarrow> True"
| "keys_le (t # ts) [] \<longleftrightarrow> False"
| "keys_le (t # ts) (u # us) \<longleftrightarrow> key_le t u \<and> (t = u \<longrightarrow> keys_le ts us)"

lemma key_le_linear: "key_le t u \<or> key_le u t" "keys_le ts us \<or> keys_le us ts"
  by (induction t u and ts us rule: key_le_keys_le.induct) auto

lemma key_le_antisym: "key_le t u \<Longrightarrow> key_le u t \<Longrightarrow> t = u" "keys_le ts us \<Longrightarrow> keys_le us ts \<Longrightarrow> ts = us"
proof (induction t u and ts us rule: key_le_keys_le.induct)
  case (2 us)
  then show ?case by (cases us) simp_all
qed auto

lemma key_le_trans:
  "key_le t u \<Longrightarrow> key_le u v \<Longrightarrow> key_le t v" "keys_le ts us \<Longrightarrow> keys_le us vs \<Longrightarrow> keys_le ts vs"
proof (induction t u and ts us arbitrary: v and vs rule: key_le_keys_le.induct)
  case (1 a ts b us)
  then show ?case by (cases v) auto
next
  case (4 t ts u us)
  show ?case
  proof (cases vs)
    case Nil
    then show ?thesis using 4(4) by simp
  next
    case (Cons v vs')
    have "keys_le ts vs'" if "t = v" using 4 Cons that key_le_antisym(1) [of t u] by auto
    then show ?thesis using 4 Cons by auto
  qed
qed simp_all

fun sval_key :: "sval \<Rightarrow> key_tree" where
  "sval_key (VBool b) = Key 0 [Key (of_bool b) []]"
| "sval_key (VInt i) = Key 1 [Key i []]"
| "sval_key (VU256 u) = Key 2 [Key (uint u) []]"
| "sval_key (VBytes bs) = Key 3 (map (\<lambda>b. Key (uint b) []) bs)"
| "sval_key (VOpt None) = Key 4 []"
| "sval_key (VOpt (Some v)) = Key 4 [sval_key v]"
| "sval_key (VList vs) = Key 5 (map sval_key vs)"
| "sval_key (VPair (v, w)) = Key 6 [sval_key v, sval_key w]"
| "sval_key (VVariant (n, v)) = Key 7 [Key (int n) [], sval_key v]"

lemma sval_key_inj: "sval_key v = sval_key w \<Longrightarrow> v = w"
proof (induction v arbitrary: w rule: sval_key.induct)
  case (4 bs)
  have "inj (\<lambda>b :: byte. Key (uint b) [])" by (auto simp: inj_def intro: unsigned_word_eqI)
  then show ?case using 4 by (cases w rule: sval_key.cases) (auto dest: map_injective)
next
  case (7 vs)
  then obtain ws where w: "w = VList ws" and m: "map sval_key vs = map sval_key ws"
    by (cases w rule: sval_key.cases) auto
  from m have "length vs = length ws" by (metis length_map)
  then have "vs = ws" using m 7(1) by (auto intro!: nth_equalityI simp: list_eq_iff_nth_eq)
  then show ?case by (simp add: w)
next
  case (1 b) then show ?case by (cases w rule: sval_key.cases) auto
next
  case (2 b) then show ?case by (cases w rule: sval_key.cases) auto
next
  case (3 b) then show ?case by (cases w rule: sval_key.cases) (auto intro: unsigned_word_eqI)
next
  case 5 then show ?case by (cases w rule: sval_key.cases) auto
next
  case (6 b) then show ?case by (cases w rule: sval_key.cases) auto
next
  case (8 b) then show ?case by (cases w rule: sval_key.cases) auto
next
  case (9 b) then show ?case by (cases w rule: sval_key.cases) auto
qed

instantiation sval :: linorder
begin

definition less_eq_sval :: "sval \<Rightarrow> sval \<Rightarrow> bool" where
  "v \<le> w \<longleftrightarrow> key_le (sval_key v) (sval_key w)"

definition less_sval :: "sval \<Rightarrow> sval \<Rightarrow> bool" where
  "v < w \<longleftrightarrow> v \<le> w \<and> v \<noteq> (w :: sval)"

instance
proof
  fix u v w :: sval
  show "u \<le> u" using key_le_linear(1) by (auto simp: less_eq_sval_def)
  show "u \<le> v \<Longrightarrow> v \<le> u \<Longrightarrow> u = v"
    using key_le_antisym(1) sval_key_inj by (auto simp: less_eq_sval_def)
  then show "u < v \<longleftrightarrow> u \<le> v \<and> \<not> v \<le> u" using \<open>u \<le> u\<close> by (auto simp: less_sval_def)
  show "u \<le> v \<Longrightarrow> v \<le> w \<Longrightarrow> u \<le> w" using key_le_trans(1) by (auto simp: less_eq_sval_def)
  show "u \<le> v \<or> v \<le> u" using key_le_linear(1) by (auto simp: less_eq_sval_def)
qed

end

section \<open>Overload resolution\<close>

definition dec_map :: "('a \<Rightarrow> 'b) \<Rightarrow> 'a decoder \<Rightarrow> 'b decoder" where
  "dec_map f d s = bindE (d s) (\<lambda>(x, s1). Inr (f x, s1))"

text \<open>The types of size one with a conversion from a byte.\<close>

fun bulk_of :: "sty \<Rightarrow> (byte \<Rightarrow> sval) option" where
  "bulk_of TBool = Some (\<lambda>b. VBool (b \<noteq> 0))"
| "bulk_of (TInt is_unsigned sz) =
     (if sz = 1 then Some (\<lambda>b. VInt (byte_value is_unsigned b)) else None)"
| "bulk_of _ = None"

fun encode_ty :: "scale_ext \<Rightarrow> sty \<Rightarrow> sval encoder" where
  "encode_ty X TBool = (\<lambda>v. encode_bool (the_bool v))"
| "encode_ty X (TInt is_unsigned sz) = (\<lambda>v. encode_integral X sz (the_int v))"
| "encode_ty X TCompact = (\<lambda>v. encodeCompactInteger X (the_int v))"
| "encode_ty X TU256 = (\<lambda>v. encode_u256 X (the_u256 v))"
| "encode_ty X TS256 = (\<lambda>v. encode_s256 X (the_int v))"
| "encode_ty X TString = (\<lambda>v. encode_string X (the_bytes v))"
| "encode_ty X (TFixedBytes n) = (\<lambda>v. encode_fixed_bytes (the_bytes v))"
| "encode_ty X (TOpt t) =
     (if t = TBool then (\<lambda>v. encodeOptionalBool (map_option the_bool (the_opt v)))
      else (\<lambda>v. encode_optional (encode_ty X t) (the_opt v)))"
| "encode_ty X (TPtr t) = (\<lambda>v. encode_ptr (encode_ty X t) (the_opt v))"
| "encode_ty X (TVec t) = (\<lambda>v. encode_vector X (encode_ty X t) (the_list v))"
| "encode_ty X (TArr t n) = (\<lambda>v. encode_array (encode_ty X t) (the_list v))"
| "encode_ty X (TMap t u) = (\<lambda>v. encode_map X (encode_ty X t) (encode_ty X u) (map the_pair (the_list v)))"
| "encode_ty X (TPair t u) = (\<lambda>v. encode_pair (encode_ty X t) (encode_ty X u) (the_pair v))"
| "encode_ty X (TTuple ts) = (\<lambda>v. encodeElementOfTuple (map (encode_ty X) ts) (the_list v))"
| "encode_ty X (TVariant ts) = (\<lambda>v. encode_variant (map (encode_ty X) ts) (the_variant v))"

fun decode_ty :: "scale_ext \<Rightarrow> sty \<Rightarrow> sval decoder" where
  "decode_ty X TBool = dec_map VBool decodeBool"
| "decode_ty X (TInt is_unsigned sz) = dec_map VInt (decode_integral is_unsigned sz)"
| "decode_ty X TCompact = dec_map VInt decodeCompactInteger"
| "decode_ty X TU256 = dec_map VU256 (decode_u256 X)"
| "decode_ty X TS256 = dec_map VInt (decode_s256 X)"
| "decode_ty X TString = dec_map VBytes (decode_string X)"
| "decode_ty X (TFixedBytes n) = dec_map VBytes (decode_fixed_bytes n)"
| "decode_ty X (TOpt t) =
     (if t = TBool then dec_map (\<lambda>r. VOpt (map_option VBool r)) decodeOptionalBool
      else dec_map VOpt (decode_optional (decode_ty X t)))"
| "decode_ty X (TPtr t) = dec_map VOpt (decode_ptr (decode_ty X t))"
| "decode_ty X (TVec t) = dec_map VList (decode_vector X (bulk_of t) (decode_ty X t))"
| "decode_ty X (TArr t n) = dec_map VList (decode_array n (decode_ty X t))"
| "decode_ty X (TMap t u) = dec_map (\<lambda>m. VList (map VPair m)) (decode_map X (decode_ty X t) (decode_ty X u))"
| "decode_ty X (TPair t u) = dec_map VPair (decode_pair (decode_ty X t) (decode_ty X u))"
| "decode_ty X (TTuple ts) = dec_map VList (decodeElementOfTuple (map (decode_ty X) ts))"
| "decode_ty X (TVariant ts) =
     dec_map VVariant (decode_variant (0, VBool False) (map (decode_ty X) ts))"

section \<open>The wire format and the values it carries\<close>

fun image_ty :: "scale_ext \<Rightarrow> sty \<Rightarrow> sval \<Rightarrow> bytes" where
  "image_ty X TBool = (\<lambda>v. [if the_bool v then 1 else 0])"
| "image_ty X (TInt is_unsigned sz) = (\<lambda>v. int_image sz (the_int v))"
| "image_ty X TCompact = (\<lambda>v. compact_image (nat (the_int v)))"
| "image_ty X TU256 = (\<lambda>v. be_bytes 32 (unat (the_u256 v)))"
| "image_ty X TS256 = (\<lambda>v. be_bytes 32 (unat (s2u X (the_int v))))"
| "image_ty X TString = (\<lambda>v. compact_image (length (the_bytes v)) @ the_bytes v)"
| "image_ty X (TFixedBytes n) = (\<lambda>v. the_bytes v)"
| "image_ty X (TOpt t) =
     (if t = TBool then (\<lambda>v. [case map_option the_bool (the_opt v) of None \<Rightarrow> 0 | Some b \<Rightarrow> if b then 1 else 2])
      else (\<lambda>v. case the_opt v of None \<Rightarrow> [0] | Some x \<Rightarrow> 1 # image_ty X t x))"
| "image_ty X (TPtr t) = (\<lambda>v. image_ty X t (the (the_opt v)))"
| "image_ty X (TVec t) =
     (\<lambda>v. compact_image (length (the_list v)) @ concat (map (image_ty X t) (the_list v)))"
| "image_ty X (TArr t n) = (\<lambda>v. concat (map (image_ty X t) (the_list v)))"
| "image_ty X (TMap t u) =
     (\<lambda>v. compact_image (length (map the_pair (the_list v))) @
           concat (map (\<lambda>p. image_ty X t (fst p) @ image_ty X u (snd p)) (map the_pair (the_list v))))"
| "image_ty X (TPair t u) =
     (\<lambda>v. image_ty X t (fst (the_pair v)) @ image_ty X u (snd (the_pair v)))"
| "image_ty X (TTuple ts) = (\<lambda>v. concat (map2 (\<lambda>i. i) (map (image_ty X) ts) (the_list v)))"
| "image_ty X (TVariant ts) =
     (\<lambda>v. word_of_nat (fst (the_variant v)) #
           (map (image_ty X) ts ! fst (the_variant v)) (snd (the_variant v)))"

fun key_type :: "sty \<Rightarrow> bool" where
  "key_type (TPtr t) = False"
| "key_type (TOpt t) = key_type t"
| "key_type (TVec t) = key_type t"
| "key_type (TArr t n) = key_type t"
| "key_type (TMap t u) = (key_type t \<and> key_type u)"
| "key_type (TPair t u) = (key_type t \<and> key_type u)"
| "key_type (TTuple ts) = list_all key_type ts"
| "key_type (TVariant ts) = list_all key_type ts"
| "key_type _ = True"

fun ok_ty :: "scale_ext \<Rightarrow> sty \<Rightarrow> sval \<Rightarrow> bool" where
  "ok_ty X TBool = (\<lambda>v. case v of VBool _ \<Rightarrow> True | _ \<Rightarrow> False)"
| "ok_ty X (TInt is_unsigned sz) =
     (\<lambda>v. case v of VInt k \<Rightarrow> integral_ok X is_unsigned sz k | _ \<Rightarrow> False)"
| "ok_ty X TCompact =
     (\<lambda>v. case v of VInt k \<Rightarrow> scale_ext_ok X \<and> compact_fits k | _ \<Rightarrow> False)"
| "ok_ty X TU256 = (\<lambda>v. case v of VU256 _ \<Rightarrow> scale_ext_ok X | _ \<Rightarrow> False)"
| "ok_ty X TS256 = (\<lambda>v. case v of VInt k \<Rightarrow> s256_ok X k | _ \<Rightarrow> False)"
| "ok_ty X TString = (\<lambda>v. case v of VBytes bs \<Rightarrow> string_ok X bs | _ \<Rightarrow> False)"
| "ok_ty X (TFixedBytes n) = (\<lambda>v. case v of VBytes bs \<Rightarrow> length bs = n | _ \<Rightarrow> False)"
| "ok_ty X (TOpt t) =
     (\<lambda>v. case v of VOpt r \<Rightarrow> (case r of None \<Rightarrow> True | Some x \<Rightarrow> ok_ty X t x) | _ \<Rightarrow> False)"
| "ok_ty X (TPtr t) =
     (\<lambda>v. case v of VOpt r \<Rightarrow> (case r of None \<Rightarrow> False | Some x \<Rightarrow> ok_ty X t x) | _ \<Rightarrow> False)"
| "ok_ty X (TVec t) =
     (\<lambda>v. case v of
        VList xs \<Rightarrow> count_ok X (length xs) \<and> vec_alloc X (length xs) = Alloc_ok \<and>
                    list_all (ok_ty X t) xs
      | _ \<Rightarrow> False)"
| "ok_ty X (TArr t n) =
     (\<lambda>v. case v of VList xs \<Rightarrow> length xs = n \<and> list_all (ok_ty X t) xs | _ \<Rightarrow> False)"
| "ok_ty X (TMap t u) =
     (\<lambda>v. case v of
        VList xs \<Rightarrow> key_type t \<and> count_ok X (length xs) \<and> sorted_wrt (<) (map (fst \<circ> the_pair) xs) \<and>
                    list_all (\<lambda>x. case x of VPair p \<Rightarrow> ok_ty X t (fst p) \<and> ok_ty X u (snd p) | _ \<Rightarrow> False) xs
      | _ \<Rightarrow> False)"
| "ok_ty X (TPair t u) =
     (\<lambda>v. case v of VPair p \<Rightarrow> ok_ty X t (fst p) \<and> ok_ty X u (snd p) | _ \<Rightarrow> False)"
| "ok_ty X (TTuple ts) =
     (\<lambda>v. case v of VList xs \<Rightarrow> list_all2 (\<lambda>okx x. okx x) (map (ok_ty X) ts) xs | _ \<Rightarrow> False)"
| "ok_ty X (TVariant ts) =
     (\<lambda>v. case v of
        VVariant p \<Rightarrow> fst p < length ts \<and> fst p < 256 \<and> (map (ok_ty X) ts ! fst p) (snd p)
      | _ \<Rightarrow> False)"

section \<open>Every type code meets the contract\<close>

lemma wrap_codec:
  assumes "scale_codec e d i ok" and "\<And>v. ok' v \<Longrightarrow> mk (prj v) = v \<and> ok (prj v)"
  shows "scale_codec (\<lambda>v. e (prj v)) (dec_map mk d) (\<lambda>v. i (prj v)) ok'"
  by unfold_locales
     (auto simp: assms(2) dec_map_def scale_codec.enc_image [OF assms(1)]
        scale_codec.dec_image [OF assms(1)])

lemma bulk_of_image:
  assumes "bulk_of t = Some f" and "ok_ty X t x"
  shows "\<exists>b. image_ty X t x = [b] \<and> f b = x"
  using assms
  by (cases t; cases x)
     (auto simp: integral_ok_def int_image_1 [simplified] byte_value_of_int [simplified] split: if_splits)

lemma codec_leaf:
  "scale_codec (encode_ty X TBool) (decode_ty X TBool) (image_ty X TBool) (ok_ty X TBool)"
  "scale_codec (encode_ty X (TInt u sz)) (decode_ty X (TInt u sz)) (image_ty X (TInt u sz)) (ok_ty X (TInt u sz))"
  "scale_codec (encode_ty X TCompact) (decode_ty X TCompact) (image_ty X TCompact) (ok_ty X TCompact)"
  "scale_codec (encode_ty X TU256) (decode_ty X TU256) (image_ty X TU256) (ok_ty X TU256)"
  "scale_codec (encode_ty X TS256) (decode_ty X TS256) (image_ty X TS256) (ok_ty X TS256)"
  "scale_codec (encode_ty X TString) (decode_ty X TString) (image_ty X TString) (ok_ty X TString)"
  "scale_codec (encode_ty X (TFixedBytes n)) (decode_ty X (TFixedBytes n))
     (image_ty X (TFixedBytes n)) (ok_ty X (TFixedBytes n))"
  unfolding encode_ty.simps decode_ty.simps image_ty.simps ok_ty.simps
  by (rule wrap_codec [OF bool_codec.scale_codec_axioms] wrap_codec [OF integral_codec.scale_codec_axioms]
        wrap_codec [OF compact_codec.scale_codec_axioms] wrap_codec [OF u256_codec.scale_codec_axioms]
        wrap_codec [OF s256_codec.scale_codec_axioms] wrap_codec [OF string_codec.scale_codec_axioms]
        wrap_codec [OF fixed_bytes_codec.scale_codec_axioms],
      simp split: sval.splits)+

lemma codec_list:
  assumes "\<And>t. t \<in> set ts \<Longrightarrow> scale_codec (encode_ty X t) (decode_ty X t) (image_ty X t) (ok_ty X t)"
  shows "list_all (\<lambda>(e, d, i, ok). scale_codec e d i ok)
           (map (\<lambda>t. (encode_ty X t, decode_ty X t, image_ty X t, ok_ty X t)) ts)"
  using assms by (simp add: list_all_iff)

lemma codec_tuple:
  assumes "\<And>t. t \<in> set ts \<Longrightarrow> scale_codec (encode_ty X t) (decode_ty X t) (image_ty X t) (ok_ty X t)"
  shows "scale_codec (encode_ty X (TTuple ts)) (decode_ty X (TTuple ts)) (image_ty X (TTuple ts)) (ok_ty X (TTuple ts))"
proof -
  let ?cs = "map (\<lambda>t. (encode_ty X t, decode_ty X t, image_ty X t, ok_ty X t)) ts"
  have img: "map2 (\<lambda>i. i) (map (image_ty X) ts) vs = map2 (\<lambda>(e, d, i, ok) v. i v) ?cs vs" for vs
    by (induction ts vs rule: list_induct2') simp_all
  have ok: "list_all2 (\<lambda>okx x. okx x) (map (ok_ty X) ts) vs = list_all2 (\<lambda>(e, d, i, ok) v. ok v) ?cs vs" for vs
    by (simp add: list_all2_map1)
  have w: "ok_ty X (TTuple ts) v \<Longrightarrow>
      VList (the_list v) = v \<and> list_all2 (\<lambda>(e, d, i, ok) v. ok v) ?cs (the_list v)" for v
    unfolding ok [symmetric] by (cases v) simp_all
  show ?thesis
    using wrap_codec [OF tuple_codec [OF codec_list] w, OF assms]
    unfolding encode_ty.simps decode_ty.simps image_ty.simps img by (simp only: map_map comp_def prod.case)
qed

lemma codec_variant:
  assumes "\<And>t. t \<in> set ts \<Longrightarrow> scale_codec (encode_ty X t) (decode_ty X t) (image_ty X t) (ok_ty X t)"
  shows "scale_codec (encode_ty X (TVariant ts)) (decode_ty X (TVariant ts))
           (image_ty X (TVariant ts)) (ok_ty X (TVariant ts))"
proof -
  let ?cs = "map (\<lambda>t. (encode_ty X t, decode_ty X t, image_ty X t, ok_ty X t)) ts"
  have w: "ok_ty X (TVariant ts) v \<Longrightarrow> VVariant (the_variant v) = v \<and>
      (case the_variant v of (n, x) \<Rightarrow> n < length ?cs \<and> n < 256 \<and> (case ?cs ! n of (e, d, i, ok) \<Rightarrow> ok x))" for v
    by (cases v) (auto simp: split_beta)
  have "scale_codec (encode_ty X (TVariant ts)) (decode_ty X (TVariant ts))
      (\<lambda>v. case the_variant v of (n, x) \<Rightarrow> word_of_nat n # (case ?cs ! n of (e, d, i, ok) \<Rightarrow> i x))
      (ok_ty X (TVariant ts))"
    using wrap_codec [OF variant_codec [OF codec_list, where old = "(0, VBool False)"] w, OF assms]
    unfolding encode_ty.simps decode_ty.simps by (simp only: map_map comp_def prod.case)
  moreover have "(case the_variant v of (n, x) \<Rightarrow> word_of_nat n # (case ?cs ! n of (e, d, i, ok) \<Rightarrow> i x)) =
      image_ty X (TVariant ts) v" if "ok_ty X (TVariant ts) v" for v
    using that by (cases v) (auto simp: split_beta)
  ultimately show ?thesis
    by (auto simp: scale_codec_def)
qed

lemma codec_opt_bool:
  "scale_codec (encode_ty X (TOpt TBool)) (decode_ty X (TOpt TBool)) (image_ty X (TOpt TBool)) (ok_ty X (TOpt TBool))"
  unfolding encode_ty.simps decode_ty.simps image_ty.simps if_P [OF refl]
  by (rule wrap_codec [OF opt_bool_codec.scale_codec_axioms]) (auto split: sval.splits option.splits)

lemma codec_map:
  assumes "scale_codec (encode_ty X t) (decode_ty X t) (image_ty X t) (ok_ty X t)"
    and "scale_codec (encode_ty X u) (decode_ty X u) (image_ty X u) (ok_ty X u)"
  shows "scale_codec (encode_ty X (TMap t u)) (decode_ty X (TMap t u)) (image_ty X (TMap t u)) (ok_ty X (TMap t u))"
proof -
  let ?ok = "\<lambda>m. count_ok X (length m) \<and> sorted_wrt (<) (map fst m) \<and> (\<forall>p \<in> set m. ok_ty X t (fst p) \<and> ok_ty X u (snd p))"
  have w: "VList (map VPair (map the_pair (the_list v))) = v \<and> ?ok (map the_pair (the_list v))" if ok: "ok_ty X (TMap t u) v" for v
  proof -
    obtain xs where v: "v = VList xs" using ok by (cases v) simp_all
    have p: "VPair (the_pair x) = x \<and> ok_ty X t (fst (the_pair x)) \<and> ok_ty X u (snd (the_pair x))" if "x \<in> set xs" for x
      using ok that v by (cases x) (auto simp: list_all_iff)
    then have "map VPair (map the_pair xs) = xs" by (simp add: map_idI)
    then show ?thesis using ok p v by (auto simp: comp_def)
  qed
  show ?thesis
    unfolding encode_ty.simps decode_ty.simps image_ty.simps by (rule wrap_codec [OF map_codec [OF assms] w])
qed

lemma codec_ty: "scale_codec (encode_ty X t) (decode_ty X t) (image_ty X t) (ok_ty X t)"
proof (induction t)
  case (TOpt t)
  show ?case
  proof (cases "t = TBool")
    case True
    then show ?thesis using codec_opt_bool by simp
  next
    case False
    show ?thesis
      unfolding encode_ty.simps decode_ty.simps image_ty.simps ok_ty.simps if_not_P [OF False]
      by (rule wrap_codec [OF optional_codec [OF TOpt]]) (simp split: sval.splits)
  qed
next
  case (TPtr t)
  show ?case
    unfolding encode_ty.simps decode_ty.simps image_ty.simps ok_ty.simps
    by (rule wrap_codec [OF ptr_codec [OF TPtr]]) (simp split: sval.splits option.splits)
next
  case (TVec t)
  show ?case
    unfolding encode_ty.simps decode_ty.simps image_ty.simps ok_ty.simps
    by (rule wrap_codec [OF vector_codec [OF TVec, of "bulk_of t" X, OF bulk_of_image]])
       (simp_all add: list_all_iff split: sval.splits)
next
  case (TArr t n)
  show ?case
    unfolding encode_ty.simps decode_ty.simps image_ty.simps ok_ty.simps
    by (rule wrap_codec [OF array_codec [OF TArr, of n]]) (simp add: list_all_iff split: sval.splits)
next
  case (TMap t u)
  then show ?case by (rule codec_map)
next
  case (TPair t u)
  show ?case
    unfolding encode_ty.simps decode_ty.simps image_ty.simps ok_ty.simps
    by (rule wrap_codec [OF pair_codec [OF TPair]]) (simp split: sval.splits)
next
  case (TTuple ts)
  then show ?case by (rule codec_tuple)
next
  case (TVariant ts)
  then show ?case by (rule codec_variant)
qed (rule codec_leaf)+

interpretation ty: scale_codec "encode_ty X t" "decode_ty X t" "image_ty X t" "ok_ty X t" for X t
  by (rule codec_ty)

end
