(* ===== verification/ScaleSafety.thy ===== *)
theory ScaleSafety
  imports ScaleTypes
begin

text \<open>
  What holds of the SCALE decoders on arbitrary input: the stream invariant, and which types are
  decoded without ever moving the iterator past the span. The last section states the properties
  of the whole codec.
\<close>

section \<open>Decoders keep the stream invariant\<close>

definition dec_inv :: "'a decoder \<Rightarrow> bool" where
  "dec_inv d \<longleftrightarrow>
     (\<forall>s v s'. stream_inv s \<longrightarrow> d s = Inr (v, s') \<longrightarrow>
        stream_inv s' \<and> m_span s' = m_span s \<and> m_currentIndex s \<le> m_currentIndex s')"

lemma dec_invI:
  assumes "\<And>s v s'. stream_inv s \<Longrightarrow> d s = Inr (v, s') \<Longrightarrow>
    stream_inv s' \<and> m_span s' = m_span s \<and> m_currentIndex s \<le> m_currentIndex s'"
  shows "dec_inv d"
  unfolding dec_inv_def using assms by blast

lemma dec_invD:
  assumes "dec_inv d" and "stream_inv s" and "d s = Inr (v, s')"
  shows "stream_inv s' \<and> m_span s' = m_span s \<and> m_currentIndex s \<le> m_currentIndex s'"
  using assms unfolding dec_inv_def by blast

lemma dec_inv_cong: "(\<And>s. d s = d' s) \<Longrightarrow> dec_inv d' \<Longrightarrow> dec_inv d"
  by (subgoal_tac "d = d'") auto

lemma dec_inv_Inl [inv_intros]: "dec_inv (\<lambda>s. Inl e)"
  by (rule dec_invI) simp

lemma dec_inv_Inr [inv_intros]: "dec_inv (\<lambda>s. Inr (v, s))"
  by (rule dec_invI) simp

lemma dec_inv_if [inv_intros]:
  assumes "dec_inv d" and "dec_inv d'"
  shows "dec_inv (\<lambda>s. if P s then d s else d' s)"
proof (rule dec_invI)
  fix s v s' assume s: "stream_inv s" and "(if P s then d s else d' s) = Inr (v, s')"
  then have "d s = Inr (v, s') \<or> d' s = Inr (v, s')" by (simp split: if_splits)
  then show "stream_inv s' \<and> m_span s' = m_span s \<and> m_currentIndex s \<le> m_currentIndex s'"
    using dec_invD [OF assms(1) s] dec_invD [OF assms(2) s] by blast
qed

lemma dec_inv_case_option [inv_intros]:
  "dec_inv d \<Longrightarrow> (\<And>x. dec_inv (f x)) \<Longrightarrow> dec_inv (\<lambda>s. case a of None \<Rightarrow> d s | Some x \<Rightarrow> f x s)"
  by (cases a) simp_all

lemma dec_inv_case_alloc [inv_intros]:
  "dec_inv d1 \<Longrightarrow> dec_inv d2 \<Longrightarrow> dec_inv d3 \<Longrightarrow>
     dec_inv (\<lambda>s. case a of Alloc_ok \<Rightarrow> d1 s | Alloc_bad_alloc \<Rightarrow> d2 s | Alloc_length_error \<Rightarrow> d3 s)"
  by (cases a) simp_all

lemma dec_inv_bind [inv_intros]:
  assumes "dec_inv d" and "\<And>x. dec_inv (f x)"
  shows "dec_inv (\<lambda>s. bindE (d s) (\<lambda>(x, s1). f x s1))"
proof (rule dec_invI)
  fix s v s' assume s: "stream_inv s" and "bindE (d s) (\<lambda>(x, s1). f x s1) = Inr (v, s')"
  then obtain x s1 where 1: "d s = Inr (x, s1)" and 2: "f x s1 = Inr (v, s')" by fastforce
  from dec_invD [OF assms(1) s 1] dec_invD [OF assms(2) _ 2]
  show "stream_inv s' \<and> m_span s' = m_span s \<and> m_currentIndex s \<le> m_currentIndex s'" by auto
qed

lemma dec_inv_nextByte [inv_intros]: "dec_inv nextByte"
  by (rule dec_invI) (auto simp: nextByte_def hasMore_def stream_inv_def split: if_splits)

lemma dec_inv_takeBytes [inv_intros]: "dec_inv (takeBytes n)"
  by (rule dec_invI) (auto simp: takeBytes_def stream_inv_def split: if_splits)

lemma dec_inv_readInteger [inv_intros]: "dec_inv (readInteger ms v)"
proof (induction ms arbitrary: v)
  case Nil
  show ?case by (rule dec_inv_cong [OF _ dec_inv_Inr]) simp
next
  case (Cons m ms)
  have "dec_inv (\<lambda>s. bindE (nextByte s) (\<lambda>(b, s1). readInteger ms (v + m * ucast b) s1))"
    by (intro inv_intros Cons)
  then show ?case by (rule dec_inv_cong [rotated]) simp
qed

lemma dec_inv_readNumber [inv_intros]: "dec_inv (readNumber n v m)"
proof (induction n arbitrary: v m)
  case (Suc n)
  have "dec_inv (\<lambda>s. bindE (nextByte s) (\<lambda>(b, s1). readNumber n (v + ucast b * m) (push_bit 8 m) s1))"
    by (intro inv_intros Suc)
  then show ?case by (rule dec_inv_cong [rotated]) simp
qed (rule dec_inv_cong [OF _ dec_inv_Inr], simp)

lemma dec_inv_readBig [inv_intros]: "dec_inv (readBig n v m)"
proof (induction n arbitrary: v m)
  case (Suc n)
  have "dec_inv (\<lambda>s. bindE (nextByte s) (\<lambda>(b, s1). readBig n (v + uint b * m) (m * 256) s1))"
    by (intro inv_intros Suc)
  then show ?case by (rule dec_inv_cong [rotated]) simp
qed (rule dec_inv_cong [OF _ dec_inv_Inr], simp)

lemma dec_inv_decodeInteger [inv_intros]: "dec_inv (decodeInteger u sz)"
  unfolding decodeInteger_def [abs_def] Let_def by (intro inv_intros)

lemma dec_inv_compact [inv_intros]: "dec_inv decodeCompactInteger"
  unfolding decodeCompactInteger_def [abs_def] Let_def by (intro inv_intros)

lemma dec_inv_integral [inv_intros]: "dec_inv (decode_integral u sz)"
  unfolding decode_integral_def [abs_def] by (intro inv_intros)

lemma dec_inv_bools [inv_intros]: "dec_inv decodeBool" "dec_inv decodeOptionalBool"
  unfolding decodeBool_def [abs_def] decodeOptionalBool_def [abs_def] by (intro inv_intros)+

lemma dec_inv_256 [inv_intros]: "dec_inv (decode_u256 X)" "dec_inv (decode_s256 X)"
  unfolding decode_s256_def [abs_def] decode_u256_def [abs_def] by (intro inv_intros)+

lemma dec_inv_each [inv_intros]: "dec_inv d \<Longrightarrow> dec_inv (decode_each d n)"
proof (induction n)
  case (Suc n)
  have "dec_inv (\<lambda>s. bindE (d s) (\<lambda>(x, s1). bindE (decode_each d n s1) (\<lambda>(xs, s2). Inr (x # xs, s2))))"
    by (intro inv_intros Suc)
  then show ?case by (rule dec_inv_cong [rotated]) simp
qed (rule dec_inv_cong [OF _ dec_inv_Inr], simp)

lemma dec_inv_pair [inv_intros]: "dec_inv d1 \<Longrightarrow> dec_inv d2 \<Longrightarrow> dec_inv (decode_pair d1 d2)"
  unfolding decode_pair_def [abs_def] by (intro inv_intros)

lemma dec_inv_opt [inv_intros]: "dec_inv d \<Longrightarrow> dec_inv (decode_optional d)" "dec_inv d \<Longrightarrow> dec_inv (decode_ptr d)"
  unfolding decode_optional_def [abs_def] decode_ptr_def [abs_def] by (intro inv_intros, assumption)+

lemma dec_inv_tuple [inv_intros]: "(\<And>d. d \<in> set ds \<Longrightarrow> dec_inv d) \<Longrightarrow> dec_inv (decodeElementOfTuple ds)"
proof (induction ds)
  case (Cons d ds)
  have "dec_inv (\<lambda>s. bindE (d s) (\<lambda>(v, s1).
      bindE (decodeElementOfTuple ds s1) (\<lambda>(vs, s2). Inr (v # vs, s2))))"
    by (intro inv_intros Cons) simp_all
  then show ?case by (rule dec_inv_cong [rotated]) simp
qed (rule dec_inv_cong [OF _ dec_inv_Inr], simp)

lemma dec_inv_try [inv_intros]:
  "(\<And>d. d \<in> set ds \<Longrightarrow> dec_inv d) \<Longrightarrow> dec_inv (tryDecodeAsOneOfVariant I ds i)"
proof (induction ds arbitrary: I)
  case (Cons d ds)
  have "dec_inv (\<lambda>s. if I = i then bindE (d s) (\<lambda>(x, s1). Inr (Some (I, x), s1))
                     else tryDecodeAsOneOfVariant (Suc I) ds i s)"
    by (intro inv_intros Cons) simp_all
  then show ?case by (rule dec_inv_cong [rotated]) simp
qed (rule dec_inv_cong [OF _ dec_inv_Inr], simp)

lemma dec_inv_variant [inv_intros]:
  "(\<And>d. d \<in> set ds \<Longrightarrow> dec_inv d) \<Longrightarrow> dec_inv (decode_variant old ds)"
  unfolding decode_variant_def [abs_def] by (intro inv_intros)

lemma dec_inv_vector [inv_intros]: "dec_inv d \<Longrightarrow> dec_inv (decode_vector X bulk d)"
  unfolding decode_vector_def [abs_def] Let_def
  by (intro inv_intros)

lemma dec_inv_collections [inv_intros]:
  "dec_inv d \<Longrightarrow> dec_inv (decode_array n d)"
  "dec_inv (decode_fixed_bytes n)"
  "dec_inv (decode_string X)"
  unfolding decode_array_def [abs_def] decode_fixed_bytes_def [abs_def] decode_string_def [abs_def]
  by (intro inv_intros, assumption?)+

lemma dec_inv_map [inv_intros]: "dec_inv d \<Longrightarrow> dec_inv (dec_map f d)"
  unfolding dec_map_def [abs_def] by (intro inv_intros)

lemma dec_inv_entries [inv_intros]: "dec_inv d \<Longrightarrow> dec_inv (decode_entries d n m)"
proof (induction n arbitrary: m)
  case (Suc n)
  have "dec_inv (\<lambda>s. bindE (d s) (\<lambda>(p, s1). decode_entries d n (map_emplace (fst p) (snd p) m) s1))"
    by (intro inv_intros Suc)
  then show ?case by (rule dec_inv_cong [rotated]) (simp add: case_prod_unfold)
qed (rule dec_inv_cong [OF _ dec_inv_Inr], simp)

lemma dec_inv_decode_map [inv_intros]: "dec_inv d \<Longrightarrow> dec_inv d' \<Longrightarrow> dec_inv (decode_map X d d')"
  unfolding decode_map_def [abs_def] by (intro inv_intros)

lemma dec_inv_ty: "dec_inv (decode_ty X t)"
  by (induction t) (auto intro!: inv_intros)

section \<open>Types decoded within the span\<close>

named_theorems checked_intros \<open>decoders that never move the iterator past the span\<close>

definition dec_checked :: "'a decoder \<Rightarrow> bool" where
  "dec_checked d \<longleftrightarrow> (\<forall>s. stream_inv s \<longrightarrow> d s \<noteq> Inl Span_out_of_range)"

lemma dec_checked_cong: "(\<And>s. d s = d' s) \<Longrightarrow> dec_checked d' \<Longrightarrow> dec_checked d"
  by (simp add: dec_checked_def)

lemma dec_checked_basic [checked_intros]:
  "dec_checked (\<lambda>s. Inl (ScaleDecodeException m))"
  "dec_checked (\<lambda>s. Inl Std_length_error)"
  "dec_checked (\<lambda>s. Inl Signed_overflow)"
  "dec_checked (\<lambda>s. Inr (v, s))"
  "dec_checked nextByte"
  by (auto simp: dec_checked_def nextByte_def stream_inv_def hasMore_def)

lemma dec_checked_if [checked_intros]:
  "dec_checked d \<Longrightarrow> dec_checked d' \<Longrightarrow> dec_checked (\<lambda>s. if P s then d s else d' s)"
  by (simp add: dec_checked_def)

lemma dec_checked_case_alloc [checked_intros]:
  "dec_checked d1 \<Longrightarrow> dec_checked d2 \<Longrightarrow> dec_checked d3 \<Longrightarrow>
     dec_checked (\<lambda>s. case a of Alloc_ok \<Rightarrow> d1 s | Alloc_bad_alloc \<Rightarrow> d2 s | Alloc_length_error \<Rightarrow> d3 s)"
  by (cases a) simp_all

lemma dec_checked_bind [checked_intros]:
  assumes "dec_inv d" and "dec_checked d" and "\<And>x. dec_checked (f x)"
  shows "dec_checked (\<lambda>s. bindE (d s) (\<lambda>(x, s1). f x s1))"
  unfolding dec_checked_def
proof (intro allI impI)
  fix s assume s: "stream_inv s"
  show "bindE (d s) (\<lambda>(x, s1). f x s1) \<noteq> Inl Span_out_of_range"
  proof (cases "d s" rule: sum_pair_exhaust)
    case (Inl e)
    then show ?thesis using assms(2) s unfolding dec_checked_def by force
  next
    case (Inr x s1)
    then have "stream_inv s1" using dec_invD [OF assms(1) s] by blast
    with Inr assms(3) [of x] show ?thesis by (simp add: dec_checked_def)
  qed
qed

lemma dec_checked_readInteger [checked_intros]: "dec_checked (readInteger ms v)"
proof (induction ms arbitrary: v)
  case (Cons m ms)
  have "dec_checked (\<lambda>s. bindE (nextByte s) (\<lambda>(b, s1). readInteger ms (v + m * ucast b) s1))"
    by (intro checked_intros inv_intros Cons)
  then show ?case by (rule dec_checked_cong [rotated]) simp
qed (rule dec_checked_cong [OF _ dec_checked_basic(4)], simp)

lemma dec_checked_readNumber [checked_intros]: "dec_checked (readNumber n v m)"
proof (induction n arbitrary: v m)
  case (Suc n)
  have "dec_checked (\<lambda>s. bindE (nextByte s) (\<lambda>(b, s1). readNumber n (v + ucast b * m) (push_bit 8 m) s1))"
    by (intro checked_intros inv_intros Suc)
  then show ?case by (rule dec_checked_cong [rotated]) simp
qed (rule dec_checked_cong [OF _ dec_checked_basic(4)], simp)

lemma dec_checked_readBig [checked_intros]: "dec_checked (readBig n v m)"
proof (induction n arbitrary: v m)
  case (Suc n)
  have "dec_checked (\<lambda>s. bindE (nextByte s) (\<lambda>(b, s1). readBig n (v + uint b * m) (m * 256) s1))"
    by (intro checked_intros inv_intros Suc)
  then show ?case by (rule dec_checked_cong [rotated]) simp
qed (rule dec_checked_cong [OF _ dec_checked_basic(4)], simp)

lemma dec_checked_scalars [checked_intros]:
  "dec_checked (decodeInteger u sz)" "dec_checked decodeCompactInteger"
  "dec_checked (decode_integral u sz)" "dec_checked decodeBool" "dec_checked decodeOptionalBool"
proof -
  show 1: "dec_checked (decodeInteger u sz)"
    unfolding decodeInteger_def [abs_def] Let_def by (intro checked_intros inv_intros)
  show "dec_checked decodeCompactInteger"
    unfolding decodeCompactInteger_def [abs_def] Let_def by (intro checked_intros inv_intros)
  show "dec_checked (decode_integral u sz)"
    unfolding decode_integral_def [abs_def] by (intro checked_intros inv_intros 1)
  show "dec_checked decodeBool" "dec_checked decodeOptionalBool"
    unfolding decodeBool_def [abs_def] decodeOptionalBool_def [abs_def]
    by (intro checked_intros inv_intros)+
qed

lemma dec_checked_each [checked_intros]: "dec_inv d \<Longrightarrow> dec_checked d \<Longrightarrow> dec_checked (decode_each d n)"
proof (induction n)
  case (Suc n)
  have "dec_checked (\<lambda>s. bindE (d s) (\<lambda>(x, s1). bindE (decode_each d n s1) (\<lambda>(xs, s2). Inr (x # xs, s2))))"
    by (intro checked_intros inv_intros Suc)
  then show ?case by (rule dec_checked_cong [rotated]) simp
qed (rule dec_checked_cong [OF _ dec_checked_basic(4)], simp)

lemma dec_checked_tuple [checked_intros]:
  "(\<And>d. d \<in> set ds \<Longrightarrow> dec_inv d) \<Longrightarrow> (\<And>d. d \<in> set ds \<Longrightarrow> dec_checked d) \<Longrightarrow>
     dec_checked (decodeElementOfTuple ds)"
proof (induction ds)
  case (Cons d ds)
  have "dec_checked (\<lambda>s. bindE (d s) (\<lambda>(v, s1).
      bindE (decodeElementOfTuple ds s1) (\<lambda>(vs, s2). Inr (v # vs, s2))))"
    by (intro checked_intros inv_intros Cons) simp_all
  then show ?case by (rule dec_checked_cong [rotated]) simp
qed (rule dec_checked_cong [OF _ dec_checked_basic(4)], simp)

lemma dec_checked_try [checked_intros]:
  "(\<And>d. d \<in> set ds \<Longrightarrow> dec_inv d) \<Longrightarrow> (\<And>d. d \<in> set ds \<Longrightarrow> dec_checked d) \<Longrightarrow>
     dec_checked (tryDecodeAsOneOfVariant I ds i)"
proof (induction ds arbitrary: I)
  case (Cons d ds)
  have "dec_checked (\<lambda>s. if I = i then bindE (d s) (\<lambda>(x, s1). Inr (Some (I, x), s1))
                     else tryDecodeAsOneOfVariant (Suc I) ds i s)"
    by (intro checked_intros inv_intros Cons) simp_all
  then show ?case by (rule dec_checked_cong [rotated]) simp
qed (rule dec_checked_cong [OF _ dec_checked_basic(4)], simp)

lemma dec_checked_composites [checked_intros]:
  "dec_inv d1 \<Longrightarrow> dec_checked d1 \<Longrightarrow> dec_inv d2 \<Longrightarrow> dec_checked d2 \<Longrightarrow> dec_checked (decode_pair d1 d2)"
  "dec_inv d \<Longrightarrow> dec_checked d \<Longrightarrow> dec_checked (decode_optional d)"
  "dec_inv d \<Longrightarrow> dec_checked d \<Longrightarrow> dec_checked (decode_ptr d)"
  "dec_inv d \<Longrightarrow> dec_checked d \<Longrightarrow> dec_checked (decode_array n d)"
  "dec_checked (decode_fixed_bytes n)"
  "dec_inv d \<Longrightarrow> dec_checked d \<Longrightarrow> dec_checked (decode_vector X None d)"
  "dec_inv d \<Longrightarrow> dec_checked d \<Longrightarrow> dec_checked (dec_map f d)"
  unfolding decode_pair_def [abs_def] decode_optional_def [abs_def] decode_ptr_def [abs_def]
    decode_array_def [abs_def] decode_fixed_bytes_def [abs_def] decode_vector_def [abs_def]
    dec_map_def [abs_def] Let_def option.case
  by (intro checked_intros inv_intros; assumption)+

lemma dec_checked_entries [checked_intros]: "dec_inv d \<Longrightarrow> dec_checked d \<Longrightarrow> dec_checked (decode_entries d n m)"
proof (induction n arbitrary: m)
  case (Suc n)
  have "dec_checked (\<lambda>s. bindE (d s) (\<lambda>(p, s1). decode_entries d n (map_emplace (fst p) (snd p) m) s1))"
    by (intro checked_intros inv_intros Suc)
  then show ?case by (rule dec_checked_cong [rotated]) (simp add: case_prod_unfold)
qed (rule dec_checked_cong [OF _ dec_checked_basic(4)], simp)

lemma dec_checked_decode_map [checked_intros]:
  "dec_inv d \<Longrightarrow> dec_checked d \<Longrightarrow> dec_inv d' \<Longrightarrow> dec_checked d' \<Longrightarrow> dec_checked (decode_map X d d')"
  unfolding decode_map_def [abs_def] by (intro checked_intros inv_intros)

lemma dec_checked_variant [checked_intros]:
  "(\<And>d. d \<in> set ds \<Longrightarrow> dec_inv d) \<Longrightarrow> (\<And>d. d \<in> set ds \<Longrightarrow> dec_checked d) \<Longrightarrow>
     dec_checked (decode_variant old ds)"
  unfolding decode_variant_def [abs_def] by (intro checked_intros inv_intros)

fun checked_ty :: "sty \<Rightarrow> bool" where
  "checked_ty TU256 = False"
| "checked_ty TS256 = False"
| "checked_ty TString = False"
| "checked_ty (TVec t) = (bulk_of t = None \<and> checked_ty t)"
| "checked_ty (TOpt t) = checked_ty t"
| "checked_ty (TPtr t) = checked_ty t"
| "checked_ty (TArr t n) = checked_ty t"
| "checked_ty (TMap t u) = (checked_ty t \<and> checked_ty u)"
| "checked_ty (TPair t u) = (checked_ty t \<and> checked_ty u)"
| "checked_ty (TTuple ts) = list_all checked_ty ts"
| "checked_ty (TVariant ts) = list_all checked_ty ts"
| "checked_ty _ = True"

lemma dec_checked_ty: "checked_ty t \<Longrightarrow> dec_checked (decode_ty X t)"
  by (induction t) (auto simp: list_all_iff intro!: checked_intros inv_intros dec_inv_ty)

section \<open>An instance of the third-party operations\<close>

text \<open>The plain arithmetic reading of the operations meets their documented behaviour.\<close>

definition ext0 :: scale_ext where
  "ext0 = \<lparr>endian_little = le_bytes, convert_uint = (\<lambda>b v. nat v mod 2 ^ b),
          toBigEndian = (\<lambda>v. be_bytes 32 (unat v)), fromBigEndian = (\<lambda>bs. word_of_nat (be_val bs)),
          s2u = word_of_int, u2s = sint, vec_alloc = (\<lambda>n. Alloc_ok)\<rparr>"

lemma ext0_ok: "scale_ext_ok ext0"
proof -
  have "nat v mod 2 ^ b = nat v" if "0 \<le> v" "v < 2 ^ b" for b and v :: int
    using that by (simp add: nat_less_iff)
  moreover have "sint (word_of_int v :: u256) = v" if "- (2 ^ 255) \<le> v" "v < 2 ^ 255" for v :: int
    using that by (simp add: signed_of_int signed_take_bit_int_eq_self)
  ultimately show ?thesis by (simp add: scale_ext_ok_def ext0_def)
qed

lemma ext0_alloc [simp]: "vec_alloc ext0 n = Alloc_ok"
  by (simp add: ext0_def)

section \<open>Helper facts for the properties\<close>

lemma map_emplace_keys: "set (map fst (map_emplace k v m)) = insert k (set (map fst m))"
  by (induction k v m rule: map_emplace.induct) auto

lemma map_emplace_sorted:
  "sorted_wrt (<) (map fst m) \<Longrightarrow> sorted_wrt (<) (map fst (map_emplace k v m))"
proof (induction k v m rule: map_emplace.induct)
  case (2 k v k' v' m)
  then show ?case using map_emplace_keys [of k v m] by auto
qed simp

lemma decode_entries_sorted:
  "sorted_wrt (<) (map fst m) \<Longrightarrow> decode_entries d n m s = Inr (m', s') \<Longrightarrow>
     sorted_wrt (<) (map fst m')"
proof (induction n arbitrary: m s)
  case (Suc n)
  from Suc.prems(2) obtain k v s1
    where "d s = Inr ((k, v), s1)" and "decode_entries d n (map_emplace k v m) s1 = Inr (m', s')"
    by fastforce
  with Suc.IH [OF map_emplace_sorted [OF Suc.prems(1)]] show ?case by blast
qed simp

lemma length_compact_image:
  "length (compact_image v) = compactLen v + (if v < 2 ^ 30 then 0 else 1)"
  by (simp add: compact_image_def compactLen_def kMinUint16_def kMinUint32_def kMinBigInteger_def)

section \<open>Properties\<close>

text \<open>Claim C1. Round trip: for every C++ type built from the supported overloads, with maps whose keys hold no
  pointers, and every value of it that the format can carry (the least signed integers are not), encoding succeeds, and decoding the bytes, whatever follows
  them, gives the value back.\<close>

theorem scale_roundtrip:
  assumes "ok_ty X t v"
  shows "\<exists>bs. scale_encode (encode_ty X t) v = Inr bs \<and>
           (\<forall>rest. scale_decode (decode_ty X t) (bs @ rest) = Inr v)"
  using ty.encode_decode [OF assms] by blast

text \<open>A vector of tuples and a map from strings to optional booleans.\<close>

definition example_ty :: sty where
  "example_ty = TTuple [TVec (TTuple [TInt False 4, TOpt TString, TCompact]), TMap TString (TOpt TBool)]"

definition example_val :: sval where
  "example_val = VList [VList [VList [VInt (- 5), VOpt (Some (VBytes [104, 105])), VInt 70000]],
     VList [VPair (VBytes [97], VOpt (Some (VBool False))), VPair (VBytes [97, 98], VOpt None)]]"

theorem scale_roundtrip_witness:
  "\<exists>bs. scale_encode (encode_ty ext0 example_ty) example_val = Inr bs \<and>
         (\<forall>rest. scale_decode (decode_ty ext0 example_ty) (bs @ rest) = Inr example_val)"
  by (rule scale_roundtrip)
     (simp add: example_ty_def example_val_def ext0_ok count_ok_def string_ok_def integral_ok_def int_range_def
        negates_least_def compact_fits_def less_sval_def less_eq_sval_def)

text \<open>The wire format is unambiguous: if the encodings of two values of one type, each
  followed by arbitrary bytes, are the same byte string, then the values and the following bytes
  are the same.\<close>

lemma scale_unambiguous:
  assumes "ok_ty X t v" and "ok_ty X t w"
    and "scale_encode (encode_ty X t) v = Inr bv" and "scale_encode (encode_ty X t) w = Inr bw"
    and "bv @ p = bw @ q"
  shows "v = w \<and> p = q"
proof -
  have "bv = image_ty X t v" using assms(3) ty.encode_decode(1) [OF assms(1)] by simp
  moreover have "bw = image_ty X t w" using assms(4) ty.encode_decode(1) [OF assms(2)] by simp
  ultimately show ?thesis using ty.image_prefix_free [OF assms(1,2)] assms(5) by simp
qed

theorem scale_unambiguous_witness:
  "scale_encode (encode_ty ext0 (TOpt TBool)) (VOpt (Some (VBool True))) = Inr [1] \<and>
   VOpt (Some (VBool True)) = VOpt (Some (VBool True)) \<and> ([7] :: bytes) = [7]"
proof -
  have e: "scale_encode (encode_ty ext0 (TOpt TBool)) (VOpt (Some (VBool True))) = Inr [1]"
    by (simp add: scale_encode_def encodeOptionalBool_def putByte_def new_encoder_def data_def)
  show ?thesis using e scale_unambiguous [OF _ _ e e, of "[7]" "[7]"] by simp
qed

text \<open>Claim C20. The compact-integer codec on every branch: a value in the range of the format
  (0 to 2 to the power 536, exclusive) is encoded into its wire image, which decodes back to it
  whatever follows; any other value is refused with an encode exception.\<close>

theorem compact_integer_codec:
  assumes "scale_ext_ok X"
  shows "(case scale_encode (encodeCompactInteger X) v of
            Inr bs \<Rightarrow> 0 \<le> v \<and> v < 2 ^ 536 \<and> bs = compact_image (nat v) \<and>
                      (\<forall>rest. scale_decode decodeCompactInteger (bs @ rest) = Inr v)
          | Inl e \<Rightarrow> (v < 0 \<or> 2 ^ 536 \<le> v) \<and> (\<exists>m. e = ScaleEncodeException m))"
proof (cases "compact_fits v")
  case True
  with assms have ok: "scale_ext_ok X \<and> compact_fits v" by simp
  with True show ?thesis
    using compact_codec.encode_decode [OF ok] by (auto simp: compact_fits_def)
next
  case False
  then obtain m where "encodeCompactInteger X v new_encoder = Inl (ScaleEncodeException m)"
    using encodeCompactInteger_error [of v X new_encoder] by blast
  with False show ?thesis by (auto simp: scale_encode_def compact_fits_def)
qed

theorem compact_integer_codec_witness:
  "(case scale_encode (encodeCompactInteger ext0) 1000 of
      Inr bs \<Rightarrow> (0::int) \<le> 1000 \<and> (1000::int) < 2 ^ 536 \<and> bs = compact_image (nat 1000) \<and>
                (\<forall>rest. scale_decode decodeCompactInteger (bs @ rest) = Inr 1000)
    | Inl e \<Rightarrow> ((1000::int) < 0 \<or> 2 ^ 536 \<le> (1000::int)) \<and> (\<exists>m. e = ScaleEncodeException m))"
  by (rule compact_integer_codec [OF ext0_ok])

text \<open>Every decoder keeps the stream consistent on any input: after a successful decode
  the iterator and the index still agree and are within the span, the span is the same, and the
  position has not moved backwards.\<close>

lemma decode_keeps_stream:
  assumes "stream_inv s" and "decode_ty X t s = Inr (v, s')"
  shows "stream_inv s' \<and> m_span s' = m_span s \<and> m_currentIndex s \<le> m_currentIndex s'"
  by (rule dec_invD [OF dec_inv_ty assms])

theorem decode_keeps_stream_witness:
  "stream_inv (stream_at [9] [1, 2]) \<and> stream_inv (stream_at [9, 1] [2]) \<and>
   m_span (stream_at [9, 1] [2]) = m_span (stream_at [9] [1, 2]) \<and>
   m_currentIndex (stream_at [9] [1, 2]) \<le> m_currentIndex (stream_at [9, 1] [2])"
proof -
  have d: "decode_ty ext0 TBool (stream_at [9] [1, 2]) = Inr (VBool True, stream_at [9, 1] [2])"
    by (simp add: dec_map_def decodeBool_def codec_simps)
  show ?thesis using decode_keeps_stream [OF _ d] by simp
qed

text \<open>Types that contain no 256-bit integer, no string and no vector of one-byte elements
  are decoded without ever moving the iterator past the span, whatever the input.\<close>

lemma decode_within_span:
  assumes "checked_ty t" and "stream_inv s"
  shows "decode_ty X t s \<noteq> Inl Span_out_of_range"
  using dec_checked_ty [OF assms(1), of X] assms(2) by (simp add: dec_checked_def)

theorem decode_within_span_witness:
  "checked_ty (TVec (TInt True 4)) \<and> decode_ty ext0 (TVec (TInt True 4)) (stream_at [] [8, 1]) \<noteq> Inl Span_out_of_range"
  using decode_within_span [of "TVec (TInt True 4)" "stream_at [] [8, 1]" ext0] by simp

text \<open>The bulk reads have no length check: a 256-bit integer read from fewer than 32 bytes,
  and a string whose announced length exceeds the bytes left, move the span iterator out of range
  instead of throwing a decode exception.\<close>

lemma bulk_reads_unchecked:
  "(length sp < 32 \<longrightarrow> scale_decode (decode_u256 X) sp = Inl Span_out_of_range) \<and>
   (count_ok X n \<and> vec_alloc X n = Alloc_ok \<and> length rest < n \<longrightarrow>
      scale_decode (decode_string X) (compact_image n @ rest) = Inl Span_out_of_range)"
  by (simp add: scale_decode_def decode_u256_def new_decoder_at takeBytes_at_short
      decode_string_def decode_vector_def decodeCount_at [of X n] count_ok_convert)

theorem bulk_reads_unchecked_witness:
  "scale_decode (decode_u256 ext0) [1, 2, 3] = Inl Span_out_of_range \<and>
   scale_decode (decode_string ext0) (compact_image 5 @ [1]) = Inl Span_out_of_range"
  using bulk_reads_unchecked [of "[1, 2, 3]" ext0 5 "[1]"]
  by (simp add: count_ok_def ext0_ok)

text \<open>The least value of a signed type of four to eight bytes is encoded, and decoding it
  negates the least value of that type, which overflows.\<close>

lemma least_signed_overflows:
  assumes "scale_ext_ok X" and "4 \<le> sz" and "sz \<le> 8"
  shows "\<exists>bs. scale_encode (encode_integral X sz) (- (2 ^ (8 * sz - 1))) = Inr bs \<and>
           scale_decode (decode_integral False sz) bs = Inl Signed_overflow"
proof -
  let ?v = "- (2 ^ (8 * sz - 1)) :: int"
  have r: "int_range False sz ?v" "negates_least False sz ?v"
    using assms(2) by (simp_all add: int_range_def negates_least_def)
  have "scale_encode (encode_integral X sz) ?v = Inr (int_image sz ?v)"
    using assms by (simp add: scale_encode_def encode_integral_def encodeInteger_image)
  moreover have "scale_decode (decode_integral False sz) (int_image sz ?v) = Inl Signed_overflow"
    using decodeInteger_signed [of sz ?v "[]" "[]"] assms r
    by (simp add: scale_decode_def decode_integral_def new_decoder_at)
  ultimately show ?thesis by blast
qed

theorem least_signed_overflows_witness:
  "\<exists>bs. scale_encode (encode_integral ext0 4) (- (2 ^ (8 * 4 - 1))) = Inr bs \<and>
        scale_decode (decode_integral False 4) bs = Inl Signed_overflow"
  by (rule least_signed_overflows [OF ext0_ok]) simp_all

text \<open>\<open>compactLen\<close> is the length of the compact encoding below 2 to the power 30, and one
  less than it from there on: the header byte of the multi-byte form is not counted.\<close>

lemma compactLen_vs_encoding:
  assumes "scale_ext_ok X" and "n < 2 ^ 536"
  shows "\<exists>bs. scale_encode (encodeCompactInteger X) (int n) = Inr bs \<and>
           length bs = compactLen n + (if n < 2 ^ 30 then 0 else 1)"
proof -
  have "int n < 2 ^ 536" using assms(2) by (metis of_nat_less_iff of_nat_numeral of_nat_power)
  then have "scale_ext_ok X \<and> compact_fits (int n)" using assms(1) by (simp add: compact_fits_def)
  from compact_codec.encode_decode(1) [OF this] show ?thesis
    by (simp add: length_compact_image)
qed

theorem compactLen_vs_encoding_witness:
  "\<exists>bs. scale_encode (encodeCompactInteger ext0) (int (2 ^ 30)) = Inr bs \<and>
        length bs = compactLen (2 ^ 30) + (if (2::nat) ^ 30 < 2 ^ 30 then 0 else 1)"
  by (rule compactLen_vs_encoding [OF ext0_ok]) simp

text \<open>Maps with integer keys: a map in key order survives the round trip, and whatever bytes
  are decoded, the result is in strictly ascending key order (a repeated key keeps its first
  value).\<close>

lemma scale_map_roundtrip:
  assumes "count_ok X (length m)" and "sorted_wrt (<) (map fst m)"
    and "\<forall>p \<in> set m. integral_ok X is_unsigned sz (fst p) \<and> ok_ty X t (snd p)"
  shows "(\<exists>bs. scale_encode (encode_map X (encode_integral X sz) (encode_ty X t)) m = Inr bs \<and>
            scale_decode (decode_map X (decode_integral is_unsigned sz) (decode_ty X t)) (bs @ rest) = Inr m) \<and>
         (\<forall>raw m'. scale_decode (decode_map X (decode_integral is_unsigned sz) (decode_ty X t)) raw = Inr m' \<longrightarrow>
            sorted_wrt (<) (map fst m'))"
proof (intro conjI allI impI)
  note c = map_codec [OF integral_codec.scale_codec_axioms [of X sz is_unsigned] codec_ty [of X t], of X]
  show "\<exists>bs. scale_encode (encode_map X (encode_integral X sz) (encode_ty X t)) m = Inr bs \<and>
           scale_decode (decode_map X (decode_integral is_unsigned sz) (decode_ty X t)) (bs @ rest) = Inr m"
    using scale_codec.encode_decode [OF c, of m] assms by blast
  fix raw m'
  assume "scale_decode (decode_map X (decode_integral is_unsigned sz) (decode_ty X t)) raw = Inr m'"
  then show "sorted_wrt (<) (map fst m')"
    by (auto simp: scale_decode_def decode_map_def elim!: bindE_InrE dest: decode_entries_sorted [rotated])
qed

theorem scale_map_roundtrip_witness:
  "\<exists>bs. scale_encode (encode_map ext0 (encode_integral ext0 4) (encode_ty ext0 TBool))
          [(3, VBool True), (9, VBool False)] = Inr bs \<and>
        scale_decode (decode_map ext0 (decode_integral True 4) (decode_ty ext0 TBool)) (bs @ [1]) =
          Inr [(3, VBool True), (9, VBool False)]"
  by (rule scale_map_roundtrip [THEN conjunct1])
     (simp_all add: count_ok_def ext0_ok integral_ok_def int_range_def negates_least_def)

end
