(* ===== verification/AmopRequest.thy ===== *)
theory AmopRequest
  imports Prelude
begin

text \<open>
  The AMOP request message (\<open>amop/AMOPRequest.h\<close>, \<open>amop/AMOPRequest.cpp\<close>): a
  four byte version, a two byte topic length, both in network order, the topic and the data.
  The byte order routines of \<open>boost::asio\<close> and \<open>RefDataContainer::getCroppedData\<close>
  of bcos-utilities are the record \<open>net_ext\<close>, with \<open>net_ext_ok\<close> for what they
  promise. The host is little-endian, as on every platform the SDK is built for.
\<close>

record net_ext =
  host_to_network_long :: "u32 \<Rightarrow> u32"
  network_to_host_long :: "u32 \<Rightarrow> u32"
  host_to_network_short :: "u16 \<Rightarrow> u16"
  network_to_host_short :: "u16 \<Rightarrow> u16"
  getCroppedData :: "bytes \<Rightarrow> nat \<Rightarrow> bytes"

text \<open>The object representation of an integer of the host, and reading it back.\<close>

definition mem_u32 :: "u32 \<Rightarrow> bytes" where
  "mem_u32 w = le_bytes 4 (unat w)"

definition mem_u16 :: "u16 \<Rightarrow> bytes" where
  "mem_u16 w = le_bytes 2 (unat w)"

definition load_u32 :: "bytes \<Rightarrow> u32" where
  "load_u32 bs = word_of_nat (le_val (take 4 bs))"

definition load_u16 :: "bytes \<Rightarrow> u16" where
  "load_u16 bs = word_of_nat (le_val (take 2 bs))"

definition net_ext_ok :: "net_ext \<Rightarrow> bool" where
  "net_ext_ok N \<longleftrightarrow>
     (\<forall>v. mem_u32 (host_to_network_long N v) = be_bytes 4 (unat v)) \<and>
     (\<forall>v. mem_u16 (host_to_network_short N v) = be_bytes 2 (unat v)) \<and>
     (\<forall>v. network_to_host_long N (host_to_network_long N v) = v) \<and>
     (\<forall>v. network_to_host_short N (host_to_network_short N v) = v) \<and>
     (\<forall>bs n. n \<le> length bs \<longrightarrow> getCroppedData N bs n = drop n bs)"

datatype amop_exn = Runtime_error

record amop_request =
  m_topic :: string
  m_data :: bytes
  m_version :: u32

definition buildRequest :: amop_request where
  "buildRequest = \<lparr>m_topic = [], m_data = [], m_version = 0\<rparr>"

definition TOPIC_MAX_LENGTH :: nat where
  "TOPIC_MAX_LENGTH = 65535"

definition MESSAGE_MIN_LENGTH :: nat where
  "MESSAGE_MIN_LENGTH = 2"

definition request_encode :: "net_ext \<Rightarrow> amop_request \<Rightarrow> bytes \<Rightarrow> bool \<times> bytes" where
  "request_encode N r buffer =
     (if length (m_topic r) > TOPIC_MAX_LENGTH then (False, buffer)
      else
        let version = host_to_network_long N (m_version r);
            buffer = buffer @ mem_u32 version;
            len = host_to_network_short N (word_of_nat (length (m_topic r)));
            buffer = buffer @ mem_u16 len;
            buffer = buffer @ bytes_of_string (m_topic r);
            buffer = buffer @ m_data r
        in (True, buffer))"

definition OFFSET_CHECK :: "nat \<Rightarrow> nat \<Rightarrow> nat \<Rightarrow> bool" where
  "OFFSET_CHECK offset step len \<longleftrightarrow> \<not> (offset + step > len)"

text \<open>
  \<open>decode\<close> writes the fields one after another and leaves them written when a later
  check throws. The handler of the function catches \<open>std::string\<close>, the checks throw
  \<open>std::runtime_error\<close>: the exception leaves the function.
\<close>

definition request_decode :: "net_ext \<Rightarrow> bytes \<Rightarrow> amop_request \<Rightarrow> (amop_exn + int) \<times> amop_request" where
  "request_decode N bs r =
     (if length bs < MESSAGE_MIN_LENGTH then (Inr (-1), r)
      else
        let len = length bs; offset = 0; versionLen = 4 in
        if \<not> OFFSET_CHECK offset versionLen len then (Inl Runtime_error, r)
        else
          let offset = offset + versionLen;
              r = r\<lparr>m_version := network_to_host_long N (load_u32 bs)\<rparr> in
          if \<not> OFFSET_CHECK offset 2 len then (Inl Runtime_error, r)
          else
            let topicLen = unat (network_to_host_short N (load_u16 (drop versionLen bs)));
                offset = offset + 2 in
            if \<not> OFFSET_CHECK offset topicLen len then (Inl Runtime_error, r)
            else
              let r = r\<lparr>m_topic := string_of_bytes (take topicLen (drop offset bs))\<rparr>;
                  offset = offset + topicLen;
                  r = r\<lparr>m_data := getCroppedData N bs offset\<rparr>
              in (Inr (int (length bs)), r))"

section \<open>Network order\<close>

lemma load_mem_u32: "load_u32 (mem_u32 w @ bs) = w"
proof -
  have "unat w < 2 ^ LENGTH(32)" by (rule unsigned_less)
  then show ?thesis by (simp add: load_u32_def mem_u32_def)
qed

lemma load_mem_u16: "load_u16 (mem_u16 w @ bs) = w"
proof -
  have "unat w < 2 ^ LENGTH(16)" by (rule unsigned_less)
  then show ?thesis by (simp add: load_u16_def mem_u16_def)
qed

lemma length_mem [simp]: "length (mem_u32 w) = 4" "length (mem_u16 v) = 2"
  by (simp_all add: mem_u32_def mem_u16_def)

lemma net_ext_okD:
  assumes "net_ext_ok N"
  shows "mem_u32 (host_to_network_long N v) = be_bytes 4 (unat v)"
    and "mem_u16 (host_to_network_short N w) = be_bytes 2 (unat w)"
    and "network_to_host_long N (host_to_network_long N v) = v"
    and "network_to_host_short N (host_to_network_short N w) = w"
    and "n \<le> length bs \<Longrightarrow> getCroppedData N bs n = drop n bs"
  using assms by (simp_all add: net_ext_ok_def)

lemma load_network_u32:
  assumes "net_ext_ok N"
  shows "network_to_host_long N (load_u32 (be_bytes 4 (unat v) @ bs)) = v"
  using load_mem_u32 [of "host_to_network_long N v" bs] net_ext_okD [OF assms] by simp

lemma load_network_u16:
  assumes "net_ext_ok N"
  shows "network_to_host_short N (load_u16 (be_bytes 2 (unat v) @ bs)) = v"
  using load_mem_u16 [of "host_to_network_short N v" bs] net_ext_okD [OF assms] by simp

lemma network_u32_prefix:
  assumes "net_ext_ok N" and "4 \<le> length bs"
  shows "network_to_host_long N (load_u32 bs) = word_of_nat (be_val (take 4 bs))"
proof -
  have l: "length (take 4 bs) = 4" using assms(2) by simp
  have "be_val (take 4 bs) < 2 ^ LENGTH(32)" using be_val_less [of "take 4 bs"] l by simp
  then have "be_bytes 4 (unat (word_of_nat (be_val (take 4 bs)) :: u32)) = take 4 bs"
    using be_bytes_be_val [of "take 4 bs"] l by (simp add: unat_word_of_nat_id)
  then show ?thesis
    using load_network_u32 [OF assms(1), of "word_of_nat (be_val (take 4 bs))" "drop 4 bs"] by simp
qed

lemma network_u16_prefix:
  assumes "net_ext_ok N" and "2 \<le> length bs"
  shows "network_to_host_short N (load_u16 bs) = word_of_nat (be_val (take 2 bs))"
proof -
  have l: "length (take 2 bs) = 2" using assms(2) by simp
  have "be_val (take 2 bs) < 2 ^ LENGTH(16)" using be_val_less [of "take 2 bs"] l by simp
  then have "be_bytes 2 (unat (word_of_nat (be_val (take 2 bs)) :: u16)) = take 2 bs"
    using be_bytes_be_val [of "take 2 bs"] l by (simp add: unat_word_of_nat_id)
  then show ?thesis
    using load_network_u16 [OF assms(1), of "word_of_nat (be_val (take 2 bs))" "drop 2 bs"] by simp
qed

lemma be_val_two_less: "2 \<le> length bs \<Longrightarrow> be_val (take 2 bs) < 2 ^ LENGTH(16)"
  using be_val_less [of "take 2 bs"] by simp

section \<open>The image of a request\<close>

text \<open>The wire format, written as a specification.\<close>

definition request_image :: "amop_request \<Rightarrow> bytes" where
  "request_image r = be_bytes 4 (unat (m_version r)) @ be_bytes 2 (length (m_topic r)) @
     bytes_of_string (m_topic r) @ m_data r"

lemma request_encode_image:
  assumes "net_ext_ok N"
  shows "request_encode N r buffer =
    (if length (m_topic r) \<le> TOPIC_MAX_LENGTH then (True, buffer @ request_image r) else (False, buffer))"
  by (simp add: request_encode_def request_image_def net_ext_okD [OF assms] Let_def
      TOPIC_MAX_LENGTH_def unat_word_of_nat_id)

text \<open>What the fields of a message are, by position.\<close>

definition wire_version :: "bytes \<Rightarrow> u32" where
  "wire_version bs = word_of_nat (be_val (take 4 bs))"

definition wire_topicLen :: "bytes \<Rightarrow> nat" where
  "wire_topicLen bs = be_val (take 2 (drop 4 bs))"

lemma request_decode_cases:
  assumes "net_ext_ok N"
  shows "request_decode N bs r =
    (if length bs < 2 then (Inr (-1), r)
     else if length bs < 4 then (Inl Runtime_error, r)
     else if length bs < 6 \<or> length bs < 6 + wire_topicLen bs
       then (Inl Runtime_error, r\<lparr>m_version := wire_version bs\<rparr>)
     else (Inr (int (length bs)),
       \<lparr>m_topic = string_of_bytes (take (wire_topicLen bs) (drop 6 bs)),
        m_data = drop (6 + wire_topicLen bs) bs, m_version = wire_version bs\<rparr>))"
proof -
  have v: "network_to_host_long N (load_u32 bs) = wire_version bs" if "4 \<le> length bs"
    using network_u32_prefix [OF assms that] by (simp add: wire_version_def)
  have t: "unat (network_to_host_short N (load_u16 (drop 4 bs))) = wire_topicLen bs" if "6 \<le> length bs"
    using network_u16_prefix [OF assms, of "drop 4 bs"] be_val_two_less [of "drop 4 bs"] that
    by (simp add: wire_topicLen_def unat_word_of_nat_id)
  show ?thesis
    by (cases r) (simp add: request_decode_def MESSAGE_MIN_LENGTH_def OFFSET_CHECK_def Let_def v t
        net_ext_okD(5) [OF assms])
qed

lemma wire_topicLen_image:
  assumes "length (m_topic r) \<le> TOPIC_MAX_LENGTH"
  shows "wire_topicLen (request_image r) = length (m_topic r)"
  using assms by (simp add: wire_topicLen_def request_image_def TOPIC_MAX_LENGTH_def)

lemma wire_version_image: "wire_version (request_image r) = m_version r"
proof -
  have "unat (m_version r) < 2 ^ LENGTH(32)" by (rule unsigned_less)
  then show ?thesis by (simp add: wire_version_def request_image_def)
qed

lemma request_decode_image:
  assumes "net_ext_ok N" and "length (m_topic r) \<le> TOPIC_MAX_LENGTH"
  shows "request_decode N (request_image r) r0 = (Inr (int (length (request_image r))), r)"
proof -
  have "length (request_image r) = 6 + length (m_topic r) + length (m_data r)"
    by (simp add: request_image_def)
  moreover have "take (length (m_topic r)) (drop 6 (request_image r)) = bytes_of_string (m_topic r)"
    and "drop (6 + length (m_topic r)) (request_image r) = m_data r"
    by (simp_all add: request_image_def)
  ultimately show ?thesis
    by (simp add: request_decode_cases [OF assms(1)] wire_topicLen_image [OF assms(2)] wire_version_image)
qed

section \<open>An instance of the byte order routines\<close>

definition net_ext0 :: net_ext where
  "net_ext0 = \<lparr>host_to_network_long = (\<lambda>w. word_of_nat (be_val (le_bytes 4 (unat w)))),
     network_to_host_long = (\<lambda>w. word_of_nat (be_val (le_bytes 4 (unat w)))),
     host_to_network_short = (\<lambda>w. word_of_nat (be_val (le_bytes 2 (unat w)))),
     network_to_host_short = (\<lambda>w. word_of_nat (be_val (le_bytes 2 (unat w)))),
     getCroppedData = (\<lambda>bs n. drop n bs)\<rparr>"

lemma le_bytes_swap: "le_bytes n (be_val (le_bytes n v)) = be_bytes n v"
  using le_bytes_le_val [of "rev (le_bytes n v)"] by (simp add: be_val_def be_bytes_def)

lemma net_ext0_ok [simp]: "net_ext_ok net_ext0"
proof -
  have 4: "unat (word_of_nat (be_val (le_bytes 4 n)) :: u32) = be_val (le_bytes 4 n)" for n
    using be_val_less [of "le_bytes 4 n"] by (intro unat_word_of_nat_id) simp
  have 2: "unat (word_of_nat (be_val (le_bytes 2 n)) :: u16) = be_val (le_bytes 2 n)" for n
    using be_val_less [of "le_bytes 2 n"] by (intro unat_word_of_nat_id) simp
  have "unat (v :: u32) < 2 ^ LENGTH(32)" "unat (w :: u16) < 2 ^ LENGTH(16)" for v w
    by (rule unsigned_less)+
  then show ?thesis
    by (simp add: net_ext_ok_def net_ext0_def mem_u32_def mem_u16_def 2 4 le_bytes_swap)
qed

end
