(* ===== verification/StdSet.thy ===== *)
theory StdSet
  imports Prelude "HOL-Library.Char_ord" "HOL-Library.List_Lexorder"
begin

text \<open>
  \<open>std::set<std::string>\<close> as the components use it: a strictly increasing list, with the
  operations of the container and the flag or count each reports, and
  \<open>std::unordered_map<std::string, T>\<close> as an association list without duplicate keys.
  The order in which the latter is iterated is unspecified in C++; nothing proved in the
  development depends on it.
\<close>

section \<open>Ordered sets\<close>

definition set_insert :: "string \<Rightarrow> string list \<Rightarrow> string list \<times> bool" where
  "set_insert x xs = (if x \<in> set xs then (xs, False) else (insort x xs, True))"

definition set_erase :: "string \<Rightarrow> string list \<Rightarrow> string list \<times> nat" where
  "set_erase x xs = (if x \<in> set xs then (remove1 x xs, 1) else (xs, 0))"

definition std_set :: "string list \<Rightarrow> bool" where
  "std_set xs \<longleftrightarrow> sorted xs \<and> distinct xs"

lemma std_set_Nil [simp]: "std_set []"
  by (simp add: std_set_def)

lemma set_insert_std:
  assumes "std_set xs"
  shows "std_set (fst (set_insert x xs)) \<and> set (fst (set_insert x xs)) = insert x (set xs) \<and>
    length (fst (set_insert x xs)) = length xs + (if x \<in> set xs then 0 else 1)"
  using assms by (auto simp: std_set_def set_insert_def sorted_insort set_insort_key distinct_insort)

lemma set_erase_std:
  assumes "std_set xs"
  shows "std_set (fst (set_erase x xs)) \<and> set (fst (set_erase x xs)) = set xs - {x} \<and>
    (0 < snd (set_erase x xs) \<longleftrightarrow> x \<in> set xs)"
  using assms by (auto simp: std_set_def set_erase_def sorted_remove1)

lemma std_set_length: "std_set xs \<Longrightarrow> length xs = card (set xs)"
  by (simp add: std_set_def distinct_card)

lemma std_set_unique: "std_set xs \<Longrightarrow> std_set ys \<Longrightarrow> set xs = set ys \<Longrightarrow> xs = ys"
  by (simp add: std_set_def sorted_distinct_set_unique)

definition insert_all :: "string list \<Rightarrow> string list \<Rightarrow> string list" where
  "insert_all ts xs = fold (\<lambda>t acc. fst (set_insert t acc)) ts xs"

lemma insert_all_simps [simp]:
  "insert_all [] xs = xs" "insert_all (t # ts) xs = insert_all ts (fst (set_insert t xs))"
  by (simp_all add: insert_all_def)

lemma insert_all_std:
  "std_set xs \<Longrightarrow> std_set (insert_all ts xs) \<and> set (insert_all ts xs) = set xs \<union> set ts"
  by (induction ts arbitrary: xs) (use set_insert_std in auto)

lemma insert_all_empty [simp]: "std_set xs \<Longrightarrow> insert_all xs [] = xs"
  using insert_all_std [of "[]" xs] by (intro std_set_unique) simp_all

section \<open>Unordered maps\<close>

definition umap_find :: "string \<Rightarrow> (string \<times> 'a) list \<Rightarrow> 'a option" where
  "umap_find k m = map_of m k"

definition umap_erase :: "string \<Rightarrow> (string \<times> 'a) list \<Rightarrow> (string \<times> 'a) list" where
  "umap_erase k m = filter (\<lambda>(k', _). k' \<noteq> k) m"

definition umap_set :: "string \<Rightarrow> 'a \<Rightarrow> (string \<times> 'a) list \<Rightarrow> (string \<times> 'a) list" where
  "umap_set k v m = (if umap_find k m = None then m @ [(k, v)] else map (\<lambda>(k', v'). (k', if k' = k then v else v')) m)"

definition umap_ok :: "(string \<times> 'a) list \<Rightarrow> bool" where
  "umap_ok m \<longleftrightarrow> distinct (map fst m)"

lemma umap_find_erase [simp]: "umap_find k (umap_erase k' m) = (if k = k' then None else umap_find k m)"
  by (induction m) (auto simp: umap_find_def umap_erase_def)

lemma map_of_update_value:
  "map_of (map (\<lambda>(k', v'). (k', if k' = k then v else v')) m) k0 =
     (if k0 = k then (if map_of m k = None then None else Some v) else map_of m k0)"
  by (induction m) auto

lemma umap_find_set [simp]: "umap_find k (umap_set k' v m) = (if k = k' then Some v else umap_find k m)"
  by (auto simp: umap_find_def umap_set_def map_of_update_value map_add_def split: option.splits)

lemma umap_find_None: "umap_find k m = None \<longleftrightarrow> k \<notin> fst ` set m"
  by (simp add: umap_find_def map_of_eq_None_iff)

lemma umap_ok_erase [simp]: "umap_ok m \<Longrightarrow> umap_ok (umap_erase k m)"
  by (simp add: umap_ok_def umap_erase_def distinct_map_filter)

lemma umap_ok_set [simp]: "umap_ok m \<Longrightarrow> umap_ok (umap_set k v m)"
  by (auto simp: umap_ok_def umap_set_def umap_find_None comp_def case_prod_unfold)

lemma umap_ok_Nil [simp]: "umap_ok []"
  by (simp add: umap_ok_def)

lemma length_umap_set: "length (umap_set k v m) = length m + (if umap_find k m = None then 1 else 0)"
  by (simp add: umap_set_def)

lemma umap_erase_absent: "umap_find k m = None \<Longrightarrow> umap_erase k m = m"
  unfolding umap_find_None umap_erase_def by (rule filter_True) force

lemma length_umap_erase:
  "umap_ok m \<Longrightarrow> length (umap_erase k m) = length m - (if umap_find k m = None then 0 else 1)"
proof (induction m)
  case (Cons e m)
  obtain k' v where e: "e = (k', v)" by (cases e)
  show ?case
  proof (cases "k' = k")
    case True
    then have "umap_find k m = None" using Cons.prems e by (simp add: umap_find_None umap_ok_def)
    then show ?thesis using True e umap_erase_absent [of k m] by (simp add: umap_erase_def umap_find_def)
  next
    case False
    have "umap_ok m" using Cons.prems e by (simp add: umap_ok_def)
    moreover have "umap_find k m \<noteq> None \<Longrightarrow> 0 < length m" by (cases m) (simp_all add: umap_find_def)
    ultimately show ?thesis using False e Cons.IH by (auto simp: umap_erase_def umap_find_def)
  qed
qed (simp add: umap_erase_def umap_find_def)

lemma umap_find_mem: "umap_ok m \<Longrightarrow> (k, v) \<in> set m \<longleftrightarrow> umap_find k m = Some v"
  by (simp add: umap_find_def umap_ok_def map_of_eq_Some_iff)

section \<open>Ordered maps\<close>

text \<open>\<open>std::map\<close> as the list of its entries in strictly ascending order of the keys.\<close>

fun omap_set :: "'k::linorder \<Rightarrow> 'v \<Rightarrow> ('k \<times> 'v) list \<Rightarrow> ('k \<times> 'v) list" where
  "omap_set k v [] = [(k, v)]"
| "omap_set k v ((k', v') # m) =
     (if k < k' then (k, v) # (k', v') # m
      else if k = k' then (k, v) # m else (k', v') # omap_set k v m)"

definition omap_erase :: "'k \<Rightarrow> ('k \<times> 'v) list \<Rightarrow> ('k \<times> 'v) list" where
  "omap_erase k m = filter (\<lambda>(k', _). k' \<noteq> k) m"

definition omap_ok :: "('k::linorder \<times> 'v) list \<Rightarrow> bool" where
  "omap_ok m \<longleftrightarrow> sorted_wrt (<) (map fst m)"

lemma omap_ok_Nil [simp]: "omap_ok []"
  by (simp add: omap_ok_def)

lemma set_omap_set: "fst ` set (omap_set k v m) = insert k (fst ` set m)"
  by (induction k v m rule: omap_set.induct) auto

lemma omap_set_mem: "e \<in> set (omap_set k v m) \<Longrightarrow> e = (k, v) \<or> e \<in> set m"
  by (induction k v m rule: omap_set.induct) (auto split: if_splits)

lemma omap_ok_set [simp]: "omap_ok m \<Longrightarrow> omap_ok (omap_set k v m)"
proof (induction k v m rule: omap_set.induct)
  case (2 k v k' v' m)
  then show ?case
    using set_omap_set [of k v m] by (auto simp: omap_ok_def image_iff Ball_def)
qed (simp add: omap_ok_def)

lemma omap_ok_erase [simp]: "omap_ok m \<Longrightarrow> omap_ok (omap_erase k m)"
  unfolding omap_ok_def omap_erase_def by (induction m) auto

lemma omap_ok_distinct: "omap_ok m \<Longrightarrow> distinct (map fst m)"
  by (simp add: omap_ok_def strict_sorted_iff)

lemma map_of_omap_set [simp]: "omap_ok m \<Longrightarrow> map_of (omap_set k v m) = (map_of m)(k \<mapsto> v)"
proof (induction k v m rule: omap_set.induct)
  case (2 k v k' v' m)
  then show ?case by (auto simp: omap_ok_def fun_eq_iff)
qed simp

lemma map_of_omap_erase [simp]: "map_of (omap_erase k m) = (map_of m)(k := None)"
  unfolding omap_erase_def by (induction m) auto

lemma omap_set_last: "\<forall>e \<in> set m. fst e < k \<Longrightarrow> omap_set k v m = m @ [(k, v)]"
  by (induction k v m rule: omap_set.induct) auto

text \<open>Entering the entries of an ordered map one after the other rebuilds it.\<close>

lemma fold_omap_set: "omap_ok (m' @ m) \<Longrightarrow> fold (\<lambda>(k, v). omap_set k v) m m' = m' @ m"
proof (induction m arbitrary: m')
  case (Cons e m)
  have "omap_set (fst e) (snd e) m' = m' @ [e]"
    using Cons.prems by (subst omap_set_last) (auto simp: omap_ok_def sorted_wrt_append)
  then show ?case using Cons.IH [of "m' @ [e]"] Cons.prems by (simp add: case_prod_unfold)
qed simp

end
