(* ===== verification/Json.thy ===== *)
theory Json
  imports StdSet "HOL-Library.Countable" "HOL-Library.Multiset"
begin

text \<open>
  JSON values as the SDK builds and inspects them through jsoncpp, and what it relies on of that
  library. \<open>Json::Value\<close> is the datatype \<open>json\<close>; the operations of the library are the
  record \<open>jsoncpp\<close>, an argument of every definition that calls them, and
  \<open>jsoncpp_ok\<close> is their documented behaviour on the values the SDK passes.
\<close>

datatype json =
    JNull
  | JBool bool
  | JInt int
  | JReal string
  | JString string
  | JArray "json list"
  | JObject "(string \<times> json) list"

text \<open>
  \<open>JInt\<close> holds the integral numbers, \<open>JReal\<close> every other number by its literal. An
  object is kept in the order of its keys, as jsoncpp keeps it: \<open>jobject\<close> is what a sequence
  of assignments \<open>j["k"] = v\<close> to distinct keys builds.
\<close>

definition jobject :: "(string \<times> json) list \<Rightarrow> json" where
  "jobject kvs = JObject (sort_key fst kvs)"

datatype json_exn = Json_exception

text \<open>
  \<open>json_parse\<close> is \<open>Json::Reader::parse\<close>, \<open>json_write\<close> is
  \<open>Json::FastWriter::write\<close>, \<open>json_elements j\<close> are the values read by the loop
  \<open>for (i = 0; i < j.size(); ++i) j[i]\<close>, and \<open>json_member j k\<close> is \<open>j[k]\<close>.
\<close>

record jsoncpp =
  json_parse :: "string \<Rightarrow> json option"
  json_write :: "json \<Rightarrow> string"
  json_isMember :: "json \<Rightarrow> string \<Rightarrow> json_exn + bool"
  json_member :: "json \<Rightarrow> string \<Rightarrow> json_exn + json"
  json_elements :: "json \<Rightarrow> json_exn + json list"
  json_asString :: "json \<Rightarrow> json_exn + string"
  json_asInt64 :: "json \<Rightarrow> json_exn + int"
  json_asInt :: "json \<Rightarrow> json_exn + int"
  json_index :: "json \<Rightarrow> nat \<Rightarrow> json_exn + json"
  json_isInt64 :: "json \<Rightarrow> bool"
  json_asUInt :: "json \<Rightarrow> json_exn + int"
  json_asBool :: "json \<Rightarrow> json_exn + bool"
  json_isArray :: "json \<Rightarrow> bool"
  json_isObject :: "json \<Rightarrow> bool"
  json_memberNames :: "json \<Rightarrow> json_exn + string list"

definition int64_range :: "int \<Rightarrow> bool" where
  "int64_range i \<longleftrightarrow> - (2 ^ 63) \<le> i \<and> i < 2 ^ 63"

definition int32_range :: "int \<Rightarrow> bool" where
  "int32_range i \<longleftrightarrow> - (2 ^ 31) \<le> i \<and> i < 2 ^ 31"

definition jsoncpp_ok :: "jsoncpp \<Rightarrow> bool" where
  "jsoncpp_ok J \<longleftrightarrow>
     (\<forall>kvs k. json_isMember J (JObject kvs) k = Inr (map_of kvs k \<noteq> None)) \<and>
     (\<forall>kvs k v. map_of kvs k = Some v \<longrightarrow> json_member J (JObject kvs) k = Inr v) \<and>
     (\<forall>xs. json_elements J (JArray xs) = Inr xs) \<and>
     (\<forall>s. json_asString J (JString s) = Inr s) \<and>
     (\<forall>i. int64_range i \<longrightarrow> json_asInt64 J (JInt i) = Inr i) \<and>
     (\<forall>i. int32_range i \<longrightarrow> json_asInt J (JInt i) = Inr i) \<and>
     (\<forall>xs i. i < length xs \<longrightarrow> json_index J (JArray xs) i = Inr (xs ! i)) \<and>
     (\<forall>i. json_isInt64 J (JInt i) \<longleftrightarrow> int64_range i) \<and>
     (\<forall>i. 0 \<le> i \<longrightarrow> i < 2 ^ 32 \<longrightarrow> json_asUInt J (JInt i) = Inr i) \<and>
     (\<forall>b. json_asBool J (JBool b) = Inr b) \<and>
     (\<forall>xs. json_isArray J (JArray xs)) \<and>
     (\<forall>kvs. json_isObject J (JObject kvs) \<and> \<not> json_isArray J (JObject kvs)) \<and>
     (\<forall>kvs. json_memberNames J (JObject kvs) = Inr (map fst kvs))"

text \<open>
  Writing and parsing are inverse on documents of ASCII text whose numbers are 64 bit integers.
\<close>

definition ascii :: "string \<Rightarrow> bool" where
  "ascii s \<longleftrightarrow> (\<forall>c \<in> set s. (of_char c :: nat) < 128)"

fun json_wf :: "json \<Rightarrow> bool" where
  "json_wf (JString s) \<longleftrightarrow> ascii s"
| "json_wf (JInt i) \<longleftrightarrow> int64_range i"
| "json_wf (JReal s) \<longleftrightarrow> False"
| "json_wf (JArray js) \<longleftrightarrow> (\<forall>j \<in> set js. json_wf j)"
| "json_wf (JObject kvs) \<longleftrightarrow> sorted (map fst kvs) \<and> distinct (map fst kvs) \<and>
     (\<forall>kv \<in> set kvs. ascii (fst kv) \<and> json_wf (snd kv))"
| "json_wf j \<longleftrightarrow> True"

definition json_text_ok :: "jsoncpp \<Rightarrow> bool" where
  "json_text_ok J \<longleftrightarrow> (\<forall>j. json_wf j \<longrightarrow> json_parse J (json_write J j) = Some j)"

lemma jobject_wf:
  "json_wf (jobject kvs) \<longleftrightarrow> distinct (map fst kvs) \<and> (\<forall>kv \<in> set kvs. ascii (fst kv) \<and> json_wf (snd kv))"
proof -
  have "distinct (map fst (sort_key fst kvs)) \<longleftrightarrow> distinct (map fst kvs)"
    by (metis mset_map mset_eq_imp_distinct_iff mset_sort)
  then show ?thesis by (simp add: jobject_def)
qed

lemma map_of_sort_key: "distinct (map fst kvs) \<Longrightarrow> map_of (sort_key fst kvs) = map_of kvs"
proof (rule map_of_eqI)
  assume d: "distinct (map fst kvs)"
  then have d': "distinct (map fst (sort_key fst kvs))"
    by (metis mset_map mset_eq_imp_distinct_iff mset_sort)
  show "set (map fst (sort_key fst kvs)) = set (map fst kvs)" by simp
  show "\<forall>k\<in>set (map fst (sort_key fst kvs)). map_of (sort_key fst kvs) k = map_of kvs k"
    using d d' by (metis map_of_eq_Some_iff not_None_eq set_sort map_of_eq_None_iff)
qed

lemma json_text_okD: "json_text_ok J \<Longrightarrow> json_wf j \<Longrightarrow> json_parse J (json_write J j) = Some j"
  by (simp add: json_text_ok_def)

lemma jobject_access [simp]:
  assumes "jsoncpp_ok J" and "distinct (map fst kvs)"
  shows "json_isMember J (jobject kvs) k = Inr (map_of kvs k \<noteq> None)"
    and "map_of kvs k = Some v \<Longrightarrow> json_member J (jobject kvs) k = Inr v"
  using assms by (simp_all add: jsoncpp_ok_def jobject_def map_of_sort_key)

lemma jsoncpp_okD [simp]:
  assumes "jsoncpp_ok J"
  shows "json_isMember J (JObject kvs) k = Inr (map_of kvs k \<noteq> None)"
    and "map_of kvs k = Some v \<Longrightarrow> json_member J (JObject kvs) k = Inr v"
    and "json_elements J (JArray xs) = Inr xs"
    and "json_asString J (JString s) = Inr s"
    and "int64_range i \<Longrightarrow> json_asInt64 J (JInt i) = Inr i"
    and "int32_range i \<Longrightarrow> json_asInt J (JInt i) = Inr i"
    and "i' < length xs \<Longrightarrow> json_index J (JArray xs) i' = Inr (xs ! i')"
    and "json_isInt64 J (JInt i) \<longleftrightarrow> int64_range i"
    and "0 \<le> i \<Longrightarrow> i < 2 ^ 32 \<Longrightarrow> json_asUInt J (JInt i) = Inr i"
    and "json_asBool J (JBool b) = Inr b"
    and "json_isArray J (JArray xs)"
    and "json_isObject J (JObject kvs)"
    and "\<not> json_isArray J (JObject kvs)"
    and "json_memberNames J (JObject kvs) = Inr (map fst kvs)"
  using assms by (simp_all add: jsoncpp_ok_def)

section \<open>An instance of the library\<close>

instance json :: countable
  by countable_datatype

text \<open>
  An injective writer and its inverse, and accessors that fail outside their documented domain:
  the instance under which the hypotheses hold.
\<close>

definition jsoncpp0 :: jsoncpp where
  "jsoncpp0 = \<lparr>
     json_parse = (\<lambda>s. if s = [] then None else Some (from_nat (length s - 1))),
     json_write = (\<lambda>j. replicate (Suc (to_nat j)) (CHR ''x'')),
     json_isMember = (\<lambda>j k. case j of JObject kvs \<Rightarrow> Inr (map_of kvs k \<noteq> None) | JNull \<Rightarrow> Inr False
                                     | _ \<Rightarrow> Inl Json_exception),
     json_member = (\<lambda>j k. case j of
         JObject kvs \<Rightarrow> Inr (case map_of kvs k of None \<Rightarrow> JNull | Some v \<Rightarrow> v)
       | JNull \<Rightarrow> Inr JNull | _ \<Rightarrow> Inl Json_exception),
     json_elements = (\<lambda>j. case j of JArray xs \<Rightarrow> Inr xs | JNull \<Rightarrow> Inr [] | _ \<Rightarrow> Inl Json_exception),
     json_asString = (\<lambda>j. case j of JString s \<Rightarrow> Inr s | JNull \<Rightarrow> Inr [] | _ \<Rightarrow> Inl Json_exception),
     json_asInt64 = (\<lambda>j. case j of JInt i \<Rightarrow> if int64_range i then Inr i else Inl Json_exception
                                   | JNull \<Rightarrow> Inr 0 | _ \<Rightarrow> Inl Json_exception),
     json_asInt = (\<lambda>j. case j of JInt i \<Rightarrow> if int32_range i then Inr i else Inl Json_exception
                                 | JNull \<Rightarrow> Inr 0 | _ \<Rightarrow> Inl Json_exception),
     json_index = (\<lambda>j i. case j of JArray xs \<Rightarrow> Inr (if i < length xs then xs ! i else JNull)
                                  | JNull \<Rightarrow> Inr JNull | _ \<Rightarrow> Inl Json_exception),
     json_isInt64 = (\<lambda>j. case j of JInt i \<Rightarrow> int64_range i | _ \<Rightarrow> False),
     json_asUInt = (\<lambda>j. case j of JInt i \<Rightarrow> if 0 \<le> i \<and> i < 2 ^ 32 then Inr i else Inl Json_exception
                                 | JNull \<Rightarrow> Inr 0 | _ \<Rightarrow> Inl Json_exception),
     json_asBool = (\<lambda>j. case j of JBool b \<Rightarrow> Inr b | JNull \<Rightarrow> Inr False | JInt i \<Rightarrow> Inr (i \<noteq> 0)
                                 | _ \<Rightarrow> Inl Json_exception),
     json_isArray = (\<lambda>j. case j of JArray xs \<Rightarrow> True | _ \<Rightarrow> False),
     json_isObject = (\<lambda>j. case j of JObject kvs \<Rightarrow> True | _ \<Rightarrow> False),
     json_memberNames = (\<lambda>j. case j of JObject kvs \<Rightarrow> Inr (map fst kvs) | JNull \<Rightarrow> Inr []
                                      | _ \<Rightarrow> Inl Json_exception)\<rparr>"

lemma jsoncpp0_ok [simp]: "jsoncpp_ok jsoncpp0"
  by (simp add: jsoncpp_ok_def jsoncpp0_def)

lemma jsoncpp0_text_ok [simp]: "json_text_ok jsoncpp0"
  by (simp add: json_text_ok_def jsoncpp0_def)

lemma jsoncpp0_write_parse [simp]: "json_parse jsoncpp0 (json_write jsoncpp0 j) = Some j"
  by (simp add: jsoncpp0_def)

end
