(* ===== verification/Amop.thy ===== *)
theory Amop
  imports AmopRequest Json
begin

text \<open>
  The AMOP client: the topic manager (\<open>amop/TopicManager.h\<close>,
  \<open>amop/TopicManager.cpp\<close>), the client itself (\<open>amop/AMOP.h\<close>,
  \<open>amop/AMOP.cpp\<close>) and the handlers that \<open>SdkFactory::buildAMOP\<close> registers with the
  websocket service. Sending is an effect of an operation: each operation returns the list of
  its calls into the service and into user callbacks, in order.
\<close>

section \<open>The topic manager\<close>

record topic_manager =
  m_topics :: "string list"

definition addTopic :: "string \<Rightarrow> topic_manager \<Rightarrow> topic_manager \<times> bool" where
  "addTopic topic tm =
     (let (ts, inserted) = set_insert topic (m_topics tm) in (tm\<lparr>m_topics := ts\<rparr>, inserted))"

definition addTopics :: "string list \<Rightarrow> topic_manager \<Rightarrow> topic_manager \<times> bool" where
  "addTopics topics tm =
     (let oldSize = length (m_topics tm);
          ts = insert_all topics (m_topics tm)
      in (tm\<lparr>m_topics := ts\<rparr>, length ts > oldSize))"

definition removeTopic :: "string \<Rightarrow> topic_manager \<Rightarrow> topic_manager \<times> bool" where
  "removeTopic topic tm =
     (let (ts, result) = set_erase topic (m_topics tm) in (tm\<lparr>m_topics := ts\<rparr>, result > 0))"

fun removeTopics_loop :: "string list \<Rightarrow> topic_manager \<Rightarrow> nat \<Rightarrow> topic_manager \<times> nat" where
  "removeTopics_loop [] tm removeCount = (tm, removeCount)"
| "removeTopics_loop (topic # topics) tm removeCount =
     (let (tm, r) = removeTopic topic tm in
      removeTopics_loop topics tm (removeCount + (if r then 1 else 0)))"

definition removeTopics :: "string list \<Rightarrow> topic_manager \<Rightarrow> topic_manager \<times> bool" where
  "removeTopics topics tm =
     (let (tm, removeCount) = removeTopics_loop topics tm 0 in (tm, removeCount > 0))"

definition topics :: "topic_manager \<Rightarrow> string list" where
  "topics tm = m_topics tm"

definition topics_json :: "string list \<Rightarrow> json" where
  "topics_json ts = jobject [(''topics'', JArray (map JString ts))]"

definition toJson :: "jsoncpp \<Rightarrow> topic_manager \<Rightarrow> string" where
  "toJson J tm = json_write J (topics_json (topics tm))"

section \<open>The client\<close>

text \<open>
  \<open>SubCallback\<close> is a nullable \<open>std::function\<close>, an option over the type \<open>'cb\<close> of
  callbacks. The message factory numbers its messages: \<open>new_seq n\<close> is the sequence string
  it returns on its \<open>n\<close>-th call, and the counter is the component \<open>m_seq\<close> of the state.
\<close>

record 'cb amop =
  m_callback :: "'cb option"
  m_topicManager :: topic_manager
  m_topic2Callback :: "string \<Rightarrow> 'cb option option"
  m_seq :: nat

definition AMOP_SUBTOPIC :: nat where "AMOP_SUBTOPIC = 0x110"
definition AMOP_REQUEST :: nat where "AMOP_REQUEST = 0x111"
definition AMOP_BROADCAST :: nat where "AMOP_BROADCAST = 0x112"
definition AMOP_RESPONSE :: nat where "AMOP_RESPONSE = 0x113"

text \<open>Calls into the service and into user code; sessions are named by their end points.\<close>

datatype 'cb amop_effect =
    Service_start
  | Session_asyncSendMessage string ws_message
  | Service_asyncSendMessageByEndPoint string ws_message
  | Service_asyncSendMessage ws_message u32
  | Service_broadcastMessage ws_message
  | Call_SubCallback 'cb string string bytes

type_synonym 'cb amop_op = "'cb amop \<Rightarrow> 'cb amop \<times> 'cb amop_effect list"

definition amop_init :: "'cb amop" where
  "amop_init = \<lparr>m_callback = None, m_topicManager = \<lparr>m_topics = []\<rparr>,
     m_topic2Callback = Map.empty, m_seq = 0\<rparr>"

definition newSeq :: "(nat \<Rightarrow> string) \<Rightarrow> 'cb amop \<Rightarrow> 'cb amop \<times> string" where
  "newSeq new_seq a = (a\<lparr>m_seq := Suc (m_seq a)\<rparr>, new_seq (m_seq a))"

definition amop_start :: "bool \<Rightarrow> 'cb amop_op" where
  "amop_start service a = (a, if service then [Service_start] else [])"

definition updateTopicsToRemote_session ::
    "jsoncpp \<Rightarrow> (nat \<Rightarrow> string) \<Rightarrow> string \<Rightarrow> 'cb amop_op" where
  "updateTopicsToRemote_session J new_seq session a =
     (let request = toJson J (m_topicManager a);
          (a, s) = newSeq new_seq a;
          msg = \<lparr>seq = s, packetType = AMOP_SUBTOPIC, payload = bytes_of_string request\<rparr>
      in (a, [Session_asyncSendMessage session msg]))"

fun updateTopicsToRemote :: "jsoncpp \<Rightarrow> (nat \<Rightarrow> string) \<Rightarrow> string list \<Rightarrow> 'cb amop_op" where
  "updateTopicsToRemote J new_seq [] a = (a, [])"
| "updateTopicsToRemote J new_seq (session # ss) a =
     (let (a, out) = updateTopicsToRemote_session J new_seq session a;
          (a, outs) = updateTopicsToRemote J new_seq ss a
      in (a, out @ outs))"

definition addTopicCallback :: "string \<Rightarrow> 'cb option \<Rightarrow> 'cb amop \<Rightarrow> 'cb amop" where
  "addTopicCallback topic callback a = a\<lparr>m_topic2Callback := (m_topic2Callback a)(topic \<mapsto> callback)\<rparr>"

definition getCallbackByTopic :: "string \<Rightarrow> 'cb amop \<Rightarrow> 'cb option" where
  "getCallbackByTopic topic a =
     (case m_topic2Callback a topic of None \<Rightarrow> None | Some callback \<Rightarrow> callback)"

definition setSubCallback :: "'cb option \<Rightarrow> 'cb amop \<Rightarrow> 'cb amop" where
  "setSubCallback callback a = a\<lparr>m_callback := callback\<rparr>"

text \<open>The argument \<open>ss\<close> of the next operations is what \<open>m_service->sessions()\<close> returns.\<close>

definition subscribe :: "jsoncpp \<Rightarrow> (nat \<Rightarrow> string) \<Rightarrow> string list \<Rightarrow> string list \<Rightarrow> 'cb amop_op" where
  "subscribe J new_seq ss ts a =
     (let (tm, result) = addTopics ts (m_topicManager a);
          a = a\<lparr>m_topicManager := tm\<rparr>
      in if result then updateTopicsToRemote J new_seq ss a else (a, []))"

definition unsubscribe :: "jsoncpp \<Rightarrow> (nat \<Rightarrow> string) \<Rightarrow> string list \<Rightarrow> string list \<Rightarrow> 'cb amop_op" where
  "unsubscribe J new_seq ss ts a =
     (let (tm, result) = removeTopics ts (m_topicManager a);
          a = a\<lparr>m_topicManager := tm\<rparr>
      in if result then updateTopicsToRemote J new_seq ss a else (a, []))"

definition querySubTopics :: "'cb amop \<Rightarrow> string list" where
  "querySubTopics a = topics (m_topicManager a)"

definition subscribe_callback ::
    "jsoncpp \<Rightarrow> (nat \<Rightarrow> string) \<Rightarrow> string list \<Rightarrow> string \<Rightarrow> 'cb option \<Rightarrow> 'cb amop_op" where
  "subscribe_callback J new_seq ss topic callback a =
     (let (tm, r) = addTopic topic (m_topicManager a);
          a = a\<lparr>m_topicManager := tm\<rparr>;
          a = addTopicCallback topic callback a
      in if r then updateTopicsToRemote J new_seq ss a else (a, []))"

definition sendResponse :: "string \<Rightarrow> string \<Rightarrow> bytes \<Rightarrow> 'cb amop_op" where
  "sendResponse endPoint s bs a =
     (a, [Service_asyncSendMessageByEndPoint endPoint
            \<lparr>seq = s, packetType = AMOP_RESPONSE, payload = bs\<rparr>])"

text \<open>
  \<open>publish\<close> and \<open>broadcast\<close> do not look at the result of \<open>encode\<close>. The encoding
  of the outer message into a local buffer is discarded by the code and has no effect.
\<close>

definition request_message :: "net_ext \<Rightarrow> (nat \<Rightarrow> string) \<Rightarrow> nat \<Rightarrow> string \<Rightarrow> bytes \<Rightarrow> 'cb amop \<Rightarrow>
    'cb amop \<times> ws_message" where
  "request_message N new_seq type topic bs a =
     (let request = buildRequest\<lparr>m_topic := topic, m_data := bs\<rparr>;
          (_, buffer) = request_encode N request [];
          (a, s) = newSeq new_seq a
      in (a, \<lparr>seq = s, packetType = type, payload = buffer\<rparr>))"

definition publish :: "net_ext \<Rightarrow> (nat \<Rightarrow> string) \<Rightarrow> string \<Rightarrow> bytes \<Rightarrow> u32 \<Rightarrow> 'cb amop_op" where
  "publish N new_seq topic bs timeout a =
     (let (a, sendMsg) = request_message N new_seq AMOP_REQUEST topic bs a
      in (a, [Service_asyncSendMessage sendMsg timeout]))"

definition broadcast :: "net_ext \<Rightarrow> (nat \<Rightarrow> string) \<Rightarrow> string \<Rightarrow> bytes \<Rightarrow> 'cb amop_op" where
  "broadcast N new_seq topic bs a =
     (let (a, sendMsg) = request_message N new_seq AMOP_BROADCAST topic bs a
      in (a, [Service_broadcastMessage sendMsg]))"

text \<open>
  The handler that \<open>publish\<close> gives the service: what it passes on to the user's
  \<open>PubCallback\<close>. An answer is its status and payload; an error is its code and message.
\<close>

definition publish_respond ::
    "(int \<times> string) option \<Rightarrow> (int \<times> bytes) option \<Rightarrow> (int \<times> string) option \<times> (int \<times> bytes) option" where
  "publish_respond error wsMessage =
     (case (error, wsMessage) of
        (None, Some (status, body)) \<Rightarrow>
          if status \<noteq> 0 then (Some (status, string_of_bytes body), wsMessage) else (error, wsMessage)
      | _ \<Rightarrow> (error, wsMessage))"

text \<open>
  The two receiving handlers; \<open>Inl\<close> is an exception that leaves the handler. They differ
  in what they log.
\<close>

definition onRecvAMOPRequest ::
    "net_ext \<Rightarrow> ws_message \<Rightarrow> string \<Rightarrow> 'cb amop \<Rightarrow> amop_exn + 'cb amop_effect list" where
  "onRecvAMOPRequest N msg session a =
     (let (ret, request) = request_decode N (payload msg) buildRequest in
      bindE ret (\<lambda>ret.
        if ret < 0 then Inr []
        else
          let callback = getCallbackByTopic (m_topic request) a;
              callback = (if callback = None \<and> m_callback a \<noteq> None then m_callback a else callback)
          in case callback of
               Some cb \<Rightarrow> Inr [Call_SubCallback cb session (seq msg) (m_data request)]
             | None \<Rightarrow> Inr []))"

definition onRecvAMOPResponse ::
    "ws_message \<Rightarrow> string \<Rightarrow> 'cb amop \<Rightarrow> amop_exn + 'cb amop_effect list" where
  "onRecvAMOPResponse msg session a = Inr []"

definition onRecvAMOPBroadcast ::
    "net_ext \<Rightarrow> ws_message \<Rightarrow> string \<Rightarrow> 'cb amop \<Rightarrow> amop_exn + 'cb amop_effect list" where
  "onRecvAMOPBroadcast N msg session a =
     (let (ret, request) = request_decode N (payload msg) buildRequest in
      bindE ret (\<lambda>ret.
        if ret < 0 then Inr []
        else
          let callback = getCallbackByTopic (m_topic request) a;
              callback = (if callback = None \<and> m_callback a \<noteq> None then m_callback a else callback)
          in case callback of
               Some cb \<Rightarrow> Inr [Call_SubCallback cb session (seq msg) (m_data request)]
             | None \<Rightarrow> Inr []))"

text \<open>The message handlers registered by \<open>SdkFactory::buildAMOP\<close>.\<close>

definition amop_msgHandler ::
    "net_ext \<Rightarrow> ws_message \<Rightarrow> string \<Rightarrow> 'cb amop \<Rightarrow> (amop_exn + 'cb amop_effect list) option" where
  "amop_msgHandler N msg session a =
     (if packetType msg = AMOP_REQUEST then Some (onRecvAMOPRequest N msg session a)
      else if packetType msg = AMOP_RESPONSE then Some (onRecvAMOPResponse msg session a)
      else if packetType msg = AMOP_BROADCAST then Some (onRecvAMOPBroadcast N msg session a)
      else None)"

end
