(* ===== verification/AmopProps.thy ===== *)
theory AmopProps
  imports Amop
begin

text \<open>
  Properties of the AMOP client. The topic manager satisfies the interface
  \<open>topic_store\<close>, which is all the client needs to know of it; the client keeps every
  connected node informed of the topics; incoming messages reach the callback they are
  addressed to.
\<close>

section \<open>The topic store interface\<close>

text \<open>
  What the client relies on: the operations act as union and difference on the set of topics,
  report a change exactly when there is one, and the rendered document depends on the set only.
\<close>

locale topic_store =
  fixes view :: "'s \<Rightarrow> string set"
    and inv :: "'s \<Rightarrow> bool"
    and add1 :: "string \<Rightarrow> 's \<Rightarrow> 's \<times> bool"
    and add :: "string list \<Rightarrow> 's \<Rightarrow> 's \<times> bool"
    and remove :: "string list \<Rightarrow> 's \<Rightarrow> 's \<times> bool"
    and render :: "'s \<Rightarrow> string"
  assumes add1_law: "inv s \<Longrightarrow> inv (fst (add1 t s)) \<and> view (fst (add1 t s)) = insert t (view s) \<and>
      (snd (add1 t s) \<longleftrightarrow> t \<notin> view s)"
    and add_law: "inv s \<Longrightarrow> inv (fst (add ts s)) \<and> view (fst (add ts s)) = view s \<union> set ts \<and>
      (snd (add ts s) \<longleftrightarrow> \<not> set ts \<subseteq> view s)"
    and remove_law: "inv s \<Longrightarrow> inv (fst (remove ts s)) \<and> view (fst (remove ts s)) = view s - set ts \<and>
      (snd (remove ts s) \<longleftrightarrow> set ts \<inter> view s \<noteq> {})"
    and render_law: "inv s \<Longrightarrow> inv s' \<Longrightarrow> view s = view s' \<Longrightarrow> render s = render s'"
begin

lemma add1_unchanged: "inv s \<Longrightarrow> \<not> snd (add1 t s) \<Longrightarrow> render (fst (add1 t s)) = render s"
  using add1_law [of s t] by (intro render_law) auto

lemma add_unchanged: "inv s \<Longrightarrow> \<not> snd (add ts s) \<Longrightarrow> render (fst (add ts s)) = render s"
  using add_law [of s ts] by (intro render_law) auto

lemma remove_unchanged: "inv s \<Longrightarrow> \<not> snd (remove ts s) \<Longrightarrow> render (fst (remove ts s)) = render s"
  using remove_law [of s ts] by (intro render_law) auto

lemma add_remove: "inv s \<Longrightarrow> set ts \<inter> view s = {} \<Longrightarrow> render (fst (remove ts (fst (add ts s)))) = render s"
  using add_law [of s ts] remove_law [of "fst (add ts s)" ts] by (intro render_law) auto

end

section \<open>The topic manager is a topic store\<close>

definition topics_inv :: "topic_manager \<Rightarrow> bool" where
  "topics_inv tm \<longleftrightarrow> std_set (m_topics tm)"

lemma addTopic_inv:
  "topics_inv tm \<Longrightarrow> topics_inv (fst (addTopic t tm)) \<and>
     set (m_topics (fst (addTopic t tm))) = insert t (set (m_topics tm)) \<and>
     (snd (addTopic t tm) \<longleftrightarrow> t \<notin> set (m_topics tm))"
  using set_insert_std [of "m_topics tm" t]
  by (auto simp: topics_inv_def addTopic_def set_insert_def split: prod.splits if_splits)

lemma addTopics_inv:
  assumes "topics_inv tm"
  shows "topics_inv (fst (addTopics ts tm)) \<and>
     set (m_topics (fst (addTopics ts tm))) = set (m_topics tm) \<union> set ts \<and>
     (snd (addTopics ts tm) \<longleftrightarrow> \<not> set ts \<subseteq> set (m_topics tm))"
proof -
  let ?xs = "m_topics tm" and ?ys = "insert_all ts (m_topics tm)"
  have x: "std_set ?xs" using assms by (simp add: topics_inv_def)
  note y = insert_all_std [OF x, of ts]
  have "length ?xs < length ?ys \<longleftrightarrow> set ?xs \<subset> set ?ys"
    using y std_set_length [OF x] std_set_length [of ?ys]
    by (metis List.finite_set Un_upper1 less_irrefl psubsetI psubset_card_mono)
  then show ?thesis using y by (auto simp: topics_inv_def addTopics_def Let_def)
qed

lemma removeTopic_inv:
  "topics_inv tm \<Longrightarrow> topics_inv (fst (removeTopic t tm)) \<and>
     set (m_topics (fst (removeTopic t tm))) = set (m_topics tm) - {t} \<and>
     (snd (removeTopic t tm) \<longleftrightarrow> t \<in> set (m_topics tm))"
  using set_erase_std [of "m_topics tm" t]
  by (simp add: topics_inv_def removeTopic_def case_prod_unfold)

lemma removeTopics_loop_inv:
  "topics_inv tm \<Longrightarrow> topics_inv (fst (removeTopics_loop ts tm n)) \<and>
     set (m_topics (fst (removeTopics_loop ts tm n))) = set (m_topics tm) - set ts \<and>
     (n < snd (removeTopics_loop ts tm n) \<longleftrightarrow> set ts \<inter> set (m_topics tm) \<noteq> {}) \<and>
     n \<le> snd (removeTopics_loop ts tm n)"
proof (induction ts arbitrary: tm n)
  case (Cons t ts)
  obtain tm' r where q: "removeTopic t tm = (tm', r)" by (cases "removeTopic t tm")
  have i: "topics_inv tm'" and v: "set (m_topics tm') = set (m_topics tm) - {t}"
    and r: "r \<longleftrightarrow> t \<in> set (m_topics tm)"
    using removeTopic_inv [OF Cons.prems, of t] q by simp_all
  have l: "removeTopics_loop (t # ts) tm n = removeTopics_loop ts tm' (n + (if r then 1 else 0))"
    by (simp add: q)
  note ih = Cons.IH [OF i, of "n + (if r then 1 else 0)", unfolded v]
  have "set (m_topics tm) - {t} - set ts = set (m_topics tm) - set (t # ts)" by auto
  moreover have "set (t # ts) \<inter> set (m_topics tm) \<noteq> {} \<longleftrightarrow>
      r \<or> set ts \<inter> (set (m_topics tm) - {t}) \<noteq> {}" using r by auto
  moreover have "n < R \<longleftrightarrow> r \<or> Q" "n \<le> R"
    if "n + (if r then 1 else 0) < R \<longleftrightarrow> Q" "n + (if r then 1 else 0) \<le> R" for R Q
    using that by (auto split: if_splits)
  ultimately show ?case using ih unfolding l by metis
qed simp

lemma removeTopics_inv:
  "topics_inv tm \<Longrightarrow> topics_inv (fst (removeTopics ts tm)) \<and>
     set (m_topics (fst (removeTopics ts tm))) = set (m_topics tm) - set ts \<and>
     (snd (removeTopics ts tm) \<longleftrightarrow> set ts \<inter> set (m_topics tm) \<noteq> {})"
  using removeTopics_loop_inv [of tm ts 0] by (simp add: removeTopics_def case_prod_unfold)

interpretation tm: topic_store "\<lambda>tm. set (m_topics tm)" topics_inv addTopic addTopics removeTopics "toJson J" for J
proof unfold_locales
  fix s s' :: topic_manager
  assume "topics_inv s" "topics_inv s'" "set (m_topics s) = set (m_topics s')"
  then have "m_topics s = m_topics s'"
    by (simp add: topics_inv_def std_set_unique)
  then show "toJson J s = toJson J s'" by (simp add: toJson_def topics_def)
qed (rule addTopic_inv addTopics_inv removeTopics_inv; assumption)+

section \<open>The client as a transition system\<close>

text \<open>
  A world is the client, the end points of its connected sessions and the log of the effects so
  far. Sessions appear by a successful handshake, which runs the registered handler, and
  disappear at any time.
\<close>

record 'cb amop_world =
  client :: "'cb amop"
  sessions :: "string list"
  log :: "'cb amop_effect list"

definition run_op :: "'cb amop_op \<Rightarrow> 'cb amop_world \<Rightarrow> 'cb amop_world" where
  "run_op f w = w\<lparr>client := fst (f (client w)), log := log w @ snd (f (client w))\<rparr>"

inductive amop_step :: "jsoncpp \<Rightarrow> net_ext \<Rightarrow> (nat \<Rightarrow> string) \<Rightarrow> 'cb amop_world \<Rightarrow> 'cb amop_world \<Rightarrow> bool"
  for J N new_seq where
  Step_subscribe: "amop_step J N new_seq w (run_op (subscribe J new_seq (sessions w) ts) w)"
| Step_unsubscribe: "amop_step J N new_seq w (run_op (unsubscribe J new_seq (sessions w) ts) w)"
| Step_subscribe_callback:
    "amop_step J N new_seq w (run_op (subscribe_callback J new_seq (sessions w) t cb) w)"
| Step_setSubCallback: "amop_step J N new_seq w (run_op (\<lambda>a. (setSubCallback cb a, [])) w)"
| Step_publish: "amop_step J N new_seq w (run_op (publish N new_seq t bs timeout) w)"
| Step_broadcast: "amop_step J N new_seq w (run_op (broadcast N new_seq t bs) w)"
| Step_sendResponse: "amop_step J N new_seq w (run_op (sendResponse ep s bs) w)"
| Step_receive: "amop_msgHandler N msg ep (client w) = Some (Inr out) \<Longrightarrow>
    amop_step J N new_seq w (w\<lparr>log := log w @ out\<rparr>)"
| Step_handshake: "amop_step J N new_seq w
    (run_op (updateTopicsToRemote_session J new_seq ep) (w\<lparr>sessions := sessions w @ [ep]\<rparr>))"
| Step_disconnect: "amop_step J N new_seq w (w\<lparr>sessions := removeAll ep (sessions w)\<rparr>)"

definition amop_world_init :: "'cb amop_world" where
  "amop_world_init = \<lparr>client = amop_init, sessions = [], log = []\<rparr>"

definition amop_reachable :: "jsoncpp \<Rightarrow> net_ext \<Rightarrow> (nat \<Rightarrow> string) \<Rightarrow> 'cb amop_world \<Rightarrow> bool" where
  "amop_reachable J N new_seq w \<longleftrightarrow> (amop_step J N new_seq)\<^sup>*\<^sup>* amop_world_init w"

text \<open>The topics a node knows of: the payload of the last subscription message sent to it.\<close>

definition subtopic_payload :: "string \<Rightarrow> 'cb amop_effect \<Rightarrow> bytes option" where
  "subtopic_payload ep e =
     (case e of Session_asyncSendMessage ep' msg \<Rightarrow>
        if ep' = ep \<and> packetType msg = AMOP_SUBTOPIC then Some (payload msg) else None
      | _ \<Rightarrow> None)"

definition remote_topics :: "string \<Rightarrow> 'cb amop_effect list \<Rightarrow> bytes option" where
  "remote_topics ep es =
     (let ps = List.map_filter (subtopic_payload ep) es in if ps = [] then None else Some (last ps))"

definition nodes_informed :: "jsoncpp \<Rightarrow> 'cb amop_world \<Rightarrow> bool" where
  "nodes_informed J w \<longleftrightarrow> topics_inv (m_topicManager (client w)) \<and>
     (\<forall>ep \<in> set (sessions w).
        remote_topics ep (log w) = Some (bytes_of_string (toJson J (m_topicManager (client w)))))"

lemma map_filter_append: "List.map_filter f (xs @ ys) = List.map_filter f xs @ List.map_filter f ys"
  by (simp add: List.map_filter_def)

lemma remote_topics_quiet:
  "\<forall>e \<in> set out. subtopic_payload ep e = None \<Longrightarrow> remote_topics ep (es @ out) = remote_topics ep es"
proof -
  assume "\<forall>e \<in> set out. subtopic_payload ep e = None"
  then have "List.map_filter (subtopic_payload ep) out = []" by (induction out) (simp_all add: List.map_filter_def)
  then show ?thesis by (simp add: remote_topics_def map_filter_append Let_def)
qed

lemma remote_topics_append:
  "remote_topics ep out = Some p \<Longrightarrow> remote_topics ep (es @ out) = Some p"
  by (auto simp: remote_topics_def Let_def map_filter_append split: if_splits)

lemma update_session_simps [simp]:
  "fst (updateTopicsToRemote_session J new_seq ep a) = a\<lparr>m_seq := Suc (m_seq a)\<rparr>"
  "snd (updateTopicsToRemote_session J new_seq ep a) =
     [Session_asyncSendMessage ep \<lparr>seq = new_seq (m_seq a), packetType = AMOP_SUBTOPIC,
        payload = bytes_of_string (toJson J (m_topicManager a))\<rparr>]"
  by (simp_all add: updateTopicsToRemote_session_def newSeq_def Let_def)

lemma update_keeps:
  "m_topicManager (fst (updateTopicsToRemote J new_seq ss a)) = m_topicManager a \<and>
   m_callback (fst (updateTopicsToRemote J new_seq ss a)) = m_callback a \<and>
   m_topic2Callback (fst (updateTopicsToRemote J new_seq ss a)) = m_topic2Callback a"
proof (induction ss arbitrary: a)
  case (Cons s ss)
  then show ?case by (simp add: case_prod_unfold Let_def)
qed simp

lemma remote_topics_Cons_session:
  "remote_topics ep (Session_asyncSendMessage s msg # out) =
     (case remote_topics ep out of Some p \<Rightarrow> Some p
      | None \<Rightarrow> if s = ep \<and> packetType msg = AMOP_SUBTOPIC then Some (payload msg) else None)"
  by (auto simp: remote_topics_def Let_def subtopic_payload_def List.map_filter_def split: if_splits)

lemma update_informs:
  "remote_topics ep (snd (updateTopicsToRemote J new_seq ss a)) =
     (if ep \<in> set ss then Some (bytes_of_string (toJson J (m_topicManager a))) else None)"
proof (induction ss arbitrary: a)
  case (Cons s ss)
  then show ?case
    by (simp add: case_prod_unfold Let_def remote_topics_Cons_session split: option.splits)
qed (simp add: remote_topics_def Let_def List.map_filter_def)

text \<open>One lemma for the operations that change topics: either all nodes are told, or nothing changed.\<close>

lemma nodes_informed_update:
  assumes "nodes_informed J w" and "topics_inv (m_topicManager a')"
    and "f (client w) = (if r then updateTopicsToRemote J new_seq (sessions w) a' else (a', []))"
    and "\<not> r \<Longrightarrow> toJson J (m_topicManager a') = toJson J (m_topicManager (client w))"
  shows "nodes_informed J (run_op f w)"
proof (cases r)
  case True
  then show ?thesis using assms
    by (simp add: nodes_informed_def run_op_def update_keeps update_informs remote_topics_append)
next
  case False
  then show ?thesis using assms by (simp add: nodes_informed_def run_op_def)
qed

lemma nodes_informed_quiet:
  assumes "nodes_informed J w" and "\<And>ep. \<forall>e \<in> set out. subtopic_payload ep e = None"
    and "m_topicManager a' = m_topicManager (client w)"
  shows "nodes_informed J (w\<lparr>client := a', log := log w @ out\<rparr>)"
  using assms by (simp add: nodes_informed_def remote_topics_quiet)

lemma subscribe_informs: "nodes_informed J w \<Longrightarrow> nodes_informed J (run_op (subscribe J new_seq (sessions w) ts) w)"
proof -
  assume n: "nodes_informed J w"
  let ?tm = "m_topicManager (client w)"
  have i: "topics_inv ?tm" using n by (simp add: nodes_informed_def)
  show ?thesis
    using tm.add_law [OF i, of ts] tm.add_unchanged [OF i, of ts J]
    by (intro nodes_informed_update [OF n, where r = "snd (addTopics ts ?tm)" and new_seq = new_seq
          and a' = "(client w)\<lparr>m_topicManager := fst (addTopics ts ?tm)\<rparr>"])
      (simp_all add: subscribe_def Let_def case_prod_unfold)
qed

lemma unsubscribe_informs: "nodes_informed J w \<Longrightarrow> nodes_informed J (run_op (unsubscribe J new_seq (sessions w) ts) w)"
proof -
  assume n: "nodes_informed J w"
  let ?tm = "m_topicManager (client w)"
  have i: "topics_inv ?tm" using n by (simp add: nodes_informed_def)
  show ?thesis
    using tm.remove_law [OF i, of ts] tm.remove_unchanged [OF i, of ts J]
    by (intro nodes_informed_update [OF n, where r = "snd (removeTopics ts ?tm)" and new_seq = new_seq
          and a' = "(client w)\<lparr>m_topicManager := fst (removeTopics ts ?tm)\<rparr>"])
      (simp_all add: unsubscribe_def Let_def case_prod_unfold)
qed

lemma subscribe_callback_informs:
  "nodes_informed J w \<Longrightarrow> nodes_informed J (run_op (subscribe_callback J new_seq (sessions w) t cb) w)"
proof -
  assume n: "nodes_informed J w"
  let ?tm = "m_topicManager (client w)"
  have i: "topics_inv ?tm" using n by (simp add: nodes_informed_def)
  show ?thesis
    using tm.add1_law [OF i, of t] tm.add1_unchanged [OF i, of t J]
    by (intro nodes_informed_update [OF n, where r = "snd (addTopic t ?tm)" and new_seq = new_seq
          and a' = "addTopicCallback t cb ((client w)\<lparr>m_topicManager := fst (addTopic t ?tm)\<rparr>)"])
      (simp_all add: subscribe_callback_def addTopicCallback_def Let_def case_prod_unfold)
qed

lemma handshake_informs:
  "nodes_informed J w \<Longrightarrow>
     nodes_informed J (run_op (updateTopicsToRemote_session J new_seq ep) (w\<lparr>sessions := sessions w @ [ep]\<rparr>))"
  by (auto simp: nodes_informed_def run_op_def remote_topics_def Let_def map_filter_append subtopic_payload_def
      List.map_filter_def split: if_splits)

lemma receive_quiet:
  assumes "amop_msgHandler N msg ep a = Some (Inr out)"
  shows "\<forall>e \<in> set out. subtopic_payload ep' e = None"
  using assms
  by (auto simp: amop_msgHandler_def onRecvAMOPRequest_def onRecvAMOPBroadcast_def onRecvAMOPResponse_def
      bindE_Inr_iff Let_def subtopic_payload_def split: if_splits prod.splits option.splits)

lemma send_informs:
  assumes "nodes_informed J w"
  shows "nodes_informed J (run_op (publish N new_seq t bs timeout) w)"
    and "nodes_informed J (run_op (broadcast N new_seq t bs) w)"
    and "nodes_informed J (run_op (sendResponse ep s bs) w)"
    and "nodes_informed J (run_op (\<lambda>a. (setSubCallback cb a, [])) w)"
  unfolding run_op_def
  by (rule nodes_informed_quiet [OF assms];
      simp add: publish_def broadcast_def sendResponse_def setSubCallback_def request_message_def newSeq_def
        Let_def case_prod_unfold subtopic_payload_def)+

lemma amop_step_informs: "amop_step J N new_seq w w' \<Longrightarrow> nodes_informed J w \<Longrightarrow> nodes_informed J w'"
proof (induction rule: amop_step.induct)
  case (Step_receive msg ep w out)
  then show ?case
    using nodes_informed_quiet [of J w out "client w", OF _ receive_quiet] by simp
next
  case (Step_disconnect w ep)
  then show ?case by (simp add: nodes_informed_def)
qed (auto intro: subscribe_informs unsubscribe_informs subscribe_callback_informs handshake_informs send_informs)

interpretation amop_inv: invariant_system "amop_step J N new_seq" amop_world_init "nodes_informed J" for J N new_seq
proof
  show "nodes_informed J amop_world_init"
    by (simp add: nodes_informed_def amop_world_init_def amop_init_def topics_inv_def)
qed (rule amop_step_informs)

lemma reachable_informs: "amop_reachable J N new_seq w \<Longrightarrow> nodes_informed J w"
  unfolding amop_reachable_def by (rule amop_inv.inv_reachable)

section \<open>Receiving\<close>

definition selected_callback :: "string \<Rightarrow> 'cb amop \<Rightarrow> 'cb option" where
  "selected_callback t a = (case getCallbackByTopic t a of Some cb \<Rightarrow> Some cb | None \<Rightarrow> m_callback a)"

definition delivered :: "'cb option \<Rightarrow> string \<Rightarrow> string \<Rightarrow> bytes \<Rightarrow> 'cb amop_effect list" where
  "delivered cb ep s bs = (case cb of None \<Rightarrow> [] | Some cb \<Rightarrow> [Call_SubCallback cb ep s bs])"

lemma onRecvAMOPBroadcast_eq: "onRecvAMOPBroadcast N msg ep a = onRecvAMOPRequest N msg ep a"
  by (simp add: onRecvAMOPBroadcast_def onRecvAMOPRequest_def)

lemma receive_image:
  assumes "net_ext_ok N" and "length (m_topic r) \<le> TOPIC_MAX_LENGTH" and "payload msg = request_image r"
  shows "onRecvAMOPRequest N msg ep a = Inr (delivered (selected_callback (m_topic r) a) ep (seq msg) (m_data r))"
  by (simp add: onRecvAMOPRequest_def request_decode_image assms Let_def selected_callback_def delivered_def
      split: option.splits)

lemma receive_empty: "payload msg = [] \<Longrightarrow> onRecvAMOPRequest N msg ep a = Inr []"
  by (simp add: onRecvAMOPRequest_def request_decode_def MESSAGE_MIN_LENGTH_def)

lemma request_message_payload:
  assumes "net_ext_ok N"
  shows "payload (snd (request_message N new_seq type t bs a)) =
    (if length t \<le> TOPIC_MAX_LENGTH then request_image \<lparr>m_topic = t, m_data = bs, m_version = 0\<rparr> else [])"
  by (simp add: request_message_def newSeq_def Let_def case_prod_unfold request_encode_image [OF assms]
      buildRequest_def)

lemma request_message_fields:
  "seq (snd (request_message N new_seq type t bs a)) = new_seq (m_seq a)"
  "packetType (snd (request_message N new_seq type t bs a)) = type"
  by (simp_all add: request_message_def newSeq_def Let_def case_prod_unfold)

lemmas packet_types = AMOP_SUBTOPIC_def AMOP_REQUEST_def AMOP_BROADCAST_def AMOP_RESPONSE_def

lemma handler_request_message:
  assumes "net_ext_ok N" and "type = AMOP_REQUEST \<or> type = AMOP_BROADCAST"
  shows "amop_msgHandler N (snd (request_message N new_seq type t bs a)) ep b =
    Some (Inr (if length t \<le> TOPIC_MAX_LENGTH
               then delivered (selected_callback t b) ep (new_seq (m_seq a)) bs else []))"
proof -
  let ?msg = "snd (request_message N new_seq type t bs a)"
  have "amop_msgHandler N ?msg ep b = Some (onRecvAMOPRequest N ?msg ep b)"
    using assms(2) by (auto simp: amop_msgHandler_def request_message_fields onRecvAMOPBroadcast_eq packet_types)
  then show ?thesis
    using receive_image [OF assms(1), of "\<lparr>m_topic = t, m_data = bs, m_version = 0\<rparr>" ?msg ep b]
      receive_empty [of ?msg N ep b]
    by (simp add: request_message_payload [OF assms(1)] request_message_fields)
qed

section \<open>Properties\<close>

text \<open>An AMOP request whose topic fits its two byte length field is encoded successfully, and
  decoding the bytes returns their number and restores topic, data and version, whatever the
  decoding object held before.\<close>
lemma amop_request_roundtrip:
  assumes "net_ext_ok N" and "length (m_topic r) \<le> TOPIC_MAX_LENGTH"
  shows "fst (request_encode N r []) \<and>
    request_decode N (snd (request_encode N r [])) r0 = (Inr (int (length (snd (request_encode N r [])))), r)"
  using assms by (simp add: request_encode_image request_decode_image)

theorem amop_request_roundtrip_witness:
  "request_decode net_ext0 (snd (request_encode net_ext0 \<lparr>m_topic = ''ab'', m_data = [1, 2], m_version = 7\<rparr> []))
     buildRequest = (Inr 10, \<lparr>m_topic = ''ab'', m_data = [1, 2], m_version = 7\<rparr>)"
  using amop_request_roundtrip [of net_ext0 "\<lparr>m_topic = ''ab'', m_data = [1, 2], m_version = 7\<rparr>" buildRequest]
  by (simp add: TOPIC_MAX_LENGTH_def request_encode_image request_image_def)

text \<open>Claim C31. What decoding does with every byte string: fewer than two bytes are refused with -1 and
  nothing is written; a string too short for the header or for the topic it announces makes the
  function throw, with the version already overwritten once four bytes are there; every other
  string is split at the announced length and its size is returned.\<close>
theorem amop_decode_outcome:
  assumes "net_ext_ok N"
  shows "request_decode N bs r =
    (if length bs < 2 then (Inr (-1), r)
     else if length bs < 4 then (Inl Runtime_error, r)
     else if length bs < 6 \<or> length bs < 6 + be_val (take 2 (drop 4 bs))
       then (Inl Runtime_error, r\<lparr>m_version := word_of_nat (be_val (take 4 bs))\<rparr>)
     else (Inr (int (length bs)),
       \<lparr>m_topic = string_of_bytes (take (be_val (take 2 (drop 4 bs))) (drop 6 bs)),
        m_data = drop (6 + be_val (take 2 (drop 4 bs))) bs, m_version = word_of_nat (be_val (take 4 bs))\<rparr>))"
  using request_decode_cases [OF assms, of bs r] by (simp only: wire_topicLen_def wire_version_def)

theorem amop_decode_outcome_witness:
  "request_decode net_ext0 [0, 0, 0] buildRequest = (Inl Runtime_error, buildRequest)"
  using amop_decode_outcome [OF net_ext0_ok, of "[0, 0, 0]" buildRequest] by simp

text \<open>Claim C6. In every state the client can reach, each connected node was last told, in a subscription
  message, exactly the current set of topics (of ASCII names), as the JSON document with the sorted
  list: the operations that skip the update do so only when the set is unchanged.\<close>
theorem amop_nodes_informed:
  assumes "amop_reachable J N new_seq w" and "json_text_ok J" and "ep \<in> set (sessions w)"
    and "\<forall>t \<in> set (querySubTopics (client w)). ascii t"
  shows "\<exists>text ts. remote_topics ep (log w) = Some (bytes_of_string text) \<and>
    json_parse J text = Some (JObject [(''topics'', JArray (map JString ts))]) \<and>
    ts = sorted_list_of_set (set (querySubTopics (client w)))"
proof -
  have "nodes_informed J w" using assms(1) by (rule reachable_informs)
  then have i: "std_set (querySubTopics (client w))"
    and r: "remote_topics ep (log w) = Some (bytes_of_string (toJson J (m_topicManager (client w))))"
    using assms(3) by (simp_all add: nodes_informed_def topics_inv_def querySubTopics_def topics_def)
  have "sorted_list_of_set (set (querySubTopics (client w))) = querySubTopics (client w)"
    using i by (simp add: std_set_def sorted_list_of_set.idem_if_sorted_distinct)
  moreover have "json_parse J (toJson J (m_topicManager (client w))) = Some (topics_json (querySubTopics (client w)))"
    using assms(2,4) by (simp add: toJson_def topics_json_def querySubTopics_def json_text_okD jobject_wf ascii_def)
  ultimately show ?thesis using r by (auto simp: topics_json_def jobject_def)
qed

theorem amop_nodes_informed_witness:
  "let w0 = run_op (updateTopicsToRemote_session jsoncpp0 (\<lambda>n. [])  ''ep'')
              (amop_world_init\<lparr>sessions := [''ep'']\<rparr>) :: unit amop_world;
       w = run_op (subscribe jsoncpp0 (\<lambda>n. []) (sessions w0) [''b'', ''a'']) w0
   in sessions w = [''ep''] \<and> querySubTopics (client w) = [''a'', ''b''] \<and>
      (\<exists>text. remote_topics ''ep'' (log w) = Some (bytes_of_string text) \<and>
        json_parse jsoncpp0 text = Some (JObject [(''topics'', JArray [JString ''a'', JString ''b''])]))"
proof -
  define w0 :: "unit amop_world" where "w0 = run_op (updateTopicsToRemote_session jsoncpp0 (\<lambda>n. []) ''ep'')
    (amop_world_init\<lparr>sessions := [''ep'']\<rparr>)"
  define w where "w = run_op (subscribe jsoncpp0 (\<lambda>n. []) (sessions w0) [''b'', ''a'']) w0"
  have "amop_step jsoncpp0 net_ext0 (\<lambda>n. []) amop_world_init w0" unfolding w0_def
    using Step_handshake [of jsoncpp0 net_ext0 "\<lambda>n. []" amop_world_init "''ep''"]
    by (simp add: amop_world_init_def)
  moreover have "amop_step jsoncpp0 net_ext0 (\<lambda>n. []) w0 w" unfolding w_def by (rule Step_subscribe)
  ultimately have "amop_reachable jsoncpp0 net_ext0 (\<lambda>n. []) w" by (simp add: amop_reachable_def)
  moreover have s: "sessions w = [''ep'']" by (simp add: w_def w0_def run_op_def amop_world_init_def)
  moreover have q: "querySubTopics (client w) = [''a'', ''b'']"
    by (simp add: w_def w0_def run_op_def amop_world_init_def amop_init_def subscribe_def addTopics_def
        set_insert_def querySubTopics_def topics_def update_keeps Let_def less_eq_char_def less_char_def)
  ultimately show ?thesis
    using amop_nodes_informed [of jsoncpp0 net_ext0 "\<lambda>n. []" w "''ep''"] ascii_def
    unfolding w0_def [symmetric] w_def [symmetric] Let_def by simp
qed

text \<open>Claim C18. A message published or broadcast by one client and received by another runs exactly one
  callback there, the one registered for the topic or else the default one, with the sender's data
  and the sequence number of the message; with neither registered the message is dropped. A topic
  longer than the length field allows is sent all the same, as an empty message, which every
  receiver ignores.\<close>
theorem amop_delivery:
  assumes "net_ext_ok N"
  shows "\<exists>m1 m2. snd (publish N new_seq t bs timeout a) = [Service_asyncSendMessage m1 timeout] \<and>
    snd (broadcast N new_seq t bs a) = [Service_broadcastMessage m2] \<and>
    (\<forall>b ep. amop_msgHandler N m1 ep b = Some (Inr (if length t \<le> TOPIC_MAX_LENGTH
        then delivered (selected_callback t b) ep (new_seq (m_seq a)) bs else [])) \<and>
      amop_msgHandler N m2 ep b = Some (Inr (if length t \<le> TOPIC_MAX_LENGTH
        then delivered (selected_callback t b) ep (new_seq (m_seq a)) bs else [])))"
proof -
  let ?m1 = "snd (request_message N new_seq AMOP_REQUEST t bs a)"
    and ?m2 = "snd (request_message N new_seq AMOP_BROADCAST t bs a)"
  have "snd (publish N new_seq t bs timeout a) = [Service_asyncSendMessage ?m1 timeout]"
    and "snd (broadcast N new_seq t bs a) = [Service_broadcastMessage ?m2]"
    by (simp_all add: publish_def broadcast_def case_prod_unfold Let_def)
  then show ?thesis
    using handler_request_message [OF assms, of AMOP_REQUEST new_seq t bs a]
      handler_request_message [OF assms, of AMOP_BROADCAST new_seq t bs a] by auto
qed

theorem amop_delivery_witness:
  "\<exists>m. snd (publish net_ext0 (\<lambda>n. ''s'') ''t'' [5] 9 (amop_init :: nat amop)) = [Service_asyncSendMessage m 9] \<and>
     amop_msgHandler net_ext0 m ''ep'' (addTopicCallback ''t'' (Some (3 :: nat)) amop_init) =
       Some (Inr [Call_SubCallback 3 ''ep'' ''s'' [5]])"
proof -
  obtain m where "snd (publish net_ext0 (\<lambda>n. ''s'') ''t'' [5] 9 (amop_init :: nat amop)) = [Service_asyncSendMessage m 9]"
    and "amop_msgHandler net_ext0 m ''ep'' b = Some (Inr (delivered (selected_callback ''t'' b) ''ep'' ''s'' [5]))"
    for b :: "nat amop"
    using amop_delivery [OF net_ext0_ok, of "\<lambda>n. ''s''" "''t''" "[5]" 9 "amop_init :: nat amop"]
    by (auto simp: TOPIC_MAX_LENGTH_def)
  then show ?thesis
    by (simp add: delivered_def selected_callback_def addTopicCallback_def getCallbackByTopic_def)
qed

text \<open>Callbacks and topics are kept apart: subscribing a topic with a callback makes it the one
  selected for the topic from then on, and neither subscribing nor unsubscribing any set of topics
  removes it, so a message that still arrives for an unsubscribed topic reaches the old callback.\<close>
lemma amop_callback_persists:
  "selected_callback t (fst (unsubscribe J ns2 ss2 ts2 (fst (subscribe J ns1 ss1 ts1
     (fst (subscribe_callback J ns ss t (Some cb) a)))))) = Some cb"
  by (simp add: selected_callback_def getCallbackByTopic_def unsubscribe_def subscribe_def
      subscribe_callback_def addTopicCallback_def case_prod_unfold Let_def update_keeps)

end
