(* ===== verification/EventMessages.thy ===== *)
theory EventMessages
  imports Json
begin

text \<open>
  The messages of event subscription: \<open>event/EventSubParams\<close>, \<open>event/EventSubRequest\<close>
  and \<open>event/EventSubResponse\<close>, with the topic check of
  \<open>utilities/abi/ContractABIEventTopic.h\<close>. Reading a JSON document into an object may
  throw half-way and leave the object partly written, so a reader is a computation
  \<open>'s \<Rightarrow> (json_exn + unit) \<times> 's\<close> on the object.
\<close>

section \<open>Readers\<close>

type_synonym 's reader = "'s \<Rightarrow> (json_exn + unit) \<times> 's"

definition skip :: "'s reader" where
  "skip s = (Inr (), s)"

definition andThen :: "'s reader \<Rightarrow> 's reader \<Rightarrow> 's reader" where
  "andThen f g s = (case f s of (Inl e, s') \<Rightarrow> (Inl e, s') | (Inr _, s') \<Rightarrow> g s')"

definition withE :: "json_exn + 'a \<Rightarrow> ('a \<Rightarrow> 's reader) \<Rightarrow> 's reader" where
  "withE m f s = (case m of Inl e \<Rightarrow> (Inl e, s) | Inr x \<Rightarrow> f x s)"

primrec forEach :: "('a \<Rightarrow> 's reader) \<Rightarrow> 'a list \<Rightarrow> 's reader" where
  "forEach f [] = skip"
| "forEach f (x # xs) = andThen (f x) (forEach f xs)"

primrec forIndex :: "(nat \<Rightarrow> 'a \<Rightarrow> 's reader) \<Rightarrow> nat \<Rightarrow> 'a list \<Rightarrow> 's reader" where
  "forIndex f i [] = skip"
| "forIndex f i (x # xs) = andThen (f i x) (forIndex f (Suc i) xs)"

text \<open>\<open>if (j.isMember(k)) f(j[k])\<close>\<close>

definition ifMember :: "jsoncpp \<Rightarrow> json \<Rightarrow> string \<Rightarrow> (json \<Rightarrow> 's reader) \<Rightarrow> 's reader" where
  "ifMember J j k f = withE (json_isMember J j k) (\<lambda>b. if b then withE (json_member J j k) f else skip)"

lemma reader_simps [simp]:
  "skip s = (Inr (), s)"
  "withE (Inl e) f s = (Inl e, s)"
  "withE (Inr x) f s = f x s"
  "r s = (Inr u, s') \<Longrightarrow> andThen r g s = g s'"
  "r s = (Inl e', s') \<Longrightarrow> andThen r g s = (Inl e', s')"
  by (simp_all add: skip_def withE_def andThen_def)

section \<open>Subscription parameters\<close>

definition EVENT_LOG_TOPICS_MAX_INDEX :: nat where
  "EVENT_LOG_TOPICS_MAX_INDEX = 4"

definition CONTRACT_EVENT_TOPIC_LENGTH :: nat where
  "CONTRACT_EVENT_TOPIC_LENGTH = 64"

record event_params =
  m_fromBlock :: int
  m_toBlock :: int
  m_addresses :: "string list"
  m_topics :: "string list list"

definition new_params :: event_params where
  "new_params = \<lparr>m_fromBlock = -1, m_toBlock = -1, m_addresses = [], m_topics = []\<rparr>"

definition setFromBlock :: "int \<Rightarrow> event_params \<Rightarrow> event_params" where
  "setFromBlock n p = p\<lparr>m_fromBlock := n\<rparr>"

definition setToBlock :: "int \<Rightarrow> event_params \<Rightarrow> event_params" where
  "setToBlock n p = p\<lparr>m_toBlock := n\<rparr>"

definition addAddress :: "string \<Rightarrow> event_params \<Rightarrow> event_params" where
  "addAddress a p = p\<lparr>m_addresses := fst (set_insert a (m_addresses p))\<rparr>"

text \<open>\<open>std::vector::resize\<close>: shrinks as well as grows.\<close>

definition resize :: "nat \<Rightarrow> string list list \<Rightarrow> string list list" where
  "resize n xs = take n xs @ replicate (n - length xs) []"

definition addTopic :: "nat \<Rightarrow> string \<Rightarrow> event_params \<Rightarrow> event_params \<times> bool" where
  "addTopic i t p =
     (let ts = resize (i + 1) (m_topics p);
          ts = ts[i := fst (set_insert t (ts ! i))]
      in (p\<lparr>m_topics := ts\<rparr>, i < EVENT_LOG_TOPICS_MAX_INDEX))"

definition validEventTopic :: "string \<Rightarrow> bool" where
  "validEventTopic t =
     (if take 2 t = ''0x'' \<or> take 2 t = ''0X'' then length t = CONTRACT_EVENT_TOPIC_LENGTH + 2
      else length t = CONTRACT_EVENT_TOPIC_LENGTH)"

definition verifyParams :: "event_params \<Rightarrow> bool" where
  "verifyParams p =
     (if length (m_topics p) > EVENT_LOG_TOPICS_MAX_INDEX then False
      else if \<not> list_all (list_all validEventTopic) (m_topics p) then False
      else if list_ex (\<lambda>a. a = []) (m_addresses p) then False
      else if m_fromBlock p > 0 \<and> m_toBlock p > 0 then m_fromBlock p \<le> m_toBlock p
      else True)"

definition read_topic :: "jsoncpp \<Rightarrow> nat \<Rightarrow> json \<Rightarrow> event_params reader" where
  "read_topic J i j = withE (json_asString J j) (\<lambda>t p. (Inr (), fst (addTopic i t p)))"

definition read_topic_entry :: "jsoncpp \<Rightarrow> nat \<Rightarrow> json \<Rightarrow> event_params reader" where
  "read_topic_entry J i jIndex =
     (if jIndex = JNull then skip
      else case jIndex of
        JArray _ \<Rightarrow> withE (json_elements J jIndex) (forEach (read_topic J i))
      | _ \<Rightarrow> read_topic J i jIndex)"

definition params_fromJson :: "jsoncpp \<Rightarrow> json \<Rightarrow> event_params reader" where
  "params_fromJson J jParams =
     andThen (ifMember J jParams ''fromBlock''
       (\<lambda>j. withE (json_asInt64 J j) (\<lambda>n p. (Inr (), setFromBlock n p))))
     (andThen (ifMember J jParams ''toBlock''
       (\<lambda>j. withE (json_asInt64 J j) (\<lambda>n p. (Inr (), setToBlock n p))))
     (andThen (ifMember J jParams ''addresses'' (\<lambda>jAddr. withE (json_elements J jAddr)
       (forEach (\<lambda>j. withE (json_asString J j) (\<lambda>a p. (Inr (), addAddress a p))))))
     (ifMember J jParams ''topics'' (\<lambda>jTopics. withE (json_elements J jTopics)
       (forIndex (read_topic_entry J) 0)))))"

definition fromJsonString :: "jsoncpp \<Rightarrow> string \<Rightarrow> event_params \<Rightarrow> bool \<times> event_params" where
  "fromJsonString J s p =
     (case json_parse J s of None \<Rightarrow> (False, p)
      | Some root \<Rightarrow> (case params_fromJson J root p of (Inl _, p') \<Rightarrow> (False, p') | (Inr _, p') \<Rightarrow> (True, p')))"

definition topics_toJson :: "string list list \<Rightarrow> json" where
  "topics_toJson ts = JArray (map (\<lambda>inTopics. if inTopics = [] then JNull else JArray (map JString inTopics)) ts)"

definition params_toJson :: "event_params \<Rightarrow> json" where
  "params_toJson p = jobject
     [(''fromBlock'', JInt (m_fromBlock p)), (''toBlock'', JInt (m_toBlock p)),
      (''addresses'', JArray (map JString (m_addresses p))), (''topics'', topics_toJson (m_topics p))]"

definition toJsonString :: "jsoncpp \<Rightarrow> event_params \<Rightarrow> string" where
  "toJsonString J p = json_write J (params_toJson p)"

section \<open>Requests\<close>

text \<open>
  A subscription request holds its parameters and the task's state, of which only the current
  block number is read. \<open>currentBlockNumber() + 1\<close> is computed in \<open>int64_t\<close>: at the
  largest value the addition overflows, which the model reports as an error.
\<close>

datatype event_exn = Null_pointer | Signed_overflow

record unsub_request =
  m_id :: string
  m_group :: string

record sub_request = unsub_request +
  m_params :: event_params

definition unsub_generateJson :: "jsoncpp \<Rightarrow> unsub_request \<Rightarrow> string" where
  "unsub_generateJson J r = json_write J (jobject [(''id'', JString (m_id r)), (''group'', JString (m_group r))])"

text \<open>
  The reading routines fill local variables first and the object only at the end: an exception,
  a missing field and a parse error all return false with the object unchanged.
\<close>

definition require :: "jsoncpp \<Rightarrow> json \<Rightarrow> string \<Rightarrow> (json \<Rightarrow> json_exn + 'a) \<Rightarrow> (json_exn + 'a) option" where
  "require J root k f =
     (case json_isMember J root k of
        Inl e \<Rightarrow> Some (Inl e)
      | Inr b \<Rightarrow> if b then Some (bindE (json_member J root k) f) else None)"

definition unsub_fromJson :: "jsoncpp \<Rightarrow> string \<Rightarrow> unsub_request \<Rightarrow> bool \<times> unsub_request" where
  "unsub_fromJson J s r =
     (case json_parse J s of None \<Rightarrow> (False, r)
      | Some root \<Rightarrow>
        (case require J root ''id'' (json_asString J) of
           Some (Inr i) \<Rightarrow>
             (case require J root ''group'' (json_asString J) of
                Some (Inr g) \<Rightarrow> (True, r\<lparr>m_id := i, m_group := g\<rparr>)
              | _ \<Rightarrow> (False, r))
         | _ \<Rightarrow> (False, r)))"

definition resume_block :: "int \<Rightarrow> event_params \<Rightarrow> event_exn + int" where
  "resume_block currentBlockNumber p =
     (if currentBlockNumber > 0
      then if currentBlockNumber = 2 ^ 63 - 1 then Inl Signed_overflow else Inr (currentBlockNumber + 1)
      else Inr (m_fromBlock p))"

definition sub_generateJson :: "jsoncpp \<Rightarrow> int \<Rightarrow> sub_request \<Rightarrow> event_exn + string" where
  "sub_generateJson J currentBlockNumber r =
     bindE (resume_block currentBlockNumber (m_params r)) (\<lambda>fromBlock.
       Inr (json_write J (jobject
         [(''id'', JString (m_id r)), (''group'', JString (m_group r)),
          (''params'', jobject
             [(''fromBlock'', JInt fromBlock), (''toBlock'', JInt (m_toBlock (m_params r))),
              (''addresses'', JArray (map JString (m_addresses (m_params r)))),
              (''topics'', topics_toJson (m_topics (m_params r)))])])))"

definition sub_fromJson :: "jsoncpp \<Rightarrow> string \<Rightarrow> sub_request \<Rightarrow> bool \<times> sub_request" where
  "sub_fromJson J s r =
     (case json_parse J s of None \<Rightarrow> (False, r)
      | Some root \<Rightarrow>
        (case require J root ''id'' (json_asString J) of
           Some (Inr i) \<Rightarrow>
             (case require J root ''group'' (json_asString J) of
                Some (Inr g) \<Rightarrow>
                  (case require J root ''params'' Inr of
                     Some (Inr jParams) \<Rightarrow>
                       (case params_fromJson J jParams new_params of
                          (Inr _, params) \<Rightarrow> (True, r\<lparr>m_id := i, m_group := g, m_params := params\<rparr>)
                        | (Inl _, _) \<Rightarrow> (False, r))
                   | _ \<Rightarrow> (False, r))
              | _ \<Rightarrow> (False, r))
         | _ \<Rightarrow> (False, r)))"

section \<open>Responses\<close>

definition StatusCode_Success :: int where "StatusCode_Success = 0"
definition StatusCode_EndOfPush :: int where "StatusCode_EndOfPush = 1"

record event_response =
  resp_id :: string
  resp_status :: int
  resp_jResp :: json

definition resp_generateJson :: "jsoncpp \<Rightarrow> event_response \<Rightarrow> string" where
  "resp_generateJson J r =
     json_write J (jobject [(''id'', JString (resp_id r)), (''status'', JInt (resp_status r))])"

definition resp_fromJson :: "jsoncpp \<Rightarrow> string \<Rightarrow> event_response \<Rightarrow> bool \<times> event_response" where
  "resp_fromJson J s r =
     (case json_parse J s of None \<Rightarrow> (False, r)
      | Some root \<Rightarrow>
        (case require J root ''id'' (json_asString J) of
           Some (Inr i) \<Rightarrow>
             (case require J root ''status'' (json_asInt J) of
                Some (Inr st) \<Rightarrow> (True, \<lparr>resp_id = i, resp_status = st, resp_jResp = root\<rparr>)
              | _ \<Rightarrow> (False, r))
         | _ \<Rightarrow> (False, r)))"

section \<open>Reading back what was written\<close>

text \<open>
  Parameters that the JSON form can carry: the sets are sets, the block numbers 64 bit, the texts
  ASCII, and the last entry of the topic vector is not empty, for trailing empty sets are
  written as \<open>null\<close> and not read back.
\<close>

definition params_inv :: "event_params \<Rightarrow> bool" where
  "params_inv p \<longleftrightarrow> std_set (m_addresses p) \<and> list_all std_set (m_topics p) \<and>
     int64_range (m_fromBlock p) \<and> int64_range (m_toBlock p)"

definition params_ascii :: "event_params \<Rightarrow> bool" where
  "params_ascii p \<longleftrightarrow> list_all ascii (m_addresses p) \<and> list_all (list_all ascii) (m_topics p)"

definition no_trailing_empty :: "event_params \<Rightarrow> bool" where
  "no_trailing_empty p \<longleftrightarrow> m_topics p = [] \<or> last (m_topics p) \<noteq> []"

lemma forEach_addresses:
  assumes "jsoncpp_ok J"
  shows "forEach (\<lambda>j. withE (json_asString J j) (\<lambda>a p. (Inr (), addAddress a p))) (map JString as) p =
    (Inr (), p\<lparr>m_addresses := insert_all as (m_addresses p)\<rparr>)"
  by (induction as arbitrary: p) (simp_all add: assms addAddress_def)

lemma addTopic_append:
  assumes "length (m_topics p) \<le> i"
  shows "fst (addTopic i t p) = p\<lparr>m_topics := m_topics p @ replicate (i - length (m_topics p)) [] @ [[t]]\<rparr>"
proof -
  have "resize (i + 1) (m_topics p) = m_topics p @ replicate (i - length (m_topics p)) [] @ [[]]"
    using assms by (simp add: resize_def Suc_diff_le replicate_append_same)
  moreover have "i - length (m_topics p) + length (m_topics p) = i" using assms by simp
  ultimately show ?thesis
    by (simp add: addTopic_def Let_def list_update_append nth_append set_insert_def)
qed

lemma addTopic_last:
  assumes "m_topics p = ts @ [xs]"
  shows "fst (addTopic (length ts) t p) = p\<lparr>m_topics := ts @ [fst (set_insert t xs)]\<rparr>"
  using assms by (simp add: addTopic_def resize_def Let_def)

lemma forEach_topics_last:
  assumes "jsoncpp_ok J" and "m_topics p = ts @ [xs]"
  shows "forEach (read_topic J (length ts)) (map JString us) p = (Inr (), p\<lparr>m_topics := ts @ [insert_all us xs]\<rparr>)"
  using assms(2)
proof (induction us arbitrary: p xs)
  case (Cons u us)
  have "read_topic J (length ts) (JString u) p = (Inr (), p\<lparr>m_topics := ts @ [fst (set_insert u xs)]\<rparr>)"
    using addTopic_last [OF Cons.prems] assms(1) by (simp add: read_topic_def)
  then show ?case using Cons.IH [of "p\<lparr>m_topics := ts @ [fst (set_insert u xs)]\<rparr>"] by simp
qed simp

lemma forEach_topics_new:
  assumes "jsoncpp_ok J" and "length (m_topics p) \<le> i" and "std_set us" and "us \<noteq> []"
  shows "forEach (read_topic J i) (map JString us) p =
    (Inr (), p\<lparr>m_topics := m_topics p @ replicate (i - length (m_topics p)) [] @ [us]\<rparr>)"
proof -
  obtain u us' where u: "us = u # us'" using assms(4) by (cases us) auto
  define ts where "ts = m_topics p @ replicate (i - length (m_topics p)) []"
  have l: "length ts = i" using assms(2) by (simp add: ts_def)
  have "read_topic J i (JString u) p = (Inr (), p\<lparr>m_topics := ts @ [[u]]\<rparr>)"
    using addTopic_append [OF assms(2), of u] assms(1) by (simp add: read_topic_def ts_def)
  moreover have "insert_all us' [u] = us"
    using insert_all_empty [OF assms(3)] u by (simp add: set_insert_def)
  ultimately show ?thesis
    using forEach_topics_last [OF assms(1), of "p\<lparr>m_topics := ts @ [[u]]\<rparr>" ts "[u]" us'] l u
    by (simp add: ts_def)
qed

text \<open>The topic loop rebuilds the vector, except for empty sets at its end.\<close>

definition drop_trailing :: "string list list \<Rightarrow> string list list" where
  "drop_trailing ts = rev (dropWhile (\<lambda>t. t = []) (rev ts))"

lemma drop_trailing_snoc [simp]: "drop_trailing (ts @ [t]) = (if t = [] then drop_trailing ts else ts @ [t])"
  by (simp add: drop_trailing_def)

lemma drop_trailing_Nil [simp]: "drop_trailing [] = []"
  by (simp add: drop_trailing_def)

lemma drop_trailing_fill: "drop_trailing ts @ replicate (length ts - length (drop_trailing ts)) [] = ts"
proof (induction ts rule: rev_induct)
  case (snoc t ts)
  have "length (drop_trailing ts) \<le> length ts"
    by (metis drop_trailing_def length_dropWhile_le length_rev)
  with snoc show ?case by (auto simp: Suc_diff_le simp flip: replicate_append_same append_assoc)
qed simp

lemma length_drop_trailing: "length (drop_trailing ts) \<le> length ts"
  by (metis drop_trailing_def length_dropWhile_le length_rev)

definition topic_entry :: "string list \<Rightarrow> json" where
  "topic_entry t = (if t = [] then JNull else JArray (map JString t))"

lemma read_topic_entry_step:
  assumes "jsoncpp_ok J" and "m_topics p = drop_trailing ts" and "std_set t"
  shows "read_topic_entry J (length ts) (topic_entry t) p = (Inr (), p\<lparr>m_topics := drop_trailing (ts @ [t])\<rparr>)"
proof (cases "t = []")
  case True
  then show ?thesis using assms(2) by (simp add: read_topic_entry_def topic_entry_def)
next
  case False
  have "drop_trailing ts @ replicate (length ts - length (drop_trailing ts)) [] @ [t] = ts @ [t]"
    using drop_trailing_fill [of ts] by (metis append_assoc)
  then show ?thesis
    using forEach_topics_new [OF assms(1), of p "length ts" t] assms False length_drop_trailing [of ts]
    by (simp add: read_topic_entry_def topic_entry_def)
qed

lemma forIndex_topics:
  assumes "jsoncpp_ok J" and "list_all std_set us" and "m_topics p = drop_trailing ts"
  shows "forIndex (read_topic_entry J) (length ts) (map topic_entry us) p =
    (Inr (), p\<lparr>m_topics := drop_trailing (ts @ us)\<rparr>)"
  using assms(2,3)
proof (induction us arbitrary: ts p)
  case (Cons u us)
  have "forIndex (read_topic_entry J) (length (ts @ [u])) (map topic_entry us)
      (p\<lparr>m_topics := drop_trailing (ts @ [u])\<rparr>) = (Inr (), p\<lparr>m_topics := drop_trailing ((ts @ [u]) @ us)\<rparr>)"
    using Cons.IH [of "p\<lparr>m_topics := drop_trailing (ts @ [u])\<rparr>" "ts @ [u]"] Cons.prems(1) by simp
  then show ?case
    using read_topic_entry_step [OF assms(1) Cons.prems(2), of u] Cons.prems(1) by simp
qed simp

lemma topics_toJson_entries: "topics_toJson ts = JArray (map topic_entry ts)"
  by (simp add: topics_toJson_def topic_entry_def)

lemma ifMember_jobject:
  assumes "jsoncpp_ok J" and "distinct (map fst kvs)" and "map_of kvs k = Some v"
  shows "ifMember J (jobject kvs) k f = f v"
  using assms by (intro ext) (simp add: ifMember_def)

lemma read_params:
  assumes "jsoncpp_ok J" and "std_set as" and "list_all std_set ts"
    and "int64_range from" and "int64_range to"
  shows "params_fromJson J (jobject [(''fromBlock'', JInt from), (''toBlock'', JInt to),
      (''addresses'', JArray (map JString as)), (''topics'', topics_toJson ts)]) new_params =
    (Inr (), \<lparr>m_fromBlock = from, m_toBlock = to, m_addresses = as, m_topics = drop_trailing ts\<rparr>)"
proof -
  let ?p = "\<lparr>m_fromBlock = from, m_toBlock = to, m_addresses = as, m_topics = []\<rparr>"
  have "forIndex (read_topic_entry J) 0 (map topic_entry ts) ?p = (Inr (), ?p\<lparr>m_topics := drop_trailing ts\<rparr>)"
    using forIndex_topics [OF assms(1,3), of ?p "[]"] by simp
  then show ?thesis
    by (simp add: params_fromJson_def ifMember_jobject [OF assms(1)] assms forEach_addresses topics_toJson_entries
        new_params_def setFromBlock_def setToBlock_def)
qed

lemma drop_trailing_id: "no_trailing_empty p \<Longrightarrow> drop_trailing (m_topics p) = m_topics p"
  by (cases "m_topics p" rule: rev_cases) (auto simp: no_trailing_empty_def)

lemma require_jobject:
  assumes "jsoncpp_ok J" and "distinct (map fst kvs)" and "map_of kvs k = Some v"
  shows "require J (jobject kvs) k f = Some (f v)"
  using assms by (simp add: require_def)

lemma topic_entries_wf: "list_all (list_all ascii) ts \<Longrightarrow> json_wf (topics_toJson ts)"
  by (auto simp: topics_toJson_def list_all_iff)

lemma ascii_literals [simp]:
  "ascii ''id''" "ascii ''group''" "ascii ''params''" "ascii ''fromBlock''" "ascii ''toBlock''"
  "ascii ''addresses''" "ascii ''topics''" "ascii ''status''"
  by (simp_all add: ascii_def)

end
