(* ===== verification/EventSub.thy ===== *)
theory EventSub
  imports EventMessages
begin

text \<open>
  Event subscription (\<open>event/EventSub.h\<close>, \<open>event/EventSub.cpp\<close>,
  \<open>event/EventSubTask.h\<close>). Tasks are shared objects: the maps, the closures waiting for a
  response and the caller hold pointers to them, so they live in a heap, a list whose indices are
  the pointers. A task and its \<open>EventSubTaskState\<close> are created together and never exchanged,
  and are one record. A session is named by its end point.
\<close>

record 'cb task =
  task_id :: string
  task_group :: string
  task_callback :: 'cb
  task_session :: "string option"
  task_params :: event_params
  task_block :: int

record 'cb event_sub =
  m_running :: bool
  m_suspendTasksCount :: u32
  m_workingTasks :: "(string \<times> nat) list"
  m_suspendTasks :: "(string \<times> nat) list"
  m_waitRespTasks :: "string list"
  heap :: "'cb task list"
  m_seq :: nat

text \<open>
  The two callbacks \<open>subscribeEvent\<close> is given: the user's, and the one of \<open>doLoop\<close>
  that calls \<open>removeWaitResp(id)\<close>. A request that was sent is remembered with the task and
  the callback its response handler captures.
\<close>

datatype 'cb cont = User_callback 'cb | Remove_wait string

datatype 'cb event_effect =
    Service_start
  | Timer_start
  | Timer_stop
  | Timer_restart
  | Send_by_group string ws_message nat "'cb cont"
  | Session_send string ws_message
  | Call_callback 'cb "(int \<times> string) option" string

definition EVENT_SUBSCRIBE :: nat where "EVENT_SUBSCRIBE = 0x120"
definition EVENT_UNSUBSCRIBE :: nat where "EVENT_UNSUBSCRIBE = 0x121"
definition EVENT_LOG_PUSH :: nat where "EVENT_LOG_PUSH = 0x122"

definition event_init :: "'cb event_sub" where
  "event_init = \<lparr>m_running = False, m_suspendTasksCount = 0, m_workingTasks = [], m_suspendTasks = [],
     m_waitRespTasks = [], heap = [], m_seq = 0\<rparr>"

section \<open>Tasks\<close>

definition setCurrentBlockNumber :: "int \<Rightarrow> 'cb task \<Rightarrow> 'cb task" where
  "setCurrentBlockNumber n t = (if n > task_block t then t\<lparr>task_block := n\<rparr> else t)"

definition setSession :: "string option \<Rightarrow> 'cb task \<Rightarrow> 'cb task" where
  "setSession s t = t\<lparr>task_session := s\<rparr>"

definition modify :: "nat \<Rightarrow> ('cb task \<Rightarrow> 'cb task) \<Rightarrow> 'cb event_sub \<Rightarrow> 'cb event_sub" where
  "modify a f st = st\<lparr>heap := (heap st)[a := f (heap st ! a)]\<rparr>"

section \<open>The task maps\<close>

definition removeSuspendTask :: "string \<Rightarrow> 'cb event_sub \<Rightarrow> 'cb event_sub \<times> bool" where
  "removeSuspendTask k st =
     (case umap_find k (m_suspendTasks st) of
        Some _ \<Rightarrow> (st\<lparr>m_suspendTasksCount := m_suspendTasksCount st - 1,
                     m_suspendTasks := umap_erase k (m_suspendTasks st)\<rparr>, True)
      | None \<Rightarrow> (st, False))"

definition addSuspendTask :: "nat \<Rightarrow> 'cb event_sub \<Rightarrow> 'cb event_sub \<times> bool" where
  "addSuspendTask a st =
     (let k = task_id (heap st ! a) in
      if umap_find k (m_suspendTasks st) = None
      then (st\<lparr>m_suspendTasksCount := m_suspendTasksCount st + 1,
              m_suspendTasks := umap_set k a (m_suspendTasks st)\<rparr>, True)
      else (st, False))"

definition addTask :: "nat \<Rightarrow> 'cb event_sub \<Rightarrow> 'cb event_sub \<times> bool" where
  "addTask a st =
     (let k = task_id (heap st ! a);
          st = fst (removeSuspendTask k st)
      in if umap_find k (m_workingTasks st) = None
         then (st\<lparr>m_workingTasks := umap_set k a (m_workingTasks st)\<rparr>, True)
         else (st, False))"

definition getTask :: "string \<Rightarrow> bool \<Rightarrow> 'cb event_sub \<Rightarrow> nat option" where
  "getTask k includeSuspendTask st =
     (case umap_find k (m_workingTasks st) of
        Some a \<Rightarrow> Some a
      | None \<Rightarrow> if includeSuspendTask then umap_find k (m_suspendTasks st) else None)"

definition getTaskAndRemove :: "string \<Rightarrow> bool \<Rightarrow> 'cb event_sub \<Rightarrow> 'cb event_sub \<times> nat option" where
  "getTaskAndRemove k includeSuspendTask st =
     (case umap_find k (m_workingTasks st) of
        Some a \<Rightarrow> (st\<lparr>m_workingTasks := umap_erase k (m_workingTasks st)\<rparr>, Some a)
      | None \<Rightarrow>
          if includeSuspendTask then
            (case umap_find k (m_suspendTasks st) of
               Some a \<Rightarrow> (st\<lparr>m_suspendTasksCount := m_suspendTasksCount st - 1,
                           m_suspendTasks := umap_erase k (m_suspendTasks st)\<rparr>, Some a)
             | None \<Rightarrow> (st, None))
          else (st, None))"

definition addWaitResp :: "string \<Rightarrow> 'cb event_sub \<Rightarrow> 'cb event_sub \<times> bool" where
  "addWaitResp k st =
     (let (ws, inserted) = set_insert k (m_waitRespTasks st) in (st\<lparr>m_waitRespTasks := ws\<rparr>, inserted))"

definition removeWaitResp :: "string \<Rightarrow> 'cb event_sub \<Rightarrow> 'cb event_sub \<times> bool" where
  "removeWaitResp k st =
     (let (ws, n) = set_erase k (m_waitRespTasks st) in (st\<lparr>m_waitRespTasks := ws\<rparr>, n \<noteq> 0))"

text \<open>
  The loop of \<open>suspendTasks\<close> visits the working tasks once; \<open>entries\<close> are those still
  to visit. Erasing the visited entry does not move the iterator.
\<close>

fun suspendTasks_loop :: "string \<Rightarrow> (string \<times> nat) list \<Rightarrow> 'cb event_sub \<Rightarrow> nat \<Rightarrow> 'cb event_sub \<times> nat" where
  "suspendTasks_loop ep [] st n = (st, n)"
| "suspendTasks_loop ep ((k, a) # entries) st n =
     (if (case task_session (heap st ! a) of Some s \<Rightarrow> s \<noteq> ep | None \<Rightarrow> False)
      then suspendTasks_loop ep entries st n
      else
        let st = st\<lparr>m_workingTasks := umap_erase k (m_workingTasks st)\<rparr>;
            st = modify a (setSession None) st;
            st = fst (addSuspendTask a st)
        in suspendTasks_loop ep entries st (n + 1))"

definition suspendTasks :: "string option \<Rightarrow> 'cb event_sub \<Rightarrow> 'cb event_sub \<times> nat" where
  "suspendTasks session st =
     (case session of None \<Rightarrow> (st, 0) | Some ep \<Rightarrow> suspendTasks_loop ep (m_workingTasks st) st 0)"

section \<open>Life cycle\<close>

definition event_start :: "'cb event_sub \<Rightarrow> 'cb event_sub \<times> 'cb event_effect list" where
  "event_start st =
     (if m_running st then (st, []) else (st\<lparr>m_running := True\<rparr>, [Service_start, Timer_start]))"

definition event_stop :: "bool \<Rightarrow> 'cb event_sub \<Rightarrow> 'cb event_sub \<times> 'cb event_effect list" where
  "event_stop has_timer st =
     (if \<not> m_running st then (st, [])
      else (st\<lparr>m_running := False\<rparr>, if has_timer then [Timer_stop] else []))"

definition event_newSeq :: "(nat \<Rightarrow> string) \<Rightarrow> 'cb event_sub \<Rightarrow> 'cb event_sub \<times> string" where
  "event_newSeq new_seq st = (st\<lparr>m_seq := Suc (m_seq st)\<rparr>, new_seq (m_seq st))"

section \<open>Subscribing\<close>

definition invoke :: "'cb cont \<Rightarrow> (int \<times> string) option \<Rightarrow> string \<Rightarrow> 'cb event_sub \<Rightarrow>
    'cb event_sub \<times> 'cb event_effect list" where
  "invoke c err s st =
     (case c of
        User_callback cb \<Rightarrow> (st, [Call_callback cb err s])
      | Remove_wait k \<Rightarrow> (fst (removeWaitResp k st), []))"

definition new_response :: event_response where
  "new_response = \<lparr>resp_id = [], resp_status = 0, resp_jResp = JNull\<rparr>"

text \<open>
  The response handler of \<open>subscribeEvent\<close>. An error object with code 0 does not count as an
  error; the message pointer is then used unchecked.
\<close>

definition subscribe_response :: "jsoncpp \<Rightarrow> nat \<Rightarrow> 'cb cont \<Rightarrow> (int \<times> string) option \<Rightarrow> bytes option \<Rightarrow>
    string option \<Rightarrow> 'cb event_sub \<Rightarrow> event_exn + 'cb event_sub \<times> 'cb event_effect list" where
  "subscribe_response J a callback err msg session st =
     (if (case err of Some (code, _) \<Rightarrow> code \<noteq> 0 | None \<Rightarrow> False) then Inr (invoke callback err [] st)
      else case msg of None \<Rightarrow> Inl Null_pointer
      | Some body \<Rightarrow>
        (let strResp = string_of_bytes body;
             (ok, resp) = resp_fromJson J strResp new_response
         in if \<not> ok then Inr (invoke callback None strResp st)
            else if resp_status resp \<noteq> StatusCode_Success then Inr (invoke callback None strResp st)
            else
              let st = modify a (setSession session) st;
                  st = fst (addTask a st)
              in Inr (invoke callback None strResp st)))"

text \<open>
  The service answers a request at once with an error when no end point serves the group: \<open>refuses g\<close> is that error
  (\<open>asyncSendMessageByGroupAndNode\<close> of \<open>Service\<close>), \<open>None\<close> when the request is handed to an end point. The handler
  of the response then runs before \<open>subscribeEvent\<close> returns.
\<close>

definition subscribeEvent_task :: "jsoncpp \<Rightarrow> (nat \<Rightarrow> string) \<Rightarrow> (string \<Rightarrow> (int \<times> string) option) \<Rightarrow> nat \<Rightarrow>
    'cb cont \<Rightarrow> 'cb event_sub \<Rightarrow> event_exn + 'cb event_sub \<times> 'cb event_effect list" where
  "subscribeEvent_task J new_seq refuses a callback st =
     (let t = heap st ! a;
          request = \<lparr>m_id = task_id t, m_group = task_group t, m_params = task_params t\<rparr>
      in bindE (sub_generateJson J (task_block t) request) (\<lambda>jsonReq.
           let (st, s) = event_newSeq new_seq st;
               message = \<lparr>seq = s, packetType = EVENT_SUBSCRIBE, payload = bytes_of_string jsonReq\<rparr>
           in case refuses (task_group t) of
                Some err \<Rightarrow> subscribe_response J a callback (Some err) None None st
              | None \<Rightarrow> Inr (st, [Send_by_group (task_group t) message a callback])))"

definition subscribeEvent_params :: "jsoncpp \<Rightarrow> (nat \<Rightarrow> string) \<Rightarrow> (string \<Rightarrow> (int \<times> string) option) \<Rightarrow> string \<Rightarrow>
    event_params \<Rightarrow> 'cb \<Rightarrow> 'cb event_sub \<Rightarrow> event_exn + ('cb event_sub \<times> 'cb event_effect list) \<times> string" where
  "subscribeEvent_params J new_seq refuses grp params callback st =
     (if \<not> verifyParams params
      then Inr ((st, [Call_callback callback (Some (-1, ''params verification failure'')) []]), [])
      else
        let (st, taskId) = event_newSeq new_seq st;
            t = \<lparr>task_id = taskId, task_group = grp, task_callback = callback, task_session = None,
                 task_params = params, task_block = -1\<rparr>;
            a = length (heap st);
            st = st\<lparr>heap := heap st @ [t]\<rparr>
        in bindE (subscribeEvent_task J new_seq refuses a (User_callback callback) st) (\<lambda>r. Inr (r, taskId)))"

definition subscribeEvent_string :: "jsoncpp \<Rightarrow> (nat \<Rightarrow> string) \<Rightarrow> (string \<Rightarrow> (int \<times> string) option) \<Rightarrow> string \<Rightarrow>
    string \<Rightarrow> 'cb \<Rightarrow> 'cb event_sub \<Rightarrow> event_exn + ('cb event_sub \<times> 'cb event_effect list) \<times> string" where
  "subscribeEvent_string J new_seq refuses grp s callback st =
     (let (ok, params) = fromJsonString J s new_params in
      if \<not> ok then Inr ((st, [Call_callback callback (Some (-1, ''invalid request JSON string'')) []]), [])
      else subscribeEvent_params J new_seq refuses grp params callback st)"

section \<open>The resubscription loop\<close>

fun doLoop_tasks :: "jsoncpp \<Rightarrow> (nat \<Rightarrow> string) \<Rightarrow> (string \<Rightarrow> (int \<times> string) option) \<Rightarrow>
    (string \<times> nat) list \<Rightarrow> 'cb event_sub \<Rightarrow> event_exn + 'cb event_sub \<times> 'cb event_effect list" where
  "doLoop_tasks J new_seq refuses [] st = Inr (st, [])"
| "doLoop_tasks J new_seq refuses ((_, a) # entries) st =
     (let i = task_id (heap st ! a);
          (st, inserted) = addWaitResp i st
      in if \<not> inserted then doLoop_tasks J new_seq refuses entries st
         else
           bindE (subscribeEvent_task J new_seq refuses a (Remove_wait i) st) (\<lambda>(st, out).
           bindE (doLoop_tasks J new_seq refuses entries st) (\<lambda>(st, outs). Inr (st, out @ outs))))"

definition doLoop :: "jsoncpp \<Rightarrow> (nat \<Rightarrow> string) \<Rightarrow> (string \<Rightarrow> (int \<times> string) option) \<Rightarrow> string list \<Rightarrow>
    'cb event_sub \<Rightarrow> event_exn + 'cb event_sub \<times> 'cb event_effect list" where
  "doLoop J new_seq refuses ss st =
     (if m_suspendTasksCount st \<noteq> 0 then
        if ss = [] then Inr (st, [Timer_restart])
        else bindE (doLoop_tasks J new_seq refuses (m_suspendTasks st) st) (\<lambda>(st, out). Inr (st, Timer_restart # out))
      else Inr (st, [Timer_restart]))"

section \<open>Pushed events\<close>

text \<open>\<open>jResp["result"][0]["blockNumber"]\<close>, which may throw.\<close>

definition push_block :: "jsoncpp \<Rightarrow> json \<Rightarrow> json_exn + json" where
  "push_block J j =
     bindE (json_member J j ''result'') (\<lambda>r. bindE (json_index J r 0) (\<lambda>e. json_member J e ''blockNumber''))"

definition onRecvEventSubMessage :: "jsoncpp \<Rightarrow> bytes \<Rightarrow> 'cb event_sub \<Rightarrow>
    'cb event_sub \<times> 'cb event_effect list" where
  "onRecvEventSubMessage J body st =
     (let strResp = string_of_bytes body;
          (ok, resp) = resp_fromJson J strResp new_response
      in if \<not> ok then (st, [])
         else case getTask (resp_id resp) True st of None \<Rightarrow> (st, [])
         | Some a \<Rightarrow>
             let call = Call_callback (task_callback (heap st ! a)) None strResp in
             if resp_status resp = StatusCode_EndOfPush
             then (fst (getTaskAndRemove (resp_id resp) True st), [call])
             else if resp_status resp \<noteq> StatusCode_Success
             then (fst (getTaskAndRemove (resp_id resp) True st), [call])
             else
               (case bindE (push_block J (resp_jResp resp)) (\<lambda>b.
                       if json_isInt64 J b
                       then bindE (json_asInt64 J b) (\<lambda>n. Inr (modify a (setCurrentBlockNumber n) st))
                       else Inr st) of
                  Inr st \<Rightarrow> (st, [call])
                | Inl _ \<Rightarrow> (st, [])))"

section \<open>Unsubscribing\<close>

definition unsubscribeEvent :: "jsoncpp \<Rightarrow> (nat \<Rightarrow> string) \<Rightarrow> string \<Rightarrow> 'cb event_sub \<Rightarrow>
    'cb event_sub \<times> 'cb event_effect list" where
  "unsubscribeEvent J new_seq i st =
     (let (st, task) = getTaskAndRemove i True st in
      case task of None \<Rightarrow> (st, [])
      | Some a \<Rightarrow>
        (case task_session (heap st ! a) of None \<Rightarrow> (st, [])
         | Some session \<Rightarrow>
             let strReq = unsub_generateJson J \<lparr>m_id = i, m_group = task_group (heap st ! a)\<rparr>;
                 (st, s) = event_newSeq new_seq st;
                 message = \<lparr>seq = s, packetType = EVENT_UNSUBSCRIBE, payload = bytes_of_string strReq\<rparr>
             in (st, [Session_send session message])))"

text \<open>The response handler of \<open>unsubscribeEvent\<close> only logs.\<close>

definition unsubscribe_response :: "jsoncpp \<Rightarrow> (int \<times> string) option \<Rightarrow> bytes option \<Rightarrow> event_exn + unit" where
  "unsubscribe_response J err msg =
     (if (case err of Some (code, _) \<Rightarrow> code \<noteq> 0 | None \<Rightarrow> False) then Inr ()
      else case msg of None \<Rightarrow> Inl Null_pointer | Some _ \<Rightarrow> Inr ())"

end
