(* ===== verification/EventProps.thy ===== *)
theory EventProps
  imports EventSub
begin

text \<open>
  Properties of event subscription: the invariant of the task maps, kept by every operation; the
  client as a transition system over its pending requests, with the invariant that ties the set
  of awaited responses to them; block numbers never go back.
\<close>

section \<open>The invariant of the task maps\<close>

definition maps_inv :: "'cb event_sub \<Rightarrow> bool" where
  "maps_inv st \<longleftrightarrow>
     umap_ok (m_workingTasks st) \<and> umap_ok (m_suspendTasks st) \<and>
     (\<forall>k. umap_find k (m_workingTasks st) = None \<or> umap_find k (m_suspendTasks st) = None) \<and>
     m_suspendTasksCount st = word_of_nat (length (m_suspendTasks st)) \<and>
     (\<forall>k a. umap_find k (m_workingTasks st) = Some a \<or> umap_find k (m_suspendTasks st) = Some a \<longrightarrow>
        a < length (heap st) \<and> task_id (heap st ! a) = k) \<and>
     (\<forall>k a. umap_find k (m_suspendTasks st) = Some a \<longrightarrow> task_session (heap st ! a) = None)"

text \<open>What every operation keeps of the objects: they stay, with their identity, and their block grows.\<close>

definition heap_le :: "'cb event_sub \<Rightarrow> 'cb event_sub \<Rightarrow> bool" where
  "heap_le st st' \<longleftrightarrow> length (heap st) \<le> length (heap st') \<and>
     (\<forall>a < length (heap st). task_id (heap st' ! a) = task_id (heap st ! a) \<and>
        task_callback (heap st' ! a) = task_callback (heap st ! a) \<and>
        task_params (heap st' ! a) = task_params (heap st ! a) \<and>
        task_block (heap st ! a) \<le> task_block (heap st' ! a))"

lemma heap_le_refl [simp]: "heap_le st st"
  by (simp add: heap_le_def)

lemma heap_le_same: "heap st' = heap st \<Longrightarrow> heap_le st st'"
  by (simp add: heap_le_def)

lemma heap_le_trans [trans]: "heap_le a b \<Longrightarrow> heap_le b c \<Longrightarrow> heap_le a c"
  by (auto simp: heap_le_def intro: order_trans)

lemma heap_modify:
  "b < length (heap st) \<Longrightarrow> heap (modify a f st) ! b = (if a = b then f (heap st ! b) else heap st ! b)"
  by (cases "a = b") (simp_all add: modify_def)

lemma heap_le_modify:
  assumes "\<And>t. task_id (f t) = task_id t \<and> task_callback (f t) = task_callback t \<and>
      task_params (f t) = task_params t \<and> task_block t \<le> task_block (f t)"
  shows "heap_le st (modify a f st)"
  using assms by (simp add: heap_le_def heap_modify) (simp add: modify_def)

lemma heap_le_setSession: "heap_le st (modify a (setSession s) st)"
  by (rule heap_le_modify) (simp add: setSession_def)

lemma heap_le_setBlock: "heap_le st (modify a (setCurrentBlockNumber n) st)"
  by (rule heap_le_modify) (simp add: setCurrentBlockNumber_def)

lemma modify_simps [simp]:
  "m_workingTasks (modify a f st) = m_workingTasks st" "m_suspendTasks (modify a f st) = m_suspendTasks st"
  "m_suspendTasksCount (modify a f st) = m_suspendTasksCount st"
  "m_waitRespTasks (modify a f st) = m_waitRespTasks st" "m_seq (modify a f st) = m_seq st"
  "length (heap (modify a f st)) = length (heap st)"
  by (simp_all add: modify_def)

lemma modify_id [simp]:
  "a < length (heap st) \<Longrightarrow> task_id (f (heap st ! a)) = task_id (heap st ! a) \<Longrightarrow>
     task_id (heap (modify a f st) ! b) = task_id (heap st ! b)"
  by (cases "a = b") (simp_all add: modify_def)

lemma maps_invD:
  assumes "maps_inv st"
  shows "umap_ok (m_workingTasks st)" and "umap_ok (m_suspendTasks st)"
    and "umap_find k (m_workingTasks st) = None \<or> umap_find k (m_suspendTasks st) = None"
    and "m_suspendTasksCount st = word_of_nat (length (m_suspendTasks st))"
    and "umap_find k (m_workingTasks st) = Some a \<Longrightarrow> a < length (heap st) \<and> task_id (heap st ! a) = k"
    and "umap_find k (m_suspendTasks st) = Some a \<Longrightarrow>
      a < length (heap st) \<and> task_id (heap st ! a) = k \<and> task_session (heap st ! a) = None"
  using assms unfolding maps_inv_def by iprover+

lemma maps_invI:
  assumes "umap_ok (m_workingTasks st)" and "umap_ok (m_suspendTasks st)"
    and "\<And>k. umap_find k (m_workingTasks st) = None \<or> umap_find k (m_suspendTasks st) = None"
    and "m_suspendTasksCount st = word_of_nat (length (m_suspendTasks st))"
    and "\<And>k a. umap_find k (m_workingTasks st) = Some a \<Longrightarrow> a < length (heap st) \<and> task_id (heap st ! a) = k"
    and "\<And>k a. umap_find k (m_suspendTasks st) = Some a \<Longrightarrow>
      a < length (heap st) \<and> task_id (heap st ! a) = k \<and> task_session (heap st ! a) = None"
  shows "maps_inv st"
  using assms unfolding maps_inv_def by iprover

lemma maps_inv_intro:
  assumes i: "maps_inv st" and "m_workingTasks st' = m_workingTasks st" and "m_suspendTasks st' = m_suspendTasks st"
    and "m_suspendTasksCount st' = m_suspendTasksCount st" and "length (heap st) \<le> length (heap st')"
    and "\<And>b. b < length (heap st) \<Longrightarrow> task_id (heap st' ! b) = task_id (heap st ! b)"
    and "\<And>b. b < length (heap st) \<Longrightarrow> task_session (heap st ! b) = None \<Longrightarrow> task_session (heap st' ! b) = None"
  shows "maps_inv st'"
proof (rule maps_invI; unfold assms(2-4))
  fix k a
  show "a < length (heap st') \<and> task_id (heap st' ! a) = k" if "umap_find k (m_workingTasks st) = Some a"
    using maps_invD(5) [OF i that] assms(5,6) by (metis order_less_le_trans)
  show "a < length (heap st') \<and> task_id (heap st' ! a) = k \<and> task_session (heap st' ! a) = None"
    if "umap_find k (m_suspendTasks st) = Some a"
    using maps_invD(6) [OF i that] assms(5-7) by (metis order_less_le_trans)
qed (rule maps_invD [OF i])+

lemma setBlock_inv: "maps_inv st \<Longrightarrow> maps_inv (modify a (setCurrentBlockNumber n) st)"
  by (erule maps_inv_intro) (simp_all add: heap_modify setCurrentBlockNumber_def)

section \<open>Operations on the maps\<close>

lemma removeSuspendTask_simps [simp]:
  "heap (fst (removeSuspendTask k st)) = heap st"
  "m_workingTasks (fst (removeSuspendTask k st)) = m_workingTasks st"
  "m_waitRespTasks (fst (removeSuspendTask k st)) = m_waitRespTasks st"
  "m_suspendTasks (fst (removeSuspendTask k st)) = umap_erase k (m_suspendTasks st)"
  by (auto simp: removeSuspendTask_def umap_erase_absent split: option.splits)

lemma addTask_simps [simp]:
  "heap (fst (addTask a st)) = heap st"
  "m_waitRespTasks (fst (addTask a st)) = m_waitRespTasks st"
  "m_suspendTasks (fst (addTask a st)) = umap_erase (task_id (heap st ! a)) (m_suspendTasks st)"
  "m_workingTasks (fst (addTask a st)) =
     (if umap_find (task_id (heap st ! a)) (m_workingTasks st) = None
      then umap_set (task_id (heap st ! a)) a (m_workingTasks st) else m_workingTasks st)"
  by (simp_all add: addTask_def Let_def)

lemma getTaskAndRemove_simps [simp]:
  "heap (fst (getTaskAndRemove k b st)) = heap st"
  "m_waitRespTasks (fst (getTaskAndRemove k b st)) = m_waitRespTasks st"
  by (auto simp: getTaskAndRemove_def split: option.splits)

lemma addSuspendTask_simps [simp]:
  "heap (fst (addSuspendTask a st)) = heap st"
  "m_workingTasks (fst (addSuspendTask a st)) = m_workingTasks st"
  "m_waitRespTasks (fst (addSuspendTask a st)) = m_waitRespTasks st"
  "m_suspendTasks (fst (addSuspendTask a st)) =
     (if umap_find (task_id (heap st ! a)) (m_suspendTasks st) = None
      then umap_set (task_id (heap st ! a)) a (m_suspendTasks st) else m_suspendTasks st)"
  by (simp_all add: addSuspendTask_def Let_def)

lemma count_erase:
  assumes "umap_ok m" and "umap_find k m \<noteq> None"
  shows "word_of_nat (length m) - 1 = (word_of_nat (length (umap_erase k m)) :: u32)"
proof -
  have "0 < length m" using assms(2) by (cases m) (simp_all add: umap_find_def)
  then have "length m = Suc (length (umap_erase k m))"
    using length_umap_erase [OF assms(1), of k] assms(2) by simp
  then show ?thesis by simp
qed

lemma removeSuspendTask_inv:
  assumes i: "maps_inv st"
  shows "maps_inv (fst (removeSuspendTask k st))"
proof (rule maps_invI; unfold removeSuspendTask_simps)
  show "m_suspendTasksCount (fst (removeSuspendTask k st)) = word_of_nat (length (umap_erase k (m_suspendTasks st)))"
    using maps_invD(2,4) [OF i] count_erase [of "m_suspendTasks st" k]
    by (cases "umap_find k (m_suspendTasks st)") (simp_all add: removeSuspendTask_def umap_erase_absent)
qed (use maps_invD [OF i] in \<open>simp_all split: if_splits\<close>)

lemma getTaskAndRemove_inv:
  assumes i: "maps_inv st"
  shows "maps_inv (fst (getTaskAndRemove k b st))"
proof (cases "umap_find k (m_workingTasks st)")
  case None
  then have "fst (getTaskAndRemove k b st) = (if b then fst (removeSuspendTask k st) else st)"
    by (simp add: getTaskAndRemove_def removeSuspendTask_def split: option.splits)
  then show ?thesis using i removeSuspendTask_inv [of st k] by simp
next
  case (Some a)
  show ?thesis
    by (rule maps_invI) (use maps_invD [OF i] Some in \<open>simp_all add: getTaskAndRemove_def split: if_splits\<close>)
qed

lemma addTask_count: "m_suspendTasksCount (fst (addTask a st)) =
    m_suspendTasksCount (fst (removeSuspendTask (task_id (heap st ! a)) st))"
  by (simp add: addTask_def Let_def)

text \<open>
  Once the object at \<open>a\<close> may carry any session, moving it to the working map restores the
  invariant.
\<close>

definition maps_inv_except :: "nat \<Rightarrow> 'cb event_sub \<Rightarrow> bool" where
  "maps_inv_except a st \<longleftrightarrow> a < length (heap st) \<and> maps_inv (modify a (setSession None) st)"

lemma addTask_inv:
  assumes "maps_inv_except a st"
  shows "maps_inv (fst (addTask a st))"
proof -
  let ?k = "task_id (heap st ! a)" and ?st = "modify a (setSession None) st"
  have a: "a < length (heap st)" and i: "maps_inv ?st" using assms by (simp_all add: maps_inv_except_def)
  have t: "task_id (heap ?st ! b) = task_id (heap st ! b)" for b using a by (simp add: setSession_def)
  have s: "b \<noteq> a \<Longrightarrow> heap ?st ! b = heap st ! b" for b by (simp add: modify_def)
  note d = maps_invD [OF i, simplified modify_simps t]
  note r = maps_invD [OF removeSuspendTask_inv [OF i, of ?k]]
  show ?thesis
  proof (rule maps_invI)
    show "m_suspendTasksCount (fst (addTask a st)) = word_of_nat (length (m_suspendTasks (fst (addTask a st))))"
      using r(4) unfolding addTask_count
      by (simp add: removeSuspendTask_def umap_erase_absent split: option.splits)
    show "c < length (heap (fst (addTask a st))) \<and> task_id (heap (fst (addTask a st)) ! c) = k"
      if "umap_find k (m_workingTasks (fst (addTask a st))) = Some c" for k c
      using that d(5) [of k c] a by (simp split: if_splits)
    show "c < length (heap (fst (addTask a st))) \<and> task_id (heap (fst (addTask a st)) ! c) = k \<and>
        task_session (heap (fst (addTask a st)) ! c) = None"
      if "umap_find k (m_suspendTasks (fst (addTask a st))) = Some c" for k c
      using that d(6) [of k c] s [of c] by (cases "c = a") (simp_all split: if_splits)
  qed (use d in \<open>simp_all split: if_splits\<close>)
qed

text \<open>A response stores the session in the task and moves the task to the working map.\<close>

lemma response_inv:
  assumes "maps_inv st" and "a < length (heap st)"
  shows "maps_inv (fst (addTask a (modify a (setSession s) st)))"
proof (rule addTask_inv)
  have "maps_inv (modify a (setSession None) st)"
    using assms(1) by (rule maps_inv_intro) (simp_all add: heap_modify setSession_def)
  moreover have "modify a (setSession None) (modify a (setSession s) st) = modify a (setSession None) st"
    using assms(2) by (simp add: modify_def setSession_def)
  ultimately show "maps_inv_except a (modify a (setSession s) st)"
    using assms(2) by (simp add: maps_inv_except_def)
qed

section \<open>Suspending\<close>

definition suspend_one :: "string \<Rightarrow> nat \<Rightarrow> 'cb event_sub \<Rightarrow> 'cb event_sub" where
  "suspend_one k a st =
     fst (addSuspendTask a (modify a (setSession None) (st\<lparr>m_workingTasks := umap_erase k (m_workingTasks st)\<rparr>)))"

definition on_session :: "string \<Rightarrow> 'cb event_sub \<Rightarrow> nat \<Rightarrow> bool" where
  "on_session ep st a \<longleftrightarrow> (case task_session (heap st ! a) of Some s \<Rightarrow> s = ep | None \<Rightarrow> True)"

lemma suspendTasks_loop_Cons:
  "suspendTasks_loop ep ((k, a) # es) st n =
     (if on_session ep st a then suspendTasks_loop ep es (suspend_one k a st) (n + 1)
      else suspendTasks_loop ep es st n)"
  by (simp add: on_session_def suspend_one_def Let_def split: option.splits)

lemma suspend_one_simps:
  assumes "maps_inv st" and "umap_find k (m_workingTasks st) = Some a"
  shows "m_workingTasks (suspend_one k a st) = umap_erase k (m_workingTasks st)"
    and "m_suspendTasks (suspend_one k a st) = umap_set k a (m_suspendTasks st)"
    and "m_suspendTasksCount (suspend_one k a st) = m_suspendTasksCount st + 1"
    and "heap (suspend_one k a st) = (heap st)[a := setSession None (heap st ! a)]"
    and "m_waitRespTasks (suspend_one k a st) = m_waitRespTasks st"
    and "heap_le st (suspend_one k a st)"
proof -
  have a: "a < length (heap st)" "task_id (heap st ! a) = k" and s: "umap_find k (m_suspendTasks st) = None"
    using maps_invD(3,5) [OF assms(1), of k] assms(2) by simp_all
  then show "m_workingTasks (suspend_one k a st) = umap_erase k (m_workingTasks st)"
    "m_suspendTasks (suspend_one k a st) = umap_set k a (m_suspendTasks st)"
    "m_suspendTasksCount (suspend_one k a st) = m_suspendTasksCount st + 1"
    "heap (suspend_one k a st) = (heap st)[a := setSession None (heap st ! a)]"
    "m_waitRespTasks (suspend_one k a st) = m_waitRespTasks st"
    by (simp_all add: suspend_one_def addSuspendTask_def setSession_def modify_def)
  then show "heap_le st (suspend_one k a st)"
    using heap_le_setSession [of st a None] by (simp add: heap_le_def modify_def)
qed

lemma suspend_one_inv:
  assumes i: "maps_inv st" and w: "umap_find k (m_workingTasks st) = Some a"
  shows "maps_inv (suspend_one k a st)"
proof -
  have n: "umap_find k (m_suspendTasks st) = None" using maps_invD(3) [OF i, of k] w by simp
  have h: "heap (suspend_one k a st) ! b = (if b = a then setSession None (heap st ! b) else heap st ! b)"
    if "b < length (heap st)" for b using that by (simp add: suspend_one_simps [OF i w] nth_list_update)
  have l: "length (heap (suspend_one k a st)) = length (heap st)" by (simp add: suspend_one_simps [OF i w])
  note d = maps_invD [OF i]
  show ?thesis
  proof (rule maps_invI)
    show "m_suspendTasksCount (suspend_one k a st) = word_of_nat (length (m_suspendTasks (suspend_one k a st)))"
      using n d(4) by (simp add: suspend_one_simps [OF i w] length_umap_set)
    show "c < length (heap (suspend_one k a st)) \<and> task_id (heap (suspend_one k a st) ! c) = k'"
      if "umap_find k' (m_workingTasks (suspend_one k a st)) = Some c" for k' c
      using that d(5) [of k' c] h [of c] by (simp add: l suspend_one_simps(1) [OF i w] setSession_def split: if_splits)
    show "c < length (heap (suspend_one k a st)) \<and> task_id (heap (suspend_one k a st) ! c) = k' \<and>
        task_session (heap (suspend_one k a st) ! c) = None"
      if "umap_find k' (m_suspendTasks (suspend_one k a st)) = Some c" for k' c
      using that d(6) [of k' c] d(5) [OF w] h [of c]
      by (simp add: l suspend_one_simps(2) [OF i w] setSession_def split: if_splits)
  qed (use d in \<open>simp_all add: suspend_one_simps [OF i w]\<close>)
qed

text \<open>
  What the loop does, for the entries still to visit: exactly the tasks of that session, and those
  without one, leave the working map for the suspended one.
\<close>

definition visitable :: "(string \<times> nat) list \<Rightarrow> 'cb event_sub \<Rightarrow> bool" where
  "visitable es st \<longleftrightarrow> umap_ok es \<and> (\<forall>(k, a) \<in> set es. umap_find k (m_workingTasks st) = Some a)"

lemma visitable_Cons:
  assumes "visitable ((k, a) # es) st"
  shows "umap_find k (m_workingTasks st) = Some a" and "visitable es st" and "k \<notin> fst ` set es"
  using assms by (auto simp: visitable_def umap_ok_def)

lemma visitable_suspend_one:
  assumes "visitable ((k, a) # es) st" and "maps_inv st"
  shows "visitable es (suspend_one k a st)"
  using visitable_Cons [OF assms(1)] suspend_one_simps(1) [OF assms(2) visitable_Cons(1) [OF assms(1)]]
  by (force simp: visitable_def)

lemma suspendTasks_loop_inv:
  assumes "maps_inv st" and "visitable es st"
  shows "maps_inv (fst (suspendTasks_loop ep es st n)) \<and> heap_le st (fst (suspendTasks_loop ep es st n)) \<and>
    m_waitRespTasks (fst (suspendTasks_loop ep es st n)) = m_waitRespTasks st"
  using assms
proof (induction es arbitrary: st n)
  case (Cons e es)
  obtain k a where e: "e = (k, a)" by (cases e)
  note w = visitable_Cons [OF Cons.prems(2) [unfolded e]]
  show ?case
  proof (cases "on_session ep st a")
    case True
    have "heap_le st (suspend_one k a st)" by (rule suspend_one_simps [OF Cons.prems(1) w(1)])
    then show ?thesis
      using Cons.IH [OF suspend_one_inv [OF Cons.prems(1) w(1)] visitable_suspend_one [OF Cons.prems(2) [unfolded e] Cons.prems(1)], of "n + 1"]
        suspend_one_simps(5) [OF Cons.prems(1) w(1)] True heap_le_trans
      unfolding e suspendTasks_loop_Cons by auto
  next
    case False
    then show ?thesis using Cons.IH [OF Cons.prems(1) w(2), of n] unfolding e suspendTasks_loop_Cons by simp
  qed
qed simp

lemma visitable_all: "maps_inv st \<Longrightarrow> visitable (m_workingTasks st) st"
  using maps_invD(1) [of st] by (auto simp: visitable_def umap_find_mem)

lemma suspendTasks_inv:
  "maps_inv st \<Longrightarrow> maps_inv (fst (suspendTasks s st)) \<and> heap_le st (fst (suspendTasks s st)) \<and>
     m_waitRespTasks (fst (suspendTasks s st)) = m_waitRespTasks st"
  using suspendTasks_loop_inv [OF _ visitable_all] by (auto simp: suspendTasks_def split: option.splits)

section \<open>Sending and receiving\<close>

lemma subscribeEvent_task_result:
  assumes "subscribeEvent_task J new_seq refuses a c st = Inr (st', out)"
  shows "\<exists>text. sub_generateJson J (task_block (heap st ! a))
        \<lparr>m_id = task_id (heap st ! a), m_group = task_group (heap st ! a), m_params = task_params (heap st ! a)\<rparr> = Inr text \<and>
      (case refuses (task_group (heap st ! a)) of
         None \<Rightarrow> st' = st\<lparr>m_seq := Suc (m_seq st)\<rparr> \<and> out = [Send_by_group (task_group (heap st ! a))
           \<lparr>seq = new_seq (m_seq st), packetType = EVENT_SUBSCRIBE, payload = bytes_of_string text\<rparr> a c]
       | Some err \<Rightarrow> fst err \<noteq> 0 \<and> (st', out) = invoke c (Some err) [] (st\<lparr>m_seq := Suc (m_seq st)\<rparr>))"
proof -
  obtain body where g: "sub_generateJson J (task_block (heap st ! a))
      \<lparr>m_id = task_id (heap st ! a), m_group = task_group (heap st ! a), m_params = task_params (heap st ! a)\<rparr> = Inr body"
    using assms by (auto simp: subscribeEvent_task_def Let_def bindE_Inr_iff)
  show ?thesis
  proof (cases "refuses (task_group (heap st ! a))")
    case None
    then show ?thesis using assms g by (simp add: subscribeEvent_task_def event_newSeq_def Let_def)
  next
    case (Some err)
    then show ?thesis using assms g
      by (cases err) (auto simp: subscribeEvent_task_def event_newSeq_def subscribe_response_def Let_def split: if_splits)
  qed
qed

lemma maps_inv_quiet:
  "maps_inv st \<Longrightarrow> m_workingTasks st' = m_workingTasks st \<Longrightarrow> m_suspendTasks st' = m_suspendTasks st \<Longrightarrow>
   m_suspendTasksCount st' = m_suspendTasksCount st \<Longrightarrow> heap st' = heap st \<Longrightarrow> maps_inv st'"
  by (erule maps_inv_intro) simp_all

lemma invoke_simps [simp]:
  "heap (fst (invoke c err s st)) = heap st" "m_workingTasks (fst (invoke c err s st)) = m_workingTasks st"
  "m_suspendTasks (fst (invoke c err s st)) = m_suspendTasks st"
  "m_suspendTasksCount (fst (invoke c err s st)) = m_suspendTasksCount st"
  "m_waitRespTasks (fst (invoke c err s st)) =
     (case c of User_callback _ \<Rightarrow> m_waitRespTasks st | Remove_wait k \<Rightarrow> fst (set_erase k (m_waitRespTasks st)))"
  by (simp_all add: invoke_def removeWaitResp_def case_prod_unfold Let_def split: cont.splits)

section \<open>The client as a transition system\<close>

text \<open>
  A world is the client and the subscription requests whose response has not arrived, each with
  the task and the callback its handler captured. Responses arrive in any order, at most once for
  each request; the other steps are calls of the user, pushed messages, disconnections and the
  timer.
\<close>

record 'cb event_world =
  sub :: "'cb event_sub"
  pending :: "(nat \<times> 'cb cont) list"

definition sends :: "'cb event_effect list \<Rightarrow> (nat \<times> 'cb cont) list" where
  "sends out = List.map_filter (\<lambda>e. case e of Send_by_group _ _ a c \<Rightarrow> Some (a, c) | _ \<Rightarrow> None) out"

definition advance :: "'cb event_sub \<times> 'cb event_effect list \<Rightarrow> 'cb event_world \<Rightarrow> 'cb event_world" where
  "advance r w = \<lparr>sub = fst r, pending = pending w @ sends (snd r)\<rparr>"

inductive event_step :: "jsoncpp \<Rightarrow> (nat \<Rightarrow> string) \<Rightarrow> 'cb event_world \<Rightarrow> 'cb event_world \<Rightarrow> bool"
  for J new_seq where
  Ev_subscribe: "subscribeEvent_params J new_seq refuses g p cb (sub w) = Inr (r, i) \<Longrightarrow> event_step J new_seq w (advance r w)"
| Ev_subscribe_string:
    "subscribeEvent_string J new_seq refuses g s cb (sub w) = Inr (r, i) \<Longrightarrow> event_step J new_seq w (advance r w)"
| Ev_response: "(a, c) \<in> set (pending w) \<Longrightarrow> subscribe_response J a c err msg session (sub w) = Inr r \<Longrightarrow>
    event_step J new_seq w (advance r (w\<lparr>pending := remove1 (a, c) (pending w)\<rparr>))"
| Ev_unsubscribe: "event_step J new_seq w (advance (unsubscribeEvent J new_seq i (sub w)) w)"
| Ev_push: "event_step J new_seq w (advance (onRecvEventSubMessage J body (sub w)) w)"
| Ev_disconnect: "event_step J new_seq w (advance (fst (suspendTasks s (sub w)), []) w)"
| Ev_loop: "doLoop J new_seq refuses ss (sub w) = Inr r \<Longrightarrow> event_step J new_seq w (advance r w)"
| Ev_start: "event_step J new_seq w (advance (event_start (sub w)) w)"
| Ev_stop: "event_step J new_seq w (advance (event_stop b (sub w)) w)"

definition event_world_init :: "'cb event_world" where
  "event_world_init = \<lparr>sub = event_init, pending = []\<rparr>"

definition event_reachable :: "jsoncpp \<Rightarrow> (nat \<Rightarrow> string) \<Rightarrow> 'cb event_world \<Rightarrow> bool" where
  "event_reachable J new_seq w \<longleftrightarrow> (event_step J new_seq)\<^sup>*\<^sup>* event_world_init w"

definition waiting :: "(nat \<times> 'cb cont) list \<Rightarrow> string list" where
  "waiting ps = List.map_filter (\<lambda>(a, c). case c of Remove_wait k \<Rightarrow> Some k | User_callback _ \<Rightarrow> None) ps"

definition pending_ok :: "(nat \<times> 'cb cont) list \<Rightarrow> 'cb event_sub \<Rightarrow> bool" where
  "pending_ok ps st \<longleftrightarrow>
     (\<forall>(a, c) \<in> set ps. a < length (heap st) \<and> (\<forall>k. c = Remove_wait k \<longrightarrow> task_id (heap st ! a) = k))"

definition world_inv :: "'cb event_world \<Rightarrow> bool" where
  "world_inv w \<longleftrightarrow> maps_inv (sub w) \<and> pending_ok (pending w) (sub w) \<and>
     std_set (m_waitRespTasks (sub w)) \<and> distinct (waiting (pending w)) \<and>
     set (waiting (pending w)) = set (m_waitRespTasks (sub w))"

lemma waiting_simps [simp]:
  "waiting [] = []" "waiting (ps @ qs) = waiting ps @ waiting qs"
  "waiting ((a, Remove_wait k) # ps) = k # waiting ps" "waiting ((a, User_callback cb) # ps) = waiting ps"
  by (simp_all add: waiting_def List.map_filter_def)

lemma sends_simps [simp]:
  "sends [] = []" "sends (es @ fs) = sends es @ sends fs" "sends (Send_by_group g m a c # es) = (a, c) # sends es"
  "sends (Service_start # es) = sends es" "sends (Timer_start # es) = sends es" "sends (Timer_stop # es) = sends es"
  "sends (Timer_restart # es) = sends es" "sends (Session_send s m # es) = sends es"
  "sends (Call_callback cb err s # es) = sends es"
  by (simp_all add: sends_def List.map_filter_def)

lemma pending_ok_mono: "pending_ok ps st \<Longrightarrow> heap_le st st' \<Longrightarrow> pending_ok ps st'"
  by (fastforce simp: pending_ok_def heap_le_def)

lemma pending_ok_simps [simp]:
  "pending_ok [] st" "pending_ok (ps @ qs) st \<longleftrightarrow> pending_ok ps st \<and> pending_ok qs st"
  by (auto simp: pending_ok_def)

text \<open>An operation that keeps the invariant of the maps, the objects and the set of awaited responses.\<close>

definition keeps :: "'cb event_sub \<Rightarrow> 'cb event_sub \<Rightarrow> bool" where
  "keeps st st' \<longleftrightarrow> (maps_inv st \<longrightarrow> maps_inv st') \<and> heap_le st st' \<and> m_waitRespTasks st' = m_waitRespTasks st"

lemma advance_keeps:
  assumes "world_inv w" and "keeps (sub w) st'" and "waiting (sends out) = []" and "pending_ok (sends out) st'"
  shows "world_inv (advance (st', out) w)"
  using assms pending_ok_mono [of "pending w" "sub w" st'] by (simp add: world_inv_def keeps_def advance_def)

lemma keeps_refl [simp]: "keeps st st"
  by (simp add: keeps_def)

lemma keeps_quiet:
  "m_workingTasks st' = m_workingTasks st \<Longrightarrow> m_suspendTasks st' = m_suspendTasks st \<Longrightarrow>
   m_suspendTasksCount st' = m_suspendTasksCount st \<Longrightarrow> heap st' = heap st \<Longrightarrow>
   m_waitRespTasks st' = m_waitRespTasks st \<Longrightarrow> keeps st st'"
  using maps_inv_quiet [of st st'] by (simp add: keeps_def heap_le_same)

lemma keeps_trans: "keeps a b \<Longrightarrow> keeps b c \<Longrightarrow> keeps a c"
  unfolding keeps_def using heap_le_trans by (metis (no_types))

lemma keeps_alloc: "keeps st (st\<lparr>m_seq := n, heap := heap st @ [t]\<rparr>)"
proof -
  have "maps_inv st \<Longrightarrow> maps_inv (st\<lparr>m_seq := n, heap := heap st @ [t]\<rparr>)"
    by (erule maps_inv_intro) (simp_all add: nth_append)
  then show ?thesis by (simp add: keeps_def heap_le_def nth_append)
qed

lemma subscribeEvent_params_keeps:
  assumes "subscribeEvent_params J new_seq refuses g p cb st = Inr (r, i)"
  shows "keeps st (fst r) \<and> waiting (sends (snd r)) = [] \<and> pending_ok (sends (snd r)) (fst r)"
proof (cases "verifyParams p")
  case False
  then show ?thesis using assms by (auto simp: subscribeEvent_params_def)
next
  case True
  define t where "t = \<lparr>task_id = new_seq (m_seq st), task_group = g, task_callback = cb, task_session = None,
    task_params = p, task_block = -1\<rparr>"
  define st1 where "st1 = st\<lparr>m_seq := Suc (m_seq st), heap := heap st @ [t]\<rparr>"
  have "subscribeEvent_task J new_seq refuses (length (heap st)) (User_callback cb) st1 = Inr (fst r, snd r)"
    using assms True by (auto simp: subscribeEvent_params_def event_newSeq_def Let_def bindE_Inr_iff st1_def t_def)
  note u = subscribeEvent_task_result [OF this]
  have "keeps st st1" unfolding st1_def by (rule keeps_alloc)
  moreover have "keeps st1 (fst r)" using u by (intro keeps_quiet) (auto simp: invoke_def split: option.splits)
  moreover have "length (heap (fst r)) = Suc (length (heap st))"
    using u by (auto simp: st1_def invoke_def split: option.splits)
  moreover have "sends (snd r) = [] \<or> sends (snd r) = [(length (heap st), User_callback cb)]"
    using u by (auto simp: invoke_def split: option.splits)
  ultimately show ?thesis by (auto simp: pending_ok_def intro: keeps_trans)
qed

lemma subscribeEvent_string_keeps:
  assumes "subscribeEvent_string J new_seq refuses g s cb st = Inr (r, i)"
  shows "keeps st (fst r) \<and> waiting (sends (snd r)) = [] \<and> pending_ok (sends (snd r)) (fst r)"
  using assms subscribeEvent_params_keeps [of J new_seq refuses g _ cb st r i]
  by (auto simp: subscribeEvent_string_def split: prod.splits if_splits)

lemma getTaskAndRemove_keeps: "keeps st (fst (getTaskAndRemove k b st))"
  by (simp add: keeps_def getTaskAndRemove_inv heap_le_same)

lemma unsubscribeEvent_keeps:
  "keeps st (fst (unsubscribeEvent J new_seq i st)) \<and> sends (snd (unsubscribeEvent J new_seq i st)) = []"
proof -
  let ?st = "fst (getTaskAndRemove i True st)"
  have "keeps ?st (fst (unsubscribeEvent J new_seq i st)) \<and> sends (snd (unsubscribeEvent J new_seq i st)) = []"
    by (auto simp: unsubscribeEvent_def event_newSeq_def Let_def case_prod_unfold split: option.splits
        intro!: keeps_quiet)
  then show ?thesis using getTaskAndRemove_keeps keeps_trans by blast
qed

lemma setBlock_keeps: "keeps st (modify a (setCurrentBlockNumber n) st)"
  by (simp add: keeps_def setBlock_inv heap_le_setBlock)

lemma onRecv_keeps:
  "keeps st (fst (onRecvEventSubMessage J body st)) \<and> sends (snd (onRecvEventSubMessage J body st)) = []"
  using getTaskAndRemove_keeps setBlock_keeps
  by (auto simp: onRecvEventSubMessage_def Let_def bindE_Inr_iff split: prod.splits option.splits sum.splits if_splits)

lemma suspendTasks_keeps: "keeps st (fst (suspendTasks s st))" if "maps_inv st"
  using suspendTasks_inv [OF that] by (simp add: keeps_def)

lemma subscribe_response_result:
  assumes "subscribe_response J a c err msg session st = Inr r" and "a < length (heap st)"
  shows "\<exists>st1 err' x. keeps st st1 \<and> r = invoke c err' x st1"
proof -
  let ?st = "fst (addTask a (modify a (setSession session) st))"
  have "heap_le st ?st"
    using heap_le_trans [OF heap_le_setSession heap_le_same, of ?st a session st] by simp
  then have "keeps st ?st" using response_inv [OF _ assms(2)] by (simp add: keeps_def)
  moreover have "\<exists>st1 err' x. (st1 = st \<or> st1 = ?st) \<and> r = invoke c err' x st1"
    using assms(1) by (auto simp: subscribe_response_def Let_def split: prod.splits option.splits if_splits)
  ultimately show ?thesis using keeps_refl by blast
qed

lemma waiting_remove1:
  assumes "(a, c) \<in> set ps" and "distinct (waiting ps)"
  shows "waiting (remove1 (a, c) ps) =
    (case c of Remove_wait k \<Rightarrow> remove1 k (waiting ps) | User_callback _ \<Rightarrow> waiting ps)"
  using assms
proof (induction ps)
  case (Cons p ps)
  have m: "(a, Remove_wait k) \<in> set ps \<Longrightarrow> k \<in> set (waiting ps)" for k
    by (force simp: waiting_def List.map_filter_def)
  obtain b d where p: "p = (b, d)" by (cases p)
  show ?case using Cons m p by (cases d; cases c) auto
qed simp

lemma sends_invoke [simp]: "sends (snd (invoke c err s st)) = []"
  by (simp add: invoke_def split: cont.splits)

lemma waiting_mem: "(a, Remove_wait k) \<in> set ps \<Longrightarrow> k \<in> set (waiting ps)"
  by (force simp: waiting_def List.map_filter_def)

lemma response_world_inv:
  assumes w: "world_inv w" and m: "(a, c) \<in> set (pending w)"
    and r: "subscribe_response J a c err msg session (sub w) = Inr r"
  shows "world_inv (advance r (w\<lparr>pending := remove1 (a, c) (pending w)\<rparr>))"
proof -
  have "a < length (heap (sub w))" using w m by (auto simp: world_inv_def pending_ok_def)
  then obtain st1 err' resp where k: "keeps (sub w) st1" and i: "r = invoke c err' resp st1"
    using subscribe_response_result [OF r] by blast
  have "maps_inv (fst r)" using w k maps_inv_quiet [of st1 "fst r"] by (simp add: world_inv_def keeps_def i)
  moreover have "pending_ok (remove1 (a, c) (pending w)) (fst r)"
  proof -
    have "heap_le (sub w) (fst r)" using k by (simp add: keeps_def heap_le_def i)
    then have "pending_ok (pending w) (fst r)" using w pending_ok_mono unfolding world_inv_def by blast
    then show ?thesis using set_remove1_subset [of "(a, c)" "pending w"] unfolding pending_ok_def by blast
  qed
  moreover have "std_set (m_waitRespTasks (fst r)) \<and>
      set (waiting (remove1 (a, c) (pending w))) = set (m_waitRespTasks (fst r))"
    using w k m waiting_remove1 [OF m] set_erase_std [of "m_waitRespTasks (sub w)"]
    by (cases c) (simp_all add: world_inv_def keeps_def i)
  moreover have "distinct (waiting (remove1 (a, c) (pending w)))"
    using w waiting_remove1 [OF m] by (cases c) (simp_all add: world_inv_def)
  ultimately show ?thesis by (simp add: world_inv_def advance_def i)
qed

lemma addWaitResp_simps:
  "fst (addWaitResp k st) = st\<lparr>m_waitRespTasks := fst (set_insert k (m_waitRespTasks st))\<rparr>"
  "snd (addWaitResp k st) \<longleftrightarrow> k \<notin> set (m_waitRespTasks st)"
  by (simp_all add: addWaitResp_def set_insert_def)

lemma doLoop_tasks_inv:
  assumes "doLoop_tasks J new_seq refuses es st = Inr (st', out)" and "world_inv \<lparr>sub = st, pending = ps\<rparr>"
    and "\<forall>(k, a) \<in> set es. a < length (heap st)"
  shows "world_inv \<lparr>sub = st', pending = ps @ sends out\<rparr> \<and> heap st' = heap st"
  using assms
proof (induction es arbitrary: st ps out)
  case (Cons e es)
  obtain k0 a where e: "e = (k0, a)" by (cases e)
  let ?k = "task_id (heap st ! a)"
  show ?case
  proof (cases "?k \<in> set (m_waitRespTasks st)")
    case True
    then have "fst (addWaitResp ?k st) = st" by (simp add: addWaitResp_simps set_insert_def)
    then show ?thesis using Cons True e by (auto simp: addWaitResp_simps case_prod_unfold Let_def)
  next
    case False
    define st1 where "st1 = fst (addWaitResp ?k st)"
    obtain st2 out1 outs where t: "subscribeEvent_task J new_seq refuses a (Remove_wait ?k) st1 = Inr (st2, out1)"
      and l: "doLoop_tasks J new_seq refuses es st2 = Inr (st', outs)" and o: "out = out1 @ outs"
      using Cons.prems(1) False e
      by (auto simp: addWaitResp_simps st1_def case_prod_unfold Let_def bindE_Inr_iff)
    note u = subscribeEvent_task_result [OF t]
    have q: "m_workingTasks st1 = m_workingTasks st" "m_suspendTasks st1 = m_suspendTasks st" "heap st1 = heap st"
      "m_suspendTasksCount st1 = m_suspendTasksCount st" "m_waitRespTasks st1 = fst (set_insert ?k (m_waitRespTasks st))"
      by (simp_all add: st1_def addWaitResp_simps)
    note ins = set_insert_std [of "m_waitRespTasks st" ?k]
    note del = set_erase_std [of "fst (set_insert ?k (m_waitRespTasks st))" ?k]
    have h: "heap st2 = heap st" and m: "maps_inv st \<Longrightarrow> maps_inv st2"
      using u q maps_inv_quiet [of st st2] by (auto simp: invoke_def removeWaitResp_def Let_def split: option.splits prod.splits)
    have "world_inv \<lparr>sub = st2, pending = ps @ sends out1\<rparr>"
    proof (cases "refuses (task_group (heap st1 ! a))")
      case None
      then have "sends out1 = [(a, Remove_wait ?k)]" "m_waitRespTasks st2 = m_waitRespTasks st1" using u by auto
      then show ?thesis using Cons.prems(2,3) False e h m q(5) ins by (auto simp: world_inv_def pending_ok_def)
    next
      case (Some err)
      then have "sends out1 = []" "m_waitRespTasks st2 = fst (set_erase ?k (m_waitRespTasks st1))"
        using u by (auto simp: invoke_def removeWaitResp_def Let_def split: prod.splits)
      then show ?thesis using Cons.prems(2) False h m q(5) ins del by (auto simp: world_inv_def pending_ok_def)
    qed
    then show ?thesis using Cons.IH [OF l, of "ps @ sends out1"] Cons.prems(3) h o by simp
  qed
qed simp

lemma doLoop_world_inv:
  assumes w: "world_inv w" and d: "doLoop J new_seq refuses ss (sub w) = Inr r"
  shows "world_inv (advance r w)"
proof (cases "m_suspendTasksCount (sub w) \<noteq> 0 \<and> ss \<noteq> []")
  case True
  then obtain st' out where t: "doLoop_tasks J new_seq refuses (m_suspendTasks (sub w)) (sub w) = Inr (st', out)"
    and r: "r = (st', Timer_restart # out)"
    using d by (auto simp: doLoop_def bindE_Inr_iff)
  have i: "maps_inv (sub w)" using w by (simp add: world_inv_def)
  have "\<forall>(k, a) \<in> set (m_suspendTasks (sub w)). a < length (heap (sub w))"
    using maps_invD(2,6) [OF i] umap_find_mem by fast
  moreover have "world_inv \<lparr>sub = sub w, pending = pending w\<rparr>" using w by (simp add: world_inv_def)
  ultimately show ?thesis using doLoop_tasks_inv [OF t] r by (simp add: advance_def)
next
  case False
  then have "r = (sub w, [Timer_restart])" using d by (auto simp: doLoop_def split: if_splits)
  then show ?thesis using w by (simp add: advance_def world_inv_def)
qed

lemma event_step_inv: "event_step J new_seq w w' \<Longrightarrow> world_inv w \<Longrightarrow> world_inv w'"
proof (induction rule: event_step.induct)
  case (Ev_subscribe refuses g p cb w r i)
  then show ?case using subscribeEvent_params_keeps advance_keeps [of w "fst r" "snd r"] by fastforce
next
  case (Ev_subscribe_string refuses g s cb w r i)
  then show ?case using subscribeEvent_string_keeps advance_keeps [of w "fst r" "snd r"] by fastforce
next
  case (Ev_unsubscribe w i)
  then show ?case using unsubscribeEvent_keeps [of "sub w" J new_seq i]
      advance_keeps [of w "fst (unsubscribeEvent J new_seq i (sub w))" "snd (unsubscribeEvent J new_seq i (sub w))"] by simp
next
  case (Ev_push w body)
  then show ?case using onRecv_keeps [of "sub w" J body]
      advance_keeps [of w "fst (onRecvEventSubMessage J body (sub w))" "snd (onRecvEventSubMessage J body (sub w))"] by simp
next
  case (Ev_disconnect w s)
  then show ?case using suspendTasks_keeps [of "sub w" s] advance_keeps [of w _ "[]"] by (simp add: world_inv_def)
next
  case (Ev_start w)
  then show ?case
    using advance_keeps [of w "fst (event_start (sub w))" "snd (event_start (sub w))"]
    by (simp add: event_start_def keeps_quiet split: if_splits)
next
  case (Ev_stop w b)
  then show ?case
    using advance_keeps [of w "fst (event_stop b (sub w))" "snd (event_stop b (sub w))"]
    by (simp add: event_stop_def keeps_quiet split: if_splits)
qed (simp_all add: response_world_inv doLoop_world_inv)

interpretation event_inv: invariant_system "event_step J new_seq" event_world_init world_inv for J new_seq
proof
  show "world_inv event_world_init"
    by (simp add: world_inv_def event_world_init_def event_init_def maps_inv_def umap_find_def)
qed (rule event_step_inv)

end
