(* ===== verification/EventTheorems.thy ===== *)
theory EventTheorems
  imports EventProps
begin

text \<open>
  The properties of event subscription, over the invariants of \<open>EventProps\<close>.
\<close>

section \<open>Suspending and resubscribing\<close>

definition moved :: "string \<Rightarrow> 'cb event_sub \<Rightarrow> (string \<times> nat) list \<Rightarrow> string \<Rightarrow> bool" where
  "moved ep st es k \<longleftrightarrow> (\<exists>a. (k, a) \<in> set es \<and> on_session ep st a)"

lemma moved_Cons: "moved ep st ((k0, a0) # es) k \<longleftrightarrow> k = k0 \<and> on_session ep st a0 \<or> moved ep st es k"
  by (auto simp: moved_def)

lemma suspendTasks_loop_effect:
  assumes "maps_inv st" and "visitable es st"
  shows "umap_find k (m_workingTasks (fst (suspendTasks_loop ep es st n))) =
      (if moved ep st es k then None else umap_find k (m_workingTasks st)) \<and>
    umap_find k (m_suspendTasks (fst (suspendTasks_loop ep es st n))) =
      (if moved ep st es k then umap_find k (m_workingTasks st)
       else umap_find k (m_suspendTasks st)) \<and>
    snd (suspendTasks_loop ep es st n) = n + length (filter (\<lambda>(k, a). on_session ep st a) es)"
  using assms
proof (induction es arbitrary: st n)
  case (Cons e es)
  obtain k0 a0 where e: "e = (k0, a0)" by (cases e)
  note v = visitable_Cons [OF Cons.prems(2) [unfolded e]]
  show ?case
  proof (cases "on_session ep st a0")
    case True
    let ?st = "suspend_one k0 a0 st"
    note s = suspend_one_simps [OF Cons.prems(1) v(1)]
    have f: "umap_find b (m_workingTasks st) = Some c" if "(b, c) \<in> set es" for b c
      using v(2) that by (auto simp: visitable_def)
    have ne: "c \<noteq> a0" if m: "(b, c) \<in> set es" for b c
    proof
      assume "c = a0"
      then have "b = k0" using maps_invD(5) [OF Cons.prems(1) f [OF m]] maps_invD(5) [OF Cons.prems(1) v(1)] by simp
      then show False using v(3) m by force
    qed
    have o: "on_session ep ?st c = on_session ep st c" if "(b, c) \<in> set es" for b c
      using ne [OF that] by (simp add: on_session_def s)
    then have l: "filter (\<lambda>(k, a). on_session ep ?st a) es = filter (\<lambda>(k, a). on_session ep st a) es"
      by (intro filter_cong) auto
    have x: "moved ep ?st es k \<longleftrightarrow> moved ep st es k" using o unfolding moved_def by blast
    have kz: "k = k0 \<Longrightarrow> \<not> moved ep st es k" using v(3) by (force simp: moved_def)
    show ?thesis
      using Cons.IH [OF suspend_one_inv [OF Cons.prems(1) v(1)]
          visitable_suspend_one [OF Cons.prems(2) [unfolded e] Cons.prems(1)], of "n + 1"] True kz v(1)
      unfolding e suspendTasks_loop_Cons moved_Cons x l s
      by (cases "k = k0") (simp_all add: case_prod_unfold)
  next
    case False
    then show ?thesis using Cons.IH [OF Cons.prems(1) v(2), of n] unfolding e suspendTasks_loop_Cons moved_Cons
      by simp
  qed
qed (simp add: moved_def)

definition answers_errors :: "(string \<Rightarrow> (int \<times> string) option) \<Rightarrow> bool" where
  "answers_errors refuses \<longleftrightarrow> (\<forall>g err. refuses g = Some err \<longrightarrow> fst err \<noteq> 0)"

lemma subscribeEvent_task_total:
  assumes "task_block (heap st ! a) < 2 ^ 63 - 1" and "answers_errors refuses"
  shows "\<exists>st' out. subscribeEvent_task J new_seq refuses a c st = Inr (st', out)"
proof -
  obtain m where "resume_block (task_block (heap st ! a)) (task_params (heap st ! a)) = Inr m"
    using assms(1) unfolding resume_block_def by (metis order_less_irrefl)
  moreover have "refuses g \<noteq> Some (0, msg)" for g msg using assms(2) unfolding answers_errors_def by fastforce
  ultimately show ?thesis
    by (auto simp: subscribeEvent_task_def sub_generateJson_def event_newSeq_def subscribe_response_def Let_def
        split: option.splits)
qed

definition served :: "(string \<Rightarrow> (int \<times> string) option) \<Rightarrow> 'cb event_sub \<Rightarrow> nat \<Rightarrow> bool" where
  "served refuses st a \<longleftrightarrow> refuses (task_group (heap st ! a)) = None"

text \<open>One round of the loop: a task that is not awaited is subscribed, and awaited afterwards if its group is served.\<close>

lemma doLoop_round:
  assumes "task_id (heap st ! a) = k" and "k \<notin> set (m_waitRespTasks st)" and "std_set (m_waitRespTasks st)"
    and "task_block (heap st ! a) < 2 ^ 63 - 1" and "answers_errors refuses"
  shows "\<exists>st2 out1. (\<forall>es. doLoop_tasks J new_seq refuses ((k', a) # es) st =
        bindE (doLoop_tasks J new_seq refuses es st2) (\<lambda>(st, outs). Inr (st, out1 @ outs))) \<and>
      heap st2 = heap st \<and> m_suspendTasks st2 = m_suspendTasks st \<and> std_set (m_waitRespTasks st2) \<and>
      set (m_waitRespTasks st2) = set (m_waitRespTasks st) \<union> (if served refuses st a then {k} else {}) \<and>
      sends out1 = (if served refuses st a then [(a, Remove_wait k)] else [])"
proof -
  define st1 where "st1 = fst (addWaitResp k st)"
  have q: "m_suspendTasks st1 = m_suspendTasks st" "heap st1 = heap st"
    "m_waitRespTasks st1 = fst (set_insert k (m_waitRespTasks st))"
    by (simp_all add: st1_def addWaitResp_simps)
  note ins = set_insert_std [OF assms(3), of k]
  note del = set_erase_std [of "fst (set_insert k (m_waitRespTasks st))" k]
  obtain st2 out1 where t: "subscribeEvent_task J new_seq refuses a (Remove_wait k) st1 = Inr (st2, out1)"
    using subscribeEvent_task_total [of st1 a refuses J new_seq "Remove_wait k"] assms(4,5) q(2) by auto
  note u = subscribeEvent_task_result [OF t]
  have "addWaitResp k st = (st1, True)" using assms(2) by (simp add: st1_def prod_eq_iff addWaitResp_simps)
  then have "\<forall>es. doLoop_tasks J new_seq refuses ((k', a) # es) st =
      bindE (doLoop_tasks J new_seq refuses es st2) (\<lambda>(st, outs). Inr (st, out1 @ outs))"
    by (simp add: assms(1) t)
  moreover have "heap st2 = heap st \<and> m_suspendTasks st2 = m_suspendTasks st"
    using u q by (auto simp: invoke_def removeWaitResp_def Let_def split: option.splits prod.splits)
  moreover have "m_waitRespTasks st2 = (if served refuses st a then m_waitRespTasks st1
      else fst (set_erase k (m_waitRespTasks st1))) \<and> sends out1 = (if served refuses st a then [(a, Remove_wait k)] else [])"
    using u q(2) by (auto simp: served_def invoke_def removeWaitResp_def Let_def split: option.splits prod.splits)
  ultimately show ?thesis using q(3) ins del assms(2) by (intro exI [of _ st2] exI [of _ out1]) auto
qed

lemma doLoop_tasks_effect:
  assumes "\<forall>(k, a) \<in> set es. task_id (heap st ! a) = k \<and> task_block (heap st ! a) < 2 ^ 63 - 1"
    and "std_set (m_waitRespTasks st)" and "umap_ok es" and "answers_errors refuses"
  shows "\<exists>st' out. doLoop_tasks J new_seq refuses es st = Inr (st', out) \<and>
    m_suspendTasks st' = m_suspendTasks st \<and>
    set (m_waitRespTasks st') = set (m_waitRespTasks st) \<union> {k. \<exists>a. (k, a) \<in> set es \<and> k \<notin> set (m_waitRespTasks st) \<and> served refuses st a} \<and>
    sends out = map (\<lambda>(k, a). (a, Remove_wait k))
      (filter (\<lambda>(k, a). k \<notin> set (m_waitRespTasks st) \<and> served refuses st a) es)"
  using assms(1-3)
proof (induction es arbitrary: st)
  case (Cons e es)
  obtain k a where e: "e = (k, a)" by (cases e)
  have k: "task_id (heap st ! a) = k" and b: "task_block (heap st ! a) < 2 ^ 63 - 1" using Cons.prems(1) e by auto
  have o: "umap_ok es" and n: "k \<notin> fst ` set es" using Cons.prems(3) e by (auto simp: umap_ok_def)
  show ?case
  proof (cases "k \<in> set (m_waitRespTasks st)")
    case True
    have "addWaitResp k st = (st, False)" using True by (simp add: prod_eq_iff addWaitResp_simps set_insert_def)
    then have "doLoop_tasks J new_seq refuses (e # es) st = doLoop_tasks J new_seq refuses es st" by (simp add: e k)
    then show ?thesis using Cons.IH [OF _ Cons.prems(2) o] Cons.prems(1) True e by auto
  next
    case False
    obtain st2 out1 where t: "\<forall>es. doLoop_tasks J new_seq refuses ((k, a) # es) st =
        bindE (doLoop_tasks J new_seq refuses es st2) (\<lambda>(st, outs). Inr (st, out1 @ outs))"
      and h: "heap st2 = heap st" "m_suspendTasks st2 = m_suspendTasks st"
      and w: "std_set (m_waitRespTasks st2)"
        "set (m_waitRespTasks st2) = set (m_waitRespTasks st) \<union> (if served refuses st a then {k} else {})"
      and s: "sends out1 = (if served refuses st a then [(a, Remove_wait k)] else [])"
      using doLoop_round [OF k False Cons.prems(2) b assms(4), of J new_seq k] by blast
    have v: "served refuses st2 c \<longleftrightarrow> served refuses st c" for c by (simp add: served_def h)
    obtain st' out where l: "doLoop_tasks J new_seq refuses es st2 = Inr (st', out)" "m_suspendTasks st' = m_suspendTasks st2"
      "set (m_waitRespTasks st') = set (m_waitRespTasks st2) \<union>
        {k. \<exists>a. (k, a) \<in> set es \<and> k \<notin> set (m_waitRespTasks st2) \<and> served refuses st a}"
      "sends out = map (\<lambda>(k, a). (a, Remove_wait k))
        (filter (\<lambda>(k, a). k \<notin> set (m_waitRespTasks st2) \<and> served refuses st a) es)"
      using Cons.IH [of st2, OF _ w(1) o] Cons.prems(1) h v by auto
    have f: "filter (\<lambda>(k', a). k' \<notin> set (m_waitRespTasks st2) \<and> served refuses st a) es =
        filter (\<lambda>(k', a). k' \<notin> set (m_waitRespTasks st) \<and> served refuses st a) es"
      using n w(2) by (intro filter_cong) (force split: if_splits)+
    have "doLoop_tasks J new_seq refuses (e # es) st = Inr (st', out1 @ out)" using t l(1) by (simp add: e)
    moreover have "set (m_waitRespTasks st') = set (m_waitRespTasks st) \<union>
        {k. \<exists>a. (k, a) \<in> set (e # es) \<and> k \<notin> set (m_waitRespTasks st) \<and> served refuses st a}"
      using l(3) w(2) n False e by (auto split: if_splits)
    moreover have "sends (out1 @ out) = map (\<lambda>(k, a). (a, Remove_wait k))
        (filter (\<lambda>(k, a). k \<notin> set (m_waitRespTasks st) \<and> served refuses st a) (e # es))"
      using l(4) f s False e by simp
    ultimately show ?thesis using l(2) h by auto
  qed
qed simp

section \<open>Block numbers\<close>

lemma event_step_heap_le: "event_step J new_seq w w' \<Longrightarrow> world_inv w \<Longrightarrow> heap_le (sub w) (sub w')"
proof (induction rule: event_step.induct)
  case (Ev_subscribe refuses g p cb w r i)
  then show ?case using subscribeEvent_params_keeps by (fastforce simp: keeps_def advance_def)
next
  case (Ev_subscribe_string refuses g s cb w r i)
  then show ?case using subscribeEvent_string_keeps by (fastforce simp: keeps_def advance_def)
next
  case (Ev_response a c w err msg session r)
  then have "a < length (heap (sub w))" by (auto simp: world_inv_def pending_ok_def)
  then obtain st1 err' x where "keeps (sub w) st1" and "r = invoke c err' x st1"
    using subscribe_response_result [OF Ev_response(2)] by blast
  then show ?case by (simp add: advance_def keeps_def heap_le_def)
next
  case (Ev_unsubscribe w i)
  then show ?case using unsubscribeEvent_keeps by (fastforce simp: keeps_def advance_def)
next
  case (Ev_push w body)
  then show ?case using onRecv_keeps by (fastforce simp: keeps_def advance_def)
next
  case (Ev_disconnect w s)
  then show ?case using suspendTasks_inv [of "sub w" s] by (simp add: world_inv_def advance_def)
next
  case (Ev_loop refuses ss w r)
  show ?case
  proof (cases "m_suspendTasksCount (sub w) \<noteq> 0 \<and> ss \<noteq> []")
    case True
    then obtain st' out where t: "doLoop_tasks J new_seq refuses (m_suspendTasks (sub w)) (sub w) = Inr (st', out)"
      and r: "r = (st', Timer_restart # out)" using Ev_loop(1) by (auto simp: doLoop_def bindE_Inr_iff)
    have i: "maps_inv (sub w)" using Ev_loop(2) by (simp add: world_inv_def)
    have "\<forall>(k, a) \<in> set (m_suspendTasks (sub w)). a < length (heap (sub w))"
      using maps_invD(2,6) [OF i] umap_find_mem by fast
    then have "heap st' = heap (sub w)"
      using doLoop_tasks_inv [OF t, of "pending w"] Ev_loop(2) by (simp add: world_inv_def)
    then show ?thesis by (simp add: advance_def r heap_le_same)
  next
    case False
    then have "r = (sub w, [Timer_restart])" using Ev_loop(1) by (auto simp: doLoop_def split: if_splits)
    then show ?thesis by (simp add: advance_def)
  qed
qed (simp_all add: advance_def event_start_def event_stop_def heap_le_same)

lemma event_steps_heap_le:
  assumes "(event_step J new_seq)\<^sup>*\<^sup>* w w'" and "world_inv w"
  shows "heap_le (sub w) (sub w')"
  using assms
proof (induction rule: rtranclp_induct)
  case (step w1 w2)
  then have "world_inv w1" using event_inv.inv_star [OF step(1)] by simp
  then show ?case using step event_step_heap_le heap_le_trans by blast
qed simp

lemma reachable_inv: "event_reachable J new_seq w \<Longrightarrow> world_inv w"
  unfolding event_reachable_def by (rule event_inv.inv_reachable)

section \<open>Concrete messages\<close>

definition ok_response :: "string \<Rightarrow> json" where
  "ok_response i = jobject [(''id'', JString i), (''status'', JInt 0)]"

lemma resp_fromJson_written:
  assumes "jsoncpp_ok J" and "json_parse J s = Some (jobject ((''id'', JString i) # (''status'', JInt st) # rest))"
    and "distinct (map fst ((''id'', JString i) # (''status'', JInt st) # rest))" and "int32_range st"
  shows "resp_fromJson J s r =
    (True, \<lparr>resp_id = i, resp_status = st, resp_jResp = jobject ((''id'', JString i) # (''status'', JInt st) # rest)\<rparr>)"
  using assms by (simp add: resp_fromJson_def require_jobject)

lemma int32_range_0 [simp]: "int32_range 0"
  by (simp add: int32_range_def)

section \<open>Properties\<close>

text \<open>Claim C5. In every reachable state no task is both working and suspended, the atomic counter is the
  number of suspended tasks (in 32 bits), every map entry points to a task with the entry's
  identifier, and suspended tasks hold no session.\<close>
theorem event_task_maps:
  assumes "event_reachable J new_seq w"
  shows "fst ` set (m_workingTasks (sub w)) \<inter> fst ` set (m_suspendTasks (sub w)) = {} \<and>
    m_suspendTasksCount (sub w) = word_of_nat (length (m_suspendTasks (sub w))) \<and>
    (\<forall>k a. getTask k True (sub w) = Some a \<longrightarrow> task_id (heap (sub w) ! a) = k) \<and>
    (\<forall>k a. umap_find k (m_suspendTasks (sub w)) = Some a \<longrightarrow> task_session (heap (sub w) ! a) = None)"
proof -
  have i: "maps_inv (sub w)" using reachable_inv [OF assms] by (simp add: world_inv_def)
  have "fst ` set (m_workingTasks (sub w)) \<inter> fst ` set (m_suspendTasks (sub w)) = {}"
    using maps_invD(3) [OF i] umap_find_None by (metis disjoint_iff)
  moreover have "getTask k True (sub w) = Some a \<Longrightarrow> task_id (heap (sub w) ! a) = k" for k a
    using maps_invD(5,6) [OF i, of k a] by (auto simp: getTask_def split: option.splits)
  ultimately show ?thesis using maps_invD(4,6) [OF i] by blast
qed

text \<open>A world with one request on its way.\<close>

definition demo_world :: "nat event_world" where
  "demo_world = (case subscribeEvent_params jsoncpp0 (\<lambda>n. replicate n (CHR ''i'')) (\<lambda>_. None) ''g'' new_params 7 event_init of
     Inr (r, _) \<Rightarrow> advance r event_world_init | Inl _ \<Rightarrow> event_world_init)"

lemma demo_step:
  "\<exists>r. subscribeEvent_params jsoncpp0 (\<lambda>n. replicate n (CHR ''i'')) (\<lambda>_. None) ''g'' new_params 7 (event_init :: nat event_sub) = Inr (r, []) \<and>
     demo_world = advance r event_world_init"
  by (simp add: demo_world_def subscribeEvent_params_def new_params_def verifyParams_def
      EVENT_LOG_TOPICS_MAX_INDEX_def event_newSeq_def event_init_def Let_def subscribeEvent_task_def
      sub_generateJson_def resume_block_def)

lemma demo_reachable: "event_reachable jsoncpp0 (\<lambda>n. replicate n (CHR ''i'')) demo_world"
  using demo_step Ev_subscribe [of jsoncpp0 "\<lambda>n. replicate n (CHR ''i'')" "\<lambda>_. None" "''g''" new_params 7 event_world_init]
  by (force simp: event_reachable_def event_world_init_def)

lemma demo_pending: "pending demo_world = [(0, User_callback 7)]" "length (heap (sub demo_world)) = 1"
  "task_id (heap (sub demo_world) ! 0) = []"
  by (simp_all add: demo_world_def subscribeEvent_params_def new_params_def verifyParams_def
      EVENT_LOG_TOPICS_MAX_INDEX_def event_newSeq_def event_init_def Let_def subscribeEvent_task_def
      sub_generateJson_def resume_block_def advance_def event_world_init_def)

theorem event_task_maps_witness:
  "m_suspendTasksCount (sub demo_world) = word_of_nat (length (m_suspendTasks (sub demo_world)))"
  using event_task_maps [OF demo_reachable] by blast

text \<open>Claim C8. The set of awaited responses is exactly the set of tasks for which a resubscription is on its
  way, and there is at most one for each task, however often the timer fires.\<close>
theorem event_resubscribe_once:
  assumes "event_reachable J new_seq w"
  shows "distinct (waiting (pending w)) \<and> set (waiting (pending w)) = set (m_waitRespTasks (sub w))"
  using reachable_inv [OF assms] by (simp add: world_inv_def)

text \<open>A disconnection moves exactly the working tasks of that session, and those without a session,
  to the suspended map, leaves every other entry of both maps in place, and reports their number.\<close>
lemma event_disconnect_suspends:
  assumes "event_reachable J new_seq w"
  shows "let st = sub w; r = suspendTasks (Some ep) st in
    (\<forall>k. getTask k False (fst r) = (case getTask k False st of
        Some a \<Rightarrow> if on_session ep st a then None else Some a | None \<Rightarrow> None) \<and>
      umap_find k (m_suspendTasks (fst r)) = (case getTask k False st of
        Some a \<Rightarrow> if on_session ep st a then Some a else None | None \<Rightarrow> umap_find k (m_suspendTasks st))) \<and>
    snd r = length (filter (\<lambda>(k, a). on_session ep st a) (m_workingTasks st))"
proof -
  have i: "maps_inv (sub w)" using reachable_inv [OF assms] by (simp add: world_inv_def)
  note l = suspendTasks_loop_effect [OF i visitable_all [OF i], where n = 0 and ep = ep]
  have m: "moved ep (sub w) (m_workingTasks (sub w)) k \<longleftrightarrow>
      (case umap_find k (m_workingTasks (sub w)) of Some a \<Rightarrow> on_session ep (sub w) a | None \<Rightarrow> False)" for k
    using umap_find_mem [OF maps_invD(1) [OF i]] by (auto simp: moved_def split: option.splits)
  have d: "umap_find k (m_workingTasks (sub w)) = Some a \<Longrightarrow> umap_find k (m_suspendTasks (sub w)) = None" for k a
    using maps_invD(3) [OF i, of k] by auto
  have "getTask k False st = umap_find k (m_workingTasks st)" for k and st :: "'a event_sub"
    by (simp add: getTask_def split: option.splits)
  then show ?thesis using l m d by (simp add: suspendTasks_def Let_def split: option.splits)
qed

theorem event_disconnect_suspends_witness: "snd (suspendTasks (Some ''ep'') (sub demo_world)) = 0"
proof -
  have "m_workingTasks (sub demo_world) = []"
    by (simp add: demo_world_def subscribeEvent_params_def new_params_def verifyParams_def
        EVENT_LOG_TOPICS_MAX_INDEX_def event_newSeq_def event_init_def Let_def subscribeEvent_task_def
        sub_generateJson_def resume_block_def advance_def event_world_init_def)
  then show ?thesis using event_disconnect_suspends [OF demo_reachable, of "''ep''"] by (simp add: Let_def)
qed

text \<open>Claim C32. Blocks already reported are not asked for again: once a task has seen block n > 0, every later
  subscription request for it, after any sequence of steps, starts at a block above n; none is sent when the service
  refuses it because no end point serves the group.\<close>
theorem event_resume_after_seen:
  assumes "event_reachable J new_seq w" and "(event_step J new_seq)\<^sup>*\<^sup>* w w'" and "a < length (heap (sub w))"
    and "0 < n" and "n \<le> task_block (heap (sub w) ! a)"
    and "subscribeEvent_task J new_seq refuses a c (sub w') = Inr (st, out)"
  shows "if refuses (task_group (heap (sub w') ! a)) \<noteq> None then sends out = [] else
    \<exists>g m from rest. out = [Send_by_group g m a c] \<and> n < from \<and>
      payload m = bytes_of_string (json_write J (jobject
        [(''id'', JString (task_id (heap (sub w) ! a))), (''group'', JString g),
         (''params'', jobject ((''fromBlock'', JInt from) # rest))]))"
proof -
  have h: "heap_le (sub w) (sub w')" using event_steps_heap_le [OF assms(2) reachable_inv [OF assms(1)]] .
  then have b: "n \<le> task_block (heap (sub w') ! a)" and i: "task_id (heap (sub w') ! a) = task_id (heap (sub w) ! a)"
    using assms(3,5) by (auto simp: heap_le_def intro: order_trans)
  let ?t = "heap (sub w') ! a"
  show ?thesis
  proof (cases "refuses (task_group ?t)")
    case (Some err)
    then have "(st, out) = invoke c (Some err) [] ((sub w')\<lparr>m_seq := Suc (m_seq (sub w'))\<rparr>)"
      using subscribeEvent_task_result [OF assms(6)] by auto
    then have "sends out = []" by (metis sends_invoke snd_conv)
    then show ?thesis using Some by simp
  next
    case None
    then obtain x where g: "sub_generateJson J (task_block ?t)
        \<lparr>m_id = task_id ?t, m_group = task_group ?t, m_params = task_params ?t\<rparr> = Inr x"
      and o: "out = [Send_by_group (task_group ?t)
        \<lparr>seq = new_seq (m_seq (sub w')), packetType = EVENT_SUBSCRIBE, payload = bytes_of_string x\<rparr> a c]"
      using subscribeEvent_task_result [OF assms(6)] by auto
    from g obtain rest where "x = json_write J (jobject [(''id'', JString (task_id ?t)), (''group'', JString (task_group ?t)),
        (''params'', jobject ((''fromBlock'', JInt (task_block ?t + 1)) # rest))])"
      using b assms(4) by (auto simp: sub_generateJson_def resume_block_def bindE_Inr_iff split: if_splits)
    moreover define m where "m = \<lparr>seq = new_seq (m_seq (sub w')), packetType = EVENT_SUBSCRIBE, payload = bytes_of_string x\<rparr>"
    moreover have "payload m = bytes_of_string x" by (simp add: m_def)
    ultimately have "\<exists>g m from rest. out = [Send_by_group g m a c] \<and> n < from \<and>
        payload m = bytes_of_string (json_write J (jobject
          [(''id'', JString (task_id (heap (sub w) ! a))), (''group'', JString g),
           (''params'', jobject ((''fromBlock'', JInt from) # rest))]))"
      unfolding o i [symmetric] using b
      by (intro exI [of _ "task_group ?t"] exI [of _ m] exI [of _ "task_block ?t + 1"] exI [of _ rest] conjI) simp_all
    then show ?thesis using None by simp
  qed
qed

text \<open>A pushed block is seen.\<close>

definition push_message :: "string \<Rightarrow> int \<Rightarrow> json" where
  "push_message i n = jobject [(''id'', JString i), (''status'', JInt 0),
     (''result'', JArray [jobject [(''blockNumber'', JInt n)]])]"

lemma push_message_text:
  assumes "json_text_ok J" and "ascii i" and "int64_range n"
  shows "json_parse J (json_write J (push_message i n)) = Some (push_message i n)"
  using assms(1) by (rule json_text_okD) (use assms(2,3) in \<open>simp add: push_message_def jobject_wf ascii_def int64_range_def\<close>)

lemma push_block_message:
  assumes "jsoncpp_ok J"
  shows "push_block J (push_message i n) = Inr (JInt n)"
proof -
  have m: "json_member J (push_message i n) ''result'' = Inr (JArray [jobject [(''blockNumber'', JInt n)]])"
    unfolding push_message_def by (rule jobject_access(2) [OF assms]) simp_all
  have "json_index J (JArray [jobject [(''blockNumber'', JInt n)]]) 0 = Inr (jobject [(''blockNumber'', JInt n)])"
    using jsoncpp_okD(7) [OF assms, of 0 "[jobject [(''blockNumber'', JInt n)]]"] by simp
  moreover have "json_member J (jobject [(''blockNumber'', JInt n)]) ''blockNumber'' = Inr (JInt n)"
    by (rule jobject_access(2) [OF assms]) simp_all
  ultimately show ?thesis by (simp add: push_block_def m)
qed

text \<open>A pushed event message reaches the callback of the task it names, working or suspended, once and
  unchanged, and raises the task's block number to the message's; a message for an unknown
  identifier is dropped.\<close>
lemma event_push_delivered:
  assumes "jsoncpp_ok J" and "json_text_ok J" and "ascii i" and "int64_range n"
  shows "onRecvEventSubMessage J (bytes_of_string (json_write J (push_message i n))) st =
    (case getTask i True st of None \<Rightarrow> (st, [])
     | Some a \<Rightarrow> (modify a (setCurrentBlockNumber n) st,
         [Call_callback (task_callback (heap st ! a)) None (json_write J (push_message i n))]))"
proof -
  have r: "resp_fromJson J (json_write J (push_message i n)) new_response =
      (True, \<lparr>resp_id = i, resp_status = 0, resp_jResp = push_message i n\<rparr>)"
    using resp_fromJson_written [OF assms(1) push_message_text [OF assms(2-4), unfolded push_message_def], of new_response]
    by (simp add: push_message_def)
  show ?thesis
    using assms(1,4)
    by (simp add: onRecvEventSubMessage_def r Let_def StatusCode_EndOfPush_def StatusCode_Success_def
        push_block_message split: option.splits)
qed

theorem event_push_delivered_witness:
  "onRecvEventSubMessage jsoncpp0 (bytes_of_string (json_write jsoncpp0 (push_message ''i'' 5))) (event_init :: nat event_sub) =
     (event_init, [])"
  using event_push_delivered [OF jsoncpp0_ok jsoncpp0_text_ok, of "''i''" 5 "event_init :: nat event_sub"]
  by (simp add: ascii_def int64_range_def getTask_def event_init_def umap_find_def)

text \<open>The request of the small world is accepted, and block 5 is pushed.\<close>

definition demo_seq :: "nat \<Rightarrow> string" where
  "demo_seq n = replicate n (CHR ''i'')"

definition demo_accepted :: "nat event_world" where
  "demo_accepted = (case subscribe_response jsoncpp0 0 (User_callback 7) None
       (Some (bytes_of_string (json_write jsoncpp0 (ok_response [])))) (Some ''ep'') (sub demo_world) of
     Inr r \<Rightarrow> advance r (demo_world\<lparr>pending := []\<rparr>) | Inl _ \<Rightarrow> demo_world)"

definition demo_pushed :: "nat event_world" where
  "demo_pushed = advance (onRecvEventSubMessage jsoncpp0
     (bytes_of_string (json_write jsoncpp0 (push_message [] 5))) (sub demo_accepted)) demo_accepted"

lemma demo_sub: "sub demo_world = \<lparr>m_running = False, m_suspendTasksCount = 0, m_workingTasks = [], m_suspendTasks = [],
    m_waitRespTasks = [], heap = [\<lparr>task_id = [], task_group = ''g'', task_callback = 7, task_session = None,
      task_params = new_params, task_block = -1\<rparr>], m_seq = 2\<rparr>"
  by (simp add: demo_world_def subscribeEvent_params_def new_params_def verifyParams_def
      EVENT_LOG_TOPICS_MAX_INDEX_def event_newSeq_def event_init_def Let_def subscribeEvent_task_def
      sub_generateJson_def resume_block_def advance_def event_world_init_def)

lemma ok_response_read:
  "resp_fromJson jsoncpp0 (json_write jsoncpp0 (ok_response i)) r =
     (True, \<lparr>resp_id = i, resp_status = 0, resp_jResp = ok_response i\<rparr>)"
  using resp_fromJson_written [OF jsoncpp0_ok, of _ i 0 "[]"] by (simp add: ok_response_def)

lemma demo_response:
  "\<exists>r. subscribe_response jsoncpp0 0 (User_callback 7) None
       (Some (bytes_of_string (json_write jsoncpp0 (ok_response [])))) (Some ''ep'') (sub demo_world) = Inr r \<and>
     demo_accepted = advance r (demo_world\<lparr>pending := []\<rparr>)"
  by (simp add: demo_accepted_def subscribe_response_def ok_response_read Let_def StatusCode_Success_def invoke_def)

lemma demo_pushed_reachable: "event_reachable jsoncpp0 demo_seq demo_pushed"
proof -
  have q: "demo_seq = (\<lambda>n. replicate n (CHR ''i''))" by (simp add: fun_eq_iff demo_seq_def)
  obtain r where r: "subscribe_response jsoncpp0 0 (User_callback 7) None
      (Some (bytes_of_string (json_write jsoncpp0 (ok_response [])))) (Some ''ep'') (sub demo_world) = Inr r"
    and d: "demo_accepted = advance r (demo_world\<lparr>pending := []\<rparr>)"
    using demo_response by blast
  have "event_step jsoncpp0 demo_seq demo_world demo_accepted"
    using Ev_response [OF _ r, of demo_seq] d demo_pending(1) by simp
  moreover have "event_step jsoncpp0 demo_seq demo_accepted demo_pushed"
    unfolding demo_pushed_def by (rule Ev_push)
  ultimately show ?thesis
    using demo_reachable unfolding event_reachable_def q by (meson rtranclp.rtrancl_into_rtrancl)
qed

lemma demo_pushed_sub: "sub demo_pushed = \<lparr>m_running = False, m_suspendTasksCount = 0, m_workingTasks = [([], 0)],
    m_suspendTasks = [], m_waitRespTasks = [], heap = [\<lparr>task_id = [], task_group = ''g'', task_callback = 7,
      task_session = Some ''ep'', task_params = new_params, task_block = 5\<rparr>], m_seq = 2\<rparr>"
proof -
  have p: "json_parse jsoncpp0 (json_write jsoncpp0 (push_message [] 5)) = Some (push_message [] 5)" by simp
  have r: "resp_fromJson jsoncpp0 (json_write jsoncpp0 (push_message [] 5)) new_response =
      (True, \<lparr>resp_id = [], resp_status = 0, resp_jResp = push_message [] 5\<rparr>)"
    using resp_fromJson_written [OF jsoncpp0_ok p [unfolded push_message_def], of new_response]
    by (simp add: push_message_def)
  have i: "int64_range 5" by (simp add: int64_range_def)
  show ?thesis
    by (simp add: demo_pushed_def demo_accepted_def subscribe_response_def ok_response_read Let_def demo_sub
        addTask_def modify_def setSession_def removeSuspendTask_def umap_find_def umap_set_def invoke_def
        advance_def onRecvEventSubMessage_def r StatusCode_Success_def StatusCode_EndOfPush_def getTask_def
        push_block_message i setCurrentBlockNumber_def)
qed

lemma demo_pushed_block: "heap (sub demo_pushed) = [\<lparr>task_id = [], task_group = ''g'', task_callback = 7,
    task_session = Some ''ep'', task_params = new_params, task_block = 5\<rparr>]"
  by (simp add: demo_pushed_sub)

theorem event_resume_after_seen_witness:
  "\<exists>st g m from rest. subscribeEvent_task jsoncpp0 demo_seq (\<lambda>_. None) 0 (Remove_wait []) (sub demo_pushed) =
       Inr (st, [Send_by_group g m 0 (Remove_wait [])]) \<and> 5 < from \<and>
     payload m = bytes_of_string (json_write jsoncpp0 (jobject
       [(''id'', JString []), (''group'', JString g), (''params'', jobject ((''fromBlock'', JInt from) # rest))]))"
proof -
  obtain st out where s: "subscribeEvent_task jsoncpp0 demo_seq (\<lambda>_. None) 0 (Remove_wait []) (sub demo_pushed) = Inr (st, out)"
    using subscribeEvent_task_total [of "sub demo_pushed" 0 "\<lambda>_. None"] demo_pushed_block
    by (fastforce simp: answers_errors_def)
  show ?thesis
    using event_resume_after_seen [OF demo_pushed_reachable rtranclp.rtrancl_refl _ _ _ s, of 5] s demo_pushed_block
    by auto
qed

text \<open>Claim C33. Whenever the timer fires with a session available, one subscription request is sent for each
  suspended task that is not already awaiting a response and whose group is served by some end point, in the order of
  the map; afterwards those tasks are awaited besides the ones awaited before, and the tasks whose request the service
  refuses are not, so that the next firing tries them again: no task leaves the map. (A block number of 2^63 - 1 is
  excluded: there the computation of the next block overflows.)\<close>
theorem event_loop_resubscribes:
  assumes "event_reachable J new_seq w" and "ss \<noteq> []" and "length (m_suspendTasks (sub w)) < 2 ^ 32"
    and "\<forall>t \<in> set (heap (sub w)). task_block t < 2 ^ 63 - 1"
    and "\<forall>g err. refuses g = Some err \<longrightarrow> fst err \<noteq> 0"
  shows "let asked = filter (\<lambda>(k, a). k \<notin> set (m_waitRespTasks (sub w)) \<and> refuses (task_group (heap (sub w) ! a)) = None)
      (m_suspendTasks (sub w))
    in \<exists>st' out. doLoop J new_seq refuses ss (sub w) = Inr (st', out) \<and>
      sends out = map (\<lambda>(k, a). (a, Remove_wait k)) asked \<and>
      set (m_waitRespTasks st') = set (m_waitRespTasks (sub w)) \<union> fst ` set asked \<and>
      m_suspendTasks st' = m_suspendTasks (sub w)"
proof (cases "m_suspendTasks (sub w) = []")
  case True
  then have "m_suspendTasksCount (sub w) = 0"
    using reachable_inv [OF assms(1)] maps_invD(4) [of "sub w"] by (simp add: world_inv_def)
  then show ?thesis using True by (simp add: doLoop_def)
next
  case False
  have i: "maps_inv (sub w)" and s: "std_set (m_waitRespTasks (sub w))"
    using reachable_inv [OF assms(1)] by (simp_all add: world_inv_def)
  have "unat (m_suspendTasksCount (sub w)) = length (m_suspendTasks (sub w))"
    using maps_invD(4) [OF i] assms(3) by (simp add: unat_word_of_nat_id)
  then have c: "m_suspendTasksCount (sub w) \<noteq> 0" using False by auto
  have "task_id (heap (sub w) ! a) = k \<and> task_block (heap (sub w) ! a) < 2 ^ 63 - 1"
    if "(k, a) \<in> set (m_suspendTasks (sub w))" for k a
  proof -
    have "umap_find k (m_suspendTasks (sub w)) = Some a" using that umap_find_mem [OF maps_invD(2) [OF i]] by simp
    from maps_invD(6) [OF i this] show ?thesis using assms(4) nth_mem by blast
  qed
  then have "\<forall>(k, a) \<in> set (m_suspendTasks (sub w)).
      task_id (heap (sub w) ! a) = k \<and> task_block (heap (sub w) ! a) < 2 ^ 63 - 1" by blast
  from doLoop_tasks_effect [OF this s maps_invD(2) [OF i], of refuses J new_seq]
  obtain st' out where t: "doLoop_tasks J new_seq refuses (m_suspendTasks (sub w)) (sub w) = Inr (st', out)"
    and e: "m_suspendTasks st' = m_suspendTasks (sub w)"
      "set (m_waitRespTasks st') = set (m_waitRespTasks (sub w)) \<union>
        {k. \<exists>a. (k, a) \<in> set (m_suspendTasks (sub w)) \<and> k \<notin> set (m_waitRespTasks (sub w)) \<and> served refuses (sub w) a}"
      "sends out = map (\<lambda>(k, a). (a, Remove_wait k))
        (filter (\<lambda>(k, a). k \<notin> set (m_waitRespTasks (sub w)) \<and> served refuses (sub w) a) (m_suspendTasks (sub w)))"
    using assms(5) unfolding answers_errors_def by blast
  have "doLoop J new_seq refuses ss (sub w) = Inr (st', Timer_restart # out)" using c assms(2) t by (simp add: doLoop_def)
  moreover have "{k. \<exists>a. (k, a) \<in> set (m_suspendTasks (sub w)) \<and> k \<notin> set (m_waitRespTasks (sub w)) \<and> served refuses (sub w) a} =
      fst ` set (filter (\<lambda>(k, a). k \<notin> set (m_waitRespTasks (sub w)) \<and> refuses (task_group (heap (sub w) ! a)) = None)
        (m_suspendTasks (sub w)))"
    by (force simp: served_def)
  ultimately show ?thesis using e by (auto simp: Let_def served_def)
qed

text \<open>The session of the accepted task of the small world ends. Then the timer fires, once while an end point serves its
  group and once while none does.\<close>

definition demo_suspended :: "nat event_world" where
  "demo_suspended = advance (fst (suspendTasks (Some ''ep'') (sub demo_pushed)), []) demo_pushed"

lemma demo_suspended_reachable: "event_reachable jsoncpp0 demo_seq demo_suspended"
  using demo_pushed_reachable Ev_disconnect [of jsoncpp0 demo_seq demo_pushed "Some ''ep''"]
  unfolding event_reachable_def demo_suspended_def by (rule rtranclp.rtrancl_into_rtrancl)

lemma demo_suspended_sub: "sub demo_suspended = \<lparr>m_running = False, m_suspendTasksCount = 1, m_workingTasks = [],
    m_suspendTasks = [([], 0)], m_waitRespTasks = [], heap = [\<lparr>task_id = [], task_group = ''g'', task_callback = 7,
      task_session = None, task_params = new_params, task_block = 5\<rparr>], m_seq = 2\<rparr>"
  by (simp add: demo_suspended_def demo_pushed_sub advance_def suspendTasks_def modify_def setSession_def addSuspendTask_def
      umap_find_def umap_set_def umap_erase_def Let_def)

theorem event_loop_resubscribes_witness:
  "(\<exists>st' out. doLoop jsoncpp0 demo_seq (\<lambda>_. None) [''ep''] (sub demo_suspended) = Inr (st', out) \<and>
      sends out = [(0, Remove_wait [])] \<and> set (m_waitRespTasks st') = {[]}) \<and>
   (\<exists>st' out. doLoop jsoncpp0 demo_seq (\<lambda>_. Some (1, ''no end point'')) [''ep''] (sub demo_suspended) = Inr (st', out) \<and>
      sends out = [] \<and> set (m_waitRespTasks st') = {} \<and> m_suspendTasks st' = [([], 0)])"
  using event_loop_resubscribes [OF demo_suspended_reachable, of "[''ep'']" "\<lambda>_. None"]
    event_loop_resubscribes [OF demo_suspended_reachable, of "[''ep'']" "\<lambda>_. Some (1, ''no end point'')"]
  by (auto simp: demo_suspended_sub Let_def)

definition demo_resubscribed :: "nat event_world" where
  "demo_resubscribed = (case doLoop jsoncpp0 demo_seq (\<lambda>_. None) [''ep''] (sub demo_suspended) of
     Inr r \<Rightarrow> advance r demo_suspended | Inl _ \<Rightarrow> demo_suspended)"

theorem event_resubscribe_once_witness:
  "set (waiting (pending demo_resubscribed)) = set (m_waitRespTasks (sub demo_resubscribed)) \<and>
   m_waitRespTasks (sub demo_resubscribed) = [[]]"
proof -
  obtain r where r: "doLoop jsoncpp0 demo_seq (\<lambda>_. None) [''ep''] (sub demo_suspended) = Inr r"
      "m_waitRespTasks (fst r) = [[]]"
    by (simp add: demo_suspended_sub doLoop_def addWaitResp_def set_insert_def subscribeEvent_task_def event_newSeq_def
        sub_generateJson_def resume_block_def Let_def)
  then have "event_reachable jsoncpp0 demo_seq demo_resubscribed"
    using demo_suspended_reachable Ev_loop [OF r(1)] unfolding event_reachable_def demo_resubscribed_def
    by (simp add: rtranclp.rtrancl_into_rtrancl)
  from event_resubscribe_once [OF this] show ?thesis using r by (simp add: demo_resubscribed_def advance_def)
qed

text \<open>Unsubscribing does not cancel a subscription request that is on its way: when the node accepts
  it afterwards, the task becomes a working task again.\<close>
lemma event_unsubscribe_race:
  assumes "event_reachable J new_seq w" and "(a, c) \<in> set (pending w)"
    and "resp_fromJson J (string_of_bytes body) new_response = (True, r)" and "resp_status r = StatusCode_Success"
  shows "let i = task_id (heap (sub w) ! a); st1 = fst (unsubscribeEvent J new_seq i (sub w)) in
    getTask i True st1 = None \<and>
    (\<exists>st2 out. subscribe_response J a c None (Some body) s st1 = Inr (st2, out) \<and>
      umap_find i (m_workingTasks st2) = Some a)"
proof -
  let ?i = "task_id (heap (sub w) ! a)"
  let ?st1 = "fst (unsubscribeEvent J new_seq ?i (sub w))"
  let ?st2 = "fst (addTask a (modify a (setSession s) ?st1))"
  have i: "maps_inv (sub w)" and a: "a < length (heap (sub w))"
    using reachable_inv [OF assms(1)] assms(2) by (auto simp: world_inv_def pending_ok_def)
  have u: "heap ?st1 = heap (sub w)" "m_workingTasks ?st1 = m_workingTasks (fst (getTaskAndRemove ?i True (sub w)))"
    "m_suspendTasks ?st1 = m_suspendTasks (fst (getTaskAndRemove ?i True (sub w)))"
    by (auto simp: unsubscribeEvent_def event_newSeq_def Let_def case_prod_unfold split: option.splits)
  have g: "umap_find ?i (m_workingTasks ?st1) = None" "umap_find ?i (m_suspendTasks ?st1) = None"
    unfolding u using maps_invD(3) [OF i, of ?i] by (auto simp: getTaskAndRemove_def split: option.splits)
  have "task_id (heap (modify a (setSession s) ?st1) ! a) = ?i" using a u(1) by (simp add: setSession_def)
  then have "umap_find ?i (m_workingTasks ?st2) = Some a" using g by simp
  moreover have "subscribe_response J a c None (Some body) s ?st1 = Inr (invoke c None (string_of_bytes body) ?st2)"
    using assms(3,4) by (simp add: subscribe_response_def Let_def)
  moreover have "getTask ?i True ?st1 = None" using g by (simp add: getTask_def)
  ultimately show ?thesis unfolding Let_def
    by (intro conjI exI [of _ "fst (invoke c None (string_of_bytes body) ?st2)"]
        exI [of _ "snd (invoke c None (string_of_bytes body) ?st2)"]) simp_all
qed

theorem event_unsubscribe_race_witness:
  "\<exists>st2 out. subscribe_response jsoncpp0 0 (User_callback 7) None
       (Some (bytes_of_string (json_write jsoncpp0 (ok_response [])))) (Some ''ep'')
       (fst (unsubscribeEvent jsoncpp0 (\<lambda>n. replicate n (CHR ''i'')) [] (sub demo_world))) = Inr (st2, out) \<and>
     umap_find [] (m_workingTasks st2) = Some 0"
proof -
  show ?thesis
    using event_unsubscribe_race [OF demo_reachable, of 0 "User_callback 7"
        "bytes_of_string (json_write jsoncpp0 (ok_response []))" _ "Some ''ep''"] demo_pending
    by (simp add: ok_response_read StatusCode_Success_def Let_def)
qed

text \<open>Claim C19. A subscription request written as JSON is read back with its identifier, its group and its
  parameters, the starting block being the one to resume at; only empty topic sets at the end of
  the topic vector are lost.\<close>
theorem sub_request_roundtrip:
  assumes "jsoncpp_ok J" and "json_text_ok J" and "params_inv (m_params r)" and "params_ascii (m_params r)"
    and "ascii (m_id r)" and "ascii (m_group r)" and "int64_range cur" and "cur < 2 ^ 63 - 1"
  shows "\<exists>s. sub_generateJson J cur r = Inr s \<and>
    sub_fromJson J s r0 = (True, r0\<lparr>m_id := m_id r, m_group := m_group r,
      m_params := (m_params r)\<lparr>m_fromBlock := (if cur > 0 then cur + 1 else m_fromBlock (m_params r)),
        m_topics := drop_trailing (m_topics (m_params r))\<rparr>\<rparr>)"
proof -
  let ?p = "m_params r" and ?f = "if cur > 0 then cur + 1 else m_fromBlock (m_params r)"
  define jp where "jp = jobject [(''fromBlock'', JInt ?f), (''toBlock'', JInt (m_toBlock ?p)),
    (''addresses'', JArray (map JString (m_addresses ?p))), (''topics'', topics_toJson (m_topics ?p))]"
  define j where "j = jobject [(''id'', JString (m_id r)), (''group'', JString (m_group r)), (''params'', jp)]"
  have f: "int64_range ?f" using assms(3,7,8) by (auto simp: params_inv_def int64_range_def)
  have "json_wf jp" unfolding jp_def jobject_wf using assms(3,4) f topic_entries_wf
    by (simp add: params_inv_def params_ascii_def list_all_iff)
  then have "json_wf j" unfolding j_def jobject_wf using assms(5,6) by simp
  then have t: "json_parse J (json_write J j) = Some j" by (rule json_text_okD [OF assms(2)])
  have "sub_generateJson J cur r = Inr (json_write J j)"
    using assms(8) by (simp add: sub_generateJson_def resume_block_def j_def jp_def)
  moreover have "params_fromJson J jp new_params =
      (Inr (), ?p\<lparr>m_fromBlock := ?f, m_topics := drop_trailing (m_topics ?p)\<rparr>)"
    unfolding jp_def using assms(3) f by (subst read_params [OF assms(1)]) (auto simp: params_inv_def)
  ultimately show ?thesis using t assms(1)
    by (auto simp: sub_fromJson_def j_def require_jobject [OF assms(1)])
qed

theorem sub_request_roundtrip_witness:
  "let r = \<lparr>m_id = ''i'', m_group = ''g'', m_params = new_params\<lparr>m_topics := [[''a'']]\<rparr>\<rparr> in
   \<exists>s. sub_generateJson jsoncpp0 9 r = Inr s \<and>
     sub_fromJson jsoncpp0 s r = (True, r\<lparr>m_params := (m_params r)\<lparr>m_fromBlock := 10\<rparr>\<rparr>)"
  using sub_request_roundtrip [OF jsoncpp0_ok jsoncpp0_text_ok,
      of "\<lparr>m_id = ''i'', m_group = ''g'', m_params = new_params\<lparr>m_topics := [[''a'']]\<rparr>\<rparr>" 9
         "\<lparr>m_id = ''i'', m_group = ''g'', m_params = new_params\<lparr>m_topics := [[''a'']]\<rparr>\<rparr>"]
  by (simp add: params_inv_def params_ascii_def new_params_def ascii_def int64_range_def std_set_def
      drop_trailing_def Let_def)

text \<open>Adding a topic at an index keeps the sets below it, extends the set at the index, and throws away
  every set stored above it: topics have to be added in the order of their indices.\<close>
lemma addTopic_truncates:
  "length (m_topics (fst (addTopic i t p))) = i + 1 \<and>
   take i (m_topics (fst (addTopic i t p))) = resize i (m_topics p) \<and>
   m_topics (fst (addTopic i t p)) ! i =
     fst (set_insert t (if i < length (m_topics p) then m_topics p ! i else []))"
proof -
  let ?ts = "resize (i + 1) (m_topics p)"
  have l: "length ?ts = i + 1" by (simp add: resize_def)
  have "?ts ! i = (if i < length (m_topics p) then m_topics p ! i else [])"
    by (auto simp: resize_def nth_append)
  moreover have "take i ?ts = resize i (m_topics p)" by (simp add: resize_def min_def)
  ultimately show ?thesis using l by (simp add: addTopic_def Let_def)
qed

end
