(* ===== verification/RateLimiter.thy ===== *)
theory RateLimiter
  imports Prelude
begin

text \<open>
  The time window rate limiter (\<open>utilities/TimeWindowRateLimiter.h\<close>, \<open>.cpp\<close>) and the
  counters of the rate reporter (\<open>utilities/RateReporter.h\<close>), on 64 and 32 bit words as in
  the code. The steady clock is an argument: \<open>tryAcquire now\<close> is a call whose reading of the
  clock is \<open>now\<close>. Permits are \<open>int64_t\<close>, here an \<open>int\<close>.
\<close>

section \<open>The limiter\<close>

record rate_limiter =
  m_maxPermitsSize :: u64
  m_allowExceedMaxPermitSize :: bool
  m_currentPermitsSize :: u64
  m_timeWindowMS :: u64
  m_lastPermitsUpdateTime :: u64

definition new_limiter :: "u64 \<Rightarrow> u64 \<Rightarrow> bool \<Rightarrow> u64 \<Rightarrow> rate_limiter" where
  "new_limiter maxPermits timeWindow allowExceed now =
     \<lparr>m_maxPermitsSize = maxPermits, m_allowExceedMaxPermitSize = allowExceed,
      m_currentPermitsSize = maxPermits, m_timeWindowMS = timeWindow, m_lastPermitsUpdateTime = now\<rparr>"

text \<open>\<open>std::cmp_greater\<close> and \<open>std::cmp_greater_equal\<close> compare the mathematical values.\<close>

definition reset_window :: "u64 \<Rightarrow> rate_limiter \<Rightarrow> rate_limiter" where
  "reset_window now l =
     (if now - m_lastPermitsUpdateTime l \<ge> m_timeWindowMS l
      then l\<lparr>m_lastPermitsUpdateTime := now, m_currentPermitsSize := m_maxPermitsSize l\<rparr> else l)"

definition tryAcquire :: "u64 \<Rightarrow> int \<Rightarrow> rate_limiter \<Rightarrow> rate_limiter \<times> bool" where
  "tryAcquire now requiredPermits l =
     (if requiredPermits > uint (m_maxPermitsSize l)
      then (l, m_allowExceedMaxPermitSize l)
      else
        let l = reset_window now l in
        if uint (m_currentPermitsSize l) \<ge> requiredPermits
        then (l\<lparr>m_currentPermitsSize := m_currentPermitsSize l - word_of_int requiredPermits\<rparr>, True)
        else (l, False))"

definition rollback :: "int \<Rightarrow> rate_limiter \<Rightarrow> rate_limiter" where
  "rollback requiredPermits l =
     (let l = l\<lparr>m_currentPermitsSize := m_currentPermitsSize l + word_of_int requiredPermits\<rparr> in
      if m_currentPermitsSize l > m_maxPermitsSize l
      then l\<lparr>m_currentPermitsSize := m_maxPermitsSize l\<rparr> else l)"

text \<open>
  The waiting loop of \<open>acquire\<close>. Its \<open>i\<close>-th round reads the clock twice, in
  \<open>tryAcquire\<close> and before sleeping: \<open>clock (2 * i)\<close> and \<open>clock (2 * i + 1)\<close>. The
  result carries the times slept. The loop has no bound of its own, so it runs on fuel.
\<close>

definition sleep_time :: "u64 \<Rightarrow> rate_limiter \<Rightarrow> u64" where
  "sleep_time now l =
     (let tempTimeMS = now - m_lastPermitsUpdateTime l in
      if tempTimeMS > 0 \<and> tempTimeMS < m_timeWindowMS l then m_timeWindowMS l - tempTimeMS else 1)"

fun acquire_loop :: "nat \<Rightarrow> (nat \<Rightarrow> u64) \<Rightarrow> nat \<Rightarrow> int \<Rightarrow> rate_limiter \<Rightarrow> (rate_limiter \<times> bool \<times> u64 list) option" where
  "acquire_loop 0 clock i r l = None"
| "acquire_loop (Suc fuel) clock i r l =
     (let (l, ok) = tryAcquire (clock (2 * i)) r l in
      if ok then Some (l, True, [])
      else
        let sleepMS = sleep_time (clock (2 * i + 1)) l in
        (case acquire_loop fuel clock (i + 1) r l of
           None \<Rightarrow> None | Some (l, b, ss) \<Rightarrow> Some (l, b, sleepMS # ss)))"

definition acquire :: "nat \<Rightarrow> (nat \<Rightarrow> u64) \<Rightarrow> int \<Rightarrow> rate_limiter \<Rightarrow> (rate_limiter \<times> bool \<times> u64 list) option" where
  "acquire fuel clock requiredPermits l =
     (if requiredPermits > uint (m_maxPermitsSize l)
      then Some (l, m_allowExceedMaxPermitSize l, [])
      else acquire_loop fuel clock 0 requiredPermits l)"

section \<open>Counters\<close>

definition calcAvgQPS :: "u64 \<Rightarrow> u32 \<Rightarrow> u32" where
  "calcAvgQPS requestCount intervalMS =
     (if intervalMS > 0 then ucast (requestCount * 1000 div ucast intervalMS) else 0)"

record reporter_stat =
  totalDataSize :: u64
  totalFailedDataSize :: u64
  lastTotalDataSize :: u64
  lastTotalFailedDataSize :: u64
  totalCount :: u64
  totalFailedCount :: u64
  lastCount :: u64
  lastFailedCount :: u64

definition stat_init :: reporter_stat where
  "stat_init = \<lparr>totalDataSize = 0, totalFailedDataSize = 0, lastTotalDataSize = 0, lastTotalFailedDataSize = 0,
     totalCount = 0, totalFailedCount = 0, lastCount = 0, lastFailedCount = 0\<rparr>"

definition stat_flush :: "reporter_stat \<Rightarrow> reporter_stat" where
  "stat_flush s = s\<lparr>lastCount := 0, lastFailedCount := 0, lastTotalDataSize := 0, lastTotalFailedDataSize := 0\<rparr>"

definition stat_update :: "u64 \<Rightarrow> bool \<Rightarrow> reporter_stat \<Rightarrow> reporter_stat" where
  "stat_update dataSize success s =
     (if success
      then s\<lparr>totalCount := totalCount s + 1, lastCount := lastCount s + 1,
             totalDataSize := totalDataSize s + dataSize, lastTotalDataSize := lastTotalDataSize s + dataSize\<rparr>
      else s\<lparr>totalFailedCount := totalFailedCount s + 1, lastFailedCount := lastFailedCount s + 1,
             totalFailedDataSize := totalFailedDataSize s + dataSize,
             lastTotalFailedDataSize := lastTotalFailedDataSize s + dataSize\<rparr>)"

section \<open>Permits are accounted for\<close>

definition limiter_inv :: "rate_limiter \<Rightarrow> bool" where
  "limiter_inv l \<longleftrightarrow> m_currentPermitsSize l \<le> m_maxPermitsSize l"

lemma sub_permits:
  assumes "0 \<le> r" and "r \<le> uint c"
  shows "uint (c - word_of_int r :: u64) = uint c - r"
proof -
  have "uint c < 2 ^ LENGTH(64)" by (rule uint_lt2p)
  then have u: "uint (word_of_int r :: u64) = r"
    using assms by (simp add: unsigned_of_int take_bit_int_eq_self)
  then show ?thesis using assms(2) uint_sub_lem [of "word_of_int r" c] by simp
qed

lemma window_elapsed:
  assumes "unat upd \<le> unat now"
  shows "(w :: u64) \<le> now - upd \<longleftrightarrow> unat w + unat upd \<le> unat now"
proof -
  have "upd \<le> now" using assms by (simp add: word_le_nat_alt)
  then have "unat (now - upd) = unat now - unat upd" by (rule unat_sub)
  then show ?thesis using assms by (simp add: word_le_nat_alt) arith
qed

lemma reset_window_simps [simp]:
  "m_maxPermitsSize (reset_window now l) = m_maxPermitsSize l"
  "m_timeWindowMS (reset_window now l) = m_timeWindowMS l"
  "m_allowExceedMaxPermitSize (reset_window now l) = m_allowExceedMaxPermitSize l"
  by (simp_all add: reset_window_def)

lemma reset_window_inv: "limiter_inv l \<Longrightarrow> limiter_inv (reset_window now l)"
  by (simp add: limiter_inv_def reset_window_def)

lemma tryAcquire_simps [simp]:
  "m_maxPermitsSize (fst (tryAcquire now r l)) = m_maxPermitsSize l"
  "m_timeWindowMS (fst (tryAcquire now r l)) = m_timeWindowMS l"
  by (simp_all add: tryAcquire_def Let_def)

lemma tryAcquire_current:
  assumes "0 \<le> r" and "r \<le> uint (m_maxPermitsSize l)" and "snd (tryAcquire now r l)"
  shows "uint (m_currentPermitsSize (fst (tryAcquire now r l))) = uint (m_currentPermitsSize (reset_window now l)) - r"
  using assms sub_permits [of r "m_currentPermitsSize (reset_window now l)"]
  by (simp add: tryAcquire_def Let_def split: if_splits)

lemma tryAcquire_inv:
  assumes "limiter_inv l" and "0 \<le> r"
  shows "limiter_inv (fst (tryAcquire now r l))"
  using assms reset_window_inv [OF assms(1), of now] sub_permits [OF assms(2), of "m_currentPermitsSize (reset_window now l)"]
  by (simp add: tryAcquire_def Let_def limiter_inv_def word_le_def)

lemma rollback_inv: "limiter_inv (rollback r l)"
  by (auto simp: rollback_def limiter_inv_def Let_def not_less)

section \<open>Sequences of calls\<close>

text \<open>
  A sequence of calls, each \<open>tryAcquire\<close> with its reading of the clock (a waiting \<open>acquire\<close> makes several of them),
  and the answers: a \<open>rollback\<close> answers nothing.
\<close>

datatype limiter_call = Try u64 int | Give_back int

fun run_calls :: "limiter_call list \<Rightarrow> rate_limiter \<Rightarrow> rate_limiter \<times> bool option list" where
  "run_calls [] l = (l, [])"
| "run_calls (Try now r # calls) l =
     (let (l1, ok) = tryAcquire now r l; (l2, oks) = run_calls calls l1 in (l2, Some ok # oks))"
| "run_calls (Give_back r # calls) l = (let (l2, oks) = run_calls calls (rollback r l) in (l2, None # oks))"

text \<open>The permits of all requests granted less those given back, and the permits of the requests above a maximum.\<close>

fun permits_out :: "limiter_call \<Rightarrow> bool option \<Rightarrow> int" where
  "permits_out (Try now r) answer = (if answer = Some True then r else 0)"
| "permits_out (Give_back r) answer = - r"

fun permits_above :: "int \<Rightarrow> limiter_call \<Rightarrow> int" where
  "permits_above m (Try now r) = (if r > m then r else 0)"
| "permits_above m (Give_back r) = 0"

fun permits_of :: "limiter_call \<Rightarrow> int" where
  "permits_of (Try now r) = r"
| "permits_of (Give_back r) = r"

fun readings :: "limiter_call list \<Rightarrow> u64 list" where
  "readings [] = []"
| "readings (Try now r # calls) = now # readings calls"
| "readings (Give_back r # calls) = readings calls"

definition resets :: "u64 \<Rightarrow> rate_limiter \<Rightarrow> bool" where
  "resets now l \<longleftrightarrow> m_timeWindowMS l \<le> now - m_lastPermitsUpdateTime l"

text \<open>Readings of a clock that does not go back and does not wrap.\<close>

fun clock_from :: "nat \<Rightarrow> u64 list \<Rightarrow> bool" where
  "clock_from t [] \<longleftrightarrow> True"
| "clock_from t (now # ts) \<longleftrightarrow> t \<le> unat now \<and> clock_from (unat now) ts"

definition clock_end :: "nat \<Rightarrow> u64 list \<Rightarrow> nat" where
  "clock_end t ts = (if ts = [] then t else unat (last ts))"

lemma clock_end_Cons [simp]: "clock_end t (now # ts) = clock_end (unat now) ts"
  by (simp add: clock_end_def)

lemma clock_end_ge: "clock_from t ts \<Longrightarrow> t \<le> clock_end t ts"
  by (induction ts arbitrary: t) (auto simp: clock_end_def [of _ "[]"] intro: order_trans)

lemma tryAcquire_step:
  assumes "limiter_inv l" and "0 \<le> r" and "unat (m_lastPermitsUpdateTime l) \<le> t" and "t \<le> unat now"
    and q: "tryAcquire now r l = (l1, ok)"
  shows "limiter_inv l1 \<and> unat (m_lastPermitsUpdateTime l1) \<le> unat now \<and>
    m_maxPermitsSize l1 = m_maxPermitsSize l \<and> m_timeWindowMS l1 = m_timeWindowMS l \<and>
    (if r \<le> uint (m_maxPermitsSize l) \<and> ok then r else 0) + uint (m_currentPermitsSize l1) \<le>
      uint (m_currentPermitsSize l) + (if r \<le> uint (m_maxPermitsSize l) \<and> resets now l then uint (m_maxPermitsSize l) else 0) \<and>
    (if r \<le> uint (m_maxPermitsSize l) \<and> resets now l then unat (m_timeWindowMS l) else 0) +
      unat (m_lastPermitsUpdateTime l) \<le> unat (m_lastPermitsUpdateTime l1)"
proof -
  have k: "m_maxPermitsSize l1 = m_maxPermitsSize l" "m_timeWindowMS l1 = m_timeWindowMS l" "limiter_inv l1"
    using tryAcquire_simps [of now r l] tryAcquire_inv [OF assms(1,2), of now] q by auto
  have l1: "m_lastPermitsUpdateTime l1 =
      (if r \<le> uint (m_maxPermitsSize l) \<and> resets now l then now else m_lastPermitsUpdateTime l)"
    using q by (auto simp: tryAcquire_def Let_def reset_window_def resets_def split: if_splits)
  have w: "resets now l \<longleftrightarrow> unat (m_timeWindowMS l) + unat (m_lastPermitsUpdateTime l) \<le> unat now"
    unfolding resets_def using assms(3,4) by (intro window_elapsed) simp
  have "(if r \<le> uint (m_maxPermitsSize l) \<and> ok then r else 0) + uint (m_currentPermitsSize l1) \<le>
      uint (m_currentPermitsSize l) + (if r \<le> uint (m_maxPermitsSize l) \<and> resets now l then uint (m_maxPermitsSize l) else 0)"
  proof (cases "r \<le> uint (m_maxPermitsSize l)")
    case True
    have "uint (m_currentPermitsSize (reset_window now l)) \<le>
        uint (m_currentPermitsSize l) + (if resets now l then uint (m_maxPermitsSize l) else 0)"
      by (simp add: reset_window_def resets_def)
    moreover have "(if ok then r else 0) + uint (m_currentPermitsSize l1) = uint (m_currentPermitsSize (reset_window now l))"
      using tryAcquire_current [OF assms(2) True, of now] q True
      by (cases ok) (auto simp: tryAcquire_def Let_def split: if_splits)
    ultimately show ?thesis using True by simp
  next
    case False
    then have "l1 = l" using q by (auto simp: tryAcquire_def)
    then show ?thesis using False by simp
  qed
  then show ?thesis using k l1 w assms(3,4) by auto
qed

lemma tryAcquire_above: "r > uint (m_maxPermitsSize l) \<Longrightarrow> tryAcquire now r l = (l, m_allowExceedMaxPermitSize l)"
  by (simp add: tryAcquire_def)

lemma rollback_step:
  assumes "0 \<le> r"
  shows "limiter_inv (rollback r l) \<and> m_lastPermitsUpdateTime (rollback r l) = m_lastPermitsUpdateTime l \<and>
    m_maxPermitsSize (rollback r l) = m_maxPermitsSize l \<and> m_timeWindowMS (rollback r l) = m_timeWindowMS l \<and>
    m_allowExceedMaxPermitSize (rollback r l) = m_allowExceedMaxPermitSize l \<and>
    uint (m_currentPermitsSize (rollback r l)) \<le> uint (m_currentPermitsSize l) + r"
proof -
  let ?c = "m_currentPermitsSize l"
  have "uint (?c + word_of_int r) = (uint ?c + r) mod 2 ^ 64"
    by (simp add: uint_word_ariths unsigned_of_int take_bit_eq_mod mod_add_right_eq)
  then have "uint (?c + word_of_int r) \<le> uint ?c + r" using assms by (simp add: zmod_le_nonneg_dividend)
  then have "uint (m_currentPermitsSize (rollback r l)) \<le> uint ?c + r"
    by (auto simp: rollback_def Let_def word_less_def)
  then show ?thesis using rollback_inv [of r l] by (simp add: rollback_def Let_def)
qed

lemma run_calls_bound:
  assumes "limiter_inv l" and "\<forall>c \<in> set calls. 0 \<le> permits_of c" and "clock_from t (readings calls)"
    and "unat (m_lastPermitsUpdateTime l) \<le> t" and "run_calls calls l = (l', oks)"
  shows "\<exists>n. sum_list (map2 permits_out calls oks) + uint (m_currentPermitsSize l') \<le>
        uint (m_currentPermitsSize l) + int n * uint (m_maxPermitsSize l) +
        (if m_allowExceedMaxPermitSize l then sum_list (map (permits_above (uint (m_maxPermitsSize l))) calls) else 0) \<and>
      n * unat (m_timeWindowMS l) + unat (m_lastPermitsUpdateTime l) \<le> clock_end t (readings calls)"
  using assms
proof (induction calls l arbitrary: t l' oks rule: run_calls.induct)
  case (1 l)
  then show ?case by (intro exI [of _ 0]) (simp add: clock_end_def)
next
  case (2 now r calls l)
  obtain l1 ok where q: "tryAcquire now r l = (l1, ok)" by (cases "tryAcquire now r l")
  obtain l2 oks' where r: "run_calls calls l1 = (l2, oks')" by (cases "run_calls calls l1")
  have e: "l' = l2" "oks = Some ok # oks'" using 2(6) q r by simp_all
  have p: "0 \<le> r" "t \<le> unat now" "clock_from (unat now) (readings calls)" "\<forall>c \<in> set calls. 0 \<le> permits_of c"
    using 2(3,4) by auto
  note st = tryAcquire_step [OF 2(2) p(1) 2(5) p(2) q]
  have a: "m_allowExceedMaxPermitSize l1 = m_allowExceedMaxPermitSize l"
    using q by (auto simp: tryAcquire_def Let_def split: if_splits)
  have "limiter_inv l1" "unat (m_lastPermitsUpdateTime l1) \<le> unat now" using st by simp_all
  from 2(1) [OF q [symmetric] refl this(1) p(4,3) this(2) r]
  obtain n where n: "sum_list (map2 permits_out calls oks') + uint (m_currentPermitsSize l2) \<le>
        uint (m_currentPermitsSize l1) + int n * uint (m_maxPermitsSize l) +
        (if m_allowExceedMaxPermitSize l then sum_list (map (permits_above (uint (m_maxPermitsSize l))) calls) else 0)"
      "n * unat (m_timeWindowMS l) + unat (m_lastPermitsUpdateTime l1) \<le> clock_end (unat now) (readings calls)"
    using st a by auto
  let ?above = "r > uint (m_maxPermitsSize l)"
  have ok: "ok = m_allowExceedMaxPermitSize l" "l1 = l" if ?above
    using tryAcquire_above [OF that, of now] q by simp_all
  show ?case
  proof (cases ?above)
    case True
    then show ?thesis using n st ok p(1) unfolding e by (intro exI [of _ n]) auto
  next
    case False
    then show ?thesis using n st unfolding e
      by (intro exI [of _ "(if resets now l then 1 else 0) + n"]) (auto simp: algebra_simps)
  qed
next
  case (3 r calls l)
  obtain l2 oks' where r: "run_calls calls (rollback r l) = (l2, oks')" by (cases "run_calls calls (rollback r l)")
  have e: "l' = l2" "oks = None # oks'" using 3(6) r by simp_all
  have p: "0 \<le> r" "\<forall>c \<in> set calls. 0 \<le> permits_of c" using 3(3) by auto
  note st = rollback_step [OF p(1), of l]
  have c: "clock_from t (readings calls)" "unat (m_lastPermitsUpdateTime (rollback r l)) \<le> t" using 3(4,5) st by simp_all
  have "limiter_inv (rollback r l)" using st by simp
  from 3(1) [OF this p(2) c r]
  obtain n where n: "sum_list (map2 permits_out calls oks') + uint (m_currentPermitsSize l2) \<le>
        uint (m_currentPermitsSize (rollback r l)) + int n * uint (m_maxPermitsSize l) +
        (if m_allowExceedMaxPermitSize l then sum_list (map (permits_above (uint (m_maxPermitsSize l))) calls) else 0)"
      "n * unat (m_timeWindowMS l) + unat (m_lastPermitsUpdateTime l) \<le> clock_end t (readings calls)"
    using st by auto
  show ?case using n st unfolding e by (intro exI [of _ n]) auto
qed

lemma run_calls_above:
  assumes "i < length calls" and "calls ! i = Try now r" and "r > uint (m_maxPermitsSize l)"
  shows "snd (run_calls calls l) ! i = Some (m_allowExceedMaxPermitSize l)"
  using assms
proof (induction calls l arbitrary: i rule: run_calls.induct)
  case (2 now' r' calls l)
  obtain l1 ok where q: "tryAcquire now' r' l = (l1, ok)" by (cases "tryAcquire now' r' l")
  have k: "m_maxPermitsSize l1 = m_maxPermitsSize l" "m_allowExceedMaxPermitSize l1 = m_allowExceedMaxPermitSize l"
    using q by (auto simp: tryAcquire_def Let_def split: if_splits)
  show ?case
  proof (cases i)
    case 0
    then show ?thesis using 2(2-4) q tryAcquire_above [of l r now] by (auto simp: case_prod_unfold Let_def)
  next
    case (Suc j)
    then show ?thesis using 2(1) [OF q [symmetric] refl, of j] 2(2-4) q k by (simp add: case_prod_unfold Let_def)
  qed
next
  case (3 r' calls l)
  have k: "m_maxPermitsSize (rollback r' l) = m_maxPermitsSize l"
    "m_allowExceedMaxPermitSize (rollback r' l) = m_allowExceedMaxPermitSize l"
    by (simp_all add: rollback_def Let_def)
  show ?case using 3(1) [of "i - 1"] 3(2-4) k by (cases i) (auto simp: case_prod_unfold Let_def)
qed simp

section \<open>Waiting\<close>

text \<open>
  The clock during the first two rounds of waiting: it does not go back, and it advances at least
  by the time slept.
\<close>

definition clock_ok :: "(nat \<Rightarrow> u64) \<Rightarrow> rate_limiter \<Rightarrow> bool" where
  "clock_ok clock l \<longleftrightarrow> unat (m_lastPermitsUpdateTime l) \<le> unat (clock 0) \<and>
     (\<forall>i < 2. unat (clock (2 * i)) \<le> unat (clock (2 * i + 1)) \<and>
          unat (clock (2 * i + 1)) + unat (sleep_time (clock (2 * i + 1)) l) \<le> unat (clock (2 * i + 2)))"

lemma tryAcquire_reset_grants:
  assumes "r \<le> uint (m_maxPermitsSize l)" and "resets now l"
  shows "snd (tryAcquire now r l)"
  using assms by (simp add: tryAcquire_def reset_window_def resets_def Let_def)

lemma tryAcquire_fails:
  assumes "r \<le> uint (m_maxPermitsSize l)" and "\<not> snd (tryAcquire now r l)"
  shows "fst (tryAcquire now r l) = l"
  using assms tryAcquire_reset_grants [OF assms(1), of now]
  by (auto simp: tryAcquire_def reset_window_def resets_def Let_def split: if_splits)

lemma after_sleep:
  assumes "unat (m_lastPermitsUpdateTime l) \<le> unat t"
    and "unat t + unat (sleep_time t l) \<le> unat t'"
    and "m_lastPermitsUpdateTime l \<noteq> t"
  shows "resets t' l"
proof -
  let ?last = "m_lastPermitsUpdateTime l" and ?w = "m_timeWindowMS l"
  have "?last \<le> t" using assms(1) by (simp add: word_le_nat_alt)
  then have d: "unat (t - ?last) = unat t - unat ?last" by (rule unat_sub)
  have ne: "0 < t - ?last" using assms(3) by (metis eq_iff_diff_eq_0 word_neq_0_conv)
  have "unat ?w + unat ?last \<le> unat t'"
  proof (cases "t - ?last < ?w")
    case True
    then have "unat (?w - (t - ?last)) = unat ?w - unat (t - ?last)" by (intro unat_sub) simp
    moreover have "unat (t - ?last) < unat ?w" using True by (simp add: word_less_nat_alt)
    moreover have "sleep_time t l = ?w - (t - ?last)" using True ne by (simp add: sleep_time_def Let_def)
    ultimately show ?thesis using assms(1,2) d by simp
  next
    case False
    then have "unat ?w \<le> unat (t - ?last)" by (simp add: word_less_nat_alt)
    then show ?thesis using assms(1,2) d by simp
  qed
  then show ?thesis unfolding resets_def using assms(1,2) by (subst window_elapsed) simp_all
qed

lemma acquire_loop_success: "snd (tryAcquire (clock (2 * i)) r l) \<Longrightarrow>
    acquire_loop (Suc fuel) clock i r l = Some (fst (tryAcquire (clock (2 * i)) r l), True, [])"
  by (simp add: case_prod_unfold Let_def)

lemma acquire_loop_retry:
  assumes "r \<le> uint (m_maxPermitsSize l)" and "\<not> snd (tryAcquire (clock (2 * i)) r l)"
    and "acquire_loop fuel clock (i + 1) r l = Some (l', b, ss)"
  shows "acquire_loop (Suc fuel) clock i r l = Some (l', b, sleep_time (clock (2 * i + 1)) l # ss)"
  using assms tryAcquire_fails [OF assms(1,2)] by (simp add: case_prod_unfold Let_def)

lemma clock_ok_round:
  assumes "clock_ok clock l" and "i < 2"
  shows "unat (m_lastPermitsUpdateTime l) \<le> unat (clock (2 * i))"
    and "unat (clock (2 * i)) \<le> unat (clock (2 * i + 1))"
    and "unat (clock (2 * i + 1)) + unat (sleep_time (clock (2 * i + 1)) l) \<le> unat (clock (2 * i + 2))"
proof -
  have r: "unat (clock (2 * j)) \<le> unat (clock (2 * j + 1))"
    "unat (clock (2 * j + 1)) + unat (sleep_time (clock (2 * j + 1)) l) \<le> unat (clock (2 * j + 2))" if "j < 2" for j
    using assms(1) that unfolding clock_ok_def by blast+
  then show "unat (clock (2 * i)) \<le> unat (clock (2 * i + 1))"
    "unat (clock (2 * i + 1)) + unat (sleep_time (clock (2 * i + 1)) l) \<le> unat (clock (2 * i + 2))"
    using assms(2) by blast+
  have "unat (m_lastPermitsUpdateTime l) \<le> unat (clock 0)" using assms(1) by (simp add: clock_ok_def)
  moreover have "i = 0 \<or> i = 1" using assms(2) by auto
  ultimately show "unat (m_lastPermitsUpdateTime l) \<le> unat (clock (2 * i))" using r [of 0] by (auto simp: numeral_2_eq_2)
qed

lemma round_after_wait:
  assumes c: "clock_ok clock l" and r: "r \<le> uint (m_maxPermitsSize l)" and i: "i < 2"
    and n: "m_lastPermitsUpdateTime l \<noteq> clock (2 * i + 1)"
  shows "snd (tryAcquire (clock (2 * (i + 1))) r l)"
proof (rule tryAcquire_reset_grants [OF r])
  show "resets (clock (2 * (i + 1))) l"
    using after_sleep [of l "clock (2 * i + 1)" "clock (2 * i + 2)"] clock_ok_round [OF c i] n by simp
qed

lemma sleep_time_update: "sleep_time (m_lastPermitsUpdateTime l) l = 1"
  by (simp add: sleep_time_def)

section \<open>Properties\<close>

text \<open>Claim C14. The rate is respected over any sequence of requests and returns of non-negative numbers of permits,
  with a clock that does not go back: the permits granted and not given back add up to at most the maximum for each
  window begun in the time that has passed, and, when the limiter is configured to let requests above the maximum pass,
  the permits of those requests. Each request above the maximum is answered with that setting.\<close>
theorem limiter_rate:
  assumes "limiter_inv l" and "\<forall>c \<in> set calls. 0 \<le> permits_of c"
    and "clock_from (unat (m_lastPermitsUpdateTime l)) (readings calls)" and "0 < unat (m_timeWindowMS l)"
  shows "sum_list (map2 permits_out calls (snd (run_calls calls l))) \<le>
      uint (m_maxPermitsSize l) *
        (1 + int ((clock_end (unat (m_lastPermitsUpdateTime l)) (readings calls) - unat (m_lastPermitsUpdateTime l))
           div unat (m_timeWindowMS l))) +
      (if m_allowExceedMaxPermitSize l then sum_list (map (permits_above (uint (m_maxPermitsSize l))) calls) else 0) \<and>
    (\<forall>i now r. i < length calls \<and> calls ! i = Try now r \<and> r > uint (m_maxPermitsSize l) \<longrightarrow>
       snd (run_calls calls l) ! i = Some (m_allowExceedMaxPermitSize l))"
proof -
  let ?M = "uint (m_maxPermitsSize l)" and ?w = "unat (m_timeWindowMS l)" and ?t0 = "unat (m_lastPermitsUpdateTime l)"
  let ?T = "clock_end ?t0 (readings calls)"
  let ?a = "if m_allowExceedMaxPermitSize l then sum_list (map (permits_above ?M) calls) else 0"
  obtain l' oks where q: "run_calls calls l = (l', oks)" by (cases "run_calls calls l")
  let ?g = "sum_list (map2 permits_out calls oks)"
  obtain n where b: "?g + uint (m_currentPermitsSize l') \<le> uint (m_currentPermitsSize l) + int n * ?M + ?a"
      "n * ?w + ?t0 \<le> ?T"
    using run_calls_bound [OF assms(1-3) order_refl q] by blast
  have "uint (m_currentPermitsSize l) \<le> ?M" using assms(1) by (simp add: limiter_inv_def word_le_def)
  then have "?g \<le> ?M + int n * ?M + ?a" using b uint_ge_0 [of "m_currentPermitsSize l'"] by linarith
  moreover have "n * ?w \<le> ?T - ?t0" using b by linarith
  then have "n \<le> (?T - ?t0) div ?w" using assms(4) by (simp add: less_eq_div_iff_mult_less_eq)
  then have "int n * ?M \<le> int ((?T - ?t0) div ?w) * ?M" by (intro mult_right_mono) simp_all
  ultimately have "?g \<le> ?M * (1 + int ((?T - ?t0) div ?w)) + ?a" by (simp only: distrib_left) (simp add: mult.commute)
  then show ?thesis using q run_calls_above [of _ calls _ _ l] by simp
qed

text \<open>A limiter of 5 permits each 10 ms that lets larger requests pass: 3 + 2 + 9 + 5 are granted and 2 given back.\<close>
theorem limiter_rate_witness:
  "let calls = [Try 101 3, Try 102 4, Try 103 9, Give_back 2, Try 104 4, Try 110 5]
   in snd (run_calls calls (new_limiter 5 10 True 100)) =
        [Some True, Some False, Some True, None, Some True, Some True] \<and>
      sum_list (map2 permits_out calls (snd (run_calls calls (new_limiter 5 10 True 100)))) \<le> 5 * (1 + int (10 div 10)) + 9"
proof -
  let ?calls = "[Try 101 3, Try 102 4, Try 103 9, Give_back 2, Try 104 4, Try 110 5]"
  have "snd (run_calls ?calls (new_limiter 5 10 True 100)) = [Some True, Some False, Some True, None, Some True, Some True]"
    by (simp add: new_limiter_def tryAcquire_def reset_window_def rollback_def Let_def word_le_nat_alt)
  moreover have "sum_list (map2 permits_out ?calls (snd (run_calls ?calls (new_limiter 5 10 True 100)))) \<le>
      5 * (1 + int (10 div 10)) + 9"
    using limiter_rate [of "new_limiter 5 10 True 100" ?calls, THEN conjunct1]
    by (simp add: limiter_inv_def new_limiter_def clock_end_def del: run_calls.simps)
  ultimately show ?thesis by (simp add: Let_def del: run_calls.simps)
qed

text \<open>Claim C34. A request within the maximum that waits is granted: whatever the state, a caller that is alone
  and whose clock advances at least by the times slept gets its permits after at most two sleeps.\<close>
theorem limiter_acquire_returns:
  assumes "r \<le> uint (m_maxPermitsSize l)" and "clock_ok clock l" and "3 \<le> fuel"
  shows "\<exists>l' ss. acquire fuel clock r l = Some (l', True, ss) \<and> length ss \<le> 2"
proof -
  obtain f where f: "fuel = Suc (Suc (Suc f))" using assms(3) by (metis Suc_le_D numeral_3_eq_3 Suc_le_mono)
  let ?ok = "\<lambda>i. snd (tryAcquire (clock (2 * i)) r l)"
  have "?ok 0 \<or> ?ok 1 \<or> ?ok 2"
  proof (cases "m_lastPermitsUpdateTime l = clock 1")
    case False
    then show ?thesis using round_after_wait [OF assms(2,1), of 0] by simp
  next
    case True
    then have "unat (clock 1) < unat (clock 2)"
      using clock_ok_round(3) [OF assms(2), of 0] sleep_time_update [of l] by (simp add: numeral_2_eq_2)
    then have "m_lastPermitsUpdateTime l \<noteq> clock 3" using clock_ok_round(2) [OF assms(2), of 1] True by auto
    then show ?thesis using round_after_wait [OF assms(2,1), of 1] by (simp add: eval_nat_numeral)
  qed
  moreover have s: "\<exists>l' ss. acquire_loop (Suc g) clock i r l = Some (l', True, ss) \<and> length ss = 0" if "?ok i" for g i
    using acquire_loop_success [of clock i r l g] that by simp
  moreover have "\<exists>l' ss. acquire_loop (Suc g) clock i r l = Some (l', True, ss) \<and> length ss = Suc k"
    if "\<not> ?ok i" "\<exists>l' ss. acquire_loop g clock (i + 1) r l = Some (l', True, ss) \<and> length ss = k" for g i k
    using acquire_loop_retry [OF assms(1), of clock i g] that by auto
  ultimately have "\<exists>l' ss. acquire_loop fuel clock 0 r l = Some (l', True, ss) \<and> length ss \<le> 2"
    unfolding f by (metis One_nat_def Suc_1 add.left_neutral le_SucI le_refl plus_1_eq_Suc)
  then show ?thesis using assms(1) by (simp add: acquire_def)
qed

theorem limiter_acquire_returns_witness:
  "\<exists>l' ss. acquire 3 (\<lambda>i. 101 + 20 * word_of_nat i) 4 ((new_limiter 5 10 False 100)\<lparr>m_currentPermitsSize := 1\<rparr>) =
     Some (l', True, ss) \<and> length ss \<le> 2"
proof (rule limiter_acquire_returns)
  have a: "(\<forall>i < 2. P i) \<longleftrightarrow> P 0 \<and> P (1 :: nat)" for P by (auto simp: less_2_cases_iff)
  show "clock_ok (\<lambda>i. 101 + 20 * word_of_nat i) ((new_limiter 5 10 False 100)\<lparr>m_currentPermitsSize := 1\<rparr>)"
    unfolding clock_ok_def a by (simp add: new_limiter_def sleep_time_def Let_def)
qed (simp_all add: new_limiter_def)

text \<open>Giving permits back undoes the acquisition: after a granted request for a non-negative number of
  permits within the maximum, \<open>rollback\<close> leaves the stock of the current window as it was, and
  \<open>rollback\<close> never leaves more than the maximum.\<close>
lemma limiter_rollback:
  assumes "limiter_inv l" and "0 \<le> r" and "r \<le> uint (m_maxPermitsSize l)" and "snd (tryAcquire now r l)"
  shows "rollback r (fst (tryAcquire now r l)) = reset_window now l \<and>
    (\<forall>r' l'. m_currentPermitsSize (rollback r' l') \<le> m_maxPermitsSize l')"
proof -
  have "m_currentPermitsSize (reset_window now l) \<le> m_maxPermitsSize l"
    using reset_window_inv [OF assms(1), of now] by (simp add: limiter_inv_def)
  then have "rollback r (fst (tryAcquire now r l)) = reset_window now l"
    using assms(3,4) by (auto simp: tryAcquire_def rollback_def Let_def not_less split: if_splits)
  moreover have "m_currentPermitsSize (rollback r' l') \<le> m_maxPermitsSize l'" for r' l'
    using rollback_inv [of r' l'] by (simp add: limiter_inv_def rollback_def Let_def split: if_splits)
  ultimately show ?thesis by blast
qed

theorem limiter_rollback_witness:
  "rollback 3 (fst (tryAcquire 101 3 (new_limiter 5 10 False 100))) = reset_window 101 (new_limiter 5 10 False 100)"
  using limiter_rollback [of "new_limiter 5 10 False 100" 3 101]
  by (simp add: limiter_inv_def new_limiter_def tryAcquire_def reset_window_def Let_def)

text \<open>A negative number of permits is not refused: on a full limiter inside its window it raises the
  stock above the maximum.\<close>
lemma limiter_negative_permits:
  assumes "m_currentPermitsSize l = m_maxPermitsSize l" and "\<not> resets now l" and "r < 0"
    and "uint (m_maxPermitsSize l) - r < 2 ^ 64"
  shows "snd (tryAcquire now r l) \<and>
    uint (m_currentPermitsSize (fst (tryAcquire now r l))) = uint (m_maxPermitsSize l) - r"
proof -
  have "\<not> r > uint (m_maxPermitsSize l)" "uint (m_maxPermitsSize l) \<ge> r"
    using assms(3) uint_ge_0 [of "m_maxPermitsSize l"] by linarith+
  then have "tryAcquire now r l = (l\<lparr>m_currentPermitsSize := m_currentPermitsSize l - word_of_int r\<rparr>, True)"
    using assms(1,2) by (simp add: tryAcquire_def reset_window_def resets_def Let_def)
  moreover have "m_maxPermitsSize l - word_of_int r = word_of_int (uint (m_maxPermitsSize l) - r)" by simp
  then have "uint (m_maxPermitsSize l - word_of_int r) = uint (m_maxPermitsSize l) - r"
    using \<open>uint (m_maxPermitsSize l) \<ge> r\<close> assms(4)
    by (simp only: unsigned_of_int) (simp add: take_bit_int_eq_self)
  ultimately show ?thesis using assms(1) by simp
qed

theorem limiter_negative_permits_witness:
  "uint (m_currentPermitsSize (fst (tryAcquire 101 (-7) (new_limiter 5 10 False 100)))) = 12"
  using limiter_negative_permits [of "new_limiter 5 10 False 100" 101 "-7"]
  by (simp add: new_limiter_def resets_def word_le_def)

text \<open>The requests per second reported for an interval are exact as long as the count times 1000 fits
  64 bits and the quotient 32 bits; an interval of 0 gives 0.\<close>
lemma calcAvgQPS_exact:
  assumes "unat n * 1000 < 2 ^ 64" and "unat n * 1000 div unat i < 2 ^ 32"
  shows "unat (calcAvgQPS n i) = unat n * 1000 div unat i"
proof (cases "i = 0")
  case False
  have "unat i < 2 ^ LENGTH(32)" by (rule unsigned_less)
  then have u: "unat (ucast i :: u64) = unat i" by (simp add: unsigned_ucast_eq take_bit_nat_eq_self)
  have "unat (n * 1000) = unat n * 1000" using assms(1) by (subst unat_mult_lem [THEN iffD1]) simp_all
  then have "unat (n * 1000 div ucast i) = unat n * 1000 div unat i" using u by (simp add: unat_div)
  then show ?thesis using False assms(2)
    by (simp add: calcAvgQPS_def word_neq_0_conv [symmetric] unsigned_ucast_eq take_bit_nat_eq_self)
qed (simp add: calcAvgQPS_def)

lemma calcAvgQPS_example: "unat (calcAvgQPS 30 2000) = 15"
  using calcAvgQPS_exact [of 30 2000] by simp

end
