(* ===== verification/AbiTypes.thy ===== *)
theory AbiTypes
  imports Json
begin

text \<open>
  The values of the contract ABI (\<open>utilities/abi/ContractABIType.h\<close>): the class hierarchy
  under \<open>AbstractType\<close> as one datatype with a constructor for each class, and the virtual
  methods as recursive functions that dispatch to one definition for each class. A method of a
  composite class takes the results of the call on its members, in their order.

  Decimal and hexadecimal printing, 20 byte addresses, the 256 bit integers and sub-ranges of
  buffers belong to boost and bcos-utilities: they are the record \<open>abi_ext\<close>. Whether
  \<open>assert\<close> is compiled in is a flag of that record.
\<close>

record abi_ext =
  str10 :: "int \<Rightarrow> string"
  toHexString :: "bytes \<Rightarrow> string"
  address_of_string :: "string \<Rightarrow> bytes option"
  hexPrefixed :: "bytes \<Rightarrow> string"
  h256_of_u256 :: "u256 \<Rightarrow> bytes"
  fromBigEndian :: "bytes \<Rightarrow> u256"
  s2u :: "int \<Rightarrow> u256"
  u2s :: "u256 \<Rightarrow> int"
  u256_to_size :: "u256 \<Rightarrow> u64"
  getCroppedData2 :: "bytes \<Rightarrow> u64 \<Rightarrow> u64 \<Rightarrow> bytes"
  asserts :: bool

datatype abi_exn = Runtime_error | Length_error | Assert_failed | Index_out_of_range
  | Invalid_argument | Json_error | Bad_hex_character | Out_of_fuel

definition MAX_BYTE_LENGTH :: nat where "MAX_BYTE_LENGTH = 32"
definition MAX_FIXED_BYTES_LENGTH :: nat where "MAX_FIXED_BYTES_LENGTH = 32"

text \<open>The first argument of each constructor is the name of the value.\<close>

datatype abi_value =
    Uint string u256 nat
  | IntV string int nat
  | Boolean string bool
  | DynamicBytes string bytes
  | FixedBytes string nat bytes
  | Addr string string
  | String string string
  | FixedList string nat "abi_value list"
  | DynamicList string "abi_value list"
  | Struct string "abi_value list"

section \<open>Base types\<close>

definition Uint_verifyExtent :: "nat \<Rightarrow> abi_exn + unit" where
  "Uint_verifyExtent extent = (if extent < 1 \<or> extent > 256 \<or> extent mod 8 \<noteq> 0 then Inl Runtime_error else Inr ())"

definition Uint_newValue :: "nat \<Rightarrow> u256 \<Rightarrow> abi_exn + abi_value" where
  "Uint_newValue extent u = bindE (Uint_verifyExtent extent) (\<lambda>_. Inr (Uint [] u extent))"

definition Int_verifyExtent :: "nat \<Rightarrow> abi_exn + unit" where
  "Int_verifyExtent extent = (if extent < 1 \<or> extent > 256 \<or> extent mod 8 \<noteq> 0 then Inl Runtime_error else Inr ())"

definition Int_newValue :: "nat \<Rightarrow> int \<Rightarrow> abi_exn + abi_value" where
  "Int_newValue extent i = bindE (Int_verifyExtent extent) (\<lambda>_. Inr (IntV [] i extent))"

definition FixedBytes_verify :: "nat \<Rightarrow> bytes \<Rightarrow> bool \<Rightarrow> abi_exn + unit" where
  "FixedBytes_verify fixedN value withValue =
     (if fixedN = 0 \<or> fixedN > MAX_FIXED_BYTES_LENGTH then Inl Runtime_error
      else if withValue \<and> length value \<noteq> fixedN then Inl Runtime_error
      else Inr ())"

definition FixedBytes_newType :: "nat \<Rightarrow> abi_exn + abi_value" where
  "FixedBytes_newType fixedN = bindE (FixedBytes_verify fixedN [] False) (\<lambda>_. Inr (FixedBytes [] fixedN []))"

definition FixedBytes_newValue :: "nat \<Rightarrow> bytes \<Rightarrow> abi_exn + abi_value" where
  "FixedBytes_newValue fixedN value =
     bindE (FixedBytes_verify fixedN value True) (\<lambda>_. Inr (FixedBytes [] fixedN value))"

fun setName :: "string \<Rightarrow> abi_value \<Rightarrow> abi_value" where
  "setName n (Uint _ u e) = Uint n u e"
| "setName n (IntV _ i e) = IntV n i e"
| "setName n (Boolean _ b) = Boolean n b"
| "setName n (DynamicBytes _ bs) = DynamicBytes n bs"
| "setName n (FixedBytes _ k bs) = FixedBytes n k bs"
| "setName n (Addr _ s) = Addr n s"
| "setName n (String _ s) = String n s"
| "setName n (FixedList _ d vs) = FixedList n d vs"
| "setName n (DynamicList _ vs) = DynamicList n vs"
| "setName n (Struct _ vs) = Struct n vs"

fun abi_name :: "abi_value \<Rightarrow> string" where
  "abi_name (Uint n _ _) = n"
| "abi_name (IntV n _ _) = n"
| "abi_name (Boolean n _) = n"
| "abi_name (DynamicBytes n _) = n"
| "abi_name (FixedBytes n _ _) = n"
| "abi_name (Addr n _) = n"
| "abi_name (String n _) = n"
| "abi_name (FixedList n _ _) = n"
| "abi_name (DynamicList n _) = n"
| "abi_name (Struct n _) = n"

section \<open>Dynamic types and offsets\<close>

definition FixedList_verify :: "nat \<Rightarrow> nat \<Rightarrow> abi_exn + unit" where
  "FixedList_verify dimension elements =
     (if dimension = 0 then Inl Runtime_error
      else if dimension \<noteq> elements then Inl Runtime_error
      else Inr ())"

definition FixedList_dynamicType :: "nat \<Rightarrow> (abi_exn + bool) list \<Rightarrow> abi_exn + bool" where
  "FixedList_dynamicType dimension members =
     bindE (FixedList_verify dimension (length members)) (\<lambda>_. members ! 0)"

fun Struct_dynamicType :: "(abi_exn + bool) list \<Rightarrow> abi_exn + bool" where
  "Struct_dynamicType [] = Inr False"
| "Struct_dynamicType (m # ms) = bindE m (\<lambda>d. if d then Inr True else Struct_dynamicType ms)"

fun dynamicType :: "abi_value \<Rightarrow> abi_exn + bool" where
  "dynamicType (Uint _ _ _) = Inr False"
| "dynamicType (IntV _ _ _) = Inr False"
| "dynamicType (Boolean _ _) = Inr False"
| "dynamicType (DynamicBytes _ _) = Inr True"
| "dynamicType (FixedBytes _ _ _) = Inr False"
| "dynamicType (Addr _ _) = Inr False"
| "dynamicType (String _ _) = Inr True"
| "dynamicType (FixedList _ d vs) = FixedList_dynamicType d (map dynamicType vs)"
| "dynamicType (DynamicList _ _) = Inr True"
| "dynamicType (Struct _ vs) = Struct_dynamicType (map dynamicType vs)"

text \<open>\<open>unsigned\<close> is 32 bits wide; the product with the number of elements is computed in
  \<open>size_t\<close> and truncated.\<close>

definition FixedList_offsetAsBytes :: "abi_exn + bool \<Rightarrow> (abi_exn + u32) list \<Rightarrow> abi_exn + u32" where
  "FixedList_offsetAsBytes dyn offsets =
     bindE dyn (\<lambda>d. if d then Inr 32 else bindE (offsets ! 0) (\<lambda>o0. Inr (word_of_nat (length offsets * unat o0))))"

fun sum_offsets :: "(abi_exn + u32) list \<Rightarrow> u32 \<Rightarrow> abi_exn + u32" where
  "sum_offsets [] offset = Inr offset"
| "sum_offsets (m # ms) offset = bindE m (\<lambda>o1. sum_offsets ms (offset + o1))"

definition Struct_offsetAsBytes :: "abi_exn + bool \<Rightarrow> (abi_exn + u32) list \<Rightarrow> abi_exn + u32" where
  "Struct_offsetAsBytes dyn offsets = bindE dyn (\<lambda>d. if d then Inr 32 else sum_offsets offsets 0)"

fun offsetAsBytes :: "abi_value \<Rightarrow> abi_exn + u32" where
  "offsetAsBytes (FixedList n d vs) =
     FixedList_offsetAsBytes (dynamicType (FixedList n d vs)) (map offsetAsBytes vs)"
| "offsetAsBytes (Struct n vs) = Struct_offsetAsBytes (dynamicType (Struct n vs)) (map offsetAsBytes vs)"
| "offsetAsBytes _ = Inr 32"

section \<open>Cloning, clearing and comparing\<close>

primrec sequenceE :: "('e + 'a) list \<Rightarrow> 'e + 'a list" where
  "sequenceE [] = Inr []"
| "sequenceE (m # ms) = bindE m (\<lambda>x. bindE (sequenceE ms) (\<lambda>xs. Inr (x # xs)))"

definition Uint_clone :: "string \<Rightarrow> u256 \<Rightarrow> nat \<Rightarrow> abi_exn + abi_value" where
  "Uint_clone n u extent = bindE (Uint_newValue extent u) (\<lambda>v. Inr (setName n v))"

definition Int_clone :: "string \<Rightarrow> int \<Rightarrow> nat \<Rightarrow> abi_exn + abi_value" where
  "Int_clone n i extent = bindE (Int_newValue extent i) (\<lambda>v. Inr (setName n v))"

definition Boolean_clone :: "string \<Rightarrow> bool \<Rightarrow> abi_value" where
  "Boolean_clone n b = setName n (Boolean [] b)"

definition DynamicBytes_clone :: "string \<Rightarrow> bytes \<Rightarrow> abi_value" where
  "DynamicBytes_clone n bs = setName n (DynamicBytes [] bs)"

definition FixedBytes_clone :: "string \<Rightarrow> nat \<Rightarrow> bytes \<Rightarrow> abi_exn + abi_value" where
  "FixedBytes_clone n fixedN bs = bindE (FixedBytes_newValue fixedN bs) (\<lambda>v. Inr (setName n v))"

definition Addr_clone :: "string \<Rightarrow> string \<Rightarrow> abi_value" where
  "Addr_clone n s = setName n (Addr [] s)"

definition String_clone :: "string \<Rightarrow> string \<Rightarrow> abi_value" where
  "String_clone n s = setName n (String [] s)"

definition FixedList_clone :: "string \<Rightarrow> nat \<Rightarrow> (abi_exn + abi_value) list \<Rightarrow> abi_exn + abi_value" where
  "FixedList_clone n d members = bindE (sequenceE members) (\<lambda>vs. Inr (setName n (FixedList [] d vs)))"

definition DynamicList_clone :: "string \<Rightarrow> (abi_exn + abi_value) list \<Rightarrow> abi_exn + abi_value" where
  "DynamicList_clone n members = bindE (sequenceE members) (\<lambda>vs. Inr (setName n (DynamicList [] vs)))"

definition Struct_clone :: "string \<Rightarrow> (abi_exn + abi_value) list \<Rightarrow> abi_exn + abi_value" where
  "Struct_clone n members = bindE (sequenceE members) (\<lambda>vs. Inr (setName n (Struct [] vs)))"

fun clone :: "abi_value \<Rightarrow> abi_exn + abi_value" where
  "clone (Uint n u e) = Uint_clone n u e"
| "clone (IntV n i e) = Int_clone n i e"
| "clone (Boolean n b) = Inr (Boolean_clone n b)"
| "clone (DynamicBytes n bs) = Inr (DynamicBytes_clone n bs)"
| "clone (FixedBytes n k bs) = FixedBytes_clone n k bs"
| "clone (Addr n s) = Inr (Addr_clone n s)"
| "clone (String n s) = Inr (String_clone n s)"
| "clone (FixedList n d vs) = FixedList_clone n d (map clone vs)"
| "clone (DynamicList n vs) = DynamicList_clone n (map clone vs)"
| "clone (Struct n vs) = Struct_clone n (map clone vs)"

fun clear :: "abi_value \<Rightarrow> abi_value" where
  "clear (Uint n u e) = Uint n 0 e"
| "clear (IntV n i e) = IntV n 0 e"
| "clear (Boolean n b) = Boolean n False"
| "clear (DynamicBytes n bs) = DynamicBytes n []"
| "clear (FixedBytes n k bs) = FixedBytes n k []"
| "clear (Addr n s) = Addr n []"
| "clear (String n s) = String n []"
| "clear (FixedList n d vs) = FixedList n d (map clear vs)"
| "clear (DynamicList n vs) = DynamicList n (map clear vs)"
| "clear (Struct n vs) = Struct n (map clear vs)"

definition Uint_isEqual :: "u256 \<Rightarrow> abi_value \<Rightarrow> bool" where
  "Uint_isEqual u other = (case other of Uint _ u' _ \<Rightarrow> u' = u | _ \<Rightarrow> False)"

definition Int_isEqual :: "int \<Rightarrow> abi_value \<Rightarrow> bool" where
  "Int_isEqual i other = (case other of IntV _ i' _ \<Rightarrow> i' = i | _ \<Rightarrow> False)"

definition Boolean_isEqual :: "bool \<Rightarrow> abi_value \<Rightarrow> bool" where
  "Boolean_isEqual b other = (case other of Boolean _ b' \<Rightarrow> b' = b | _ \<Rightarrow> False)"

definition DynamicBytes_isEqual :: "bytes \<Rightarrow> abi_value \<Rightarrow> bool" where
  "DynamicBytes_isEqual bs other = (case other of DynamicBytes _ bs' \<Rightarrow> bs' = bs | _ \<Rightarrow> False)"

definition FixedBytes_isEqual :: "bytes \<Rightarrow> abi_value \<Rightarrow> bool" where
  "FixedBytes_isEqual bs other = (case other of FixedBytes _ _ bs' \<Rightarrow> bs' = bs | _ \<Rightarrow> False)"

definition Addr_isEqual :: "string \<Rightarrow> abi_value \<Rightarrow> bool" where
  "Addr_isEqual s other = (case other of Addr _ s' \<Rightarrow> s' = s | _ \<Rightarrow> False)"

definition String_isEqual :: "string \<Rightarrow> abi_value \<Rightarrow> bool" where
  "String_isEqual s other = (case other of String _ s' \<Rightarrow> s' = s | _ \<Rightarrow> False)"

text \<open>
  The composite classes first compare the sizes and then call \<open>isEqual\<close> of the other
  value's elements on their own; \<open>eqs\<close> are the results of those calls.
\<close>

definition FixedList_isEqual :: "nat \<Rightarrow> nat \<Rightarrow> nat \<Rightarrow> nat \<Rightarrow> bool list \<Rightarrow> bool" where
  "FixedList_isEqual dimension elements dimension' elements' eqs =
     (if dimension' \<noteq> dimension then False
      else if elements' \<noteq> elements then False
      else list_all id eqs)"

definition DynamicList_isEqual :: "nat \<Rightarrow> nat \<Rightarrow> bool list \<Rightarrow> bool" where
  "DynamicList_isEqual elements elements' eqs = (if elements' \<noteq> elements then False else list_all id eqs)"

definition Struct_isEqual :: "nat \<Rightarrow> nat \<Rightarrow> bool list \<Rightarrow> bool" where
  "Struct_isEqual members members' eqs = (if members' \<noteq> members then False else list_all id eqs)"

text \<open>\<open>isEqual this other\<close> is \<open>this.isEqual(other)\<close>.\<close>

lemma zip_sizes:
  "(v', v) \<in> set (zip vs' vs) \<Longrightarrow> size v' + size v < Suc (size_list size vs) + Suc (size_list size vs')"
  using size_list_estimation' [OF set_zip_leftD order_refl, of v' v vs' vs size]
    size_list_estimation' [OF set_zip_rightD order_refl, of v' v vs' vs size] by simp

function isEqual :: "abi_value \<Rightarrow> abi_value \<Rightarrow> bool" where
  "isEqual (FixedList n d vs) other =
     (case other of FixedList _ d' vs' \<Rightarrow>
        FixedList_isEqual d (length vs) d' (length vs') (map (\<lambda>(v', v). isEqual v' v) (zip vs' vs)) | _ \<Rightarrow> False)"
| "isEqual (DynamicList n vs) other =
     (case other of DynamicList _ vs' \<Rightarrow>
        DynamicList_isEqual (length vs) (length vs') (map (\<lambda>(v', v). isEqual v' v) (zip vs' vs)) | _ \<Rightarrow> False)"
| "isEqual (Struct n vs) other =
     (case other of Struct _ vs' \<Rightarrow>
        Struct_isEqual (length vs) (length vs') (map (\<lambda>(v', v). isEqual v' v) (zip vs' vs)) | _ \<Rightarrow> False)"
| "isEqual (Uint n u e) other = Uint_isEqual u other"
| "isEqual (IntV n i e) other = Int_isEqual i other"
| "isEqual (Boolean n b) other = Boolean_isEqual b other"
| "isEqual (DynamicBytes n bs) other = DynamicBytes_isEqual bs other"
| "isEqual (FixedBytes n k bs) other = FixedBytes_isEqual bs other"
| "isEqual (Addr n s) other = Addr_isEqual s other"
| "isEqual (String n s) other = String_isEqual s other"
  by pat_completeness auto
termination
  by (relation "measure (\<lambda>(v, w). size v + size w)") (auto dest: zip_sizes)

section \<open>JSON\<close>

definition Uint_toJson :: "abi_ext \<Rightarrow> u256 \<Rightarrow> json" where
  "Uint_toJson X u = JString (str10 X (uint u))"

definition Int_toJson :: "abi_ext \<Rightarrow> int \<Rightarrow> json" where
  "Int_toJson X i = JString (str10 X i)"

definition DynamicBytes_toJson :: "abi_ext \<Rightarrow> bytes \<Rightarrow> json" where
  "DynamicBytes_toJson X bs = JString (''hex://'' @ toHexString X bs)"

definition FixedBytes_toJson :: "abi_ext \<Rightarrow> bytes \<Rightarrow> json" where
  "FixedBytes_toJson X bs = JString (''hex://'' @ toHexString X bs)"

fun abi_toJson :: "abi_ext \<Rightarrow> abi_value \<Rightarrow> json" where
  "abi_toJson X (Uint n u e) = Uint_toJson X u"
| "abi_toJson X (IntV n i e) = Int_toJson X i"
| "abi_toJson X (Boolean n b) = JBool b"
| "abi_toJson X (DynamicBytes n bs) = DynamicBytes_toJson X bs"
| "abi_toJson X (FixedBytes n k bs) = FixedBytes_toJson X bs"
| "abi_toJson X (Addr n s) = JString s"
| "abi_toJson X (String n s) = JString s"
| "abi_toJson X (FixedList n d vs) = JArray (map (abi_toJson X) vs)"
| "abi_toJson X (DynamicList n vs) = JArray (map (abi_toJson X) vs)"
| "abi_toJson X (Struct n vs) = JArray (map (abi_toJson X) vs)"

section \<open>Members\<close>

definition FixedList_addMember :: "abi_value \<Rightarrow> abi_value list \<Rightarrow> abi_value list" where
  "FixedList_addMember v vs = vs @ [v]"

definition DynamicList_addMember :: "abi_value \<Rightarrow> abi_value list \<Rightarrow> abi_value list" where
  "DynamicList_addMember v vs = vs @ [v]"

text \<open>
  A structure keeps its members in order and, under their names, in an unordered map; both are
  filled by \<open>addMember\<close> only, so the map is a function of the members.
\<close>

definition Struct_addMember :: "abi_value \<Rightarrow> abi_value list \<times> (string \<times> abi_value) list \<Rightarrow>
    abi_value list \<times> (string \<times> abi_value) list" where
  "Struct_addMember v s =
     (fst s @ [v], if abi_name v \<noteq> [] then umap_set (abi_name v) v (snd s) else snd s)"

definition kvValue :: "abi_value list \<Rightarrow> (string \<times> abi_value) list" where
  "kvValue vs = snd (fold Struct_addMember vs ([], []))"

section \<open>What the methods compute\<close>

text \<open>The extents and sizes that the constructors check.\<close>

fun abi_checked :: "abi_value \<Rightarrow> bool" where
  "abi_checked (Uint n u e) \<longleftrightarrow> 1 \<le> e \<and> e \<le> 256 \<and> e mod 8 = 0"
| "abi_checked (IntV n i e) \<longleftrightarrow> 1 \<le> e \<and> e \<le> 256 \<and> e mod 8 = 0"
| "abi_checked (FixedBytes n k bs) \<longleftrightarrow> 0 < k \<and> k \<le> 32 \<and> length bs = k"
| "abi_checked (FixedList n d vs) \<longleftrightarrow> (\<forall>v \<in> set vs. abi_checked v)"
| "abi_checked (DynamicList n vs) \<longleftrightarrow> (\<forall>v \<in> set vs. abi_checked v)"
| "abi_checked (Struct n vs) \<longleftrightarrow> (\<forall>v \<in> set vs. abi_checked v)"
| "abi_checked _ \<longleftrightarrow> True"

lemma sequenceE_map_id: "(\<forall>v \<in> set vs. f v = Inr v) \<Longrightarrow> sequenceE (map f vs) = Inr vs"
  by (induction vs) simp_all

lemma sequenceE_Inr:
  "sequenceE ms = Inr xs \<longleftrightarrow> ms = map Inr xs"
  by (induction ms arbitrary: xs) (auto simp: bindE_Inr_iff)

lemma sequenceE_fails: "m \<in> set ms \<Longrightarrow> m = Inl e \<Longrightarrow> \<exists>e. sequenceE ms = Inl e"
  by (induction ms) (auto simp: bindE_Inl_iff, metis sum.exhaust_sel)

lemma sequenceE_map_eq:
  "(\<forall>v \<in> set vs. (P v \<longrightarrow> f v = Inr v) \<and> (\<not> P v \<longrightarrow> f v = Inl e)) \<Longrightarrow>
     sequenceE (map f vs) = (if \<forall>v \<in> set vs. P v then Inr vs else Inl e)"
  by (induction vs) auto

lemma clone_spec: "clone v = (if abi_checked v then Inr v else Inl Runtime_error)"
proof (induction v rule: clone.induct)
  case (8 n d vs)
  then have "sequenceE (map clone vs) = (if \<forall>v \<in> set vs. abi_checked v then Inr vs else Inl Runtime_error)"
    by (intro sequenceE_map_eq) simp
  then show ?case by (simp add: FixedList_clone_def)
next
  case (9 n vs)
  then have "sequenceE (map clone vs) = (if \<forall>v \<in> set vs. abi_checked v then Inr vs else Inl Runtime_error)"
    by (intro sequenceE_map_eq) simp
  then show ?case by (simp add: DynamicList_clone_def)
next
  case (10 n vs)
  then have "sequenceE (map clone vs) = (if \<forall>v \<in> set vs. abi_checked v then Inr vs else Inl Runtime_error)"
    by (intro sequenceE_map_eq) simp
  then show ?case by (simp add: Struct_clone_def)
qed (auto simp: Uint_clone_def Uint_newValue_def Uint_verifyExtent_def Int_clone_def Int_newValue_def
    Int_verifyExtent_def FixedBytes_clone_def FixedBytes_newValue_def FixedBytes_verify_def
    MAX_FIXED_BYTES_LENGTH_def Boolean_clone_def DynamicBytes_clone_def Addr_clone_def String_clone_def)

text \<open>What \<open>isEqual\<close> compares: the values without names, extents and the size of \<open>bytesN\<close>.\<close>

fun abi_erase :: "abi_value \<Rightarrow> abi_value" where
  "abi_erase (Uint n u e) = Uint [] u 0"
| "abi_erase (IntV n i e) = IntV [] i 0"
| "abi_erase (Boolean n b) = Boolean [] b"
| "abi_erase (DynamicBytes n bs) = DynamicBytes [] bs"
| "abi_erase (FixedBytes n k bs) = FixedBytes [] 0 bs"
| "abi_erase (Addr n s) = Addr [] s"
| "abi_erase (String n s) = String [] s"
| "abi_erase (FixedList n d vs) = FixedList [] d (map abi_erase vs)"
| "abi_erase (DynamicList n vs) = DynamicList [] (map abi_erase vs)"
| "abi_erase (Struct n vs) = Struct [] (map abi_erase vs)"

lemma eqs_erase:
  assumes "\<And>v' v. (v', v) \<in> set (zip vs' vs) \<Longrightarrow> isEqual v' v \<longleftrightarrow> abi_erase v' = abi_erase v"
    and "length vs' = length vs"
  shows "list_all id (map (\<lambda>(v', v). isEqual v' v) (zip vs' vs)) \<longleftrightarrow> map abi_erase vs = map abi_erase vs'"
  using assms(2,1) by (induction vs' vs rule: list_induct2) auto

lemma isEqual_spec: "isEqual v w \<longleftrightarrow> abi_erase v = abi_erase w"
proof (induction v w rule: isEqual.induct)
  case (1 n d vs other)
  show ?case
  proof (cases other)
    case (FixedList n' d' vs')
    show ?thesis
      using 1 [OF FixedList] eqs_erase [of vs' vs] by (auto simp: FixedList FixedList_isEqual_def dest: map_eq_imp_length_eq)
  qed (simp_all)
next
  case (2 n vs other)
  show ?case
  proof (cases other)
    case (DynamicList n' vs')
    show ?thesis
      using 2 [OF DynamicList] eqs_erase [of vs' vs]
      by (auto simp: DynamicList DynamicList_isEqual_def dest: map_eq_imp_length_eq)
  qed (simp_all)
next
  case (3 n vs other)
  show ?case
  proof (cases other)
    case (Struct n' vs')
    show ?thesis
      using 3 [OF Struct] eqs_erase [of vs' vs]
      by (auto simp: Struct Struct_isEqual_def dest: map_eq_imp_length_eq)
  qed (simp_all)
qed (auto simp: Uint_isEqual_def Int_isEqual_def Boolean_isEqual_def DynamicBytes_isEqual_def FixedBytes_isEqual_def
    Addr_isEqual_def String_isEqual_def split: abi_value.splits)

end
