(* ===== verification/AbiDefinition.thy ===== *)
theory AbiDefinition
  imports AbiTypes
begin

text \<open>
  The definition of a contract interface: types by their names
  (\<open>utilities/abi/ContractABIMethodDefinition.{h,cpp}\<close>), methods and events
  (\<open>ContractABIDefinition.{h,cpp}\<close>), and the templates the factory builds from them
  (\<open>ContractABIDefinitionFactory.cpp\<close>).

  The string algorithms of boost and the hash function are parameters. \<open>std::stoi\<close> and
  \<open>std::string::find\<close> belong to the standard library and are defined here.
\<close>

record boost_text =
  trim :: "string \<Rightarrow> string"
  starts_with :: "string \<Rightarrow> string \<Rightarrow> bool"
  replace_all :: "string \<Rightarrow> string \<Rightarrow> string \<Rightarrow> string"
  split_commas :: "string \<Rightarrow> string list"

section \<open>Strings\<close>

definition isspace :: "char \<Rightarrow> bool" where
  "isspace c \<longleftrightarrow> c = CHR '' '' \<or> (9 \<le> (of_char c :: nat) \<and> (of_char c :: nat) \<le> 13)"

definition isdigit :: "char \<Rightarrow> bool" where
  "isdigit c \<longleftrightarrow> 48 \<le> (of_char c :: nat) \<and> (of_char c :: nat) \<le> 57"

definition digits_value :: "string \<Rightarrow> int" where
  "digits_value s = foldl (\<lambda>v c. 10 * v + (int (of_char c) - 48)) 0 s"

text \<open>\<open>std::stoi\<close>: white space, a sign and the longest run of digits; \<open>None\<close> when it throws.\<close>

definition stoi_digits :: "int \<Rightarrow> string \<Rightarrow> int option" where
  "stoi_digits sign s =
     (let ds = takeWhile isdigit s; v = sign * digits_value ds
      in if ds = [] \<or> v < - (2 ^ 31) \<or> v \<ge> 2 ^ 31 then None else Some v)"

definition stoi :: "string \<Rightarrow> int option" where
  "stoi s =
     (case dropWhile isspace s of
        [] \<Rightarrow> None
      | c # cs \<Rightarrow> if c = CHR ''-'' then stoi_digits (- 1) cs
                 else if c = CHR ''+'' then stoi_digits 1 cs else stoi_digits 1 (c # cs))"

text \<open>The conversion of an \<open>int\<close> to \<open>size_t\<close>.\<close>

definition to_size :: "int \<Rightarrow> nat" where
  "to_size i = unat (word_of_int i :: u64)"

definition find_from :: "char \<Rightarrow> nat \<Rightarrow> string \<Rightarrow> nat option" where
  "find_from c p s = (let q = p + length (takeWhile (\<lambda>d. d \<noteq> c) (drop p s)) in if q < length s then Some q else None)"

lemma find_from_bounds: "find_from c p s = Some q \<Longrightarrow> p \<le> q \<and> q < length s"
  by (auto simp: find_from_def Let_def split: if_splits)

text \<open>\<open>s.find(sub) != npos\<close>.\<close>

fun contains :: "string \<Rightarrow> string \<Rightarrow> bool" where
  "contains sub [] = (sub = [])"
| "contains sub (c # s) = (take (length sub) (c # s) = sub \<or> contains sub s)"

section \<open>Type names\<close>

record type_helper =
  m_type :: string
  m_baseType :: string
  m_extents :: "nat list"

function reset_loop :: "boost_text \<Rightarrow> string \<Rightarrow> nat \<Rightarrow> abi_exn + nat list" where
  "reset_loop B strType leftBracketBak =
     (if leftBracketBak < length strType then
        (case (find_from (CHR ''['') leftBracketBak strType, find_from (CHR '']'') leftBracketBak strType) of
           (Some leftBracket, Some rightBracket) \<Rightarrow>
             if leftBracket \<ge> rightBracket then Inl Runtime_error
             else
               let digit = trim B (take (rightBracket - leftBracket - 1) (drop (leftBracket + 1) strType))
               in bindE (if digit = [] then Inr 0
                         else (case stoi digit of None \<Rightarrow> Inl Runtime_error | Some i \<Rightarrow> Inr (to_size i)))
                    (\<lambda>e. bindE (reset_loop B strType (rightBracket + 1)) (\<lambda>es. Inr (e # es)))
         | _ \<Rightarrow> Inl Runtime_error)
      else Inr [])"
  by pat_completeness auto
termination
  by (relation "measure (\<lambda>(B, s, l). length s - l)") (auto dest!: find_from_bounds [OF sym])

declare reset_loop.simps [simp del]

definition reset :: "boost_text \<Rightarrow> string \<Rightarrow> abi_exn + type_helper" where
  "reset B str =
     (let strType = trim B str in
      if strType = [] then Inl Runtime_error
      else
        (case find_from (CHR ''['') 0 strType of
           None \<Rightarrow> Inr \<lparr>m_type = strType, m_baseType = strType, m_extents = []\<rparr>
         | Some firstLeftBracket \<Rightarrow>
             bindE (reset_loop B strType firstLeftBracket) (\<lambda>es.
               Inr \<lparr>m_type = strType, m_baseType = take firstLeftBracket strType, m_extents = es\<rparr>)))"

definition extentsSize :: "type_helper \<Rightarrow> nat" where
  "extentsSize h = length (m_extents h)"

definition extent :: "nat \<Rightarrow> type_helper \<Rightarrow> nat" where
  "extent index h = (if index > extentsSize h then 0 else m_extents h ! (index - 1))"

definition isFixedList :: "type_helper \<Rightarrow> bool" where
  "isFixedList h \<longleftrightarrow> extentsSize h > 0 \<and> extent (extentsSize h) h > 0"

definition isDynamicList :: "type_helper \<Rightarrow> bool" where
  "isDynamicList h \<longleftrightarrow> extentsSize h > 0 \<and> extent (extentsSize h) h = 0"

definition isTuple :: "type_helper \<Rightarrow> bool" where
  "isTuple h \<longleftrightarrow> contains ''tuple'' (m_baseType h)"

definition removeExtent :: "type_helper \<Rightarrow> type_helper \<times> bool" where
  "removeExtent h =
     (let sz = extentsSize h in
      if sz > 0 then (h\<lparr>m_extents := take (sz - 1) (m_extents h)\<rparr>, True) else (h, False))"

datatype named_type =
  NamedType (nt_name: string) (nt_type: string) (nt_indexed: bool) (nt_components: "named_type list")

text \<open>\<open>result.pop_back()\<close> when the last character is a comma.\<close>

definition pop_comma :: "string \<Rightarrow> string" where
  "pop_comma s = (if s \<noteq> [] \<and> List.last s = CHR '','' then butlast s else s)"

fun getTypeAsString :: "boost_text \<Rightarrow> named_type \<Rightarrow> string" where
  "getTypeAsString B (NamedType n ty i cs) =
     (if \<not> starts_with B ty ''tuple'' then ty
      else
        let tupleRawString = pop_comma (concat (map (\<lambda>c. getTypeAsString B c @ '','') cs))
        in replace_all B ty ''tuple'' (''('' @ tupleRawString @ '')''))"

section \<open>Methods and events\<close>

record abi_method =
  am_name :: string
  am_type :: string
  am_constant :: bool
  am_payable :: bool
  am_anonymous :: bool
  am_stateMutability :: string
  am_inputs :: "named_type list"
  am_outputs :: "named_type list"

definition isConstant :: "abi_method \<Rightarrow> bool" where
  "isConstant m \<longleftrightarrow> am_constant m \<or> am_stateMutability m = ''view''"

definition isPayable :: "abi_method \<Rightarrow> bool" where
  "isPayable m \<longleftrightarrow> am_payable m \<or> am_stateMutability m = ''payable''"

definition getMethodSignatureAsString :: "boost_text \<Rightarrow> abi_method \<Rightarrow> string" where
  "getMethodSignatureAsString B m =
     pop_comma (am_name m @ ''('' @ concat (map (\<lambda>t. getTypeAsString B t @ '','') (am_inputs m))) @ '')''"

text \<open>The hash of a string, as its bytes, and the hexadecimal text of bytes.\<close>

record hash_impl =
  hash_bytes :: "string \<Rightarrow> bytes"
  hash_hex :: "bytes \<Rightarrow> string"

definition getMethodID :: "boost_text \<Rightarrow> hash_impl \<Rightarrow> abi_method \<Rightarrow> bytes" where
  "getMethodID B H m = (let h = hash_bytes H (getMethodSignatureAsString B m) in take 4 h @ replicate (4 - length h) 0)"

definition getMethodIDAsString :: "boost_text \<Rightarrow> hash_impl \<Rightarrow> abi_method \<Rightarrow> string" where
  "getMethodIDAsString B H m = take 8 (hash_hex H (hash_bytes H (getMethodSignatureAsString B m)))"

definition getEventTopicAsString :: "boost_text \<Rightarrow> hash_impl \<Rightarrow> abi_method \<Rightarrow> string" where
  "getEventTopicAsString B H m = take 8 (hash_hex H (hash_bytes H (getMethodSignatureAsString B m)))"

record abi_definition =
  m_methods :: "(string \<times> abi_method list) list"
  m_events :: "(string \<times> abi_method list) list"

definition umap_push :: "string \<Rightarrow> 'a \<Rightarrow> (string \<times> 'a list) list \<Rightarrow> (string \<times> 'a list) list" where
  "umap_push k v mp = umap_set k ((case umap_find k mp of None \<Rightarrow> [] | Some vs \<Rightarrow> vs) @ [v]) mp"

definition addMethod :: "string \<Rightarrow> abi_method \<Rightarrow> abi_definition \<Rightarrow> abi_definition" where
  "addMethod name m d = d\<lparr>m_methods := umap_push name m (m_methods d)\<rparr>"

definition addEvent :: "abi_method \<Rightarrow> abi_definition \<Rightarrow> abi_definition" where
  "addEvent e d = d\<lparr>m_events := umap_push (am_name e) e (m_events d)\<rparr>"

definition methodIDs :: "boost_text \<Rightarrow> hash_impl \<Rightarrow> string \<Rightarrow> abi_definition \<Rightarrow> string list" where
  "methodIDs B H methodName d =
     (case umap_find methodName (m_methods d) of None \<Rightarrow> [] | Some ms \<Rightarrow> map (getMethodIDAsString B H) ms)"

definition methodNames :: "abi_definition \<Rightarrow> string list" where
  "methodNames d = map fst (m_methods d)"

definition getMethod :: "string \<Rightarrow> bool \<Rightarrow> abi_definition \<Rightarrow> abi_exn + abi_method list" where
  "getMethod methodName allowOverload d =
     (case umap_find methodName (m_methods d) of
        None \<Rightarrow> Inl Runtime_error
      | Some ms \<Rightarrow> if \<not> allowOverload \<and> length ms \<noteq> 1 then Inl Runtime_error else Inr ms)"

definition getMethodByMethodID :: "boost_text \<Rightarrow> hash_impl \<Rightarrow> string \<Rightarrow> abi_definition \<Rightarrow> abi_exn + abi_method" where
  "getMethodByMethodID B H methodID d =
     (case find (\<lambda>m. getMethodIDAsString B H m = methodID) (concat (map snd (m_methods d))) of
        Some m \<Rightarrow> Inr m | None \<Rightarrow> Inl Runtime_error)"

definition getEvent :: "string \<Rightarrow> bool \<Rightarrow> abi_definition \<Rightarrow> abi_exn + abi_method list" where
  "getEvent eventName allowOverload d =
     (case umap_find eventName (m_events d) of
        None \<Rightarrow> Inl Runtime_error
      | Some es \<Rightarrow> if \<not> allowOverload \<and> length es \<noteq> 1 then Inl Runtime_error else Inr es)"

definition getEventByTopic :: "boost_text \<Rightarrow> hash_impl \<Rightarrow> string \<Rightarrow> abi_definition \<Rightarrow> abi_exn + abi_method" where
  "getEventByTopic B H eventTopic d =
     (case find (\<lambda>e. getMethodIDAsString B H e = eventTopic) (concat (map snd (m_events d))) of
        Some e \<Rightarrow> Inr e | None \<Rightarrow> Inl Runtime_error)"

end
