(* ===== verification/AbiFactory.thy ===== *)
theory AbiFactory
  imports AbiDefinition
begin

text \<open>
  \<open>ContractABIDefinitionFactory\<close>: the templates that values are encoded from and decoded into,
  and the definitions read from the JSON description of a contract. The helper that holds the
  dimensions of an array type is shared by the calls that build its elements, so it is passed on
  and returned.
\<close>

section \<open>Templates\<close>

text \<open>The number after the name of an elementary type.\<close>

definition type_number :: "string \<Rightarrow> nat \<Rightarrow> abi_exn + nat" where
  "type_number strType k =
     (case stoi (drop k strType) of None \<Rightarrow> Inl Runtime_error | Some i \<Rightarrow> Inr (to_size i))"

definition buildBaseAbstractType :: "boost_text \<Rightarrow> type_helper \<Rightarrow> abi_exn + abi_value" where
  "buildBaseAbstractType B h =
     (let strType = m_baseType h in
      if starts_with B strType ''uint'' then
        bindE (if length strType > 4 then type_number strType 4 else Inr 256) (\<lambda>extent. Uint_newValue extent 0)
      else if starts_with B strType ''int'' then
        bindE (if length strType > 3 then type_number strType 3 else Inr 256) (\<lambda>extent. Int_newValue extent 0)
      else if starts_with B strType ''bool'' then Inr (Boolean [] False)
      else if starts_with B strType ''string'' then Inr (String [] [])
      else if strType = ''bytes'' then Inr (DynamicBytes [] [])
      else if starts_with B strType ''bytes'' then bindE (type_number strType 5) FixedBytes_newType
      else if starts_with B strType ''address'' then Inr (Addr [] [])
      else Inl Runtime_error)"

text \<open>The parameter of \<open>FixedList::newValue\<close> is an \<open>unsigned\<close>.\<close>

definition FixedList_dimension :: "nat \<Rightarrow> nat" where
  "FixedList_dimension dimension = unat (word_of_nat dimension :: u32)"

lemma removeExtent_less: "isFixedList h \<or> isDynamicList h \<Longrightarrow> length (m_extents (fst (removeExtent h))) < length (m_extents h)"
  by (auto simp: isFixedList_def isDynamicList_def removeExtent_def extentsSize_def Let_def)

lemma components_less: "size_list size (nt_components nt) < size nt"
  by (cases nt) simp

text \<open>
  \<open>buildMembers\<close> is the loop of \<open>buildFixedList\<close> and \<open>buildComponents\<close> that of
  \<open>buildTuple\<close>.
\<close>

function (sequential)
  buildAbstractType :: "boost_text \<Rightarrow> named_type \<Rightarrow> type_helper \<Rightarrow> abi_exn + abi_value \<times> type_helper" and
  buildMembers :: "boost_text \<Rightarrow> named_type \<Rightarrow> nat \<Rightarrow> type_helper \<Rightarrow> abi_exn + abi_value list \<times> type_helper" and
  buildComponents :: "boost_text \<Rightarrow> named_type list \<Rightarrow> abi_exn + abi_value list"
where
  "buildAbstractType B nt h =
     bindE
       (if isFixedList h then
          let dimension = extent (extentsSize h) h in
          bindE (buildMembers B nt dimension (fst (removeExtent h))) (\<lambda>(vs, h).
            Inr (FixedList [] (FixedList_dimension dimension) (fold FixedList_addMember vs []), h))
        else if isDynamicList h then
          bindE (buildAbstractType B nt (fst (removeExtent h))) (\<lambda>(v, h).
            Inr (DynamicList [] (DynamicList_addMember v []), h))
        else if isTuple h then bindE (buildComponents B (nt_components nt)) (\<lambda>vs. Inr (Struct [] vs, h))
        else bindE (buildBaseAbstractType B h) (\<lambda>v. Inr (v, h)))
       (\<lambda>(v, h). Inr (setName (nt_name nt) v, h))"
| "buildMembers B nt 0 h = Inr ([], h)"
| "buildMembers B nt (Suc k) h =
     bindE (buildAbstractType B nt h) (\<lambda>(v, h).
     bindE (buildMembers B nt k h) (\<lambda>(vs, h). Inr (v # vs, h)))"
| "buildComponents B [] = Inr []"
| "buildComponents B (nt # nts) =
     bindE (reset B (nt_type nt)) (\<lambda>helper.
     bindE (buildAbstractType B nt helper) (\<lambda>(v, _).
     bindE (buildComponents B nts) (\<lambda>vs. Inr (v # vs))))"
  by pat_completeness auto
termination
proof -
  let ?R = "inv_image (less_than <*lex*> less_than <*lex*> less_than)
    (\<lambda>x. case x of Inl (B, nt, h) \<Rightarrow> (size nt, length (m_extents h), 0)
      | Inr (Inl (B, nt, k, h)) \<Rightarrow> (size nt, length (m_extents h), Suc k)
      | Inr (Inr (B, nts)) \<Rightarrow> (size_list size nts, 0, 0))"
  let ?dom = "buildAbstractType_buildMembers_buildComponents_dom"
  have shrinks: "?dom (Inl (B, nt, h)) \<Longrightarrow> (\<And>v h'. buildAbstractType B nt h = Inr (v, h') \<Longrightarrow>
      length (m_extents h') \<le> length (m_extents h))"
    "?dom (Inr (Inl (B, nt, k, h))) \<Longrightarrow> (\<And>vs h'. buildMembers B nt k h = Inr (vs, h') \<Longrightarrow>
      length (m_extents h') \<le> length (m_extents h))"
    "?dom (Inr (Inr (B, nts))) \<Longrightarrow> True"
    for B nt h k nts
  proof (induction B nt h and B nt k h and B nts rule: buildAbstractType_buildMembers_buildComponents.pinduct)
    case (1 B nt h)
    note le = removeExtent_less [of h, THEN less_imp_le]
    show ?case using 1(5) 1(2) [OF _ refl] 1(3) le
      unfolding buildAbstractType.psimps [OF 1(1)]
      by (auto simp: bindE_Inr_iff Let_def split: if_splits dest: le_trans)
  next
    case (3 B nt k h)
    show ?case using 3(4) 3(2) 3(3)
      unfolding buildMembers.psimps(2) [OF 3(1)] by (fastforce simp: bindE_Inr_iff intro: le_trans)
  qed (simp_all add: buildMembers.psimps)
  show ?thesis
    by (relation ?R) (auto simp: removeExtent_less components_less le_neq_implies_less dest: shrinks)
qed

declare buildAbstractType.simps [simp del]

section \<open>Templates of methods and events\<close>

text \<open>The loops over the parameters are \<open>buildComponents\<close>: a new helper for each of them.\<close>

definition buildInput :: "boost_text \<Rightarrow> abi_method \<Rightarrow> abi_exn + abi_value" where
  "buildInput B m = bindE (buildComponents B (am_inputs m)) (\<lambda>vs. Inr (Struct [] vs))"

definition buildOutput :: "boost_text \<Rightarrow> abi_method \<Rightarrow> abi_exn + abi_value" where
  "buildOutput B m = bindE (buildComponents B (am_outputs m)) (\<lambda>vs. Inr (Struct [] vs))"

definition buildEvent :: "boost_text \<Rightarrow> abi_method \<Rightarrow> abi_exn + abi_value" where
  "buildEvent B e =
     bindE (buildComponents B (filter (\<lambda>input. \<not> nt_indexed input) (am_inputs e))) (\<lambda>vs. Inr (Struct [] vs))"

section \<open>Definitions from JSON\<close>

text \<open>The conversions of jsoncpp that only the ABI uses.\<close>

datatype json_vtype = BooleanValue | IntValue | UintValue | StringValue | ArrayValue | ObjectValue

record json_conv =
  json_asBool :: "json \<Rightarrow> json_exn + bool"
  json_asUInt :: "json \<Rightarrow> json_exn + nat"
  json_isConvertibleTo :: "json \<Rightarrow> json_vtype \<Rightarrow> bool"
  json_isArray :: "json \<Rightarrow> bool"
  json_isObject :: "json \<Rightarrow> bool"

definition ofJson :: "json_exn + 'a \<Rightarrow> abi_exn + 'a" where
  "ofJson m = (case m of Inl _ \<Rightarrow> Inl Json_error | Inr x \<Rightarrow> Inr x)"

text \<open>\<open>if (j.isMember(k)) x = read(j[k]);\<close> with the initial value of \<open>x\<close>.\<close>

definition memberOr :: "jsoncpp \<Rightarrow> json \<Rightarrow> string \<Rightarrow> 'a \<Rightarrow> (json \<Rightarrow> abi_exn + 'a) \<Rightarrow> abi_exn + 'a" where
  "memberOr J j k x read =
     bindE (ofJson (json_isMember J j k)) (\<lambda>b.
       if b then bindE (ofJson (json_member J j k)) read else Inr x)"

definition asString :: "jsoncpp \<Rightarrow> json \<Rightarrow> abi_exn + string" where
  "asString J j = ofJson (json_asString J j)"

definition asBool :: "json_conv \<Rightarrow> json \<Rightarrow> abi_exn + bool" where
  "asBool K j = ofJson (json_asBool K j)"

text \<open>\<open>type\<close> is a mandatory field; \<open>e\<close> is thrown when it is missing.\<close>

definition typeField :: "jsoncpp \<Rightarrow> abi_exn \<Rightarrow> json \<Rightarrow> abi_exn + string" where
  "typeField J e j =
     bindE (ofJson (json_isMember J j ''type'')) (\<lambda>b.
       if b then bindE (ofJson (json_member J j ''type'')) (asString J) else Inl e)"

text \<open>The recursion of \<open>buildNamedType\<close> follows the nesting of the document; \<open>n\<close> bounds it.\<close>

fun buildNamedType :: "jsoncpp \<Rightarrow> json_conv \<Rightarrow> nat \<Rightarrow> json \<Rightarrow> abi_exn + named_type" where
  "buildNamedType J K 0 j = Inl Out_of_fuel"
| "buildNamedType J K (Suc n) j =
     bindE (memberOr J j ''name'' [] (asString J)) (\<lambda>name.
     bindE (typeField J Runtime_error j) (\<lambda>ty.
     bindE (memberOr J j ''indexed'' False (asBool K)) (\<lambda>indexed.
     bindE (memberOr J j ''components'' [] (\<lambda>jComponents.
         bindE (ofJson (json_elements J jComponents)) (\<lambda>js. sequenceE (map (buildNamedType J K n) js)))) (\<lambda>components.
       Inr (NamedType name ty indexed components)))))"

definition buildNamedTypes :: "jsoncpp \<Rightarrow> json_conv \<Rightarrow> nat \<Rightarrow> json \<Rightarrow> abi_exn + named_type list" where
  "buildNamedTypes J K n j =
     bindE (ofJson (json_elements J j)) (\<lambda>js. sequenceE (map (buildNamedType J K n) js))"

definition buildMethod_json :: "jsoncpp \<Rightarrow> json_conv \<Rightarrow> nat \<Rightarrow> json \<Rightarrow> abi_exn + abi_method" where
  "buildMethod_json J K n j =
     bindE (memberOr J j ''name'' [] (asString J)) (\<lambda>name.
     bindE (typeField J Invalid_argument j) (\<lambda>ty.
     bindE (memberOr J j ''constant'' False (asBool K)) (\<lambda>cnst.
     bindE (memberOr J j ''payable'' False (asBool K)) (\<lambda>payable.
     bindE (memberOr J j ''anonymous'' False (asBool K)) (\<lambda>anonymous.
     bindE (memberOr J j ''stateMutability'' [] (asString J)) (\<lambda>stateMutability.
     bindE (memberOr J j ''inputs'' [] (buildNamedTypes J K n)) (\<lambda>inputs.
     bindE (memberOr J j ''outputs'' [] (buildNamedTypes J K n)) (\<lambda>outputs.
       Inr \<lparr>am_name = name, am_type = ty, am_constant = cnst, am_payable = payable, am_anonymous = anonymous,
            am_stateMutability = stateMutability, am_inputs = inputs, am_outputs = outputs\<rparr>))))))))"

definition CONSTRUCTOR_TYPE :: string where "CONSTRUCTOR_TYPE = ''constructor''"
definition FUNCTION_TYPE :: string where "FUNCTION_TYPE = ''function''"
definition EVENT_TYPE :: string where "EVENT_TYPE = ''event''"
definition FALLBACK_TYPE :: string where "FALLBACK_TYPE = ''fallback''"
definition RECEIVE_TYPE :: string where "RECEIVE_TYPE = ''receive''"

definition buildMethod_sig :: "boost_text \<Rightarrow> string \<Rightarrow> abi_exn + abi_method" where
  "buildMethod_sig B methodSig =
     (case (find_from (CHR ''('') 0 methodSig, find_from (CHR '')'') 0 methodSig) of
        (Some p0, Some p1) \<Rightarrow>
          if p0 \<ge> p1 then Inl Runtime_error
          else
            let name = trim B (take p0 methodSig) in
            if name = [] then Inl Runtime_error
            else
              let strType = trim B (take (p1 - p0 - 1) (drop (p0 + 1) methodSig)) in
              if contains ''tuple'' strType then Inl Runtime_error
              else
                let types = filter (\<lambda>ty. ty \<noteq> []) (map (trim B) (split_commas B strType))
                in Inr \<lparr>am_name = name, am_type = FUNCTION_TYPE, am_constant = False, am_payable = False,
                        am_anonymous = False, am_stateMutability = [],
                        am_inputs = map (\<lambda>ty. NamedType [] ty False []) types, am_outputs = []\<rparr>
      | _ \<Rightarrow> Inl Runtime_error)"

definition addDefinition :: "abi_method \<Rightarrow> abi_definition \<Rightarrow> abi_definition" where
  "addDefinition m d =
     (if am_type m = CONSTRUCTOR_TYPE then addMethod CONSTRUCTOR_TYPE m d
      else if am_type m = FALLBACK_TYPE then addMethod FALLBACK_TYPE m d
      else if am_type m = RECEIVE_TYPE then addMethod RECEIVE_TYPE m d
      else if am_type m = FUNCTION_TYPE then addMethod (am_name m) m d
      else if am_type m = EVENT_TYPE then addEvent m d
      else d)"

definition buildABI_json :: "jsoncpp \<Rightarrow> json_conv \<Rightarrow> nat \<Rightarrow> json \<Rightarrow> abi_exn + abi_definition" where
  "buildABI_json J K n jAbi =
     bindE (ofJson (json_elements J jAbi)) (\<lambda>js.
     bindE (sequenceE (map (buildMethod_json J K n) js)) (\<lambda>ms.
       Inr (fold addDefinition ms \<lparr>m_methods = [], m_events = []\<rparr>)))"

definition parseABI :: "jsoncpp \<Rightarrow> string \<Rightarrow> abi_exn + json" where
  "parseABI J abi = (case json_parse J abi of None \<Rightarrow> Inl Runtime_error | Some j \<Rightarrow> Inr j)"

definition buildABI :: "jsoncpp \<Rightarrow> json_conv \<Rightarrow> nat \<Rightarrow> string \<Rightarrow> abi_exn + abi_definition" where
  "buildABI J K n abi = bindE (parseABI J abi) (buildABI_json J K n)"

fun buildMethod_named_loop :: "jsoncpp \<Rightarrow> json_conv \<Rightarrow> nat \<Rightarrow> string \<Rightarrow> json list \<Rightarrow> abi_exn + abi_method list" where
  "buildMethod_named_loop J K n methodName [] = Inr []"
| "buildMethod_named_loop J K n methodName (j # js) =
     bindE (bindE (ofJson (json_member J j ''name'')) (asString J)) (\<lambda>name.
     bindE (bindE (ofJson (json_member J j ''type'')) (asString J)) (\<lambda>ty.
       if ty = EVENT_TYPE then buildMethod_named_loop J K n methodName js
       else if methodName = name \<or> (methodName = CONSTRUCTOR_TYPE \<and> ty = methodName) then
         bindE (buildMethod_json J K n j) (\<lambda>m.
         bindE (buildMethod_named_loop J K n methodName js) (\<lambda>ms. Inr (m # ms)))
       else buildMethod_named_loop J K n methodName js))"

definition buildMethod_named :: "jsoncpp \<Rightarrow> json_conv \<Rightarrow> nat \<Rightarrow> string \<Rightarrow> string \<Rightarrow> abi_exn + abi_method list" where
  "buildMethod_named J K n abi methodName =
     bindE (parseABI J abi) (\<lambda>jABI.
     bindE (ofJson (json_elements J jABI)) (buildMethod_named_loop J K n methodName))"

end
