(* ===== verification/AbiSol.thy ===== *)
theory AbiSol
  imports AbiTypes
begin

text \<open>
  The Solidity codec of ABI values (\<open>utilities/abi/ContractABITypeCodec.cpp\<close>, class
  \<open>ContractABITypeCodecSolImpl\<close>). \<open>serialize\<close> appends to a buffer; the definitions give
  the bytes appended, or the exception, after which the callers discard the buffer. In
  \<open>deserialize\<close> offsets are \<open>size_t\<close>, a 64 bit word, and the running offset
  \<open>currentOffset\<close> is an \<open>int\<close>, a 32 bit word that is sign-extended when it is used as
  an offset.
\<close>

section \<open>Serialization\<close>

definition ser_u256 :: "abi_ext \<Rightarrow> u256 \<Rightarrow> bytes" where
  "ser_u256 X u = h256_of_u256 X u"

definition ser_s256 :: "abi_ext \<Rightarrow> int \<Rightarrow> bytes" where
  "ser_s256 X i = h256_of_u256 X (s2u X i)"

definition ser_bool :: "abi_ext \<Rightarrow> bool \<Rightarrow> bytes" where
  "ser_bool X b = ser_u256 X (if b then 1 else 0)"

definition ser_address :: "bytes \<Rightarrow> bytes" where
  "ser_address bs = replicate 12 0 @ bs"

definition ser_bytesN :: "bytes \<Rightarrow> abi_exn + bytes" where
  "ser_bytesN bs = (if length bs > 32 then Inl Runtime_error else Inr (bs @ replicate (32 - length bs) 0))"

definition ser_bytes :: "abi_ext \<Rightarrow> bytes \<Rightarrow> bytes" where
  "ser_bytes X bs = h256_of_u256 X (word_of_nat (length bs)) @ bs @
     replicate ((length bs + 31) div MAX_BYTE_LENGTH * MAX_BYTE_LENGTH - length bs) 0"

definition ser_string :: "abi_ext \<Rightarrow> string \<Rightarrow> bytes" where
  "ser_string X s = h256_of_u256 X (word_of_nat (length s)) @ bytes_of_string s @
     replicate ((length s + 31) div MAX_BYTE_LENGTH * MAX_BYTE_LENGTH - length s) 0"

text \<open>
  The loops over the members of a composite value: each member comes with the result of
  serializing it and the result of its \<open>dynamicType()\<close>.
\<close>

fun ser_list_loop :: "abi_ext \<Rightarrow> ((abi_exn + bytes) \<times> (abi_exn + bool)) list \<Rightarrow> nat \<Rightarrow> bytes \<Rightarrow> bytes \<Rightarrow> abi_exn + bytes" where
  "ser_list_loop X [] offset offsetBuffer valueBuffer = Inr (offsetBuffer @ valueBuffer)"
| "ser_list_loop X ((ser, dyn) # ms) offset offsetBuffer valueBuffer =
     bindE ser (\<lambda>tempBuffer. bindE dyn (\<lambda>d.
       if d then ser_list_loop X ms (offset + length tempBuffer)
              (offsetBuffer @ ser_u256 X (word_of_nat offset)) (valueBuffer @ tempBuffer)
       else ser_list_loop X ms offset offsetBuffer (valueBuffer @ tempBuffer)))"

definition ser_dynamicList :: "abi_ext \<Rightarrow> ((abi_exn + bytes) \<times> (abi_exn + bool)) list \<Rightarrow> abi_exn + bytes" where
  "ser_dynamicList X ms =
     bindE (ser_list_loop X ms (length ms * MAX_BYTE_LENGTH) [] [])
       (\<lambda>body. Inr (ser_u256 X (word_of_nat (length ms)) @ body))"

definition ser_fixedList :: "abi_ext \<Rightarrow> ((abi_exn + bytes) \<times> (abi_exn + bool)) list \<Rightarrow> abi_exn + bytes" where
  "ser_fixedList X ms = ser_list_loop X ms (length ms * MAX_BYTE_LENGTH) [] []"

fun ser_struct_offset :: "(abi_exn + u32) list \<Rightarrow> nat \<Rightarrow> abi_exn + nat" where
  "ser_struct_offset [] dynamicOffset = Inr dynamicOffset"
| "ser_struct_offset (m # ms) dynamicOffset = bindE m (\<lambda>k. ser_struct_offset ms (dynamicOffset + unat k))"

fun ser_struct_loop :: "abi_ext \<Rightarrow> ((abi_exn + bytes) \<times> (abi_exn + bool)) list \<Rightarrow> nat \<Rightarrow> bytes \<Rightarrow> bytes \<Rightarrow> abi_exn + bytes" where
  "ser_struct_loop X [] dynamicOffset fixedBuffer dynamicBuffer = Inr (fixedBuffer @ dynamicBuffer)"
| "ser_struct_loop X ((ser, dyn) # ms) dynamicOffset fixedBuffer dynamicBuffer =
     bindE ser (\<lambda>tempBuffer. bindE dyn (\<lambda>d.
       if d then ser_struct_loop X ms (dynamicOffset + length tempBuffer)
              (fixedBuffer @ ser_u256 X (word_of_nat dynamicOffset)) (dynamicBuffer @ tempBuffer)
       else ser_struct_loop X ms dynamicOffset (fixedBuffer @ tempBuffer) dynamicBuffer))"

definition ser_struct :: "abi_ext \<Rightarrow> (abi_exn + u32) list \<Rightarrow> ((abi_exn + bytes) \<times> (abi_exn + bool)) list \<Rightarrow> abi_exn + bytes" where
  "ser_struct X offsets ms =
     bindE (ser_struct_offset offsets 0) (\<lambda>dynamicOffset. ser_struct_loop X ms dynamicOffset [] [])"

fun serialize :: "abi_ext \<Rightarrow> abi_value \<Rightarrow> abi_exn + bytes" where
  "serialize X (Boolean n b) = Inr (ser_bool X b)"
| "serialize X (Uint n u e) = Inr (ser_u256 X u)"
| "serialize X (IntV n i e) = Inr (ser_s256 X i)"
| "serialize X (FixedBytes n k bs) = ser_bytesN bs"
| "serialize X (Addr n s) =
     (case address_of_string X s of None \<Rightarrow> Inl Runtime_error | Some bs \<Rightarrow> Inr (ser_address bs))"
| "serialize X (String n s) = Inr (ser_string X s)"
| "serialize X (DynamicBytes n bs) = Inr (ser_bytes X bs)"
| "serialize X (DynamicList n vs) = ser_dynamicList X (map (\<lambda>v. (serialize X v, dynamicType v)) vs)"
| "serialize X (FixedList n d vs) = ser_fixedList X (map (\<lambda>v. (serialize X v, dynamicType v)) vs)"
| "serialize X (Struct n vs) =
     ser_struct X (map offsetAsBytes vs) (map (\<lambda>v. (serialize X v, dynamicType v)) vs)"

section \<open>Deserialization\<close>

definition verifyBufferOffset :: "bytes \<Rightarrow> u64 \<Rightarrow> abi_exn + unit" where
  "verifyBufferOffset buffer offset = (if unat offset \<ge> length buffer then Inl Length_error else Inr ())"

definition des_u256 :: "abi_ext \<Rightarrow> bytes \<Rightarrow> u64 \<Rightarrow> abi_exn + u256" where
  "des_u256 X buffer offset =
     bindE (verifyBufferOffset buffer (offset + 32 - 1)) (\<lambda>_.
       Inr (fromBigEndian X (getCroppedData2 X buffer offset 32)))"

definition des_s256 :: "abi_ext \<Rightarrow> bytes \<Rightarrow> u64 \<Rightarrow> abi_exn + int" where
  "des_s256 X buffer offset = bindE (des_u256 X buffer offset) (\<lambda>u. Inr (u2s X u))"

definition des_bool :: "abi_ext \<Rightarrow> bytes \<Rightarrow> u64 \<Rightarrow> abi_exn + bool" where
  "des_bool X buffer offset = bindE (des_u256 X buffer offset) (\<lambda>u. Inr (u > 0))"

definition des_address :: "abi_ext \<Rightarrow> bytes \<Rightarrow> u64 \<Rightarrow> abi_exn + bytes" where
  "des_address X buffer offset =
     bindE (verifyBufferOffset buffer (offset + 32 - 1)) (\<lambda>_.
       Inr (getCroppedData2 X buffer (offset + 32 - 20) 20))"

definition des_bytesN :: "abi_ext \<Rightarrow> bytes \<Rightarrow> u64 \<Rightarrow> nat \<Rightarrow> abi_exn + bytes" where
  "des_bytesN X buffer offset fixedN =
     (if fixedN > 32 then Inl Runtime_error
      else bindE (verifyBufferOffset buffer (offset + 32 - 1)) (\<lambda>_.
        Inr (getCroppedData2 X buffer offset (word_of_nat fixedN))))"

definition des_bytes :: "abi_ext \<Rightarrow> bytes \<Rightarrow> u64 \<Rightarrow> abi_exn + bytes" where
  "des_bytes X buffer offset =
     bindE (des_u256 X buffer offset) (\<lambda>len.
     bindE (verifyBufferOffset buffer (offset + 32 + u256_to_size X len - 1)) (\<lambda>_.
       Inr (getCroppedData2 X buffer (offset + 32) (u256_to_size X len))))"

definition des_string :: "abi_ext \<Rightarrow> bytes \<Rightarrow> u64 \<Rightarrow> abi_exn + string" where
  "des_string X buffer offset =
     bindE (des_u256 X buffer offset) (\<lambda>len.
     bindE (verifyBufferOffset buffer (offset + 32 + u256_to_size X len - 1)) (\<lambda>_.
       Inr (string_of_bytes (getCroppedData2 X buffer (offset + 32) (u256_to_size X len)))))"

definition assertE :: "abi_ext \<Rightarrow> bool \<Rightarrow> abi_exn + unit" where
  "assertE X b = (if asserts X \<and> \<not> b then Inl Assert_failed else Inr ())"

text \<open>\<open>int currentOffset = _offset\<close>, and its use as an offset.\<close>

definition to_int :: "u64 \<Rightarrow> u32" where "to_int w = ucast w"
definition of_int32 :: "u32 \<Rightarrow> u64" where "of_int32 w = scast w"

lemma size_list_take: "size_list size (take k xs) \<le> size_list size (xs :: abi_value list)"
  by (induction xs arbitrary: k) (auto simp: take_Cons split: nat.splits)

lemma size_list_take_less: "size_list size (take k xs) < Suc (size_list size (xs :: abi_value list))"
  using size_list_take [of k xs] by simp

text \<open>
  The first argument of \<open>des_members\<close> says whether the loop asserts the range of a value
  offset, as the one for \<open>T[N]\<close> does and the one for structures does not; \<open>base\<close> is
  \<open>_offset\<close> and \<open>cur\<close> is \<open>currentOffset\<close>. \<open>des_elements\<close> is the loop for
  \<open>T[]\<close>: \<open>k\<close> elements are still to be read. There each element is read into a
  clone of the template.
\<close>

function (sequential)
  deserialize :: "abi_ext \<Rightarrow> abi_value \<Rightarrow> bytes \<Rightarrow> u64 \<Rightarrow> abi_exn + abi_value" and
  des_members :: "abi_ext \<Rightarrow> bool \<Rightarrow> abi_value list \<Rightarrow> bytes \<Rightarrow> u64 \<Rightarrow> u32 \<Rightarrow> abi_exn + abi_value list" and
  des_elements :: "abi_ext \<Rightarrow> abi_value \<Rightarrow> nat \<Rightarrow> bytes \<Rightarrow> u64 \<Rightarrow> u32 \<Rightarrow> abi_exn + abi_value list"
where
  "deserialize X (Boolean n _) buf off = bindE (des_bool X buf off) (\<lambda>b. Inr (Boolean n b))"
| "deserialize X (Uint n _ e) buf off = bindE (des_u256 X buf off) (\<lambda>u. Inr (Uint n u e))"
| "deserialize X (IntV n _ e) buf off = bindE (des_s256 X buf off) (\<lambda>i. Inr (IntV n i e))"
| "deserialize X (FixedBytes n k _) buf off =
     bindE (des_bytesN X buf off k) (\<lambda>bs. bindE (FixedBytes_verify k bs True) (\<lambda>_. Inr (FixedBytes n k bs)))"
| "deserialize X (Addr n _) buf off = bindE (des_address X buf off) (\<lambda>a. Inr (Addr n (hexPrefixed X a)))"
| "deserialize X (String n _) buf off = bindE (des_string X buf off) (\<lambda>s. Inr (String n s))"
| "deserialize X (DynamicBytes n _) buf off = bindE (des_bytes X buf off) (\<lambda>bs. Inr (DynamicBytes n bs))"
| "deserialize X (DynamicList n vs) buf off =
     bindE (des_u256 X buf off) (\<lambda>listSize.
     bindE (assertE X (listSize < 2 ^ 31 - 1)) (\<lambda>_.
       let off = off + 32 in
       case vs of
         [] \<Rightarrow> Inr (DynamicList n [])
       | t # _ \<Rightarrow> bindE (des_elements X t (unat listSize) buf off (to_int off)) (\<lambda>vs. Inr (DynamicList n vs))))"
| "deserialize X (FixedList n d vs) buf off =
     bindE (assertE X (d = length vs)) (\<lambda>_.
       if d > length vs then Inl Index_out_of_range
       else bindE (des_members X True (take d vs) buf off (to_int off)) (\<lambda>vs'. Inr (FixedList n d (vs' @ drop d vs))))"
| "deserialize X (Struct n vs) buf off =
     bindE (des_members X False vs buf off (to_int off)) (\<lambda>vs. Inr (Struct n vs))"
| "des_members X chk [] buf base cur = Inr []"
| "des_members X chk (t # ts) buf base cur =
     bindE (dynamicType t) (\<lambda>d.
     bindE (if d then
              bindE (des_u256 X buf (of_int32 cur)) (\<lambda>valueOffset.
              bindE (if chk then assertE X (valueOffset > 0 \<and> valueOffset < 2 ^ 63 - 1) else Inr ()) (\<lambda>_.
                deserialize X t buf (base + u256_to_size X valueOffset)))
            else deserialize X t buf (of_int32 cur)) (\<lambda>v.
     bindE (offsetAsBytes v) (\<lambda>k.
     bindE (des_members X chk ts buf base (cur + k)) (\<lambda>vs. Inr (v # vs)))))"
| "des_elements X t 0 buf base cur = Inr []"
| "des_elements X t (Suc k) buf base cur =
     bindE (clone t) (\<lambda>tv. bindE (dynamicType tv) (\<lambda>d.
     bindE (if d then
              bindE (des_u256 X buf (of_int32 cur)) (\<lambda>valueOffset.
              bindE (assertE X (valueOffset < 2 ^ 63 - 1)) (\<lambda>_.
                deserialize X tv buf (base + u256_to_size X valueOffset)))
            else deserialize X tv buf (of_int32 cur)) (\<lambda>v.
     bindE (offsetAsBytes v) (\<lambda>j.
     bindE (des_elements X t k buf base (cur + j)) (\<lambda>vs. Inr (v # vs))))))"
  by pat_completeness auto

termination
proof (relation "inv_image (less_than <*lex*> less_than)
    (\<lambda>x. case x of Inl (X, v, buf, off) \<Rightarrow> (size v, 0)
      | Inr (Inl (X, chk, ts, buf, base, cur)) \<Rightarrow> (size_list size ts, 0)
      | Inr (Inr (X, t, k, buf, base, cur)) \<Rightarrow> (size t, k))")
qed (auto simp: size_list_take_less clone_spec split: if_splits)

end
