(* ===== verification/AbiCodec.thy ===== *)
theory AbiCodec
  imports AbiFactory AbiSol
begin

text \<open>
  \<open>ContractABICodec\<close> (\<open>utilities/abi/ContractABICodec.{h,cpp}\<close>): calls of contract methods are
  encoded from JSON parameters, and inputs, outputs and events are decoded to JSON. The codec of the
  values is reached through \<open>ContractABITypeCodecInterface\<close>, the record \<open>type_codec\<close>.
\<close>

record type_codec =
  codec_serialize :: "abi_value \<Rightarrow> abi_exn + bytes"
  codec_deserialize :: "abi_value \<Rightarrow> bytes \<Rightarrow> u64 \<Rightarrow> abi_exn + abi_value"

definition sol_codec :: "abi_ext \<Rightarrow> type_codec" where
  "sol_codec X = \<lparr>codec_serialize = serialize X, codec_deserialize = deserialize X\<rparr>"

text \<open>
  What the codec relies on: boost, jsoncpp, the hash, and the text forms of bytes and numbers of
  bcos-utilities and boost, which throw on text that is not of the form. \<open>nesting\<close> bounds the
  depth of the JSON description of a type.
\<close>

record abi_env =
  boost :: boost_text
  jcpp :: jsoncpp
  jconv :: json_conv
  hashImpl :: hash_impl
  ext :: abi_ext
  fromHexString :: "string \<Rightarrow> bytes option"
  base64DecodeBytes :: "string \<Rightarrow> bytes option"
  u256_of_string :: "string \<Rightarrow> u256 option"
  s256_of_string :: "string \<Rightarrow> int option"
  nesting :: nat

section \<open>Parameters from JSON\<close>

definition stringToJsonValue :: "abi_env \<Rightarrow> string \<Rightarrow> abi_exn + json" where
  "stringToJsonValue E params = (case json_parse (jcpp E) params of None \<Rightarrow> Inl Runtime_error | Some j \<Rightarrow> Inr j)"

definition JsonTypeMatchCheck :: "abi_env \<Rightarrow> json \<Rightarrow> json_vtype \<Rightarrow> abi_exn + unit" where
  "JsonTypeMatchCheck E j ty = (if \<not> json_isConvertibleTo (jconv E) j ty then Inl Runtime_error else Inr ())"

definition JsonTypeMatchCheckV2 :: "abi_env \<Rightarrow> json \<Rightarrow> json_vtype \<Rightarrow> json_vtype \<Rightarrow> abi_exn + unit" where
  "JsonTypeMatchCheckV2 E j ty0 ty1 =
     (if \<not> (json_isConvertibleTo (jconv E) j ty0 \<or> json_isConvertibleTo (jconv E) j ty1)
      then Inl Runtime_error else Inr ())"

definition orRuntime :: "'a option \<Rightarrow> abi_exn + 'a" where
  "orRuntime r = (case r of None \<Rightarrow> Inl Runtime_error | Some x \<Rightarrow> Inr x)"

definition decodeBytesFromString :: "abi_env \<Rightarrow> string \<Rightarrow> abi_exn + bytes" where
  "decodeBytesFromString E s =
     (if starts_with (boost E) s ''hex://'' then orRuntime (fromHexString E (drop 6 s))
      else if starts_with (boost E) s ''base64://'' then orRuntime (base64DecodeBytes E (drop 9 s))
      else Inl Runtime_error)"

definition isUnsigned :: "boost_text \<Rightarrow> string \<Rightarrow> bool" where
  "isUnsigned B s = (let str = trim B s in str \<noteq> [] \<and> list_all isdigit str)"

definition isSigned :: "boost_text \<Rightarrow> string \<Rightarrow> bool" where
  "isSigned B s =
     (let str = trim B s; str = (if starts_with B str ''-'' then drop 1 str else str)
      in str \<noteq> [] \<and> list_all isdigit str)"

definition init_uint :: "abi_env \<Rightarrow> json \<Rightarrow> abi_exn + u256" where
  "init_uint E j =
     bindE (JsonTypeMatchCheckV2 E j UintValue StringValue) (\<lambda>_.
       if json_isConvertibleTo (jconv E) j UintValue then
         bindE (ofJson (json_asUInt (jconv E) j)) (\<lambda>n. Inr (word_of_nat n))
       else
         bindE (asString (jcpp E) j) (\<lambda>str.
           if \<not> isUnsigned (boost E) str then Inl Runtime_error else orRuntime (u256_of_string E str)))"

definition init_int :: "abi_env \<Rightarrow> json \<Rightarrow> abi_exn + int" where
  "init_int E j =
     bindE (JsonTypeMatchCheckV2 E j IntValue StringValue) (\<lambda>_.
       if json_isConvertibleTo (jconv E) j IntValue then ofJson (json_asInt (jcpp E) j)
       else
         bindE (asString (jcpp E) j) (\<lambda>str.
           if \<not> isSigned (boost E) str then Inl Runtime_error else orRuntime (s256_of_string E str)))"

definition init_text :: "abi_env \<Rightarrow> json \<Rightarrow> abi_exn + string" where
  "init_text E j = bindE (JsonTypeMatchCheck E j StringValue) (\<lambda>_. asString (jcpp E) j)"

definition init_bytes :: "abi_env \<Rightarrow> json \<Rightarrow> abi_exn + bytes" where
  "init_bytes E j = bindE (init_text E j) (decodeBytesFromString E)"

text \<open>
  The members of a structure are reached through its map from names, which shares them with the
  list of members: of members with equal names the map holds the one added last.
\<close>

fun set_last_named :: "string \<Rightarrow> abi_value \<Rightarrow> abi_value list \<Rightarrow> abi_value list" where
  "set_last_named k v [] = []"
| "set_last_named k v (w # ws) =
     (if abi_name w = k \<and> \<not> list_ex (\<lambda>w. abi_name w = k) ws then v # ws else w # set_last_named k v ws)"

definition kv_bound :: "(string \<times> abi_value) list \<Rightarrow> nat" where
  "kv_bound kvs = foldr (\<lambda>kv b. max (Suc (size (snd kv))) b) kvs 0"

lemma kv_bound_simps [simp]:
  "kv_bound [] = 0" "kv_bound (kv # kvs) = max (Suc (size (snd kv))) (kv_bound kvs)"
  by (simp_all add: kv_bound_def)

lemma kv_bound_less: "(\<forall>kv \<in> set kvs. Suc (size (snd kv)) < b) \<Longrightarrow> 0 < b \<Longrightarrow> kv_bound kvs < b"
  by (induction kvs) simp_all

lemma umap_set_values: "kv \<in> set (umap_set k v m) \<Longrightarrow> snd kv = v \<or> snd kv \<in> snd ` set m"
  by (auto simp: umap_set_def split: if_splits)

lemma kvValue_values: "kv \<in> set (kvValue vs) \<Longrightarrow> snd kv \<in> set vs"
proof -
  have "snd ` set (snd (fold Struct_addMember ws s)) \<subseteq> snd ` set (snd s) \<union> set ws" for ws s
  proof (induction ws arbitrary: s)
    case (Cons w ws)
    have "snd ` set (snd (Struct_addMember w s)) \<subseteq> snd ` set (snd s) \<union> {w}"
      by (auto simp: Struct_addMember_def dest!: umap_set_values)
    with Cons [of "Struct_addMember w s"] show ?case by auto
  qed simp
  from this [of vs "([], [])"] show "kv \<in> set (kvValue vs) \<Longrightarrow> snd kv \<in> set vs" by (auto simp: kvValue_def)
qed

lemma member_size: "v \<in> set vs \<Longrightarrow> size v < size_list size (vs :: abi_value list)"
  by (induction vs) auto

lemma kvValue_less: "kv_bound (kvValue vs) < Suc (size_list size vs)"
proof (rule kv_bound_less)
  show "\<forall>kv \<in> set (kvValue vs). Suc (size (snd kv)) < Suc (size_list size vs)"
    using member_size [OF kvValue_values] by simp
qed simp

text \<open>
  \<open>initEach\<close> is the loop over the elements of \<open>T[N]\<close> and over the members of a structure
  given as an array, \<open>initClones\<close> that of \<open>T[]\<close>, and \<open>initKeys\<close> the loop over the
  named members of a structure given as an object.
\<close>

function (sequential)
  initAbstractType :: "abi_env \<Rightarrow> abi_value \<Rightarrow> json \<Rightarrow> abi_exn + abi_value" and
  initEach :: "abi_env \<Rightarrow> abi_value list \<Rightarrow> json list \<Rightarrow> abi_exn + abi_value list" and
  initClones :: "abi_env \<Rightarrow> abi_value \<Rightarrow> json list \<Rightarrow> abi_exn + abi_value list" and
  initKeys :: "abi_env \<Rightarrow> (string \<times> abi_value) list \<Rightarrow> json \<Rightarrow> abi_exn + (string \<times> abi_value) list"
where
  "initAbstractType E (Boolean n b) j =
     bindE (JsonTypeMatchCheck E j BooleanValue) (\<lambda>_. bindE (asBool (jconv E) j) (\<lambda>b. Inr (Boolean n b)))"
| "initAbstractType E (Uint n u e) j = bindE (init_uint E j) (\<lambda>u. Inr (Uint n u e))"
| "initAbstractType E (IntV n i e) j = bindE (init_int E j) (\<lambda>i. Inr (IntV n i e))"
| "initAbstractType E (FixedBytes n k bs) j =
     bindE (init_bytes E j) (\<lambda>bs. bindE (FixedBytes_verify k bs True) (\<lambda>_. Inr (FixedBytes n k bs)))"
| "initAbstractType E (Addr n s) j = bindE (init_text E j) (\<lambda>s. Inr (Addr n s))"
| "initAbstractType E (String n s) j = bindE (init_text E j) (\<lambda>s. Inr (String n s))"
| "initAbstractType E (DynamicBytes n bs) j = bindE (init_bytes E j) (\<lambda>bs. Inr (DynamicBytes n bs))"
| "initAbstractType E (DynamicList n vs) j =
     bindE (JsonTypeMatchCheck E j ArrayValue) (\<lambda>_.
     bindE (assertE (ext E) (length vs = 1)) (\<lambda>_.
       case vs of
         [] \<Rightarrow> Inl Index_out_of_range
       | baseTV # _ \<Rightarrow>
           bindE (ofJson (json_elements (jcpp E) j)) (\<lambda>js.
           bindE (initClones E baseTV js) (\<lambda>ws. Inr (DynamicList n ws)))))"
| "initAbstractType E (FixedList n d vs) j =
     bindE (JsonTypeMatchCheck E j ArrayValue) (\<lambda>_.
     bindE (ofJson (json_elements (jcpp E) j)) (\<lambda>js.
       if length js \<noteq> d then Inl Runtime_error
       else if length vs < d then Inl Index_out_of_range
       else bindE (initEach E (take d vs) js) (\<lambda>ws. Inr (FixedList n d (ws @ drop d vs)))))"
| "initAbstractType E (Struct n vs) j =
     bindE (JsonTypeMatchCheckV2 E j ArrayValue ObjectValue) (\<lambda>_.
       if json_isArray (jconv E) j then
         bindE (ofJson (json_elements (jcpp E) j)) (\<lambda>js.
           if length vs \<noteq> length js then Inl Runtime_error
           else bindE (initEach E vs js) (\<lambda>ws. Inr (Struct n ws)))
       else if json_isObject (jconv E) j then
         bindE (initKeys E (kvValue vs) j) (\<lambda>kvs. Inr (Struct n (fold (\<lambda>(k, v). set_last_named k v) kvs vs)))
       else Inr (Struct n vs))"
| "initEach E (v # vs) (j # js) =
     bindE (initAbstractType E v j) (\<lambda>w. bindE (initEach E vs js) (\<lambda>ws. Inr (w # ws)))"
| "initEach E _ _ = Inr []"
| "initClones E baseTV [] = Inr []"
| "initClones E baseTV (j # js) =
     bindE (clone baseTV) (\<lambda>tv.
     bindE (initAbstractType E tv j) (\<lambda>w. bindE (initClones E baseTV js) (\<lambda>ws. Inr (w # ws))))"
| "initKeys E [] j = Inr []"
| "initKeys E ((key, v) # kvs) j =
     bindE (ofJson (json_isMember (jcpp E) j key)) (\<lambda>b.
       if \<not> b then Inl Runtime_error
       else
         bindE (ofJson (json_member (jcpp E) j key)) (\<lambda>jv.
         bindE (initAbstractType E v jv) (\<lambda>w.
         bindE (initKeys E kvs j) (\<lambda>ws. Inr ((key, w) # ws)))))"
  by pat_completeness auto
termination
proof (relation "inv_image (less_than <*lex*> less_than)
    (\<lambda>x. case x of Inl (Inl (E, v, j)) \<Rightarrow> (size v, 0)
      | Inl (Inr (E, vs, js)) \<Rightarrow> (size_list size vs, 0)
      | Inr (Inl (E, t, js)) \<Rightarrow> (size t, length js)
      | Inr (Inr (E, kvs, j)) \<Rightarrow> (kv_bound kvs, length kvs))")
qed (auto simp: size_list_take_less kvValue_less clone_spec split: if_splits)

section \<open>Calls of methods\<close>

definition encodeMethod_json :: "abi_env \<Rightarrow> type_codec \<Rightarrow> abi_method \<Rightarrow> json \<Rightarrow> abi_exn + bytes" where
  "encodeMethod_json E C m jParams =
     bindE (buildInput (boost E) m) (\<lambda>input.
     bindE (initAbstractType E input jParams) (\<lambda>input.
     bindE (codec_serialize C input) (\<lambda>bs. Inr (getMethodID (boost E) (hashImpl E) m @ bs))))"

definition encodeMethod_method :: "abi_env \<Rightarrow> type_codec \<Rightarrow> abi_method \<Rightarrow> string \<Rightarrow> abi_exn + bytes" where
  "encodeMethod_method E C m jsonParams = bindE (stringToJsonValue E jsonParams) (encodeMethod_json E C m)"

definition abiOf :: "abi_env \<Rightarrow> string \<Rightarrow> abi_exn + abi_definition" where
  "abiOf E abi = buildABI (jcpp E) (jconv E) (nesting E) abi"

text \<open>\<open>*contractABI->getMethod(name, false)[0]\<close>.\<close>

definition firstOf :: "'a list \<Rightarrow> abi_exn + 'a" where
  "firstOf xs = (case xs of [] \<Rightarrow> Inl Index_out_of_range | x # _ \<Rightarrow> Inr x)"

definition methodOf :: "abi_env \<Rightarrow> string \<Rightarrow> string \<Rightarrow> abi_exn + abi_method" where
  "methodOf E abi methodName = bindE (abiOf E abi) (\<lambda>d. bindE (getMethod methodName False d) firstOf)"

definition methodByID :: "abi_env \<Rightarrow> string \<Rightarrow> string \<Rightarrow> abi_exn + abi_method" where
  "methodByID E abi methodID = bindE (abiOf E abi) (getMethodByMethodID (boost E) (hashImpl E) methodID)"

definition encodeMethod :: "abi_env \<Rightarrow> type_codec \<Rightarrow> string \<Rightarrow> string \<Rightarrow> string \<Rightarrow> abi_exn + bytes" where
  "encodeMethod E C abi methodName jsonParams =
     bindE (methodOf E abi methodName) (\<lambda>m. encodeMethod_method E C m jsonParams)"

definition encodeConstructor :: "abi_env \<Rightarrow> type_codec \<Rightarrow> string \<Rightarrow> string \<Rightarrow> string \<Rightarrow> abi_exn + bytes" where
  "encodeConstructor E C abi bin jsonParams =
     bindE (case fromHexString E bin of None \<Rightarrow> Inl Bad_hex_character | Some code \<Rightarrow> Inr code) (\<lambda>code.
     bindE (encodeMethod E C abi CONSTRUCTOR_TYPE jsonParams) (\<lambda>bs. Inr (code @ bs)))"

definition encodeMethodByMethodID :: "abi_env \<Rightarrow> type_codec \<Rightarrow> string \<Rightarrow> string \<Rightarrow> string \<Rightarrow> abi_exn + bytes" where
  "encodeMethodByMethodID E C abi methodID jsonParams =
     bindE (methodByID E abi methodID) (\<lambda>m. encodeMethod_method E C m jsonParams)"

definition encodeMethodBySignature :: "abi_env \<Rightarrow> type_codec \<Rightarrow> string \<Rightarrow> string \<Rightarrow> abi_exn + bytes" where
  "encodeMethodBySignature E C methodSig jsonParams =
     bindE (buildMethod_sig (boost E) methodSig) (\<lambda>m. encodeMethod_method E C m jsonParams)"

definition abi_toJsonString :: "abi_env \<Rightarrow> abi_value \<Rightarrow> string" where
  "abi_toJsonString E v = json_write (jcpp E) (abi_toJson (ext E) v)"

definition decodeMethodInput_method :: "abi_env \<Rightarrow> type_codec \<Rightarrow> abi_method \<Rightarrow> bytes \<Rightarrow> abi_exn + string" where
  "decodeMethodInput_method E C m data =
     bindE (buildInput (boost E) m) (\<lambda>input.
     bindE (codec_deserialize C input data 4) (\<lambda>v. Inr (abi_toJsonString E v)))"

definition decodeMethodInput :: "abi_env \<Rightarrow> type_codec \<Rightarrow> string \<Rightarrow> string \<Rightarrow> bytes \<Rightarrow> abi_exn + string" where
  "decodeMethodInput E C abi methodName data =
     bindE (methodOf E abi methodName) (\<lambda>m. decodeMethodInput_method E C m data)"

definition decodeMethodInputByMethodID :: "abi_env \<Rightarrow> type_codec \<Rightarrow> string \<Rightarrow> string \<Rightarrow> bytes \<Rightarrow> abi_exn + string" where
  "decodeMethodInputByMethodID E C abi methodID data =
     bindE (methodByID E abi methodID) (\<lambda>m. decodeMethodInput_method E C m data)"

definition decodeMethodInputByMethodSig :: "abi_env \<Rightarrow> type_codec \<Rightarrow> string \<Rightarrow> bytes \<Rightarrow> abi_exn + string" where
  "decodeMethodInputByMethodSig E C methodSig data =
     bindE (buildMethod_sig (boost E) methodSig) (\<lambda>m. decodeMethodInput_method E C m data)"

definition decodeMethodOutput_method :: "abi_env \<Rightarrow> type_codec \<Rightarrow> abi_method \<Rightarrow> bytes \<Rightarrow> abi_exn + string" where
  "decodeMethodOutput_method E C m data =
     bindE (buildOutput (boost E) m) (\<lambda>output.
     bindE (codec_deserialize C output data 0) (\<lambda>v. Inr (abi_toJsonString E v)))"

definition decodeMethodOutput :: "abi_env \<Rightarrow> type_codec \<Rightarrow> string \<Rightarrow> string \<Rightarrow> bytes \<Rightarrow> abi_exn + string" where
  "decodeMethodOutput E C abi methodName data =
     bindE (methodOf E abi methodName) (\<lambda>m. decodeMethodOutput_method E C m data)"

definition decodeMethodOutputByMethodID :: "abi_env \<Rightarrow> type_codec \<Rightarrow> string \<Rightarrow> string \<Rightarrow> bytes \<Rightarrow> abi_exn + string" where
  "decodeMethodOutputByMethodID E C abi methodID data =
     bindE (methodByID E abi methodID) (\<lambda>m. decodeMethodOutput_method E C m data)"

definition decodeEvent_event :: "abi_env \<Rightarrow> type_codec \<Rightarrow> abi_method \<Rightarrow> bytes \<Rightarrow> abi_exn + string" where
  "decodeEvent_event E C e data =
     bindE (buildEvent (boost E) e) (\<lambda>event.
     bindE (codec_deserialize C event data 0) (\<lambda>v. Inr (abi_toJsonString E v)))"

definition decodeEvent :: "abi_env \<Rightarrow> type_codec \<Rightarrow> string \<Rightarrow> string \<Rightarrow> bytes \<Rightarrow> abi_exn + string" where
  "decodeEvent E C abi eventName data =
     bindE (abiOf E abi) (\<lambda>d. bindE (bindE (getEvent eventName False d) firstOf) (\<lambda>e. decodeEvent_event E C e data))"

definition decodeEventByTopic :: "abi_env \<Rightarrow> type_codec \<Rightarrow> string \<Rightarrow> string \<Rightarrow> bytes \<Rightarrow> abi_exn + string" where
  "decodeEventByTopic E C abi eventTopic data =
     bindE (abiOf E abi) (\<lambda>d.
     bindE (getEventByTopic (boost E) (hashImpl E) eventTopic d) (\<lambda>e. decodeEvent_event E C e data))"

end
