(* ===== verification/AbiNames.thy ===== *)
theory AbiNames
  imports AbiFactory
begin

text \<open>
  Type names and templates: a type name is read back as written, what the factory builds for the
  dimensions of an array type, and how definitions are found by name.
\<close>

section \<open>The laws of the string algorithms\<close>

definition trimmed :: "string \<Rightarrow> bool" where
  "trimmed s \<longleftrightarrow> s = [] \<or> \<not> isspace (hd s) \<and> \<not> isspace (List.last s)"

definition boost_ok :: "boost_text \<Rightarrow> bool" where
  "boost_ok B \<longleftrightarrow> (\<forall>s. trimmed s \<longrightarrow> trim B s = s) \<and>
     (\<forall>s p. starts_with B s p \<longleftrightarrow> take (length p) s = p)"

lemma boost_okD:
  assumes "boost_ok B" shows "trimmed s \<Longrightarrow> trim B s = s" and "starts_with B s p \<longleftrightarrow> take (length p) s = p"
  using assms by (simp_all add: boost_ok_def)

section \<open>Decimal numbers\<close>

fun decimal :: "nat \<Rightarrow> string" where
  "decimal n = (if n < 10 then [char_of (48 + n)] else decimal (n div 10) @ [char_of (48 + n mod 10)])"

declare decimal.simps [simp del]

text \<open>\<open>std::to_string\<close> of a signed number, and what a stream prints for it.\<close>

definition to_string :: "int \<Rightarrow> string" where
  "to_string i = (if i < 0 then CHR ''-'' # decimal (nat (- i)) else decimal (nat i))"

lemma of_char_digit: "n < 10 \<Longrightarrow> (of_char (char_of (48 + n :: nat)) :: nat) = 48 + n"
  by simp

lemma decimal_digits: "list_all isdigit (decimal n) \<and> decimal n \<noteq> []"
proof (induction n rule: decimal.induct)
  case (1 n)
  have "isdigit (char_of (48 + k :: nat))" if "k < 10" for k using that by (simp add: isdigit_def)
  then show ?case using 1 by (subst (1 2) decimal.simps) simp
qed

lemma digits_value_decimal: "digits_value (decimal n) = int n"
proof (induction n rule: decimal.induct)
  case (1 n)
  have "foldl f 0 (xs @ [c]) = f (foldl f 0 xs) c" for f :: "int \<Rightarrow> char \<Rightarrow> int" and xs c by simp
  then show ?case using 1
    by (subst decimal.simps) (simp add: digits_value_def of_char_digit zdiv_int zmod_int)
qed

lemma digit_char: "isdigit c \<Longrightarrow> \<not> isspace c \<and> c \<noteq> CHR ''-'' \<and> c \<noteq> CHR ''+'' \<and> c \<noteq> CHR ''['' \<and> c \<noteq> CHR '']''"
  by (auto simp: isdigit_def isspace_def)

lemma stoi_decimal: "n < 2 ^ 31 \<Longrightarrow> stoi (decimal n) = Some (int n)"
proof -
  assume n: "n < 2 ^ 31"
  obtain c cs where c: "decimal n = c # cs" using decimal_digits by (meson neq_Nil_conv)
  then have d: "isdigit c" using decimal_digits [of n] by simp
  have tw: "takeWhile isdigit (decimal n) = decimal n" using decimal_digits [of n] by (simp add: list_all_iff)
  have "stoi_digits 1 (decimal n) = Some (int n)"
    unfolding stoi_digits_def Let_def tw digits_value_decimal using n decimal_digits [of n] by simp
  then show ?thesis using d digit_char [OF d] by (simp add: stoi_def c)
qed

lemma to_size_nat: "n < 2 ^ 64 \<Longrightarrow> to_size (int n) = n"
  by (simp add: to_size_def unat_word_of_nat_id)

lemma trimmed_decimal: "trimmed (decimal n)"
proof -
  have "isdigit (hd (decimal n))" and "isdigit (List.last (decimal n))"
    using decimal_digits [of n] by (auto simp: list_all_iff)
  then show ?thesis using digit_char by (simp add: trimmed_def)
qed

section \<open>Names of array types\<close>

definition extent_text :: "nat \<Rightarrow> string" where
  "extent_text e = ''['' @ (if e = 0 then [] else decimal e) @ '']''"

definition type_text :: "string \<Rightarrow> nat list \<Rightarrow> string" where
  "type_text base es = base @ concat (map extent_text es)"

lemma find_from_append:
  assumes "c \<notin> set xs"
  shows "find_from c (length pre) (pre @ xs @ c # ys) = Some (length pre + length xs)"
proof -
  have "takeWhile (\<lambda>d. d \<noteq> c) (xs @ c # ys) = xs" using assms by (induction xs) auto
  then show ?thesis by (simp add: find_from_def)
qed

lemma reset_loop_text:
  assumes B: "boost_ok B" and es: "\<forall>e \<in> set es. e < 2 ^ 31"
  shows "reset_loop B (pre @ concat (map extent_text es)) (length pre) = Inr es"
  using es
proof (induction es arbitrary: pre)
  case Nil
  show ?case by (subst reset_loop.simps) simp
next
  case (Cons e es)
  let ?d = "if e = 0 then [] else decimal e" and ?rest = "concat (map extent_text es)"
  let ?s = "pre @ concat (map extent_text (e # es))"
  have s: "?s = pre @ CHR ''['' # ?d @ CHR '']'' # ?rest" by (simp add: extent_text_def)
  have le: "length (extent_text e) = Suc (Suc (length ?d))" by (simp add: extent_text_def)
  have nd: "CHR '']'' \<notin> set ?d" using decimal_digits [of e] by (auto simp: list_all_iff dest: digit_char)
  have l: "find_from (CHR ''['') (length pre) ?s = Some (length pre)"
    unfolding s using find_from_append [of "CHR ''[''" "[]" pre] by simp
  have r: "find_from (CHR '']'') (length pre) ?s = Some (length pre + Suc (length ?d))"
    unfolding s using find_from_append [of "CHR '']''" "CHR ''['' # ?d" pre] nd by simp
  have t: "trim B ?d = ?d" using boost_okD(1) [OF B] trimmed_decimal by (simp add: trimmed_def)
  have v: "(if ?d = [] then Inr 0 else case stoi ?d of None \<Rightarrow> Inl Runtime_error | Some i \<Rightarrow> Inr (to_size i)) = Inr e"
    using Cons.prems decimal_digits [of e] stoi_decimal [of e] by (simp add: to_size_nat)
  have n: "reset_loop B ?s (length pre + Suc (length ?d) + 1) = Inr es"
    using Cons.IH [of "pre @ extent_text e"] Cons.prems by (simp add: le)
  have k: "take (length ?d) (drop (length pre + 1) ?s) = ?d" unfolding s by simp
  show ?case
    using l r t v n k by (subst reset_loop.simps) (simp, simp add: extent_text_def)
qed

lemma reset_text:
  assumes B: "boost_ok B" and b: "base \<noteq> []" "trimmed base" "CHR ''['' \<notin> set base" and es: "\<forall>e \<in> set es. e < 2 ^ 31"
  shows "reset B (type_text base es) = Inr \<lparr>m_type = type_text base es, m_baseType = base, m_extents = es\<rparr>"
proof (cases es)
  case Nil
  have tw: "takeWhile (\<lambda>d. d \<noteq> CHR ''['') base = base" using b(3) by (auto simp: takeWhile_eq_all_conv)
  have "find_from (CHR ''['') 0 base = None" unfolding find_from_def drop_0 tw by simp
  then show ?thesis using Nil b boost_okD(1) [OF B] by (simp add: reset_def type_text_def)
next
  case (Cons e es')
  have "List.last (concat (map extent_text es)) = CHR '']''" and ne: "concat (map extent_text es) \<noteq> []"
    using Cons by (induction es' arbitrary: es e) (auto simp: extent_text_def)
  then have "trimmed (type_text base es)" using b by (simp add: type_text_def trimmed_def isspace_def)
  then have t: "trim B (type_text base es) = type_text base es" by (rule boost_okD(1) [OF B])
  have "\<exists>ys. concat (map extent_text es) = CHR ''['' # ys" using Cons by (simp add: extent_text_def)
  then have f: "find_from (CHR ''['') 0 (type_text base es) = Some (length base)"
    using find_from_append [of "CHR ''[''" base "[]"] b(3) by (auto simp: type_text_def)
  show ?thesis
    using t f b(1) reset_loop_text [OF B es, of base] by (simp add: reset_def type_text_def)
qed

section \<open>What the factory builds for the dimensions of an array type\<close>

text \<open>
  The type the dimensions denote, the innermost dimension first, and the template that the factory
  builds: only the first element of a \<open>T[N]\<close> gets the inner dimensions, since building it
  removes them from the shared helper.
\<close>

definition denoted :: "string \<Rightarrow> abi_value \<Rightarrow> nat list \<Rightarrow> abi_value" where
  "denoted n v es = foldl (\<lambda>v e. if e = 0 then DynamicList n [v] else FixedList n e (replicate e v)) v es"

definition built :: "string \<Rightarrow> abi_value \<Rightarrow> nat list \<Rightarrow> abi_value" where
  "built n v es = foldl (\<lambda>w e. if e = 0 then DynamicList n [w] else FixedList n e (w # replicate (e - 1) v)) v es"

lemma built_snoc:
  "built n v (es @ [e]) = (if e = 0 then DynamicList n [built n v es] else FixedList n e (built n v es # replicate (e - 1) v))"
  by (simp add: built_def)

lemma buildAbstractType_base:
  assumes "m_extents h = []" and "\<not> isTuple h"
  shows "buildAbstractType B nt h = bindE (buildBaseAbstractType B h) (\<lambda>v. Inr (setName (nt_name nt) v, h))"
  using assms by (subst buildAbstractType.simps)
    (simp add: isFixedList_def isDynamicList_def extentsSize_def bindE_assoc)

lemma fold_addMember: "fold FixedList_addMember vs ws = ws @ vs"
  by (induction vs arbitrary: ws) (simp_all add: FixedList_addMember_def)

lemma buildMembers_base:
  assumes "buildAbstractType B nt h = Inr (v, h)"
  shows "buildMembers B nt k h = Inr (replicate k v, h)"
  using assms by (induction k) simp_all

lemma buildAbstractType_built:
  assumes base: "buildAbstractType B nt h = Inr (v, h)" and n: "m_extents h = []" and es: "\<forall>e \<in> set es. e < 2 ^ 31"
  shows "buildAbstractType B nt (h\<lparr>m_extents := es\<rparr>) = Inr (built (nt_name nt) v es, h)"
  using es
proof (induction es rule: rev_induct)
  case Nil
  have "h\<lparr>m_extents := []\<rparr> = h" using n by simp
  then show ?case using base by (simp add: built_def)
next
  case (snoc e es)
  let ?h = "h\<lparr>m_extents := es @ [e]\<rparr>"
  have r: "fst (removeExtent ?h) = h\<lparr>m_extents := es\<rparr>" by (simp add: removeExtent_def extentsSize_def)
  have e: "extent (extentsSize ?h) ?h = e" and z: "extentsSize ?h > 0" by (simp_all add: extent_def extentsSize_def)
  have IH: "buildAbstractType B nt (h\<lparr>m_extents := es\<rparr>) = Inr (built (nt_name nt) v es, h)" using snoc by simp
  show ?case
  proof (cases e)
    case 0
    then show ?thesis using IH r e z
      by (subst buildAbstractType.simps)
        (simp add: isFixedList_def isDynamicList_def DynamicList_addMember_def built_snoc)
  next
    case (Suc k)
    have "buildMembers B nt e (h\<lparr>m_extents := es\<rparr>) = Inr (built (nt_name nt) v es # replicate k v, h)"
      using IH buildMembers_base [OF base] Suc by simp
    moreover have "FixedList_dimension e = e"
      using snoc.prems by (simp add: FixedList_dimension_def unat_word_of_nat_id)
    ultimately show ?thesis using r e z Suc
      by (subst buildAbstractType.simps)
        (simp add: isFixedList_def fold_addMember built_snoc del: buildMembers.simps)
  qed
qed

lemma built_denoted:
  assumes "\<forall>e \<in> set (tl es). e \<le> 1" shows "built n v es = denoted n v es"
proof (cases es)
  case (Cons e es')
  have "foldl (\<lambda>w e. if e = 0 then DynamicList n [w] else FixedList n e (w # replicate (e - 1) v)) w xs =
    foldl (\<lambda>v e. if e = 0 then DynamicList n [v] else FixedList n e (replicate e v)) w xs"
    if "\<forall>e \<in> set xs. e \<le> 1" for w xs
    using that by (induction xs arbitrary: w) (auto simp: le_Suc_eq)
  then show ?thesis using assms Cons by (cases e) (simp_all add: built_def denoted_def)
qed (simp add: built_def denoted_def)

text \<open>The templates of \<open>bytesN\<close>.\<close>

lemma no_tuple_digits: "list_all isdigit s \<Longrightarrow> \<not> contains ''tuple'' s"
proof (induction s)
  case (Cons c s)
  then have "c \<noteq> CHR ''t''" by (auto simp: isdigit_def)
  with Cons show ?case by simp
qed simp

lemma bytesN_template:
  assumes B: "boost_ok B" and k: "0 < k" "k \<le> 32" and h: "m_baseType h = ''bytes'' @ decimal k" "m_extents h = []"
  shows "buildAbstractType B nt h = Inr (FixedBytes (nt_name nt) k [], h)"
proof -
  have d: "list_all isdigit (decimal k)" and ne: "decimal k \<noteq> []" using decimal_digits [of k] by simp_all
  have "\<not> isTuple h" using no_tuple_digits [OF d] by (simp add: isTuple_def h(1))
  moreover have "type_number (''bytes'' @ decimal k) 5 = Inr k"
    using stoi_decimal [of k] k(2) by (simp add: type_number_def to_size_nat)
  then have "buildBaseAbstractType B h = Inr (FixedBytes [] k [])"
    using k ne by (simp add: buildBaseAbstractType_def h(1) boost_okD(2) [OF B] FixedBytes_newType_def
        FixedBytes_verify_def MAX_FIXED_BYTES_LENGTH_def)
  ultimately show ?thesis by (simp add: buildAbstractType_base h(2))
qed

section \<open>The nesting of a description\<close>

text \<open>
  Reading a type recurses into its components; the bound given to it is never reached when it
  exceeds the depth of the document, as members and elements of a value are less deep than it.
\<close>

fun json_depth :: "json \<Rightarrow> nat" where
  "json_depth (JArray js) = Suc (foldr (\<lambda>j d. max (json_depth j) d) js 0)"
| "json_depth (JObject kvs) = Suc (foldr (\<lambda>kv d. max (json_depth (snd kv)) d) kvs 0)"
| "json_depth _ = 0"

definition json_nested :: "jsoncpp \<Rightarrow> bool" where
  "json_nested J \<longleftrightarrow>
     (\<forall>j k v. json_member J j k = Inr v \<longrightarrow> v = JNull \<or> json_depth v < json_depth j) \<and>
     (\<forall>j vs. json_elements J j = Inr vs \<longrightarrow> (\<forall>v \<in> set vs. json_depth v < json_depth j))"

lemma ofJson_Inr: "ofJson m = Inr x \<longleftrightarrow> m = Inr x"
  by (cases m) (simp_all add: ofJson_def)

lemma no_fuel_exn:
  "bindE m f = Inl Out_of_fuel \<longleftrightarrow> m = Inl Out_of_fuel \<or> (\<exists>x. m = Inr x \<and> f x = Inl Out_of_fuel)"
  "ofJson m' \<noteq> Inl Out_of_fuel" "asString J j \<noteq> Inl Out_of_fuel" "asBool K j \<noteq> Inl Out_of_fuel"
  "typeField J Runtime_error j \<noteq> Inl Out_of_fuel"
  by (auto simp: bindE_Inl_iff asString_def asBool_def ofJson_def typeField_def split: sum.splits if_splits)

lemma memberOr_fuel:
  "(\<And>v. json_member J j k = Inr v \<Longrightarrow> read v \<noteq> Inl Out_of_fuel) \<Longrightarrow> memberOr J j k x read \<noteq> Inl Out_of_fuel"
  by (auto simp: memberOr_def no_fuel_exn ofJson_Inr)

lemma sequenceE_fuel: "(\<forall>m \<in> set ms. m \<noteq> Inl Out_of_fuel) \<Longrightarrow> sequenceE ms \<noteq> Inl Out_of_fuel"
  by (induction ms) (simp_all add: no_fuel_exn(1))

lemma buildNamedType_fuel:
  assumes "json_nested J" and "json_depth j < n"
  shows "buildNamedType J K n j \<noteq> Inl Out_of_fuel"
  using assms(2)
proof (induction n arbitrary: j)
  case (Suc n)
  have "bindE (ofJson (json_elements J c)) (\<lambda>js. sequenceE (map (buildNamedType J K n) js)) \<noteq> Inl Out_of_fuel"
    if c: "json_member J j ''components'' = Inr c" for c
  proof -
    have "json_depth c \<le> json_depth j" using assms(1) c by (fastforce simp: json_nested_def)
    then have "\<forall>v \<in> set vs. buildNamedType J K n v \<noteq> Inl Out_of_fuel" if "json_elements J c = Inr vs" for vs
      using assms(1) that Suc by (fastforce simp: json_nested_def)
    then have "sequenceE (map (buildNamedType J K n) vs) \<noteq> Inl Out_of_fuel" if "json_elements J c = Inr vs" for vs
      using that by (intro sequenceE_fuel) simp
    then show ?thesis by (simp add: no_fuel_exn ofJson_Inr)
  qed
  then have "memberOr J j ''components'' [] (\<lambda>c. bindE (ofJson (json_elements J c))
      (\<lambda>js. sequenceE (map (buildNamedType J K n) js))) \<noteq> Inl Out_of_fuel" by (rule memberOr_fuel)
  moreover have "memberOr J j ''name'' [] (asString J) \<noteq> Inl Out_of_fuel"
    and "memberOr J j ''indexed'' False (asBool K) \<noteq> Inl Out_of_fuel" by (rule memberOr_fuel, simp add: no_fuel_exn)+
  ultimately show ?case by (simp add: no_fuel_exn)
qed simp

end
