(* ===== verification/AbiSolProps.thy ===== *)
theory AbiSolProps
  imports AbiSol
begin

text \<open>
  The Solidity codec restores every value it encodes: the laws of the library routines, the
  head-and-tail layout of composite values, and the round trip by induction on the value.
\<close>

section \<open>The library routines\<close>

definition abi_ext_ok :: "abi_ext \<Rightarrow> bool" where
  "abi_ext_ok X \<longleftrightarrow>
     (\<forall>u. h256_of_u256 X u = be_bytes 32 (unat u)) \<and>
     (\<forall>bs. length bs = 32 \<longrightarrow> fromBigEndian X bs = word_of_nat (be_val bs)) \<and>
     (\<forall>i. - (2 ^ 255) \<le> i \<and> i < 2 ^ 255 \<longrightarrow> u2s X (s2u X i) = i) \<and>
     (\<forall>u. unat u < 2 ^ 64 \<longrightarrow> u256_to_size X u = word_of_nat (unat u)) \<and>
     (\<forall>bs s n. unat s + unat n \<le> length bs \<longrightarrow> getCroppedData2 X bs s n = take (unat n) (drop (unat s) bs)) \<and>
     (\<forall>bs. length bs = 20 \<longrightarrow> address_of_string X (hexPrefixed X bs) = Some bs)"

lemma abi_ext_okD:
  assumes "abi_ext_ok X"
  shows "h256_of_u256 X u = be_bytes 32 (unat u)"
    and "length bs = 32 \<Longrightarrow> fromBigEndian X bs = word_of_nat (be_val bs)"
    and "- (2 ^ 255) \<le> i \<Longrightarrow> i < 2 ^ 255 \<Longrightarrow> u2s X (s2u X i) = i"
    and "unat u < 2 ^ 64 \<Longrightarrow> u256_to_size X u = word_of_nat (unat u)"
    and "unat s + unat n \<le> length cs \<Longrightarrow> getCroppedData2 X cs s n = take (unat n) (drop (unat s) cs)"
    and "length ds = 20 \<Longrightarrow> address_of_string X (hexPrefixed X ds) = Some ds"
  using assms unfolding abi_ext_ok_def by blast+

section \<open>Where bytes are\<close>

definition located :: "bytes \<Rightarrow> nat \<Rightarrow> bytes \<Rightarrow> bool" where
  "located buf p bs \<longleftrightarrow> p + length bs \<le> length buf \<and> take (length bs) (drop p buf) = bs"

lemma located_append: "located buf p (xs @ ys) \<longleftrightarrow> located buf p xs \<and> located buf (p + length xs) ys"
proof
  assume "located buf p (xs @ ys)"
  then have l: "p + length xs + length ys \<le> length buf" and t: "take (length xs + length ys) (drop p buf) = xs @ ys"
    by (simp_all add: located_def)
  have "take (length xs) (drop p buf) = take (length xs) (take (length xs + length ys) (drop p buf))" by simp
  also have "\<dots> = xs" using t by simp
  finally have "take (length xs) (drop p buf) = xs" .
  moreover have "take (length ys) (drop (p + length xs) buf) = drop (length xs) (take (length xs + length ys) (drop p buf))"
    by (simp add: drop_take add.commute)
  then have "take (length ys) (drop (p + length xs) buf) = ys" using t by simp
  ultimately show "located buf p xs \<and> located buf (p + length xs) ys" using l by (simp add: located_def)
next
  assume a: "located buf p xs \<and> located buf (p + length xs) ys"
  then have "take (length xs + length ys) (drop p buf) = xs @ ys"
    by (simp add: located_def take_add add.commute)
  then show "located buf p (xs @ ys)" using a by (simp add: located_def)
qed

lemma located_self: "located (pre @ bs @ post) (length pre) bs"
  by (simp add: located_def)

lemma located_length: "located buf p bs \<Longrightarrow> p + length bs \<le> length buf"
  by (simp add: located_def)

section \<open>Reading the base types\<close>

lemma small_offset:
  assumes "p + k \<le> length buf" and "length buf < 2 ^ 31"
  shows "unat (word_of_nat p :: u64) = p" and "unat (word_of_nat p + word_of_nat k :: u64) = p + k"
proof -
  show "unat (word_of_nat p :: u64) = p" using assms by (intro unat_word_of_nat_id) simp
  have "word_of_nat p + word_of_nat k = (word_of_nat (p + k) :: u64)" by simp
  then show "unat (word_of_nat p + word_of_nat k :: u64) = p + k"
    using assms unat_word_of_nat_id [of "p + k", where 'a = 64] by simp
qed

lemma offset_31:
  assumes "p + 32 \<le> length buf" and "length buf < 2 ^ 31"
  shows "unat (word_of_nat p + 32 - 1 :: u64) = p + 31"
proof -
  have e: "word_of_nat p + 32 - 1 = (word_of_nat (p + 31) :: u64)" by simp
  show ?thesis unfolding e by (rule unat_word_of_nat_id) (use assms in simp)
qed

lemma verify_31:
  "p + 32 \<le> length buf \<Longrightarrow> length buf < 2 ^ 31 \<Longrightarrow> verifyBufferOffset buf (word_of_nat p + 32 - 1) = Inr ()"
  unfolding verifyBufferOffset_def by (simp only: offset_31) simp

lemma crop:
  assumes "abi_ext_ok X" and "located buf p bs" and "length buf < 2 ^ 31"
  shows "getCroppedData2 X buf (word_of_nat p) (word_of_nat (length bs)) = bs"
proof -
  have "unat (word_of_nat p :: u64) = p" "unat (word_of_nat (length bs) :: u64) = length bs"
    using located_length [OF assms(2)] assms(3) by (simp_all add: unat_word_of_nat_id)
  then show ?thesis
    using abi_ext_okD(5) [OF assms(1), of "word_of_nat p" "word_of_nat (length bs)" buf] assms(2)
    by (simp add: located_def)
qed

lemma ser_u256_length [simp]: "abi_ext_ok X \<Longrightarrow> length (ser_u256 X u) = 32"
  by (simp add: ser_u256_def abi_ext_okD)

lemma be_val_u256: "be_val (be_bytes 32 (unat (u :: u256))) = unat u"
proof -
  have "unat u < 2 ^ LENGTH(256)" by (rule unsigned_less)
  then show ?thesis by (intro be_val_be_bytes) simp
qed

lemma des_ser_u256:
  assumes "abi_ext_ok X" and "located buf p (ser_u256 X u)" and "length buf < 2 ^ 31"
  shows "des_u256 X buf (word_of_nat p) = Inr u"
proof -
  have "p + 32 \<le> length buf" using located_length [OF assms(2)] assms(1) by simp
  moreover have "getCroppedData2 X buf (word_of_nat p) 32 = be_bytes 32 (unat u)"
    using crop [OF assms] assms(1) by (simp add: ser_u256_def abi_ext_okD(1))
  ultimately show ?thesis
    unfolding des_u256_def verify_31 [OF \<open>p + 32 \<le> length buf\<close> assms(3)]
    using assms(1) by (simp add: abi_ext_okD(2) be_val_u256)
qed

lemma ser_bytes_located:
  assumes "abi_ext_ok X" and "located buf p (ser_bytes X bs)" and "length buf < 2 ^ 31"
  shows "des_bytes X buf (word_of_nat p) = Inr bs"
proof -
  let ?n = "length bs"
  have l: "located buf p (ser_u256 X (word_of_nat ?n))" "located buf (p + 32) bs"
    using assms(1,2) unfolding ser_bytes_def located_append
    by (simp_all add: ser_u256_def abi_ext_okD(1))
  have b: "p + 32 + ?n \<le> length buf" using located_length [OF l(2)] .
  have u: "unat (word_of_nat ?n :: u256) = ?n" using b assms(3) by (intro unat_word_of_nat_id) simp
  have s: "u256_to_size X (word_of_nat ?n) = word_of_nat ?n"
    using abi_ext_okD(4) [OF assms(1), of "word_of_nat ?n", unfolded u] b assms(3) by simp
  have e: "word_of_nat p + 32 + word_of_nat ?n - 1 = (word_of_nat (p + 31 + ?n) :: u64)" by simp
  have "unat (word_of_nat (p + 31 + ?n) :: u64) = p + 31 + ?n" using b assms(3) by (intro unat_word_of_nat_id) simp
  then have v: "verifyBufferOffset buf (word_of_nat p + 32 + word_of_nat ?n - 1) = Inr ()"
    using b unfolding verifyBufferOffset_def e by (simp del: of_nat_add)
  have "getCroppedData2 X buf (word_of_nat p + 32) (word_of_nat ?n) = bs"
    using crop [OF assms(1) l(2) assms(3)] by simp
  then show ?thesis
    using des_ser_u256 [OF assms(1) l(1) assms(3)] s v by (simp add: des_bytes_def)
qed

lemma ser_string_bytes: "ser_string X s = ser_bytes X (bytes_of_string s)"
  by (simp add: ser_string_def ser_bytes_def)

lemma des_string_bytes: "des_string X buf off = bindE (des_bytes X buf off) (\<lambda>bs. Inr (string_of_bytes bs))"
  by (simp add: des_string_def des_bytes_def bindE_assoc)

section \<open>The layout of composite values\<close>

definition enc :: "abi_ext \<Rightarrow> abi_value \<Rightarrow> bytes" where
  "enc X v = (case serialize X v of Inr bs \<Rightarrow> bs | Inl _ \<Rightarrow> [])"

definition dyn :: "abi_value \<Rightarrow> bool" where
  "dyn v \<longleftrightarrow> dynamicType v = Inr True"

text \<open>
  Heads and tails: a dynamic member has the offset of its encoding as its head and the encoding in
  the tail; a static member is its own head.
\<close>

fun heads :: "abi_ext \<Rightarrow> abi_value list \<Rightarrow> nat \<Rightarrow> bytes" where
  "heads X [] q = []"
| "heads X (v # vs) q = (if dyn v then ser_u256 X (word_of_nat q) @ heads X vs (q + length (enc X v))
                         else enc X v @ heads X vs q)"

fun tails :: "abi_ext \<Rightarrow> abi_value list \<Rightarrow> bytes" where
  "tails X [] = []"
| "tails X (v # vs) = (if dyn v then enc X v else []) @ tails X vs"

definition head_size :: "abi_ext \<Rightarrow> abi_value \<Rightarrow> nat" where
  "head_size X v = (if dyn v then 32 else length (enc X v))"

lemma length_heads: "abi_ext_ok X \<Longrightarrow> length (heads X vs q) = sum_list (map (head_size X) vs)"
  by (induction vs arbitrary: q) (simp_all add: head_size_def)

text \<open>A value that the codec handles: its encoding, its kind and its offset are those of its template.\<close>

definition serializes :: "abi_ext \<Rightarrow> abi_value \<Rightarrow> bool" where
  "serializes X v \<longleftrightarrow> serialize X v = Inr (enc X v) \<and> dynamicType v = Inr (dyn v) \<and>
     offsetAsBytes v = Inr (word_of_nat (head_size X v))"

definition decodes :: "abi_ext \<Rightarrow> abi_value \<Rightarrow> abi_value \<Rightarrow> bool" where
  "decodes X t v \<longleftrightarrow> dynamicType t = dynamicType v \<and> offsetAsBytes t = offsetAsBytes v \<and>
     (\<forall>buf p. length buf < 2 ^ 31 \<longrightarrow> located buf p (enc X v) \<longrightarrow> deserialize X t buf (word_of_nat p) = Inr v)"

lemma serializesD:
  assumes "serializes X v"
  shows "serialize X v = Inr (enc X v)" and "dynamicType v = Inr (dyn v)"
    and "offsetAsBytes v = Inr (word_of_nat (head_size X v))"
  using assms by (simp_all add: serializes_def)

lemma decodesD:
  assumes "decodes X t v"
  shows "dynamicType t = dynamicType v" and "offsetAsBytes t = offsetAsBytes v"
    and "length buf < 2 ^ 31 \<Longrightarrow> located buf p (enc X v) \<Longrightarrow> deserialize X t buf (word_of_nat p) = Inr v"
  using assms by (simp_all add: decodes_def)

abbreviation parts :: "abi_ext \<Rightarrow> abi_value list \<Rightarrow> ((abi_exn + bytes) \<times> (abi_exn + bool)) list" where
  "parts X vs \<equiv> map (\<lambda>v. (serialize X v, dynamicType v)) vs"

lemma ser_struct_loop_image:
  assumes "\<forall>v \<in> set vs. serializes X v"
  shows "ser_struct_loop X (parts X vs) q fb db = Inr (fb @ heads X vs q @ db @ tails X vs)"
  using assms by (induction vs arbitrary: q fb db) (simp_all add: serializes_def)

lemma ser_struct_offset_sum:
  assumes "\<forall>v \<in> set vs. serializes X v"
  shows "ser_struct_offset (map offsetAsBytes vs) q =
    Inr (q + sum_list (map (\<lambda>v. unat (word_of_nat (head_size X v) :: u32)) vs))"
  using assms by (induction vs arbitrary: q) (simp_all add: serializes_def)

lemma ser_list_loop_image:
  assumes "\<forall>v \<in> set vs. serializes X v" and "\<forall>v \<in> set vs. dyn v = d"
  shows "ser_list_loop X (parts X vs) q ob vb =
    Inr (if d then ob @ heads X vs q @ vb @ tails X vs else ob @ vb @ heads X vs q)"
  using assms by (induction vs arbitrary: q ob vb) (simp_all add: serializes_def)

lemma tails_static: "\<forall>v \<in> set vs. \<not> dyn v \<Longrightarrow> tails X vs = []"
  by (induction vs) simp_all

lemma ser_list_image:
  assumes "\<forall>v \<in> set vs. serializes X v" and "\<forall>v \<in> set vs. dyn v = d"
  shows "ser_list_loop X (parts X vs) q [] [] = Inr (heads X vs q @ tails X vs)"
  using ser_list_loop_image [OF assms] tails_static [of vs X] assms(2) by simp

section \<open>Decoding the members\<close>

lemma of_int32_small: "p < 2 ^ 31 \<Longrightarrow> of_int32 (word_of_nat p) = word_of_nat p"
proof -
  assume p: "p < 2 ^ 31"
  have "sint (word_of_nat p :: u32) = int p"
    using p by (simp add: sint_uint unsigned_of_nat signed_take_bit_int_eq_self take_bit_nat_eq_self)
  then show ?thesis by (simp add: of_int32_def scast_eq)
qed

lemma to_int_small: "p < 2 ^ 31 \<Longrightarrow> to_int (word_of_nat p) = word_of_nat p"
  by (simp add: to_int_def unsigned_of_nat ucast_eq take_bit_nat_eq_self flip: word_of_nat_eq_iff)

text \<open>
  Where a loop finds its members: the heads from the current offset on, and the tails at distance
  \<open>q\<close> from the base, when there is a dynamic member.
\<close>

definition layout :: "abi_ext \<Rightarrow> bytes \<Rightarrow> nat \<Rightarrow> nat \<Rightarrow> nat \<Rightarrow> abi_value list \<Rightarrow> bool" where
  "layout X buf base cur q vs \<longleftrightarrow> located buf cur (heads X vs q) \<and>
     (list_ex dyn vs \<longrightarrow> 0 < q \<and> located buf (base + q) (tails X vs))"

lemma layout_next:
  assumes "abi_ext_ok X" and "layout X buf base cur q (v # vs)"
  shows "layout X buf base (cur + head_size X v) (if dyn v then q + length (enc X v) else q) vs"
  using assms by (cases "dyn v") (simp_all add: layout_def located_append head_size_def add.assoc)

lemma member_step:
  assumes X: "abi_ext_ok X" and d: "decodes X t v" and b: "length buf < 2 ^ 31"
    and h: "layout X buf base cur q (v # vs)"
  shows "dyn v \<Longrightarrow> des_u256 X buf (of_int32 (word_of_nat cur)) = Inr (word_of_nat q) \<and> 0 < q \<and> q < 2 ^ 31 \<and>
      deserialize X t buf (word_of_nat base + u256_to_size X (word_of_nat q)) = Inr v"
    and "\<not> dyn v \<Longrightarrow> deserialize X t buf (of_int32 (word_of_nat cur)) = Inr v"
proof -
  have l: "located buf cur (heads X (v # vs) q)" using h by (simp add: layout_def)
  have c: "cur < 2 ^ 31" using located_length [OF l] b by simp
  show "\<not> dyn v \<Longrightarrow> deserialize X t buf (of_int32 (word_of_nat cur)) = Inr v"
    unfolding of_int32_small [OF c] using l decodesD(3) [OF d b] by (simp add: located_append)
  assume v: "dyn v"
  then have t: "0 < q" "located buf (base + q) (tails X (v # vs))" using h by (simp_all add: layout_def)
  have q: "q < 2 ^ 31" using located_length [OF t(2)] b by simp
  have u: "unat (word_of_nat q :: u256) = q" using q by (intro unat_word_of_nat_id) simp
  have z: "word_of_nat base + u256_to_size X (word_of_nat q) = word_of_nat (base + q)"
    using abi_ext_okD(4) [OF X, of "word_of_nat q", unfolded u] q by simp
  show "des_u256 X buf (of_int32 (word_of_nat cur)) = Inr (word_of_nat q) \<and> 0 < q \<and> q < 2 ^ 31 \<and>
      deserialize X t buf (word_of_nat base + u256_to_size X (word_of_nat q)) = Inr v"
    unfolding z of_int32_small [OF c]
    using v l t q des_ser_u256 [OF X _ b] decodesD(3) [OF d b, of "base + q"] by (simp add: located_append)
qed

lemma assertE_True [simp]: "assertE X True = Inr ()"
  by (simp add: assertE_def)

lemma offset_bounds:
  assumes "0 < q" and "q < 2 ^ 31"
  shows "(word_of_nat q :: u256) > 0" and "(word_of_nat q :: u256) < 2 ^ 63 - 1"
proof -
  have u: "unat (word_of_nat q :: u256) = q" using assms(2) by (intro unat_word_of_nat_id) simp
  show "(word_of_nat q :: u256) > 0" using assms(1) u by (simp add: word_less_nat_alt)
  have "q < 9223372036854775807" using assms(2) by simp
  then show "(word_of_nat q :: u256) < 2 ^ 63 - 1" using u by (simp add: word_less_nat_alt)
qed

lemma des_members_image:
  assumes X: "abi_ext_ok X" and b: "length buf < 2 ^ 31"
    and m: "list_all2 (\<lambda>t v. serializes X v \<and> decodes X t v) ts vs"
    and h: "layout X buf base cur q vs"
  shows "des_members X chk ts buf (word_of_nat base) (word_of_nat cur) = Inr vs"
  using m h
proof (induction ts vs arbitrary: cur q rule: list_all2_induct)
  case (Cons t ts v vs)
  then have s: "serializes X v" and d: "decodes X t v" by simp_all
  note st = member_step [OF X d b Cons.prems]
  have dt: "dynamicType t = Inr (dyn v)" using decodesD(1) [OF d] serializesD(2) [OF s] by simp
  have q: "word_of_nat cur + word_of_nat (head_size X v) = (word_of_nat (cur + head_size X v) :: u32)" by simp
  have n: "des_members X chk ts buf (word_of_nat base) (word_of_nat cur + word_of_nat (head_size X v)) = Inr vs"
    unfolding q by (rule Cons.IH [OF layout_next [OF X Cons.prems]])
  show ?case
  proof (cases "dyn v")
    case True
    note e = st(1) [OF True]
    have a: "(if chk then assertE X ((word_of_nat q :: u256) > 0 \<and> (word_of_nat q :: u256) < 2 ^ 63 - 1) else Inr ()) = Inr ()"
      using offset_bounds e by simp
    show ?thesis using True e n dt serializesD(3) [OF s] a by (simp del: assertE_True)
  next
    case False
    then show ?thesis using st(2) n dt serializesD(3) [OF s] by simp
  qed
qed simp

lemma des_elements_image:
  assumes X: "abi_ext_ok X" and b: "length buf < 2 ^ 31" and k: "abi_checked t"
    and m: "\<forall>v \<in> set vs. serializes X v \<and> decodes X t v"
    and h: "layout X buf base cur q vs"
  shows "des_elements X t (length vs) buf (word_of_nat base) (word_of_nat cur) = Inr vs"
  using m h
proof (induction vs arbitrary: cur q)
  case (Cons v vs)
  then have s: "serializes X v" and d: "decodes X t v" by simp_all
  note st = member_step [OF X d b Cons.prems(2)]
  have dt: "dynamicType t = Inr (dyn v)" using decodesD(1) [OF d] serializesD(2) [OF s] by simp
  have q: "word_of_nat cur + word_of_nat (head_size X v) = (word_of_nat (cur + head_size X v) :: u32)" by simp
  have n: "des_elements X t (length vs) buf (word_of_nat base) (word_of_nat cur + word_of_nat (head_size X v)) = Inr vs"
    unfolding q by (rule Cons.IH [OF _ layout_next [OF X Cons.prems(2)]]) (use Cons.prems(1) in simp)
  have c: "clone t = Inr t" using k by (simp add: clone_spec)
  show ?case
  proof (cases "dyn v")
    case True
    note e = st(1) [OF True]
    have a: "assertE X ((word_of_nat q :: u256) < 2 ^ 63 - 1) = Inr ()"
      using offset_bounds e by simp
    show ?thesis using True e n c dt serializesD(3) [OF s] a by (simp del: assertE_True)
  next
    case False
    then show ?thesis using st(2) n c dt serializesD(3) [OF s] by simp
  qed
qed simp

section \<open>Templates\<close>

text \<open>
  \<open>matches X t v\<close>: the template \<open>t\<close>, which the definition of a contract provides,
  describes the value \<open>v\<close>. The template of \<open>T[]\<close> holds one element, which can be cloned,
  or none; the elements of \<open>T[N]\<close> agree in kind and size.
\<close>

inductive matches :: "abi_ext \<Rightarrow> abi_value \<Rightarrow> abi_value \<Rightarrow> bool" for X where
  M_bool: "matches X (Boolean n b) (Boolean n b')"
| M_uint: "matches X (Uint n u e) (Uint n u' e)"
| M_int: "- (2 ^ 255) \<le> i' \<Longrightarrow> i' < 2 ^ 255 \<Longrightarrow> matches X (IntV n i e) (IntV n i' e)"
| M_fixedBytes: "0 < k \<Longrightarrow> k \<le> 32 \<Longrightarrow> length bs' = k \<Longrightarrow> matches X (FixedBytes n k bs) (FixedBytes n k bs')"
| M_addr: "length a = 20 \<Longrightarrow> matches X (Addr n s) (Addr n (hexPrefixed X a))"
| M_string: "matches X (String n s) (String n s')"
| M_bytes: "matches X (DynamicBytes n bs) (DynamicBytes n bs')"
| M_list: "abi_checked t \<Longrightarrow> \<forall>v \<in> set vs. matches X t v \<Longrightarrow> length vs < 2 ^ 31 - 1 \<Longrightarrow>
    matches X (DynamicList n (t # ts)) (DynamicList n vs)"
| M_empty: "matches X (DynamicList n []) (DynamicList n [])"
| M_fixedList: "0 < d \<Longrightarrow> length ts = d \<Longrightarrow> list_all2 (matches X) ts vs \<Longrightarrow>
    \<forall>t \<in> set ts. dynamicType t = dynamicType (ts ! 0) \<and> offsetAsBytes t = offsetAsBytes (ts ! 0) \<Longrightarrow>
    matches X (FixedList n d ts) (FixedList n d vs)"
| M_struct: "list_all2 (matches X) ts vs \<Longrightarrow> matches X (Struct n ts) (Struct n vs)"

definition handled :: "abi_ext \<Rightarrow> abi_value \<Rightarrow> abi_value \<Rightarrow> bool" where
  "handled X t v \<longleftrightarrow> serializes X v \<and> decodes X t v"

lemma handledI:
  assumes "serialize X v = Inr bs" and "dynamicType v = Inr d" and "dynamicType t = Inr d"
    and "offsetAsBytes v = Inr (word_of_nat (if d then 32 else length bs))" and "offsetAsBytes t = offsetAsBytes v"
    and "\<And>buf p. length buf < 2 ^ 31 \<Longrightarrow> located buf p bs \<Longrightarrow> deserialize X t buf (word_of_nat p) = Inr v"
  shows "handled X t v"
  using assms by (simp add: handled_def serializes_def decodes_def enc_def dyn_def head_size_def)

lemma handled_bool: "abi_ext_ok X \<Longrightarrow> handled X (Boolean n b) (Boolean n b')"
  by (rule handledI [where d = False]) (auto simp: ser_bool_def des_bool_def des_ser_u256 word_gt_0)

lemma handled_uint: "abi_ext_ok X \<Longrightarrow> handled X (Uint n u e) (Uint n u' e)"
  by (rule handledI [where d = False]) (auto simp: des_ser_u256)

lemma handled_int:
  assumes "abi_ext_ok X" and "- (2 ^ 255) \<le> i'" and "i' < 2 ^ 255"
  shows "handled X (IntV n i e) (IntV n i' e)"
proof (rule handledI [where d = False and bs = "ser_u256 X (s2u X i')"])
  fix buf p assume b: "length buf < 2 ^ 31" and l: "located buf p (ser_u256 X (s2u X i'))"
  show "deserialize X (IntV n i e) buf (word_of_nat p) = Inr (IntV n i' e)"
    using des_ser_u256 [OF assms(1) l b] abi_ext_okD(3) [OF assms] by (simp add: des_s256_def)
qed (use assms(1) in \<open>simp_all add: ser_s256_def ser_u256_def abi_ext_okD(1)\<close>)

lemma handled_bytes:
  assumes "abi_ext_ok X" shows "handled X (DynamicBytes n bs) (DynamicBytes n bs')"
proof (rule handledI [where d = True and bs = "ser_bytes X bs'"])
  fix buf p assume b: "length buf < 2 ^ 31" and l: "located buf p (ser_bytes X bs')"
  show "deserialize X (DynamicBytes n bs) buf (word_of_nat p) = Inr (DynamicBytes n bs')"
    using ser_bytes_located [OF assms l b] by simp
qed simp_all

lemma handled_string:
  assumes "abi_ext_ok X" shows "handled X (String n s) (String n s')"
proof (rule handledI [where d = True and bs = "ser_bytes X (bytes_of_string s')"])
  fix buf p assume b: "length buf < 2 ^ 31" and l: "located buf p (ser_bytes X (bytes_of_string s'))"
  show "deserialize X (String n s) buf (word_of_nat p) = Inr (String n s')"
    using ser_bytes_located [OF assms l b] by (simp add: des_string_bytes)
qed (simp_all add: ser_string_bytes)

lemma handled_fixedBytes:
  assumes X: "abi_ext_ok X" and k: "0 < k" "k \<le> 32" "length bs' = k"
  shows "handled X (FixedBytes n k bs) (FixedBytes n k bs')"
proof (rule handledI [where d = False and bs = "bs' @ replicate (32 - k) 0"])
  fix buf p assume b: "length buf < 2 ^ 31" and l: "located buf p (bs' @ replicate (32 - k) 0)"
  have p: "p + 32 \<le> length buf" using located_length [OF l] k by simp
  have "located buf p bs'" using l by (simp add: located_append)
  then have "getCroppedData2 X buf (word_of_nat p) (word_of_nat k) = bs'" using crop [OF X _ b] k(3) by blast
  then show "deserialize X (FixedBytes n k bs) buf (word_of_nat p) = Inr (FixedBytes n k bs')"
    unfolding deserialize.simps des_bytesN_def verify_31 [OF p b]
    using k by (simp add: FixedBytes_verify_def MAX_FIXED_BYTES_LENGTH_def)
qed (use k in \<open>simp_all add: ser_bytesN_def\<close>)

lemma handled_addr:
  assumes X: "abi_ext_ok X" and a: "length a = 20"
  shows "handled X (Addr n s) (Addr n (hexPrefixed X a))"
proof (rule handledI [where d = False and bs = "replicate 12 0 @ a"])
  fix buf p assume b: "length buf < 2 ^ 31" and l: "located buf p (replicate 12 0 @ a)"
  have p: "p + 32 \<le> length buf" using located_length [OF l] a by simp
  have "located buf (p + 12) a" using l by (simp add: located_append)
  from crop [OF X this b] have "getCroppedData2 X buf (word_of_nat (p + 12)) 20 = a" using a by (simp del: of_nat_add)
  moreover have "(word_of_nat p + 32 - 20 :: u64) = word_of_nat (p + 12)" by simp
  ultimately have "des_address X buf (word_of_nat p) = Inr a"
    unfolding des_address_def verify_31 [OF p b] by (simp del: of_nat_add)
  then show "deserialize X (Addr n s) buf (word_of_nat p) = Inr (Addr n (hexPrefixed X a))" by simp
qed (use a abi_ext_okD(6) [OF X a] in \<open>simp_all add: ser_address_def\<close>)

text \<open>Composite values. What a list of members contributes to them, and the sums of their heads.\<close>

lemma handledD:
  assumes "handled X t v"
  shows "serializes X v" and "decodes X t v" and "dynamicType t = Inr (dyn v)" and "dynamicType v = Inr (dyn v)"
    and "offsetAsBytes t = Inr (word_of_nat (head_size X v))" and "offsetAsBytes v = Inr (word_of_nat (head_size X v))"
  using assms by (simp_all add: handled_def serializes_def decodes_def)

lemma handled_maps:
  assumes "list_all2 (handled X) ts vs"
  shows "map dynamicType ts = map (Inr \<circ> dyn) vs" and "map dynamicType vs = map (Inr \<circ> dyn) vs"
    and "map offsetAsBytes ts = map (\<lambda>v. Inr (word_of_nat (head_size X v))) vs"
    and "map offsetAsBytes vs = map (\<lambda>v. Inr (word_of_nat (head_size X v))) vs"
    and "\<forall>v \<in> set vs. serializes X v"
    and "list_all2 (\<lambda>t v. serializes X v \<and> decodes X t v) ts vs"
  using assms by (induction rule: list_all2_induct) (simp_all add: handledD)

lemma Struct_dynamicType_ex: "Struct_dynamicType (map (Inr \<circ> f) vs) = Inr (list_ex f vs)"
  by (induction vs) simp_all

lemma sum_offsets_sum:
  "sum_offsets (map (\<lambda>v. Inr (word_of_nat (f v))) vs) (word_of_nat k) = Inr (word_of_nat (k + sum_list (map f vs)))"
proof (induction vs arbitrary: k)
  case (Cons v vs)
  from Cons [of "k + f v"] show ?case by (simp add: add.assoc)
qed simp

lemma layoutI:
  assumes X: "abi_ext_ok X" and l: "located buf p (heads X vs q @ tails X vs)"
    and q: "list_ex dyn vs \<Longrightarrow> q = sum_list (map (head_size X) vs)"
  shows "layout X buf p p q vs"
proof -
  have "list_ex dyn vs \<Longrightarrow> 0 < sum_list (map (head_size X) vs)"
    by (induction vs) (auto simp: head_size_def)
  then show ?thesis using l q by (simp add: layout_def located_append length_heads [OF X])
qed

lemma sum_list_const: "(\<forall>v \<in> set vs. f v = c) \<Longrightarrow> sum_list (map f vs) = length vs * (c :: nat)"
  by (induction vs) simp_all

lemma handled_list:
  assumes X: "abi_ext_ok X" and k: "abi_checked t" and m: "\<forall>v \<in> set vs. handled X t v"
    and n: "length vs < 2 ^ 31 - 1"
  shows "handled X (DynamicList nm (t # ts)) (DynamicList nm vs)"
proof (rule handledI [where d = True])
  let ?q = "length vs * 32" and ?n = "word_of_nat (length vs) :: u256"
  have s: "\<forall>v \<in> set vs. serializes X v" and d: "\<forall>v \<in> set vs. dyn v = (dynamicType t = Inr True)"
    using m handledD by fastforce+
  show "serialize X (DynamicList nm vs) = Inr (ser_u256 X ?n @ heads X vs ?q @ tails X vs)"
    using ser_list_image [OF s d] by (simp add: ser_dynamicList_def MAX_BYTE_LENGTH_def)
  fix buf p assume b: "length buf < 2 ^ 31" and l: "located buf p (ser_u256 X ?n @ heads X vs ?q @ tails X vs)"
  then have l1: "located buf p (ser_u256 X ?n)" and l2: "located buf (p + 32) (heads X vs ?q @ tails X vs)"
    using X by (simp_all add: located_append)
  have u: "unat ?n = length vs" using n by (intro unat_word_of_nat_id) simp
  have a: "?n < 2 ^ 31 - 1" using n u by (simp add: word_less_nat_alt)
  have q: "?q = sum_list (map (head_size X) vs)" if "list_ex dyn vs"
    using that d by (intro sum_list_const [symmetric]) (auto simp: head_size_def list_ex_iff)
  have p: "p + 32 < 2 ^ 31" using located_length [OF l2] b by simp
  have w: "word_of_nat p + 32 = (word_of_nat (p + 32) :: u64)" by simp
  have "des_elements X t (unat ?n) buf (word_of_nat (p + 32)) (to_int (word_of_nat (p + 32))) = Inr vs"
    unfolding u to_int_small [OF p] using m handledD(1,2)
    by (intro des_elements_image [OF X b k _ layoutI [OF X l2 q]]) blast
  then show "deserialize X (DynamicList nm (t # ts)) buf (word_of_nat p) = Inr (DynamicList nm vs)"
    using des_ser_u256 [OF X l1 b] a unfolding deserialize.simps Let_def w by (simp del: of_nat_add)
qed simp_all

lemma handled_empty:
  assumes "abi_ext_ok X" shows "handled X (DynamicList nm []) (DynamicList nm [])"
proof (rule handledI [where d = True and bs = "ser_u256 X 0"])
  fix buf p assume b: "length buf < 2 ^ 31" and l: "located buf p (ser_u256 X 0)"
  show "deserialize X (DynamicList nm []) buf (word_of_nat p) = Inr (DynamicList nm [])"
    using des_ser_u256 [OF assms l b] by simp
qed (simp_all add: ser_dynamicList_def)

text \<open>The elements of \<open>T[N]\<close> agree in kind and in the size of their heads.\<close>

lemma fixedList_members:
  fixes X vs defines "h \<equiv> \<lambda>v. word_of_nat (head_size X v) :: u32"
  assumes n: "0 < n" "length ts = n" and m: "list_all2 (handled X) ts vs"
    and h: "\<forall>t \<in> set ts. dynamicType t = dynamicType (ts ! 0) \<and> offsetAsBytes t = offsetAsBytes (ts ! 0)"
  shows "\<forall>v \<in> set vs. dyn v = dyn (vs ! 0)" and "\<forall>v \<in> set vs. h v = h (vs ! 0)"
    and "dynamicType (FixedList nm n vs) = Inr (dyn (vs ! 0))" and "dynamicType (FixedList nm n ts) = Inr (dyn (vs ! 0))"
proof -
  have lv: "length vs = n" using n m by (simp add: list_all2_lengthD)
  have at: "dynamicType (ts ! i) = Inr (dyn (vs ! i)) \<and> offsetAsBytes (ts ! i) = Inr (h (vs ! i))" if "i < n" for i
    using handledD(3,5) [OF list_all2_nthD [OF m, of i]] that n by (simp add: h_def)
  have "dyn (vs ! i) = dyn (vs ! 0) \<and> h (vs ! i) = h (vs ! 0)" if "i < n" for i
    using h at [OF that] at [OF n(1)] nth_mem [of i ts] that n(2) by (metis sum.inject(2))
  then show "\<forall>v \<in> set vs. dyn v = dyn (vs ! 0)" and "\<forall>v \<in> set vs. h v = h (vs ! 0)"
    using lv by (auto simp: in_set_conv_nth)
  show "dynamicType (FixedList nm n vs) = Inr (dyn (vs ! 0))" and "dynamicType (FixedList nm n ts) = Inr (dyn (vs ! 0))"
    unfolding dynamicType.simps handled_maps(1,2) [OF m] FixedList_dynamicType_def FixedList_verify_def
    using lv n by simp_all
qed

lemma handled_fixedList:
  assumes X: "abi_ext_ok X" and n: "0 < n" "length ts = n" and m: "list_all2 (handled X) ts vs"
    and h: "\<forall>t \<in> set ts. dynamicType t = dynamicType (ts ! 0) \<and> offsetAsBytes t = offsetAsBytes (ts ! 0)"
  shows "handled X (FixedList nm n ts) (FixedList nm n vs)"
proof -
  let ?d = "dyn (vs ! 0)" and ?q = "length vs * 32"
  let ?h = "\<lambda>v. word_of_nat (head_size X v) :: u32"
  have 0: "0 < length vs" using n m by (simp add: list_all2_lengthD)
  note mp = handled_maps [OF m] and d = fixedList_members(1) [OF n m h] and e = fixedList_members(2) [OF n m h]
  have "word_of_nat (sum_list (map (head_size X) vs)) = (\<Sum>v\<leftarrow>vs. ?h v)" by (induction vs) simp_all
  also have "\<dots> = (\<Sum>v\<leftarrow>vs. ?h (vs ! 0))" using e by (intro arg_cong [where f = sum_list] map_cong) simp_all
  also have "\<dots> = word_of_nat (length vs * unat (?h (vs ! 0)))"
    by (simp add: sum_list_triv of_nat_mult)
  finally have w: "word_of_nat (sum_list (map (head_size X) vs)) = (word_of_nat (length vs * unat (?h (vs ! 0))) :: u32)" .
  have tl: "\<not> ?d \<Longrightarrow> tails X vs = []" using d tails_static [of vs X] by blast
  show ?thesis
  proof (rule handledI [where d = ?d])
    show "serialize X (FixedList nm n vs) = Inr (heads X vs ?q @ tails X vs)"
      using ser_list_image [OF mp(5) d] by (simp add: ser_fixedList_def MAX_BYTE_LENGTH_def)
    show dv: "dynamicType (FixedList nm n vs) = Inr ?d" and dt: "dynamicType (FixedList nm n ts) = Inr ?d"
      by (rule fixedList_members [OF n m h])+
    show "offsetAsBytes (FixedList nm n ts) = offsetAsBytes (FixedList nm n vs)"
      unfolding offsetAsBytes.simps dv dt mp(3,4) by (rule refl)
    show "offsetAsBytes (FixedList nm n vs) = Inr (word_of_nat (if ?d then 32 else length (heads X vs ?q @ tails X vs)))"
      unfolding offsetAsBytes.simps dv mp(4) FixedList_offsetAsBytes_def length_append length_heads [OF X]
      using 0 w tl by simp
    fix buf p assume b: "length buf < 2 ^ 31" and l: "located buf p (heads X vs ?q @ tails X vs)"
    have q: "?q = sum_list (map (head_size X) vs)" if "list_ex dyn vs"
      using that d by (intro sum_list_const [symmetric]) (auto simp: head_size_def list_ex_iff)
    have p: "p < 2 ^ 31" using located_length [OF l] b by simp
    show "deserialize X (FixedList nm n ts) buf (word_of_nat p) = Inr (FixedList nm n vs)"
      using des_members_image [OF X b mp(6) layoutI [OF X l q]] n p by (simp add: to_int_small)
  qed
qed

lemma handled_struct:
  assumes X: "abi_ext_ok X" and m: "list_all2 (handled X) ts vs"
  shows "handled X (Struct nm ts) (Struct nm vs)"
proof (rule handledI [where d = "list_ex dyn vs"])
  let ?q = "sum_list (map (\<lambda>v. unat (word_of_nat (head_size X v) :: u32)) vs)"
  note mp = handled_maps [OF m]
  show "serialize X (Struct nm vs) = Inr (heads X vs ?q @ tails X vs)"
    using ser_struct_offset_sum [OF mp(5), of 0] ser_struct_loop_image [OF mp(5)] by (simp add: ser_struct_def)
  show dv: "dynamicType (Struct nm vs) = Inr (list_ex dyn vs)" and dt: "dynamicType (Struct nm ts) = Inr (list_ex dyn vs)"
    unfolding dynamicType.simps mp(1,2) Struct_dynamicType_ex by (rule refl)+
  show "offsetAsBytes (Struct nm ts) = offsetAsBytes (Struct nm vs)"
    unfolding offsetAsBytes.simps dv dt mp(3,4) by (rule refl)
  show "offsetAsBytes (Struct nm vs) = Inr (word_of_nat (if list_ex dyn vs then 32 else length (heads X vs ?q @ tails X vs)))"
    unfolding offsetAsBytes.simps dv mp(4) Struct_offsetAsBytes_def length_append length_heads [OF X]
    using sum_offsets_sum [of "head_size X" vs 0] tails_static [of vs X] by (simp add: list_ex_iff)
  fix buf p assume b: "length buf < 2 ^ 31" and l: "located buf p (heads X vs ?q @ tails X vs)"
  have "sum_list (map (head_size X) vs) < 2 ^ 31"
    using located_length [OF l] b by (simp add: length_heads [OF X])
  then have "unat (word_of_nat (head_size X v) :: u32) = head_size X v" if "v \<in> set vs" for v
    using member_le_sum_list [of "head_size X v" "map (head_size X) vs"] that by (intro unat_word_of_nat_id) simp
  then have q: "?q = sum_list (map (head_size X) vs)" by (intro arg_cong [where f = sum_list] map_cong) simp_all
  have p: "p < 2 ^ 31" using located_length [OF l] b by simp
  show "deserialize X (Struct nm ts) buf (word_of_nat p) = Inr (Struct nm vs)"
    using des_members_image [OF X b mp(6) layoutI [OF X l q]] p by (simp add: to_int_small)
qed

lemma matches_handled:
  assumes X: "abi_ext_ok X" and m: "matches X t v"
  shows "handled X t v"
  using m
proof (induction rule: matches.induct)
  case (M_list t vs n ts)
  then show ?case by (intro handled_list [OF X]) blast+
next
  case (M_fixedList d ts vs n)
  from M_fixedList.IH have "list_all2 (handled X) ts vs" by (rule list_all2_mono) blast
  then show ?case using M_fixedList.hyps by (intro handled_fixedList [OF X])
next
  case (M_struct ts vs n)
  from M_struct.IH have "list_all2 (handled X) ts vs" by (rule list_all2_mono) blast
  then show ?case by (rule handled_struct [OF X])
qed (simp_all add: X handled_bool handled_uint handled_int handled_fixedBytes handled_addr handled_string
    handled_bytes handled_empty)

end
