(* ===== verification/AbiSpec.thy ===== *)
theory AbiSpec
  imports AbiSolProps
begin

text \<open>
  The contract ABI as its specification states it: which types are dynamic, and the encoding of a
  value as one expression in the encodings of its parts. The Solidity codec of the SDK refines it.
\<close>

section \<open>The specification\<close>

fun spec_dyn :: "abi_value \<Rightarrow> bool" where
  "spec_dyn (DynamicBytes n bs) = True"
| "spec_dyn (String n s) = True"
| "spec_dyn (DynamicList n vs) = True"
| "spec_dyn (FixedList n d vs) = list_ex spec_dyn vs"
| "spec_dyn (Struct n vs) = list_ex spec_dyn vs"
| "spec_dyn _ = False"

text \<open>
  The parts of a sequence, each with its kind and its encoding. The head of a dynamic part is the
  distance from the start of the sequence to its encoding: the heads of all the parts, and the
  tails of the parts before it.
\<close>

definition part_size :: "bool \<times> bytes \<Rightarrow> nat" where
  "part_size m = (if fst m then 32 else length (snd m))"

definition part_tails :: "(bool \<times> bytes) list \<Rightarrow> bytes" where
  "part_tails ms = concat (map snd (filter fst ms))"

definition part_head :: "nat \<Rightarrow> (bool \<times> bytes) list \<Rightarrow> nat \<Rightarrow> bytes" where
  "part_head q ms i = (if fst (ms ! i) then be_bytes 32 (q + length (part_tails (take i ms))) else snd (ms ! i))"

definition spec_sequence :: "(bool \<times> bytes) list \<Rightarrow> bytes" where
  "spec_sequence ms =
     concat (map (part_head (sum_list (map part_size ms)) ms) [0..<length ms]) @ part_tails ms"

definition padded :: "bytes \<Rightarrow> bytes" where
  "padded bs = bs @ replicate ((32 - length bs mod 32) mod 32) 0"

fun spec_enc :: "abi_ext \<Rightarrow> abi_value \<Rightarrow> bytes" where
  "spec_enc X (Uint n u e) = be_bytes 32 (unat u)"
| "spec_enc X (IntV n i e) = be_bytes 32 (unat (s2u X i))"
| "spec_enc X (Boolean n b) = be_bytes 32 (if b then 1 else 0)"
| "spec_enc X (DynamicBytes n bs) = be_bytes 32 (length bs) @ padded bs"
| "spec_enc X (FixedBytes n k bs) = padded bs"
| "spec_enc X (Addr n s) = (case address_of_string X s of Some a \<Rightarrow> replicate 12 0 @ a | None \<Rightarrow> [])"
| "spec_enc X (String n s) = be_bytes 32 (length s) @ padded (bytes_of_string s)"
| "spec_enc X (FixedList n d vs) = spec_sequence (map (\<lambda>v. (spec_dyn v, spec_enc X v)) vs)"
| "spec_enc X (DynamicList n vs) =
     be_bytes 32 (length vs) @ spec_sequence (map (\<lambda>v. (spec_dyn v, spec_enc X v)) vs)"
| "spec_enc X (Struct n vs) = spec_sequence (map (\<lambda>v. (spec_dyn v, spec_enc X v)) vs)"

section \<open>The codec computes the specified encoding\<close>

lemma be_bytes_word: "be_bytes 32 (unat (word_of_nat q :: u256)) = be_bytes 32 q"
proof -
  have "le_bytes n (v mod 256 ^ n) = le_bytes n v" for n v
    using le_bytes_le_val [of "le_bytes n v"] by (simp add: le_val_le_bytes)
  from this [of 32 q] show ?thesis by (simp add: be_bytes_def unat_of_nat)
qed

lemma padding_size: "((n + 31) div 32 * 32 - n) = (32 - n mod 32) mod (32 :: nat)"
proof -
  define k r where "k = n div 32" and "r = n mod 32"
  then have n: "n = 32 * k + r" and r: "r < 32" by simp_all
  have "(n + 31) div 32 = (if r = 0 then k else Suc k)" using r unfolding n by (auto intro: div_nat_eqI)
  then show ?thesis using r unfolding r_def [symmetric] by (simp add: n)
qed

lemma heads_concat:
  assumes X: "abi_ext_ok X" and ms: "ms = map (\<lambda>v. (dyn v, enc X v)) vs"
  shows "heads X vs q = concat (map (part_head q ms) [0..<length ms])"
  unfolding ms
proof (induction vs arbitrary: q)
  case (Cons v vs)
  let ?ms = "map (\<lambda>v. (dyn v, enc X v))"
  have t: "part_head q (?ms (v # vs)) (Suc i) = part_head (if dyn v then q + length (enc X v) else q) (?ms vs) i" for i
    by (simp add: part_head_def part_tails_def add.assoc)
  have h: "part_head q (?ms (v # vs)) 0 = (if dyn v then ser_u256 X (word_of_nat q) else enc X v)"
    by (simp add: part_head_def part_tails_def ser_u256_def abi_ext_okD(1) [OF X] be_bytes_word)
  have "concat (map (part_head q (?ms (v # vs))) [0..<length (?ms (v # vs))]) =
    part_head q (?ms (v # vs)) 0 @ concat (map (\<lambda>i. part_head q (?ms (v # vs)) (Suc i)) [0..<length (?ms vs)])"
    by (simp add: upt_conv_Cons map_Suc_upt [symmetric] comp_def del: upt_Suc)
  then show ?case unfolding h t using Cons by simp
qed simp

lemma tails_concat: "tails X vs = part_tails (map (\<lambda>v. (dyn v, enc X v)) vs)"
  by (induction vs) (simp_all add: part_tails_def)

lemma head_sizes: "map part_size (map (\<lambda>v. (dyn v, enc X v)) vs) = map (head_size X) vs"
  by (simp add: part_size_def head_size_def)

lemma sequence_image:
  assumes X: "abi_ext_ok X" and q: "list_ex dyn vs \<Longrightarrow> q = sum_list (map (head_size X) vs)"
  shows "heads X vs q @ tails X vs = spec_sequence (map (\<lambda>v. (dyn v, enc X v)) vs)"
proof -
  have e: "heads X vs q = heads X vs (sum_list (map (head_size X) vs))"
  proof (cases "list_ex dyn vs")
    case False
    then have "heads X vs q = heads X vs q'" for q' by (induction vs) simp_all
    then show ?thesis .
  qed (use q in simp)
  show ?thesis
    using heads_concat [OF X refl, of vs "sum_list (map (head_size X) vs)"]
    unfolding e spec_sequence_def tails_concat head_sizes by simp
qed

text \<open>The composite values, in terms of the encodings of their members.\<close>

lemma enc_struct:
  assumes "abi_ext_ok X" and "\<forall>v \<in> set vs. serializes X v" and "\<forall>v \<in> set vs. head_size X v < 2 ^ 32"
  shows "enc X (Struct n vs) = spec_sequence (map (\<lambda>v. (dyn v, enc X v)) vs)"
proof -
  have "unat (word_of_nat (head_size X v) :: u32) = head_size X v" if "v \<in> set vs" for v
    using assms(3) that by (intro unat_word_of_nat_id) simp
  then have e: "map (\<lambda>v. unat (word_of_nat (head_size X v) :: u32)) vs = map (head_size X) vs" by simp
  have "serialize X (Struct n vs) = Inr (heads X vs (sum_list (map (head_size X) vs)) @ tails X vs)"
    using ser_struct_offset_sum [OF assms(2), of 0, unfolded e] ser_struct_loop_image [OF assms(2)] by (simp add: ser_struct_def)
  then show ?thesis using sequence_image [OF assms(1) refl] by (simp add: enc_def)
qed

lemma list_offset:
  assumes "\<forall>v \<in> set vs. dyn v = d" and "list_ex dyn vs"
  shows "length vs * 32 = sum_list (map (head_size X) vs)"
  using assms by (intro sum_list_const [symmetric]) (auto simp: head_size_def list_ex_iff)

lemma enc_fixedList:
  assumes "abi_ext_ok X" and "\<forall>v \<in> set vs. serializes X v" and "\<forall>v \<in> set vs. dyn v = d"
  shows "enc X (FixedList n k vs) = spec_sequence (map (\<lambda>v. (dyn v, enc X v)) vs)"
  using ser_list_image [OF assms(2,3)] sequence_image [OF assms(1) list_offset [OF assms(3)]]
  by (simp add: enc_def ser_fixedList_def MAX_BYTE_LENGTH_def)

lemma enc_dynamicList:
  assumes "abi_ext_ok X" and "\<forall>v \<in> set vs. serializes X v" and "\<forall>v \<in> set vs. dyn v = d"
  shows "enc X (DynamicList n vs) = be_bytes 32 (length vs) @ spec_sequence (map (\<lambda>v. (dyn v, enc X v)) vs)"
  using ser_list_image [OF assms(2,3)] sequence_image [OF assms(1) list_offset [OF assms(3)]]
  by (simp add: enc_def ser_dynamicList_def MAX_BYTE_LENGTH_def ser_u256_def abi_ext_okD(1) [OF assms(1)] be_bytes_word)

lemma part_in_sequence:
  assumes "m \<in> set ms" shows "length (snd m) \<le> length (spec_sequence ms)" and "part_size m \<le> length (spec_sequence ms)"
proof -
  obtain i where i: "i < length ms" "ms ! i = m" using assms by (auto simp: in_set_conv_nth)
  let ?hs = "map (part_head (sum_list (map part_size ms)) ms) [0..<length ms]"
  have "length (concat ?hs) = sum_list (map length ?hs)" by (simp add: length_concat)
  moreover have "length (?hs ! i) = part_size m" using i by (simp add: part_head_def part_size_def)
  then have "part_size m \<in> set (map length ?hs)" using i by (force simp: in_set_conv_nth)
  ultimately have h: "part_size m \<le> length (concat ?hs)" using member_le_sum_list [of "part_size m" "map length ?hs"] by simp
  then show "part_size m \<le> length (spec_sequence ms)" by (simp add: spec_sequence_def)
  have "length (snd m) \<le> length (part_tails ms)" if "fst m"
  proof -
    have "length (snd m) \<in> set (map length (map snd (filter fst ms)))" using that assms by force
    then show ?thesis unfolding part_tails_def length_concat by (rule member_le_sum_list) simp
  qed
  then show "length (snd m) \<le> length (spec_sequence ms)"
    using h by (cases "fst m") (simp_all add: spec_sequence_def part_size_def)
qed

text \<open>
  The encoding of a value is the specified one as long as it is shorter than \<open>2 ^ 32\<close> bytes,
  the range of the offsets of structures.
\<close>

definition refines :: "abi_ext \<Rightarrow> abi_value \<Rightarrow> bool" where
  "refines X v \<longleftrightarrow> dyn v = spec_dyn v \<and> (length (spec_enc X v) < 2 ^ 32 \<longrightarrow> enc X v = spec_enc X v)"

lemma refinesI:
  "dynamicType v = Inr (spec_dyn v) \<Longrightarrow> (length (spec_enc X v) < 2 ^ 32 \<Longrightarrow> enc X v = spec_enc X v) \<Longrightarrow> refines X v"
  by (simp add: refines_def dyn_def)

abbreviation spec_parts :: "abi_ext \<Rightarrow> abi_value list \<Rightarrow> (bool \<times> bytes) list" where
  "spec_parts X vs \<equiv> map (\<lambda>v. (spec_dyn v, spec_enc X v)) vs"

lemma parts_refine:
  assumes "\<forall>v \<in> set vs. refines X v" and "length (spec_sequence (spec_parts X vs)) < 2 ^ 32"
  shows "map (\<lambda>v. (dyn v, enc X v)) vs = spec_parts X vs" and "\<forall>v \<in> set vs. head_size X v < 2 ^ 32"
proof -
  have "dyn v = spec_dyn v \<and> enc X v = spec_enc X v \<and> head_size X v < 2 ^ 32" if "v \<in> set vs" for v
    using assms that part_in_sequence [of "(spec_dyn v, spec_enc X v)" "spec_parts X vs"]
    by (fastforce simp: refines_def head_size_def part_size_def)
  then show "map (\<lambda>v. (dyn v, enc X v)) vs = spec_parts X vs" and "\<forall>v \<in> set vs. head_size X v < 2 ^ 32"
    by simp_all
qed

lemma refines_struct:
  assumes X: "abi_ext_ok X" and h: "list_all2 (handled X) ts vs" and r: "\<forall>v \<in> set vs. refines X v"
  shows "refines X (Struct n vs)"
proof -
  have "dynamicType (Struct n vs) = Inr (list_ex dyn vs)"
    unfolding dynamicType.simps handled_maps(2) [OF h] by (rule Struct_dynamicType_ex)
  moreover have "list_ex dyn vs = list_ex spec_dyn vs" using r by (auto simp: refines_def list_ex_iff)
  moreover have "enc X (Struct n vs) = spec_sequence (spec_parts X vs)"
    if "length (spec_sequence (spec_parts X vs)) < 2 ^ 32"
    unfolding enc_struct [OF X handled_maps(5) [OF h] parts_refine(2) [OF r that]] parts_refine(1) [OF r that] by (rule refl)
  ultimately show ?thesis by (intro refinesI) simp_all
qed

lemma refines_fixedList:
  assumes X: "abi_ext_ok X" and n: "0 < n" "length ts = n" and h: "list_all2 (handled X) ts vs"
    and e: "\<forall>t \<in> set ts. dynamicType t = dynamicType (ts ! 0) \<and> offsetAsBytes t = offsetAsBytes (ts ! 0)"
    and r: "\<forall>v \<in> set vs. refines X v"
  shows "refines X (FixedList nm n vs)"
proof -
  note d = fixedList_members(1) [OF n h e]
  have "vs ! 0 \<in> set vs" using n list_all2_lengthD [OF h] by simp
  then have "dyn (vs ! 0) = list_ex spec_dyn vs" using d r unfolding refines_def list_ex_iff by blast
  moreover have "enc X (FixedList nm n vs) = spec_sequence (spec_parts X vs)"
    if "length (spec_sequence (spec_parts X vs)) < 2 ^ 32"
    unfolding enc_fixedList [OF X handled_maps(5) [OF h] d] parts_refine(1) [OF r that] by (rule refl)
  ultimately show ?thesis using fixedList_members(3) [OF n h e] by (intro refinesI) simp_all
qed

lemma refines_list:
  assumes X: "abi_ext_ok X" and h: "\<forall>v \<in> set vs. handled X t v" and r: "\<forall>v \<in> set vs. refines X v"
  shows "refines X (DynamicList nm vs)"
proof -
  have s: "\<forall>v \<in> set vs. serializes X v" and d: "\<forall>v \<in> set vs. dyn v = (dynamicType t = Inr True)"
    using h handledD by fastforce+
  have "enc X (DynamicList nm vs) = be_bytes 32 (length vs) @ spec_sequence (spec_parts X vs)"
    if "length (spec_sequence (spec_parts X vs)) < 2 ^ 32"
    unfolding enc_dynamicList [OF X s d] parts_refine(1) [OF r that] by (rule refl)
  then show ?thesis by (intro refinesI) simp_all
qed

lemma refines_base:
  assumes X: "abi_ext_ok X"
  shows "refines X (Boolean n b)" and "refines X (Uint n u e)" and "refines X (IntV n i e)"
    and "refines X (DynamicBytes n bs)" and "refines X (String n s)"
    and "0 < k \<Longrightarrow> k \<le> 32 \<Longrightarrow> length cs = k \<Longrightarrow> refines X (FixedBytes n k cs)"
    and "length a = 20 \<Longrightarrow> refines X (Addr n (hexPrefixed X a))"
proof -
  have u: "ser_u256 X u = be_bytes 32 (unat u)" for u by (simp add: ser_u256_def abi_ext_okD(1) [OF X])
  show "refines X (Boolean n b)" and "refines X (Uint n u e)" and "refines X (IntV n i e)"
    by (simp_all add: refines_def dyn_def enc_def ser_bool_def ser_s256_def u abi_ext_okD(1) [OF X])
  show "refines X (DynamicBytes n bs)" and "refines X (String n s)"
    by (simp_all add: refines_def dyn_def enc_def ser_string_bytes ser_bytes_def MAX_BYTE_LENGTH_def padding_size
        padded_def abi_ext_okD(1) [OF X] be_bytes_word)
  show "refines X (FixedBytes n k cs)" if "0 < k" "k \<le> 32" "length cs = k"
    using that by (cases "k = 32") (simp_all add: refines_def dyn_def enc_def ser_bytesN_def padded_def)
  show "refines X (Addr n (hexPrefixed X a))" if "length a = 20"
    using abi_ext_okD(6) [OF X that] by (simp add: refines_def dyn_def enc_def ser_address_def)
qed

lemma matches_refines:
  assumes X: "abi_ext_ok X" and m: "matches X t v"
  shows "refines X v"
  using m
proof (induction rule: matches.induct)
  case (M_list t vs n ts)
  then show ?case using matches_handled [OF X] by (intro refines_list [OF X]) blast+
next
  case (M_empty n)
  show ?case by (rule refines_list [OF X]) simp_all
next
  case (M_fixedList d ts vs n)
  have "list_all2 (handled X) ts vs" and "\<forall>v \<in> set vs. refines X v"
    using M_fixedList.IH matches_handled [OF X] by (auto simp: list_all2_conv_all_nth in_set_conv_nth)
  then show ?case using M_fixedList.hyps by (intro refines_fixedList [OF X])
next
  case (M_struct ts vs n)
  have "list_all2 (handled X) ts vs" and "\<forall>v \<in> set vs. refines X v"
    using M_struct.IH matches_handled [OF X] by (auto simp: list_all2_conv_all_nth in_set_conv_nth)
  then show ?case by (rule refines_struct [OF X])
qed (simp_all add: refines_base [OF X])

end
