(* ===== verification/AbiTheorems.thy ===== *)
theory AbiTheorems
  imports AbiSpec
begin

text \<open>
  A model of the library routines of the ABI, so that the laws assumed of them are consistent; what
  decoding keeps of a template; and the properties of ABI values and of the Solidity codec.
\<close>

section \<open>An instance of the library routines\<close>

definition hex_digit :: "nat \<Rightarrow> char" where "hex_digit n = ''0123456789abcdef'' ! n"

definition hex_value :: "char \<Rightarrow> nat" where "hex_value c = length (takeWhile (\<lambda>d. d \<noteq> c) ''0123456789abcdef'')"

definition hex0 :: "bytes \<Rightarrow> string" where
  "hex0 bs = concat (map (\<lambda>b. [hex_digit (unat b div 16), hex_digit (unat b mod 16)]) bs)"

fun unhex0 :: "string \<Rightarrow> bytes" where
  "unhex0 (c # d # s) = word_of_nat (16 * hex_value c + hex_value d) # unhex0 s"
| "unhex0 _ = []"

definition abi_ext0 :: abi_ext where
  "abi_ext0 = \<lparr>str10 = (\<lambda>i. []), toHexString = hex0,
     address_of_string = (\<lambda>s. if length s = 42 then Some (unhex0 (drop 2 s)) else None),
     hexPrefixed = (\<lambda>bs. ''0x'' @ hex0 bs),
     h256_of_u256 = (\<lambda>u. be_bytes 32 (unat u)), fromBigEndian = (\<lambda>bs. word_of_nat (be_val bs)),
     s2u = word_of_int, u2s = sint, u256_to_size = ucast,
     getCroppedData2 = (\<lambda>bs s n. if unat s + unat n \<le> length bs then take (unat n) (drop (unat s) bs) else []),
     asserts = True\<rparr>"

lemma hex_value_digit: "n < 16 \<Longrightarrow> hex_value (hex_digit n) = n"
proof -
  assume "n < 16"
  moreover have "\<forall>n \<in> set [0..<16]. hex_value (hex_digit n) = n" by code_simp
  ultimately show ?thesis by simp
qed

lemma unhex0_hex0: "unhex0 (hex0 bs) = bs"
proof (induction bs)
  case (Cons b bs)
  have "unat b < 256" by simp
  then have "unat b div 16 < 16" and "unat b mod 16 < 16" by (simp_all add: less_mult_imp_div_less)
  then have "16 * hex_value (hex_digit (unat b div 16)) + hex_value (hex_digit (unat b mod 16)) = unat b"
    by (simp add: hex_value_digit)
  then show ?case using Cons by (simp add: hex0_def)
qed (simp add: hex0_def)

lemma length_hex0: "length (hex0 bs) = 2 * length bs"
  by (induction bs) (simp_all add: hex0_def)

lemma length_unhex0: "length (unhex0 s) = length s div 2"
  by (induction s rule: unhex0.induct) simp_all

lemma abi_ext0_ok: "abi_ext_ok abi_ext0"
proof -
  have "sint (word_of_int i :: u256) = i" if "- (2 ^ 255) \<le> i" "i < 2 ^ 255" for i
    using that by (simp add: int_word_sint)
  moreover have "ucast (u :: u256) = (word_of_nat (unat u) :: u64)" for u by (simp add: of_nat_unat)
  ultimately show ?thesis
    unfolding abi_ext_ok_def abi_ext0_def by (simp add: unhex0_hex0 length_hex0 del: of_nat_unat)
qed

section \<open>Decoding keeps the type of the template\<close>

text \<open>
  \<open>typed t v\<close>: the value \<open>v\<close> has the names, extents and shape of the template \<open>t\<close>.
  A list \<open>T[]\<close> may have any number of elements of the type of the first element of the template;
  \<open>bytesN\<close> has exactly \<open>N\<close> bytes.
\<close>

inductive typed :: "abi_value \<Rightarrow> abi_value \<Rightarrow> bool" where
  "typed (Boolean n b) (Boolean n b')"
| "typed (Uint n u e) (Uint n u' e)"
| "typed (IntV n i e) (IntV n i' e)"
| "0 < k \<Longrightarrow> k \<le> 32 \<Longrightarrow> length bs' = k \<Longrightarrow> typed (FixedBytes n k bs) (FixedBytes n k bs')"
| "typed (Addr n s) (Addr n s')"
| "typed (String n s) (String n s')"
| "typed (DynamicBytes n bs) (DynamicBytes n bs')"
| "\<forall>v \<in> set vs. typed t v \<Longrightarrow> typed (DynamicList n (t # ts)) (DynamicList n vs)"
| "typed (DynamicList n []) (DynamicList n [])"
| "list_all2 typed (take d ts) vs \<Longrightarrow> typed (FixedList n d ts) (FixedList n d (vs @ drop d ts))"
| "list_all2 typed ts vs \<Longrightarrow> typed (Struct n ts) (Struct n vs)"

lemmas typed_intros = typed.intros

lemma FixedBytes_verifyD: "FixedBytes_verify k bs True = Inr u \<Longrightarrow> 0 < k \<and> k \<le> 32 \<and> length bs = k"
  by (auto simp: FixedBytes_verify_def MAX_FIXED_BYTES_LENGTH_def split: if_splits)

lemma cloneD: "clone t = Inr t' \<Longrightarrow> t' = t"
  by (simp add: clone_spec split: if_splits)

lemma deserialize_typed:
  "deserialize X t buf off = Inr v \<Longrightarrow> typed t v"
  "des_members X c ts buf base cur = Inr vs \<Longrightarrow> list_all2 typed ts vs"
  "des_elements X t k buf base cur = Inr vs \<Longrightarrow> length vs = k \<and> (\<forall>v \<in> set vs. typed t v)"
proof (induction X t buf off and X c ts buf base cur and X t k buf base cur arbitrary: v and vs and vs
    rule: deserialize_des_members_des_elements.induct)
  case (4 X n k bs buf off)
  then show ?case by (auto simp: bindE_Inr_iff dest: FixedBytes_verifyD intro: typed_intros)
next
  case (8 X n ts buf off)
  then show ?case by (cases ts) (auto simp: bindE_Inr_iff Let_def intro: typed_intros)
next
  case (12 X c t ts buf base cur)
  then show ?case by (auto simp: bindE_Inr_iff split: if_splits)
next
  case (14 X t k buf base cur)
  then show ?case by (auto simp: bindE_Inr_iff split: if_splits dest!: cloneD)
qed (auto simp: bindE_Inr_iff intro: typed_intros split: if_splits)

section \<open>Encodings are made of whole words\<close>

lemma ser_list_loop_aligned:
  assumes "abi_ext_ok X" and "ser_list_loop X ms q ob vb = Inr bs"
    and "\<forall>m \<in> set ms. \<forall>cs. fst m = Inr cs \<longrightarrow> 32 dvd length cs" and "32 dvd length ob" and "32 dvd length vb"
  shows "32 dvd length bs"
  using assms(2-5)
proof (induction ms arbitrary: q ob vb)
  case (Cons m ms)
  then show ?case using assms(1)
    by (cases m) (auto simp: bindE_Inr_iff ser_u256_def abi_ext_okD split: if_splits)
qed auto

lemma ser_struct_loop_aligned:
  assumes "abi_ext_ok X" and "ser_struct_loop X ms q fb db = Inr bs"
    and "\<forall>m \<in> set ms. \<forall>cs. fst m = Inr cs \<longrightarrow> 32 dvd length cs" and "32 dvd length fb" and "32 dvd length db"
  shows "32 dvd length bs"
  using assms(2-5)
proof (induction ms arbitrary: q fb db)
  case (Cons m ms)
  then show ?case using assms(1)
    by (cases m) (auto simp: bindE_Inr_iff ser_u256_def abi_ext_okD split: if_splits)
qed auto

lemma ser_bytes_aligned: "abi_ext_ok X \<Longrightarrow> 32 dvd length (ser_bytes X bs)"
proof -
  assume X: "abi_ext_ok X"
  have "length bs \<le> (length bs + 31) div 32 * 32"
    using div_mult_mod_eq [of "length bs + 31" 32] mod_less_divisor [of 32 "length bs + 31"] by linarith
  then show ?thesis by (simp add: ser_bytes_def MAX_BYTE_LENGTH_def abi_ext_okD(1) [OF X])
qed

lemma serialize_aligned:
  assumes X: "abi_ext_ok X" and a: "\<And>s bs. address_of_string X s = Some bs \<Longrightarrow> length bs = 20"
  shows "serialize X v = Inr bs \<Longrightarrow> 32 dvd length bs"
proof (induction v arbitrary: bs)
  case (FixedList n d vs)
  have "\<forall>m \<in> set (parts X vs). \<forall>cs. fst m = Inr cs \<longrightarrow> 32 dvd length cs" using FixedList.IH by auto
  from ser_list_loop_aligned [OF X _ this] show ?case using FixedList.prems by (simp add: ser_fixedList_def)
next
  case (DynamicList n vs)
  have m: "\<forall>m \<in> set (parts X vs). \<forall>cs. fst m = Inr cs \<longrightarrow> 32 dvd length cs" using DynamicList.IH by auto
  obtain cs where "ser_list_loop X (parts X vs) (length vs * MAX_BYTE_LENGTH) [] [] = Inr cs"
    and bs: "bs = ser_u256 X (word_of_nat (length vs)) @ cs"
    using DynamicList.prems by (auto simp: ser_dynamicList_def bindE_Inr_iff)
  from ser_list_loop_aligned [OF X this(1) m] show ?case using X by (simp add: bs)
next
  case (Struct n vs)
  have m: "\<forall>m \<in> set (parts X vs). \<forall>cs. fst m = Inr cs \<longrightarrow> 32 dvd length cs" using Struct.IH by auto
  obtain q where "ser_struct_loop X (parts X vs) q [] [] = Inr bs"
    using Struct.prems by (auto simp: ser_struct_def bindE_Inr_iff)
  from ser_struct_loop_aligned [OF X this m] show ?case by simp
qed (auto simp: ser_bool_def ser_s256_def ser_u256_def abi_ext_okD(1) [OF X] ser_bytes_aligned [OF X] ser_string_bytes
    ser_bytesN_def ser_address_def a split: if_splits option.splits)

section \<open>Properties of ABI values\<close>

text \<open>A structure with a string, a number and a list of numbers, and the template it is decoded with.\<close>

definition example_value :: abi_value where
  "example_value = Struct ''p'' [String ''s'' ''ab'', Uint ''u'' 7 256,
     DynamicList ''l'' [Uint [] 1 8, Uint [] 2 8], FixedList ''f'' 2 [Boolean [] True, Boolean [] False]]"

definition example_template :: abi_value where
  "example_template = Struct ''p'' [String ''s'' [], Uint ''u'' 0 256,
     DynamicList ''l'' [Uint [] 0 8], FixedList ''f'' 2 [Boolean [] False, Boolean [] False]]"

lemma example_matches: "matches X example_template example_value"
  unfolding example_template_def example_value_def
  by (intro matches.intros list.rel_intros) (simp_all add: matches.intros FixedList_dynamicType_def)

lemma example_size: "length (spec_enc abi_ext0 example_value) = 320"
  by (simp add: example_value_def spec_sequence_def part_size_def part_tails_def part_head_def padded_def upt_rec)

text \<open>Claim C2. Round trip of the Solidity codec. A value that matches a template is serialized without an
  exception, and decoding the bytes with the template, wherever they stand in a buffer of less than
  2 GB, gives the value back. This covers every type of the codec, nested to any depth: the offsets of
  dynamic members, computed as 32 bit and 64 bit integers on the way, lead to their encodings.\<close>
theorem sol_roundtrip:
  assumes "abi_ext_ok X" and "matches X t v" and "length pre + length (spec_enc X v) + length post < 2 ^ 31"
  shows "\<exists>bs. serialize X v = Inr bs \<and> deserialize X t (pre @ bs @ post) (word_of_nat (length pre)) = Inr v"
proof -
  have h: "handled X t v" by (rule matches_handled [OF assms(1,2)])
  have "enc X v = spec_enc X v" using matches_refines [OF assms(1,2)] assms(3) by (simp add: refines_def)
  then have "length (pre @ enc X v @ post) < 2 ^ 31" using assms(3) by simp
  from decodesD(3) [OF handledD(2) [OF h] this located_self] show ?thesis using handledD(1) [OF h]
    by (auto simp: serializes_def)
qed

theorem sol_roundtrip_witness:
  "\<exists>bs. serialize abi_ext0 example_value = Inr bs \<and>
     deserialize abi_ext0 example_template ([1, 2] @ bs @ [3]) (word_of_nat (length [1 :: byte, 2])) = Inr example_value"
  by (rule sol_roundtrip [OF abi_ext0_ok example_matches]) (simp add: example_size)

text \<open>Claim C7. The codec refines the contract ABI. For a value of a definition whose encoding is shorter
  than 4 GB, \<open>serialize\<close> gives exactly the encoding of the specification: a sequence is the
  heads of its parts followed by the tails of the dynamic ones, the head of a dynamic part being its
  distance from the start of the sequence; \<open>dynamicType\<close> agrees with the specified kind.\<close>
theorem sol_refines_abi:
  assumes "abi_ext_ok X" and "matches X t v" and "length (spec_enc X v) < 2 ^ 32"
  shows "serialize X v = Inr (spec_enc X v) \<and> dynamicType v = Inr (spec_dyn v)"
  using matches_refines [OF assms(1,2)] matches_handled [OF assms(1,2)] assms(3)
  by (simp add: refines_def handled_def serializes_def)

theorem sol_refines_abi_witness:
  "serialize abi_ext0 example_value = Inr (spec_enc abi_ext0 example_value) \<and>
   dynamicType example_value = Inr (spec_dyn example_value)"
  by (rule sol_refines_abi [OF abi_ext0_ok example_matches]) (simp add: example_size)

text \<open>Claim C35. Decoding preserves types. Whatever the buffer and the offset, when \<open>deserialize\<close>
  returns, the value has the type of the template: names, extents and dimensions are unchanged, a
  \<open>bytesN\<close> has exactly \<open>N\<close> bytes, and every element of a \<open>T[]\<close> has the type of
  the template's element.\<close>
theorem sol_decode_typed:
  assumes "deserialize X t buf off = Inr v"
  shows "typed t v"
  using assms by (rule deserialize_typed)

theorem sol_decode_typed_witness: "typed (Uint ''u'' 0 8) (Uint ''u'' 513 8)"
proof (rule sol_decode_typed)
  have "located (ser_u256 abi_ext0 513) 0 (ser_u256 abi_ext0 513)" by (simp add: located_def)
  from des_ser_u256 [OF abi_ext0_ok this]
  show "deserialize abi_ext0 (Uint ''u'' 0 8) (ser_u256 abi_ext0 513) 0 = Inr (Uint ''u'' 513 8)"
    by (simp add: abi_ext0_ok)
qed

text \<open>Every encoding consists of whole 32 byte words, whatever the value and whether or not it
  has the shape of a definition.\<close>
lemma sol_aligned:
  assumes "abi_ext_ok X" and "\<And>s a. address_of_string X s = Some a \<Longrightarrow> length a = 20" and "serialize X v = Inr bs"
  shows "length bs mod 32 = 0"
  using serialize_aligned [OF assms] by simp

theorem sol_aligned_witness: "length (ser_bytes abi_ext0 [1, 2, 3]) mod 32 = 0"
proof (rule sol_aligned [OF abi_ext0_ok])
  show "length a = 20" if "address_of_string abi_ext0 s = Some a" for s a
    using that by (auto simp: abi_ext0_def length_unhex0 split: if_splits)
  show "serialize abi_ext0 (DynamicBytes [] [1, 2, 3]) = Inr (ser_bytes abi_ext0 [1, 2, 3])" by simp
qed

text \<open>Cloning and comparing. \<open>clone\<close> gives an equal value when every extent and every
  \<open>bytesN\<close> in the value is one the constructors accept, and raises \<open>runtime_error\<close> otherwise;
  \<open>isEqual\<close> is the equality of values without their names and extents, so that it is an
  equivalence although it compares the elements of lists in the swapped order.\<close>
lemma abi_clone_isEqual:
  "clone v = (if abi_checked v then Inr v else Inl Runtime_error) \<and> (isEqual v w \<longleftrightarrow> abi_erase v = abi_erase w)"
  using clone_spec isEqual_spec by blast

text \<open>The length check of \<open>bytes\<close> can wrap around. For a length field of
  \<open>2 ^ 64 - 31\<close> the 64 bit sum that \<open>verifyBufferOffset\<close> is given is 0, so a buffer that
  holds nothing but the length field passes the check and the content is cropped from a range that
  lies far outside of the buffer, instead of the \<open>length_error\<close> that the check is there to raise.\<close>
lemma sol_length_check_wraps:
  assumes "abi_ext_ok X"
  shows "des_bytes X (ser_u256 X (2 ^ 64 - 31)) 0 =
           Inr (getCroppedData2 X (ser_u256 X (2 ^ 64 - 31)) 32 (2 ^ 64 - 31)) \<and>
         length (ser_u256 X (2 ^ 64 - 31)) < 32 + unat (2 ^ 64 - 31 :: u64)"
proof -
  let ?u = "2 ^ 64 - 31 :: u256"
  have "located (ser_u256 X ?u) 0 (ser_u256 X ?u)" by (simp add: located_def)
  from des_ser_u256 [OF assms this] have "des_u256 X (ser_u256 X ?u) 0 = Inr ?u" using assms by simp
  moreover have "u256_to_size X ?u = 2 ^ 64 - 31" using abi_ext_okD(4) [OF assms, of ?u] by simp
  ultimately show ?thesis using assms by (simp add: des_bytes_def verifyBufferOffset_def)
qed

theorem sol_length_check_wraps_witness:
  "des_bytes abi_ext0 (ser_u256 abi_ext0 (2 ^ 64 - 31)) 0 =
     Inr (getCroppedData2 abi_ext0 (ser_u256 abi_ext0 (2 ^ 64 - 31)) 32 (2 ^ 64 - 31)) \<and>
   length (ser_u256 abi_ext0 (2 ^ 64 - 31)) < 32 + unat (2 ^ 64 - 31 :: u64)"
  by (rule sol_length_check_wraps [OF abi_ext0_ok])

end
