(* ===== verification/AbiCalls.thy ===== *)
theory AbiCalls
  imports AbiCodec AbiNames AbiTheorems EventMessages
begin

text \<open>
  Calls of contract methods: the contract between \<open>ContractABICodec\<close> and the codec of values as
  a locale, which the Solidity codec satisfies; how the methods and events of a description are
  found; the topics of events; and the properties of the factory and of the calls.
\<close>

section \<open>What the codec of values promises\<close>

text \<open>
  \<open>fits X t v k\<close>: the codec can carry the value \<open>v\<close> of the template \<open>t\<close> behind
  \<open>k\<close> other bytes.
\<close>

locale abi_codec =
  fixes codec :: "abi_ext \<Rightarrow> type_codec"
    and fits :: "abi_ext \<Rightarrow> abi_value \<Rightarrow> abi_value \<Rightarrow> nat \<Rightarrow> bool"
  assumes restores: "abi_ext_ok X \<Longrightarrow> fits X t v (length pre) \<Longrightarrow>
    \<exists>bs. codec_serialize (codec X) v = Inr bs \<and>
      codec_deserialize (codec X) t (pre @ bs) (word_of_nat (length pre)) = Inr v"
begin

lemma call_restored:
  assumes "abi_ext_ok (ext E)" and "buildInput (boost E) m = Inr t" and "initAbstractType E t j = Inr v"
    and "fits (ext E) t v 4"
  shows "\<exists>data. encodeMethod_json E (codec (ext E)) m j = Inr data \<and>
    decodeMethodInput_method E (codec (ext E)) m data = Inr (abi_toJsonString E v)"
proof -
  let ?id = "getMethodID (boost E) (hashImpl E) m"
  have l: "length ?id = 4" by (simp add: getMethodID_def Let_def)
  obtain bs where "codec_serialize (codec (ext E)) v = Inr bs"
    and "codec_deserialize (codec (ext E)) t (?id @ bs) 4 = Inr v"
    using restores [OF assms(1), of t v ?id] assms(4) by (auto simp: l)
  then show ?thesis
    using assms(2,3) by (simp add: encodeMethod_json_def decodeMethodInput_method_def)
qed

lemma output_restored:
  assumes "abi_ext_ok (ext E)" and "buildOutput (boost E) m = Inr t" and "fits (ext E) t v 0"
  shows "\<exists>data. codec_serialize (codec (ext E)) v = Inr data \<and>
    decodeMethodOutput_method E (codec (ext E)) m data = Inr (abi_toJsonString E v)"
  using restores [OF assms(1), of t v "[]"] assms(2,3) by (auto simp: decodeMethodOutput_method_def)

lemma event_restored:
  assumes "abi_ext_ok (ext E)" and "buildEvent (boost E) e = Inr t" and "fits (ext E) t v 0"
  shows "\<exists>data. codec_serialize (codec (ext E)) v = Inr data \<and>
    decodeEvent_event E (codec (ext E)) e data = Inr (abi_toJsonString E v)"
  using restores [OF assms(1), of t v "[]"] assms(2,3) by (auto simp: decodeEvent_event_def)

end

definition sol_fits :: "abi_ext \<Rightarrow> abi_value \<Rightarrow> abi_value \<Rightarrow> nat \<Rightarrow> bool" where
  "sol_fits X t v k \<longleftrightarrow> matches X t v \<and> k + length (spec_enc X v) < 2 ^ 31"

lemma sol_restores:
  assumes "abi_ext_ok X" and "matches X t v" and "length pre + length (spec_enc X v) < 2 ^ 31"
  shows "serialize X v = Inr (enc X v) \<and> deserialize X t (pre @ enc X v) (word_of_nat (length pre)) = Inr v"
proof -
  have h: "handled X t v" by (rule matches_handled [OF assms(1,2)])
  have "enc X v = spec_enc X v" using matches_refines [OF assms(1,2)] assms(3) by (simp add: refines_def)
  then have b: "length (pre @ enc X v) < 2 ^ 31" using assms(3) by simp
  have "located (pre @ enc X v) (length pre) (enc X v)" using located_self [of pre "enc X v" "[]"] by simp
  from decodesD(3) [OF handledD(2) [OF h] b this] show ?thesis using handledD(1) [OF h] by (simp add: serializes_def)
qed

interpretation sol: abi_codec sol_codec sol_fits
proof unfold_locales
  fix X t v and pre :: bytes
  assume "abi_ext_ok X" and "sol_fits X t v (length pre)"
  then show "\<exists>bs. codec_serialize (sol_codec X) v = Inr bs \<and>
      codec_deserialize (sol_codec X) t (pre @ bs) (word_of_nat (length pre)) = Inr v"
    using sol_restores [of X t v pre] by (simp add: sol_fits_def sol_codec_def)
qed

section \<open>Methods and events of a description\<close>

text \<open>Under which name a method is found.\<close>

definition method_key :: "abi_method \<Rightarrow> string option" where
  "method_key m =
     (if am_type m \<in> {CONSTRUCTOR_TYPE, FALLBACK_TYPE, RECEIVE_TYPE} then Some (am_type m)
      else if am_type m = FUNCTION_TYPE then Some (am_name m) else None)"

definition event_key :: "abi_method \<Rightarrow> string option" where
  "event_key m = (if am_type m = EVENT_TYPE then Some (am_name m) else None)"

definition listed :: "string \<Rightarrow> (string \<times> 'a list) list \<Rightarrow> 'a list" where
  "listed k mp = (case umap_find k mp of None \<Rightarrow> [] | Some xs \<Rightarrow> xs)"

definition no_empty :: "(string \<times> 'a list) list \<Rightarrow> bool" where
  "no_empty mp \<longleftrightarrow> (\<forall>k. umap_find k mp \<noteq> Some [])"

lemma umap_find_listed: "no_empty mp \<Longrightarrow> umap_find k mp = (if listed k mp = [] then None else Some (listed k mp))"
  by (cases "umap_find k mp") (auto simp: listed_def no_empty_def)

lemma push_listed:
  "listed k (umap_push k' x mp) = listed k mp @ (if k = k' then [x] else [])"
  "no_empty mp \<Longrightarrow> no_empty (umap_push k' x mp)"
  by (auto simp: listed_def umap_push_def umap_find_set no_empty_def split: option.splits)

lemma type_names: "distinct [CONSTRUCTOR_TYPE, FALLBACK_TYPE, RECEIVE_TYPE, FUNCTION_TYPE, EVENT_TYPE]"
  by (simp add: CONSTRUCTOR_TYPE_def FALLBACK_TYPE_def RECEIVE_TYPE_def FUNCTION_TYPE_def EVENT_TYPE_def)

lemma addDefinition_listed:
  "listed k (m_methods (addDefinition m d)) = listed k (m_methods d) @ (if method_key m = Some k then [m] else [])"
  "listed k (m_events (addDefinition m d)) = listed k (m_events d) @ (if event_key m = Some k then [m] else [])"
  "no_empty (m_methods d) \<Longrightarrow> no_empty (m_methods (addDefinition m d))"
  "no_empty (m_events d) \<Longrightarrow> no_empty (m_events (addDefinition m d))"
  using type_names
  by (auto simp: addDefinition_def addMethod_def addEvent_def method_key_def event_key_def push_listed)

lemma definitions_listed:
  "listed k (m_methods (fold addDefinition ms d)) = listed k (m_methods d) @ filter (\<lambda>m. method_key m = Some k) ms"
  "listed k (m_events (fold addDefinition ms d)) = listed k (m_events d) @ filter (\<lambda>m. event_key m = Some k) ms"
  "no_empty (m_methods d) \<Longrightarrow> no_empty (m_methods (fold addDefinition ms d))"
  "no_empty (m_events d) \<Longrightarrow> no_empty (m_events (fold addDefinition ms d))"
  by (induction ms arbitrary: d) (simp_all add: addDefinition_listed)

end
