(* ===== verification/AbiParams.thy ===== *)
theory AbiParams
  imports AbiCodec AbiNames AbiSolProps
begin

text \<open>
  Parameters of calls: which JSON documents describe an ABI value, stated without the code that
  reads them, and that \<open>initAbstractTypeWithJsonParams\<close> reads the described value; the
  document that \<open>toJson\<close> writes for a value is one of those that describe it.
\<close>

section \<open>The libraries behind the parameters\<close>

text \<open>The documented conversions of jsoncpp on the values the reader distinguishes.\<close>

definition json_conv_ok :: "json_conv \<Rightarrow> bool" where
  "json_conv_ok K \<longleftrightarrow>
     (\<forall>b. json_asBool K (JBool b) = Inr b \<and> json_isConvertibleTo K (JBool b) BooleanValue) \<and>
     (\<forall>i. 0 \<le> i \<and> i < 2 ^ 32 \<longrightarrow> json_asUInt K (JInt i) = Inr (nat i) \<and> json_isConvertibleTo K (JInt i) UintValue) \<and>
     (\<forall>i. int32_range i \<longrightarrow> json_isConvertibleTo K (JInt i) IntValue) \<and>
     (\<forall>s. json_isConvertibleTo K (JString s) StringValue \<and> \<not> json_isConvertibleTo K (JString s) UintValue \<and>
        \<not> json_isConvertibleTo K (JString s) IntValue) \<and>
     (\<forall>js. json_isConvertibleTo K (JArray js) ArrayValue \<and> json_isArray K (JArray js)) \<and>
     (\<forall>kvs. json_isConvertibleTo K (JObject kvs) ObjectValue \<and> json_isObject K (JObject kvs) \<and>
        \<not> json_isArray K (JObject kvs))"

lemma json_conv_okD [simp]:
  assumes "json_conv_ok K"
  shows "json_asBool K (JBool b) = Inr b" and "json_isConvertibleTo K (JBool b) BooleanValue"
    and "0 \<le> i \<Longrightarrow> i < 2 ^ 32 \<Longrightarrow> json_asUInt K (JInt i) = Inr (nat i)"
    and "0 \<le> i \<Longrightarrow> i < 2 ^ 32 \<Longrightarrow> json_isConvertibleTo K (JInt i) UintValue"
    and "int32_range i \<Longrightarrow> json_isConvertibleTo K (JInt i) IntValue"
    and "json_isConvertibleTo K (JString s) StringValue"
    and "\<not> json_isConvertibleTo K (JString s) UintValue" and "\<not> json_isConvertibleTo K (JString s) IntValue"
    and "json_isConvertibleTo K (JArray js) ArrayValue" and "json_isArray K (JArray js)"
    and "json_isConvertibleTo K (JObject kvs) ObjectValue" and "json_isObject K (JObject kvs)"
    and "\<not> json_isArray K (JObject kvs)"
  using assms unfolding json_conv_ok_def by blast+

text \<open>
  Numbers are printed in decimal and read back by the constructors of boost's integers; bytes are
  read back from their hexadecimal text.
\<close>

definition abi_env_ok :: "abi_env \<Rightarrow> bool" where
  "abi_env_ok E \<longleftrightarrow>
     boost_ok (boost E) \<and> jsoncpp_ok (jcpp E) \<and> json_conv_ok (jconv E) \<and> abi_ext_ok (ext E) \<and>
     (\<forall>i. str10 (ext E) i = to_string i) \<and>
     (\<forall>u. u256_of_string E (to_string (uint u)) = Some u) \<and>
     (\<forall>i. - (2 ^ 255) \<le> i \<and> i < 2 ^ 255 \<longrightarrow> s256_of_string E (to_string i) = Some i) \<and>
     (\<forall>bs. fromHexString E (toHexString (ext E) bs) = Some bs)"

lemma abi_env_okD:
  assumes "abi_env_ok E"
  shows "boost_ok (boost E)" and "jsoncpp_ok (jcpp E)" and "json_conv_ok (jconv E)" and "abi_ext_ok (ext E)"
    and "str10 (ext E) i = to_string i" and "u256_of_string E (to_string (uint u)) = Some u"
    and "- (2 ^ 255) \<le> i \<Longrightarrow> i < 2 ^ 255 \<Longrightarrow> s256_of_string E (to_string i) = Some i"
    and "fromHexString E (toHexString (ext E) bs) = Some bs"
  using assms unfolding abi_env_ok_def by blast+

section \<open>Documents that describe a value\<close>

text \<open>
  A number is described by itself when it fits 32 bits, and by its decimal text; bytes by their
  hexadecimal or base64 text behind its prefix; lists by arrays; and a structure by the array of
  its members, or by an object with the members' names, which must be distinct.
\<close>

inductive describes :: "abi_env \<Rightarrow> json \<Rightarrow> abi_value \<Rightarrow> bool" for E where
  D_bool: "describes E (JBool b) (Boolean n b)"
| D_uint: "uint u < 2 ^ 32 \<Longrightarrow> describes E (JInt (uint u)) (Uint n u e)"
| D_uint_text: "describes E (JString (to_string (uint u))) (Uint n u e)"
| D_int: "int32_range i \<Longrightarrow> describes E (JInt i) (IntV n i e)"
| D_int_text: "describes E (JString (to_string i)) (IntV n i e)"
| D_string: "describes E (JString s) (String n s)"
| D_addr: "describes E (JString s) (Addr n s)"
| D_bytes_hex: "fromHexString E s = Some bs \<Longrightarrow> describes E (JString (''hex://'' @ s)) (DynamicBytes n bs)"
| D_bytes_base64: "base64DecodeBytes E s = Some bs \<Longrightarrow> describes E (JString (''base64://'' @ s)) (DynamicBytes n bs)"
| D_fixedBytes_hex: "fromHexString E s = Some bs \<Longrightarrow> describes E (JString (''hex://'' @ s)) (FixedBytes n k bs)"
| D_fixedBytes_base64: "base64DecodeBytes E s = Some bs \<Longrightarrow> describes E (JString (''base64://'' @ s)) (FixedBytes n k bs)"
| D_list: "list_all2 (describes E) js vs \<Longrightarrow> describes E (JArray js) (DynamicList n vs)"
| D_fixedList: "list_all2 (describes E) js vs \<Longrightarrow> describes E (JArray js) (FixedList n d vs)"
| D_struct: "list_all2 (describes E) js vs \<Longrightarrow> describes E (JArray js) (Struct n vs)"
| D_object: "distinct (map abi_name vs) \<Longrightarrow> [] \<notin> set (map abi_name vs) \<Longrightarrow>
    \<forall>v \<in> set vs. \<exists>j. map_of kvs (abi_name v) = Some j \<and> describes E j v \<Longrightarrow> describes E (JObject kvs) (Struct n vs)"

inductive_cases describes_cases:
  "describes E j (Boolean n b)" "describes E j (Uint n u e)" "describes E j (IntV n i e)" "describes E j (String n s)"
  "describes E j (Addr n s)" "describes E j (DynamicBytes n bs)" "describes E j (FixedBytes n k bs)"
  "describes E j (DynamicList n vs)" "describes E j (FixedList n d vs)" "describes E j (Struct n vs)"

section \<open>Base types\<close>

lemma to_string_unsigned:
  assumes "boost_ok B" and "0 \<le> i" shows "isUnsigned B (to_string i)"
  using assms(2) decimal_digits [of "nat i"] boost_okD(1) [OF assms(1) trimmed_decimal]
  by (simp add: isUnsigned_def to_string_def)

lemma to_string_signed:
  assumes B: "boost_ok B" shows "isSigned B (to_string i)"
proof (cases "i < 0")
  case True
  let ?d = "decimal (nat (- i))"
  have d: "list_all isdigit ?d" "?d \<noteq> []" using decimal_digits by simp_all
  then have "isdigit (List.last ?d)" by (simp add: list_all_iff)
  then have "trimmed (CHR ''-'' # ?d)" using d digit_char by (simp add: trimmed_def isspace_def)
  then show ?thesis using True d boost_okD [OF B] by (simp add: isSigned_def to_string_def)
next
  case False
  let ?d = "decimal (nat i)"
  have d: "list_all isdigit ?d" "?d \<noteq> []" using decimal_digits by simp_all
  then obtain c cs where c: "?d = c # cs" by (cases ?d) simp_all
  then have "c \<noteq> CHR ''-''" using d digit_char by simp
  then show ?thesis using False d c boost_okD(2) [OF B] boost_okD(1) [OF B trimmed_decimal, of "nat i"]
    by (simp add: isSigned_def to_string_def)
qed

lemma init_uint_described:
  assumes E: "abi_env_ok E" and d: "describes E j (Uint n u e)" shows "init_uint E j = Inr u"
  using d
proof (cases rule: describes.cases)
  case D_uint
  have "word_of_nat (nat (uint u)) = u" by (simp add: word_of_nat_eq_iff)
  then show ?thesis using D_uint abi_env_okD(3) [OF E] by (simp add: init_uint_def JsonTypeMatchCheckV2_def ofJson_def)
next
  case D_uint_text
  then show ?thesis using abi_env_okD(2,3,6) [OF E] to_string_unsigned [OF abi_env_okD(1) [OF E]]
    by (simp add: init_uint_def JsonTypeMatchCheckV2_def ofJson_def asString_def orRuntime_def)
qed

lemma init_int_described:
  assumes E: "abi_env_ok E" and d: "describes E j (IntV n i e)" and i: "- (2 ^ 255) \<le> i" "i < 2 ^ 255"
  shows "init_int E j = Inr i"
  using d
proof (cases rule: describes.cases)
  case D_int
  then show ?thesis using abi_env_okD(2,3) [OF E] by (simp add: init_int_def JsonTypeMatchCheckV2_def ofJson_def)
next
  case D_int_text
  then show ?thesis using abi_env_okD(2,3) [OF E] abi_env_okD(7) [OF E i] to_string_signed [OF abi_env_okD(1) [OF E]]
    by (simp add: init_int_def JsonTypeMatchCheckV2_def ofJson_def asString_def orRuntime_def)
qed

lemma init_text_string: "abi_env_ok E \<Longrightarrow> init_text E (JString s) = Inr s"
  using abi_env_okD(2,3) by (simp add: init_text_def JsonTypeMatchCheck_def asString_def ofJson_def)

lemma init_bytes_prefix:
  assumes "abi_env_ok E"
  shows "fromHexString E s = Some bs \<Longrightarrow> init_bytes E (JString (''hex://'' @ s)) = Inr bs"
    and "base64DecodeBytes E s = Some bs \<Longrightarrow> init_bytes E (JString (''base64://'' @ s)) = Inr bs"
  using init_text_string [OF assms] boost_okD(2) [OF abi_env_okD(1) [OF assms]]
  by (simp_all add: init_bytes_def decodeBytesFromString_def orRuntime_def del: append.simps)
    (simp_all)

lemmas init_bytes_text = init_bytes_prefix [simplified]

section \<open>Composite types\<close>

abbreviation reads_described :: "abi_env \<Rightarrow> abi_value \<Rightarrow> abi_value \<Rightarrow> bool" where
  "reads_described E t v \<equiv> \<forall>j. describes E j v \<longrightarrow> initAbstractType E t j = Inr v"

lemma initClones_described:
  assumes "list_all2 (describes E) js vs" and "abi_checked t" and "\<forall>v \<in> set vs. reads_described E t v"
  shows "initClones E t js = Inr vs"
  using assms by (induction rule: list_all2_induct) (simp_all add: clone_spec)

lemma initEach_described:
  assumes "list_all2 (reads_described E) ts vs" and "list_all2 (describes E) js vs"
  shows "initEach E ts js = Inr vs"
  using assms by (induction arbitrary: js rule: list_all2_induct) (auto simp: list_all2_Cons2)

lemma kvValue_distinct:
  assumes "distinct (map abi_name vs)" and "[] \<notin> set (map abi_name vs)"
  shows "kvValue vs = map (\<lambda>v. (abi_name v, v)) vs"
proof -
  have "snd (fold Struct_addMember vs (ws, kvs)) = kvs @ map (\<lambda>v. (abi_name v, v)) vs"
    if "\<forall>v \<in> set vs. map_of kvs (abi_name v) = None" for ws kvs
    using assms that
  proof (induction vs arbitrary: ws kvs)
    case (Cons v vs)
    have "umap_set (abi_name v) v kvs = kvs @ [(abi_name v, v)]"
      using Cons.prems by (simp add: umap_set_def umap_find_def)
    moreover have "\<forall>w \<in> set vs. map_of (kvs @ [(abi_name v, v)]) (abi_name w) = None"
      using Cons.prems by (auto simp: map_add_def image_iff)
    moreover have "abi_name v \<noteq> []" using Cons.prems by auto
    ultimately show ?case using Cons by (simp add: Struct_addMember_def)
  qed simp
  from this [of "[]" "[]"] show ?thesis by (simp add: kvValue_def)
qed

lemma initKeys_described:
  assumes "jsoncpp_ok (jcpp E)" and "list_all2 (\<lambda>t v. abi_name t = abi_name v \<and> reads_described E t v) ts vs"
    and "\<forall>v \<in> set vs. \<exists>j. map_of kvs (abi_name v) = Some j \<and> describes E j v"
  shows "initKeys E (map (\<lambda>t. (abi_name t, t)) ts) (JObject kvs) = Inr (map (\<lambda>v. (abi_name v, v)) vs)"
  using assms(2,3)
proof (induction rule: list_all2_induct)
  case (Cons t ts v vs)
  then obtain j where j: "map_of kvs (abi_name v) = Some j" "describes E j v" by auto
  then show ?case using Cons assms(1) by (simp add: ofJson_def)
qed simp

lemma set_last_named_fresh:
  "k \<notin> set (map abi_name pre) \<Longrightarrow> abi_name t = k \<Longrightarrow> k \<notin> set (map abi_name ts) \<Longrightarrow>
     set_last_named k v (pre @ t # ts) = pre @ v # ts"
  by (induction pre) (auto simp: list_ex_iff image_iff)

lemma set_members:
  assumes "list_all2 (\<lambda>t v. abi_name t = abi_name v) ts vs" and "distinct (map abi_name vs)"
    and "set (map abi_name pre) \<inter> set (map abi_name vs) = {}"
  shows "fold (\<lambda>(k, v). set_last_named k v) (map (\<lambda>v. (abi_name v, v)) vs) (pre @ ts) = pre @ vs"
  using assms
proof (induction arbitrary: pre rule: list_all2_induct)
  case (Cons t ts v vs)
  have "map abi_name ts = map abi_name vs" using Cons.hyps(2) by (induction rule: list_all2_induct) simp_all
  then have "set_last_named (abi_name v) v (pre @ t # ts) = pre @ v # ts"
    using Cons.hyps Cons.prems by (intro set_last_named_fresh) simp_all
  moreover have "fold (\<lambda>(k, v). set_last_named k v) (map (\<lambda>v. (abi_name v, v)) vs) ((pre @ [v]) @ ts) = (pre @ [v]) @ vs"
    using Cons.prems by (intro Cons.IH) auto
  ultimately show ?case by simp
qed simp

lemma matches_name: "matches X t v \<Longrightarrow> abi_name t = abi_name v"
  by (induction rule: matches.cases) simp_all

lemma init_object_described:
  assumes E: "abi_env_ok E" and r: "list_all2 (\<lambda>t v. abi_name t = abi_name v \<and> reads_described E t v) ts vs"
    and n: "distinct (map abi_name vs)" "[] \<notin> set (map abi_name vs)"
    and d: "\<forall>v \<in> set vs. \<exists>j. map_of kvs (abi_name v) = Some j \<and> describes E j v"
  shows "initAbstractType E (Struct nm ts) (JObject kvs) = Inr (Struct nm vs)"
proof -
  have e: "list_all2 (\<lambda>t v. abi_name t = abi_name v) ts vs" using r by (rule list_all2_mono) simp
  then have "map abi_name ts = map abi_name vs" by (induction rule: list_all2_induct) simp_all
  then have "kvValue ts = map (\<lambda>t. (abi_name t, t)) ts" using n by (intro kvValue_distinct) simp_all
  moreover have "fold (\<lambda>(k, v). set_last_named k v) (map (\<lambda>v. (abi_name v, v)) vs) ts = vs"
    using set_members [OF e n(1), of "[]"] by simp
  ultimately show ?thesis
    using initKeys_described [OF abi_env_okD(2) [OF E] r d] abi_env_okD(3) [OF E]
    by (simp add: JsonTypeMatchCheckV2_def)
qed

text \<open>The factory gives every template of \<open>T[]\<close> exactly one element, which the reader asserts.\<close>

fun one_element :: "abi_value \<Rightarrow> bool" where
  "one_element (DynamicList n vs) \<longleftrightarrow> length vs = 1 \<and> (\<forall>v \<in> set vs. one_element v)"
| "one_element (FixedList n d vs) \<longleftrightarrow> (\<forall>v \<in> set vs. one_element v)"
| "one_element (Struct n vs) \<longleftrightarrow> (\<forall>v \<in> set vs. one_element v)"
| "one_element _ \<longleftrightarrow> True"

lemma one_element_setName [simp]: "one_element (setName n v) = one_element v"
  by (cases v) simp_all

lemma base_one_element: "buildBaseAbstractType B h = Inr v \<Longrightarrow> one_element v"
  by (auto simp: buildBaseAbstractType_def bindE_Inr_iff Uint_newValue_def Int_newValue_def FixedBytes_newType_def
      Let_def split: if_splits)

lemma built_one_element:
  "buildAbstractType B nt h = Inr (v, h') \<Longrightarrow> one_element v"
  "buildMembers B nt k h = Inr (vs, h') \<Longrightarrow> \<forall>v \<in> set vs. one_element v"
  "buildComponents B nts = Inr vs \<Longrightarrow> \<forall>v \<in> set vs. one_element v"
proof (induction B nt h and B nt k h and B nts arbitrary: v h' and vs h' and vs
    rule: buildAbstractType_buildMembers_buildComponents.induct)
  case (1 B nt h)
  show ?case using "1.prems" "1.IH"(1) [OF _ refl] "1.IH"(2,3)
    unfolding buildAbstractType.simps [of B nt h]
    by (auto simp: bindE_Inr_iff Let_def fold_addMember DynamicList_addMember_def dest: base_one_element split: if_splits)
qed (auto simp: bindE_Inr_iff)

section \<open>The described value is read\<close>

lemma matches_reads:
  assumes E: "abi_env_ok E" and "matches (ext E) t v" and "one_element t"
  shows "reads_described E t v"
  using assms(2,3)
proof (induction rule: matches.induct)
  case (M_bool n b b')
  then show ?case using abi_env_okD(3) [OF E]
    by (auto elim!: describes_cases simp: JsonTypeMatchCheck_def asBool_def ofJson_def)
next
  case (M_uint n u e u')
  then show ?case using init_uint_described [OF E] by simp
next
  case (M_int i' n i e)
  then show ?case using init_int_described [OF E] by simp
next
  case (M_fixedBytes k bs' n bs)
  then show ?case using init_bytes_text [OF E]
    by (auto elim!: describes_cases simp: FixedBytes_verify_def MAX_FIXED_BYTES_LENGTH_def)
next
  case (M_addr a n s)
  then show ?case using init_text_string [OF E] by (auto elim!: describes_cases)
next
  case (M_string n s s')
  then show ?case using init_text_string [OF E] by (auto elim!: describes_cases)
next
  case (M_bytes n bs bs')
  then show ?case using init_bytes_text [OF E] by (auto elim!: describes_cases)
next
  case (M_list t vs n ts)
  then have "\<forall>v \<in> set vs. reads_described E t v" by simp
  with M_list show ?case using initClones_described [OF _ M_list.hyps(1)] abi_env_okD(2,3) [OF E]
    by (auto elim!: describes_cases simp: JsonTypeMatchCheck_def ofJson_def)
next
  case (M_fixedList d ts vs n)
  then have r: "list_all2 (reads_described E) ts vs" by (auto simp: list_all2_conv_all_nth)
  show ?case using initEach_described [OF r] list_all2_lengthD [OF r] M_fixedList.hyps(2) abi_env_okD(2,3) [OF E]
    by (auto elim!: describes_cases simp: JsonTypeMatchCheck_def ofJson_def dest: list_all2_lengthD)
next
  case (M_struct ts vs n)
  then have r: "list_all2 (\<lambda>t v. abi_name t = abi_name v \<and> reads_described E t v) ts vs"
    by (auto simp: list_all2_conv_all_nth dest: matches_name)
  then have e: "list_all2 (reads_described E) ts vs" by (rule list_all2_mono) simp
  have a: "initAbstractType E (Struct n ts) (JArray js) = Inr (Struct n vs)" if "list_all2 (describes E) js vs" for js
    using initEach_described [OF e that] list_all2_lengthD [OF e] list_all2_lengthD [OF that] abi_env_okD(2,3) [OF E]
    by (simp add: JsonTypeMatchCheckV2_def ofJson_def)
  show ?case using a init_object_described [OF E r]
    by (intro allI impI, elim describes_cases) (simp_all del: initAbstractType.simps)
qed simp

text \<open>What \<open>toJson\<close> writes for a value describes it.\<close>

lemma toJson_describes:
  assumes E: "abi_env_ok E" and "matches (ext E) t v"
  shows "describes E (abi_toJson (ext E) v) v"
  using assms(2)
proof (induction rule: matches.induct)
  case (M_list t vs n ts)
  then show ?case by (auto intro!: D_list simp: list_all2_map1 list_all2_same)
next
  case (M_fixedList d ts vs n)
  then show ?case by (auto intro!: D_fixedList simp: list_all2_conv_all_nth)
next
  case (M_struct ts vs n)
  then show ?case by (auto intro!: D_struct simp: list_all2_conv_all_nth)
qed (use abi_env_okD(5,8) [OF E] in \<open>auto intro: describes.intros simp: Uint_toJson_def Int_toJson_def
  DynamicBytes_toJson_def FixedBytes_toJson_def simp del: append.simps\<close>)

end
