(* ===== verification/AbiCallTheorems.thy ===== *)
theory AbiCallTheorems
  imports AbiCalls AbiParams
begin

text \<open>
  Event topics (\<open>utilities/abi/ContractABIEventTopic.h\<close>), an instance of the libraries behind the
  calls, and the properties of type names, of the factory, of the lookup by name and of calls.
\<close>

section \<open>Event topics\<close>

text \<open>The parameter \<open>hx\<close> is \<open>toHexStringWithPrefix\<close>, or \<open>hexPrefixed\<close> of a hash.\<close>

definition u256ToTopic :: "abi_ext \<Rightarrow> (bytes \<Rightarrow> string) \<Rightarrow> u256 \<Rightarrow> string" where
  "u256ToTopic X hx u = hx (ser_u256 X u)"

definition i256ToTopic :: "abi_ext \<Rightarrow> (bytes \<Rightarrow> string) \<Rightarrow> int \<Rightarrow> string" where
  "i256ToTopic X hx i = hx (ser_s256 X i)"

definition stringToTopic :: "hash_impl \<Rightarrow> (bytes \<Rightarrow> string) \<Rightarrow> string \<Rightarrow> string" where
  "stringToTopic H hx s = hx (hash_bytes H s)"

definition bytesToTopic :: "hash_impl \<Rightarrow> (bytes \<Rightarrow> string) \<Rightarrow> bytes \<Rightarrow> string" where
  "bytesToTopic H hx bs = hx (hash_bytes H (string_of_bytes bs))"

definition bytesNToTopic :: "(bytes \<Rightarrow> string) \<Rightarrow> bytes \<Rightarrow> abi_exn + string" where
  "bytesNToTopic hx bsn = bindE (ser_bytesN bsn) (\<lambda>data. Inr (hx data))"

text \<open>Hashes have 32 bytes, and hexadecimal text has two digits for each byte behind its prefix.\<close>

definition hash_ok :: "hash_impl \<Rightarrow> bool" where
  "hash_ok H \<longleftrightarrow> (\<forall>s. length (hash_bytes H s) = 32) \<and> (\<forall>bs. length (hash_hex H bs) = 2 * length bs)"

definition hex_prefix_ok :: "(bytes \<Rightarrow> string) \<Rightarrow> bool" where
  "hex_prefix_ok hx \<longleftrightarrow> (\<forall>bs. take 2 (hx bs) = ''0x'' \<and> length (hx bs) = 2 + 2 * length bs)"

lemma valid_topic: "hex_prefix_ok hx \<Longrightarrow> length bs = 32 \<Longrightarrow> validEventTopic (hx bs)"
  by (simp add: validEventTopic_def hex_prefix_ok_def CONTRACT_EVENT_TOPIC_LENGTH_def)

lemma topic_not_found:
  assumes "hash_ok H" and "validEventTopic t" shows "getEventByTopic B H t d = Inl Runtime_error"
proof -
  have "length (getMethodIDAsString B H e) = 8" for e
    using assms(1) unfolding getMethodIDAsString_def hash_ok_def length_take by simp
  moreover have "length t = 64 + 2 \<or> length t = 64" using assms(2)
    unfolding validEventTopic_def CONTRACT_EVENT_TOPIC_LENGTH_def by presburger
  then have "length t \<noteq> 8" by linarith
  ultimately have "getMethodIDAsString B H e \<noteq> t" for e by metis
  then have "find (\<lambda>e. getMethodIDAsString B H e = t) (concat (map snd (m_events d))) = None"
    by (simp only: find_None_iff) simp
  then show ?thesis by (simp add: getEventByTopic_def)
qed

section \<open>An instance of the libraries\<close>

definition trim0 :: "string \<Rightarrow> string" where
  "trim0 s = rev (dropWhile isspace (rev (dropWhile isspace s)))"

fun split0 :: "string \<Rightarrow> string \<Rightarrow> string list" where
  "split0 acc [] = [rev acc]"
| "split0 acc (c # s) = (if c = CHR '','' then rev acc # split0 [] s else split0 (c # acc) s)"

definition boost0 :: boost_text where
  "boost0 = \<lparr>trim = trim0, starts_with = (\<lambda>s p. take (length p) s = p),
     replace_all = (\<lambda>s p q. q @ drop (length p) s), split_commas = split0 []\<rparr>"

lemma boost0_ok: "boost_ok boost0"
proof -
  have "trim0 s = s" if "trimmed s" for s
  proof (cases s rule: rev_cases)
    case (snoc xs c)
    have "dropWhile isspace s = s" using that by (cases s) (simp_all add: trimmed_def)
    then show ?thesis using that snoc by (simp add: trim0_def trimmed_def)
  qed (simp add: trim0_def)
  then show ?thesis by (simp add: boost_ok_def boost0_def)
qed

definition jconv0 :: json_conv where
  "jconv0 = \<lparr>json_asBool = (\<lambda>j. case j of JBool b \<Rightarrow> Inr b | _ \<Rightarrow> Inl Json_exception),
     json_asUInt = (\<lambda>j. case j of JInt i \<Rightarrow> if 0 \<le> i \<and> i < 2 ^ 32 then Inr (nat i) else Inl Json_exception | _ \<Rightarrow> Inl Json_exception),
     json_isConvertibleTo = (\<lambda>j ty. case (j, ty) of
         (JBool _, BooleanValue) \<Rightarrow> True | (JInt i, IntValue) \<Rightarrow> int32_range i
       | (JInt i, UintValue) \<Rightarrow> 0 \<le> i \<and> i < 2 ^ 32 | (JString _, StringValue) \<Rightarrow> True
       | (JArray _, ArrayValue) \<Rightarrow> True | (JObject _, ObjectValue) \<Rightarrow> True | _ \<Rightarrow> False),
     json_isArray = (\<lambda>j. case j of JArray _ \<Rightarrow> True | _ \<Rightarrow> False),
     json_isObject = (\<lambda>j. case j of JObject _ \<Rightarrow> True | _ \<Rightarrow> False)\<rparr>"

definition hash0 :: hash_impl where
  "hash0 = \<lparr>hash_bytes = (\<lambda>s. be_bytes 32 (length s)), hash_hex = hex0\<rparr>"

lemma hash0_ok: "hash_ok hash0"
  by (simp add: hash_ok_def hash0_def length_hex0)

text \<open>The readers of integers and of bytes, and printing in decimal.\<close>

definition signed_value :: "string \<Rightarrow> int" where
  "signed_value s = (if take 1 s = ''-'' then - digits_value (drop 1 s) else digits_value s)"

definition abi_ext1 :: abi_ext where "abi_ext1 = abi_ext0\<lparr>str10 := to_string\<rparr>"

lemma abi_ext1_ok: "abi_ext_ok abi_ext1"
  using abi_ext0_ok by (simp add: abi_ext_ok_def abi_ext1_def)

definition abi_env0 :: abi_env where
  "abi_env0 = \<lparr>boost = boost0, jcpp = jsoncpp0, jconv = jconv0, hashImpl = hash0, ext = abi_ext1,
     fromHexString = (\<lambda>s. Some (unhex0 s)), base64DecodeBytes = (\<lambda>s. None),
     u256_of_string = (\<lambda>s. Some (word_of_int (digits_value s))), s256_of_string = (\<lambda>s. Some (signed_value s)),
     nesting = 3\<rparr>"

lemma signed_value_to_string: "signed_value (to_string i) = i"
proof -
  obtain c cs where c: "decimal (nat i) = c # cs" using decimal_digits by (meson neq_Nil_conv)
  then have "c \<noteq> CHR ''-''" using decimal_digits [of "nat i"] digit_char by simp
  then show ?thesis using c digits_value_decimal [of "nat i"] by (simp add: signed_value_def to_string_def digits_value_decimal)
qed

lemma abi_env0_ok: "abi_env_ok abi_env0"
proof -
  have "json_conv_ok jconv0" by (simp add: json_conv_ok_def jconv0_def)
  moreover have "digits_value (to_string (uint u)) = uint u" for u :: u256
    by (simp add: to_string_def digits_value_decimal)
  ultimately show ?thesis
    by (simp add: abi_env_ok_def abi_env0_def boost0_ok abi_ext1_ok signed_value_to_string)
      (simp add: abi_ext1_def abi_ext0_def unhex0_hex0)
qed

section \<open>Properties\<close>

text \<open>Type names are read back as written. For an elementary type or \<open>tuple\<close> followed by
  any sequence of dimensions, \<open>NamedTypeHelper::reset\<close> finds the base type and the dimensions,
  0 for a dynamic one.\<close>
lemma type_name_roundtrip:
  assumes "boost_ok B" and "base \<noteq> []" and "trimmed base" and "CHR ''['' \<notin> set base"
    and "\<forall>e \<in> set es. e < 2 ^ 31"
  shows "reset B (type_text base es) = Inr \<lparr>m_type = type_text base es, m_baseType = base, m_extents = es\<rparr>"
  using assms by (rule reset_text)

theorem type_name_roundtrip_witness:
  "reset boost0 (type_text ''uint8'' [2, 0, 13]) =
     Inr \<lparr>m_type = type_text ''uint8'' [2, 0, 13], m_baseType = ''uint8'', m_extents = [2, 0, 13]\<rparr>"
  by (rule type_name_roundtrip [OF boost0_ok]) (simp_all add: trimmed_def isspace_def)

text \<open>The factory builds the type a name denotes when no dimension \<open>[N]\<close> with \<open>N > 1\<close>
  encloses another dimension: the template of \<open>T[]\<close> holds one template of \<open>T\<close>, that of
  \<open>T[N]\<close> holds \<open>N\<close> of them, all with the name of the parameter.\<close>
lemma factory_builds_type:
  assumes "boost_ok B" and "base \<noteq> []" and "trimmed base" and "CHR ''['' \<notin> set base"
    and "\<forall>e \<in> set es. e < 2 ^ 31" and "\<forall>e \<in> set (tl es). e \<le> 1"
    and "nt_type nt = type_text base es"
    and "\<And>h. m_baseType h = base \<Longrightarrow> m_extents h = [] \<Longrightarrow> buildAbstractType B nt h = Inr (v, h)"
  shows "buildComponents B [nt] = Inr [denoted (nt_name nt) v es]"
proof -
  let ?h = "\<lparr>m_type = type_text base es, m_baseType = base, m_extents = []\<rparr>"
  have "reset B (nt_type nt) = Inr (?h\<lparr>m_extents := es\<rparr>)" using reset_text [OF assms(1-5)] assms(7) by simp
  moreover have "buildAbstractType B nt (?h\<lparr>m_extents := es\<rparr>) = Inr (built (nt_name nt) v es, ?h)"
    by (rule buildAbstractType_built [OF _ _ assms(5)]) (simp_all add: assms(8))
  ultimately show ?thesis using built_denoted [OF assms(6)] by (simp)
qed

lemma bool_template:
  "m_baseType h = ''bool'' \<Longrightarrow> m_extents h = [] \<Longrightarrow>
     buildAbstractType boost0 (NamedType n ty i cs) h = Inr (Boolean n False, h)"
  by (simp add: buildAbstractType_base isTuple_def buildBaseAbstractType_def boost0_def)

theorem factory_builds_type_witness:
  "buildComponents boost0 [NamedType ''a'' (type_text ''bool'' [3, 0]) False []] =
     Inr [denoted (nt_name (NamedType ''a'' (type_text ''bool'' [3, 0]) False [])) (Boolean ''a'' False) [3, 0]]"
  by (rule factory_builds_type [OF boost0_ok, of "''bool''"]) (simp_all add: trimmed_def isspace_def bool_template)

text \<open>Nested fixed dimensions are built wrongly. For \<open>T[a][b]\<close> with \<open>b > 1\<close> only the
  first of the \<open>b\<close> elements is a template of \<open>T[a]\<close>; the others are templates of \<open>T\<close>,
  because building the first element has removed the inner dimension from the helper they share.
  The template is therefore not that of the type, and a value of the type cannot be given or decoded.\<close>
lemma factory_nested_fixed:
  assumes "boost_ok B" and "base \<noteq> []" and "trimmed base" and "CHR ''['' \<notin> set base"
    and "0 < a" and "a < 2 ^ 31" and "1 < b" and "b < 2 ^ 31" and "nt_type nt = type_text base [a, b]"
    and "\<And>h. m_baseType h = base \<Longrightarrow> m_extents h = [] \<Longrightarrow> buildAbstractType B nt h = Inr (v, h)"
  shows "buildComponents B [nt] =
      Inr [FixedList (nt_name nt) b (FixedList (nt_name nt) a (replicate a v) # replicate (b - 1) v)] \<and>
    buildComponents B [nt] \<noteq> Inr [denoted (nt_name nt) v [a, b]]"
proof -
  let ?h = "\<lparr>m_type = type_text base [a, b], m_baseType = base, m_extents = []\<rparr>"
  let ?l = "FixedList (nt_name nt) a (replicate a v)"
  have es: "\<forall>e \<in> set [a, b]. e < 2 ^ 31" using assms by simp
  have "reset B (nt_type nt) = Inr (?h\<lparr>m_extents := [a, b]\<rparr>)" using reset_text [OF assms(1-4) es] assms(9) by simp
  moreover have "buildAbstractType B nt (?h\<lparr>m_extents := [a, b]\<rparr>) = Inr (built (nt_name nt) v [a, b], ?h)"
    by (rule buildAbstractType_built [OF _ _ es]) (simp_all add: assms(10))
  moreover have "built (nt_name nt) v [a, b] = FixedList (nt_name nt) b (?l # replicate (b - 1) v)"
    using assms(5,7) by (cases a) (simp_all add: built_def)
  ultimately have c: "buildComponents B [nt] = Inr [FixedList (nt_name nt) b (?l # replicate (b - 1) v)]"
    by (simp)
  obtain k where b: "b = Suc (Suc k)" using assms(7) by (metis less_natE add_Suc_right One_nat_def add_Suc)
  have "size v < size ?l" using assms(5) by (cases a) simp_all
  then have "v \<noteq> ?l" by (metis less_irrefl)
  then have "FixedList (nt_name nt) b (?l # replicate (b - 1) v) \<noteq> denoted (nt_name nt) v [a, b]"
    using assms(5) b by (simp add: denoted_def)
  then show ?thesis using c by simp
qed

definition nested_example :: named_type where
  "nested_example = NamedType ''a'' (type_text ''bool'' [2, 3]) False []"

theorem factory_nested_fixed_witness:
  "buildComponents boost0 [nested_example] =
      Inr [FixedList (nt_name nested_example) 3
        (FixedList (nt_name nested_example) 2 (replicate 2 (Boolean ''a'' False)) # replicate (3 - 1) (Boolean ''a'' False))] \<and>
    buildComponents boost0 [nested_example] \<noteq> Inr [denoted (nt_name nested_example) (Boolean ''a'' False) [2, 3]]"
  by (rule factory_nested_fixed [OF boost0_ok, of "''bool''"])
    (simp_all add: trimmed_def isspace_def bool_template nested_example_def)

text \<open>Lists of \<open>bytesN\<close> cannot be used. The template that the factory builds for
  \<open>bytesN[]\<close> holds an element without a value, which cannot be cloned: giving at least one
  element as a parameter raises \<open>runtime_error\<close>, and so does decoding a list that has an element.\<close>
lemma bytesN_list_unusable:
  assumes "boost_ok (boost E)" and "jsoncpp_ok (jcpp E)" and "0 < k" and "k \<le> 32"
  shows "buildComponents (boost E) [NamedType n (type_text (''bytes'' @ decimal k) [0]) False []] =
      Inr [DynamicList n [FixedBytes n k []]] \<and>
    initAbstractType E (DynamicList n [FixedBytes n k []]) (JArray (j # js)) = Inl Runtime_error \<and>
    des_elements X (FixedBytes n k []) (Suc i) buf base cur = Inl Runtime_error"
proof -
  let ?nt = "NamedType n (type_text (''bytes'' @ decimal k) [0]) False []"
  let ?h = "\<lparr>m_type = nt_type ?nt, m_baseType = ''bytes'' @ decimal k, m_extents = []\<rparr>"
  have c: "clone (FixedBytes n k []) = Inl Runtime_error" using assms(3) by (simp add: clone_spec)
  have d: "list_all isdigit (decimal k)" "decimal k \<noteq> []" "isdigit (List.last (decimal k))"
    using decimal_digits [of k] by (simp_all add: list_all_iff)
  then have "trimmed (''bytes'' @ decimal k)" "CHR ''['' \<notin> set (''bytes'' @ decimal k)"
    using digit_char by (auto simp: trimmed_def isspace_def list_all_iff)
  from reset_text [OF assms(1) _ this, of "[0]"]
  have r: "reset (boost E) (nt_type ?nt) = Inr (?h\<lparr>m_extents := [0]\<rparr>)" by simp
  have "buildAbstractType (boost E) ?nt ?h = Inr (FixedBytes n k [], ?h)"
    using bytesN_template [OF assms(1,3,4)] by simp
  from buildAbstractType_built [OF this, of "[0]"]
  have "buildAbstractType (boost E) ?nt (?h\<lparr>m_extents := [0]\<rparr>) = Inr (DynamicList n [FixedBytes n k []], ?h)"
    by (simp add: built_def)
  moreover have "initAbstractType E (DynamicList n [FixedBytes n k []]) (JArray (j # js)) = Inl Runtime_error"
    using assms(2) c by (simp add: JsonTypeMatchCheck_def ofJson_def del: clone.simps)
  ultimately show ?thesis using r c by (simp del: clone.simps)
qed

theorem bytesN_list_unusable_witness:
  "buildComponents (boost abi_env0) [NamedType ''b'' (type_text (''bytes'' @ decimal 32) [0]) False []] =
      Inr [DynamicList ''b'' [FixedBytes ''b'' 32 []]] \<and>
    initAbstractType abi_env0 (DynamicList ''b'' [FixedBytes ''b'' 32 []]) (JArray [JString ''hex://00'']) = Inl Runtime_error \<and>
    des_elements abi_ext0 (FixedBytes ''b'' 32 []) (Suc 0) [] 0 0 = Inl Runtime_error"
  by (rule bytesN_list_unusable) (simp_all add: abi_env0_def boost0_ok)

text \<open>Claim C36. Lookup by name. In the definition read from a description, \<open>getMethod\<close> finds exactly
  the methods of that name in their order, the constructor, the fallback and the receive function
  under the name of their type; it refuses an overloaded name unless overloads are allowed, and an
  unknown name. \<open>getEvent\<close> does the same for events.\<close>
theorem abi_lookup:
  assumes "jsoncpp_ok J" and "sequenceE (map (buildMethod_json J K n) js) = Inr ms"
  shows "\<exists>d. buildABI_json J K n (JArray js) = Inr d \<and>
    getMethod k allow d =
      (let l = filter (\<lambda>m. method_key m = Some k) ms
       in if l = [] \<or> \<not> allow \<and> length l \<noteq> 1 then Inl Runtime_error else Inr l) \<and>
    getEvent k allow d =
      (let l = filter (\<lambda>m. event_key m = Some k) ms
       in if l = [] \<or> \<not> allow \<and> length l \<noteq> 1 then Inl Runtime_error else Inr l)"
proof -
  let ?e = "\<lparr>m_methods = [], m_events = []\<rparr>"
  let ?d = "fold addDefinition ms ?e"
  have e: "no_empty (m_methods ?e)" "no_empty (m_events ?e)" by (simp_all add: no_empty_def umap_find_def)
  have "listed k (m_methods ?d) = filter (\<lambda>m. method_key m = Some k) ms"
    and "listed k (m_events ?d) = filter (\<lambda>m. event_key m = Some k) ms"
    using definitions_listed(1,2) [of k ms ?e] by (simp_all add: listed_def umap_find_def)
  then have "getMethod k allow ?d =
      (let l = filter (\<lambda>m. method_key m = Some k) ms in if l = [] \<or> \<not> allow \<and> length l \<noteq> 1 then Inl Runtime_error else Inr l)"
    and "getEvent k allow ?d =
      (let l = filter (\<lambda>m. event_key m = Some k) ms in if l = [] \<or> \<not> allow \<and> length l \<noteq> 1 then Inl Runtime_error else Inr l)"
    using umap_find_listed [OF definitions_listed(3) [OF e(1)]] umap_find_listed [OF definitions_listed(4) [OF e(2)]]
    by (simp_all add: getMethod_def getEvent_def Let_def)
  then show ?thesis using assms by (simp add: buildABI_json_def ofJson_def)
qed

text \<open>A description with one function of two parameters, and a call of it.\<close>

definition example_method :: abi_method where
  "example_method = \<lparr>am_name = ''set'', am_type = ''function'', am_constant = False, am_payable = False,
     am_anonymous = False, am_stateMutability = [],
     am_inputs = [NamedType ''s'' ''string'' False [], NamedType ''f'' ''bool'' False []], am_outputs = []\<rparr>"

definition example_json :: json where
  "example_json = jobject [(''name'', JString ''set''), (''type'', JString ''function''),
     (''inputs'', JArray [jobject [(''name'', JString ''s''), (''type'', JString ''string'')],
       jobject [(''name'', JString ''f''), (''type'', JString ''bool'')]])]"

lemma example_built: "buildMethod_json jsoncpp0 jconv0 3 example_json = Inr example_method"
  by (simp add: buildMethod_json_def example_json_def example_method_def memberOr_def typeField_def asString_def
      asBool_def ofJson_def buildNamedTypes_def numeral_3_eq_3)

theorem abi_lookup_witness:
  "\<exists>d. buildABI_json jsoncpp0 jconv0 3 (JArray [example_json]) = Inr d \<and>
    getMethod ''set'' False d =
      (let l = filter (\<lambda>m. method_key m = Some ''set'') [example_method]
       in if l = [] \<or> \<not> False \<and> length l \<noteq> 1 then Inl Runtime_error else Inr l) \<and>
    getEvent ''set'' False d =
      (let l = filter (\<lambda>m. event_key m = Some ''set'') [example_method]
       in if l = [] \<or> \<not> False \<and> length l \<noteq> 1 then Inl Runtime_error else Inr l)"
  by (rule abi_lookup) (simp_all add: example_built)

text \<open>Claim C4. A call carries the values its parameters describe. When a method is found in the
  description of a contract and the JSON parameters describe a value of its inputs (numbers as
  numbers or decimal text, bytes behind \<open>hex://\<close> or \<open>base64://\<close>, lists as arrays, structures as arrays
  or as objects with the members' names), \<open>encodeMethod\<close> produces the method id followed by the
  encoding that the ABI specification gives for this value, and \<open>decodeMethodInput\<close> of it for the
  same method writes a document that describes the same value again.\<close>
theorem abi_call_roundtrip:
  assumes "abi_env_ok E" and "methodOf E abi name = Inr m" and "buildInput (boost E) m = Inr t"
    and "stringToJsonValue E params = Inr j" and "describes E j v"
    and "matches (ext E) t v" and "length (spec_enc (ext E) v) < 2 ^ 31 - 4"
  shows "\<exists>data out. encodeMethod E (sol_codec (ext E)) abi name params = Inr data \<and>
    data = getMethodID (boost E) (hashImpl E) m @ spec_enc (ext E) v \<and>
    decodeMethodInput E (sol_codec (ext E)) abi name data = Inr (json_write (jcpp E) out) \<and>
    out = abi_toJson (ext E) v \<and> describes E out v"
proof -
  note X = abi_env_okD(4) [OF assms(1)]
  have "\<forall>v \<in> set vs. one_element v" if "buildComponents (boost E) (am_inputs m) = Inr vs" for vs
    using built_one_element(3) that by blast
  then have "one_element t" using assms(3) by (auto simp: buildInput_def bindE_Inr_iff)
  then have i: "initAbstractType E t j = Inr v" using matches_reads [OF assms(1,6)] assms(5) by blast
  have "sol_fits (ext E) t v 4" using assms(6,7) by (simp add: sol_fits_def)
  from sol.call_restored [OF X assms(3) i this] obtain data
    where d: "encodeMethod_json E (sol_codec (ext E)) m j = Inr data"
      "decodeMethodInput_method E (sol_codec (ext E)) m data = Inr (abi_toJsonString E v)" by blast
  have "codec_serialize (sol_codec (ext E)) v = Inr (spec_enc (ext E) v)"
    using sol_restores [OF X assms(6), of "[]"] matches_refines [OF X assms(6)] assms(7)
    by (simp add: sol_codec_def refines_def)
  then have "data = getMethodID (boost E) (hashImpl E) m @ spec_enc (ext E) v"
    using d(1) assms(3) i by (simp add: encodeMethod_json_def)
  then show ?thesis using assms(2,4) d toJson_describes [OF assms(1,6)]
    by (simp add: encodeMethod_def encodeMethod_method_def decodeMethodInput_def abi_toJsonString_def)
qed

lemma example_template_built:
  "buildInput boost0 example_method = Inr (Struct [] [String ''s'' [], Boolean ''f'' False])"
  by code_simp

definition example_abi :: string where "example_abi = json_write jsoncpp0 (JArray [example_json])"
definition example_object :: json where "example_object = JObject [(''f'', JBool True), (''s'', JString ''ab'')]"
definition example_params :: string where "example_params = json_write jsoncpp0 example_object"

theorem abi_call_roundtrip_witness:
  "\<exists>data out. encodeMethod abi_env0 (sol_codec (ext abi_env0)) example_abi ''set'' example_params = Inr data \<and>
    data = getMethodID (boost abi_env0) (hashImpl abi_env0) example_method @
      spec_enc (ext abi_env0) (Struct [] [String ''s'' ''ab'', Boolean ''f'' True]) \<and>
    decodeMethodInput abi_env0 (sol_codec (ext abi_env0)) example_abi ''set'' data = Inr (json_write (jcpp abi_env0) out) \<and>
    out = abi_toJson (ext abi_env0) (Struct [] [String ''s'' ''ab'', Boolean ''f'' True]) \<and>
    describes abi_env0 out (Struct [] [String ''s'' ''ab'', Boolean ''f'' True])"
proof (rule abi_call_roundtrip [OF abi_env0_ok])
  show "methodOf abi_env0 example_abi ''set'' = Inr example_method"
    by (simp add: methodOf_def abiOf_def abi_env0_def buildABI_def parseABI_def example_abi_def buildABI_json_def
        ofJson_def example_built addDefinition_def example_method_def CONSTRUCTOR_TYPE_def FALLBACK_TYPE_def
        RECEIVE_TYPE_def FUNCTION_TYPE_def addMethod_def umap_push_def umap_find_def umap_set_def getMethod_def firstOf_def)
  show "buildInput (boost abi_env0) example_method = Inr (Struct [] [String ''s'' [], Boolean ''f'' False])"
    using example_template_built by (simp add: abi_env0_def)
  show "stringToJsonValue abi_env0 example_params = Inr example_object"
    by (simp add: stringToJsonValue_def abi_env0_def example_params_def)
  show "describes abi_env0 example_object (Struct [] [String ''s'' ''ab'', Boolean ''f'' True])"
    unfolding example_object_def by (rule D_object) (simp_all add: D_bool D_string)
  show "matches (ext abi_env0) (Struct [] [String ''s'' [], Boolean ''f'' False]) (Struct [] [String ''s'' ''ab'', Boolean ''f'' True])"
    by (intro matches.intros list.rel_intros)
  show "length (spec_enc (ext abi_env0) (Struct [] [String ''s'' ''ab'', Boolean ''f'' True])) < 2 ^ 31 - 4"
    by (simp add: spec_sequence_def part_size_def part_tails_def part_head_def padded_def upt_rec)
qed

text \<open>Event topics. Topics made from numbers, strings, bytes and \<open>bytesN\<close> are valid topics of 32
  bytes with a prefix; but \<open>getEventByTopic\<close> compares a topic with the first 8 digits of the
  hash of an event's signature, so it raises \<open>runtime_error\<close> for every valid topic.\<close>
lemma event_topics:
  assumes "abi_ext_ok X" and "hash_ok H" and "hex_prefix_ok hx" and "length bsn \<le> 32" and "validEventTopic t"
  shows "validEventTopic (u256ToTopic X hx u) \<and> validEventTopic (i256ToTopic X hx i) \<and>
    validEventTopic (stringToTopic H hx s) \<and> validEventTopic (bytesToTopic H hx bs) \<and>
    (\<exists>topic. bytesNToTopic hx bsn = Inr topic \<and> validEventTopic topic) \<and>
    getEventByTopic B H t d = Inl Runtime_error"
  using assms valid_topic [OF assms(3)] topic_not_found [OF assms(2,5)]
  by (simp add: u256ToTopic_def i256ToTopic_def stringToTopic_def bytesToTopic_def bytesNToTopic_def ser_bytesN_def
      ser_s256_def abi_ext_okD(1) hash_ok_def)

theorem event_topics_witness:
  "validEventTopic (u256ToTopic abi_ext0 (\<lambda>bs. ''0x'' @ hex0 bs) 5) \<and>
    validEventTopic (i256ToTopic abi_ext0 (\<lambda>bs. ''0x'' @ hex0 bs) (- 5)) \<and>
    validEventTopic (stringToTopic hash0 (\<lambda>bs. ''0x'' @ hex0 bs) ''a'') \<and>
    validEventTopic (bytesToTopic hash0 (\<lambda>bs. ''0x'' @ hex0 bs) [1]) \<and>
    (\<exists>topic. bytesNToTopic (\<lambda>bs. ''0x'' @ hex0 bs) [1, 2] = Inr topic \<and> validEventTopic topic) \<and>
    getEventByTopic boost0 hash0 (replicate 64 (CHR ''0'')) \<lparr>m_methods = [], m_events = []\<rparr> = Inl Runtime_error"
proof (rule event_topics [OF abi_ext0_ok hash0_ok])
  show "hex_prefix_ok (\<lambda>bs. ''0x'' @ hex0 bs)" by (simp add: hex_prefix_ok_def length_hex0)
  show "validEventTopic (replicate 64 (CHR ''0''))" by (simp add: validEventTopic_def CONTRACT_EVENT_TOPIC_LENGTH_def numeral_2_eq_2)
qed simp

end
