(* ===== verification/GroupInfo.thy ===== *)
theory GroupInfo
  imports Json
begin

text \<open>
  What a node tells the SDK of a group: \<open>ProtocolInfo\<close>, \<open>ChainNodeInfo\<close> and \<open>GroupInfo\<close>
  of \<open>bcos-framework/interfaces\<close>, and their JSON codecs \<open>JsonChainNodeInfoCodec\<close> and
  \<open>JsonGroupInfoCodec\<close> of \<open>multigroup\<close>. A member that the default constructors leave
  uninitialised is an \<open>option\<close>: reading it while it is \<open>None\<close> is the outcome
  \<open>Uninitialised\<close>. \<open>std::map\<close> members are lists in ascending order of their keys.
\<close>

section \<open>Descriptions of nodes\<close>

record protocol_info =
  m_protocolModuleID :: "u32 option"
  m_minVersion :: "u32 option"
  m_maxVersion :: "u32 option"
  m_version :: "u32 option"

definition new_protocol_info :: protocol_info where
  "new_protocol_info = \<lparr>m_protocolModuleID = None, m_minVersion = None, m_maxVersion = None,
     m_version = None\<rparr>"

definition protocol_info_of :: "u32 \<Rightarrow> u32 \<Rightarrow> u32 \<Rightarrow> protocol_info" where
  "protocol_info_of moduleID minVersion maxVersion =
     \<lparr>m_protocolModuleID = Some moduleID, m_minVersion = Some minVersion, m_maxVersion = Some maxVersion,
      m_version = Some minVersion\<rparr>"

record chain_node_info =
  m_microService :: bool
  m_nodeName :: string
  m_nodeCryptoType :: "u32 option"
  m_nodeType :: "u32 option"
  m_nodeID :: string
  m_servicesInfo :: "(int \<times> string) list"
  m_nodeIniConfig :: string
  m_nodeProtocol :: protocol_info
  m_compatibilityVersion :: "u32 option"
  m_nodeWasm :: bool
  m_nodeSmCryptoType :: bool

definition createNodeInfo :: chain_node_info where
  "createNodeInfo = \<lparr>m_microService = False, m_nodeName = [], m_nodeCryptoType = None, m_nodeType = None,
     m_nodeID = [], m_servicesInfo = [], m_nodeIniConfig = [], m_nodeProtocol = new_protocol_info,
     m_compatibilityVersion = None, m_nodeWasm = False, m_nodeSmCryptoType = False\<rparr>"

definition createNodeInfo_of :: "string \<Rightarrow> u32 \<Rightarrow> chain_node_info" where
  "createNodeInfo_of nodeName type = createNodeInfo \<lparr>m_nodeName := nodeName, m_nodeCryptoType := Some type\<rparr>"

definition serviceName :: "int \<Rightarrow> chain_node_info \<Rightarrow> string" where
  "serviceName type n = (case map_of (m_servicesInfo n) type of None \<Rightarrow> [] | Some s \<Rightarrow> s)"

definition appendServiceInfo :: "int \<Rightarrow> string \<Rightarrow> chain_node_info \<Rightarrow> chain_node_info" where
  "appendServiceInfo type name n = n \<lparr>m_servicesInfo := omap_set type name (m_servicesInfo n)\<rparr>"

section \<open>Descriptions of groups\<close>

record group_info =
  m_wasm :: bool
  m_smCryptoType :: bool
  m_chainID :: string
  m_groupID :: string
  m_genesisConfig :: string
  m_iniConfig :: string
  m_nodeInfos :: "(string \<times> chain_node_info) list"

definition createGroupInfo_of :: "string \<Rightarrow> string \<Rightarrow> group_info" where
  "createGroupInfo_of chainID groupID = \<lparr>m_wasm = False, m_smCryptoType = False, m_chainID = chainID,
     m_groupID = groupID, m_genesisConfig = [], m_iniConfig = [], m_nodeInfos = []\<rparr>"

definition createGroupInfo :: group_info where
  "createGroupInfo = createGroupInfo_of [] []"

definition nodeInfo :: "string \<Rightarrow> group_info \<Rightarrow> chain_node_info option" where
  "nodeInfo nodeName g = map_of (m_nodeInfos g) nodeName"

definition appendNodeInfo :: "chain_node_info \<Rightarrow> group_info \<Rightarrow> group_info \<times> bool" where
  "appendNodeInfo n g =
     (if map_of (m_nodeInfos g) (m_nodeName n) \<noteq> None then (g, False)
      else (g \<lparr>m_nodeInfos := omap_set (m_nodeName n) n (m_nodeInfos g)\<rparr>, True))"

definition updateNodeInfo :: "chain_node_info \<Rightarrow> group_info \<Rightarrow> group_info" where
  "updateNodeInfo n g = g \<lparr>m_nodeInfos := omap_set (m_nodeName n) n (m_nodeInfos g)\<rparr>"

definition removeNodeInfo :: "chain_node_info \<Rightarrow> group_info \<Rightarrow> group_info \<times> bool" where
  "removeNodeInfo n g =
     (if map_of (m_nodeInfos g) (m_nodeName n) = None then (g, False)
      else (g \<lparr>m_nodeInfos := omap_erase (m_nodeName n) (m_nodeInfos g)\<rparr>, True))"

definition nodesNum :: "group_info \<Rightarrow> nat" where
  "nodesNum g = length (m_nodeInfos g)"

section \<open>Errors and members\<close>

datatype group_exn = InvalidParameter | Json_error | Uninitialised

definition jx :: "json_exn + 'a \<Rightarrow> group_exn + 'a" where
  "jx r = (case r of Inl e \<Rightarrow> Inl Json_error | Inr x \<Rightarrow> Inr x)"

lemma jx_simps [simp]: "jx (Inl e) = Inl Json_error" "jx (Inr x) = Inr x"
  by (simp_all add: jx_def)

text \<open>
  \<open>required\<close> is the pattern \<open>if (!value.isMember(k)) throw InvalidParameter; f(value[k])\<close>,
  \<open>optional\<close> the pattern \<open>if (value.isMember(k)) f(value[k])\<close> with \<open>d\<close> what stays without
  the member.
\<close>

definition required :: "jsoncpp \<Rightarrow> json \<Rightarrow> string \<Rightarrow> (json \<Rightarrow> json_exn + 'a) \<Rightarrow> group_exn + 'a" where
  "required J value k f =
     bindE (jx (json_isMember J value k)) (\<lambda>present.
       if \<not> present then Inl InvalidParameter
       else bindE (jx (json_member J value k)) (\<lambda>v. jx (f v)))"

definition optional :: "jsoncpp \<Rightarrow> json \<Rightarrow> string \<Rightarrow> (json \<Rightarrow> json_exn + 'a) \<Rightarrow> 'a \<Rightarrow> group_exn + 'a" where
  "optional J value k f d =
     bindE (jx (json_isMember J value k)) (\<lambda>present.
       if \<not> present then Inr d
       else bindE (jx (json_member J value k)) (\<lambda>v. jx (f v)))"

definition asU32 :: "jsoncpp \<Rightarrow> json \<Rightarrow> json_exn + u32" where
  "asU32 J v = bindE (json_asUInt J v) (\<lambda>i. Inr (word_of_int i))"

definition initialised :: "'a option \<Rightarrow> group_exn + 'a" where
  "initialised x = (case x of None \<Rightarrow> Inl Uninitialised | Some v \<Rightarrow> Inr v)"

lemma initialised_simps [simp]: "initialised None = Inl Uninitialised" "initialised (Some v) = Inr v"
  by (simp_all add: initialised_def)

section \<open>The node codec\<close>

definition deserializeIniConfig :: "jsoncpp \<Rightarrow> chain_node_info \<Rightarrow> group_exn + chain_node_info" where
  "deserializeIniConfig J n =
     (case json_parse J (m_nodeIniConfig n) of
        None \<Rightarrow> Inl InvalidParameter
      | Some value \<Rightarrow>
          bindE (required J value ''isWasm'' (json_asBool J)) (\<lambda>wasm.
          bindE (required J value ''smCryptoType'' (json_asBool J)) (\<lambda>sm.
            Inr (n \<lparr>m_nodeWasm := wasm, m_nodeSmCryptoType := sm\<rparr>))))"

fun deserialize_services :: "jsoncpp \<Rightarrow> json list \<Rightarrow> chain_node_info \<Rightarrow> group_exn + chain_node_info" where
  "deserialize_services J [] n = Inr n"
| "deserialize_services J (item # items) n =
     (if \<not> json_isObject J item then Inl InvalidParameter
      else bindE (jx (json_isMember J item ''type'')) (\<lambda>hasType.
      if \<not> hasType then Inl InvalidParameter
      else bindE (jx (json_isMember J item ''serviceName'')) (\<lambda>hasName.
      if \<not> hasName then Inl InvalidParameter
      else bindE (jx (bindE (json_member J item ''type'') (json_asInt J))) (\<lambda>type.
      bindE (jx (bindE (json_member J item ''serviceName'') (json_asString J))) (\<lambda>name.
        deserialize_services J items (appendServiceInfo type name n))))))"

definition deserialize_protocol :: "jsoncpp \<Rightarrow> json \<Rightarrow> chain_node_info \<Rightarrow> group_exn + chain_node_info" where
  "deserialize_protocol J protocol n =
     bindE (optional J protocol ''minSupportedVersion''
       (\<lambda>v. bindE (asU32 J v) (\<lambda>w. Inr (Some w))) None) (\<lambda>minv.
     bindE (optional J protocol ''maxSupportedVersion''
       (\<lambda>v. bindE (asU32 J v) (\<lambda>w. Inr (Some w))) None) (\<lambda>maxv.
     bindE (optional J protocol ''compatibilityVersion''
       (\<lambda>v. bindE (asU32 J v) (\<lambda>w. Inr (Some w))) (m_compatibilityVersion n)) (\<lambda>compat.
       Inr (n \<lparr>m_nodeProtocol := new_protocol_info \<lparr>m_minVersion := minv, m_maxVersion := maxv\<rparr>,
               m_compatibilityVersion := compat\<rparr>))))"

definition node_deserialize :: "jsoncpp \<Rightarrow> string \<Rightarrow> group_exn + chain_node_info" where
  "node_deserialize J json =
     (let n = createNodeInfo in
      case json_parse J json of
        None \<Rightarrow> Inl InvalidParameter
      | Some value \<Rightarrow>
          bindE (required J value ''name'' (json_asString J)) (\<lambda>name. let n = n \<lparr>m_nodeName := name\<rparr> in
          bindE (required J value ''type'' (asU32 J)) (\<lambda>type. let n = n \<lparr>m_nodeCryptoType := Some type\<rparr> in
          bindE (required J value ''iniConfig'' (json_asString J)) (\<lambda>ini.
          bindE (deserializeIniConfig J (n \<lparr>m_nodeIniConfig := ini\<rparr>)) (\<lambda>n.
          bindE (required J value ''serviceInfo'' Inr) (\<lambda>serviceInfo.
          if \<not> json_isArray J serviceInfo then Inl InvalidParameter
          else bindE (jx (json_elements J serviceInfo)) (\<lambda>items.
          bindE (deserialize_services J items n) (\<lambda>n.
          bindE (optional J value ''nodeID'' (json_asString J) (m_nodeID n)) (\<lambda>nodeID.
            let n = n \<lparr>m_nodeID := nodeID\<rparr> in
          bindE (optional J value ''microService'' (json_asBool J) (m_microService n)) (\<lambda>micro.
            let n = n \<lparr>m_microService := micro\<rparr> in
          bindE (jx (json_isMember J value ''protocol'')) (\<lambda>present.
          if \<not> present then Inr n
          else bindE (jx (json_member J value ''protocol'')) (\<lambda>protocol.
            deserialize_protocol J protocol n))))))))))))"

definition service_json :: "int \<times> string \<Rightarrow> json" where
  "service_json s = jobject [(''type'', JInt (fst s)), (''serviceName'', JString (snd s))]"

definition node_serialize :: "chain_node_info \<Rightarrow> group_exn + json" where
  "node_serialize n =
     bindE (initialised (m_nodeCryptoType n)) (\<lambda>type.
     bindE (initialised (m_minVersion (m_nodeProtocol n))) (\<lambda>minv.
     bindE (initialised (m_maxVersion (m_nodeProtocol n))) (\<lambda>maxv.
     bindE (initialised (m_compatibilityVersion n)) (\<lambda>compat.
       Inr (jobject [
         (''name'', JString (m_nodeName n)),
         (''type'', JInt (uint type)),
         (''iniConfig'', JString (m_nodeIniConfig n)),
         (''serviceInfo'', JArray (map service_json (m_servicesInfo n))),
         (''protocol'', jobject [
            (''minSupportedVersion'', JInt (uint minv)),
            (''maxSupportedVersion'', JInt (uint maxv)),
            (''compatibilityVersion'', JInt (uint compat))])])))))"

section \<open>The group codec\<close>

fun deserialize_nodes :: "jsoncpp \<Rightarrow> bool \<Rightarrow> json list \<Rightarrow> group_info \<Rightarrow> group_exn + group_info" where
  "deserialize_nodes J isFirst [] g = Inr g"
| "deserialize_nodes J isFirst (j # js) g =
     bindE (node_deserialize J (json_write J j)) (\<lambda>node.
       let g = fst (appendNodeInfo node g);
           g = (if isFirst then g \<lparr>m_wasm := m_nodeWasm node, m_smCryptoType := m_nodeSmCryptoType node\<rparr>
                else g)
       in deserialize_nodes J False js g)"

definition group_deserialize :: "jsoncpp \<Rightarrow> string \<Rightarrow> group_exn + group_info" where
  "group_deserialize J json =
     (let g = createGroupInfo in
      case json_parse J json of
        None \<Rightarrow> Inl InvalidParameter
      | Some root \<Rightarrow>
          bindE (required J root ''chainID'' (json_asString J)) (\<lambda>chain. let g = g \<lparr>m_chainID := chain\<rparr> in
          bindE (required J root ''groupID'' (json_asString J)) (\<lambda>grp. let g = g \<lparr>m_groupID := grp\<rparr> in
          bindE (optional J root ''genesisConfig'' (json_asString J) (m_genesisConfig g)) (\<lambda>genesis.
            let g = g \<lparr>m_genesisConfig := genesis\<rparr> in
          bindE (required J root ''iniConfig'' (json_asString J)) (\<lambda>ini. let g = g \<lparr>m_iniConfig := ini\<rparr> in
          bindE (required J root ''nodeList'' Inr) (\<lambda>nodeList.
          if \<not> json_isArray J nodeList then Inl InvalidParameter
          else bindE (jx (json_elements J nodeList)) (\<lambda>js. deserialize_nodes J True js g)))))))"

fun serialize_nodes :: "chain_node_info list \<Rightarrow> group_exn + json list" where
  "serialize_nodes [] = Inr []"
| "serialize_nodes (n # ns) =
     bindE (node_serialize n) (\<lambda>j. bindE (serialize_nodes ns) (\<lambda>js. Inr (j # js)))"

definition group_serialize :: "group_info \<Rightarrow> group_exn + json" where
  "group_serialize g =
     bindE (serialize_nodes (map snd (m_nodeInfos g))) (\<lambda>nodes.
       Inr (jobject [
         (''chainID'', JString (m_chainID g)),
         (''groupID'', JString (m_groupID g)),
         (''wasm'', JBool (m_wasm g)),
         (''smCryptoType'', JBool (m_smCryptoType g)),
         (''genesisConfig'', JString (m_genesisConfig g)),
         (''iniConfig'', JString (m_iniConfig g)),
         (''nodeList'', JArray nodes)]))"

end
