(* ===== verification/Handshake.thy ===== *)
theory Handshake
  imports GroupInfo
begin

text \<open>
  The messages of the websocket service: \<open>HandshakeRequest\<close> (\<open>bcos-framework/interfaces/rpc\<close>),
  \<open>HandshakeResponse\<close> and \<open>BlockNumberInfo\<close> (\<open>ws\<close>). The decoders write into an existing
  object and report success; what they wrote before failing is part of the result.
\<close>

section \<open>Requests\<close>

definition MAX_PROTOCOL_MODULE :: int where "MAX_PROTOCOL_MODULE = 3"

definition handshake_request_encode :: "jsoncpp \<Rightarrow> protocol_info \<Rightarrow> group_exn + bytes" where
  "handshake_request_encode J p =
     bindE (initialised (m_minVersion p)) (\<lambda>minv.
     bindE (initialised (m_maxVersion p)) (\<lambda>maxv.
     bindE (initialised (m_protocolModuleID p)) (\<lambda>moduleID.
       Inr (bytes_of_string (json_write J (jobject [(''minVersion'', JInt (uint minv)),
         (''maxVersion'', JInt (uint maxv)), (''moduleID'', JInt (uint moduleID))]))))))"

definition handshake_request_decode :: "jsoncpp \<Rightarrow> bytes \<Rightarrow> protocol_info \<Rightarrow> protocol_info \<times> bool" where
  "handshake_request_decode J data p =
     (case json_parse J (string_of_bytes data) of
        None \<Rightarrow> (p, False)
      | Some request \<Rightarrow>
          (case bindE (json_member J request ''moduleID'') (json_asUInt J) of
             Inl _ \<Rightarrow> (p, False)
           | Inr moduleID \<Rightarrow>
               if moduleID > MAX_PROTOCOL_MODULE then (p, False)
               else let p = p \<lparr>m_protocolModuleID := Some (word_of_int moduleID)\<rparr> in
                 (case bindE (json_member J request ''minVersion'') (json_asUInt J) of
                    Inl _ \<Rightarrow> (p, False)
                  | Inr minv \<Rightarrow> let p = p \<lparr>m_minVersion := Some (word_of_int minv)\<rparr> in
                      (case bindE (json_member J request ''maxVersion'') (json_asUInt J) of
                         Inl _ \<Rightarrow> (p, False)
                       | Inr maxv \<Rightarrow> (p \<lparr>m_maxVersion := Some (word_of_int maxv)\<rparr>, True)))))"

section \<open>Responses\<close>

record handshake_response =
  m_groupInfoList :: "group_info list"
  m_groupBlockNumber :: "(string \<times> int) list"
  m_protocolVersion :: "u32 option"

definition new_handshake_response :: handshake_response where
  "new_handshake_response = \<lparr>m_groupInfoList = [], m_groupBlockNumber = [], m_protocolVersion = None\<rparr>"

definition protocolVersion :: "handshake_response \<Rightarrow> group_exn + int" where
  "protocolVersion r = bindE (initialised (m_protocolVersion r)) (\<lambda>v. Inr (sint v))"

text \<open>The elements visited by \<open>if (root.isMember(k) && root[k].isArray()) for (...) root[k][i]\<close>.\<close>

definition array_member :: "jsoncpp \<Rightarrow> json \<Rightarrow> string \<Rightarrow> json_exn + json list" where
  "array_member J root k =
     bindE (json_isMember J root k) (\<lambda>present.
       if \<not> present then Inr []
       else bindE (json_member J root k) (\<lambda>v. if json_isArray J v then json_elements J v else Inr []))"

fun decode_groups :: "jsoncpp \<Rightarrow> json list \<Rightarrow> handshake_response \<Rightarrow> handshake_response \<times> bool" where
  "decode_groups J [] r = (r, True)"
| "decode_groups J (j # js) r =
     (case group_deserialize J (json_write J j) of
        Inl _ \<Rightarrow> (r, False)
      | Inr g \<Rightarrow> decode_groups J js (r \<lparr>m_groupInfoList := m_groupInfoList r @ [g]\<rparr>))"

fun decode_members :: "jsoncpp \<Rightarrow> json \<Rightarrow> string list \<Rightarrow> handshake_response \<Rightarrow> handshake_response \<times> bool" where
  "decode_members J j [] r = (r, True)"
| "decode_members J j (groupID # ids) r =
     (case bindE (json_member J j groupID) (json_asInt64 J) of
        Inl _ \<Rightarrow> (r, False)
      | Inr blockNumber \<Rightarrow>
          decode_members J j ids (r \<lparr>m_groupBlockNumber := umap_set groupID blockNumber (m_groupBlockNumber r)\<rparr>))"

fun decode_numbers :: "jsoncpp \<Rightarrow> json list \<Rightarrow> handshake_response \<Rightarrow> handshake_response \<times> bool" where
  "decode_numbers J [] r = (r, True)"
| "decode_numbers J (j # js) r =
     (case json_memberNames J j of
        Inl _ \<Rightarrow> (r, False)
      | Inr ids \<Rightarrow> (case decode_members J j ids r of
          (r, ok) \<Rightarrow> if ok then decode_numbers J js r else (r, False)))"

definition response_decode :: "jsoncpp \<Rightarrow> string \<Rightarrow> handshake_response \<Rightarrow> handshake_response \<times> bool" where
  "response_decode J data r =
     (case json_parse J data of
        None \<Rightarrow> (r, False)
      | Some root \<Rightarrow>
          (case json_isMember J root ''protocolVersion'' of
             Inl _ \<Rightarrow> (r, False)
           | Inr present \<Rightarrow>
               if \<not> present then (r, False)
               else case bindE (json_member J root ''protocolVersion'') (json_asInt J) of
                 Inl _ \<Rightarrow> (r, False)
               | Inr v \<Rightarrow>
                   let r = r \<lparr>m_protocolVersion := Some (word_of_int v)\<rparr> in
                   (case array_member J root ''groupInfoList'' of
                      Inl _ \<Rightarrow> (r, False)
                    | Inr js \<Rightarrow> (case decode_groups J js r of (r, ok) \<Rightarrow>
                        if \<not> ok then (r, False)
                        else case array_member J root ''groupBlockNumber'' of
                          Inl _ \<Rightarrow> (r, False)
                        | Inr js \<Rightarrow> decode_numbers J js r))))"

fun serialize_groups :: "group_info list \<Rightarrow> group_exn + json list" where
  "serialize_groups [] = Inr []"
| "serialize_groups (g # gs) =
     bindE (group_serialize g) (\<lambda>j. bindE (serialize_groups gs) (\<lambda>js. Inr (j # js)))"

definition response_encode :: "jsoncpp \<Rightarrow> handshake_response \<Rightarrow> group_exn + string" where
  "response_encode J r =
     bindE (initialised (m_protocolVersion r)) (\<lambda>v.
     bindE (serialize_groups (m_groupInfoList r)) (\<lambda>js.
       Inr (json_write J (jobject [(''protocolVersion'', JInt (uint v)), (''groupInfoList'', JArray js)]))))"

section \<open>Block heights\<close>

record block_number_info =
  m_group :: string
  m_node :: string
  m_blockNumber :: "int option"

definition new_block_number_info :: block_number_info where
  "new_block_number_info = \<lparr>m_group = [], m_node = [], m_blockNumber = None\<rparr>"

definition block_toJson :: "jsoncpp \<Rightarrow> block_number_info \<Rightarrow> group_exn + string" where
  "block_toJson J b =
     bindE (initialised (m_blockNumber b)) (\<lambda>n.
       Inr (json_write J (jobject [(''group'', JString (m_group b)), (''blockNumber'', JInt n),
         (''nodeName'', JInt n)])))"

definition block_fromJson :: "jsoncpp \<Rightarrow> string \<Rightarrow> block_number_info \<Rightarrow> block_number_info \<times> bool" where
  "block_fromJson J json b =
     (case json_parse J json of
        None \<Rightarrow> (b, False)
      | Some root \<Rightarrow>
          (case bindE (required J root ''blockNumber'' (json_asInt64 J)) (\<lambda>blockNumber.
                bindE (required J root ''group'' (json_asString J)) (\<lambda>grp.
                bindE (required J root ''nodeName'' (json_asString J)) (\<lambda>node.
                  Inr \<lparr>m_group = grp, m_node = node, m_blockNumber = Some blockNumber\<rparr>))) of
             Inl _ \<Rightarrow> (b, False)
           | Inr b' \<Rightarrow> (b', True)))"

end
