(* ===== verification/Service.thy ===== *)
theory Service
  imports Handshake
begin

text \<open>
  The websocket service (\<open>ws/Service.h\<close>, \<open>ws/Service.cpp\<close>): which end points serve which
  nodes of which groups, the block heights and the nodes that reported them, the handshake, and the
  choice of the connection a request is sent over. The base class \<open>WsService\<close>, its sessions and
  its timers are outside the repository: what the service calls of them is an effect, what it reads
  of them an argument. Callbacks are names of type \<open>'h\<close> (handshake) and \<open>'n\<close> (block heights).
\<close>

section \<open>State and effects\<close>

type_synonym node_table = "(string \<times> string list) list"
type_synonym endpoint_table = "(string \<times> node_table) list"

record ('h, 'n) service =
  m_wsHandshakeTimeout :: u32
  m_handshakeSucCount :: u32
  m_wsHandshakeSucHandlers :: "'h list"
  m_group2Node2Endpoints :: endpoint_table
  m_endPoint2GroupId2GroupInfo :: "(string \<times> (string \<times> group_info) list) list"
  m_group2callbacks :: "(string \<times> 'n list) list"
  m_group2BlockNumber :: "(string \<times> int) list"
  m_group2LatestBlockNumberNodes :: "(string \<times> string list) list"
  m_localProtocol :: protocol_info

record ws_session =
  ses_endPoint :: string
  ses_version :: nat

datatype ('h, 'n) service_effect =
    Base_start
  | Base_stop
  | Base_onConnect
  | Base_onDisconnect
  | Base_onRecvMessage ws_message
  | Send_session string ws_message u32
  | Send_endpoint string ws_message
  | Respond_error int string
  | Drop_session string
  | Set_version string int
  | Handshake_handler 'h string
  | Notify_block 'n string int

datatype service_exn = Null_session | Handshake_timeout | Handshake_request group_exn

text \<open>The constants of \<open>Protocol.h\<close>; \<open>EndPointNotExist\<close> is a value of the websocket library.\<close>

definition HANDESHAKE :: nat where "HANDESHAKE = 0x100"
definition BLOCK_NOTIFY :: nat where "BLOCK_NOTIFY = 0x101"
definition GROUP_NOTIFY :: nat where "GROUP_NOTIFY = 0x103"
definition RpcService :: u32 where "RpcService = 2"
definition V1 :: u32 where "V1 = 1"
definition BLOCK_LIMIT_RANGE :: int where "BLOCK_LIMIT_RANGE = 500"

text \<open>The entries of \<open>GlobalConfig\<close> for the four modules.\<close>

definition supportedProtocols :: "(u32 \<times> protocol_info) list" where
  "supportedProtocols = map (\<lambda>m. (m, protocol_info_of m V1 V1)) [0, 1, 2, 3]"

definition protocolInfo :: "u32 \<Rightarrow> protocol_info option" where
  "protocolInfo moduleID = map_of supportedProtocols moduleID"

definition new_service :: "('h, 'n) service" where
  "new_service = \<lparr>m_wsHandshakeTimeout = 10000, m_handshakeSucCount = 0, m_wsHandshakeSucHandlers = [],
     m_group2Node2Endpoints = [], m_endPoint2GroupId2GroupInfo = [], m_group2callbacks = [],
     m_group2BlockNumber = [], m_group2LatestBlockNumberNodes = [],
     m_localProtocol = the (protocolInfo RpcService)\<rparr>"

definition find_or :: "string \<Rightarrow> 'a \<Rightarrow> (string \<times> 'a) list \<Rightarrow> 'a" where
  "find_or k d m = (case umap_find k m of None \<Rightarrow> d | Some v \<Rightarrow> v)"

section \<open>End points\<close>

fun clear_nodes :: "string \<Rightarrow> node_table \<Rightarrow> node_table" where
  "clear_nodes ep [] = []"
| "clear_nodes ep ((node, eps) # nodes) =
     (let eps' = fst (set_erase ep eps) in
      if eps' = [] then clear_nodes ep nodes else (node, eps') # clear_nodes ep nodes)"

fun clear_groups :: "string \<Rightarrow> endpoint_table \<Rightarrow> endpoint_table" where
  "clear_groups ep [] = []"
| "clear_groups ep ((g, nodes) # gs) =
     (let nodes' = clear_nodes ep nodes in
      if nodes' = [] then clear_groups ep gs else (g, nodes') # clear_groups ep gs)"

definition clearGroupInfoByEp :: "string \<Rightarrow> ('h, 'n) service \<Rightarrow> ('h, 'n) service" where
  "clearGroupInfoByEp ep s = s \<lparr>
     m_group2Node2Endpoints := clear_groups ep (m_group2Node2Endpoints s),
     m_endPoint2GroupId2GroupInfo := umap_erase ep (m_endPoint2GroupId2GroupInfo s)\<rparr>"

definition clear_group :: "string \<Rightarrow> string \<Rightarrow> endpoint_table \<Rightarrow> endpoint_table" where
  "clear_group ep g T =
     (case umap_find g T of None \<Rightarrow> T | Some nodes \<Rightarrow> umap_set g (clear_nodes ep nodes) T)"

definition clearGroupInfoByEp_group :: "string \<Rightarrow> string \<Rightarrow> ('h, 'n) service \<Rightarrow> ('h, 'n) service" where
  "clearGroupInfoByEp_group ep g s = s \<lparr>m_group2Node2Endpoints := clear_group ep g (m_group2Node2Endpoints s)\<rparr>"

definition updateGroupInfo :: "string \<Rightarrow> group_info \<Rightarrow> ('h, 'n) service \<Rightarrow> ('h, 'n) service" where
  "updateGroupInfo ep gi s = s \<lparr>m_endPoint2GroupId2GroupInfo :=
     umap_set ep (umap_set (m_groupID gi) gi (find_or ep [] (m_endPoint2GroupId2GroupInfo s)))
       (m_endPoint2GroupId2GroupInfo s)\<rparr>"

definition add_node :: "string \<Rightarrow> string \<Rightarrow> node_table \<Rightarrow> node_table" where
  "add_node ep node nodes = umap_set node (fst (set_insert ep (find_or node [] nodes))) nodes"

definition add_nodes :: "string \<Rightarrow> string \<Rightarrow> string list \<Rightarrow> endpoint_table \<Rightarrow> endpoint_table" where
  "add_nodes ep g names T = umap_set g (fold (add_node ep) names (find_or g [] T)) T"

text \<open>
  \<open>updateGroupInfoByEp\<close> takes the lock three times: in \<open>updateGroupInfo\<close>, in
  \<open>clearGroupInfoByEp\<close> and to insert the end point for the nodes of the group.
\<close>

definition insert_group_nodes :: "string \<Rightarrow> group_info \<Rightarrow> ('h, 'n) service \<Rightarrow> ('h, 'n) service" where
  "insert_group_nodes ep gi s = s \<lparr>m_group2Node2Endpoints :=
     add_nodes ep (m_groupID gi) (map fst (m_nodeInfos gi)) (m_group2Node2Endpoints s)\<rparr>"

definition updateGroupInfoByEp :: "string \<Rightarrow> group_info \<Rightarrow> ('h, 'n) service \<Rightarrow> ('h, 'n) service" where
  "updateGroupInfoByEp ep gi s =
     insert_group_nodes ep gi (clearGroupInfoByEp_group ep (m_groupID gi) (updateGroupInfo ep gi s))"

definition hasEndPointOfNodeAvailable :: "string \<Rightarrow> string \<Rightarrow> ('h, 'n) service \<Rightarrow> bool" where
  "hasEndPointOfNodeAvailable g node s =
     (case umap_find g (m_group2Node2Endpoints s) of
        None \<Rightarrow> False | Some nodes \<Rightarrow> umap_find node nodes \<noteq> None)"

definition getEndPointsByGroup :: "string \<Rightarrow> ('h, 'n) service \<Rightarrow> string list \<Rightarrow> string list \<times> bool" where
  "getEndPointsByGroup g s eps =
     (case umap_find g (m_group2Node2Endpoints s) of
        None \<Rightarrow> (eps, False)
      | Some nodes \<Rightarrow> (fold (\<lambda>(node, es). insert_all es) nodes eps, True))"

definition getEndPointsByGroupAndNode ::
  "string \<Rightarrow> string \<Rightarrow> ('h, 'n) service \<Rightarrow> string list \<Rightarrow> string list \<times> bool" where
  "getEndPointsByGroupAndNode g node s eps =
     (case umap_find g (m_group2Node2Endpoints s) of
        None \<Rightarrow> (eps, False)
      | Some nodes \<Rightarrow> (case umap_find node nodes of None \<Rightarrow> (eps, False) | Some es \<Rightarrow> (es, True)))"

definition merge_nodes :: "group_info list \<Rightarrow> group_info \<Rightarrow> group_info" where
  "merge_nodes gs gi = fold (\<lambda>g gi. fold (\<lambda>(_, n) gi.
     if nodeInfo (m_nodeName n) gi \<noteq> None then gi else fst (appendNodeInfo n gi)) (m_nodeInfos g) gi) gs gi"

definition getGroupInfo :: "string \<Rightarrow> ('h, 'n) service \<Rightarrow> group_info option" where
  "getGroupInfo groupID s =
     (let groupInfos = List.map_filter (\<lambda>(ep, groups). umap_find groupID groups) (m_endPoint2GroupId2GroupInfo s) in
      case groupInfos of
        [] \<Rightarrow> None
      | first # _ \<Rightarrow> Some (merge_nodes groupInfos ((createGroupInfo_of (m_chainID first) (m_groupID first))
          \<lparr>m_smCryptoType := m_smCryptoType first, m_wasm := m_wasm first,
           m_genesisConfig := m_genesisConfig first, m_iniConfig := m_iniConfig first\<rparr>)))"

section \<open>Sending\<close>

definition first_after_shuffle :: "(string list \<Rightarrow> string list) \<Rightarrow> string list \<Rightarrow> string" where
  "first_after_shuffle shuffle eps = hd (shuffle eps)"

definition asyncSendMessageByGroupAndNode ::
  "(string list \<Rightarrow> string list) \<Rightarrow> int \<Rightarrow> ws_session list \<Rightarrow> string \<Rightarrow> string \<Rightarrow> ws_message \<Rightarrow>
     ('h, 'n) service \<Rightarrow> ('h, 'n) service_effect list" where
  "asyncSendMessageByGroupAndNode shuffle endPointNotExist sessions g node msg s =
     (if g = [] then
        let eps = insert_all (map ses_endPoint sessions) [] in
        if eps = []
        then [Respond_error endPointNotExist ''there has no connection available, maybe all connections disconnected'']
        else [Send_endpoint (first_after_shuffle shuffle eps) msg]
      else if node = [] then
        let eps = fst (getEndPointsByGroup g s []) in
        if eps = []
        then [Respond_error endPointNotExist
          (''there has no connection available for the group, maybe all connections disconnected or the group does not exist, group: '' @ g)]
        else [Send_endpoint (first_after_shuffle shuffle eps) msg]
      else
        let eps = fst (getEndPointsByGroupAndNode g node s []) in
        if eps = []
        then [Respond_error endPointNotExist
          (''there has no connection available for the node of the group, maybe all connections disconnected or the node does not exist, group: ''
           @ g @ '' ,node: '' @ node)]
        else [Send_endpoint (first_after_shuffle shuffle eps) msg])"

section \<open>Block heights\<close>

definition getBlockNumber :: "string \<Rightarrow> ('h, 'n) service \<Rightarrow> int option" where
  "getBlockNumber g s = umap_find g (m_group2BlockNumber s)"

datatype overflow = Signed_overflow

definition getBlockLimit :: "string \<Rightarrow> ('h, 'n) service \<Rightarrow> overflow + int option" where
  "getBlockLimit g s =
     (case getBlockNumber g s of
        None \<Rightarrow> Inr None
      | Some n \<Rightarrow> if int64_range (n + BLOCK_LIMIT_RANGE) then Inr (Some (n + BLOCK_LIMIT_RANGE))
                  else Inl Signed_overflow)"

definition updateGroupBlockNumber :: "string \<Rightarrow> int \<Rightarrow> ('h, 'n) service \<Rightarrow> ('h, 'n) service \<times> bool \<times> bool" where
  "updateGroupBlockNumber g n s =
     (case umap_find g (m_group2BlockNumber s) of
        Some old \<Rightarrow>
          if n > old then (s \<lparr>m_group2BlockNumber := umap_set g n (m_group2BlockNumber s)\<rparr>, True, True)
          else if n = old then (s, False, True)
          else (s, False, False)
      | None \<Rightarrow> (s \<lparr>m_group2BlockNumber := umap_set g n (m_group2BlockNumber s)\<rparr>, True, True))"

definition getHighestBlockNumberNodes :: "string \<Rightarrow> ('h, 'n) service \<Rightarrow> string list \<Rightarrow> string list \<times> bool" where
  "getHighestBlockNumberNodes g s nodes =
     (case umap_find g (m_group2LatestBlockNumberNodes s) of
        None \<Rightarrow> (nodes, False)
      | Some temp \<Rightarrow>
          (let nodes = insert_all (filter (\<lambda>node. hasEndPointOfNodeAvailable g node s) temp) nodes
           in (nodes, nodes \<noteq> [])))"

definition randomGetHighestBlockNumberNode ::
  "(string list \<Rightarrow> string list) \<Rightarrow> string \<Rightarrow> ('h, 'n) service \<Rightarrow> string option" where
  "randomGetHighestBlockNumberNode shuffle g s =
     (case getHighestBlockNumberNodes g s [] of
        (nodes, ok) \<Rightarrow> if \<not> ok then None else Some (first_after_shuffle shuffle nodes))"

definition removeBlockNumberInfo :: "string \<Rightarrow> ('h, 'n) service \<Rightarrow> ('h, 'n) service" where
  "removeBlockNumberInfo g s = s \<lparr>
     m_group2callbacks := umap_erase g (m_group2callbacks s),
     m_group2BlockNumber := umap_erase g (m_group2BlockNumber s),
     m_group2LatestBlockNumberNodes := umap_erase g (m_group2LatestBlockNumberNodes s)\<rparr>"

definition registerBlockNumberNotifier :: "string \<Rightarrow> 'n \<Rightarrow> ('h, 'n) service \<Rightarrow> ('h, 'n) service" where
  "registerBlockNumberNotifier g cb s = s \<lparr>
     m_group2callbacks := umap_set g (find_or g [] (m_group2callbacks s) @ [cb]) (m_group2callbacks s)\<rparr>"

text \<open>
  \<open>onRecvBlockNotifier\<close> takes the lock three times: to update the height, to update the nodes,
  and to run the callbacks. The three sections are the definitions below.
\<close>

definition update_nodes :: "string \<Rightarrow> string \<Rightarrow> bool \<Rightarrow> bool \<Rightarrow> ('h, 'n) service \<Rightarrow> ('h, 'n) service" where
  "update_nodes g node isNew isHighest s =
     (if isNew \<or> isHighest then
        let m = m_group2LatestBlockNumberNodes s;
            m = (if isNew then umap_set g [] m else m);
            m = (if isHighest then umap_set g (fst (set_insert node (find_or g [] m))) m else m)
        in s \<lparr>m_group2LatestBlockNumberNodes := m\<rparr>
      else s)"

definition run_callbacks :: "string \<Rightarrow> int \<Rightarrow> bool \<Rightarrow> ('h, 'n) service \<Rightarrow> ('h, 'n) service_effect list" where
  "run_callbacks g n isNew s =
     (if isNew then map (\<lambda>cb. Notify_block cb g n) (find_or g [] (m_group2callbacks s)) else [])"

definition onRecvBlockNotifier_info ::
  "block_number_info \<Rightarrow> ('h, 'n) service \<Rightarrow> group_exn + ('h, 'n) service \<times> ('h, 'n) service_effect list" where
  "onRecvBlockNotifier_info b s =
     bindE (initialised (m_blockNumber b)) (\<lambda>n.
       case updateGroupBlockNumber (m_group b) n s of
         (s, isNew, isHighest) \<Rightarrow>
           let s = update_nodes (m_group b) (m_node b) isNew isHighest s
           in Inr (s, run_callbacks (m_group b) n isNew s))"

definition onRecvBlockNotifier ::
  "jsoncpp \<Rightarrow> string \<Rightarrow> ('h, 'n) service \<Rightarrow> group_exn + ('h, 'n) service \<times> ('h, 'n) service_effect list" where
  "onRecvBlockNotifier J msg s =
     (case block_fromJson J msg new_block_number_info of
        (b, ok) \<Rightarrow> if ok then onRecvBlockNotifier_info b s else Inr (s, []))"

section \<open>Handshake\<close>

definition registerWsHandshakeSucHandler :: "'h \<Rightarrow> ('h, 'n) service \<Rightarrow> ('h, 'n) service" where
  "registerWsHandshakeSucHandler h s = s \<lparr>m_wsHandshakeSucHandlers := m_wsHandshakeSucHandlers s @ [h]\<rparr>"

definition callWsHandshakeSucHandlers :: "string \<Rightarrow> ('h, 'n) service \<Rightarrow> ('h, 'n) service_effect list" where
  "callWsHandshakeSucHandlers session s = map (\<lambda>h. Handshake_handler h session) (m_wsHandshakeSucHandlers s)"

definition increaseHandshakeSucCount :: "('h, 'n) service \<Rightarrow> ('h, 'n) service" where
  "increaseHandshakeSucCount s = s \<lparr>m_handshakeSucCount := m_handshakeSucCount s + 1\<rparr>"

definition setWsHandshakeTimeout :: "u32 \<Rightarrow> ('h, 'n) service \<Rightarrow> ('h, 'n) service" where
  "setWsHandshakeTimeout t s = s \<lparr>m_wsHandshakeTimeout := t\<rparr>"

definition checkHandshakeDone :: "ws_session option \<Rightarrow> bool" where
  "checkHandshakeDone session = (case session of None \<Rightarrow> False | Some ses \<Rightarrow> ses_version ses \<noteq> 0)"

definition startHandshake ::
  "jsoncpp \<Rightarrow> string \<Rightarrow> ws_session option \<Rightarrow> ('h, 'n) service \<Rightarrow> service_exn + ('h, 'n) service_effect list" where
  "startHandshake J newSeq session s =
     (case handshake_request_encode J (m_localProtocol s) of
        Inl e \<Rightarrow> Inl (Handshake_request e)
      | Inr requestData \<Rightarrow>
          (case session of
             None \<Rightarrow> Inl Null_session
           | Some ses \<Rightarrow> Inr [Send_session (ses_endPoint ses)
               \<lparr>seq = newSeq, packetType = HANDESHAKE, payload = requestData\<rparr> (m_wsHandshakeTimeout s)]))"

text \<open>
  The function passed to \<open>asyncSendMessage\<close>: \<open>ep\<close> is the end point of the captured session,
  \<open>session\<close> that of the session the library passes back, \<open>data\<close> the payload it received.
\<close>

definition apply_handshake :: "string \<Rightarrow> handshake_response \<Rightarrow> ('h, 'n) service \<Rightarrow> ('h, 'n) service" where
  "apply_handshake ep r s =
     (let s = fold (updateGroupInfoByEp ep) (m_groupInfoList r) s;
          s = fold (\<lambda>(g, n) s. fst (updateGroupBlockNumber g n s)) (m_groupBlockNumber r) s
      in increaseHandshakeSucCount s)"

definition handshake_callback ::
  "jsoncpp \<Rightarrow> (int \<times> string) option \<Rightarrow> bytes \<Rightarrow> string \<Rightarrow> string \<Rightarrow> ('h, 'n) service \<Rightarrow>
     ('h, 'n) service \<times> ('h, 'n) service_effect list" where
  "handshake_callback J error data ep session s =
     (if (case error of None \<Rightarrow> False | Some (code, _) \<Rightarrow> code \<noteq> 0) then (s, [Drop_session ep])
      else case response_decode J (string_of_bytes data) new_handshake_response of (r, ok) \<Rightarrow>
        if \<not> ok then (s, [Drop_session session])
        else let s' = apply_handshake ep r s in
          (s', Set_version ep (sint (the (m_protocolVersion r))) # callWsHandshakeSucHandlers session s'))"

section \<open>Sessions\<close>

definition onConnect ::
  "jsoncpp \<Rightarrow> string \<Rightarrow> ws_session option \<Rightarrow> ('h, 'n) service \<Rightarrow> service_exn + ('h, 'n) service_effect list" where
  "onConnect J newSeq session s = bindE (startHandshake J newSeq session s) (\<lambda>es. Inr (Base_onConnect # es))"

definition onDisconnect ::
  "ws_session option \<Rightarrow> ('h, 'n) service \<Rightarrow> ('h, 'n) service \<times> ('h, 'n) service_effect list" where
  "onDisconnect session s =
     (let ep = (case session of None \<Rightarrow> [] | Some ses \<Rightarrow> ses_endPoint ses) in
      (if ep \<noteq> [] then clearGroupInfoByEp ep s else s, [Base_onDisconnect]))"

definition onRecvMessage :: "ws_message \<Rightarrow> ws_session option \<Rightarrow> service_exn + ('h, 'n) service_effect list" where
  "onRecvMessage msg session =
     (if \<not> checkHandshakeDone session
      then (case session of None \<Rightarrow> Inl Null_session | Some ses \<Rightarrow> Inr [Drop_session (ses_endPoint ses)])
      else Inr [Base_onRecvMessage msg])"

definition onNotifyGroupInfo :: "jsoncpp \<Rightarrow> string \<Rightarrow> string \<Rightarrow> ('h, 'n) service \<Rightarrow> ('h, 'n) service" where
  "onNotifyGroupInfo J groupInfoJson ep s =
     (case group_deserialize J groupInfoJson of
        Inl _ \<Rightarrow> s
      | Inr groupInfo \<Rightarrow> updateGroupInfoByEp ep groupInfo s)"

definition onNotifyGroupInfo_msg :: "jsoncpp \<Rightarrow> ws_message \<Rightarrow> string \<Rightarrow> ('h, 'n) service \<Rightarrow> ('h, 'n) service" where
  "onNotifyGroupInfo_msg J msg ep s = onNotifyGroupInfo J (string_of_bytes (payload msg)) ep s"

text \<open>The handlers \<open>SdkFactory::buildService\<close> registers by packet type.\<close>

definition service_msgHandler ::
  "jsoncpp \<Rightarrow> ws_message \<Rightarrow> string \<Rightarrow> ('h, 'n) service \<Rightarrow>
     group_exn + ('h, 'n) service \<times> ('h, 'n) service_effect list" where
  "service_msgHandler J msg ep s =
     (if packetType msg = BLOCK_NOTIFY then onRecvBlockNotifier J (string_of_bytes (payload msg)) s
      else if packetType msg = GROUP_NOTIFY then Inr (onNotifyGroupInfo J (string_of_bytes (payload msg)) ep s, [])
      else Inr (s, []))"

section \<open>Waiting for the first handshake\<close>

text \<open>
  Other threads run during the sleeps, so the loop reads the counter and the clock from outside:
  \<open>obs i\<close> are the counter and the clock after the \<open>i\<close>-th sleep. Not returning is \<open>None\<close>.
\<close>

partial_function (option) wait_loop :: "(nat \<Rightarrow> u32 \<times> int) \<Rightarrow> int \<Rightarrow> nat \<Rightarrow> bool option" where
  "wait_loop obs deadline i =
     (if fst (obs i) \<noteq> 0 then Some True
      else if snd (obs i) < deadline then wait_loop obs deadline (Suc i)
      else Some False)"

definition waitForConnectionEstablish ::
  "(nat \<Rightarrow> u32 \<times> int) \<Rightarrow> int \<Rightarrow> int \<Rightarrow> (('h, 'n) service_effect list \<times> (service_exn + unit)) option" where
  "waitForConnectionEstablish obs start timeout =
     (case wait_loop obs (start + timeout) 0 of
        None \<Rightarrow> None
      | Some True \<Rightarrow> Some ([], Inr ())
      | Some False \<Rightarrow> Some ([Base_stop], Inl Handshake_timeout))"

definition service_start ::
  "(nat \<Rightarrow> u32 \<times> int) \<Rightarrow> int \<Rightarrow> int \<Rightarrow> (('h, 'n) service_effect list \<times> (service_exn + unit)) option" where
  "service_start obs start timeout =
     map_option (\<lambda>(es, r). (Base_start # es, r)) (waitForConnectionEstablish obs start timeout)"

definition service_stop :: "('h, 'n) service_effect list" where
  "service_stop = [Base_stop]"

end
