(* ===== verification/GroupProps.thy ===== *)
theory GroupProps
  imports GroupInfo
begin

text \<open>
  The descriptions of groups: the invariant their operations keep, what the codecs carry over the
  wire, and which descriptions can be serialized at all.
\<close>

section \<open>The invariant of the node table\<close>

definition group_wf :: "group_info \<Rightarrow> bool" where
  "group_wf g \<longleftrightarrow> omap_ok (m_nodeInfos g) \<and> (\<forall>(name, n) \<in> set (m_nodeInfos g). name = m_nodeName n)"

lemma group_wf_create [simp]: "group_wf (createGroupInfo_of c g)" "group_wf createGroupInfo"
  by (simp_all add: group_wf_def createGroupInfo_def createGroupInfo_of_def)

lemma group_wf_append [inv_intros]: "group_wf g \<Longrightarrow> group_wf (fst (appendNodeInfo n g))"
  by (auto simp: group_wf_def appendNodeInfo_def dest!: omap_set_mem)

lemma group_wf_update [inv_intros]: "group_wf g \<Longrightarrow> group_wf (updateNodeInfo n g)"
  by (auto simp: group_wf_def updateNodeInfo_def dest!: omap_set_mem)

lemma group_wf_remove [inv_intros]: "group_wf g \<Longrightarrow> group_wf (fst (removeNodeInfo n g))"
  by (auto simp: group_wf_def removeNodeInfo_def omap_erase_def [of "m_nodeName n"] simp del: omap_ok_erase
      simp: omap_ok_erase [unfolded omap_erase_def])

lemma group_wf_flags [simp]: "group_wf (g \<lparr>m_wasm := w, m_smCryptoType := s\<rparr>) = group_wf g"
  by (simp add: group_wf_def)

lemma group_wf_fields [simp]:
  "group_wf (g \<lparr>m_chainID := c\<rparr>) = group_wf g" "group_wf (g \<lparr>m_groupID := c\<rparr>) = group_wf g"
  "group_wf (g \<lparr>m_genesisConfig := c\<rparr>) = group_wf g" "group_wf (g \<lparr>m_iniConfig := c\<rparr>) = group_wf g"
  by (simp_all add: group_wf_def)

lemma deserialize_nodes_wf: "deserialize_nodes J b js g = Inr g' \<Longrightarrow> group_wf g \<Longrightarrow> group_wf g'"
  by (induction J b js g rule: deserialize_nodes.induct)
    (auto simp: Let_def group_wf_append split: if_splits elim!: bindE_InrE)

lemma group_deserialize_wf: "group_deserialize J s = Inr g \<Longrightarrow> group_wf g"
  by (auto simp: group_deserialize_def Let_def split: option.splits if_splits elim!: bindE_InrE
      dest!: deserialize_nodes_wf)

lemma nodeInfo_append:
  "group_wf g \<Longrightarrow> nodeInfo k (fst (appendNodeInfo n g)) =
     (if k = m_nodeName n \<and> nodeInfo k g = None then Some n else nodeInfo k g)"
  by (auto simp: nodeInfo_def appendNodeInfo_def group_wf_def)

section \<open>Reading the documents the codecs write\<close>

lemma u32_uint [simp]: "uint (w :: u32) < 4294967296"
proof -
  have "uint w < 2 ^ LENGTH(32)" by (rule uint_bounded)
  then show ?thesis by simp
qed

lemma u32_int64_range [simp]: "int64_range (uint (w :: u32))"
proof -
  have "0 \<le> uint w" "uint w < 4294967296" "(4294967296 :: int) < 2 ^ 63" "- (2 ^ 63) \<le> (0 :: int)"
    by simp_all
  then show ?thesis unfolding int64_range_def by (intro conjI) (blast intro: order.trans order.strict_trans)+
qed

lemma asU32_uint [simp]: "jsoncpp_ok J \<Longrightarrow> asU32 J (JInt (uint w)) = Inr w"
  by (simp add: asU32_def)

lemma int32_int64 [simp]: "int32_range i \<Longrightarrow> int64_range i"
  by (simp add: int32_range_def int64_range_def)

lemma required_jobject [simp]:
  assumes "jsoncpp_ok J" and "distinct (map fst kvs)"
  shows "map_of kvs k = Some v \<Longrightarrow> required J (jobject kvs) k f = jx (f v)"
  using assms by (simp add: required_def)

lemma optional_jobject [simp]:
  assumes "jsoncpp_ok J" and "distinct (map fst kvs)"
  shows "map_of kvs k = Some v \<Longrightarrow> optional J (jobject kvs) k f d = jx (f v)"
    and "map_of kvs k = None \<Longrightarrow> optional J (jobject kvs) k f d = Inr d"
  using assms by (simp_all add: optional_def)

definition services_ok :: "(int \<times> string) list \<Rightarrow> bool" where
  "services_ok ss \<longleftrightarrow> omap_ok ss \<and> (\<forall>s \<in> set ss. int32_range (fst s) \<and> ascii (snd s))"

lemma deserialize_service_list:
  "jsoncpp_ok J \<Longrightarrow> \<forall>s \<in> set ss. int32_range (fst s) \<Longrightarrow>
     deserialize_services J (map service_json ss) n =
       Inr (n \<lparr>m_servicesInfo := fold (\<lambda>(k, v). omap_set k v) ss (m_servicesInfo n)\<rparr>)"
proof (induction ss arbitrary: n)
  case (Cons s ss)
  have "json_isObject J (service_json s)"
    using Cons.prems(1) by (simp add: service_json_def jobject_def)
  then show ?case
    using Cons by (simp add: service_json_def appendServiceInfo_def case_prod_unfold)
qed simp

section \<open>Nodes over the wire\<close>

text \<open>
  \<open>carried\<close> is what of a node the serialized form carries: \<open>nodeID\<close>, \<open>microService\<close>, the
  kind of node and the module and negotiated version of its protocol are not written.
\<close>

definition carried :: "chain_node_info \<Rightarrow> chain_node_info" where
  "carried n = n \<lparr>m_nodeID := [], m_microService := False, m_nodeType := None,
     m_nodeProtocol := new_protocol_info \<lparr>m_minVersion := m_minVersion (m_nodeProtocol n),
       m_maxVersion := m_maxVersion (m_nodeProtocol n)\<rparr>\<rparr>"

definition versions_set :: "chain_node_info \<Rightarrow> bool" where
  "versions_set n \<longleftrightarrow> m_nodeCryptoType n \<noteq> None \<and> m_minVersion (m_nodeProtocol n) \<noteq> None \<and>
     m_maxVersion (m_nodeProtocol n) \<noteq> None \<and> m_compatibilityVersion n \<noteq> None"

definition node_ok :: "jsoncpp \<Rightarrow> chain_node_info \<Rightarrow> bool" where
  "node_ok J n \<longleftrightarrow> versions_set n \<and> ascii (m_nodeName n) \<and> ascii (m_nodeIniConfig n) \<and>
     services_ok (m_servicesInfo n) \<and> deserializeIniConfig J n = Inr n"

lemma node_serialize_outcome:
  "node_serialize n = Inl e \<longleftrightarrow> e = Uninitialised \<and> \<not> versions_set n"
  "(\<exists>j. node_serialize n = Inr j) \<longleftrightarrow> versions_set n"
  by (cases "m_nodeCryptoType n"; cases "m_minVersion (m_nodeProtocol n)";
      cases "m_maxVersion (m_nodeProtocol n)"; cases "m_compatibilityVersion n";
      auto simp: node_serialize_def versions_set_def)+

text \<open>The flags read from the ini text do not depend on the rest of the node.\<close>

lemma deserializeIniConfig_move:
  assumes "deserializeIniConfig J n = Inr n" and "m_nodeIniConfig m = m_nodeIniConfig n"
  shows "deserializeIniConfig J m = Inr (m \<lparr>m_nodeWasm := m_nodeWasm n, m_nodeSmCryptoType := m_nodeSmCryptoType n\<rparr>)"
proof -
  obtain v w s where v: "json_parse J (m_nodeIniConfig n) = Some v"
    and w: "required J v ''isWasm'' (json_asBool J) = Inr w"
    and s: "required J v ''smCryptoType'' (json_asBool J) = Inr s"
    and n: "n \<lparr>m_nodeWasm := w, m_nodeSmCryptoType := s\<rparr> = n"
    using assms(1) by (auto simp: deserializeIniConfig_def split: option.splits elim!: bindE_InrE)
  have "m_nodeWasm n = w" "m_nodeSmCryptoType n = s"
    using arg_cong [OF n, of m_nodeWasm] arg_cong [OF n, of m_nodeSmCryptoType] by simp_all
  then show ?thesis using v w s assms(2) by (simp add: deserializeIniConfig_def)
qed

lemma group_ascii_literals [simp]:
  "ascii ''name''" "ascii ''type''" "ascii ''iniConfig''" "ascii ''serviceInfo''" "ascii ''protocol''"
  "ascii ''serviceName''" "ascii ''minSupportedVersion''" "ascii ''maxSupportedVersion''"
  "ascii ''compatibilityVersion''" "ascii ''chainID''" "ascii ''groupID''" "ascii ''wasm''"
  "ascii ''smCryptoType''" "ascii ''genesisConfig''" "ascii ''nodeList''" "ascii ''protocolVersion''"
  "ascii ''groupInfoList''"
  by (simp_all add: ascii_def)

lemma service_json_wf [simp]: "int32_range (fst s) \<Longrightarrow> ascii (snd s) \<Longrightarrow> json_wf (service_json s)"
  by (simp add: service_json_def jobject_wf)

lemma node_roundtrip:
  assumes J: "jsoncpp_ok J" and T: "json_text_ok J" and ok: "node_ok J n"
  obtains j where "node_serialize n = Inr j" and "json_wf j"
    and "node_deserialize J (json_write J j) = Inr (carried n)"
proof -
  obtain t a b c where v: "m_nodeCryptoType n = Some t" "m_minVersion (m_nodeProtocol n) = Some a"
    "m_maxVersion (m_nodeProtocol n) = Some b" "m_compatibilityVersion n = Some c"
    using ok by (auto simp: node_ok_def versions_set_def)
  define protocol where "protocol = jobject [(''minSupportedVersion'', JInt (uint a)),
    (''maxSupportedVersion'', JInt (uint b)), (''compatibilityVersion'', JInt (uint c))]"
  define kvs where "kvs = [(''name'', JString (m_nodeName n)), (''type'', JInt (uint t)),
    (''iniConfig'', JString (m_nodeIniConfig n)), (''serviceInfo'', JArray (map service_json (m_servicesInfo n))),
    (''protocol'', protocol)]"
  have ser: "node_serialize n = Inr (jobject kvs)"
    using v by (simp add: node_serialize_def kvs_def protocol_def)
  have S: "services_ok (m_servicesInfo n)" using ok by (simp add: node_ok_def)
  have "json_wf protocol" by (simp add: protocol_def jobject_wf)
  then have wf: "json_wf (jobject kvs)"
    using ok S by (auto simp: kvs_def jobject_wf node_ok_def services_ok_def)
  have d: "distinct (map fst kvs)" by (simp add: kvs_def)
  have mem: "map_of kvs ''name'' = Some (JString (m_nodeName n))" "map_of kvs ''type'' = Some (JInt (uint t))"
    "map_of kvs ''iniConfig'' = Some (JString (m_nodeIniConfig n))"
    "map_of kvs ''serviceInfo'' = Some (JArray (map service_json (m_servicesInfo n)))"
    "map_of kvs ''protocol'' = Some protocol" "map_of kvs ''nodeID'' = None" "map_of kvs ''microService'' = None"
    by (simp_all add: kvs_def)
  have ini: "deserializeIniConfig J n = Inr n" using ok by (simp add: node_ok_def)
  have services: "deserialize_services J (map service_json (m_servicesInfo n)) m =
      Inr (m \<lparr>m_servicesInfo := m_servicesInfo n\<rparr>)" if "m_servicesInfo m = []" for m
    using deserialize_service_list [OF J, of "m_servicesInfo n" m] S fold_omap_set [of "[]" "m_servicesInfo n"] that
    by (simp add: services_ok_def)
  have protocol: "deserialize_protocol J protocol m = Inr (m \<lparr>m_nodeProtocol := new_protocol_info
      \<lparr>m_minVersion := Some a, m_maxVersion := Some b\<rparr>, m_compatibilityVersion := Some c\<rparr>)" for m
    using J by (simp add: deserialize_protocol_def protocol_def)
  have "node_deserialize J (json_write J (jobject kvs)) = Inr (carried n)"
    using J d mem json_text_okD [OF T wf] v
    by (simp add: node_deserialize_def Let_def deserializeIniConfig_move [OF ini] services protocol
        createNodeInfo_def carried_def)
  then show ?thesis using that ser wf by blast
qed

section \<open>Groups over the wire\<close>

definition carried_group :: "group_info \<Rightarrow> group_info" where
  "carried_group g = g \<lparr>
     m_wasm := (case m_nodeInfos g of [] \<Rightarrow> False | (_, n) # _ \<Rightarrow> m_nodeWasm n),
     m_smCryptoType := (case m_nodeInfos g of [] \<Rightarrow> False | (_, n) # _ \<Rightarrow> m_nodeSmCryptoType n),
     m_nodeInfos := map (\<lambda>(k, n). (k, carried n)) (m_nodeInfos g)\<rparr>"

definition group_ok :: "jsoncpp \<Rightarrow> group_info \<Rightarrow> bool" where
  "group_ok J g \<longleftrightarrow> group_wf g \<and> ascii (m_chainID g) \<and> ascii (m_groupID g) \<and> ascii (m_genesisConfig g) \<and>
     ascii (m_iniConfig g) \<and> (\<forall>(k, n) \<in> set (m_nodeInfos g). node_ok J n)"

lemma nodes_roundtrip:
  assumes J: "jsoncpp_ok J" and T: "json_text_ok J" and "\<forall>n \<in> set ns. node_ok J n"
  shows "\<exists>js. serialize_nodes ns = Inr js \<and> (\<forall>j \<in> set js. json_wf j) \<and>
    map (\<lambda>j. node_deserialize J (json_write J j)) js = map (\<lambda>n. Inr (carried n)) ns"
  using assms(3)
proof (induction ns)
  case (Cons n ns)
  obtain j where "node_serialize n = Inr j" "json_wf j" "node_deserialize J (json_write J j) = Inr (carried n)"
    using node_roundtrip [OF J T] Cons.prems by (metis list.set_intros(1))
  with Cons show ?case by fastforce
qed simp

lemma carried_fields [simp]:
  "m_nodeName (carried n) = m_nodeName n" "m_nodeWasm (carried n) = m_nodeWasm n"
  "m_nodeSmCryptoType (carried n) = m_nodeSmCryptoType n"
  by (simp_all add: carried_def)

lemma deserialize_node_list:
  "map (\<lambda>j. node_deserialize J (json_write J j)) js = map (\<lambda>n. Inr (carried n)) ns \<Longrightarrow>
   omap_ok (m_nodeInfos g @ map (\<lambda>n. (m_nodeName n, carried n)) ns) \<Longrightarrow>
   deserialize_nodes J b js g = Inr (g \<lparr>
     m_wasm := (case ns of [] \<Rightarrow> m_wasm g | n # _ \<Rightarrow> if b then m_nodeWasm n else m_wasm g),
     m_smCryptoType := (case ns of [] \<Rightarrow> m_smCryptoType g | n # _ \<Rightarrow> if b then m_nodeSmCryptoType n else m_smCryptoType g),
     m_nodeInfos := m_nodeInfos g @ map (\<lambda>n. (m_nodeName n, carried n)) ns\<rparr>)"
proof (induction ns arbitrary: js g b)
  case (Cons n ns)
  then obtain j js' where js: "js = j # js'" "node_deserialize J (json_write J j) = Inr (carried n)"
    "map (\<lambda>j. node_deserialize J (json_write J j)) js' = map (\<lambda>n. Inr (carried n)) ns"
    by (cases js) auto
  have less: "\<forall>e \<in> set (m_nodeInfos g). fst e < m_nodeName n"
    using Cons.prems(2) by (auto simp: omap_ok_def sorted_wrt_append)
  then have "map_of (m_nodeInfos g) (m_nodeName n) = None" by (auto simp: map_of_eq_None_iff)
  then have app: "fst (appendNodeInfo (carried n) g) = g \<lparr>m_nodeInfos := m_nodeInfos g @ [(m_nodeName n, carried n)]\<rparr>"
    using omap_set_last [OF less] by (simp add: appendNodeInfo_def)
  show ?case using Cons.prems(2) js app by (cases b) (simp_all add: Cons.IH Let_def split: list.splits)
qed simp

lemma group_codec_carried:
  assumes J: "jsoncpp_ok J" and T: "json_text_ok J" and ok: "group_ok J g"
  obtains j where "group_serialize g = Inr j" and "json_wf j"
    and "group_deserialize J (json_write J j) = Inr (carried_group g)"
proof -
  have "\<forall>x \<in> set (m_nodeInfos g). (m_nodeName (snd x), snd x) = x"
    using ok by (auto simp: group_ok_def group_wf_def)
  then have "map (\<lambda>x. (m_nodeName (snd x), snd x)) (m_nodeInfos g) = m_nodeInfos g" by (simp add: map_idI)
  then have keys: "m_nodeInfos g = map (\<lambda>n. (m_nodeName n, n)) (map snd (m_nodeInfos g))"
    by (simp add: comp_def)
  define ns where "ns = map snd (m_nodeInfos g)"
  have nodes: "m_nodeInfos g = map (\<lambda>n. (m_nodeName n, n)) ns" using keys by (simp add: ns_def)
  obtain js where js: "serialize_nodes ns = Inr js" "\<forall>j \<in> set js. json_wf j"
    "map (\<lambda>j. node_deserialize J (json_write J j)) js = map (\<lambda>n. Inr (carried n)) ns"
    using nodes_roundtrip [OF J T, of ns] ok by (fastforce simp: group_ok_def ns_def)
  define kvs where "kvs = [(''chainID'', JString (m_chainID g)), (''groupID'', JString (m_groupID g)),
    (''wasm'', JBool (m_wasm g)), (''smCryptoType'', JBool (m_smCryptoType g)),
    (''genesisConfig'', JString (m_genesisConfig g)), (''iniConfig'', JString (m_iniConfig g)),
    (''nodeList'', JArray js)]"
  have ser: "group_serialize g = Inr (jobject kvs)"
    using js(1) by (simp add: group_serialize_def kvs_def ns_def)
  have wf: "json_wf (jobject kvs)"
    using ok js(2) by (auto simp: kvs_def jobject_wf group_ok_def)
  have d: "distinct (map fst kvs)" by (simp add: kvs_def)
  have mem: "map_of kvs ''chainID'' = Some (JString (m_chainID g))" "map_of kvs ''groupID'' = Some (JString (m_groupID g))"
    "map_of kvs ''genesisConfig'' = Some (JString (m_genesisConfig g))"
    "map_of kvs ''iniConfig'' = Some (JString (m_iniConfig g))" "map_of kvs ''nodeList'' = Some (JArray js)"
    by (simp_all add: kvs_def)
  have sorted: "omap_ok (map (\<lambda>n. (m_nodeName n, carried n)) ns)"
    using ok nodes by (simp add: group_ok_def group_wf_def omap_ok_def comp_def)
  have "group_deserialize J (json_write J (jobject kvs)) = Inr (carried_group g)"
    using J d mem json_text_okD [OF T wf] sorted nodes
    by (simp add: group_deserialize_def Let_def deserialize_node_list [OF js(3)] createGroupInfo_def
        createGroupInfo_of_def carried_group_def split: list.splits)
  then show ?thesis using that ser wf by blast
qed

section \<open>An example\<close>

text \<open>A group of one node, described by the instance of the JSON library.\<close>

definition example_node :: chain_node_info where
  "example_node = createNodeInfo \<lparr>m_nodeName := ''n0'', m_nodeCryptoType := Some 0,
     m_servicesInfo := [(7, ''RpcService'')],
     m_nodeIniConfig := json_write jsoncpp0 (jobject [(''isWasm'', JBool True), (''smCryptoType'', JBool False)]),
     m_nodeProtocol := new_protocol_info \<lparr>m_minVersion := Some 1, m_maxVersion := Some 1\<rparr>,
     m_compatibilityVersion := Some 3, m_nodeWasm := True\<rparr>"

definition example_group :: group_info where
  "example_group = (createGroupInfo_of ''chain0'' ''group0'') \<lparr>m_wasm := True, m_nodeInfos := [(''n0'', example_node)]\<rparr>"

lemma ascii_write0: "ascii (json_write jsoncpp0 j)"
  by (simp add: jsoncpp0_def ascii_def)

lemma example_node_ok: "node_ok jsoncpp0 example_node"
  using ascii_write0
  by (simp add: node_ok_def versions_set_def services_ok_def example_node_def createNodeInfo_def new_protocol_info_def
      deserializeIniConfig_def omap_ok_def int32_range_def ascii_def)

lemma example_group_ok: "group_ok jsoncpp0 example_group"
  using example_node_ok
  by (simp add: group_ok_def group_wf_def example_group_def createGroupInfo_of_def omap_ok_def ascii_def)
    (simp add: example_node_def)

end
