(* ===== verification/ServiceTables.thy ===== *)
theory ServiceTables
  imports Service GroupProps
begin

text \<open>
  The end point table of the service: its invariant and how each operation changes it, first for
  the entries of one group, then for the table, then for the service.
\<close>

section \<open>Lookup\<close>

lemma find_or_simps [simp]:
  "find_or k d [] = d"
  "find_or k d (umap_set k' v m) = (if k = k' then v else find_or k d m)"
  "find_or k d (umap_erase k' m) = (if k = k' then d else find_or k d m)"
  by (simp_all add: find_or_def umap_find_def) (simp_all add: umap_find_def [symmetric])

lemma find_or_None: "umap_find k m = None \<Longrightarrow> find_or k d m = d"
  and find_or_Some: "umap_find k m = Some v \<Longrightarrow> find_or k d m = v"
  by (simp_all add: find_or_def)

lemma umap_find_Nil [simp]: "umap_find k [] = None"
  by (simp add: umap_find_def)

lemma umap_find_Cons [simp]: "umap_find k ((k', v) # m) = (if k = k' then Some v else umap_find k m)"
  by (simp add: umap_find_def)

lemma umap_find_in_set: "umap_find k m = Some v \<Longrightarrow> (k, v) \<in> set m"
  by (simp add: umap_find_def map_of_SomeD)

lemma umap_set_mem: "(k', v') \<in> set (umap_set k v m) \<Longrightarrow> (k', v') = (k, v) \<or> (k', v') \<in> set m"
  by (auto simp: umap_set_def split: if_splits)

lemma umap_ok_Cons: "umap_ok ((k, v) # m) \<longleftrightarrow> umap_find k m = None \<and> umap_ok m"
  by (simp add: umap_ok_def umap_find_None)

section \<open>The nodes of one group\<close>

definition nodes_ok :: "node_table \<Rightarrow> bool" where
  "nodes_ok ns \<longleftrightarrow> umap_ok ns \<and> (\<forall>(n, es) \<in> set ns. std_set es \<and> es \<noteq> [])"

lemma nodes_ok_Nil [simp]: "nodes_ok []"
  by (simp add: nodes_ok_def)

lemma nodes_ok_Cons:
  "nodes_ok ((n, es) # ns) \<longleftrightarrow> umap_find n ns = None \<and> std_set es \<and> es \<noteq> [] \<and> nodes_ok ns"
  by (auto simp: nodes_ok_def umap_ok_Cons)

lemma nodes_ok_find: "nodes_ok ns \<Longrightarrow> umap_find n ns = Some es \<Longrightarrow> std_set es \<and> es \<noteq> []"
  by (auto simp: nodes_ok_def dest!: umap_find_in_set)

lemma nodes_ok_find_or: "nodes_ok ns \<Longrightarrow> std_set (find_or n [] ns)"
  by (auto simp: find_or_def dest: nodes_ok_find split: option.splits)

lemma clear_nodes_absent: "umap_find n ns = None \<Longrightarrow> umap_find n (clear_nodes ep ns) = None"
  by (induction ns) (auto simp: Let_def split: if_splits)

lemma nodes_ok_clear [inv_intros]: "nodes_ok ns \<Longrightarrow> nodes_ok (clear_nodes ep ns)"
proof (induction ep ns rule: clear_nodes.induct)
  case (2 ep node eps nodes)
  then show ?case
    using set_erase_std [of eps ep] clear_nodes_absent [of node nodes ep]
    by (auto simp: Let_def nodes_ok_Cons)
qed simp

lemma clear_nodes_find_or:
  "nodes_ok ns \<Longrightarrow> find_or n [] (clear_nodes ep ns) = fst (set_erase ep (find_or n [] ns))"
proof (induction ep ns rule: clear_nodes.induct)
  case (2 ep node eps nodes)
  then show ?case
    using clear_nodes_absent [of node nodes ep]
    by (auto simp: Let_def nodes_ok_Cons find_or_def set_erase_def split: option.splits)
qed (simp add: set_erase_def)

lemma nodes_ok_add [inv_intros]: "nodes_ok ns \<Longrightarrow> nodes_ok (add_node ep n ns)"
proof -
  assume ok: "nodes_ok ns"
  let ?es = "fst (set_insert ep (find_or n [] ns))"
  have "std_set ?es" "?es \<noteq> []"
    using set_insert_std [OF nodes_ok_find_or [OF ok], of ep n] by (auto simp del: length_0_conv)
  then show ?thesis
    using ok by (auto simp: nodes_ok_def add_node_def dest!: umap_set_mem)
qed

lemma nodes_ok_adds [inv_intros]: "nodes_ok ns \<Longrightarrow> nodes_ok (fold (add_node ep) names ns)"
  by (induction names arbitrary: ns) (simp_all add: nodes_ok_add)

lemma add_nodes_find_or:
  "nodes_ok ns \<Longrightarrow> set (find_or n [] (fold (add_node ep) names ns)) =
     set (find_or n [] ns) \<union> (if n \<in> set names then {ep} else {})"
proof (induction names arbitrary: ns)
  case (Cons name names)
  have "set (find_or n [] (add_node ep name ns)) = set (find_or n [] ns) \<union> (if n = name then {ep} else {})"
    using set_insert_std [OF nodes_ok_find_or [OF Cons.prems], of ep name] by (auto simp: add_node_def)
  then show ?case using Cons nodes_ok_add [OF Cons.prems] by auto
qed simp

section \<open>The table\<close>

definition table_ok :: "endpoint_table \<Rightarrow> bool" where
  "table_ok T \<longleftrightarrow> umap_ok T \<and> (\<forall>(g, ns) \<in> set T. nodes_ok ns)"

definition endpoints :: "endpoint_table \<Rightarrow> string \<Rightarrow> string \<Rightarrow> string list" where
  "endpoints T g n = find_or n [] (find_or g [] T)"

lemma table_ok_Nil [simp]: "table_ok []"
  by (simp add: table_ok_def)

lemma table_ok_Cons: "table_ok ((g, ns) # T) \<longleftrightarrow> umap_find g T = None \<and> nodes_ok ns \<and> table_ok T"
  by (auto simp: table_ok_def umap_ok_Cons)

lemma table_ok_find_or: "table_ok T \<Longrightarrow> nodes_ok (find_or g [] T)"
  by (auto simp: find_or_def table_ok_def dest!: umap_find_in_set split: option.splits)

lemma table_ok_find: "table_ok T \<Longrightarrow> umap_find g T = Some ns \<Longrightarrow> nodes_ok ns"
  using table_ok_find_or [of T g] by (simp add: find_or_Some)

lemma table_ok_set [inv_intros]: "table_ok T \<Longrightarrow> nodes_ok ns \<Longrightarrow> table_ok (umap_set g ns T)"
  by (auto simp: table_ok_def dest!: umap_set_mem)

lemma clear_groups_absent: "umap_find g T = None \<Longrightarrow> umap_find g (clear_groups ep T) = None"
  by (induction T) (auto simp: Let_def split: if_splits)

lemma table_ok_clear_groups [inv_intros]: "table_ok T \<Longrightarrow> table_ok (clear_groups ep T)"
proof (induction ep T rule: clear_groups.induct)
  case (2 ep g nodes gs)
  then show ?case
    using nodes_ok_clear [of nodes ep] clear_groups_absent [of g gs ep] by (auto simp: Let_def table_ok_Cons)
qed simp

lemma clear_groups_find_or:
  "table_ok T \<Longrightarrow> find_or g [] (clear_groups ep T) = clear_nodes ep (find_or g [] T)"
proof (induction ep T rule: clear_groups.induct)
  case (2 ep g' nodes gs)
  then show ?case
    using clear_groups_absent [of g' gs ep] by (auto simp: Let_def table_ok_Cons find_or_def split: option.splits)
qed simp

lemma endpoints_clear_groups:
  "table_ok T \<Longrightarrow> set (endpoints (clear_groups ep T) g n) = set (endpoints T g n) - {ep}"
  using set_erase_std [OF nodes_ok_find_or [OF table_ok_find_or]]
  by (simp add: endpoints_def clear_groups_find_or clear_nodes_find_or table_ok_find_or)

lemma clear_group_find_or: "find_or g [] (clear_group ep g' T) =
    (if g = g' then clear_nodes ep (find_or g [] T) else find_or g [] T)"
  by (auto simp: clear_group_def find_or_def split: option.splits)

lemma table_ok_clear_group [inv_intros]: "table_ok T \<Longrightarrow> table_ok (clear_group ep g T)"
  by (auto simp: clear_group_def dest: table_ok_find intro!: table_ok_set nodes_ok_clear split: option.splits)

lemma table_ok_add_nodes [inv_intros]: "table_ok T \<Longrightarrow> table_ok (add_nodes ep g names T)"
  by (simp add: add_nodes_def table_ok_set nodes_ok_adds table_ok_find_or)

lemma endpoints_announce:
  assumes "table_ok T"
  shows "set (endpoints (add_nodes ep g names (clear_group ep g T)) g' n) =
    (if g' = g then set (endpoints T g n) - {ep} \<union> (if n \<in> set names then {ep} else {})
     else set (endpoints T g' n))"
proof -
  have "nodes_ok (clear_nodes ep (find_or g [] T))"
    using assms by (intro nodes_ok_clear table_ok_find_or)
  then show ?thesis
    using set_erase_std [OF nodes_ok_find_or [OF table_ok_find_or [OF assms, of g], of n], of ep] assms
    by (simp add: endpoints_def add_nodes_def clear_group_find_or add_nodes_find_or clear_nodes_find_or table_ok_find_or)
qed

end
