(* ===== verification/ServiceProps.thy ===== *)
theory ServiceProps
  imports ServiceTables
begin

text \<open>
  The service as a sequence of operations: its invariant, and two specifications it refines. The
  \<open>directory\<close> says which nodes of a group an end point announced last; the \<open>heights\<close> are the
  greatest block number heard of for each group.
\<close>

section \<open>Operations\<close>

datatype ('h, 'n) service_op =
    Op_handshake "(int \<times> string) option" bytes string string
  | Op_disconnect "ws_session option"
  | Op_message ws_message string
  | Op_notifier string 'n
  | Op_remove string
  | Op_handler 'h
  | Op_timeout u32

fun service_exec :: "jsoncpp \<Rightarrow> ('h, 'n) service_op \<Rightarrow> ('h, 'n) service \<Rightarrow> ('h, 'n) service" where
  "service_exec J (Op_handshake err data ep session) s = fst (handshake_callback J err data ep session s)"
| "service_exec J (Op_disconnect session) s = fst (onDisconnect session s)"
| "service_exec J (Op_message msg ep) s = (case service_msgHandler J msg ep s of Inl _ \<Rightarrow> s | Inr (s', _) \<Rightarrow> s')"
| "service_exec J (Op_notifier g cb) s = registerBlockNumberNotifier g cb s"
| "service_exec J (Op_remove g) s = removeBlockNumberInfo g s"
| "service_exec J (Op_handler h) s = registerWsHandshakeSucHandler h s"
| "service_exec J (Op_timeout t) s = setWsHandshakeTimeout t s"

text \<open>The accepted handshake, and what a message announces or reports.\<close>

definition accepted :: "jsoncpp \<Rightarrow> (int \<times> string) option \<Rightarrow> bytes \<Rightarrow> handshake_response option" where
  "accepted J err data =
     (if (case err of None \<Rightarrow> False | Some (code, _) \<Rightarrow> code \<noteq> 0) then None
      else case response_decode J (string_of_bytes data) new_handshake_response of
        (r, ok) \<Rightarrow> if ok then Some r else None)"

definition announced_group :: "jsoncpp \<Rightarrow> ws_message \<Rightarrow> group_info option" where
  "announced_group J msg =
     (if packetType msg = GROUP_NOTIFY
      then case group_deserialize J (string_of_bytes (payload msg)) of Inl _ \<Rightarrow> None | Inr g \<Rightarrow> Some g
      else None)"

definition reported_block :: "jsoncpp \<Rightarrow> ws_message \<Rightarrow> (string \<times> string \<times> int) option" where
  "reported_block J msg =
     (if packetType msg = BLOCK_NOTIFY
      then case block_fromJson J (string_of_bytes (payload msg)) new_block_number_info of
        (b, ok) \<Rightarrow> if ok then Some (m_group b, m_node b, the (m_blockNumber b)) else None
      else None)"

lemma handshake_callback_accepted:
  "handshake_callback J err data ep session s =
     (case accepted J err data of
        None \<Rightarrow> (s, [Drop_session (if (case err of None \<Rightarrow> False | Some (code, _) \<Rightarrow> code \<noteq> 0) then ep else session)])
      | Some r \<Rightarrow> (let s' = apply_handshake ep r s in
          (s', Set_version ep (sint (the (m_protocolVersion r))) # callWsHandshakeSucHandlers session s')))"
  by (auto simp: handshake_callback_def accepted_def split: prod.splits)

lemma block_fromJson_number: "block_fromJson J msg b = (b', True) \<Longrightarrow> \<exists>n. m_blockNumber b' = Some n"
  by (auto simp: block_fromJson_def split: option.splits sum.splits elim!: bindE_InrE)

definition block_notified :: "string \<Rightarrow> string \<Rightarrow> int \<Rightarrow> ('h, 'n) service \<Rightarrow> ('h, 'n) service \<times> ('h, 'n) service_effect list" where
  "block_notified g node n s =
     (case updateGroupBlockNumber g n s of (s, isNew, isHighest) \<Rightarrow>
        let s = update_nodes g node isNew isHighest s in (s, run_callbacks g n isNew s))"

lemma service_msgHandler_cases:
  "service_msgHandler J msg ep s = Inr (case announced_group J msg of
     Some gi \<Rightarrow> (updateGroupInfoByEp ep gi s, [])
   | None \<Rightarrow> (case reported_block J msg of
       Some (g, node, n) \<Rightarrow> block_notified g node n s
     | None \<Rightarrow> (s, [])))"
proof -
  have "onRecvBlockNotifier_info b s = Inr (block_notified (m_group b) (m_node b) (the (m_blockNumber b)) s)"
    if "block_fromJson J m b0 = (b, True)" for m b0 b
    using block_fromJson_number [OF that]
    by (auto simp: onRecvBlockNotifier_info_def block_notified_def Let_def split: prod.splits)
  then show ?thesis
    by (auto simp: service_msgHandler_def announced_group_def reported_block_def onRecvBlockNotifier_def
        onNotifyGroupInfo_def BLOCK_NOTIFY_def GROUP_NOTIFY_def split: prod.splits sum.splits)
qed

section \<open>The invariant\<close>

definition info :: "('h, 'n) service \<Rightarrow> string \<Rightarrow> string \<Rightarrow> group_info option" where
  "info s ep g = umap_find g (find_or ep [] (m_endPoint2GroupId2GroupInfo s))"

definition directory_of :: "('h, 'n) service \<Rightarrow> string \<Rightarrow> string \<Rightarrow> string set" where
  "directory_of s ep g = {n. ep \<in> set (endpoints (m_group2Node2Endpoints s) g n)}"

definition infos_ok :: "(string \<times> (string \<times> group_info) list) list \<Rightarrow> bool" where
  "infos_ok I \<longleftrightarrow> umap_ok I \<and> (\<forall>(ep, gs) \<in> set I. umap_ok gs \<and>
     (\<forall>(g, gi) \<in> set gs. m_groupID gi = g \<and> group_wf gi))"

definition routing_inv :: "('h, 'n) service \<Rightarrow> bool" where
  "routing_inv s \<longleftrightarrow> table_ok (m_group2Node2Endpoints s) \<and> infos_ok (m_endPoint2GroupId2GroupInfo s) \<and>
     (\<forall>ep g. directory_of s ep g = (case info s ep g of None \<Rightarrow> {} | Some gi \<Rightarrow> fst ` set (m_nodeInfos gi)))"

definition heights_inv :: "('h, 'n) service \<Rightarrow> bool" where
  "heights_inv s \<longleftrightarrow> umap_ok (m_group2BlockNumber s) \<and> umap_ok (m_group2LatestBlockNumberNodes s) \<and>
     umap_ok (m_group2callbacks s) \<and>
     (\<forall>g nodes. umap_find g (m_group2LatestBlockNumberNodes s) = Some nodes \<longrightarrow>
        std_set nodes \<and> nodes \<noteq> [] \<and> umap_find g (m_group2BlockNumber s) \<noteq> None)"

lemma directory_of_update:
  "table_ok (m_group2Node2Endpoints s) \<Longrightarrow> directory_of (updateGroupInfoByEp ep gi s) ep' g =
     (if ep' = ep \<and> g = m_groupID gi then fst ` set (m_nodeInfos gi) else directory_of s ep' g)"
  by (auto simp: directory_of_def updateGroupInfoByEp_def insert_group_nodes_def updateGroupInfo_def
      clearGroupInfoByEp_group_def endpoints_announce)

lemma directory_of_clear:
  "table_ok (m_group2Node2Endpoints s) \<Longrightarrow>
     directory_of (clearGroupInfoByEp ep s) ep' g = (if ep' = ep then {} else directory_of s ep' g)"
  by (auto simp: directory_of_def clearGroupInfoByEp_def endpoints_clear_groups)

lemma info_update:
  "info (updateGroupInfoByEp ep gi s) ep' g = (if ep' = ep \<and> g = m_groupID gi then Some gi else info s ep' g)"
  by (simp add: info_def updateGroupInfoByEp_def insert_group_nodes_def updateGroupInfo_def clearGroupInfoByEp_group_def)

lemma info_clear: "info (clearGroupInfoByEp ep s) ep' g = (if ep' = ep then None else info s ep' g)"
  by (simp add: info_def clearGroupInfoByEp_def)

lemma infos_ok_find_or: "infos_ok I \<Longrightarrow> umap_ok (find_or ep [] I)"
  "infos_ok I \<Longrightarrow> (g, gi) \<in> set (find_or ep [] I) \<Longrightarrow> m_groupID gi = g \<and> group_wf gi"
  by (cases "umap_find ep I"; fastforce simp: infos_ok_def find_or_def dest: umap_find_in_set)+

lemma infos_ok_update:
  assumes "infos_ok I" and "group_wf gi"
  shows "infos_ok (umap_set ep (umap_set (m_groupID gi) gi (find_or ep [] I)) I)"
proof -
  have "\<forall>(g, gi') \<in> set (umap_set (m_groupID gi) gi (find_or ep [] I)). m_groupID gi' = g \<and> group_wf gi'"
    using infos_ok_find_or(2) [OF assms(1)] assms(2) by (auto dest!: umap_set_mem)
  then show ?thesis
    using assms infos_ok_find_or(1) [OF assms(1), of ep] unfolding infos_ok_def
    by (auto dest!: umap_set_mem)
qed

lemma infos_ok_erase: "infos_ok I \<Longrightarrow> infos_ok (umap_erase ep I)"
proof -
  assume ok: "infos_ok I"
  have "set (umap_erase ep I) \<subseteq> set I" by (auto simp: umap_erase_def)
  then show ?thesis using ok unfolding infos_ok_def by (blast intro: umap_ok_erase)
qed

lemma routing_inv_update [inv_intros]:
  "routing_inv s \<Longrightarrow> group_wf gi \<Longrightarrow> routing_inv (updateGroupInfoByEp ep gi s)"
  unfolding routing_inv_def
  by (simp add: directory_of_update info_update)
    (simp add: updateGroupInfoByEp_def insert_group_nodes_def updateGroupInfo_def clearGroupInfoByEp_group_def
      infos_ok_update table_ok_add_nodes table_ok_clear_group)

lemma routing_inv_clear [inv_intros]: "routing_inv s \<Longrightarrow> routing_inv (clearGroupInfoByEp ep s)"
  unfolding routing_inv_def
  by (simp add: directory_of_clear info_clear)
    (simp add: clearGroupInfoByEp_def infos_ok_erase table_ok_clear_groups)

text \<open>Operations that leave the tables of the end points or those of the heights alone.\<close>

lemma routing_inv_unchanged:
  "m_group2Node2Endpoints s' = m_group2Node2Endpoints s \<Longrightarrow>
   m_endPoint2GroupId2GroupInfo s' = m_endPoint2GroupId2GroupInfo s \<Longrightarrow>
   directory_of s' = directory_of s \<and> routing_inv s' = routing_inv s"
  by (simp add: routing_inv_def directory_of_def info_def fun_eq_iff)

lemma updateGroupBlockNumber_tables [simp]:
  "m_group2Node2Endpoints (fst (updateGroupBlockNumber g n s)) = m_group2Node2Endpoints s"
  "m_endPoint2GroupId2GroupInfo (fst (updateGroupBlockNumber g n s)) = m_endPoint2GroupId2GroupInfo s"
  "m_group2LatestBlockNumberNodes (fst (updateGroupBlockNumber g n s)) = m_group2LatestBlockNumberNodes s"
  "m_group2callbacks (fst (updateGroupBlockNumber g n s)) = m_group2callbacks s"
  by (simp_all add: updateGroupBlockNumber_def split: option.splits)

lemma update_nodes_tables [simp]:
  "m_group2Node2Endpoints (update_nodes g node a b s) = m_group2Node2Endpoints s"
  "m_endPoint2GroupId2GroupInfo (update_nodes g node a b s) = m_endPoint2GroupId2GroupInfo s"
  "m_group2BlockNumber (update_nodes g node a b s) = m_group2BlockNumber s"
  "m_group2callbacks (update_nodes g node a b s) = m_group2callbacks s"
  by (simp_all add: update_nodes_def Let_def)

lemma block_notified_tables [simp]:
  "m_group2Node2Endpoints (fst (block_notified g node n s)) = m_group2Node2Endpoints s"
  "m_endPoint2GroupId2GroupInfo (fst (block_notified g node n s)) = m_endPoint2GroupId2GroupInfo s"
  "m_group2BlockNumber (fst (block_notified g node n s)) = m_group2BlockNumber (fst (updateGroupBlockNumber g n s))"
  "m_group2callbacks (fst (block_notified g node n s)) = m_group2callbacks s"
  using updateGroupBlockNumber_tables [of g n s]
  by (simp_all add: block_notified_def Let_def case_prod_unfold)

lemma fold_numbers_tables [simp]:
  "m_group2Node2Endpoints (fold (\<lambda>(g, n) s. fst (updateGroupBlockNumber g n s)) gs s) = m_group2Node2Endpoints s"
  "m_endPoint2GroupId2GroupInfo (fold (\<lambda>(g, n) s. fst (updateGroupBlockNumber g n s)) gs s) =
     m_endPoint2GroupId2GroupInfo s"
  "m_group2LatestBlockNumberNodes (fold (\<lambda>(g, n) s. fst (updateGroupBlockNumber g n s)) gs s) =
     m_group2LatestBlockNumberNodes s"
  by (induction gs arbitrary: s) (simp_all add: case_prod_unfold)

lemma updateGroupInfoByEp_heights [simp]:
  "m_group2BlockNumber (updateGroupInfoByEp ep gi s) = m_group2BlockNumber s"
  "m_group2LatestBlockNumberNodes (updateGroupInfoByEp ep gi s) = m_group2LatestBlockNumberNodes s"
  "m_group2callbacks (updateGroupInfoByEp ep gi s) = m_group2callbacks s"
  by (simp_all add: updateGroupInfoByEp_def insert_group_nodes_def updateGroupInfo_def clearGroupInfoByEp_group_def)

lemma fold_groups_heights [simp]:
  "m_group2BlockNumber (fold (updateGroupInfoByEp ep) gs s) = m_group2BlockNumber s"
  "m_group2LatestBlockNumberNodes (fold (updateGroupInfoByEp ep) gs s) = m_group2LatestBlockNumberNodes s"
  "m_group2callbacks (fold (updateGroupInfoByEp ep) gs s) = m_group2callbacks s"
  by (induction gs arbitrary: s) simp_all

section \<open>The directory\<close>

type_synonym directory = "string \<Rightarrow> string \<Rightarrow> string set"

definition announce :: "string \<Rightarrow> group_info \<Rightarrow> directory \<Rightarrow> directory" where
  "announce ep gi d = d(ep := (d ep)(m_groupID gi := fst ` set (m_nodeInfos gi)))"

definition leave :: "string \<Rightarrow> directory \<Rightarrow> directory" where
  "leave ep d = d(ep := \<lambda>_. {})"

fun directory_spec :: "jsoncpp \<Rightarrow> ('h, 'n) service_op \<Rightarrow> directory \<Rightarrow> directory" where
  "directory_spec J (Op_handshake err data ep session) d =
     (case accepted J err data of None \<Rightarrow> d | Some r \<Rightarrow> fold (announce ep) (m_groupInfoList r) d)"
| "directory_spec J (Op_disconnect session) d =
     (case session of None \<Rightarrow> d | Some ses \<Rightarrow> if ses_endPoint ses = [] then d else leave (ses_endPoint ses) d)"
| "directory_spec J (Op_message msg ep) d =
     (case announced_group J msg of None \<Rightarrow> d | Some gi \<Rightarrow> announce ep gi d)"
| "directory_spec J _ d = d"

lemma directory_of_announce:
  "routing_inv s \<Longrightarrow> directory_of (updateGroupInfoByEp ep gi s) = announce ep gi (directory_of s)"
  by (auto simp: fun_eq_iff announce_def directory_of_update routing_inv_def)

lemma directory_of_leave: "routing_inv s \<Longrightarrow> directory_of (clearGroupInfoByEp ep s) = leave ep (directory_of s)"
  by (auto simp: fun_eq_iff leave_def directory_of_clear routing_inv_def)

definition groups_wf :: "handshake_response \<Rightarrow> bool" where
  "groups_wf r \<longleftrightarrow> (\<forall>g \<in> set (m_groupInfoList r). group_wf g)"

lemma groups_wf_version [simp]: "groups_wf (r \<lparr>m_protocolVersion := v\<rparr>) = groups_wf r"
  by (simp add: groups_wf_def)

lemma decode_groups_wf [simp]: "groups_wf r \<Longrightarrow> groups_wf (fst (decode_groups J js r))"
  by (induction J js r rule: decode_groups.induct)
    (auto simp: groups_wf_def dest: group_deserialize_wf split: sum.splits)

lemma decode_members_groups [simp]: "m_groupInfoList (fst (decode_members J j ids r)) = m_groupInfoList r"
  by (induction J j ids r rule: decode_members.induct) (auto split: sum.splits)

lemma decode_numbers_groups [simp]: "m_groupInfoList (fst (decode_numbers J js r)) = m_groupInfoList r"
proof (induction J js r rule: decode_numbers.induct)
  case (2 J j js r)
  show ?case
  proof (cases "json_memberNames J j")
    case (Inr ids)
    obtain r' ok where d: "decode_members J j ids r = (r', ok)" by (cases "decode_members J j ids r")
    then show ?thesis using 2 [OF Inr d [symmetric]] Inr decode_members_groups [of J j ids r] by auto
  qed simp
qed simp

lemma decode_numbers_wf [simp]: "groups_wf (fst (decode_numbers J js r)) = groups_wf r"
  by (simp add: groups_wf_def)

lemma response_decode_wf: "groups_wf r \<Longrightarrow> groups_wf (fst (response_decode J data r))"
  by (simp add: response_decode_def Let_def case_prod_unfold split: option.splits sum.splits)

lemma accepted_wf: "accepted J err data = Some r \<Longrightarrow> \<forall>g \<in> set (m_groupInfoList r). group_wf g"
  using response_decode_wf [of new_handshake_response J "string_of_bytes data"]
  by (auto simp: groups_wf_def accepted_def new_handshake_response_def split: if_splits prod.splits)

lemma fold_announce:
  "routing_inv s \<Longrightarrow> \<forall>g \<in> set gs. group_wf g \<Longrightarrow> routing_inv (fold (updateGroupInfoByEp ep) gs s) \<and>
     directory_of (fold (updateGroupInfoByEp ep) gs s) = fold (announce ep) gs (directory_of s)"
  by (induction gs arbitrary: s) (simp_all add: routing_inv_update directory_of_announce)

lemma announced_wf: "announced_group J msg = Some gi \<Longrightarrow> group_wf gi"
  by (auto simp: announced_group_def dest: group_deserialize_wf split: if_splits sum.splits)

lemma service_exec_directory:
  assumes "routing_inv s"
  shows "routing_inv (service_exec J op s) \<and> directory_of (service_exec J op s) = directory_spec J op (directory_of s)"
proof (cases op)
  case (Op_handshake err data ep session)
  show ?thesis
  proof (cases "accepted J err data")
    case (Some r)
    have "directory_of (apply_handshake ep r s) = directory_of (fold (updateGroupInfoByEp ep) (m_groupInfoList r) s) \<and>
        routing_inv (apply_handshake ep r s) = routing_inv (fold (updateGroupInfoByEp ep) (m_groupInfoList r) s)"
      by (rule routing_inv_unchanged) (simp_all add: apply_handshake_def Let_def increaseHandshakeSucCount_def)
    then show ?thesis
      using fold_announce [OF assms accepted_wf [OF Some]] Some Op_handshake
      by (simp add: handshake_callback_accepted Let_def)
  qed (use assms Op_handshake in \<open>simp add: handshake_callback_accepted\<close>)
next
  case (Op_disconnect session)
  then show ?thesis
    using assms by (auto simp: onDisconnect_def Let_def routing_inv_clear directory_of_leave split: option.splits)
next
  case (Op_message msg ep)
  show ?thesis
  proof (cases "announced_group J msg")
    case None
    have "directory_of (fst (block_notified g node n s)) = directory_of s \<and>
        routing_inv (fst (block_notified g node n s)) = routing_inv s" for g node n
      by (rule routing_inv_unchanged) simp_all
    then show ?thesis
      using None assms Op_message by (auto simp: service_msgHandler_cases split: option.splits prod.splits)
        (metis fst_conv)+
  qed (use assms Op_message in \<open>simp add: service_msgHandler_cases routing_inv_update announced_wf directory_of_announce\<close>)
qed (use assms routing_inv_unchanged [of "service_exec J op s" s] in
    \<open>simp_all add: registerBlockNumberNotifier_def removeBlockNumberInfo_def registerWsHandshakeSucHandler_def
       setWsHandshakeTimeout_def\<close>)

section \<open>The heights\<close>

type_synonym heights = "string \<Rightarrow> int option"

definition raise :: "string \<Rightarrow> int \<Rightarrow> heights \<Rightarrow> heights" where
  "raise g n h = h(g := Some (case h g of None \<Rightarrow> n | Some m \<Rightarrow> max m n))"

definition heights_of :: "('h, 'n) service \<Rightarrow> heights" where
  "heights_of s g = umap_find g (m_group2BlockNumber s)"

fun heights_spec :: "jsoncpp \<Rightarrow> ('h, 'n) service_op \<Rightarrow> heights \<Rightarrow> heights" where
  "heights_spec J (Op_handshake err data ep session) h =
     (case accepted J err data of None \<Rightarrow> h | Some r \<Rightarrow> fold (\<lambda>(g, n). raise g n) (m_groupBlockNumber r) h)"
| "heights_spec J (Op_message msg ep) h =
     (case announced_group J msg of Some _ \<Rightarrow> h | None \<Rightarrow>
        (case reported_block J msg of None \<Rightarrow> h | Some (g, node, n) \<Rightarrow> raise g n h))"
| "heights_spec J (Op_remove g) h = h(g := None)"
| "heights_spec J _ h = h"

lemma heights_of_cong: "m_group2BlockNumber s' = m_group2BlockNumber s \<Longrightarrow> heights_of s' = heights_of s"
  by (simp add: heights_of_def fun_eq_iff)

lemma heights_of_update: "heights_of (fst (updateGroupBlockNumber g n s)) = raise g n (heights_of s)"
  by (auto simp: fun_eq_iff heights_of_def raise_def updateGroupBlockNumber_def split: option.splits)

lemma heights_of_fold:
  "heights_of (fold (\<lambda>(g, n) s. fst (updateGroupBlockNumber g n s)) gs s) = fold (\<lambda>(g, n). raise g n) gs (heights_of s)"
  by (induction gs arbitrary: s) (simp_all add: case_prod_unfold heights_of_update)

lemma heights_of_handshake:
  "heights_of (apply_handshake ep r s) = fold (\<lambda>(g, n). raise g n) (m_groupBlockNumber r) (heights_of s)"
proof -
  let ?s = "fold (updateGroupInfoByEp ep) (m_groupInfoList r) s"
  have "heights_of (apply_handshake ep r s) =
      heights_of (fold (\<lambda>(g, n) s. fst (updateGroupBlockNumber g n s)) (m_groupBlockNumber r) ?s)"
    by (rule heights_of_cong) (simp add: apply_handshake_def Let_def increaseHandshakeSucCount_def)
  moreover have "heights_of ?s = heights_of s" by (rule heights_of_cong) simp
  ultimately show ?thesis by (simp add: heights_of_fold)
qed

lemma heights_of_notified: "heights_of (fst (block_notified g node n s)) = raise g n (heights_of s)"
  using heights_of_cong [of "fst (block_notified g node n s)" "fst (updateGroupBlockNumber g n s)"]
  by (simp add: heights_of_update)

lemma heights_of_groups [simp]: "heights_of (updateGroupInfoByEp ep gi s) = heights_of s"
  by (rule heights_of_cong) simp

lemma service_exec_heights: "heights_of (service_exec J op s) = heights_spec J op (heights_of s)"
proof (cases op)
  case (Op_handshake err data ep session)
  then show ?thesis
    by (simp add: handshake_callback_accepted Let_def heights_of_handshake split: option.splits)
next
  case (Op_disconnect session)
  then show ?thesis by (simp add: heights_of_def fun_eq_iff onDisconnect_def Let_def clearGroupInfoByEp_def)
next
  case (Op_message msg ep)
  then show ?thesis
    by (simp add: service_msgHandler_cases split_def heights_of_notified split: option.splits)
qed (auto simp: heights_of_def fun_eq_iff registerBlockNumberNotifier_def removeBlockNumberInfo_def
    registerWsHandshakeSucHandler_def setWsHandshakeTimeout_def)

section \<open>Notifications\<close>

lemma updateGroupBlockNumber_flags:
  "snd (updateGroupBlockNumber g n s) =
     ((case heights_of s g of None \<Rightarrow> True | Some m \<Rightarrow> m < n), (case heights_of s g of None \<Rightarrow> True | Some m \<Rightarrow> m \<le> n))"
  by (auto simp: updateGroupBlockNumber_def heights_of_def split: option.splits)

definition latest :: "('h, 'n) service \<Rightarrow> string \<Rightarrow> string list" where
  "latest s g = find_or g [] (m_group2LatestBlockNumberNodes s)"

lemma latest_update_nodes:
  "latest (update_nodes g node isNew isHighest s) g' =
     (if g' = g then (let ns = (if isNew then [] else latest s g) in
        if isHighest then fst (set_insert node ns) else ns) else latest s g')"
  by (auto simp: latest_def update_nodes_def Let_def)

lemma latest_notified:
  "latest (fst (block_notified g node n s)) g' =
     (if g' \<noteq> g then latest s g'
      else case heights_of s g of
        None \<Rightarrow> [node]
      | Some m \<Rightarrow> if m < n then [node] else if m = n then fst (set_insert node (latest s g)) else latest s g)"
proof -
  have "latest (fst (updateGroupBlockNumber g n s)) g' = latest s g'" for g'
    by (simp add: latest_def)
  then show ?thesis
    using updateGroupBlockNumber_flags [of g n s]
    by (auto simp: block_notified_def Let_def case_prod_unfold latest_update_nodes set_insert_def split: option.splits)
qed

lemma callbacks_notified:
  "snd (block_notified g node n s) =
     (if (case heights_of s g of None \<Rightarrow> True | Some m \<Rightarrow> m < n)
      then map (\<lambda>cb. Notify_block cb g n) (find_or g [] (m_group2callbacks s)) else [])"
  using updateGroupBlockNumber_flags [of g n s]
  by (simp add: block_notified_def Let_def case_prod_unfold run_callbacks_def)

lemma heights_inv_update:
  "heights_inv s \<Longrightarrow> heights_inv (fst (updateGroupBlockNumber g n s))"
  by (auto simp: heights_inv_def updateGroupBlockNumber_def split: option.splits)

lemma heights_inv_cong:
  "m_group2BlockNumber s' = m_group2BlockNumber s \<Longrightarrow> m_group2callbacks s' = m_group2callbacks s \<Longrightarrow>
   m_group2LatestBlockNumberNodes s' = m_group2LatestBlockNumberNodes s \<Longrightarrow> heights_inv s' = heights_inv s"
  by (simp add: heights_inv_def)

lemma std_set_insert: "std_set xs \<Longrightarrow> std_set (fst (set_insert x xs)) \<and> fst (set_insert x xs) \<noteq> []"
  using set_insert_std [of xs x] by (auto simp del: length_0_conv)

lemma heights_inv_nodes:
  assumes inv: "heights_inv s" and "isHighest \<Longrightarrow> heights_of s g \<noteq> None" and "isNew \<Longrightarrow> isHighest"
  shows "heights_inv (update_nodes g node isNew isHighest s)"
proof (cases isHighest)
  case True
  define nodes where "nodes = (if isNew then [] else latest s g)"
  have nodes: "std_set nodes"
    using inv by (auto simp: nodes_def latest_def find_or_def heights_inv_def split: option.splits)
  let ?m = "m_group2LatestBlockNumberNodes (update_nodes g node isNew isHighest s)"
  have "umap_find g' ?m = (if g' = g then Some (fst (set_insert node nodes)) else
      umap_find g' (m_group2LatestBlockNumberNodes s))" for g'
    using True by (simp add: update_nodes_def Let_def nodes_def latest_def)
  moreover have "umap_ok ?m" using inv True by (simp add: update_nodes_def Let_def heights_inv_def)
  ultimately show ?thesis
    using inv assms(2) True std_set_insert [OF nodes, of node] by (auto simp: heights_inv_def heights_of_def)
qed (use assms in \<open>auto simp: update_nodes_def\<close>)

lemma heights_inv_notified [inv_intros]: "heights_inv s \<Longrightarrow> heights_inv (fst (block_notified g node n s))"
proof -
  assume inv: "heights_inv s"
  obtain s' isNew isHighest where u: "updateGroupBlockNumber g n s = (s', isNew, isHighest)"
    by (cases "updateGroupBlockNumber g n s")
  have "heights_inv (update_nodes g node isNew isHighest s')"
  proof (rule heights_inv_nodes)
    show "heights_inv s'" using heights_inv_update [OF inv, of g n] u by simp
    show "heights_of s' g \<noteq> None" using heights_of_update [of g n s] u by (simp add: raise_def)
    show "isNew \<Longrightarrow> isHighest" using updateGroupBlockNumber_flags [of g n s] u by (auto split: option.splits)
  qed
  then show ?thesis using u by (simp add: block_notified_def Let_def)
qed

lemma heights_inv_fold: "heights_inv s \<Longrightarrow> heights_inv (fold (\<lambda>(g, n) s. fst (updateGroupBlockNumber g n s)) gs s)"
  by (induction gs arbitrary: s) (simp_all add: case_prod_unfold heights_inv_update)

lemma heights_inv_handshake: "heights_inv s \<Longrightarrow> heights_inv (apply_handshake ep r s)"
proof -
  assume "heights_inv s"
  then have "heights_inv (fold (updateGroupInfoByEp ep) (m_groupInfoList r) s)"
    using heights_inv_cong [of "fold (updateGroupInfoByEp ep) (m_groupInfoList r) s" s] by simp
  then have "heights_inv (fold (\<lambda>(g, n) s. fst (updateGroupBlockNumber g n s)) (m_groupBlockNumber r)
      (fold (updateGroupInfoByEp ep) (m_groupInfoList r) s))"
    by (rule heights_inv_fold)
  then show ?thesis by (simp add: apply_handshake_def Let_def increaseHandshakeSucCount_def heights_inv_def)
qed

lemma service_exec_heights_inv: "heights_inv s \<Longrightarrow> heights_inv (service_exec J op s)"
proof (cases op)
  case (Op_handshake err data ep session)
  then show "heights_inv s \<Longrightarrow> ?thesis"
    by (auto simp: handshake_callback_accepted Let_def heights_inv_handshake split: option.splits)
next
  case (Op_message msg ep)
  then show "heights_inv s \<Longrightarrow> ?thesis"
    using heights_inv_cong [of "updateGroupInfoByEp ep gi s" s for gi]
    by (auto simp: service_msgHandler_cases split_def heights_inv_notified split: option.splits)
next
  case (Op_remove g)
  then show "heights_inv s \<Longrightarrow> ?thesis" by (simp add: heights_inv_def removeBlockNumberInfo_def)
qed (auto simp: heights_inv_def onDisconnect_def Let_def clearGroupInfoByEp_def registerBlockNumberNotifier_def
    registerWsHandshakeSucHandler_def setWsHandshakeTimeout_def)

section \<open>Runs of the service\<close>

definition service_inv :: "('h, 'n) service \<Rightarrow> bool" where
  "service_inv s \<longleftrightarrow> routing_inv s \<and> heights_inv s"

definition run :: "jsoncpp \<Rightarrow> ('h, 'n) service_op list \<Rightarrow> ('h, 'n) service" where
  "run J ops = fold (service_exec J) ops new_service"

lemma new_service_inv: "service_inv new_service" "directory_of new_service = (\<lambda>_ _. {})"
  "heights_of new_service = (\<lambda>_. None)"
  by (auto simp: service_inv_def routing_inv_def heights_inv_def new_service_def directory_of_def info_def
      endpoints_def infos_ok_def heights_of_def fun_eq_iff)

interpretation dir: refinement_system "service_exec J" "directory_spec J" directory_of service_inv for J
  by unfold_locales
    (simp_all add: service_inv_def service_exec_directory service_exec_heights_inv)

interpretation hgt: refinement_system "service_exec J" "heights_spec J" heights_of service_inv for J
  by unfold_locales
    (simp_all add: service_inv_def service_exec_directory service_exec_heights_inv service_exec_heights)

lemma run_inv: "service_inv (run J ops)"
  unfolding run_def by (rule dir.fold_inv) (rule new_service_inv)

lemma run_directory: "directory_of (run J ops) = fold (directory_spec J) ops (\<lambda>_ _. {})"
  unfolding run_def by (simp add: dir.fold_abs [OF new_service_inv(1)] new_service_inv(2))

lemma run_heights: "heights_of (run J ops) = fold (heights_spec J) ops (\<lambda>_. None)"
  unfolding run_def by (simp add: hgt.fold_abs [OF new_service_inv(1)] new_service_inv(3))

lemma run_snoc: "run J (ops @ [op]) = service_exec J op (run J ops)" "run J [] = new_service"
  by (simp_all add: run_def)

section \<open>Queries\<close>

lemma getEndPointsByGroupAndNode_endpoints:
  "fst (getEndPointsByGroupAndNode g n s []) = endpoints (m_group2Node2Endpoints s) g n"
  by (simp add: getEndPointsByGroupAndNode_def endpoints_def find_or_def split: option.splits)

lemma fold_insert_all:
  "std_set acc \<Longrightarrow> std_set (fold (\<lambda>(n, es). insert_all es) ns acc) \<and>
     set (fold (\<lambda>(n, es). insert_all es) ns acc) = set acc \<union> (\<Union>(n, es) \<in> set ns. set es)"
proof (induction ns arbitrary: acc)
  case (Cons a ns)
  then show ?case using insert_all_std [OF Cons.prems, of "snd a"] by (auto simp: case_prod_unfold)
qed simp

lemma getEndPointsByGroup_endpoints:
  assumes "table_ok (m_group2Node2Endpoints s)"
  shows "set (fst (getEndPointsByGroup g s [])) = (\<Union>n. set (endpoints (m_group2Node2Endpoints s) g n))"
proof (cases "umap_find g (m_group2Node2Endpoints s)")
  case (Some ns)
  then have ok: "umap_ok ns" using table_ok_find [OF assms] by (simp add: nodes_ok_def)
  have "x \<in> (\<Union>(n, es) \<in> set ns. set es) \<longleftrightarrow> (\<exists>n es. umap_find n ns = Some es \<and> x \<in> set es)" for x
    using umap_find_mem [OF ok] by auto
  moreover have "x \<in> set (find_or n [] ns) \<longleftrightarrow> (\<exists>es. umap_find n ns = Some es \<and> x \<in> set es)" for x n
    by (cases "umap_find n ns") (simp_all add: find_or_def)
  ultimately have "(\<Union>(n, es) \<in> set ns. set es) = (\<Union>n. set (find_or n [] ns))" by (simp add: set_eq_iff)
  then show ?thesis using Some fold_insert_all [of "[]" ns] by (simp add: getEndPointsByGroup_def endpoints_def find_or_Some)
qed (simp add: getEndPointsByGroup_def endpoints_def find_or_None)

lemma hasEndPoint_endpoints:
  assumes "table_ok (m_group2Node2Endpoints s)"
  shows "hasEndPointOfNodeAvailable g n s \<longleftrightarrow> endpoints (m_group2Node2Endpoints s) g n \<noteq> []"
  using nodes_ok_find [OF table_ok_find [OF assms]]
  by (auto simp: hasEndPointOfNodeAvailable_def endpoints_def find_or_def split: option.splits)

lemma getHighest_latest:
  "set (fst (getHighestBlockNumberNodes g s [])) = {n \<in> set (latest s g). hasEndPointOfNodeAvailable g n s}"
  using insert_all_std [of "[]"]
  by (auto simp: getHighestBlockNumberNodes_def latest_def find_or_def Let_def split: option.splits)

lemma service_inv_table: "service_inv s \<Longrightarrow> table_ok (m_group2Node2Endpoints s)"
  by (simp add: service_inv_def routing_inv_def)

lemma service_inv_latest: "service_inv s \<Longrightarrow> std_set (latest s g)"
  by (auto simp: service_inv_def heights_inv_def latest_def find_or_def split: option.splits)

section \<open>Nodes at the greatest height\<close>

fun op_report :: "jsoncpp \<Rightarrow> ('h, 'n) service_op \<Rightarrow> (string \<times> string \<times> int) option" where
  "op_report J (Op_message msg ep) = reported_block J msg"
| "op_report J _ = None"

text \<open>
  \<open>only_notified g\<close> holds of an operation that changes the height of \<open>g\<close> by a notification,
  if at all: not by the numbers of a handshake and not by removal.
\<close>

fun only_notified :: "jsoncpp \<Rightarrow> string \<Rightarrow> ('h, 'n) service_op \<Rightarrow> bool" where
  "only_notified J g (Op_handshake err data ep session) \<longleftrightarrow>
     (case accepted J err data of None \<Rightarrow> True | Some r \<Rightarrow> map_of (m_groupBlockNumber r) g = None)"
| "only_notified J g (Op_remove g') \<longleftrightarrow> g' \<noteq> g"
| "only_notified J g _ \<longleftrightarrow> True"

definition reports :: "jsoncpp \<Rightarrow> ('h, 'n) service_op list \<Rightarrow> (string \<times> string \<times> int) set" where
  "reports J ops = {r. \<exists>op \<in> set ops. op_report J op = Some r}"

lemma reports_snoc: "reports J (ops @ [op]) = reports J ops \<union> set_option (op_report J op)"
  by (auto simp: reports_def)

lemma raise_other: "map_of gs g = None \<Longrightarrow> fold (\<lambda>(g, n). raise g n) gs h g = h g"
  by (induction gs arbitrary: h) (auto simp: raise_def split: if_splits)

lemma reported_not_announced: "reported_block J msg = Some r \<Longrightarrow> announced_group J msg = None"
  by (auto simp: reported_block_def announced_group_def BLOCK_NOTIFY_def GROUP_NOTIFY_def split: if_splits)

lemma latest_cong:
  "m_group2LatestBlockNumberNodes s' = m_group2LatestBlockNumberNodes s \<Longrightarrow> latest s' g = latest s g"
  by (simp add: latest_def)

lemma latest_handshake: "latest (apply_handshake ep r s) g = latest s g"
  by (rule latest_cong) (simp add: apply_handshake_def Let_def increaseHandshakeSucCount_def)

text \<open>An operation without a report leaves the height and the nodes of the group alone.\<close>

lemma silent_op:
  assumes "only_notified J g op" and "op_report J op = None"
  shows "heights_of (service_exec J op s) g = heights_of s g \<and> latest (service_exec J op s) g = latest s g"
proof (cases op)
  case (Op_handshake err data ep session)
  then show ?thesis using assms
    by (auto simp: handshake_callback_accepted Let_def heights_of_handshake latest_handshake raise_other split: option.splits)
next
  case (Op_message msg ep)
  have "latest (updateGroupInfoByEp ep gi s) g = latest s g" for gi by (rule latest_cong) simp
  then show ?thesis using assms Op_message by (auto simp: service_msgHandler_cases split: option.splits)
qed (use assms in \<open>auto simp: heights_of_def latest_def onDisconnect_def Let_def clearGroupInfoByEp_def
    registerBlockNumberNotifier_def removeBlockNumberInfo_def registerWsHandshakeSucHandler_def setWsHandshakeTimeout_def\<close>)

lemma run_latest:
  assumes "list_all (only_notified J g) ops"
  shows "set (latest (run J ops) g) = {node. \<exists>n. heights_of (run J ops) g = Some n \<and> (g, node, n) \<in> reports J ops} \<and>
    (\<forall>node n. (g, node, n) \<in> reports J ops \<longrightarrow> (\<exists>m. heights_of (run J ops) g = Some m \<and> n \<le> m))"
  using assms
proof (induction ops rule: rev_induct)
  case (snoc op ops)
  let ?s = "run J ops"
  have IH: "set (latest ?s g) = {node. \<exists>n. heights_of ?s g = Some n \<and> (g, node, n) \<in> reports J ops}"
    "\<forall>node n. (g, node, n) \<in> reports J ops \<longrightarrow> (\<exists>m. heights_of ?s g = Some m \<and> n \<le> m)"
    using snoc by simp_all
  show ?case
  proof (cases "op_report J op")
    case None
    then show ?thesis
      using silent_op [of J g op ?s] snoc.prems IH by (simp add: run_snoc reports_snoc)
  next
    case (Some r)
    then obtain msg ep g' node n where op: "op = Op_message msg ep" "reported_block J msg = Some (g', node, n)"
      "r = (g', node, n)" by (cases op; cases r) auto
    then have s: "run J (ops @ [op]) = fst (block_notified g' node n ?s)"
      using reported_not_announced [OF op(2)] by (simp add: run_snoc service_msgHandler_cases split_def)
    have R: "reports J (ops @ [op]) = insert (g', node, n) (reports J ops)" using Some op by (simp add: reports_snoc)
    have set: "set (fst (set_insert node (latest ?s g))) = insert node (set (latest ?s g))"
      using set_insert_std [OF service_inv_latest [OF run_inv]] by blast
    show ?thesis
    proof (cases "g' = g")
      case False
      then show ?thesis using IH by (simp add: s R latest_notified heights_of_notified raise_def)
    next
      case True
      show ?thesis
      proof (cases "heights_of ?s g")
        case None
        then show ?thesis using IH True by (auto simp: s R latest_notified heights_of_notified raise_def)
      next
        case (Some m)
        consider "m < n" | "m = n" | "n < m" by linarith
        then show ?thesis
          by cases (use IH True Some set in \<open>fastforce simp: s R latest_notified heights_of_notified raise_def max_def\<close>)+
      qed
    qed
  qed
qed (simp add: run_snoc new_service_def latest_def reports_def)

end
