(* ===== verification/ServiceRace.thy ===== *)
theory ServiceRace
  imports ServiceProps
begin

text \<open>
  The service under concurrency. Its handlers run in threads of the websocket library and take the
  locks of the service once for each section; between two sections other threads run. A thread is the
  list of the sections it still has to run, with the local variables they need.
\<close>

section \<open>Threads and their sections\<close>

text \<open>
  \<open>Notify1\<close> to \<open>Notify3\<close> are the sections of \<open>onRecvBlockNotifier\<close>, \<open>Announce1\<close> to \<open>Announce3\<close> those of
  \<open>updateGroupInfoByEp\<close>, \<open>Disconnect1\<close> is \<open>clearGroupInfoByEp\<close>, and \<open>Height1\<close> is \<open>updateGroupBlockNumber\<close> in
  the handler of a handshake. A thread is the list of the sections it still has to run; a section may add others.
\<close>

datatype service_section =
    Notify1 string string int
  | Notify2 string string int bool bool
  | Notify3 string int bool
  | Announce1 string group_info
  | Announce2 string group_info
  | Announce3 string group_info
  | Disconnect1 string
  | Height1 string int

record ('h, 'n) world =
  svc :: "('h, 'n) service"
  threads :: "service_section list list"
  effects :: "('h, 'n) service_effect list"

fun section_run :: "service_section \<Rightarrow> ('h, 'n) service \<Rightarrow>
    ('h, 'n) service \<times> service_section list \<times> ('h, 'n) service_effect list" where
  "section_run (Notify1 g node n) s =
     (case updateGroupBlockNumber g n s of (s', isNew, isHighest) \<Rightarrow> (s', [Notify2 g node n isNew isHighest], []))"
| "section_run (Notify2 g node n isNew isHighest) s = (update_nodes g node isNew isHighest s, [Notify3 g n isNew], [])"
| "section_run (Notify3 g n isNew) s = (s, [], run_callbacks g n isNew s)"
| "section_run (Announce1 ep gi) s = (updateGroupInfo ep gi s, [Announce2 ep gi], [])"
| "section_run (Announce2 ep gi) s = (clearGroupInfoByEp_group ep (m_groupID gi) s, [Announce3 ep gi], [])"
| "section_run (Announce3 ep gi) s = (insert_group_nodes ep gi s, [], [])"
| "section_run (Disconnect1 ep) s = (clearGroupInfoByEp ep s, [], [])"
| "section_run (Height1 g n) s = (fst (updateGroupBlockNumber g n s), [], [])"

text \<open>\<open>advance i\<close> lets the thread at position \<open>i\<close> run its next section.\<close>

definition advance :: "nat \<Rightarrow> ('h, 'n) world \<Rightarrow> ('h, 'n) world" where
  "advance i w =
     (if i < length (threads w) then
        case threads w ! i of
          [] \<Rightarrow> w
        | sec # rest \<Rightarrow>
            (case section_run sec (svc w) of (s, secs, es) \<Rightarrow>
               \<lparr>svc = s, threads = (threads w)[i := secs @ rest], effects = effects w @ es\<rparr>)
      else w)"

text \<open>The threads: a block notification, an announced group, a disconnection and a handshake.\<close>

inductive initial_thread :: "service_section list \<Rightarrow> bool" where
  on_block: "initial_thread [Notify1 g node n]"
| on_group: "initial_thread [Announce1 ep gi]"
| on_disconnect: "initial_thread [Disconnect1 ep]"
| on_handshake: "initial_thread (map (Announce1 ep) gis @ map (\<lambda>(g, n). Height1 g n) bs)"

definition spawn :: "service_section list \<Rightarrow> ('h, 'n) world \<Rightarrow> ('h, 'n) world" where
  "spawn t w = w \<lparr>threads := threads w @ [t]\<rparr>"

inductive world_step :: "('h, 'n) world \<Rightarrow> ('h, 'n) world \<Rightarrow> bool" where
  arrive: "initial_thread t \<Longrightarrow> world_step w (spawn t w)"
| work: "i < length (threads w) \<Longrightarrow> world_step w (advance i w)"
| register: "world_step w (w \<lparr>svc := registerBlockNumberNotifier g cb (svc w)\<rparr>)"

inductive_cases world_stepE: "world_step w w'"

definition new_world :: "('h, 'n) world" where
  "new_world = \<lparr>svc = new_service, threads = [], effects = []\<rparr>"

text \<open>One thread alone runs its sections as the sequential operation does.\<close>

lemma sections_sequential:
  "(advance 0 ^^ 3) \<lparr>svc = s, threads = [[Announce1 ep gi]], effects = []\<rparr> =
     \<lparr>svc = updateGroupInfoByEp ep gi s, threads = [[]], effects = []\<rparr>"
  "svc ((advance 0 ^^ 3) \<lparr>svc = s, threads = [[Notify1 g node n]], effects = []\<rparr>) =
     fst (block_notified g node n s)"
  "effects ((advance 0 ^^ 3) \<lparr>svc = s, threads = [[Notify1 g node n]], effects = []\<rparr>) =
     snd (block_notified g node n s)"
  by (simp_all add: advance_def numeral_3_eq_3 updateGroupInfoByEp_def block_notified_def Let_def split: prod.splits)

section \<open>Each height is notified once\<close>

text \<open>The heights that a thread has found to be new and will run the callbacks for.\<close>

fun tokens :: "service_section \<Rightarrow> (string \<times> int) list" where
  "tokens (Notify2 g node n isNew isHighest) = (if isNew then [(g, n)] else [])"
| "tokens (Notify3 g n isNew) = (if isNew then [(g, n)] else [])"
| "tokens _ = []"

definition claimed :: "('h, 'n) world \<Rightarrow> (string \<times> int) list" where
  "claimed w = concat (map tokens (concat (threads w)))"

definition callbacks_of :: "string \<Rightarrow> ('h, 'n) service \<Rightarrow> 'n list" where
  "callbacks_of g s = find_or g [] (m_group2callbacks s)"

definition reached :: "string \<Rightarrow> int \<Rightarrow> ('h, 'n) service \<Rightarrow> bool" where
  "reached g n s \<longleftrightarrow> (\<exists>m. heights_of s g = Some m \<and> n \<le> m)"

definition notified_inv :: "('h, 'n) world \<Rightarrow> bool" where
  "notified_inv w \<longleftrightarrow> distinct (claimed w) \<and> (\<forall>(g, n) \<in> set (claimed w). reached g n (svc w)) \<and>
     (\<forall>cb g n. count_list (effects w) (Notify_block cb g n) \<le> count_list (callbacks_of g (svc w)) cb) \<and>
     (\<forall>cb g n. Notify_block cb g n \<in> set (effects w) \<longrightarrow> (g, n) \<notin> set (claimed w) \<and> reached g n (svc w))"

lemma count_notify:
  "count_list (map (\<lambda>cb. Notify_block cb g n) cbs) (Notify_block cb g' n') =
     (if g' = g \<and> n' = n then count_list cbs cb else 0)"
  by (induction cbs) auto

text \<open>
  What a section does: the callbacks of a height found to be new are run and its claim ends; or a height is raised,
  and claimed if it is new to the service; or neither heights, claims nor callbacks change.
\<close>

lemma section_run_claims:
  assumes "section_run t s = (s', secs, es)"
  obtains (quiet) "concat (map tokens secs) = tokens t" "heights_of s' = heights_of s" "es = []"
      "m_group2callbacks s' = m_group2callbacks s"
  | (fire) g n where "tokens t = [(g, n)]" "concat (map tokens secs) = []" "s' = s"
      "es = map (\<lambda>cb. Notify_block cb g n) (callbacks_of g s)"
  | (height) g n where "tokens t = []" "heights_of s' = raise g n (heights_of s)" "es = []"
      "m_group2callbacks s' = m_group2callbacks s"
      "concat (map tokens secs) = [] \<or> concat (map tokens secs) = [(g, n)] \<and> \<not> reached g n s"
proof (cases t)
  case (Notify1 g node n)
  obtain s1 isNew isHighest where u: "updateGroupBlockNumber g n s = (s1, isNew, isHighest)"
    by (cases "updateGroupBlockNumber g n s")
  have "m_group2callbacks s1 = m_group2callbacks s" using updateGroupBlockNumber_tables(4) [of g n s] by (metis u fst_conv)
  then show ?thesis
    using assms Notify1 u heights_of_update [of g n s] updateGroupBlockNumber_flags [of g n s] height [of g n]
    by (auto simp: reached_def split: option.splits)
next
  case (Height1 g n)
  then show ?thesis
    using assms heights_of_update [of g n s] updateGroupBlockNumber_tables(4) [of g n s] height [of g n] by auto
next
  case (Notify3 g n isNew)
  then show ?thesis
    using assms fire [of g n] quiet by (cases isNew) (auto simp: run_callbacks_def callbacks_of_def)
qed (use assms quiet in \<open>auto simp: heights_of_def fun_eq_iff updateGroupInfo_def clearGroupInfoByEp_group_def
    insert_group_nodes_def clearGroupInfoByEp_def update_nodes_def Let_def split: prod.splits option.splits\<close>)

lemma claimed_advance:
  assumes "i < length (threads w)" and "threads w ! i = sec # rest" and "section_run sec (svc w) = (s', secs, es)"
  shows "mset (claimed (advance i w)) + mset (tokens sec) = mset (claimed w) + mset (concat (map tokens secs))"
proof -
  let ?a = "take i (threads w)" and ?b = "drop (Suc i) (threads w)"
  have "threads w = ?a @ (sec # rest) # ?b" using id_take_nth_drop [OF assms(1)] assms(2) by simp
  then have "claimed w = concat (map tokens (concat (?a @ (sec # rest) # ?b)))" by (simp only: claimed_def)
  moreover have "claimed (advance i w) = concat (map tokens (concat (?a @ (secs @ rest) # ?b)))"
    using assms by (simp add: claimed_def advance_def upd_conv_take_nth_drop)
  ultimately show ?thesis by (simp add: ac_simps)
qed

lemma raise_reached: "heights_of s' = raise g n (heights_of s) \<Longrightarrow> reached g' n' s \<Longrightarrow> reached g' n' s'"
  by (auto simp: reached_def raise_def split: option.splits)

lemma raise_reaches: "heights_of s' = raise g n (heights_of s) \<Longrightarrow> reached g n s'"
  by (auto simp: reached_def raise_def split: option.splits)

lemma notified_inv_advance:
  assumes inv: "notified_inv w" and i: "i < length (threads w)"
  shows "notified_inv (advance i w)"
proof (cases "threads w ! i")
  case Nil
  then show ?thesis using inv i by (simp add: advance_def)
next
  case (Cons sec rest)
  obtain s' secs es where r: "section_run sec (svc w) = (s', secs, es)" by (cases "section_run sec (svc w)")
  have w: "svc (advance i w) = s'" "effects (advance i w) = effects w @ es" using r i Cons by (simp_all add: advance_def)
  note C = claimed_advance [OF i Cons r]
  note d = inv [unfolded notified_inv_def]
  from r show ?thesis
  proof (cases rule: section_run_claims)
    case quiet
    then have M: "mset (claimed (advance i w)) = mset (claimed w)" using C by simp
    show ?thesis using d quiet mset_eq_imp_distinct_iff [OF M] mset_eq_setD [OF M]
      by (simp add: notified_inv_def w reached_def callbacks_of_def)
  next
    case (fire g n)
    then have M: "mset (claimed w) = mset ((g, n) # claimed (advance i w))" using C by simp
    note e = mset_eq_imp_distinct_iff [OF M] mset_eq_setD [OF M]
    have z: "Notify_block cb g n \<notin> set (effects w)" for cb using d e(2) by fastforce
    then have "count_list (effects w) (Notify_block cb g n) = 0" for cb by (simp add: count_list_0_iff)
    then have "count_list (effects (advance i w)) (Notify_block cb g' n') \<le> count_list (callbacks_of g' s') cb" for cb g' n'
      using d fire(3,4) by (cases "g' = g \<and> n' = n") (auto simp: w count_notify)
    moreover have "(g', n') \<notin> set (claimed (advance i w)) \<and> reached g' n' s'"
      if "Notify_block cb g' n' \<in> set (effects (advance i w))" for cb g' n'
      using that d e fire(3,4) by (auto simp: w)
    moreover have "distinct (claimed (advance i w))" "\<forall>(g, n) \<in> set (claimed (advance i w)). reached g n s'"
      using d e fire(3) by auto
    ultimately show ?thesis by (simp add: notified_inv_def w)
  next
    case (height g n)
    obtain ns where ns: "concat (map tokens secs) = ns" "ns = [] \<or> ns = [(g, n)] \<and> \<not> reached g n (svc w)"
      using height(5) by blast
    have M: "mset (claimed (advance i w)) = mset (ns @ claimed w)" using C height(1) ns(1) by simp
    note e = mset_eq_imp_distinct_iff [OF M] mset_eq_setD [OF M]
    have fresh: "(g, n) \<notin> set (claimed w)" "Notify_block cb g n \<notin> set (effects w)" if "\<not> reached g n (svc w)" for cb
      using d that by auto
    have "distinct (claimed (advance i w))" using d e ns(2) fresh(1) by auto
    moreover have "\<forall>(g', n') \<in> set (claimed (advance i w)). reached g' n' s'"
      using d e ns(2) raise_reached [OF height(2)] raise_reaches [OF height(2)] by auto
    moreover have "(g', n') \<notin> set (claimed (advance i w)) \<and> reached g' n' s'"
      if "Notify_block cb g' n' \<in> set (effects (advance i w))" for cb g' n'
      using that d e height(3) ns(2) fresh(2) [of cb] raise_reached [OF height(2)] by (auto simp: w)
    ultimately show ?thesis using d height(3,4) by (simp add: notified_inv_def w callbacks_of_def)
  qed
qed

lemma initial_thread_tokens: "initial_thread t \<Longrightarrow> concat (map tokens t) = []"
  by (induction rule: initial_thread.induct) auto

lemma claimed_spawn: "initial_thread t \<Longrightarrow> claimed (spawn t w) = claimed w"
  using initial_thread_tokens [of t] by (simp add: claimed_def spawn_def del: concat_eq_Nil_conv)

lemma register_callbacks:
  "callbacks_of g' (registerBlockNumberNotifier g cb s) = callbacks_of g' s @ (if g' = g then [cb] else [])"
  by (auto simp: callbacks_of_def registerBlockNumberNotifier_def find_or_def umap_find_set split: option.splits)

lemma notified_inv_step: "world_step w w' \<Longrightarrow> notified_inv w \<Longrightarrow> notified_inv w'"
proof (erule world_stepE)
  fix t assume "w' = spawn t w" "initial_thread t" "notified_inv w"
  then show ?thesis using claimed_spawn [of t w] by (simp add: notified_inv_def) (simp add: spawn_def)
next
  fix i assume "w' = advance i w" "i < length (threads w)" "notified_inv w"
  then show ?thesis by (simp add: notified_inv_advance)
next
  fix g cb assume "w' = w \<lparr>svc := registerBlockNumberNotifier g cb (svc w)\<rparr>" "notified_inv w"
  moreover have "heights_of (registerBlockNumberNotifier g cb (svc w)) = heights_of (svc w)"
    by (simp add: heights_of_def fun_eq_iff registerBlockNumberNotifier_def)
  ultimately show ?thesis
    by (auto simp: notified_inv_def claimed_def reached_def register_callbacks intro: le_SucI)
qed

interpretation notified: invariant_system world_step new_world notified_inv
proof unfold_locales
  show "notified_inv new_world" by (simp add: notified_inv_def claimed_def new_world_def)
qed (rule notified_inv_step)

text \<open>Claim C30. In every interleaving of notifications, announcements, handshakes, disconnections and
  registrations a callback is called for a height of a group at most as often as it is registered for the group, so at
  most once when it is registered once, and the height of the group is then at least that height. (The removal of a
  group's heights, which the SDK never calls, is not among the steps: \<open>removal_race\<close>.)\<close>
theorem notified_once:
  assumes "world_step\<^sup>*\<^sup>* new_world w"
  shows "count_list (effects w) (Notify_block cb g n) \<le> count_list (find_or g [] (m_group2callbacks (svc w))) cb \<and>
    (Notify_block cb g n \<in> set (effects w) \<longrightarrow> (\<exists>m. getBlockNumber g (svc w) = Some m \<and> n \<le> m))"
  using notified.inv_reachable [OF assms]
  by (simp add: notified_inv_def callbacks_of_def reached_def getBlockNumber_def heights_of_def)

fun schedule_ok :: "nat list \<Rightarrow> ('h, 'n) world \<Rightarrow> bool" where
  "schedule_ok [] w \<longleftrightarrow> True"
| "schedule_ok (i # is) w \<longleftrightarrow> i < length (threads w) \<and> schedule_ok is (advance i w)"

lemma advance_steps: "schedule_ok is w \<Longrightarrow> world_step\<^sup>*\<^sup>* w (fold advance is w)"
  by (induction "is" w rule: schedule_ok.induct)
    (auto intro: converse_rtranclp_into_rtranclp world_step.work)

text \<open>Two nodes report the same height in turns to a service with one callback.\<close>

definition two_reports :: "(nat, nat) world" where
  "two_reports = fold advance [0, 1, 0, 1, 1, 0] (spawn [Notify1 ''g'' ''b'' 5] (spawn [Notify1 ''g'' ''a'' 5]
     (new_world \<lparr>svc := registerBlockNumberNotifier ''g'' 7 (svc new_world)\<rparr>)))"

lemma two_reports_reachable: "world_step\<^sup>*\<^sup>* new_world two_reports"
proof -
  let ?u = "new_world \<lparr>svc := registerBlockNumberNotifier ''g'' 7 (svc new_world)\<rparr> :: (nat, nat) world"
  let ?v = "spawn [Notify1 ''g'' ''a'' 5] ?u"
  let ?w = "spawn [Notify1 ''g'' ''b'' 5] ?v"
  have "world_step new_world ?u" "world_step ?u ?v" "world_step ?v ?w"
    by (simp_all add: world_step.register world_step.arrive initial_thread.intros)
  moreover have "world_step\<^sup>*\<^sup>* ?w two_reports" unfolding two_reports_def
    by (rule advance_steps) (simp add: spawn_def new_world_def advance_def updateGroupBlockNumber_def new_service_def
        registerBlockNumberNotifier_def)
  ultimately show ?thesis by (meson converse_rtranclp_into_rtranclp)
qed

theorem notified_once_witness:
  "count_list (effects two_reports) (Notify_block 7 ''g'' 5) \<le> 1 \<and> effects two_reports = [Notify_block 7 ''g'' 5]"
proof -
  have "count_list (find_or ''g'' [] (m_group2callbacks (svc two_reports))) 7 = 1"
    and e: "effects two_reports = [Notify_block 7 ''g'' 5]"
    by (simp_all add: two_reports_def spawn_def new_world_def advance_def updateGroupBlockNumber_def new_service_def
        registerBlockNumberNotifier_def update_nodes_def run_callbacks_def umap_set_def umap_find_def find_or_def)
  then show ?thesis using notified_once [OF two_reports_reachable, of 7 "''g''" 5] by simp
qed

section \<open>Interleavings that go wrong\<close>

text \<open>Two notifications of one group, of \<open>n\<close> by one node and of \<open>n + 1\<close> by another, can interleave such that
  a callback is called for \<open>n + 1\<close> before it is called for \<open>n\<close>, and at the end the height is \<open>n + 1\<close> while the node
  that reported \<open>n\<close> is the only one listed as having the highest block.\<close>
lemma notifier_race:
  "let s = registerBlockNumberNotifier g cb (new_service :: ('h, 'n) service);
       w = fold advance [0, 1, 1, 1, 0, 0]
             (spawn [Notify1 g b (n + 1)] (spawn [Notify1 g a n] (new_world \<lparr>svc := s\<rparr>)))
   in world_step\<^sup>*\<^sup>* new_world w \<and> concat (threads w) = [] \<and>
      effects w = [Notify_block cb g (n + 1), Notify_block cb g n] \<and>
      getBlockNumber g (svc w) = Some (n + 1) \<and> latest (svc w) g = [a]"
proof -
  let ?u = "new_world \<lparr>svc := registerBlockNumberNotifier g cb (new_service :: ('h, 'n) service)\<rparr>"
  let ?v = "spawn [Notify1 g a n] ?u"
  let ?w = "spawn [Notify1 g b (n + 1)] ?v"
  have "world_step new_world ?u" using world_step.register [of new_world g cb] by (simp add: new_world_def)
  moreover have "world_step ?u ?v" "world_step ?v ?w"
    by (simp_all add: world_step.arrive initial_thread.intros)
  moreover have "world_step\<^sup>*\<^sup>* ?w (fold advance [0, 1, 1, 1, 0, 0] ?w)"
    by (rule advance_steps) (simp add: spawn_def new_world_def advance_def updateGroupBlockNumber_def new_service_def
        registerBlockNumberNotifier_def)
  ultimately have "world_step\<^sup>*\<^sup>* new_world (fold advance [0, 1, 1, 1, 0, 0] ?w)"
    by (meson converse_rtranclp_into_rtranclp)
  then show ?thesis
    by (simp add: Let_def)
      (simp add: spawn_def new_world_def advance_def updateGroupBlockNumber_def new_service_def update_nodes_def
        latest_def getBlockNumber_def set_insert_def registerBlockNumberNotifier_def run_callbacks_def find_or_def)
qed

text \<open>Were the heights of a group removed between two reports of a height, a callback that is registered once
  would be called twice for it.\<close>
lemma removal_race:
  "let on = \<lambda>f w. w \<lparr>svc := f (svc w)\<rparr>;
       w = fold advance [0, 0, 1, 1] (on (registerBlockNumberNotifier g cb) (advance 1 (spawn [Notify1 g b n]
             (on (removeBlockNumberInfo g) (advance 0 (spawn [Notify1 g a n] (new_world :: ('h, 'n) world)))))))
   in effects w = [Notify_block cb g n, Notify_block cb g n]"
proof -
  let ?s = "(new_service :: ('h, 'n) service) \<lparr>m_group2BlockNumber := [(g, n)]\<rparr>"
  note d = new_service_def umap_set_def umap_find_def
  have u: "updateGroupBlockNumber g n new_service = (?s, True, True)" by (simp add: updateGroupBlockNumber_def d)
  have r: "removeBlockNumberInfo g ?s = new_service" by (simp add: removeBlockNumberInfo_def umap_erase_def d)
  let ?w1 = "\<lparr>svc = ?s, threads = [[Notify2 g a n True True]], effects = []\<rparr>"
  let ?w2 = "\<lparr>svc = ?s, threads = [[Notify2 g a n True True], [Notify2 g b n True True]], effects = []\<rparr>"
  let ?c = "registerBlockNumberNotifier g cb ?s"
  have w1: "advance 0 (spawn [Notify1 g a n] new_world) = ?w1" by (simp add: spawn_def new_world_def advance_def u)
  have w2: "advance 1 (spawn [Notify1 g b n] (?w1 \<lparr>svc := new_service\<rparr>)) = ?w2"
    by (simp add: spawn_def advance_def u)
  have "find_or g [] (m_group2callbacks ?c) = [cb]" by (simp add: registerBlockNumberNotifier_def find_or_def d)
  then have "effects (fold advance [0, 0, 1, 1] (?w2 \<lparr>svc := ?c\<rparr>)) = [Notify_block cb g n, Notify_block cb g n]"
    by (simp add: advance_def run_callbacks_def)
  then show ?thesis using w1 w2 r by (simp add: Let_def)
qed

text \<open>When an end point disconnects while its announcement of a group is between its second and third
  section, the end point stays in the directory for all nodes of the group, although it has no description of the
  group any more: requests are still sent to it.\<close>
lemma disconnect_race:
  "let w = fold advance [0, 0, 1, 0]
             (spawn [Disconnect1 ep] (spawn [Announce1 ep gi] (new_world :: ('h, 'n) world)))
   in world_step\<^sup>*\<^sup>* new_world w \<and> concat (threads w) = [] \<and> info (svc w) ep (m_groupID gi) = None \<and>
      directory_of (svc w) ep (m_groupID gi) = fst ` set (m_nodeInfos gi)"
proof -
  let ?v = "spawn [Announce1 ep gi] (new_world :: ('h, 'n) world)"
  let ?w = "spawn [Disconnect1 ep] ?v"
  have "world_step new_world ?v" "world_step ?v ?w"
    by (simp_all add: world_step.arrive initial_thread.intros)
  moreover have "world_step\<^sup>*\<^sup>* ?w (fold advance [0, 0, 1, 0] ?w)"
    by (rule advance_steps) (simp add: spawn_def new_world_def advance_def updateGroupBlockNumber_def new_service_def)
  ultimately have reach: "world_step\<^sup>*\<^sup>* new_world (fold advance [0, 0, 1, 0] ?w)"
    by (meson converse_rtranclp_into_rtranclp)
  let ?s = "insert_group_nodes ep gi (clearGroupInfoByEp ep
    (clearGroupInfoByEp_group ep (m_groupID gi) (updateGroupInfo ep gi (new_service :: ('h, 'n) service))))"
  have w: "svc (fold advance [0, 0, 1, 0] ?w) = ?s" "concat (threads (fold advance [0, 0, 1, 0] ?w)) = []"
    by (simp_all add: spawn_def new_world_def advance_def)
  have "set (endpoints (add_nodes ep (m_groupID gi) (map fst (m_nodeInfos gi)) []) (m_groupID gi) n) =
      (if n \<in> fst ` set (m_nodeInfos gi) then {ep} else {})" for n
    by (simp add: endpoints_def add_nodes_def add_nodes_find_or)
  then have "directory_of ?s ep (m_groupID gi) = fst ` set (m_nodeInfos gi)" "info ?s ep (m_groupID gi) = None"
    by (simp_all add: directory_of_def info_def insert_group_nodes_def clearGroupInfoByEp_def
        clearGroupInfoByEp_group_def updateGroupInfo_def new_service_def clear_group_def)
  then show ?thesis using reach w by (simp add: Let_def)
qed

end
