(* ===== verification/ServiceTheorems.thy ===== *)
theory ServiceTheorems
  imports ServiceRace
begin

text \<open>
  The properties of the websocket service and of the descriptions it exchanges with the nodes.
\<close>

section \<open>Examples\<close>

definition example_announcement :: ws_message where
  "example_announcement = \<lparr>seq = [], packetType = GROUP_NOTIFY, payload = bytes_of_string (json_write jsoncpp0
     (case group_serialize example_group of Inr j \<Rightarrow> j | Inl _ \<Rightarrow> JNull))\<rparr>"

lemma example_announced: "announced_group jsoncpp0 example_announcement = Some (carried_group example_group)"
proof -
  obtain j where "group_serialize example_group = Inr j"
    "group_deserialize jsoncpp0 (json_write jsoncpp0 j) = Inr (carried_group example_group)"
    using group_codec_carried [OF jsoncpp0_ok jsoncpp0_text_ok example_group_ok] by metis
  then show ?thesis by (simp add: announced_group_def example_announcement_def)
qed

lemma example_directory:
  "directory_spec jsoncpp0 (Op_message example_announcement ''ep'') d ''ep'' ''group0'' = {''n0''}"
  by (simp add: example_announced announce_def) (simp add: carried_group_def example_group_def createGroupInfo_of_def)

definition example_block :: "string \<Rightarrow> int \<Rightarrow> ws_message" where
  "example_block node n = \<lparr>seq = [], packetType = BLOCK_NOTIFY, payload = bytes_of_string (json_write jsoncpp0
     (jobject [(''group'', JString ''group0''), (''blockNumber'', JInt n), (''nodeName'', JString node)]))\<rparr>"

lemma example_reported: "int64_range n \<Longrightarrow> reported_block jsoncpp0 (example_block node n) = Some (''group0'', node, n)"
  by (simp add: reported_block_def example_block_def block_fromJson_def)

definition example_handshake :: bytes where
  "example_handshake = bytes_of_string (json_write jsoncpp0 (jobject [(''protocolVersion'', JInt 1),
     (''groupBlockNumber'', JArray [jobject [(''group0'', JInt 9)]])]))"

lemma example_accepted:
  "accepted jsoncpp0 None example_handshake =
     Some \<lparr>m_groupInfoList = [], m_groupBlockNumber = [(''group0'', 9)], m_protocolVersion = Some 1\<rparr>"
  by (simp add: accepted_def example_handshake_def response_decode_def array_member_def new_handshake_response_def
      int32_range_def int64_range_def umap_set_def umap_find_def jobject_def sort_key_def insort_key_def)

section \<open>Routing\<close>

lemma endpoints_directory: "e \<in> set (endpoints (m_group2Node2Endpoints s) g n) \<longleftrightarrow> n \<in> directory_of s e g"
  by (simp add: directory_of_def)

text \<open>Claim C10. After any sequence of operations of the service the end points found for a node of a group
  are exactly those whose last announcement of the group, since they last disconnected, lists the node; those found for a
  group are the ones that announced some node of it; and a node counts as available if some end point announced it.
  The specification \<open>directory_spec\<close> is a map from end points and groups to the announced nodes.\<close>
theorem service_routing:
  "(\<forall>e. e \<in> set (fst (getEndPointsByGroupAndNode g n (run J ops) [])) \<longleftrightarrow>
        n \<in> fold (directory_spec J) ops (\<lambda>_ _. {}) e g) \<and>
   (\<forall>e. e \<in> set (fst (getEndPointsByGroup g (run J ops) [])) \<longleftrightarrow>
        fold (directory_spec J) ops (\<lambda>_ _. {}) e g \<noteq> {}) \<and>
   (hasEndPointOfNodeAvailable g n (run J ops) \<longleftrightarrow> (\<exists>e. n \<in> fold (directory_spec J) ops (\<lambda>_ _. {}) e g))"
proof -
  note T = service_inv_table [OF run_inv [of J ops]]
  have "endpoints (m_group2Node2Endpoints (run J ops)) g n \<noteq> [] \<longleftrightarrow> (\<exists>e. n \<in> directory_of (run J ops) e g)"
    by (auto simp: endpoints_directory [symmetric] neq_Nil_conv) (metis list.set_intros(1) neq_Nil_conv empty_iff list.set(1))
  then show ?thesis
    by (auto simp: getEndPointsByGroupAndNode_endpoints getEndPointsByGroup_endpoints [OF T]
        hasEndPoint_endpoints [OF T] endpoints_directory run_directory)
qed

lemma shuffle_hd: "\<forall>xs. mset (shuffle xs) = mset xs \<Longrightarrow> eps \<noteq> [] \<Longrightarrow> first_after_shuffle shuffle eps \<in> set eps"
  unfolding first_after_shuffle_def by (metis hd_in_set mset_zero_iff set_mset_mset)

lemma sent_to_serving:
  assumes "\<forall>xs. mset (shuffle xs) = mset xs" and "g \<noteq> []"
  shows "let d = fold (directory_spec J) ops (\<lambda>_ _. {});
             serving = {e. if n = [] then d e g \<noteq> {} else n \<in> d e g};
             es = asyncSendMessageByGroupAndNode shuffle code sessions g n msg (run J ops)
         in (if serving = {} then \<exists>reason. es = [Respond_error code reason]
             else \<exists>e \<in> serving. es = [Send_endpoint e msg])"
proof (cases "n = []")
  case True
  let ?eps = "fst (getEndPointsByGroup g (run J ops) [])"
  have set: "set ?eps = {e. fold (directory_spec J) ops (\<lambda>_ _. {}) e g \<noteq> {}}"
    using getEndPointsByGroup_endpoints [OF service_inv_table [OF run_inv [of J ops]]]
    by (auto simp: endpoints_directory run_directory)
  show ?thesis
  proof (cases "?eps = []")
    case False
    then show ?thesis using shuffle_hd [OF assms(1) False] set assms(2) True
      by (auto simp: asyncSendMessageByGroupAndNode_def Let_def)
  qed (use set assms(2) True in \<open>auto simp: asyncSendMessageByGroupAndNode_def Let_def\<close>)
next
  case n: False
  let ?eps = "fst (getEndPointsByGroupAndNode g n (run J ops) [])"
  have set: "set ?eps = {e. n \<in> fold (directory_spec J) ops (\<lambda>_ _. {}) e g}"
    by (auto simp: getEndPointsByGroupAndNode_endpoints endpoints_directory run_directory)
  show ?thesis
  proof (cases "?eps = []")
    case False
    then show ?thesis using shuffle_hd [OF assms(1) False] set assms(2) n
      by (auto simp: asyncSendMessageByGroupAndNode_def Let_def)
  qed (use set assms(2) n in \<open>auto simp: asyncSendMessageByGroupAndNode_def Let_def\<close>)
qed

text \<open>Claim C21. A request for a group, or for a node of a group, is sent over one connection whose end point announced
  the group, or the node of the group; it is answered by an error exactly when there is no such end point. The random
  choice is any permutation.\<close>
theorem service_send:
  assumes "\<forall>xs. mset (shuffle xs) = mset xs" and "g \<noteq> []"
  shows "let d = fold (directory_spec J) ops (\<lambda>_ _. {});
             serving = {e. if n = [] then d e g \<noteq> {} else n \<in> d e g};
             es = asyncSendMessageByGroupAndNode shuffle code sessions g n msg (run J ops)
         in (if serving = {} then \<exists>reason. es = [Respond_error code reason]
             else \<exists>e \<in> serving. es = [Send_endpoint e msg])"
  by (rule sent_to_serving [OF assms])

theorem service_send_witness:
  "asyncSendMessageByGroupAndNode rev 7 [] ''group0'' ''n0'' example_announcement
     (run jsoncpp0 [Op_message example_announcement ''ep''] :: (nat, nat) service) =
   [Send_endpoint ''ep'' example_announcement]"
proof -
  let ?ops = "[Op_message example_announcement ''ep'' :: (nat, nat) service_op]"
  have dir: "directory_spec jsoncpp0 (Op_message example_announcement ''ep'' :: (nat, nat) service_op) (\<lambda>_ _. {}) e ''group0'' =
      (if e = ''ep'' then {''n0''} else {})" for e
    using example_directory [of "\<lambda>_ _. {}"] by (simp add: example_announced announce_def)
  have serving: "{e. if ''n0'' = [] then fold (directory_spec jsoncpp0) ?ops (\<lambda>_ _. {}) e ''group0'' \<noteq> {}
      else ''n0'' \<in> fold (directory_spec jsoncpp0) ?ops (\<lambda>_ _. {}) e ''group0''} = {''ep''}"
    unfolding fold_simps dir by auto
  show ?thesis
    using service_send [of rev "''group0''" jsoncpp0 ?ops "''n0''" 7 "[]" example_announcement]
    unfolding Let_def serving by simp
qed

section \<open>Heights\<close>

lemma fold_raise_mono: "h g = Some m \<Longrightarrow> \<exists>m' \<ge> m. fold (\<lambda>(g, n). raise g n) gs h g = Some m'"
proof (induction gs arbitrary: h m)
  case (Cons e gs)
  obtain g' n where e: "e = (g', n)" by (cases e)
  have "\<exists>m1 \<ge> m. raise g' n h g = Some m1" using Cons.prems by (auto simp: raise_def)
  then show ?case using Cons.IH e by fastforce
qed simp

lemma heights_spec_mono: "h g = Some m \<Longrightarrow> op \<noteq> Op_remove g \<Longrightarrow> \<exists>m' \<ge> m. heights_spec J op h g = Some m'"
  by (cases op) (auto simp: fold_raise_mono raise_def split: option.splits)

text \<open>Claim C13. The block number of a group is the greatest one heard of in handshakes and notifications since it was
  last removed; it never decreases without removal; and the block limit is 500 above it unless that sum leaves the range
  of a 64 bit integer.\<close>
theorem service_heights:
  "getBlockNumber g (run J ops) = fold (heights_spec J) ops (\<lambda>_. None) g \<and>
   (Op_remove g \<notin> set ops' \<longrightarrow> getBlockNumber g (run J ops) = Some m \<longrightarrow>
      (\<exists>m' \<ge> m. getBlockNumber g (run J (ops @ ops')) = Some m')) \<and>
   (getBlockNumber g (run J ops) = Some m \<longrightarrow>
      getBlockLimit g (run J ops) = (if int64_range (m + 500) then Inr (Some (m + 500)) else Inl Signed_overflow))"
proof -
  have height: "getBlockNumber g (run J ops) = fold (heights_spec J) ops (\<lambda>_. None) g" for ops
    by (simp add: run_heights [symmetric] getBlockNumber_def heights_of_def)
  have "\<exists>m' \<ge> m. fold (heights_spec J) ops' h g = Some m'" if "Op_remove g \<notin> set ops'" "h g = Some m" for h m
    using that
  proof (induction ops' arbitrary: h m)
    case (Cons op ops')
    then obtain m1 where "m1 \<ge> m" "heights_spec J op h g = Some m1"
      using heights_spec_mono [of h g m op J] by auto
    then show ?case using Cons by fastforce
  qed simp
  then show ?thesis
    by (auto simp: height getBlockLimit_def BLOCK_LIMIT_RANGE_def)
qed

lemma example_heights:
  "int64_range n \<Longrightarrow> heights_spec jsoncpp0 (Op_message (example_block node n) ep) h = raise ''group0'' n h"
  by (simp add: example_reported reported_not_announced [OF example_reported])

theorem service_heights_witness:
  "getBlockNumber ''group0'' (run jsoncpp0 [Op_message (example_block ''a'' 5) ''ep''] :: (nat, nat) service) = Some 5 \<and>
   (\<exists>m' \<ge> 5. getBlockNumber ''group0'' (run jsoncpp0 ([Op_message (example_block ''a'' 5) ''ep''] @
      [Op_message (example_block ''b'' 3) ''ep'']) :: (nat, nat) service) = Some m') \<and>
   getBlockLimit ''group0'' (run jsoncpp0 [Op_message (example_block ''a'' 5) ''ep''] :: (nat, nat) service) = Inr (Some 505)"
proof -
  let ?a = "[Op_message (example_block ''a'' 5) ''ep''] :: (nat, nat) service_op list"
  let ?b = "[Op_message (example_block ''b'' 3) ''ep''] :: (nat, nat) service_op list"
  have "fold (heights_spec jsoncpp0) ?a (\<lambda>_. None) ''group0'' = Some 5"
    by (simp add: example_heights int64_range_def raise_def del: heights_spec.simps)
  then show ?thesis
    using service_heights [of "''group0''" jsoncpp0 ?a ?b 5] by (simp add: int64_range_def)
qed

text \<open>A block notification that can be read raises the height of its group to its number if that is
  greater; the nodes at the height become its node alone if it is greater, gain its node if it is equal and stay if it
  is less; the callbacks of the group are run once each, in the order of registration, exactly if it is greater. A
  notification that cannot be read changes nothing.\<close>
lemma block_notification:
  assumes "packetType msg = BLOCK_NOTIFY"
  shows "\<exists>s' es. service_msgHandler J msg ep s = Inr (s', es) \<and>
    (case reported_block J msg of
       None \<Rightarrow> s' = s \<and> es = []
     | Some (g, node, n) \<Rightarrow>
         heights_of s' = raise g n (heights_of s) \<and>
         latest s' = (latest s)(g := (case heights_of s g of
             None \<Rightarrow> [node]
           | Some m \<Rightarrow> if m < n then [node] else if m = n then fst (set_insert node (latest s g)) else latest s g)) \<and>
         es = (if (case heights_of s g of None \<Rightarrow> True | Some m \<Rightarrow> m < n)
               then map (\<lambda>cb. Notify_block cb g n) (find_or g [] (m_group2callbacks s)) else []))"
proof -
  have a: "announced_group J msg = None"
    using assms by (simp add: announced_group_def BLOCK_NOTIFY_def GROUP_NOTIFY_def)
  show ?thesis
  proof (cases "reported_block J msg")
    case (Some r)
    obtain g node n where r: "r = (g, node, n)" by (cases r)
    obtain s' es where b: "block_notified g node n s = (s', es)" by (cases "block_notified g node n s")
    have "latest s' = (latest s)(g := latest s' g)"
      using latest_notified [of g node n s] b by (auto simp: fun_eq_iff)
    then show ?thesis
      using Some r b a heights_of_notified [of g node n s] callbacks_notified [of g node n s] latest_notified [of g node n s g]
      by (simp add: service_msgHandler_cases)
  qed (simp add: service_msgHandler_cases a)
qed

theorem block_notification_witness:
  "\<exists>s' es. service_msgHandler jsoncpp0 (example_block ''a'' 5) ''ep''
      (run jsoncpp0 [Op_notifier ''group0'' (1 :: nat)] :: (nat, nat) service) = Inr (s', es) \<and>
    es = [Notify_block 1 ''group0'' 5]"
  using block_notification [of "example_block ''a'' 5" jsoncpp0 "''ep''"
      "run jsoncpp0 [Op_notifier ''group0'' (1 :: nat)] :: (nat, nat) service"]
  by (simp add: example_reported int64_range_def)
    (auto simp: example_block_def run_def new_service_def registerBlockNumberNotifier_def heights_of_def find_or_def
      umap_set_def umap_find_def)

text \<open>Claim C28. While the height of a group is known from notifications only, \<open>getHighestBlockNumberNodes\<close>
  returns exactly the nodes that reported the greatest number and are announced by a connected end point.\<close>
theorem highest_nodes:
  assumes "list_all (only_notified J g) ops"
  shows "set (fst (getHighestBlockNumberNodes g (run J ops) [])) =
    {node. (\<exists>n. getBlockNumber g (run J ops) = Some n \<and> (g, node, n) \<in> reports J ops) \<and>
           (\<exists>e. node \<in> fold (directory_spec J) ops (\<lambda>_ _. {}) e g)}"
proof -
  note T = service_inv_table [OF run_inv [of J ops]]
  have avail: "hasEndPointOfNodeAvailable g node (run J ops) \<longleftrightarrow>
      (\<exists>e. node \<in> fold (directory_spec J) ops (\<lambda>_ _. {}) e g)" for node
    using ex_in_conv [of "set (endpoints (m_group2Node2Endpoints (run J ops)) g node)"]
    by (simp add: hasEndPoint_endpoints [OF T] endpoints_directory run_directory)
  show ?thesis
    using run_latest [OF assms] by (auto simp: getHighest_latest avail getBlockNumber_def heights_of_def)
qed

theorem highest_nodes_witness:
  "set (fst (getHighestBlockNumberNodes ''group0'' (run jsoncpp0 [Op_message example_announcement ''ep'',
      Op_message (example_block ''n0'' 5) ''ep''] :: (nat, nat) service) [])) =
    {node. (\<exists>n. getBlockNumber ''group0'' (run jsoncpp0 [Op_message example_announcement ''ep'',
              Op_message (example_block ''n0'' 5) ''ep''] :: (nat, nat) service) = Some n \<and>
            (''group0'', node, n) \<in> reports jsoncpp0 [Op_message example_announcement ''ep'',
              Op_message (example_block ''n0'' 5) ''ep'' :: (nat, nat) service_op]) \<and>
           (\<exists>e. node \<in> fold (directory_spec jsoncpp0) [Op_message example_announcement ''ep'',
              Op_message (example_block ''n0'' 5) ''ep'' :: (nat, nat) service_op] (\<lambda>_ _. {}) e ''group0'')}"
  by (rule highest_nodes) simp

lemma raise_at [simp]:
  "raise g n h g = Some (case h g of None \<Rightarrow> n | Some m \<Rightarrow> max m n)" "g' \<noteq> g \<Longrightarrow> raise g n h g' = h g'"
  by (simp_all add: raise_def)

lemma raise_known:
  "umap_ok gs \<Longrightarrow> map_of gs g = Some n \<Longrightarrow>
     fold (\<lambda>(g, n). raise g n) gs h g = Some (case h g of None \<Rightarrow> n | Some m \<Rightarrow> max m n)"
proof (induction gs arbitrary: h)
  case (Cons e gs)
  obtain g' n' where e: "e = (g', n')" by (cases e)
  then show ?case
    using Cons by (auto simp: umap_ok_Cons umap_find_def raise_other split: if_splits)
qed simp

lemma decode_members_ok: "umap_ok (m_groupBlockNumber r) \<Longrightarrow> umap_ok (m_groupBlockNumber (fst (decode_members J j ids r)))"
  by (induction J j ids r rule: decode_members.induct) (auto split: sum.splits)

lemma decode_numbers_ok: "umap_ok (m_groupBlockNumber r) \<Longrightarrow> umap_ok (m_groupBlockNumber (fst (decode_numbers J js r)))"
proof (induction js arbitrary: r)
  case (Cons j js)
  show ?case
    using Cons.IH decode_members_ok [OF Cons.prems, of J j] Cons.prems
    by (auto simp: case_prod_unfold split: sum.splits)
qed simp

lemma decode_groups_numbers [simp]: "m_groupBlockNumber (fst (decode_groups J js r)) = m_groupBlockNumber r"
  by (induction J js r rule: decode_groups.induct) (auto split: sum.splits)

lemma accepted_numbers_ok: "accepted J err data = Some r \<Longrightarrow> umap_ok (m_groupBlockNumber r)"
proof -
  have "umap_ok (m_groupBlockNumber r') \<Longrightarrow> umap_ok (m_groupBlockNumber (fst (response_decode J d r')))" for d r'
    by (simp add: response_decode_def Let_def case_prod_unfold decode_numbers_ok split: option.splits sum.splits)
  from this [of new_handshake_response "string_of_bytes data"]
  show "accepted J err data = Some r \<Longrightarrow> ?thesis"
    by (auto simp: accepted_def new_handshake_response_def split: if_splits prod.splits)
qed

text \<open>A handshake that tells a greater block number of a group raises its height, but the nodes at the
  height stay those that reported the smaller number: they are still returned as the nodes with the highest block.\<close>
lemma handshake_stale_nodes:
  assumes "accepted J err data = Some r" and "map_of (m_groupBlockNumber r) g = Some n"
    and "getBlockNumber g s = Some m" and "m < n"
  shows "getBlockNumber g (fst (handshake_callback J err data ep session s)) = Some n \<and>
    set (fst (getHighestBlockNumberNodes g (fst (handshake_callback J err data ep session s)) [])) =
      {node \<in> set (latest s g). hasEndPointOfNodeAvailable g node (fst (handshake_callback J err data ep session s))}"
proof -
  have s': "fst (handshake_callback J err data ep session s) = apply_handshake ep r s"
    using assms(1) by (simp add: handshake_callback_accepted Let_def)
  have "heights_of (apply_handshake ep r s) g = Some n"
    using raise_known [OF accepted_numbers_ok [OF assms(1)] assms(2)] assms(3,4)
    by (simp add: heights_of_handshake) (simp add: heights_of_def getBlockNumber_def)
  then show ?thesis by (simp add: s' getHighest_latest latest_handshake getBlockNumber_def heights_of_def)
qed

theorem handshake_stale_nodes_witness:
  "getBlockNumber ''group0'' (fst (handshake_callback jsoncpp0 None example_handshake ''ep'' ''ep''
     (run jsoncpp0 [Op_message (example_block ''n0'' 5) ''ep''] :: (nat, nat) service))) = Some 9"
proof -
  have "getBlockNumber ''group0'' (run jsoncpp0 [Op_message (example_block ''n0'' 5) ''ep''] :: (nat, nat) service) = Some 5"
    using run_heights [of jsoncpp0 "[Op_message (example_block ''n0'' 5) ''ep''] :: (nat, nat) service_op list"]
    by (simp add: example_heights int64_range_def getBlockNumber_def heights_of_def fun_eq_iff del: heights_spec.simps)
  from handshake_stale_nodes [OF example_accepted _ this, of 9 "''ep''" "''ep''"] show ?thesis by simp
qed

section \<open>Merged descriptions\<close>

definition merge_one :: "string \<times> chain_node_info \<Rightarrow> group_info \<Rightarrow> group_info" where
  "merge_one e gi = (if nodeInfo (m_nodeName (snd e)) gi \<noteq> None then gi else fst (appendNodeInfo (snd e) gi))"

lemma merge_nodes_alt: "merge_nodes gs gi = fold merge_one (concat (map m_nodeInfos gs)) gi"
proof -
  have "(\<lambda>(_, n) gi. if nodeInfo (m_nodeName n) gi \<noteq> None then gi else fst (appendNodeInfo n gi)) = merge_one"
    by (auto simp: fun_eq_iff merge_one_def)
  then show ?thesis unfolding merge_nodes_def by (induction gs arbitrary: gi) simp_all
qed

lemma merge_one_keeps [simp]: "m_groupID (merge_one e gi) = m_groupID gi" "group_wf gi \<Longrightarrow> group_wf (merge_one e gi)"
  by (simp_all add: merge_one_def group_wf_append) (simp add: appendNodeInfo_def)

lemma fold_merge_keeps: "group_wf gi \<Longrightarrow> group_wf (fold merge_one es gi) \<and> m_groupID (fold merge_one es gi) = m_groupID gi"
  by (induction es arbitrary: gi) simp_all

lemma nodeInfo_merge_one:
  "group_wf gi \<Longrightarrow> fst e = m_nodeName (snd e) \<Longrightarrow> nodeInfo k (merge_one e gi) =
     (case nodeInfo k gi of Some n \<Rightarrow> Some n | None \<Rightarrow> if k = fst e then Some (snd e) else None)"
  by (auto simp: merge_one_def nodeInfo_append split: option.splits)

lemma nodeInfo_merge:
  "group_wf gi \<Longrightarrow> \<forall>e \<in> set es. fst e = m_nodeName (snd e) \<Longrightarrow> nodeInfo k (fold merge_one es gi) =
     (case nodeInfo k gi of Some n \<Rightarrow> Some n | None \<Rightarrow> map_of es k)"
proof (induction es arbitrary: gi)
  case (Cons e es)
  then show ?case by (cases e) (auto simp: nodeInfo_merge_one split: option.splits)
qed (simp split: option.splits)

lemma info_set:
  assumes "infos_ok (m_endPoint2GroupId2GroupInfo s)"
  shows "set (List.map_filter (\<lambda>(ep, groups). umap_find g groups) (m_endPoint2GroupId2GroupInfo s)) =
    {gi. \<exists>ep. info s ep g = Some gi}"
proof -
  have ok: "umap_ok (m_endPoint2GroupId2GroupInfo s)" using assms by (simp add: infos_ok_def)
  have "info s ep g = Some gi \<longleftrightarrow> (\<exists>gs. (ep, gs) \<in> set (m_endPoint2GroupId2GroupInfo s) \<and> umap_find g gs = Some gi)" for ep gi
    using umap_find_mem [OF ok, of ep] by (cases "umap_find ep (m_endPoint2GroupId2GroupInfo s)") (auto simp: info_def find_or_def)
  then show ?thesis by (force simp: map_filter_def)
qed

lemma info_group_wf: "infos_ok (m_endPoint2GroupId2GroupInfo s) \<Longrightarrow> info s ep g = Some gi \<Longrightarrow> m_groupID gi = g \<and> group_wf gi"
  unfolding info_def by (drule umap_find_in_set) (rule infos_ok_find_or(2))

lemma getGroupInfo_merged:
  assumes inv: "routing_inv s" and "getGroupInfo g s = Some gi"
  shows "m_groupID gi = g \<and> group_wf gi \<and> (\<forall>name n. nodeInfo name gi = Some n \<longrightarrow>
      (\<exists>ep gi'. info s ep g = Some gi' \<and> nodeInfo name gi' = Some n)) \<and>
    fst ` set (m_nodeInfos gi) = (\<Union>ep. directory_of s ep g)"
proof -
  have I: "infos_ok (m_endPoint2GroupId2GroupInfo s)" using inv by (simp add: routing_inv_def)
  define gs where "gs = List.map_filter (\<lambda>(ep, groups). umap_find g groups) (m_endPoint2GroupId2GroupInfo s)"
  have set: "set gs = {gi. \<exists>ep. info s ep g = Some gi}" unfolding gs_def by (rule info_set [OF I])
  obtain first rest where gs: "gs = first # rest"
    using assms(2) by (auto simp: getGroupInfo_def gs_def [symmetric] split: list.splits)
  define g0 where "g0 = (createGroupInfo_of (m_chainID first) (m_groupID first))
     \<lparr>m_smCryptoType := m_smCryptoType first, m_wasm := m_wasm first,
      m_genesisConfig := m_genesisConfig first, m_iniConfig := m_iniConfig first\<rparr>"
  define es where "es = concat (map m_nodeInfos gs)"
  have gi: "gi = fold merge_one es g0"
    using assms(2) by (simp add: getGroupInfo_def gs_def [symmetric] gs g0_def es_def merge_nodes_alt)
  have g0: "group_wf g0" "m_groupID g0 = g" "nodeInfo k g0 = None" for k
    using set gs info_group_wf [OF I, of _ g first]
    by (auto simp: g0_def group_wf_def createGroupInfo_of_def nodeInfo_def)
  have wf: "group_wf gi'" if "gi' \<in> set gs" for gi' using that set info_group_wf [OF I] by blast
  have names: "\<forall>e \<in> set es. fst e = m_nodeName (snd e)"
    using wf by (fastforce simp: es_def group_wf_def)
  have look: "nodeInfo k gi = map_of es k" for k using nodeInfo_merge [OF g0(1) names] g0(3) gi by simp
  have "nodeInfo name gi' = Some n" if "gi' \<in> set gs" "(name, n) \<in> set (m_nodeInfos gi')" for gi' name n
    using wf [OF that(1)] that(2) omap_ok_distinct by (auto simp: group_wf_def nodeInfo_def intro!: map_of_is_SomeI)
  then have "\<exists>ep gi'. info s ep g = Some gi' \<and> nodeInfo name gi' = Some n" if "nodeInfo name gi = Some n" for name n
    using that look set by (fastforce simp: es_def dest!: map_of_SomeD)
  moreover have "fst ` set (m_nodeInfos gi) = fst ` set es"
    using look by (metis dom_map_of_conv_image_fst nodeInfo_def ext)
  moreover have "fst ` set es = (\<Union>gi \<in> set gs. fst ` set (m_nodeInfos gi))" by (auto simp: es_def)
  moreover have "x \<in> directory_of s ep g \<longleftrightarrow> (\<exists>gi. info s ep g = Some gi \<and> x \<in> fst ` set (m_nodeInfos gi))" for x ep
    using inv by (cases "info s ep g") (simp_all add: routing_inv_def)
  then have "(\<Union>gi \<in> set gs. fst ` set (m_nodeInfos gi)) = (\<Union>ep. directory_of s ep g)"
    unfolding set by blast
  ultimately show ?thesis using fold_merge_keeps [OF g0(1), of es] g0(2) gi by simp
qed

text \<open>\<open>getGroupInfo\<close> gives a description of the group asked for whose nodes are exactly those announced for
  it by the connected end points, each described as one of these end points described it; it gives none only if no node of
  the group is announced.\<close>
lemma group_info_merged:
  "case getGroupInfo g (run J ops) of
     None \<Rightarrow> \<forall>ep. fold (directory_spec J) ops (\<lambda>_ _. {}) ep g = {}
   | Some gi \<Rightarrow> m_groupID gi = g \<and> group_wf gi \<and>
       fst ` set (m_nodeInfos gi) = (\<Union>ep. fold (directory_spec J) ops (\<lambda>_ _. {}) ep g) \<and>
       set (m_nodeInfos gi) \<subseteq> (\<Union>ep. case info (run J ops) ep g of None \<Rightarrow> {} | Some gi' \<Rightarrow> set (m_nodeInfos gi'))"
proof -
  have inv: "routing_inv (run J ops)" using run_inv [of J ops] by (simp add: service_inv_def)
  show ?thesis
  proof (cases "getGroupInfo g (run J ops)")
    case None
    then have "List.map_filter (\<lambda>(ep, groups). umap_find g groups) (m_endPoint2GroupId2GroupInfo (run J ops)) = []"
      by (simp add: getGroupInfo_def Let_def split: list.splits)
    then have "info (run J ops) ep g = None" for ep
      using info_set [of "run J ops" g] inv by (cases "info (run J ops) ep g") (auto simp: routing_inv_def)
    then show ?thesis using None inv by (simp add: routing_inv_def run_directory)
  next
    case (Some gi)
    note M = getGroupInfo_merged [OF inv Some]
    have "e \<in> (\<Union>ep. case info (run J ops) ep g of None \<Rightarrow> {} | Some gi' \<Rightarrow> set (m_nodeInfos gi'))"
      if "e \<in> set (m_nodeInfos gi)" for e
    proof -
      have "nodeInfo (fst e) gi = Some (snd e)"
        using M that omap_ok_distinct by (auto simp: group_wf_def nodeInfo_def intro!: map_of_is_SomeI)
      then obtain ep gi' where "info (run J ops) ep g = Some gi'" "nodeInfo (fst e) gi' = Some (snd e)" using M by blast
      then show ?thesis by (auto simp: nodeInfo_def dest!: map_of_SomeD intro!: exI [of _ ep])
    qed
    then show ?thesis using M Some by (auto simp: run_directory)
  qed
qed

end
