(* ===== verification/HandshakeTheorems.thy ===== *)
theory HandshakeTheorems
  imports ServiceTheorems
begin

text \<open>
  What nodes and the service exchange over the wire: descriptions of groups, the handshake, and the
  loop that waits for the first handshake.
\<close>

section \<open>Descriptions over the wire\<close>

text \<open>A well-formed description of a group whose text is ASCII and whose nodes have their versions set is
  serialized, and reading the text back gives the same description, except for what \<open>carried_group\<close> leaves out:
  \<open>nodeID\<close>, \<open>microService\<close> and the kind of each node are lost, and the flags of the group become those of its
  first node.\<close>
lemma group_codec:
  assumes "jsoncpp_ok J" and "json_text_ok J" and "group_ok J g"
  shows "\<exists>j. group_serialize g = Inr j \<and> group_deserialize J (json_write J j) = Inr (carried_group g)"
  using group_codec_carried [OF assms] by metis

theorem group_codec_witness:
  "\<exists>j. group_serialize example_group = Inr j \<and>
     group_deserialize jsoncpp0 (json_write jsoncpp0 j) = Inr (carried_group example_group)"
  by (rule group_codec [OF jsoncpp0_ok jsoncpp0_text_ok example_group_ok])

lemma announce_carried: "announce ep (carried_group g) = announce ep g"
proof -
  have "fst ` set (m_nodeInfos (carried_group g)) = fst ` set (m_nodeInfos g)"
    by (force simp: carried_group_def)
  then show ?thesis by (simp add: fun_eq_iff announce_def) (simp add: carried_group_def)
qed

lemma groups_roundtrip:
  assumes "jsoncpp_ok J" and "json_text_ok J" and "\<forall>g \<in> set gs. group_ok J g"
  shows "\<exists>js. serialize_groups gs = Inr js \<and> (\<forall>j \<in> set js. json_wf j) \<and>
    (\<forall>r. decode_groups J js r = (r \<lparr>m_groupInfoList := m_groupInfoList r @ map carried_group gs\<rparr>, True))"
  using assms(3)
proof (induction gs)
  case (Cons g gs)
  obtain j where "group_serialize g = Inr j" "json_wf j"
    "group_deserialize J (json_write J j) = Inr (carried_group g)"
    using group_codec_carried [OF assms(1,2)] Cons.prems by (metis list.set_intros(1))
  with Cons show ?case by fastforce
qed simp

lemma response_roundtrip:
  assumes J: "jsoncpp_ok J" and T: "json_text_ok J" and ok: "\<forall>g \<in> set (m_groupInfoList r). group_ok J g"
    and v: "m_protocolVersion r = Some v" "uint v < 2 ^ 31"
  shows "\<exists>doc. response_encode J r = Inr doc \<and> response_decode J doc new_handshake_response =
    (\<lparr>m_groupInfoList = map carried_group (m_groupInfoList r), m_groupBlockNumber = [], m_protocolVersion = Some v\<rparr>, True)"
proof -
  obtain js where js: "serialize_groups (m_groupInfoList r) = Inr js" "\<forall>j \<in> set js. json_wf j"
    "\<And>r'. decode_groups J js r' = (r' \<lparr>m_groupInfoList := m_groupInfoList r' @ map carried_group (m_groupInfoList r)\<rparr>, True)"
    using groups_roundtrip [OF J T ok] by blast
  define kvs where "kvs = [(''protocolVersion'', JInt (uint v)), (''groupInfoList'', JArray js)]"
  have d: "distinct (map fst kvs)" by (simp add: kvs_def)
  have wf: "json_wf (jobject kvs)" using js(2) by (auto simp: kvs_def jobject_wf)
  have mem: "map_of kvs ''protocolVersion'' = Some (JInt (uint v))" "map_of kvs ''groupInfoList'' = Some (JArray js)"
    "map_of kvs ''groupBlockNumber'' = None" by (simp_all add: kvs_def)
  have range: "int32_range (uint v)"
    using v(2) order_trans [of "- (2 ^ 31)" 0 "uint v"] by (simp add: int32_range_def)
  have arr: "array_member J (jobject kvs) ''groupInfoList'' = Inr js" "array_member J (jobject kvs) ''groupBlockNumber'' = Inr []"
    using J d mem by (simp_all add: array_member_def)
  have "response_decode J (json_write J (jobject kvs)) new_handshake_response =
      (\<lparr>m_groupInfoList = map carried_group (m_groupInfoList r), m_groupBlockNumber = [], m_protocolVersion = Some v\<rparr>, True)"
    using J d mem range by (simp add: response_decode_def json_text_okD [OF T wf] arr js(3) new_handshake_response_def)
  moreover have "response_encode J r = Inr (json_write J (jobject kvs))"
    using v js(1) by (simp add: response_encode_def kvs_def)
  ultimately show ?thesis by blast
qed

text \<open>Claim C29. A handshake response that announces well-formed groups and a version below \<open>2\<^sup>3\<^sup>1\<close> is
  encoded, and a service that receives it sets that version, enters the announcements of these groups for the end point
  in its directory, counts one more handshake and runs its handshake handlers in order; the heights stay, since the
  encoding does not carry the block numbers.\<close>
theorem handshake_roundtrip:
  assumes "jsoncpp_ok J" and "json_text_ok J" and "\<forall>g \<in> set (m_groupInfoList r). group_ok J g"
    and "m_protocolVersion r = Some v" and "uint v < 2 ^ 31"
  shows "\<exists>doc. response_encode J r = Inr doc \<and>
    (let (s', es) = handshake_callback J None (bytes_of_string doc) ep ep (run J ops) in
       directory_of s' = fold (announce ep) (m_groupInfoList r) (directory_of (run J ops)) \<and>
       heights_of s' = heights_of (run J ops) \<and>
       m_handshakeSucCount s' = m_handshakeSucCount (run J ops) + 1 \<and>
       es = Set_version ep (sint v) # map (\<lambda>h. Handshake_handler h ep) (m_wsHandshakeSucHandlers (run J ops)))"
proof -
  let ?r = "\<lparr>m_groupInfoList = map carried_group (m_groupInfoList r), m_groupBlockNumber = [], m_protocolVersion = Some v\<rparr>"
  obtain doc where doc: "response_encode J r = Inr doc"
    "response_decode J doc new_handshake_response = (?r, True)"
    using response_roundtrip [OF assms] by blast
  have acc: "accepted J None (bytes_of_string doc) = Some ?r" by (simp add: accepted_def doc)
  let ?s = "run J ops :: ('a, 'b) service"
  let ?op = "Op_handshake None (bytes_of_string doc) ep ep"
  have inv: "routing_inv ?s" using run_inv [of J ops] by (simp add: service_inv_def)
  have s': "service_exec J ?op ?s = apply_handshake ep ?r ?s"
    by (simp add: handshake_callback_accepted acc Let_def)
  have dir: "directory_of (apply_handshake ep ?r ?s) = fold (announce ep) (m_groupInfoList r) (directory_of ?s)"
    using service_exec_directory [OF inv, of J ?op] s' by (simp add: acc fold_map comp_def announce_carried)
  have hgt: "heights_of (apply_handshake ep ?r ?s) = heights_of ?s"
    by (simp add: heights_of_handshake)
  have others: "m_handshakeSucCount (fold (updateGroupInfoByEp ep) gs s) = m_handshakeSucCount s"
    "m_wsHandshakeSucHandlers (fold (updateGroupInfoByEp ep) gs s) = m_wsHandshakeSucHandlers s" for gs and s :: "('a, 'b) service"
    by (induction gs arbitrary: s)
      (simp_all add: updateGroupInfoByEp_def insert_group_nodes_def clearGroupInfoByEp_group_def updateGroupInfo_def)
  then have "m_handshakeSucCount (apply_handshake ep ?r ?s) = m_handshakeSucCount ?s + 1"
    "m_wsHandshakeSucHandlers (apply_handshake ep ?r ?s) = m_wsHandshakeSucHandlers ?s"
    by (simp_all add: apply_handshake_def increaseHandshakeSucCount_def)
  then show ?thesis
    using doc(1) dir hgt by (simp add: handshake_callback_accepted acc Let_def callWsHandshakeSucHandlers_def)
qed

definition example_response :: handshake_response where
  "example_response = \<lparr>m_groupInfoList = [example_group], m_groupBlockNumber = [], m_protocolVersion = Some 1\<rparr>"

theorem handshake_roundtrip_witness:
  "\<exists>doc. response_encode jsoncpp0 example_response = Inr doc \<and>
    (let (s', es) = handshake_callback jsoncpp0 None (bytes_of_string doc) ''ep'' ''ep''
           (run jsoncpp0 [Op_handler (0 :: nat)] :: (nat, nat) service) in
       directory_of s' = fold (announce ''ep'') (m_groupInfoList example_response)
         (directory_of (run jsoncpp0 [Op_handler 0] :: (nat, nat) service)) \<and>
       heights_of s' = heights_of (run jsoncpp0 [Op_handler 0] :: (nat, nat) service) \<and>
       m_handshakeSucCount s' = m_handshakeSucCount (run jsoncpp0 [Op_handler 0] :: (nat, nat) service) + 1 \<and>
       es = Set_version ''ep'' (sint (1 :: u32)) # map (\<lambda>h. Handshake_handler h ''ep'')
         (m_wsHandshakeSucHandlers (run jsoncpp0 [Op_handler 0] :: (nat, nat) service)))"
  by (rule handshake_roundtrip [OF jsoncpp0_ok jsoncpp0_text_ok])
    (simp_all add: example_response_def example_group_ok)

text \<open>A node described without its protocol cannot be serialized without reading uninitialised memory.\<close>

lemma node_uninitialised:
  assumes "node_deserialize J doc = Inr n" and "json_parse J doc = Some v" and "json_isMember J v ''protocol'' = Inr False"
  shows "node_serialize n = Inl Uninitialised"
proof -
  have services: "m_compatibilityVersion n' = m_compatibilityVersion m" if "deserialize_services J items m = Inr n'" for items m n'
    using that by (induction J items m rule: deserialize_services.induct)
      (auto simp: appendServiceInfo_def split: if_splits elim!: bindE_InrE)
  have ini: "m_compatibilityVersion n' = m_compatibilityVersion m" if "deserializeIniConfig J m = Inr n'" for m n'
    using that by (auto simp: deserializeIniConfig_def split: option.splits elim!: bindE_InrE)
  have "m_compatibilityVersion n = None"
    using assms by (auto simp: node_deserialize_def Let_def createNodeInfo_def split: if_splits elim!: bindE_InrE
        dest!: services ini)
  then show ?thesis by (simp add: node_serialize_outcome(1) versions_set_def)
qed

text \<open>The JSON text of a block number does not depend on the node it names.\<close>

lemma block_toJson_node: "block_toJson J b = block_toJson J (b \<lparr>m_node := node\<rparr>)"
  by (simp add: block_toJson_def)

section \<open>Waiting for a connection\<close>

lemma wait_loop_skip:
  "\<forall>j. i \<le> j \<and> j < i + k \<longrightarrow> fst (obs j) = 0 \<and> snd (obs j) < deadline \<Longrightarrow>
     wait_loop obs deadline i = wait_loop obs deadline (i + k)"
proof (induction k)
  case (Suc k)
  have "wait_loop obs deadline (i + k) = wait_loop obs deadline (i + Suc k)"
    using Suc.prems by (subst wait_loop.simps) simp
  then show ?case using Suc by simp
qed simp

text \<open>When every sleep of the loop takes at least the 100 ms asked for, \<open>waitForConnectionEstablish\<close>
  returns: normally, without effects, if a handshake is counted at some poll before which no poll was at or after the
  deadline; otherwise it stops the service and throws.\<close>
lemma wait_returns:
  assumes "\<forall>i. start + 100 * int (Suc i) \<le> snd (obs i)"
  shows "waitForConnectionEstablish obs start timeout =
    (if \<exists>i. fst (obs i) \<noteq> 0 \<and> (\<forall>j < i. snd (obs j) < start + timeout)
     then Some ([], Inr ()) else Some ([Base_stop], Inl Handshake_timeout))"
proof -
  define stop where "stop i \<longleftrightarrow> fst (obs i) \<noteq> 0 \<or> start + timeout \<le> snd (obs i)" for i
  have "stop (nat timeout)"
    using assms [rule_format, of "nat timeout"] by (auto simp: stop_def split: if_splits)
  then obtain k where k: "stop k" "\<forall>j < k. \<not> stop j"
    using exists_least_iff [of stop] by blast
  have "wait_loop obs (start + timeout) 0 = wait_loop obs (start + timeout) k"
    using wait_loop_skip [of 0 k obs "start + timeout"] k(2) by (simp add: stop_def not_le)
  also have "\<dots> = Some (fst (obs k) \<noteq> 0)"
    using k(1) by (subst wait_loop.simps) (auto simp: stop_def)
  finally have loop: "wait_loop obs (start + timeout) 0 = Some (fst (obs k) \<noteq> 0)" .
  have "(\<exists>i. fst (obs i) \<noteq> 0 \<and> (\<forall>j < i. snd (obs j) < start + timeout)) \<longleftrightarrow> fst (obs k) \<noteq> 0"
    using k unfolding stop_def by (metis not_less linorder_neqE_nat)
  then show ?thesis by (simp add: waitForConnectionEstablish_def loop split: bool.splits)
qed

theorem wait_returns_witness:
  "waitForConnectionEstablish (\<lambda>i. (if i = 2 then 1 else 0, 100 * int (Suc i))) 0 1000 = Some ([], Inr ())"
proof -
  have "\<exists>i. (if i = (2 :: nat) then 1 else 0 :: u32) \<noteq> 0 \<and> (\<forall>j < i. 100 * int (Suc j) < 0 + 1000)"
    by (rule exI [of _ 2]) auto
  then show ?thesis
    using wait_returns [of 0 "\<lambda>i. (if i = 2 then 1 else 0, 100 * int (Suc i))" 1000] by simp
qed

end
