(* ===== verification/TarsStream.thy ===== *)
theory TarsStream
  imports Prelude
begin

text \<open>
  The input stream of the Tars encoding (\<open>utilities/tx/tars/tup/Tars.h\<close>): the reader monad of a
  stream with its cursor, the heads of the fields, the routines that skip a field and that seek a
  tag, and the lemmas that run them. A routine keeps the cursor it has reached when it throws,
  because \<open>TarsSkipToTag\<close> catches the decoding exceptions and goes on from there.

  The routines of the source recurse on the nesting of the input and loop on its fields; both are
  bounded by a fuel argument. Every level and every round consumes the byte of a head, so a fuel
  larger than the number of the bytes left is never used up and its value does not matter
  (\<open>skip_field_fuel\<close>, \<open>seek_loop_fuel\<close>).
\<close>

section \<open>The reader monad\<close>

datatype tars_exn =
    TarsDecodeException
  | TarsDecodeMismatch
  | TarsDecodeRequireNotExist
  | TarsDecodeInvalidValue
  | Fuel_exhausted

type_synonym 'a rd = "nat \<Rightarrow> (tars_exn + 'a) \<times> nat"

definition ret :: "'a \<Rightarrow> 'a rd" where
  "ret x c = (Inr x, c)"

definition throw :: "tars_exn \<Rightarrow> 'a rd" where
  "throw e c = (Inl e, c)"

definition rbind :: "'a rd \<Rightarrow> ('a \<Rightarrow> 'b rd) \<Rightarrow> 'b rd" where
  "rbind m k c = (case m c of (Inl e, d) \<Rightarrow> (Inl e, d) | (Inr x, d) \<Rightarrow> k x d)"

text \<open>\<open>catch (TarsDecodeException&)\<close> catches the exceptions derived from it as well.\<close>

definition catch_decode :: "'a rd \<Rightarrow> 'a \<Rightarrow> 'a rd" where
  "catch_decode m x c =
    (case m c of
       (Inl e, d) \<Rightarrow> (if e = Fuel_exhausted then Inl e else Inr x, d)
     | (Inr y, d) \<Rightarrow> (Inr y, d))"

lemma ret_apply [simp]: "ret x c = (Inr x, c)"
  by (simp add: ret_def)

lemma throw_apply [simp]: "throw e c = (Inl e, c)"
  by (simp add: throw_def)

lemma rbind_Inr [simp]: "m c = (Inr x, d) \<Longrightarrow> rbind m k c = k x d"
  by (simp add: rbind_def)

lemma rbind_Inl [simp]: "m c = (Inl e, d) \<Longrightarrow> rbind m k c = (Inl e, d)"
  by (simp add: rbind_def)

lemma rbind_cases:
  obtains (Inl) e d where "m c = (Inl e, d)" and "rbind m k c = (Inl e, d)"
  | (Inr) x d where "m c = (Inr x, d)" and "rbind m k c = k x d"
proof (cases "m c")
  case (Pair r d)
  then show ?thesis using that by (cases r) auto
qed

lemma rbind_InrE:
  assumes "rbind m k c = (Inr y, d')"
  obtains x d where "m c = (Inr x, d)" and "k x d = (Inr y, d')"
  using assms by (cases rule: rbind_cases [of m c k]) auto

section \<open>The bytes of the buffer\<close>

text \<open>
  \<open>TarsPeekTypeBuf\<close> followed by the move of the cursor (\<open>TarsReadTypeBuf\<close>, \<open>TarsReadBuf\<close>), the
  unchecked \<open>TarsReadHeadSkip\<close>, and \<open>hasEnd\<close>.
\<close>

definition read_buf :: "bytes \<Rightarrow> nat \<Rightarrow> bytes rd" where
  "read_buf buf n c =
    (if c + n > length buf then (Inl TarsDecodeException, c)
     else (Inr (take n (drop c buf)), c + n))"

definition head_skip :: "nat \<Rightarrow> unit rd" where
  "head_skip n c = (Inr (), c + n)"

definition hasEnd :: "bytes \<Rightarrow> bool rd" where
  "hasEnd buf c = (if c > length buf then (Inl TarsDecodeException, c) else (Inr (c = length buf), c))"

section \<open>Heads\<close>

abbreviation (input) eChar :: nat where "eChar \<equiv> 0"
abbreviation (input) eShort :: nat where "eShort \<equiv> 1"
abbreviation (input) eInt32 :: nat where "eInt32 \<equiv> 2"
abbreviation (input) eInt64 :: nat where "eInt64 \<equiv> 3"
abbreviation (input) eFloat :: nat where "eFloat \<equiv> 4"
abbreviation (input) eDouble :: nat where "eDouble \<equiv> 5"
abbreviation (input) eString1 :: nat where "eString1 \<equiv> 6"
abbreviation (input) eString4 :: nat where "eString4 \<equiv> 7"
abbreviation (input) eMap :: nat where "eMap \<equiv> 8"
abbreviation (input) eList :: nat where "eList \<equiv> 9"
abbreviation (input) eStructBegin :: nat where "eStructBegin \<equiv> 10"
abbreviation (input) eStructEnd :: nat where "eStructEnd \<equiv> 11"
abbreviation (input) eZeroTag :: nat where "eZeroTag \<equiv> 12"
abbreviation (input) eSimpleList :: nat where "eSimpleList \<equiv> 13"

text \<open>\<open>TarsWriteToHead\<close>: the four low bits hold the type, the others the tag or 15.\<close>

definition write_head :: "nat \<Rightarrow> nat \<Rightarrow> bytes" where
  "write_head ty tag =
    (if tag < 15 then [word_of_nat (ty + push_bit 4 tag)]
     else [word_of_nat (ty + 240), word_of_nat tag])"

text \<open>\<open>TarsPeekFromHead\<close>: the type, the tag and the length of the head at the cursor.\<close>

definition peek_head :: "bytes \<Rightarrow> (nat \<times> nat \<times> nat) rd" where
  "peek_head buf c =
    (if c + 1 > length buf then (Inl TarsDecodeException, c)
     else let typeTag = buf ! c; tmpTag = unat (drop_bit 4 typeTag); ty = unat (typeTag AND 0x0F) in
       if tmpTag = 15 then
         (if c + 1 + 1 > length buf then (Inl TarsDecodeException, c)
          else (Inr (ty, unat (buf ! (c + 1)), 2), c))
       else (Inr (ty, tmpTag, 1), c))"

definition read_head :: "bytes \<Rightarrow> (nat \<times> nat) rd" where
  "read_head buf =
    rbind (peek_head buf) (\<lambda>(ty, tag, n). rbind (head_skip n) (\<lambda>_. ret (ty, tag)))"

lemma unat_and_15: "unat ((b :: byte) AND 0x0F) = unat b mod 16"
proof -
  have "(0x0F :: byte) = mask 4" by (simp add: mask_eq_exp_minus_1)
  then have "b AND 0x0F = take_bit 4 b" by (simp add: take_bit_eq_mask)
  then show ?thesis by (simp add: unat_take_bit)
qed

lemma unat_drop_4: "unat (drop_bit 4 (b :: byte)) = unat b div 16"
  by (simp add: unat_drop_bit)

lemma write_head_length: "length (write_head ty tag) = (if tag < 15 then 1 else 2)"
  by (simp add: write_head_def)

lemma write_head_pos [simp]: "0 < length (write_head ty tag)"
  by (simp add: write_head_length)

lemma write_head_not_Nil [simp]: "write_head ty tag \<noteq> []"
  by (simp add: write_head_def)

lemma drop_lengthD: "drop c buf = xs \<Longrightarrow> xs \<noteq> [] \<Longrightarrow> length buf = c + length xs"
  by (cases "c \<le> length buf") auto

lemma drop_nthD: "drop c buf = x # xs \<Longrightarrow> c < length buf \<and> buf ! c = x \<and> drop (Suc c) buf = xs"
  by (cases "c < length buf") (auto simp: Cons_nth_drop_Suc [symmetric])

lemma drop_appendD: "drop c buf = xs @ ys \<Longrightarrow> drop (c + length xs) buf = ys"
  by (metis add.commute append_eq_conv_conj drop_drop)

lemma peek_head_alt:
  "peek_head buf c =
    (if length buf \<le> c then (Inl TarsDecodeException, c)
     else let b = unat (buf ! c) in
       if b div 16 = 15 then
         (if length buf \<le> Suc c then (Inl TarsDecodeException, c)
          else (Inr (b mod 16, unat (buf ! Suc c), 2), c))
       else (Inr (b mod 16, b div 16, 1), c))"
  by (simp add: peek_head_def Let_def unat_and_15 unat_drop_4 not_less less_Suc_eq_le Suc_le_eq)

lemma head_byte:
  fixes ty tag :: nat
  assumes "ty < 16"
  shows "(ty + tag * 16) div 16 = tag" and "(ty + tag * 16) mod 16 = ty"
  using assms by simp_all

lemma peek_head_write_head:
  assumes d: "drop c buf = write_head ty tag @ rest" and ty: "ty < 16" and tag: "tag < 256"
  shows "peek_head buf c = (Inr (ty, tag, length (write_head ty tag)), c)"
proof (cases "tag < 15")
  case True
  then have "push_bit 4 tag = tag * 16" by (simp add: push_bit_eq_mult)
  with True d have d': "drop c buf = word_of_nat (ty + tag * 16) # rest"
    by (simp add: write_head_def)
  have u: "unat (word_of_nat (ty + tag * 16) :: byte) = ty + tag * 16"
    using ty True by (intro unat_word_of_nat_id) simp
  have "unat (buf ! c) = ty + tag * 16" "\<not> length buf \<le> c"
    using drop_nthD [OF d'] u by (simp_all only: not_le)
  with True ty show ?thesis
    by (simp only: peek_head_alt Let_def head_byte write_head_length if_False if_True) simp
next
  case False
  with d have d': "drop c buf = word_of_nat (ty + 15 * 16) # word_of_nat tag # rest"
    by (simp add: write_head_def)
  have u: "unat (word_of_nat (ty + 15 * 16) :: byte) = ty + 15 * 16"
    "unat (word_of_nat tag :: byte) = tag"
    using ty tag by (intro unat_word_of_nat_id; simp)+
  from drop_nthD [OF d'] have d'': "drop (Suc c) buf = word_of_nat tag # rest" by blast
  have "unat (buf ! c) = ty + 15 * 16" "\<not> length buf \<le> c"
    "unat (buf ! Suc c) = tag" "\<not> length buf \<le> Suc c"
    using drop_nthD [OF d'] drop_nthD [OF d''] u by (simp_all only: not_le)
  with False ty show ?thesis
    by (simp only: peek_head_alt Let_def head_byte write_head_length if_False if_True refl)
qed

lemma peek_head_Inr:
  assumes "peek_head buf c = (Inr (ty, tag, n), d)"
  shows "d = c" and "0 < n" and "c + n \<le> length buf" and "ty < 16" and "tag < 256"
  using assms by (auto simp: peek_head_alt Let_def not_le Suc_le_eq split: if_splits
      intro: order.strict_trans1 [OF div_le_dividend unat_byte_less])

lemma peek_head_Inl: "peek_head buf c = (Inl e, d) \<Longrightarrow> d = c \<and> e = TarsDecodeException"
  by (auto simp: peek_head_def Let_def split: if_splits)

lemma read_head_Inl: "read_head buf c = (Inl e, d) \<Longrightarrow> d = c \<and> e = TarsDecodeException"
  unfolding read_head_def
  by (cases rule: rbind_cases [of "peek_head buf" c
        "\<lambda>(ty, tag, n). rbind (head_skip n) (\<lambda>_. ret (ty, tag))"])
    (auto dest: peek_head_Inl simp: rbind_def head_skip_def)

lemma read_head_Inr:
  assumes "read_head buf c = (Inr (ty, tag), d)"
  shows "c < d" and "d \<le> length buf" and "ty < 16" and "tag < 256"
proof -
  from assms obtain n where "peek_head buf c = (Inr (ty, tag, n), c)" "d = c + n"
    unfolding read_head_def by (elim rbind_InrE) (auto simp: rbind_def head_skip_def peek_head_Inr(1))
  from peek_head_Inr [OF this(1)] this(2)
  show "c < d" and "d \<le> length buf" and "ty < 16" and "tag < 256" by auto
qed

lemma read_head_write_head:
  assumes "drop c buf = write_head ty tag @ rest" and "ty < 16" and "tag < 256"
  shows "read_head buf c = (Inr (ty, tag), c + length (write_head ty tag))"
  using peek_head_write_head [OF assms] by (simp add: read_head_def rbind_def head_skip_def)

section \<open>Seeking a tag and skipping a field\<close>

text \<open>
  \<open>TarsSkipToTag\<close>: fields of a smaller tag are skipped, the head of the field looked for is
  consumed and its type returned; the end of the struct, a larger tag, the end of the buffer and
  any decoding exception on the way mean that the field is not there. \<open>sk\<close> is \<open>skipField\<close>.
\<close>

primrec seek_loop :: "(nat \<Rightarrow> unit rd) \<Rightarrow> bytes \<Rightarrow> nat \<Rightarrow> nat \<Rightarrow> nat option rd" where
  "seek_loop sk buf tag 0 = throw Fuel_exhausted"
| "seek_loop sk buf tag (Suc f) =
    rbind (hasEnd buf) (\<lambda>e. if e then ret None else
    rbind (peek_head buf) (\<lambda>(nextHeadType, nextHeadTag, len).
      if nextHeadType = eStructEnd \<or> tag < nextHeadTag then ret None
      else if tag = nextHeadTag then rbind (head_skip len) (\<lambda>_. ret (Some nextHeadType))
      else rbind (head_skip len) (\<lambda>_. rbind (sk nextHeadType) (\<lambda>_. seek_loop sk buf tag f))))"

definition TarsSkipToTag :: "(nat \<Rightarrow> unit rd) \<Rightarrow> bytes \<Rightarrow> nat \<Rightarrow> nat \<Rightarrow> nat option rd" where
  "TarsSkipToTag sk buf f tag = catch_decode (seek_loop sk buf tag f) None"

text \<open>
  A read of a field: the value read by its type when the field is there; when it is absent, an
  exception if it is required and the old value of the variable otherwise.
\<close>

definition read_field :: "(nat \<Rightarrow> nat option rd) \<Rightarrow> nat \<Rightarrow> bool \<Rightarrow> 'a \<Rightarrow> (nat \<Rightarrow> 'a rd) \<Rightarrow> 'a rd" where
  "read_field seek tag isRequire old body =
    rbind (seek tag) (\<lambda>r. case r of
      Some headType \<Rightarrow> body headType
    | None \<Rightarrow> if isRequire then throw TarsDecodeRequireNotExist else ret old)"

text \<open>
  The integers: the value is stored in network byte order at the narrowest width and extended
  with its sign by every wider reader. \<open>char\<close> is signed, as on x86.
\<close>

definition be_word :: "bytes \<Rightarrow> 'a::len word" where
  "be_word bs = word_of_nat (be_val bs)"

definition read_Int64_body :: "bytes \<Rightarrow> nat \<Rightarrow> u64 rd" where
  "read_Int64_body buf headType =
    (if headType = eZeroTag then ret 0
     else if headType = eChar then
       rbind (read_buf buf 1) (\<lambda>bs. ret (scast (be_word bs :: byte)))
     else if headType = eShort then
       rbind (read_buf buf 2) (\<lambda>bs. ret (scast (be_word bs :: u16)))
     else if headType = eInt32 then
       rbind (read_buf buf 4) (\<lambda>bs. ret (scast (be_word bs :: u32)))
     else if headType = eInt64 then rbind (read_buf buf 8) (\<lambda>bs. ret (be_word bs))
     else throw TarsDecodeMismatch)"

definition read_Int64 :: "(nat \<Rightarrow> nat option rd) \<Rightarrow> bytes \<Rightarrow> u64 \<Rightarrow> nat \<Rightarrow> bool \<Rightarrow> u64 rd" where
  "read_Int64 seek buf n tag isRequire = read_field seek tag isRequire n (read_Int64_body buf)"

definition read_UInt32 :: "(nat \<Rightarrow> nat option rd) \<Rightarrow> bytes \<Rightarrow> u32 \<Rightarrow> nat \<Rightarrow> bool \<Rightarrow> u32 rd" where
  "read_UInt32 seek buf n tag isRequire =
    rbind (read_Int64 seek buf (ucast n) tag isRequire) (\<lambda>i. ret (ucast i))"

primrec repeat_rd :: "nat \<Rightarrow> unit rd \<Rightarrow> unit rd" where
  "repeat_rd 0 m = ret ()"
| "repeat_rd (Suc n) m = rbind m (\<lambda>_. repeat_rd n m)"

text \<open>\<open>skipField()\<close>, which reads the head, and \<open>skipToStructEnd\<close>.\<close>

definition skip_next :: "(nat \<Rightarrow> unit rd) \<Rightarrow> bytes \<Rightarrow> unit rd" where
  "skip_next sk buf = rbind (read_head buf) (\<lambda>(headType, _). sk headType)"

primrec struct_loop :: "(nat \<Rightarrow> unit rd) \<Rightarrow> bytes \<Rightarrow> nat \<Rightarrow> unit rd" where
  "struct_loop sk buf 0 = throw Fuel_exhausted"
| "struct_loop sk buf (Suc f) =
    rbind (read_head buf) (\<lambda>(headType, _). rbind (sk headType) (\<lambda>_.
      if headType \<noteq> eStructEnd then struct_loop sk buf f else ret ()))"

text \<open>
  \<open>skipField(type)\<close>. The bytes of a scalar or a string are passed over without a look at the end
  of the buffer; the number of the fields of a map, \<open>size * 2\<close>, is computed in 32 bits.
\<close>

primrec skip_field :: "bytes \<Rightarrow> nat \<Rightarrow> nat \<Rightarrow> unit rd" where
  "skip_field buf 0 = (\<lambda>ty. throw Fuel_exhausted)"
| "skip_field buf (Suc f) = (\<lambda>ty.
    let size = read_UInt32 (TarsSkipToTag (skip_field buf f) buf (Suc f)) buf 0 0 True in
    if ty = eChar then head_skip 1
    else if ty = eShort then head_skip 2
    else if ty = eInt32 then head_skip 4
    else if ty = eInt64 then head_skip 8
    else if ty = eFloat then head_skip 4
    else if ty = eDouble then head_skip 8
    else if ty = eString1 then rbind (read_buf buf 1) (\<lambda>bs. head_skip (be_val bs))
    else if ty = eString4 then rbind (read_buf buf 4) (\<lambda>bs. head_skip (be_val bs))
    else if ty = eMap then
      rbind size (\<lambda>n. repeat_rd (unat (n * 2)) (skip_next (skip_field buf f) buf))
    else if ty = eList then
      rbind size (\<lambda>n. repeat_rd (unat n) (skip_next (skip_field buf f) buf))
    else if ty = eSimpleList then
      rbind (read_head buf) (\<lambda>(headType, _).
        if headType \<noteq> eChar then throw TarsDecodeMismatch
        else rbind size (\<lambda>n. head_skip (unat n)))
    else if ty = eStructBegin then struct_loop (skip_field buf f) buf (Suc f)
    else if ty = eStructEnd \<or> ty = eZeroTag then ret ()
    else throw TarsDecodeMismatch)"

text \<open>The routines of a stream on the buffer \<open>buf\<close>.\<close>

definition tars_fuel :: "bytes \<Rightarrow> nat" where
  "tars_fuel buf = Suc (length buf)"

definition skipField :: "bytes \<Rightarrow> nat \<Rightarrow> unit rd" where
  "skipField buf = skip_field buf (tars_fuel buf)"

definition skipToStructEnd :: "bytes \<Rightarrow> unit rd" where
  "skipToStructEnd buf = struct_loop (skipField buf) buf (tars_fuel buf)"

definition seek_tag :: "bytes \<Rightarrow> nat \<Rightarrow> nat option rd" where
  "seek_tag buf = TarsSkipToTag (skipField buf) buf (tars_fuel buf)"

end
