(* ===== verification/TarsFuel.thy ===== *)
theory TarsFuel
  imports TarsStream
begin

text \<open>
  The fuel of the Tars stream is never used up: the cursor only moves forwards, every round and
  every level of the routines that skip a field consumes a byte of the buffer, and so two fuels
  larger than the number of the bytes left give the same result, which is not \<open>Fuel_exhausted\<close>.
\<close>

section \<open>The cursor moves forwards\<close>

definition advancing :: "'a rd \<Rightarrow> bool" where
  "advancing m \<longleftrightarrow> (\<forall>c. c \<le> snd (m c))"

named_theorems advancing_intros \<open>routines that never move the cursor back\<close>

lemma advancingD: "advancing m \<Longrightarrow> m c = (r, d) \<Longrightarrow> c \<le> d"
  by (metis advancing_def snd_conv)

lemma advancing_basic [advancing_intros]:
  "advancing (ret x)" "advancing (throw e)" "advancing (head_skip n)" "advancing (read_buf buf n)"
  "advancing (hasEnd buf)" "advancing (peek_head buf)" "advancing (Pair r)"
  by (simp_all add: advancing_def head_skip_def read_buf_def hasEnd_def peek_head_alt Let_def)

lemma advancing_rbind [advancing_intros]:
  assumes "advancing m" and "\<And>x. advancing (k x)"
  shows "advancing (rbind m k)"
  unfolding advancing_def
proof
  fix c
  show "c \<le> snd (rbind m k c)"
  proof (cases rule: rbind_cases [of m c k])
    case (Inr x d)
    have "d \<le> snd (k x d)" using assms(2) by (simp add: advancing_def)
    with Inr advancingD [OF assms(1)] show ?thesis by (metis order_trans)
  qed (use advancingD [OF assms(1)] in simp)
qed

lemma advancing_catch [advancing_intros]: "advancing m \<Longrightarrow> advancing (catch_decode m x)"
  by (simp add: advancing_def catch_decode_def split: prod.split sum.split) (metis snd_conv)

lemma advancing_if [advancing_intros]:
  "(b \<Longrightarrow> advancing m) \<Longrightarrow> (\<not> b \<Longrightarrow> advancing m') \<Longrightarrow> advancing (if b then m else m')"
  by simp

lemma advancing_case [advancing_intros]:
  "(\<And>x y. advancing (f x y)) \<Longrightarrow> advancing (case p of (x, y) \<Rightarrow> f x y)"
  "(\<And>x. advancing (g x)) \<Longrightarrow> advancing h \<Longrightarrow> advancing (case r of Some x \<Rightarrow> g x | None \<Rightarrow> h)"
  by (auto split: prod.split option.split)

lemma advancing_read_head [advancing_intros]: "advancing (read_head buf)"
  unfolding read_head_def by (intro advancing_intros)

lemma advancing_seek [advancing_intros]:
  assumes "\<And>ty. advancing (sk ty)"
  shows "advancing (seek_loop sk buf tag f)" and "advancing (TarsSkipToTag sk buf f tag)"
proof -
  show "advancing (seek_loop sk buf tag f)"
    by (induction f) (auto intro!: advancing_intros assms)
  then show "advancing (TarsSkipToTag sk buf f tag)"
    unfolding TarsSkipToTag_def by (rule advancing_catch)
qed

lemma advancing_read_field [advancing_intros]:
  "advancing (seek tag) \<Longrightarrow> (\<And>ty. advancing (body ty)) \<Longrightarrow>
    advancing (read_field seek tag isRequire old body)"
  unfolding read_field_def by (intro advancing_intros)

lemma advancing_read_int [advancing_intros]:
  "advancing (seek tag) \<Longrightarrow> advancing (read_Int64 seek buf n tag isRequire)"
  "advancing (seek tag) \<Longrightarrow> advancing (read_UInt32 seek buf m tag isRequire)"
  unfolding read_UInt32_def read_Int64_def read_Int64_body_def by (intro advancing_intros; assumption)+

lemma advancing_skip_loops [advancing_intros]:
  "advancing m \<Longrightarrow> advancing (repeat_rd n m)"
  "(\<And>ty. advancing (sk ty)) \<Longrightarrow> advancing (skip_next sk buf)"
  "(\<And>ty. advancing (sk ty)) \<Longrightarrow> advancing (struct_loop sk buf f)"
proof -
  show "advancing m \<Longrightarrow> advancing (repeat_rd n m)"
    by (induction n) (auto intro!: advancing_intros)
  show "(\<And>ty. advancing (sk ty)) \<Longrightarrow> advancing (skip_next sk buf)"
    unfolding skip_next_def by (intro advancing_intros)
  show "(\<And>ty. advancing (sk ty)) \<Longrightarrow> advancing (struct_loop sk buf f)"
    by (induction f) (auto intro!: advancing_intros)
qed

lemma advancing_skip_field [advancing_intros]: "advancing (skip_field buf f ty)"
  by (induction f arbitrary: ty) (auto simp: Let_def intro!: advancing_intros)

lemma advancing_top [advancing_intros]:
  "advancing (skipField buf ty)" "advancing (seek_tag buf tag)" "advancing (skipToStructEnd buf)"
  unfolding skipField_def seek_tag_def skipToStructEnd_def by (intro advancing_intros)+

section \<open>Runs that agree and do not use up their fuel\<close>

definition agree :: "'a rd \<Rightarrow> 'a rd \<Rightarrow> nat \<Rightarrow> bool" where
  "agree m m' c \<longleftrightarrow> m c = m' c \<and> fst (m c) \<noteq> Inl Fuel_exhausted"

named_theorems agree_intros \<open>runs that agree\<close>

lemma agreeD: "agree m m' c \<Longrightarrow> m c = m' c" "agree m m' c \<Longrightarrow> fst (m c) \<noteq> Inl Fuel_exhausted"
  unfolding agree_def by blast+

lemma agree_basic [agree_intros]:
  "agree (ret x) (ret x) c" "e \<noteq> Fuel_exhausted \<Longrightarrow> agree (throw e) (throw e) c"
  "agree (head_skip n) (head_skip n) c" "agree (read_buf buf n) (read_buf buf n) c"
  "agree (hasEnd buf) (hasEnd buf) c" "agree (peek_head buf) (peek_head buf) c"
  "r \<noteq> Inl Fuel_exhausted \<Longrightarrow> agree (Pair r) (Pair r) c"
  by (simp_all add: agree_def head_skip_def read_buf_def hasEnd_def peek_head_alt Let_def)

lemma agree_rbind:
  assumes "agree m m' c" and "\<And>x d. m c = (Inr x, d) \<Longrightarrow> agree (k x) (k' x) d"
  shows "agree (rbind m k) (rbind m' k') c"
proof (cases rule: rbind_cases [of m c k])
  case (Inl e d)
  with assms(1) have "m' c = (Inl e, d)" "e \<noteq> Fuel_exhausted" by (auto simp: agree_def)
  with Inl show ?thesis by (simp add: agree_def)
next
  case (Inr x d)
  with assms(1) have "m' c = (Inr x, d)" by (auto simp: agree_def)
  with Inr assms(2) [OF Inr(1)] show ?thesis by (auto simp: agree_def)
qed

lemma agree_read_head [agree_intros]: "agree (read_head buf) (read_head buf) c"
proof -
  have "fst (read_head buf c) \<noteq> Inl Fuel_exhausted"
    using read_head_Inl [of buf c Fuel_exhausted] by (metis prod.collapse tars_exn.distinct(7))
  then show ?thesis by (simp add: agree_def)
qed

lemma agree_catch [agree_intros]: "agree m m' c \<Longrightarrow> agree (catch_decode m x) (catch_decode m' x) c"
  by (auto simp: agree_def catch_decode_def split: prod.splits sum.splits)

lemma agree_if [agree_intros]:
  "(b \<Longrightarrow> agree m m' c) \<Longrightarrow> (\<not> b \<Longrightarrow> agree n n' c) \<Longrightarrow>
    agree (if b then m else n) (if b then m' else n') c"
  by simp

lemma agree_read_field:
  assumes "agree (seek tag) (seek' tag) c" and "\<And>ty d. agree (body ty) (body' ty) d"
  shows "agree (read_field seek tag isRequire old body) (read_field seek' tag isRequire old body') c"
  unfolding read_field_def
  by (rule agree_rbind [OF assms(1)])
    (auto split: option.split intro!: agree_intros assms(2))

lemma agree_read_int:
  assumes "agree (seek tag) (seek' tag) c"
  shows "agree (read_Int64 seek buf n tag isRequire) (read_Int64 seek' buf n tag isRequire) c"
    and "agree (read_UInt32 seek buf m tag isRequire) (read_UInt32 seek' buf m tag isRequire) c"
proof -
  have *: "agree (read_Int64_body buf ty) (read_Int64_body buf ty) d" for ty d
    unfolding read_Int64_body_def by (auto intro!: agree_intros agree_rbind)
  show "agree (read_Int64 seek buf n tag isRequire) (read_Int64 seek' buf n tag isRequire) c" for n
    unfolding read_Int64_def by (rule agree_read_field) (rule assms, rule *)
  then show "agree (read_UInt32 seek buf m tag isRequire) (read_UInt32 seek' buf m tag isRequire) c"
    unfolding read_UInt32_def by (rule agree_rbind) (rule agree_basic)
qed

text \<open>The loops, above a cursor from which the routines that skip a field agree.\<close>

definition agree_above :: "bytes \<Rightarrow> (nat \<Rightarrow> unit rd) \<Rightarrow> (nat \<Rightarrow> unit rd) \<Rightarrow> nat \<Rightarrow> bool" where
  "agree_above buf sk sk' c \<longleftrightarrow> (\<forall>ty d. c < d \<longrightarrow> d \<le> length buf \<longrightarrow> agree (sk ty) (sk' ty) d)"

lemma agree_above_mono: "agree_above buf sk sk' c \<Longrightarrow> c \<le> d \<Longrightarrow> agree_above buf sk sk' d"
  by (simp add: agree_above_def)

lemma agree_skip_next: "agree_above buf sk sk' c \<Longrightarrow> agree (skip_next sk buf) (skip_next sk' buf) c"
  unfolding skip_next_def
  by (rule agree_rbind [OF agree_read_head]) (auto simp: agree_above_def dest: read_head_Inr)

lemma agree_repeat:
  assumes "\<And>d. c \<le> d \<Longrightarrow> agree m m' d" and "advancing m"
  shows "c \<le> d \<Longrightarrow> agree (repeat_rd n m) (repeat_rd n m') d"
proof (induction n arbitrary: d)
  case (Suc n)
  then show ?case
    by (auto intro!: agree_rbind assms(1) dest: advancingD [OF assms(2)])
qed (simp add: agree_def)

lemma agree_struct_loop:
  assumes "\<And>ty. advancing (sk ty)"
  shows "agree_above buf sk sk' c \<Longrightarrow> length buf - c < f \<Longrightarrow> length buf - c < f' \<Longrightarrow>
    agree (struct_loop sk buf f) (struct_loop sk' buf f') c"
proof (induction f arbitrary: f' c)
  case (Suc f)
  from Suc.prems obtain g where f': "f' = Suc g" by (cases f') auto
  have "agree (rbind (sk ty) (\<lambda>_. if ty \<noteq> 11 then struct_loop sk buf f else ret ()))
      (rbind (sk' ty) (\<lambda>_. if ty \<noteq> 11 then struct_loop sk' buf g else ret ())) d"
    if d: "read_head buf c = (Inr (ty, t), d)" for ty t d
  proof (rule agree_rbind)
    from read_head_Inr [OF d] have d': "c < d" "d \<le> length buf" by simp_all
    with Suc.prems(1) show "agree (sk ty) (sk' ty) d" by (simp add: agree_above_def)
    fix x e
    assume "sk ty d = (Inr x, e)"
    with d' advancingD [OF assms] have "d \<le> e" by blast
    with d' have "length buf - e < f" "length buf - e < g" "c \<le> e" using Suc.prems f' by auto
    with Suc.IH [of e g] agree_above_mono [OF Suc.prems(1)]
    show "agree (if ty \<noteq> 11 then struct_loop sk buf f else ret ())
        (if ty \<noteq> 11 then struct_loop sk' buf g else ret ()) e"
      by (auto intro: agree_intros)
  qed
  then show ?case unfolding f' struct_loop.simps
    by (intro agree_rbind agree_read_head) auto
qed simp

lemma hasEnd_cursor: "hasEnd buf c = (r, d) \<Longrightarrow> d = c"
  by (auto simp: hasEnd_def split: if_splits)

lemma agree_seek_loop:
  assumes "\<And>ty. advancing (sk ty)"
  shows "agree_above buf sk sk' c \<Longrightarrow> length buf - c < f \<Longrightarrow> length buf - c < f' \<Longrightarrow>
    agree (seek_loop sk buf tag f) (seek_loop sk' buf tag f') c"
proof (induction f arbitrary: f' c)
  case (Suc f)
  from Suc.prems obtain g where f': "f' = Suc g" by (cases f') auto
  have skip: "agree (rbind (head_skip n) (\<lambda>_. rbind (sk ty) (\<lambda>_. seek_loop sk buf tag f)))
      (rbind (head_skip n) (\<lambda>_. rbind (sk' ty) (\<lambda>_. seek_loop sk' buf tag g))) d"
    if p: "peek_head buf c = (Inr (ty, t, n), d)" for ty t n d
    unfolding peek_head_Inr(1) [OF p]
  proof (intro agree_rbind agree_basic)
    fix x d
    assume "head_skip n c = (Inr x, d)"
    with peek_head_Inr [OF p] have d': "c < d" "d \<le> length buf" by (auto simp: head_skip_def)
    with Suc.prems(1) show "agree (sk ty) (sk' ty) d" by (simp add: agree_above_def)
    fix y e
    assume "sk ty d = (Inr y, e)"
    with d' advancingD [OF assms] have "d \<le> e" by blast
    with d' have "length buf - e < f" "length buf - e < g" "c \<le> e" using Suc.prems f' by auto
    with Suc.IH [of e g] agree_above_mono [OF Suc.prems(1)]
    show "agree (seek_loop sk buf tag f) (seek_loop sk' buf tag g) e" by auto
  qed
  have found: "agree (rbind (head_skip n) (\<lambda>_. ret (Some ty))) (rbind (head_skip n) (\<lambda>_. ret (Some ty))) d"
    for n ty d by (intro agree_rbind agree_basic)
  have "agree (if e then ret None else rbind (peek_head buf) (\<lambda>(ty, t, n).
          if ty = 11 \<or> tag < t then ret None
          else if tag = t then rbind (head_skip n) (\<lambda>_. ret (Some ty))
          else rbind (head_skip n) (\<lambda>_. rbind (sk ty) (\<lambda>_. seek_loop sk buf tag f))))
        (if e then ret None else rbind (peek_head buf) (\<lambda>(ty, t, n).
          if ty = 11 \<or> tag < t then ret None
          else if tag = t then rbind (head_skip n) (\<lambda>_. ret (Some ty))
          else rbind (head_skip n) (\<lambda>_. rbind (sk' ty) (\<lambda>_. seek_loop sk' buf tag g)))) c" for e
    apply (intro agree_if agree_rbind [of "peek_head buf"] agree_basic)
    subgoal for x d
      by (cases x rule: prod_cases3, simp only: prod.case, intro agree_if agree_basic found)
        (erule skip)
    done
  then show ?case unfolding f' seek_loop.simps
    by (intro agree_rbind [of "hasEnd buf"] agree_basic) (drule hasEnd_cursor, simp only:)
qed simp

text \<open>Tag 0 is the smallest: seeking it skips nothing, whatever the fuel and the routine.\<close>

lemma agree_seek_0: "agree (TarsSkipToTag sk buf (Suc f) 0) (TarsSkipToTag sk' buf (Suc f') 0) c"
  unfolding TarsSkipToTag_def seek_loop.simps
  by (intro agree_catch agree_rbind agree_intros)
    (auto intro!: agree_intros agree_rbind split: prod.splits)

lemma agree_skip_field:
  "length buf - c < f \<Longrightarrow> length buf - c < f' \<Longrightarrow> agree (skip_field buf f ty) (skip_field buf f' ty) c"
proof (induction f arbitrary: f' c ty)
  case (Suc f)
  from Suc.prems obtain g where f': "f' = Suc g" by (cases f') auto
  have above: "agree_above buf (skip_field buf f) (skip_field buf g) d" if "c \<le> d" for d
    unfolding agree_above_def using Suc.prems f' that by (auto intro!: Suc.IH)
  have size: "agree (read_UInt32 (TarsSkipToTag (skip_field buf f) buf (Suc f)) buf 0 0 True)
      (read_UInt32 (TarsSkipToTag (skip_field buf g) buf (Suc g)) buf 0 0 True) d" for d
    by (rule agree_read_int(2)) (rule agree_seek_0)
  have next_agree: "agree (repeat_rd n (skip_next (skip_field buf f) buf))
      (repeat_rd n (skip_next (skip_field buf g) buf)) d" if "c \<le> d" for n d
    by (rule agree_repeat [of c]) (auto intro!: agree_skip_next above advancing_intros that)
  have elems: "agree (rbind (read_UInt32 (TarsSkipToTag (skip_field buf f) buf (Suc f)) buf 0 0 True)
       (\<lambda>n. repeat_rd (h n) (skip_next (skip_field buf f) buf)))
     (rbind (read_UInt32 (TarsSkipToTag (skip_field buf g) buf (Suc g)) buf 0 0 True)
       (\<lambda>n. repeat_rd (h n) (skip_next (skip_field buf g) buf))) c" for h
    by (rule agree_rbind [OF size], rule next_agree)
      (erule advancingD [rotated], intro advancing_intros)
  have simple: "agree (rbind (read_head buf) (\<lambda>(headType, _).
        if headType \<noteq> 0 then throw TarsDecodeMismatch
        else rbind (read_UInt32 (TarsSkipToTag (skip_field buf f) buf (Suc f)) buf 0 0 True)
          (\<lambda>n. head_skip (unat n))))
      (rbind (read_head buf) (\<lambda>(headType, _).
        if headType \<noteq> 0 then throw TarsDecodeMismatch
        else rbind (read_UInt32 (TarsSkipToTag (skip_field buf g) buf (Suc g)) buf 0 0 True)
          (\<lambda>n. head_skip (unat n)))) c"
    by (rule agree_rbind [OF agree_read_head])
      (auto intro!: agree_intros agree_rbind size)
  have struct: "agree (struct_loop (skip_field buf f) buf (Suc f))
      (struct_loop (skip_field buf g) buf (Suc g)) c"
    using Suc.prems f' by (intro agree_struct_loop above advancing_intros) auto
  show ?case unfolding f' skip_field.simps Let_def
    by (intro agree_if elems simple struct agree_rbind agree_basic) simp_all
qed simp

section \<open>The fuel of the stream is enough\<close>

lemma agree_skipField: "length buf - c < f \<Longrightarrow> agree (skip_field buf f ty) (skipField buf ty) c"
  unfolding skipField_def tars_fuel_def by (rule agree_skip_field) simp_all

lemma skip_field_fuel: "length buf - c < f \<Longrightarrow> skip_field buf f ty c = skipField buf ty c"
  by (rule agreeD(1) [OF agree_skipField])

lemma agree_above_skipField: "agree_above buf (skipField buf) (skipField buf) c"
  unfolding agree_above_def skipField_def tars_fuel_def
  by (intro allI impI agree_skip_field) simp_all

lemma agree_seek_tag [agree_intros]: "agree (seek_tag buf tag) (seek_tag buf tag) c"
  unfolding seek_tag_def TarsSkipToTag_def tars_fuel_def
  by (intro agree_catch agree_seek_loop agree_above_skipField advancing_intros) simp_all

lemma agree_skipToStructEnd [agree_intros]: "agree (skipToStructEnd buf) (skipToStructEnd buf) c"
  unfolding skipToStructEnd_def tars_fuel_def
  by (intro agree_struct_loop agree_above_skipField advancing_intros) simp_all

lemma seek_loop_fuel:
  "length buf - c < f \<Longrightarrow> length buf - c < f' \<Longrightarrow>
    seek_loop (skipField buf) buf tag f c = seek_loop (skipField buf) buf tag f' c"
  by (rule agreeD(1) [OF agree_seek_loop [OF _ agree_above_skipField]]) (simp_all add: advancing_intros)

lemma struct_loop_fuel:
  "length buf - c < f \<Longrightarrow> struct_loop (skipField buf) buf f c = skipToStructEnd buf c"
  unfolding skipToStructEnd_def tars_fuel_def
  by (rule agreeD(1) [OF agree_struct_loop [OF _ agree_above_skipField]]) (simp_all add: advancing_intros)

text \<open>The equations of \<open>skipField\<close> in the source, free of fuel.\<close>

lemma agree_above_inner: "agree_above buf (skip_field buf (length buf)) (skipField buf) c"
  unfolding agree_above_def by (intro allI impI agree_skipField) simp

lemma skipField_struct: "skipField buf eStructBegin = skipToStructEnd buf"
proof
  fix c
  have "skipField buf 10 c = struct_loop (skip_field buf (length buf)) buf (Suc (length buf)) c"
    by (simp add: skipField_def tars_fuel_def)
  also have "\<dots> = skipToStructEnd buf c"
    unfolding skipToStructEnd_def tars_fuel_def
    by (rule agreeD(1) [OF agree_struct_loop [OF _ agree_above_inner]]) (simp_all add: advancing_intros)
  finally show "skipField buf 10 c = skipToStructEnd buf c" .
qed

lemma size_inner:
  "read_UInt32 (TarsSkipToTag sk buf (Suc f)) buf 0 0 True = read_UInt32 (seek_tag buf) buf 0 0 True"
  unfolding seek_tag_def tars_fuel_def
  by (rule ext, rule agreeD(1) [OF agree_read_int(2)], rule agree_seek_0)

lemma repeat_inner:
  "repeat_rd n (skip_next (skip_field buf (length buf)) buf) = repeat_rd n (skip_next (skipField buf) buf)"
  by (rule ext, rule agreeD(1) [OF agree_repeat [of 0]])
    (simp_all add: agree_skip_next agree_above_inner advancing_intros)

lemma skipField_elems:
  "skipField buf eList = rbind (read_UInt32 (seek_tag buf) buf 0 0 True)
     (\<lambda>n. repeat_rd (unat n) (skip_next (skipField buf) buf))"
  "skipField buf eMap = rbind (read_UInt32 (seek_tag buf) buf 0 0 True)
     (\<lambda>n. repeat_rd (unat (n * 2)) (skip_next (skipField buf) buf))"
  "skipField buf eSimpleList = rbind (read_head buf) (\<lambda>(headType, _).
     if headType \<noteq> eChar then throw TarsDecodeMismatch
     else rbind (read_UInt32 (seek_tag buf) buf 0 0 True) (\<lambda>n. head_skip (unat n)))"
  by (subst skipField_def, simp add: tars_fuel_def Let_def size_inner repeat_inner)+

lemma skipField_scalar:
  "skipField buf eChar = head_skip 1" "skipField buf eShort = head_skip 2"
  "skipField buf eInt32 = head_skip 4" "skipField buf eInt64 = head_skip 8"
  "skipField buf eFloat = head_skip 4" "skipField buf eDouble = head_skip 8"
  "skipField buf eString1 = rbind (read_buf buf 1) (\<lambda>bs. head_skip (be_val bs))"
  "skipField buf eString4 = rbind (read_buf buf 4) (\<lambda>bs. head_skip (be_val bs))"
  "skipField buf eStructEnd = ret ()" "skipField buf eZeroTag = ret ()"
  by (simp_all add: skipField_def tars_fuel_def)

lemmas skipField_simps = skipField_scalar skipField_elems skipField_struct

end
