(* ===== verification/TarsValues.thy ===== *)
theory TarsValues
  imports TarsFuel
begin

text \<open>
  The values of the Tars encoding (\<open>TarsOutputStream::write\<close>, \<open>TarsInputStream::read\<close>): integers,
  strings, vectors and structs. A writer gives the bytes it appends to the stream or the exception
  it throws. A reader takes the old value of its variable, the tag and whether the field is
  required. The locale \<open>tars_codec\<close> states what a pair of them promises: the image of a value is one
  field that the stream can skip, reading it gives the value back, and a reader depends on the
  stream through \<open>seek_tag\<close> only; it is interpreted for every type of value of the transactions.
\<close>

section \<open>Integers\<close>

definition write_Char :: "byte \<Rightarrow> nat \<Rightarrow> bytes" where
  "write_Char n tag = (if n = 0 then write_head eZeroTag tag else write_head eChar tag @ [n])"

definition write_Bool :: "bool \<Rightarrow> nat \<Rightarrow> bytes" where
  "write_Bool b tag = write_Char (if b then 1 else 0) tag"

definition write_Short :: "u16 \<Rightarrow> nat \<Rightarrow> bytes" where
  "write_Short n tag =
    (if - 128 \<le> sint n \<and> sint n \<le> 127 then write_Char (scast n) tag
     else write_head eShort tag @ be_bytes 2 (unat n))"

definition write_UInt8 :: "byte \<Rightarrow> nat \<Rightarrow> bytes" where
  "write_UInt8 n tag = write_Short (ucast n) tag"

definition write_Int32 :: "u32 \<Rightarrow> nat \<Rightarrow> bytes" where
  "write_Int32 n tag =
    (if - 32768 \<le> sint n \<and> sint n \<le> 32767 then write_Short (scast n) tag
     else write_head eInt32 tag @ be_bytes 4 (unat n))"

definition write_UInt16 :: "u16 \<Rightarrow> nat \<Rightarrow> bytes" where
  "write_UInt16 n tag = write_Int32 (ucast n) tag"

definition write_Int64 :: "u64 \<Rightarrow> nat \<Rightarrow> bytes" where
  "write_Int64 n tag =
    (if - 2147483648 \<le> sint n \<and> sint n \<le> 2147483647 then write_Int32 (scast n) tag
     else write_head eInt64 tag @ be_bytes 8 (unat n))"

definition write_UInt32 :: "u32 \<Rightarrow> nat \<Rightarrow> bytes" where
  "write_UInt32 n tag = write_Int64 (ucast n) tag"

definition read_Char :: "bytes \<Rightarrow> byte \<Rightarrow> nat \<Rightarrow> bool \<Rightarrow> byte rd" where
  "read_Char buf n tag isRequire =
    read_field (seek_tag buf) tag isRequire n (\<lambda>headType.
      if headType = eZeroTag then ret 0
      else if headType = eChar then rbind (read_buf buf 1) (\<lambda>bs. ret (be_word bs))
      else throw TarsDecodeMismatch)"

definition read_Bool :: "bytes \<Rightarrow> bool \<Rightarrow> nat \<Rightarrow> bool \<Rightarrow> bool rd" where
  "read_Bool buf b tag isRequire =
    rbind (read_Char buf (if b then 1 else 0) tag isRequire) (\<lambda>c. ret (c \<noteq> 0))"

definition read_Short :: "bytes \<Rightarrow> u16 \<Rightarrow> nat \<Rightarrow> bool \<Rightarrow> u16 rd" where
  "read_Short buf n tag isRequire =
    read_field (seek_tag buf) tag isRequire n (\<lambda>headType.
      if headType = eZeroTag then ret 0
      else if headType = eChar then
        rbind (read_buf buf 1) (\<lambda>bs. ret (scast (be_word bs :: byte)))
      else if headType = eShort then rbind (read_buf buf 2) (\<lambda>bs. ret (be_word bs))
      else throw TarsDecodeMismatch)"

definition read_UInt8 :: "bytes \<Rightarrow> byte \<Rightarrow> nat \<Rightarrow> bool \<Rightarrow> byte rd" where
  "read_UInt8 buf n tag isRequire =
    rbind (read_Short buf (ucast n) tag isRequire) (\<lambda>i. ret (ucast i))"

definition read_Int32 :: "bytes \<Rightarrow> u32 \<Rightarrow> nat \<Rightarrow> bool \<Rightarrow> u32 rd" where
  "read_Int32 buf n tag isRequire =
    read_field (seek_tag buf) tag isRequire n (\<lambda>headType.
      if headType = eZeroTag then ret 0
      else if headType = eChar then
        rbind (read_buf buf 1) (\<lambda>bs. ret (scast (be_word bs :: byte)))
      else if headType = eShort then
        rbind (read_buf buf 2) (\<lambda>bs. ret (scast (be_word bs :: u16)))
      else if headType = eInt32 then rbind (read_buf buf 4) (\<lambda>bs. ret (be_word bs))
      else throw TarsDecodeMismatch)"

definition read_UInt16 :: "bytes \<Rightarrow> u16 \<Rightarrow> nat \<Rightarrow> bool \<Rightarrow> u16 rd" where
  "read_UInt16 buf n tag isRequire =
    rbind (read_Int32 buf (ucast n) tag isRequire) (\<lambda>i. ret (ucast i))"

section \<open>Strings\<close>

definition TARS_MAX_STRING_LENGTH :: nat where
  "TARS_MAX_STRING_LENGTH = 100 * 1024 * 1024"

definition write_string :: "string \<Rightarrow> nat \<Rightarrow> tars_exn + bytes" where
  "write_string s tag =
    (if length s > 255 then
       (if length s > TARS_MAX_STRING_LENGTH then Inl TarsDecodeInvalidValue
        else Inr (write_head eString4 tag @ be_bytes 4 (length s) @ bytes_of_string s))
     else Inr (write_head eString1 tag @ be_bytes 1 (length s) @ bytes_of_string s))"

definition read_string_body :: "bytes \<Rightarrow> nat \<Rightarrow> string rd" where
  "read_string_body buf headType =
    rbind
      (if headType = eString1 then rbind (read_buf buf 1) (\<lambda>bs. ret (be_val bs))
       else if headType = eString4 then
         rbind (read_buf buf 4) (\<lambda>bs.
           if be_val bs > TARS_MAX_STRING_LENGTH then throw TarsDecodeInvalidValue
           else ret (be_val bs))
       else throw TarsDecodeMismatch)
      (\<lambda>strLength. rbind (read_buf buf strLength) (\<lambda>bs. ret (string_of_bytes bs)))"

definition read_string :: "bytes \<Rightarrow> string \<Rightarrow> nat \<Rightarrow> bool \<Rightarrow> string rd" where
  "read_string buf s tag isRequire =
    read_field (seek_tag buf) tag isRequire s (read_string_body buf)"

section \<open>Vectors\<close>

text \<open>
  The size is written as \<open>Int32\<close>, with the vector's size cast to it, and read as \<open>UInt32\<close>. The
  elements are read into the vector resized to the size read.
\<close>

primrec write_all :: "('a \<Rightarrow> tars_exn + bytes) \<Rightarrow> 'a list \<Rightarrow> tars_exn + bytes" where
  "write_all w [] = Inr []"
| "write_all w (v # vs) = bindE (w v) (\<lambda>bs. bindE (write_all w vs) (\<lambda>cs. Inr (bs @ cs)))"

definition write_vector :: "('a \<Rightarrow> nat \<Rightarrow> tars_exn + bytes) \<Rightarrow> 'a list \<Rightarrow> nat \<Rightarrow> tars_exn + bytes" where
  "write_vector w vs tag =
    bindE (write_all (\<lambda>v. w v 0) vs) (\<lambda>bs.
      Inr (write_head eList tag @ write_Int32 (word_of_nat (length vs)) 0 @ bs))"

definition write_bytes :: "bytes \<Rightarrow> nat \<Rightarrow> bytes" where
  "write_bytes v tag =
    write_head eSimpleList tag @ write_head eChar 0 @ write_Int32 (word_of_nat (length v)) 0 @ v"

definition vec_resize :: "'a \<Rightarrow> nat \<Rightarrow> 'a list \<Rightarrow> 'a list" where
  "vec_resize d n xs = take n xs @ replicate (n - length xs) d"

primrec read_elems :: "('a \<Rightarrow> 'a rd) \<Rightarrow> 'a list \<Rightarrow> 'a list rd" where
  "read_elems r [] = ret []"
| "read_elems r (v # vs) = rbind (r v) (\<lambda>x. rbind (read_elems r vs) (\<lambda>xs. ret (x # xs)))"

definition read_size :: "bytes \<Rightarrow> nat rd" where
  "read_size buf =
    rbind (read_UInt32 (seek_tag buf) buf 0 0 True) (\<lambda>size.
      if unat size > length buf then throw TarsDecodeInvalidValue else ret (unat size))"

definition read_list_body :: "(bytes \<Rightarrow> 'a \<Rightarrow> nat \<Rightarrow> bool \<Rightarrow> 'a rd) \<Rightarrow> 'a \<Rightarrow> bytes \<Rightarrow> 'a list \<Rightarrow> 'a list rd" where
  "read_list_body r d buf v =
    rbind (read_size buf) (\<lambda>size. read_elems (\<lambda>x. r buf x 0 True) (vec_resize d size v))"

definition read_vector :: "(bytes \<Rightarrow> 'a \<Rightarrow> nat \<Rightarrow> bool \<Rightarrow> 'a rd) \<Rightarrow> 'a \<Rightarrow>
    bytes \<Rightarrow> 'a list \<Rightarrow> nat \<Rightarrow> bool \<Rightarrow> 'a list rd" where
  "read_vector r d buf v tag isRequire =
    read_field (seek_tag buf) tag isRequire v (\<lambda>headType.
      if headType = eList then read_list_body r d buf v else throw TarsDecodeMismatch)"

definition read_bytes_body :: "bytes \<Rightarrow> bytes \<Rightarrow> nat \<Rightarrow> bytes rd" where
  "read_bytes_body buf v headType =
    (if headType = eSimpleList then
       rbind (read_head buf) (\<lambda>(hheadType, _).
         if hheadType \<noteq> eChar then throw TarsDecodeMismatch
         else rbind (read_size buf) (\<lambda>size. read_buf buf size))
     else if headType = eList then read_list_body read_Char 0 buf v
     else throw TarsDecodeMismatch)"

definition read_bytes :: "bytes \<Rightarrow> bytes \<Rightarrow> nat \<Rightarrow> bool \<Rightarrow> bytes rd" where
  "read_bytes buf v tag isRequire =
    read_field (seek_tag buf) tag isRequire v (read_bytes_body buf v)"

section \<open>Structs\<close>

definition write_struct :: "('a \<Rightarrow> tars_exn + bytes) \<Rightarrow> 'a \<Rightarrow> nat \<Rightarrow> tars_exn + bytes" where
  "write_struct writeTo v tag =
    bindE (writeTo v) (\<lambda>bs. Inr (write_head eStructBegin tag @ bs @ write_head eStructEnd 0))"

definition read_struct :: "(bytes \<Rightarrow> 'a rd) \<Rightarrow> bytes \<Rightarrow> 'a \<Rightarrow> nat \<Rightarrow> bool \<Rightarrow> 'a rd" where
  "read_struct readFrom buf v tag isRequire =
    read_field (seek_tag buf) tag isRequire v (\<lambda>headType.
      if headType \<noteq> eStructBegin then throw TarsDecodeMismatch
      else rbind (readFrom buf) (\<lambda>x. rbind (skipToStructEnd buf) (\<lambda>_. ret x)))"

section \<open>Fields\<close>

text \<open>The bytes of the body of a field that the stream skips exactly, after its head.\<close>

definition skips :: "nat \<Rightarrow> bytes \<Rightarrow> bool" where
  "skips ty body \<longleftrightarrow> (\<forall>buf c rest. drop c buf = body @ rest \<longrightarrow>
    skipField buf ty c = (Inr (), c + length body))"

definition is_field :: "nat \<Rightarrow> bytes \<Rightarrow> bool" where
  "is_field tag img \<longleftrightarrow> (\<exists>ty body. img = write_head ty tag @ body \<and> ty < 16 \<and> ty \<noteq> eStructEnd \<and>
    tag < 256 \<and> skips ty body)"

text \<open>What may follow the fields of a struct up to a tag: nothing, the end, or a larger tag.\<close>

definition beyond :: "nat \<Rightarrow> bytes \<Rightarrow> bool" where
  "beyond tag rest \<longleftrightarrow> rest = [] \<or> (\<exists>ty t r. rest = write_head ty t @ r \<and> ty < 16 \<and> t < 256 \<and>
    (ty = eStructEnd \<or> tag < t))"

lemma seek_loop_head:
  assumes "c < length buf" and "peek_head buf c = (Inr (ty, t, n), c)"
  shows "seek_loop sk buf tag (Suc f) c =
    (if ty = eStructEnd \<or> tag < t then (Inr None, c)
     else if tag = t then (Inr (Some ty), c + n)
     else rbind (sk ty) (\<lambda>_. seek_loop sk buf tag f) (c + n))"
  using assms by (simp add: rbind_def [of "hasEnd buf"] rbind_def [of "peek_head buf"]
      rbind_def [of "head_skip n"] hasEnd_def head_skip_def)

lemma seek_tag_unfold:
  "seek_tag buf tag c = catch_decode (seek_loop (skipField buf) buf tag (Suc (length buf))) None c"
  by (simp add: seek_tag_def TarsSkipToTag_def tars_fuel_def)

lemma seek_tag_found:
  assumes "drop c buf = write_head ty tag @ rest" and "ty < 16" and "ty \<noteq> eStructEnd" and "tag < 256"
  shows "seek_tag buf tag c = (Inr (Some ty), c + length (write_head ty tag))"
proof -
  have "c < length buf" using drop_lengthD [OF assms(1)] by simp
  from seek_loop_head [OF this peek_head_write_head [OF assms(1,2,4)]] assms(3) show ?thesis
    by (simp only: seek_tag_unfold catch_decode_def) simp
qed

lemma seek_tag_beyond:
  assumes "drop c buf = rest" and "beyond tag rest"
  shows "seek_tag buf tag c = (Inr None, c)"
proof (cases "rest = []")
  case True
  then have "length buf \<le> c" using assms(1) by simp
  then show ?thesis
    by (cases "c = length buf")
      (simp_all add: seek_tag_unfold catch_decode_def hasEnd_def rbind_def [of "hasEnd buf"])
next
  case False
  with assms(2) obtain ty t r where *: "rest = write_head ty t @ r" "ty < 16" "t < 256"
    "ty = 11 \<or> tag < t" by (auto simp: beyond_def)
  then have "c < length buf" using drop_lengthD [of c buf rest] assms(1) by simp
  from seek_loop_head [OF this peek_head_write_head [of c buf ty t r]] assms(1) * show ?thesis
    by (simp only: seek_tag_unfold catch_decode_def) auto
qed

lemma seek_tag_skip:
  assumes "is_field t img" and "drop c buf = img @ rest" and "t < tag"
  shows "seek_tag buf tag c = seek_tag buf tag (c + length img)"
proof -
  from assms(1) obtain ty body where img: "img = write_head ty t @ body" and ty: "ty < 16" "ty \<noteq> 11"
    and t: "t < 256" and sk: "skips ty body" by (auto simp: is_field_def)
  have c: "c < length buf" using drop_lengthD [OF assms(2)] img by simp
  have d: "drop c buf = write_head ty t @ body @ rest" using assms(2) img by simp
  let ?d = "c + length (write_head ty t)"
  have "skipField buf ty ?d = (Inr (), ?d + length body)"
    using sk drop_appendD [OF d] by (auto simp: skips_def)
  then have "seek_loop (skipField buf) buf tag (Suc (length buf)) c =
      seek_loop (skipField buf) buf tag (length buf) (c + length img)"
    using seek_loop_head [OF c peek_head_write_head [OF d ty(1) t]] ty(2) assms(3) img
    by (simp add: add.assoc del: seek_loop.simps)
  also have "\<dots> = seek_loop (skipField buf) buf tag (Suc (length buf)) (c + length img)"
    using c img by (intro seek_loop_fuel) (simp_all add: write_head_length, linarith)
  finally show ?thesis by (simp only: seek_tag_unfold catch_decode_def)
qed

lemma is_field_beyond: "is_field t img \<Longrightarrow> tag < t \<Longrightarrow> beyond tag (img @ rest)"
  by (fastforce simp: is_field_def beyond_def)

lemma beyond_end [simp]: "beyond tag []" "beyond tag (write_head eStructEnd 0 @ rest)"
  by (force simp: beyond_def)+

lemma skips_simps:
  "skips eZeroTag []" "length bs = 1 \<Longrightarrow> skips eChar bs" "length bs = 2 \<Longrightarrow> skips eShort bs"
  "length bs = 4 \<Longrightarrow> skips eInt32 bs" "length bs = 8 \<Longrightarrow> skips eInt64 bs"
  by (simp_all add: skips_def skipField_scalar head_skip_def del: One_nat_def)

lemma read_buf_prefix: "drop c buf = xs @ ys \<Longrightarrow> n = length xs \<Longrightarrow> xs \<noteq> [] \<or> c \<le> length buf \<Longrightarrow>
    read_buf buf n c = (Inr xs, c + n)"
  by (cases "xs = []") (auto simp: read_buf_def dest!: drop_lengthD)

lemma is_fieldI: "ty < 16 \<Longrightarrow> ty \<noteq> eStructEnd \<Longrightarrow> tag < 256 \<Longrightarrow> skips ty body \<Longrightarrow>
    is_field tag (write_head ty tag @ body)"
  by (auto simp: is_field_def)

section \<open>What a writer and its reader promise\<close>

locale tars_codec =
  fixes wr :: "'a \<Rightarrow> nat \<Rightarrow> tars_exn + bytes"
    and rdr :: "bytes \<Rightarrow> 'a \<Rightarrow> nat \<Rightarrow> bool \<Rightarrow> 'a rd"
    and ok :: "'a \<Rightarrow> bool"
  assumes write_field: "ok x \<Longrightarrow> tag < 256 \<Longrightarrow> \<exists>img. wr x tag = Inr img \<and> is_field tag img"
    and read_write: "ok x \<Longrightarrow> tag < 256 \<Longrightarrow> wr x tag = Inr img \<Longrightarrow> drop c buf = img @ rest \<Longrightarrow>
      rdr buf old tag isRequire c = (Inr x, c + length img)"
    and read_absent: "seek_tag buf tag c = (Inr None, d) \<Longrightarrow>
      rdr buf old tag isRequire c = (if isRequire then Inl TarsDecodeRequireNotExist else Inr old, d)"
    and read_seek: "seek_tag buf tag c = seek_tag buf tag d \<Longrightarrow>
      rdr buf old tag isRequire c = rdr buf old tag isRequire d"
    and read_fuel: "fst (rdr buf old tag isRequire c) \<noteq> Inl Fuel_exhausted"
begin

lemma write_is_field: "ok x \<Longrightarrow> tag < 256 \<Longrightarrow> wr x tag = Inr img \<Longrightarrow> is_field tag img"
  using write_field by fastforce

lemma read_skip: "is_field t img \<Longrightarrow> drop c buf = img @ rest \<Longrightarrow> t < tag \<Longrightarrow>
    rdr buf old tag isRequire c = rdr buf old tag isRequire (c + length img)"
  by (rule read_seek) (rule seek_tag_skip)

lemma read_beyond: "drop c buf = rest \<Longrightarrow> beyond tag rest \<Longrightarrow>
    rdr buf old tag isRequire c = (if isRequire then Inl TarsDecodeRequireNotExist else Inr old, c)"
  by (rule read_absent) (rule seek_tag_beyond)

text \<open>A field that the writer leaves out when it has the default value.\<close>

lemma write_opt:
  assumes "ok x" and "tag < 256"
  shows "\<exists>img. (if p then wr x tag else Inr []) = Inr img \<and> (if p then is_field tag img else img = [])"
  using write_field [OF assms] by auto

lemma read_opt:
  assumes "ok x" and "tag < 256" and "(if p then wr x tag else Inr []) = Inr img"
    and "drop c buf = img @ rest" and "\<not> p \<Longrightarrow> x = old" and "\<not> p \<Longrightarrow> beyond tag rest"
  shows "rdr buf old tag False c = (Inr x, c + length img)"
proof (cases p)
  case True
  with assms show ?thesis by (intro read_write) auto
next
  case False
  then have "img = []" using assms(3) by simp
  with False assms read_beyond [of c buf rest tag old False] show ?thesis by simp
qed

end

text \<open>Readers of the shape every \<open>read\<close> of the source has.\<close>

lemma read_field_absent: "seek tag c = (Inr None, d) \<Longrightarrow>
    read_field seek tag isRequire old body c =
      (if isRequire then Inl TarsDecodeRequireNotExist else Inr old, d)"
  by (simp add: read_field_def rbind_def)

lemma read_field_seek: "seek tag c = seek tag d \<Longrightarrow>
    read_field seek tag isRequire old body c = read_field seek tag isRequire old body d"
  by (simp add: read_field_def rbind_def)

lemma read_field_fuel: "(\<And>ty d. agree (body ty) (body ty) d) \<Longrightarrow>
    agree (read_field (seek_tag buf) tag isRequire old body) (read_field (seek_tag buf) tag isRequire old body) c"
  by (rule agree_read_field) (rule agree_seek_tag)

definition field_of :: "('a \<Rightarrow> nat \<Rightarrow> tars_exn + bytes) \<Rightarrow> (bytes \<Rightarrow> 'a \<Rightarrow> nat \<Rightarrow> 'a rd) \<Rightarrow> 'a \<Rightarrow> nat \<Rightarrow> bytes \<Rightarrow> bool" where
  "field_of wr body x ty b \<longleftrightarrow> ty < 16 \<and> ty \<noteq> eStructEnd \<and> skips ty b \<and>
    (\<forall>tag < 256. wr x tag = Inr (write_head ty tag @ b)) \<and>
    (\<forall>buf old c rest. drop c buf = b @ rest \<longrightarrow> c \<le> length buf \<longrightarrow>
      body buf old ty c = (Inr x, c + length b))"

lemma tars_codecI:
  assumes fields: "\<And>x. ok x \<Longrightarrow> \<exists>ty b. field_of wr body x ty b"
    and rdr: "\<And>buf old tag req. rdr buf old tag req = read_field (seek_tag buf) tag req old (body buf old)"
    and fuel: "\<And>buf old ty c. agree (body buf old ty) (body buf old ty) c"
  shows "tars_codec wr rdr ok"
proof
  fix x tag
  assume "ok x" and t: "tag < (256 :: nat)"
  then obtain ty b where f: "field_of wr body x ty b" using fields by blast
  then have img: "wr x tag = Inr (write_head ty tag @ b)" using t by (simp add: field_of_def)
  then show "\<exists>img. wr x tag = Inr img \<and> is_field tag img"
    using f t by (auto simp: field_of_def intro: is_fieldI)
  fix img c buf rest old req
  assume i: "wr x tag = Inr img" and d: "drop c buf = img @ rest"
  then have d': "drop c buf = write_head ty tag @ b @ rest" using img by simp
  from drop_lengthD [OF d'] have "c + length (write_head ty tag) \<le> length buf" by simp
  with f drop_appendD [OF d'] have "body buf old ty (c + length (write_head ty tag)) =
      (Inr x, c + length (write_head ty tag) + length b)" unfolding field_of_def by blast
  moreover have "seek_tag buf tag c = (Inr (Some ty), c + length (write_head ty tag))"
    using f t by (intro seek_tag_found [OF d']) (auto simp: field_of_def)
  ultimately show "rdr buf old tag req c = (Inr x, c + length img)"
    using i img by (auto simp: rdr read_field_def rbind_def add.assoc)
next
  fix buf tag c d old req
  show "seek_tag buf tag c = (Inr None, d) \<Longrightarrow> rdr buf old tag req c =
      (if req then Inl TarsDecodeRequireNotExist else Inr old, d)"
    unfolding rdr by (rule read_field_absent)
  show "seek_tag buf tag c = seek_tag buf tag d \<Longrightarrow> rdr buf old tag req c = rdr buf old tag req d"
    unfolding rdr by (rule read_field_seek)
  show "fst (rdr buf old tag req c) \<noteq> Inl Fuel_exhausted"
    unfolding rdr by (rule agreeD(2) [OF read_field_fuel]) (rule fuel)
qed

text \<open>Readers that convert the value another reader returns.\<close>

lemma tars_codec_map:
  assumes "tars_codec wr rdr ok" and gf: "\<And>x. g (f x) = x"
  shows "tars_codec (\<lambda>x. wr (f x)) (\<lambda>buf old tag req. rbind (rdr buf (f old) tag req) (\<lambda>y. ret (g y)))
    (\<lambda>x. ok (f x))"
proof -
  note c = tars_codec.write_field [OF assms(1)] tars_codec.read_write [OF assms(1)]
    tars_codec.read_absent [OF assms(1)] tars_codec.read_seek [OF assms(1)]
    tars_codec.read_fuel [OF assms(1)]
  show ?thesis
  proof
    fix buf tag c d old req
    show "seek_tag buf tag c = (Inr None, d) \<Longrightarrow> rbind (rdr buf (f old) tag req) (\<lambda>y. ret (g y)) c =
        (if req then Inl TarsDecodeRequireNotExist else Inr old, d)"
      using c(3) [of buf tag c d "f old" req] by (simp add: rbind_def gf)
    show "seek_tag buf tag c = seek_tag buf tag d \<Longrightarrow> rbind (rdr buf (f old) tag req) (\<lambda>y. ret (g y)) c =
        rbind (rdr buf (f old) tag req) (\<lambda>y. ret (g y)) d"
      using c(4) [of buf tag c d "f old" req] by (simp add: rbind_def)
    show "fst (rbind (rdr buf (f old) tag req) (\<lambda>y. ret (g y)) c) \<noteq> Inl Fuel_exhausted"
      using c(5) [of buf "f old" tag req c] by (auto simp: rbind_def split: prod.splits sum.splits)
  qed (auto simp: gf rbind_def c(1) c(2))
qed

section \<open>Integers are codecs\<close>

text \<open>The head and the body of the narrowest representation of an integer.\<close>

definition int_image :: "int \<Rightarrow> nat \<times> bytes" where
  "int_image k =
    (if k = 0 then (eZeroTag, [])
     else if - 128 \<le> k \<and> k \<le> 127 then (eChar, be_bytes 1 (nat (k mod 2 ^ 8)))
     else if - 32768 \<le> k \<and> k \<le> 32767 then (eShort, be_bytes 2 (nat (k mod 2 ^ 16)))
     else if - 2147483648 \<le> k \<and> k \<le> 2147483647 then (eInt32, be_bytes 4 (nat (k mod 2 ^ 32)))
     else (eInt64, be_bytes 8 (nat (k mod 2 ^ 64))))"

definition write_int :: "int \<Rightarrow> nat \<Rightarrow> bytes" where
  "write_int k tag = write_head (fst (int_image k)) tag @ snd (int_image k)"

lemma int_image_field: "tag < 256 \<Longrightarrow> is_field tag (write_int k tag)"
  unfolding write_int_def by (rule is_fieldI) (auto simp: int_image_def skips_simps simp del: One_nat_def)

lemma sint_word_of_int_id:
  assumes "- (2 ^ (LENGTH('a) - 1)) \<le> k" and "k < 2 ^ (LENGTH('a) - 1)"
  shows "sint (word_of_int k :: 'a::len word) = k"
  using assms by (simp only: sint_sbintrunc' signed_take_bit_int_eq_self)

lemma unat_sint: "unat (n :: 'a::len word) = nat (sint n mod 2 ^ LENGTH('a))"
  by (metis nat_uint_eq take_bit_eq_mod uint_sint)

lemma be_word_image:
  "LENGTH('a) = 8 * m \<Longrightarrow> be_word (be_bytes m (nat (k mod 2 ^ LENGTH('a)))) = (word_of_int k :: 'a::len word)"
proof -
  assume l: "LENGTH('a) = 8 * m"
  have "(256 :: nat) ^ m = 2 ^ LENGTH('a)" by (simp add: l power_mult)
  moreover have "k mod 2 ^ LENGTH('a) < 2 ^ LENGTH('a)" "0 \<le> k mod 2 ^ LENGTH('a)" by simp_all
  ultimately have "nat (k mod 2 ^ LENGTH('a)) < 256 ^ m" by (simp add: nat_less_iff)
  then show ?thesis
    by (simp add: be_word_def of_nat_nat) (metis uint_word_of_int word_of_int_uint)
qed

lemma scast_image:
  fixes k :: int
  assumes "- (2 ^ (LENGTH('a) - 1)) \<le> k" and "k < 2 ^ (LENGTH('a) - 1)"
  shows "scast (word_of_int k :: 'a::len word) = (word_of_int k :: 'b::len word)"
  using assms by (simp only: scast_eq sint_word_of_int_id)

lemma sint_scast_id:
  fixes n :: "'b::len word"
  assumes "- (2 ^ (LENGTH('a) - 1)) \<le> sint n" and "sint n < 2 ^ (LENGTH('a) - 1)"
  shows "sint (scast n :: 'a::len word) = sint n"
  using assms by (simp only: scast_eq sint_word_of_int_id)

lemma be_bytes_1: "be_bytes 1 (unat n) = [n :: byte]"
  by (simp add: be_bytes_def)

lemma sint_bounds:
  "- 128 \<le> sint (a :: byte)" "sint (a :: byte) \<le> 127"
  "- 32768 \<le> sint (b :: u16)" "sint (b :: u16) \<le> 32767"
  "- 2147483648 \<le> sint (c :: u32)" "sint (c :: u32) \<le> 2147483647"
  using sint_ge [of a] sint_lt [of a] sint_ge [of b] sint_lt [of b] sint_ge [of c] sint_lt [of c]
  by simp_all

lemma write_Char_int: "write_Char n tag = write_int (sint n) tag"
proof -
  have "[n] = be_bytes 1 (nat (sint n mod 2 ^ 8))"
    using be_bytes_1 [of n] unat_sint [of n] by simp
  moreover have "n = 0 \<longleftrightarrow> sint n = 0" by (metis signed_0 signed_eq_0_iff)
  ultimately show ?thesis
    using sint_bounds(1,2) [of n] by (simp add: write_Char_def write_int_def int_image_def)
qed

lemma write_Short_int: "write_Short n tag = write_int (sint n) tag"
  using sint_bounds(3,4) [of n] sint_scast_id [where 'a=8, of n]
  by (auto simp: write_Short_def write_Char_int write_int_def int_image_def unat_sint)

lemma write_Int32_int: "write_Int32 n tag = write_int (sint n) tag"
  using sint_bounds(5,6) [of n] sint_scast_id [where 'a=16, of n]
  by (auto simp: write_Int32_def write_Short_int write_int_def int_image_def unat_sint)

lemma write_Int64_int: "write_Int64 n tag = write_int (sint n) tag"
  using sint_scast_id [where 'a=32, of n]
  by (auto simp: write_Int64_def write_Int32_int write_int_def int_image_def unat_sint)

lemma read_image:
  "drop c buf = be_bytes m v @ rest \<Longrightarrow> c \<le> length buf \<Longrightarrow>
    rbind (read_buf buf m) k c = k (be_bytes m v) (c + m)"
  by (simp add: rbind_def read_buf_prefix)

lemma be_word_images:
  "be_word (be_bytes 1 (nat (k mod 256))) = (word_of_int k :: byte)"
  "be_word (be_bytes 2 (nat (k mod 65536))) = (word_of_int k :: u16)"
  "be_word (be_bytes 4 (nat (k mod 4294967296))) = (word_of_int k :: u32)"
  "be_word (be_bytes 8 (nat (k mod 18446744073709551616))) = (word_of_int k :: u64)"
  using be_word_image [where 'a=8, of 1 k] be_word_image [where 'a=16, of 2 k]
    be_word_image [where 'a=32, of 4 k] be_word_image [where 'a=64, of 8 k]
  by simp_all

lemma scast_images:
  "- 128 \<le> k \<Longrightarrow> k \<le> 127 \<Longrightarrow> scast (word_of_int k :: byte) = (word_of_int k :: 'a::len word)"
  "- 32768 \<le> k \<Longrightarrow> k \<le> 32767 \<Longrightarrow> scast (word_of_int k :: u16) = (word_of_int k :: 'a::len word)"
  "- 2147483648 \<le> k \<Longrightarrow> k \<le> 2147483647 \<Longrightarrow> scast (word_of_int k :: u32) = (word_of_int k :: 'a::len word)"
  by (rule scast_image; simp)+

text \<open>The cases of the body of an integer, one for each width the reader knows.\<close>

lemma int_image_cases:
  obtains (zero) "k = 0" "int_image k = (eZeroTag, [])"
  | (char) "- 128 \<le> k" "k \<le> 127" "int_image k = (eChar, be_bytes 1 (nat (k mod 2 ^ 8)))"
  | (short) "- 32768 \<le> k" "k \<le> 32767" "\<not> (- 128 \<le> k \<and> k \<le> 127)"
      "int_image k = (eShort, be_bytes 2 (nat (k mod 2 ^ 16)))"
  | (int32) "- 2147483648 \<le> k" "k \<le> 2147483647" "\<not> (- 32768 \<le> k \<and> k \<le> 32767)"
      "int_image k = (eInt32, be_bytes 4 (nat (k mod 2 ^ 32)))"
  | (int64) "\<not> (- 2147483648 \<le> k \<and> k \<le> 2147483647)"
      "int_image k = (eInt64, be_bytes 8 (nat (k mod 2 ^ 64)))"
  unfolding int_image_def by (cases "k = 0"; cases "- 128 \<le> k \<and> k \<le> 127";
      cases "- 32768 \<le> k \<and> k \<le> 32767"; cases "- 2147483648 \<le> k \<and> k \<le> 2147483647") auto

lemma int_field_of:
  assumes w: "\<And>tag. wr x tag = Inr (write_int k tag)"
    and b: "\<And>buf old c rest. drop c buf = snd (int_image k) @ rest \<Longrightarrow> c \<le> length buf \<Longrightarrow>
      body buf old (fst (int_image k)) c = (Inr x, c + length (snd (int_image k)))"
  shows "field_of wr body x (fst (int_image k)) (snd (int_image k))"
proof -
  have "fst (int_image k) < 16 \<and> fst (int_image k) \<noteq> 11 \<and> skips (fst (int_image k)) (snd (int_image k))"
    by (cases k rule: int_image_cases) (simp_all add: skips_simps del: One_nat_def)
  then show ?thesis unfolding field_of_def by (auto simp: w write_int_def intro: b)
qed

lemmas image_simps = read_image be_word_images scast_images

lemma agree_int_body:
  "agree (ret 0) (ret 0) c"
  "agree (rbind (read_buf buf n) (\<lambda>bs. ret (g bs))) (rbind (read_buf buf n) (\<lambda>bs. ret (g bs))) c"
  "agree (throw TarsDecodeMismatch) (throw TarsDecodeMismatch) c"
  by (rule agree_basic, rule agree_rbind [OF agree_basic(4)], rule agree_basic, simp add: agree_def)

lemma int_codecI:
  fixes wr :: "'w::len word \<Rightarrow> nat \<Rightarrow> tars_exn + bytes"
  assumes w: "\<And>x tag. wr x tag = Inr (write_int (sint x) tag)"
    and r: "\<And>buf old tag req. rdr buf old tag req = read_field (seek_tag buf) tag req old (body buf)"
    and b: "\<And>(x :: 'w word) buf c rest. drop c buf = snd (int_image (sint x)) @ rest \<Longrightarrow> c \<le> length buf \<Longrightarrow>
      body buf (fst (int_image (sint x))) c = (Inr (word_of_int (sint x)), c + length (snd (int_image (sint x))))"
    and "\<And>buf ty c. agree (body buf ty) (body buf ty) c"
  shows "tars_codec wr rdr (\<lambda>_. True)"
proof (rule tars_codecI [where body = "\<lambda>buf _. body buf"])
  show "\<exists>ty b. field_of wr (\<lambda>buf _. body buf) x ty b" for x
    using int_field_of [of wr x "sint x" "\<lambda>buf _. body buf"] w b [where x=x] by auto
qed (use assms in auto)

lemmas int_body_simps = image_simps sint_bounds

lemma read_Char_image:
  fixes x :: byte
  assumes "drop c buf = snd (int_image (sint x)) @ rest" and "c \<le> length buf"
  shows "(if fst (int_image (sint x)) = eZeroTag then ret 0
      else if fst (int_image (sint x)) = eChar then rbind (read_buf buf 1) (\<lambda>bs. ret (be_word bs))
      else throw TarsDecodeMismatch) c =
    (Inr (word_of_int (sint x) :: byte), c + length (snd (int_image (sint x))))"
  using assms sint_bounds(1,2) [of x]
  by (cases "sint x" rule: int_image_cases) (simp_all add: image_simps del: One_nat_def of_int_sint)

interpretation tchar: tars_codec "\<lambda>n tag. Inr (write_Char n tag)" read_Char "\<lambda>_. True"
  by (rule int_codecI, simp add: write_Char_int, rule read_Char_def, rule read_Char_image, assumption+)
    (intro agree_if agree_int_body)

interpretation tshort: tars_codec "\<lambda>n tag. Inr (write_Short n tag)" read_Short "\<lambda>_. True"
proof (rule int_codecI, simp add: write_Short_int, rule read_Short_def)
  fix x :: u16 and c buf rest
  assume "drop c buf = snd (int_image (sint x)) @ rest" and "c \<le> length buf"
  then show "(if fst (int_image (sint x)) = 12 then ret 0
        else if fst (int_image (sint x)) = 0 then rbind (read_buf buf 1) (\<lambda>bs. ret (scast (be_word bs :: byte)))
        else if fst (int_image (sint x)) = 1 then rbind (read_buf buf 2) (\<lambda>bs. ret (be_word bs))
        else throw TarsDecodeMismatch) c = (Inr (word_of_int (sint x) :: u16), c + length (snd (int_image (sint x))))"
    using sint_ge [of x] sint_lt [of x]
    by (cases "sint x" rule: int_image_cases) (simp_all add: image_simps del: One_nat_def of_int_sint)
qed (intro agree_if agree_int_body)

interpretation tint32: tars_codec "\<lambda>n tag. Inr (write_Int32 n tag)" read_Int32 "\<lambda>_. True"
proof (rule int_codecI, simp add: write_Int32_int, rule read_Int32_def)
  fix x :: u32 and c buf rest
  assume "drop c buf = snd (int_image (sint x)) @ rest" and "c \<le> length buf"
  then show "(if fst (int_image (sint x)) = 12 then ret 0
        else if fst (int_image (sint x)) = 0 then rbind (read_buf buf 1) (\<lambda>bs. ret (scast (be_word bs :: byte)))
        else if fst (int_image (sint x)) = 1 then rbind (read_buf buf 2) (\<lambda>bs. ret (scast (be_word bs :: u16)))
        else if fst (int_image (sint x)) = 2 then rbind (read_buf buf 4) (\<lambda>bs. ret (be_word bs))
        else throw TarsDecodeMismatch) c = (Inr (word_of_int (sint x) :: u32), c + length (snd (int_image (sint x))))"
    using sint_ge [of x] sint_lt [of x]
    by (cases "sint x" rule: int_image_cases) (simp_all add: image_simps del: One_nat_def of_int_sint)
qed (intro agree_if agree_int_body)

interpretation tint64: tars_codec "\<lambda>n tag. Inr (write_Int64 n tag)" "\<lambda>buf. read_Int64 (seek_tag buf) buf" "\<lambda>_. True"
proof (rule int_codecI, simp add: write_Int64_int, rule read_Int64_def)
  fix x :: u64 and c buf rest
  assume "drop c buf = snd (int_image (sint x)) @ rest" and "c \<le> length buf"
  then show "read_Int64_body buf (fst (int_image (sint x))) c =
      (Inr (word_of_int (sint x)), c + length (snd (int_image (sint x))))"
    by (cases "sint x" rule: int_image_cases)
      (simp_all add: read_Int64_body_def image_simps del: One_nat_def of_int_sint)
qed (unfold read_Int64_body_def, intro agree_if agree_int_body agree_basic)

text \<open>The unsigned integers and \<open>bool\<close> are stored at the next wider signed type.\<close>

interpretation tbool: tars_codec "\<lambda>b tag. Inr (write_Bool b tag)" read_Bool "\<lambda>_. True"
  unfolding write_Bool_def [abs_def] read_Bool_def [abs_def]
  using tars_codec_map [OF tchar.tars_codec_axioms, of "\<lambda>c. c \<noteq> 0" "\<lambda>b. if b then 1 else 0"] by simp

lemma ucast_up_down:
  "ucast (ucast (a :: byte) :: u16) = a" "ucast (ucast (b :: u16) :: u32) = b"
  "ucast (ucast (c :: u32) :: u64) = c"
  by (rule bit_word_eqI; simp add: bit_ucast_iff)+

interpretation tuint8: tars_codec "\<lambda>n tag. Inr (write_UInt8 n tag)" read_UInt8 "\<lambda>_. True"
  unfolding write_UInt8_def [abs_def] read_UInt8_def [abs_def]
  by (rule tars_codec_map [OF tshort.tars_codec_axioms]) (rule ucast_up_down)

interpretation tuint16: tars_codec "\<lambda>n tag. Inr (write_UInt16 n tag)" read_UInt16 "\<lambda>_. True"
  unfolding write_UInt16_def [abs_def] read_UInt16_def [abs_def]
  by (rule tars_codec_map [OF tint32.tars_codec_axioms]) (rule ucast_up_down)

interpretation tuint32: tars_codec "\<lambda>n tag. Inr (write_UInt32 n tag)" "\<lambda>buf. read_UInt32 (seek_tag buf) buf" "\<lambda>_. True"
  unfolding write_UInt32_def [abs_def] read_UInt32_def [abs_def]
  by (rule tars_codec_map [OF tint64.tars_codec_axioms]) (rule ucast_up_down)

end
