(* ===== verification/TarsCodecs.thy ===== *)
theory TarsCodecs
  imports TarsValues
begin

text \<open>
  The codecs of the Tars encoding that are built from others: strings, vectors of bytes, vectors
  of any codec and structs. The locale \<open>tars_struct\<close> is the contract of a generated struct, its
  \<open>writeTo\<close> and \<open>readFrom\<close>; a struct that keeps it is a codec of its own, which may be a field or an
  element of a vector.
\<close>

section \<open>Strings and vectors of bytes are codecs\<close>

lemma drop_append_le: "drop c buf = xs @ ys \<Longrightarrow> c \<le> length buf \<Longrightarrow> c + length xs \<le> length buf"
  by (drule arg_cong [of _ _ length]) simp

lemma skips_string:
  "length bs < 256 \<Longrightarrow> skips eString1 (be_bytes 1 (length bs) @ bs)"
  "length bs < 256 ^ 4 \<Longrightarrow> skips eString4 (be_bytes 4 (length bs) @ bs)"
proof -
  have *: "rbind (read_buf buf n) (\<lambda>bs. head_skip (be_val bs)) c = (Inr (), c + (n + length bs))"
    if "drop c buf = (be_bytes n (length bs) @ bs) @ rest" "0 < n" "length bs < 256 ^ n" for buf c rest n
    using that read_buf_prefix [of c buf "be_bytes n (length bs)" "bs @ rest" n]
    by (cases "be_bytes n (length bs) = []") (auto simp: rbind_def head_skip_def dest: arg_cong [of _ _ length])
  show "length bs < 256 \<Longrightarrow> skips eString1 (be_bytes 1 (length bs) @ bs)"
    unfolding skips_def skipField_scalar by (auto intro!: * simp del: One_nat_def append_assoc)
  show "length bs < 256 ^ 4 \<Longrightarrow> skips eString4 (be_bytes 4 (length bs) @ bs)"
    unfolding skips_def skipField_scalar by (auto intro!: * simp del: One_nat_def append_assoc)
qed

lemma read_UInt32_size:
  assumes "drop c buf = write_Int32 w 0 @ rest"
  shows "read_UInt32 (seek_tag buf) buf old 0 isRequire c = (Inr w, c + length (write_Int32 w 0))"
proof -
  have "sint (scast w :: u64) = sint w"
    using sint_ge [of w] sint_lt [of w] by (intro sint_scast_id) simp_all
  then have eq: "write_Int32 w 0 = write_Int64 (scast w) 0"
    by (simp add: write_Int32_int write_Int64_int)
  have "ucast (scast w :: u64) = w"
    by (rule bit_word_eqI) (simp add: bit_ucast_iff bit_signed_iff)
  then show ?thesis
    using tint64.read_write [where x = "scast w" and tag = 0 and c = c and buf = buf and rest = rest] assms eq
    by (simp add: read_UInt32_def rbind_def)
qed

lemma read_size:
  assumes "drop c buf = write_Int32 (word_of_nat n) 0 @ rest" and "n < 2 ^ 32" and "n \<le> length rest"
  shows "read_size buf c = (Inr n, c + length (write_Int32 (word_of_nat n) 0))"
proof -
  have "n \<le> length buf" using assms(3) arg_cong [OF assms(1), of length] by simp
  moreover have "unat (word_of_nat n :: u32) = n" using assms(2) by (intro unat_word_of_nat_id) simp
  ultimately show ?thesis using read_UInt32_size [OF assms(1)] by (simp add: read_size_def rbind_def)
qed

lemma agree_read_size [agree_intros]: "agree (read_size buf) (read_size buf) c"
  unfolding read_size_def
  by (intro agree_rbind agree_intros agree_read_int(2)) simp

lemma agree_read_string_body: "agree (read_string_body buf ty) (read_string_body buf ty) c"
  unfolding read_string_body_def by (intro agree_rbind agree_if agree_basic) simp_all

lemma read_string_chars:
  assumes d: "drop c buf = (be_bytes n (length s) @ bytes_of_string s) @ rest" and c: "c \<le> length buf"
    and k: "k (be_bytes n (length s)) = ret (length s)"
  shows "rbind (rbind (read_buf buf n) k) (\<lambda>n. rbind (read_buf buf n) (\<lambda>bs. ret (string_of_bytes bs))) c =
    (Inr s, c + length (be_bytes n (length s) @ bytes_of_string s))"
proof -
  from d have d1: "drop c buf = be_bytes n (length s) @ bytes_of_string s @ rest" by simp
  from drop_appendD [OF d1] drop_append_le [OF d1 c] have
    "drop (c + n) buf = bytes_of_string s @ rest" "c + n \<le> length buf" by simp_all
  then have "read_buf buf (length s) (c + n) = (Inr (bytes_of_string s), c + n + length s)"
    by (intro read_buf_prefix) auto
  with d1 c k show ?thesis by (simp add: rbind_def read_buf_prefix add.assoc)
qed

interpretation tstring: tars_codec write_string read_string "\<lambda>s. length s \<le> TARS_MAX_STRING_LENGTH"
proof (rule tars_codecI [OF _ read_string_def agree_read_string_body])
  fix s :: string
  assume s: "length s \<le> TARS_MAX_STRING_LENGTH"
  then have len: "length s < 256 ^ 4" by (simp add: TARS_MAX_STRING_LENGTH_def)
  show "\<exists>ty b. field_of write_string (\<lambda>buf _. read_string_body buf) s ty b"
  proof (cases "length s > 255")
    case True
    then show ?thesis using s len skips_string(2) [of "bytes_of_string s"]
      by (intro exI [of _ 7] exI [of _ "be_bytes 4 (length s) @ bytes_of_string s"])
        (auto simp: field_of_def write_string_def read_string_body_def read_string_chars
          simp del: append_assoc length_append)
  next
    case False
    then show ?thesis using skips_string(1) [of "bytes_of_string s"]
      by (intro exI [of _ 6] exI [of _ "be_bytes 1 (length s) @ bytes_of_string s"])
        (auto simp: field_of_def write_string_def read_string_body_def read_string_chars
          simp del: append_assoc One_nat_def length_append)
  qed
qed

section \<open>Vectors\<close>

lemma vec_resize_length [simp]: "length (vec_resize d n v) = n"
  by (simp add: vec_resize_def)

lemma agree_read_elems: "(\<And>v d. agree (r v) (r v) d) \<Longrightarrow> agree (read_elems r vs) (read_elems r vs) c"
  by (induction vs arbitrary: c) (auto intro!: agree_rbind agree_intros)

lemma agree_read_list_body:
  "(\<And>v d. agree (r buf v 0 True) (r buf v 0 True) d) \<Longrightarrow>
    agree (read_list_body r x buf v) (read_list_body r x buf v) c"
  unfolding read_list_body_def by (intro agree_rbind agree_intros agree_read_elems)

lemma agree_read_bytes_body: "agree (read_bytes_body buf v ty) (read_bytes_body buf v ty) c"
proof -
  have "agree (read_Char buf x t q) (read_Char buf x t q) d" for x t q d
    using tchar.read_fuel [of buf x t q d] by (simp add: agree_def)
  then show ?thesis unfolding read_bytes_body_def
    by (intro agree_if agree_rbind [OF agree_read_head] agree_read_list_body agree_basic)
      (auto split: prod.split intro!: agree_intros agree_rbind)
qed

interpretation tbytes: tars_codec "\<lambda>v tag. Inr (write_bytes v tag)" read_bytes "\<lambda>v. length v < 2 ^ 32"
proof (rule tars_codecI [OF _ read_bytes_def agree_read_bytes_body])
  fix v :: bytes
  assume v: "length v < 2 ^ 32"
  let ?n = "write_Int32 (word_of_nat (length v)) 0"
  let ?b = "write_head eChar 0 @ ?n @ v"
  have run: "read_head buf c = (Inr (0, 0), c + 1)" "read_size buf (c + 1) = (Inr (length v), c + 1 + length ?n)"
    "read_UInt32 (seek_tag buf) buf 0 0 True (c + 1) = (Inr (word_of_nat (length v)), c + 1 + length ?n)"
    "read_buf buf (length v) (c + 1 + length ?n) = (Inr v, c + length ?b)"
    if d: "drop c buf = ?b @ rest" and c: "c \<le> length buf" for buf c rest
  proof -
    from d have d0: "drop c buf = write_head 0 0 @ ?n @ v @ rest" by simp
    then show "read_head buf c = (Inr (0, 0), c + 1)"
      using read_head_write_head [OF d0] by (simp add: write_head_length)
    have d1: "drop (c + 1) buf = ?n @ v @ rest"
      using drop_appendD [OF d0] by (simp add: write_head_length)
    show "read_size buf (c + 1) = (Inr (length v), c + 1 + length ?n)"
      using v by (intro read_size [OF d1]) simp_all
    show "read_UInt32 (seek_tag buf) buf 0 0 True (c + 1) = (Inr (word_of_nat (length v)), c + 1 + length ?n)"
      by (rule read_UInt32_size [OF d1])
    have "c + length (?b @ rest) \<le> length buf" using drop_lengthD [OF d] by simp
    then show "read_buf buf (length v) (c + 1 + length ?n) = (Inr v, c + length ?b)"
      using read_buf_prefix [OF drop_appendD [OF d1]] by (simp add: write_head_length)
  qed
  have "skips eSimpleList ?b"
    unfolding skips_def
  proof (intro allI impI)
    fix buf c rest
    assume d: "drop c buf = ?b @ rest"
    then have "c \<le> length buf" using drop_lengthD [OF d] by simp
    from run [OF d this] v show "skipField buf 13 c = (Inr (), c + length ?b)"
      by (simp add: skipField_elems rbind_def head_skip_def unat_word_of_nat_id write_head_length)
  qed
  then show "\<exists>ty b. field_of (\<lambda>v tag. Inr (write_bytes v tag)) read_bytes_body v ty b"
    using run
    by (intro exI [of _ 13] exI [of _ ?b])
      (auto simp: field_of_def write_bytes_def read_bytes_body_def rbind_def simp del: append_assoc length_append One_nat_def)
qed

context tars_codec
begin

lemma write_all_fields:
  assumes "\<forall>v \<in> set vs. ok v"
  shows "\<exists>bs. write_all (\<lambda>v. wr v 0) vs = Inr bs \<and> length vs \<le> length bs \<and>
    (\<forall>buf c rest. drop c buf = bs @ rest \<longrightarrow>
       repeat_rd (length vs) (skip_next (skipField buf) buf) c = (Inr (), c + length bs) \<and>
       (\<forall>olds. length olds = length vs \<longrightarrow>
         read_elems (\<lambda>x. rdr buf x 0 True) olds c = (Inr vs, c + length bs)))"
  using assms
proof (induction vs)
  case (Cons v vs)
  then obtain bs where bs: "write_all (\<lambda>v. wr v 0) vs = Inr bs" "length vs \<le> length bs"
    and run: "\<And>buf c rest. drop c buf = bs @ rest \<Longrightarrow>
       repeat_rd (length vs) (skip_next (skipField buf) buf) c = (Inr (), c + length bs) \<and>
       (\<forall>olds. length olds = length vs \<longrightarrow>
         read_elems (\<lambda>x. rdr buf x 0 True) olds c = (Inr vs, c + length bs))" by auto
  from Cons.prems write_field [of v 0] obtain img where img: "wr v 0 = Inr img" "is_field 0 img" by auto
  then obtain ty b where f: "img = write_head ty 0 @ b" "ty < 16" "skips ty b" by (auto simp: is_field_def)
  have "repeat_rd (Suc (length vs)) (skip_next (skipField buf) buf) c = (Inr (), c + length (img @ bs))"
    "length olds = Suc (length vs) \<Longrightarrow>
      read_elems (\<lambda>x. rdr buf x 0 True) olds c = (Inr (v # vs), c + length (img @ bs))"
    if d: "drop c buf = (img @ bs) @ rest" for buf c rest olds
  proof -
    from d have d0: "drop c buf = write_head ty 0 @ b @ bs @ rest" using f by simp
    have d1: "drop (c + length img) buf = bs @ rest" using d drop_appendD [of c buf img] by simp
    have "skip_next (skipField buf) buf c = (Inr (), c + length img)"
      using read_head_write_head [OF d0 f(2)] f(3) [unfolded skips_def, rule_format, OF drop_appendD [OF d0]]
      by (simp add: skip_next_def rbind_def f(1))
    with run [OF d1] show "repeat_rd (Suc (length vs)) (skip_next (skipField buf) buf) c = (Inr (), c + length (img @ bs))"
      by (simp add: rbind_def add.assoc)
    assume "length olds = Suc (length vs)"
    then obtain o' os where "olds = o' # os" "length os = length vs" by (cases olds) auto
    moreover have "rdr buf o' 0 True c = (Inr v, c + length img)"
      using read_write [of v 0 img c buf "bs @ rest" o' True] img d Cons.prems by simp
    ultimately show "read_elems (\<lambda>x. rdr buf x 0 True) olds c = (Inr (v # vs), c + length (img @ bs))"
      using run [OF d1] by (simp add: rbind_def add.assoc)
  qed
  moreover have "Suc (length vs) \<le> length (img @ bs)"
    using bs(2) write_head_pos [of ty 0] unfolding f(1) length_append by linarith
  ultimately show ?case using bs img by (intro exI [of _ "img @ bs"]) simp
qed simp

lemma list_codec:
  "tars_codec (write_vector wr) (read_vector rdr x) (\<lambda>vs. length vs < 2 ^ 32 \<and> (\<forall>v \<in> set vs. ok v))"
proof (rule tars_codecI [OF _ read_vector_def])
  fix vs
  assume vs: "length vs < 2 ^ 32 \<and> (\<forall>v \<in> set vs. ok v)"
  then obtain bs where bs: "write_all (\<lambda>v. wr v 0) vs = Inr bs" "length vs \<le> length bs"
    and run: "\<And>buf c rest. drop c buf = bs @ rest \<Longrightarrow>
       repeat_rd (length vs) (skip_next (skipField buf) buf) c = (Inr (), c + length bs) \<and>
       (\<forall>olds. length olds = length vs \<longrightarrow>
         read_elems (\<lambda>x. rdr buf x 0 True) olds c = (Inr vs, c + length bs))"
    using write_all_fields [of vs] by auto
  let ?n = "write_Int32 (word_of_nat (length vs)) 0"
  have "skipField buf 9 c = (Inr (), c + length (?n @ bs)) \<and>
      read_list_body rdr x buf old c = (Inr vs, c + length (?n @ bs))"
    if d: "drop c buf = (?n @ bs) @ rest" for buf c rest old
  proof -
    from d have d0: "drop c buf = ?n @ bs @ rest" by simp
    from run [OF drop_appendD [OF d0]] read_UInt32_size [OF d0] read_size [OF d0] vs bs(2) show ?thesis
      by (simp add: skipField_elems read_list_body_def rbind_def unat_word_of_nat_id add.assoc)
  qed
  then show "\<exists>ty b. field_of (write_vector wr) (\<lambda>buf v ty. if ty = 9 then read_list_body rdr x buf v
      else throw TarsDecodeMismatch) vs ty b"
    using bs by (intro exI [of _ 9] exI [of _ "?n @ bs"])
      (auto simp: field_of_def skips_def write_vector_def simp del: append_assoc length_append)
next
  show "agree (if ty = 9 then read_list_body rdr x buf v else throw TarsDecodeMismatch)
      (if ty = 9 then read_list_body rdr x buf v else throw TarsDecodeMismatch) c" for ty buf v c
    using read_fuel by (intro agree_if agree_read_list_body agree_basic) (simp_all add: agree_def)
qed

end

section \<open>Structs\<close>

text \<open>A sequence of fields, up to the head that ends the struct.\<close>

inductive is_fields :: "bytes \<Rightarrow> bool" where
  is_fields_Nil [intro, simp]: "is_fields []"
| is_fields_Cons [intro]: "is_field t img \<Longrightarrow> is_fields r \<Longrightarrow> is_fields (img @ r)"

lemma is_fields_append: "is_fields xs \<Longrightarrow> is_fields ys \<Longrightarrow> is_fields (xs @ ys)"
  by (induction rule: is_fields.induct) auto

lemma is_field_fields: "is_field t img \<Longrightarrow> is_fields img"
  using is_fields_Cons [OF _ is_fields_Nil] by simp

lemma skipToStructEnd_unfold:
  "skipToStructEnd buf c = rbind (read_head buf) (\<lambda>(headType, _). rbind (skipField buf headType) (\<lambda>_.
      if headType \<noteq> eStructEnd then skipToStructEnd buf else ret ())) c"
proof (cases "read_head buf c")
  case (Pair r d)
  have "struct_loop (skipField buf) buf (length buf) e = skipToStructEnd buf e"
    if "r = Inr (ty, t)" "skipField buf ty d = (Inr (), e)" for ty t e
    using read_head_Inr(1,2) [of buf c ty t d] Pair that advancingD [OF advancing_top(1) that(2)]
    by (intro struct_loop_fuel) auto
  then show ?thesis unfolding skipToStructEnd_def [of buf, unfolded tars_fuel_def struct_loop.simps, THEN fun_cong]
    using Pair by (cases r) (auto simp: rbind_def skipToStructEnd_def tars_fuel_def split: prod.splits sum.splits)
qed

lemma skipToStructEnd_fields:
  "is_fields img \<Longrightarrow> drop c buf = img @ write_head eStructEnd 0 @ rest \<Longrightarrow>
    skipToStructEnd buf c = (Inr (), c + length img + 1)"
proof (induction arbitrary: c rule: is_fields.induct)
  case is_fields_Nil
  then show ?case using read_head_write_head [of c buf 11 0 rest]
    by (subst skipToStructEnd_unfold) (simp add: rbind_def skipField_scalar write_head_length)
next
  case (is_fields_Cons t img r)
  then obtain ty b where f: "img = write_head ty t @ b" "ty < 16" "ty \<noteq> 11" "t < 256" "skips ty b"
    by (auto simp: is_field_def)
  let ?rest = "r @ write_head 11 0 @ rest"
  have d: "drop c buf = write_head ty t @ b @ ?rest" using is_fields_Cons.prems f by simp
  have "skipToStructEnd buf c = skipToStructEnd buf (c + length img)"
    using read_head_write_head [OF d f(2,4)] f(3) f(5) [unfolded skips_def, rule_format, OF drop_appendD [OF d]]
    by (subst skipToStructEnd_unfold) (simp add: rbind_def f(1) add.assoc)
  with is_fields_Cons.IH [of "c + length img"] is_fields_Cons.prems show ?case
    by (simp add: drop_appendD add.assoc)
qed

text \<open>
  The image of a field that is written when \<open>p\<close> holds and left out otherwise, and the rules that
  run the readers of a struct one after the other along the images.
\<close>

definition opt_field :: "bool \<Rightarrow> nat \<Rightarrow> bytes \<Rightarrow> bool" where
  "opt_field p tag img \<longleftrightarrow> (if p then is_field tag img else img = [])"

lemma opt_field_fields: "opt_field p tag img \<Longrightarrow> is_fields img"
  by (auto simp: opt_field_def is_field_fields split: if_splits)

lemma beyond_mono: "beyond t rest \<Longrightarrow> tag \<le> t \<Longrightarrow> beyond tag rest"
proof (cases "rest = []")
  case False
  assume "beyond t rest" and le: "tag \<le> t"
  with False obtain ty u r where "rest = write_head ty u @ r" "ty < 16" "u < 256" "ty = 11 \<or> t < u"
    by (auto simp: beyond_def)
  with le show ?thesis unfolding beyond_def
    by (intro disjI2 exI [of _ ty] exI [of _ u] exI [of _ r]) auto
qed simp

lemma beyond_opt: "opt_field p t img \<Longrightarrow> tag < t \<Longrightarrow> beyond tag rest \<Longrightarrow> beyond tag (img @ rest)"
  by (auto simp: opt_field_def is_field_beyond split: if_splits)

text \<open>
  One field of a struct: \<open>w\<close> is what its writer gives, \<open>m\<close> its reader, \<open>x\<close> the value read; and a
  sequence of fields with tags from \<open>lo\<close> on, followed by anything beyond the tag \<open>hi\<close>.
\<close>

definition slot :: "bool \<Rightarrow> nat \<Rightarrow> tars_exn + bytes \<Rightarrow> (bytes \<Rightarrow> 'a rd) \<Rightarrow> 'a \<Rightarrow> bool" where
  "slot p tag w m x \<longleftrightarrow> (\<exists>img. w = Inr img \<and> opt_field p tag img \<and>
    (\<forall>buf c rest. drop c buf = img @ rest \<longrightarrow> (\<not> p \<longrightarrow> beyond tag rest) \<longrightarrow>
      m buf c = (Inr x, c + length img)))"

definition slots :: "nat \<Rightarrow> nat \<Rightarrow> (tars_exn + bytes) list \<Rightarrow> (bytes \<Rightarrow> 'a rd) \<Rightarrow> 'a \<Rightarrow> bool" where
  "slots lo hi ws m x \<longleftrightarrow> (\<exists>img. write_all (\<lambda>w. w) ws = Inr img \<and> is_fields img \<and>
    (\<forall>t rest. t < lo \<longrightarrow> beyond hi rest \<longrightarrow> beyond t (img @ rest)) \<and>
    (\<forall>buf c rest. drop c buf = img @ rest \<longrightarrow> beyond hi rest \<longrightarrow> m buf c = (Inr x, c + length img)))"

lemma slots_Nil: "y = x \<Longrightarrow> slots (Suc hi) hi [] (\<lambda>_. ret y) x"
  by (auto simp: slots_def intro: beyond_mono)

lemma slots_Cons:
  assumes "slot p tag w m x" and "slots lo hi ws (k x) y" and "tag < lo"
  shows "slots tag hi (w # ws) (\<lambda>buf. rbind (m buf) (\<lambda>x. k x buf)) y"
proof -
  from assms(1) obtain i where i: "w = Inr i" "opt_field p tag i"
    and m: "\<And>buf c rest. drop c buf = i @ rest \<Longrightarrow> (\<not> p \<Longrightarrow> beyond tag rest) \<Longrightarrow> m buf c = (Inr x, c + length i)"
    unfolding slot_def by blast
  from assms(2) obtain js where r: "write_all (\<lambda>w. w) ws = Inr js" "is_fields js"
    and b: "\<And>t rest. t < lo \<Longrightarrow> beyond hi rest \<Longrightarrow> beyond t (js @ rest)"
    and k: "\<And>buf c rest. drop c buf = js @ rest \<Longrightarrow> beyond hi rest \<Longrightarrow> k x buf c = (Inr y, c + length js)"
    unfolding slots_def by blast
  have "beyond t ((i @ js) @ rest)" if "t < tag" "beyond hi rest" for t rest
    using beyond_opt [OF i(2) that(1)] b [of t rest] that assms(3) by simp
  moreover have "rbind (m buf) (\<lambda>x. k x buf) c = (Inr y, c + length (i @ js))"
    if "drop c buf = (i @ js) @ rest" "beyond hi rest" for buf c rest
    using that m [of c buf "js @ rest"] b [OF assms(3) that(2)] k [of "c + length i" buf rest]
      drop_appendD [of c buf i "js @ rest"] by (simp add: rbind_def add.assoc)
  ultimately show ?thesis unfolding slots_def
    using i r opt_field_fields [OF i(2)] by (intro exI [of _ "i @ js"]) (simp add: is_fields_append)
qed

context tars_codec
begin

lemma slot_req: "ok x \<Longrightarrow> tag < 256 \<Longrightarrow> slot True tag (wr x tag) (\<lambda>buf. rdr buf old tag isRequire) x"
  unfolding slot_def using write_field [of x tag] read_write [of x tag] by (auto simp: opt_field_def)

lemma slot_opt: "ok x \<Longrightarrow> tag < 256 \<Longrightarrow> (\<not> p \<Longrightarrow> x = old) \<Longrightarrow>
    slot p tag (if p then wr x tag else Inr []) (\<lambda>buf. rdr buf old tag False) x"
  unfolding slot_def using write_opt [of x tag p] read_opt [of x tag p _ _ _ _ old]
  by (auto simp: opt_field_def split del: if_split)

lemma agree_rdr: "agree (rdr buf old tag isRequire) (rdr buf old tag isRequire) c"
  using read_fuel by (simp add: agree_def)

end

locale tars_struct =
  fixes writeTo :: "'a \<Rightarrow> tars_exn + bytes"
    and readFrom :: "bytes \<Rightarrow> 'a rd"
    and ok :: "'a \<Rightarrow> bool"
    and last_tag :: nat
  assumes writeTo_fields: "ok x \<Longrightarrow> \<exists>img. writeTo x = Inr img \<and> is_fields img"
    and readFrom_writeTo: "ok x \<Longrightarrow> writeTo x = Inr img \<Longrightarrow> drop c buf = img @ rest \<Longrightarrow> beyond last_tag rest \<Longrightarrow>
      readFrom buf c = (Inr x, c + length img)"
    and readFrom_fuel: "fst (readFrom buf c) \<noteq> Inl Fuel_exhausted"
begin

lemma roundtrip: "ok x \<Longrightarrow> \<exists>img. writeTo x = Inr img \<and> readFrom img 0 = (Inr x, length img)"
  using writeTo_fields readFrom_writeTo [of x _ 0 _ "[]"] by fastforce

text \<open>Fields with tags that the struct does not have yet may follow its own.\<close>

lemma roundtrip_newer:
  assumes "ok x" and "length s \<le> TARS_MAX_STRING_LENGTH" and "last_tag < tag" and "tag < 256"
  obtains img ext where "writeTo x = Inr img" and "write_string s tag = Inr ext"
    and "readFrom img 0 = (Inr x, length img)" and "readFrom (img @ ext) 0 = (Inr x, length img)"
proof -
  from tstring.write_field [OF assms(2,4)] obtain ext where e: "write_string s tag = Inr ext" "is_field tag ext"
    by blast
  have "beyond last_tag ext" using is_field_beyond [OF e(2) assms(3), of "[]"] by simp
  with roundtrip [OF assms(1)] readFrom_writeTo [OF assms(1), of _ 0 _ ext] e(1) that show ?thesis
    by fastforce
qed

end

lemma tars_structI:
  assumes "\<And>x. ok x \<Longrightarrow> slots 1 hi (ws x) readFrom x" and "\<And>x. writeTo x = write_all (\<lambda>w. w) (ws x)"
    and "\<And>buf c. agree (readFrom buf) (readFrom buf) c"
  shows "tars_struct writeTo readFrom ok hi"
proof
  fix x
  assume "ok x"
  from assms(1) [OF this] obtain i where i: "writeTo x = Inr i" "is_fields i"
    "\<And>buf c rest. drop c buf = i @ rest \<Longrightarrow> beyond hi rest \<Longrightarrow> readFrom buf c = (Inr x, c + length i)"
    unfolding slots_def assms(2) by blast
  from i(1,2) show "\<exists>img. writeTo x = Inr img \<and> is_fields img" by blast
  show "writeTo x = Inr img \<Longrightarrow> drop c buf = img @ rest \<Longrightarrow> beyond hi rest \<Longrightarrow>
      readFrom buf c = (Inr x, c + length img)" for img c buf rest
    using i by auto
qed (use assms(3) in \<open>simp add: agree_def\<close>)

sublocale tars_struct \<subseteq> field: tars_codec "write_struct writeTo" "read_struct readFrom" ok
proof (rule tars_codecI [OF _ read_struct_def])
  fix x
  assume x: "ok x"
  then obtain img where img: "writeTo x = Inr img" "is_fields img" using writeTo_fields by blast
  let ?b = "img @ write_head 11 0"
  have "skipToStructEnd buf c = (Inr (), c + length ?b)"
    "readFrom buf c = (Inr x, c + length img)"
    "skipToStructEnd buf (c + length img) = (Inr (), c + length ?b)"
    if d: "drop c buf = ?b @ rest" for buf c rest
  proof -
    from d have d0: "drop c buf = img @ write_head 11 0 @ rest" by simp
    then show "skipToStructEnd buf c = (Inr (), c + length ?b)"
      using skipToStructEnd_fields [OF img(2) d0] by (simp add: write_head_length)
    show "readFrom buf c = (Inr x, c + length img)"
      by (rule readFrom_writeTo [OF x img(1) d0]) simp
    show "skipToStructEnd buf (c + length img) = (Inr (), c + length ?b)"
      using skipToStructEnd_fields [OF is_fields_Nil, of "c + length img" buf rest] drop_appendD [OF d0]
      by (simp add: write_head_length)
  qed
  then show "\<exists>ty b. field_of (write_struct writeTo) (\<lambda>buf _ headType.
      if headType \<noteq> 10 then throw TarsDecodeMismatch
      else rbind (readFrom buf) (\<lambda>x. rbind (skipToStructEnd buf) (\<lambda>_. ret x))) x ty b"
    using img(1) by (intro exI [of _ 10] exI [of _ ?b])
      (auto simp: field_of_def skips_def skipField_struct write_struct_def rbind_def
        simp del: append_assoc length_append)
next
  show "agree (if ty \<noteq> 10 then throw TarsDecodeMismatch
      else rbind (readFrom buf) (\<lambda>x. rbind (skipToStructEnd buf) (\<lambda>_. ret x)))
    (if ty \<noteq> 10 then throw TarsDecodeMismatch
      else rbind (readFrom buf) (\<lambda>x. rbind (skipToStructEnd buf) (\<lambda>_. ret x))) c" for ty buf c
    using readFrom_fuel [of buf]
    by (intro agree_if agree_rbind agree_intros) (simp_all add: agree_def)
qed

end
