(* ===== verification/Transaction.thy ===== *)
theory Transaction
  imports TarsCodecs
begin

text \<open>
  The transactions of the SDK (\<open>utilities/tx/Transaction.h\<close>): the two structs with their \<open>writeTo\<close>,
  \<open>readFrom\<close> and the bytes that are hashed.
\<close>

section \<open>TransactionData\<close>

record TransactionData =
  td_version :: u32
  td_chainID :: string
  td_groupID :: string
  td_blockLimit :: u64
  td_nonce :: string
  td_to :: string
  td_input :: bytes
  td_abi :: string

definition TransactionData_resetDefault :: TransactionData where
  "TransactionData_resetDefault =
    \<lparr>td_version = 0, td_chainID = '''', td_groupID = '''', td_blockLimit = 0, td_nonce = '''',
     td_to = '''', td_input = [], td_abi = ''''\<rparr>"

definition TransactionData_writeTo :: "TransactionData \<Rightarrow> tars_exn + bytes" where
  "TransactionData_writeTo d = write_all (\<lambda>w. w)
    [Inr (write_Int32 (td_version d) 1),
     write_string (td_chainID d) 2,
     write_string (td_groupID d) 3,
     Inr (write_Int64 (td_blockLimit d) 4),
     write_string (td_nonce d) 5,
     if td_to d \<noteq> '''' then write_string (td_to d) 6 else Inr [],
     Inr (write_bytes (td_input d) 7),
     if td_abi d \<noteq> '''' then write_string (td_abi d) 8 else Inr []]"

definition TransactionData_readFrom :: "bytes \<Rightarrow> TransactionData rd" where
  "TransactionData_readFrom buf = (let d = TransactionData_resetDefault in
    rbind (read_Int32 buf (td_version d) 1 True) (\<lambda>version.
    rbind (read_string buf (td_chainID d) 2 True) (\<lambda>chainID.
    rbind (read_string buf (td_groupID d) 3 True) (\<lambda>groupID.
    rbind (read_Int64 (seek_tag buf) buf (td_blockLimit d) 4 True) (\<lambda>blockLimit.
    rbind (read_string buf (td_nonce d) 5 True) (\<lambda>nonce.
    rbind (read_string buf (td_to d) 6 False) (\<lambda>to.
    rbind (read_bytes buf (td_input d) 7 True) (\<lambda>input.
    rbind (read_string buf (td_abi d) 8 False) (\<lambda>abi.
      ret \<lparr>td_version = version, td_chainID = chainID, td_groupID = groupID,
           td_blockLimit = blockLimit, td_nonce = nonce, td_to = to, td_input = input,
           td_abi = abi\<rparr>)))))))))"

text \<open>The strings and the input are of a size the encoding can hold.\<close>

definition TransactionData_ok :: "TransactionData \<Rightarrow> bool" where
  "TransactionData_ok d \<longleftrightarrow>
    (\<forall>s \<in> {td_chainID d, td_groupID d, td_nonce d, td_to d, td_abi d}. length s \<le> TARS_MAX_STRING_LENGTH) \<and>
    length (td_input d) < 2 ^ 32"

lemmas scalar_slots = tint32.slot_req tint64.slot_req tstring.slot_req tbytes.slot_req
  tint32.slot_opt tint64.slot_opt tstring.slot_opt tbytes.slot_opt

lemmas scalar_agree = tint32.agree_rdr tint64.agree_rdr tstring.agree_rdr tbytes.agree_rdr
  agree_basic(1)

interpretation tdata: tars_struct TransactionData_writeTo TransactionData_readFrom TransactionData_ok 8
proof (rule tars_structI [OF _ TransactionData_writeTo_def])
  show "agree (TransactionData_readFrom buf) (TransactionData_readFrom buf) c" for buf c
    unfolding TransactionData_readFrom_def Let_def by (intro agree_rbind scalar_agree)
  fix d
  assume ok: "TransactionData_ok d"
  show "slots 1 8
    [Inr (write_Int32 (td_version d) 1),
     write_string (td_chainID d) 2,
     write_string (td_groupID d) 3,
     Inr (write_Int64 (td_blockLimit d) 4),
     write_string (td_nonce d) 5,
     if td_to d \<noteq> '''' then write_string (td_to d) 6 else Inr [],
     Inr (write_bytes (td_input d) 7),
     if td_abi d \<noteq> '''' then write_string (td_abi d) 8 else Inr []] TransactionData_readFrom d"
    unfolding TransactionData_readFrom_def [abs_def] Let_def
    by (rule slots_Cons slots_Nil scalar_slots
        | simp add: ok [unfolded TransactionData_ok_def, simplified] TransactionData_resetDefault_def)+
qed

text \<open>
  The bytes fed to the hasher: the version and the block limit in network byte order, the strings
  and the input as they are, one after the other.
\<close>

definition TransactionData_preimage :: "TransactionData \<Rightarrow> bytes" where
  "TransactionData_preimage d =
    be_bytes 4 (unat (td_version d)) @ bytes_of_string (td_chainID d) @ bytes_of_string (td_groupID d) @
    be_bytes 8 (unat (td_blockLimit d)) @ bytes_of_string (td_nonce d) @ bytes_of_string (td_to d) @
    td_input d @ bytes_of_string (td_abi d)"

definition TransactionData_hash :: "(bytes \<Rightarrow> bytes) \<Rightarrow> TransactionData \<Rightarrow> bytes" where
  "TransactionData_hash hashImpl d = hashImpl (TransactionData_preimage d)"

section \<open>Transaction\<close>

record Transaction =
  tx_data :: TransactionData
  tx_dataHash :: bytes
  tx_signature :: bytes
  tx_importTime :: u64
  tx_attribute :: u32
  tx_sender :: bytes
  tx_extraData :: string

definition Transaction_resetDefault :: Transaction where
  "Transaction_resetDefault =
    \<lparr>tx_data = TransactionData_resetDefault, tx_dataHash = [], tx_signature = [], tx_importTime = 0,
     tx_attribute = 0, tx_sender = [], tx_extraData = ''''\<rparr>"

definition Transaction_writeTo :: "Transaction \<Rightarrow> tars_exn + bytes" where
  "Transaction_writeTo t = write_all (\<lambda>w. w)
    [write_struct TransactionData_writeTo (tx_data t) 1,
     if length (tx_dataHash t) > 0 then Inr (write_bytes (tx_dataHash t) 2) else Inr [],
     if length (tx_signature t) > 0 then Inr (write_bytes (tx_signature t) 3) else Inr [],
     if tx_importTime t \<noteq> 0 then Inr (write_Int64 (tx_importTime t) 4) else Inr [],
     if tx_attribute t \<noteq> 0 then Inr (write_Int32 (tx_attribute t) 5) else Inr [],
     if length (tx_sender t) > 0 then Inr (write_bytes (tx_sender t) 7) else Inr [],
     if tx_extraData t \<noteq> '''' then write_string (tx_extraData t) 8 else Inr []]"

definition Transaction_readFrom :: "bytes \<Rightarrow> Transaction rd" where
  "Transaction_readFrom buf = (let t = Transaction_resetDefault in
    rbind (read_struct TransactionData_readFrom buf (tx_data t) 1 False) (\<lambda>data.
    rbind (read_bytes buf (tx_dataHash t) 2 False) (\<lambda>dataHash.
    rbind (read_bytes buf (tx_signature t) 3 False) (\<lambda>signature.
    rbind (read_Int64 (seek_tag buf) buf (tx_importTime t) 4 False) (\<lambda>importTime.
    rbind (read_Int32 buf (tx_attribute t) 5 False) (\<lambda>attribute.
    rbind (read_bytes buf (tx_sender t) 7 False) (\<lambda>sender.
    rbind (read_string buf (tx_extraData t) 8 False) (\<lambda>extraData.
      ret \<lparr>tx_data = data, tx_dataHash = dataHash, tx_signature = signature,
           tx_importTime = importTime, tx_attribute = attribute, tx_sender = sender,
           tx_extraData = extraData\<rparr>))))))))"

definition Transaction_ok :: "Transaction \<Rightarrow> bool" where
  "Transaction_ok t \<longleftrightarrow> TransactionData_ok (tx_data t) \<and>
    (\<forall>v \<in> {tx_dataHash t, tx_signature t, tx_sender t}. length v < 2 ^ 32) \<and>
    length (tx_extraData t) \<le> TARS_MAX_STRING_LENGTH"

interpretation ttx: tars_struct Transaction_writeTo Transaction_readFrom Transaction_ok 8
proof (rule tars_structI [OF _ Transaction_writeTo_def])
  show "agree (Transaction_readFrom buf) (Transaction_readFrom buf) c" for buf c
    unfolding Transaction_readFrom_def Let_def by (intro agree_rbind scalar_agree tdata.field.agree_rdr)
  fix t
  assume ok: "Transaction_ok t"
  show "slots 1 8
    [write_struct TransactionData_writeTo (tx_data t) 1,
     if length (tx_dataHash t) > 0 then Inr (write_bytes (tx_dataHash t) 2) else Inr [],
     if length (tx_signature t) > 0 then Inr (write_bytes (tx_signature t) 3) else Inr [],
     if tx_importTime t \<noteq> 0 then Inr (write_Int64 (tx_importTime t) 4) else Inr [],
     if tx_attribute t \<noteq> 0 then Inr (write_Int32 (tx_attribute t) 5) else Inr [],
     if length (tx_sender t) > 0 then Inr (write_bytes (tx_sender t) 7) else Inr [],
     if tx_extraData t \<noteq> '''' then write_string (tx_extraData t) 8 else Inr []] Transaction_readFrom t"
    unfolding Transaction_readFrom_def [abs_def] Let_def
    by (rule slots_Cons slots_Nil scalar_slots tdata.field.slot_req
        | simp add: ok [unfolded Transaction_ok_def, simplified] Transaction_resetDefault_def)+
qed

end
