(* ===== verification/Receipt.thy ===== *)
theory Receipt
  imports Transaction
begin

text \<open>
  The receipts of transactions (\<open>utilities/receipt/TransactionReceipt.h\<close>): log entries, the data of
  a receipt and the receipt, with their \<open>writeTo\<close>, \<open>readFrom\<close> and the bytes that are hashed.
\<close>

section \<open>LogEntry\<close>

record LogEntry =
  le_address :: string
  le_topic :: "bytes list"
  le_data :: bytes

definition LogEntry_resetDefault :: LogEntry where
  "LogEntry_resetDefault = \<lparr>le_address = '''', le_topic = [], le_data = []\<rparr>"

abbreviation write_topics :: "bytes list \<Rightarrow> nat \<Rightarrow> tars_exn + bytes" where
  "write_topics \<equiv> write_vector (\<lambda>v tag. Inr (write_bytes v tag))"

abbreviation read_topics :: "bytes \<Rightarrow> bytes list \<Rightarrow> nat \<Rightarrow> bool \<Rightarrow> bytes list rd" where
  "read_topics \<equiv> read_vector read_bytes []"

definition LogEntry_writeTo :: "LogEntry \<Rightarrow> tars_exn + bytes" where
  "LogEntry_writeTo l = write_all (\<lambda>w. w)
    [if le_address l \<noteq> '''' then write_string (le_address l) 1 else Inr [],
     if length (le_topic l) > 0 then write_topics (le_topic l) 2 else Inr [],
     if length (le_data l) > 0 then Inr (write_bytes (le_data l) 3) else Inr []]"

definition LogEntry_readFrom :: "bytes \<Rightarrow> LogEntry rd" where
  "LogEntry_readFrom buf = (let l = LogEntry_resetDefault in
    rbind (read_string buf (le_address l) 1 False) (\<lambda>address.
    rbind (read_topics buf (le_topic l) 2 False) (\<lambda>topic.
    rbind (read_bytes buf (le_data l) 3 False) (\<lambda>data.
      ret \<lparr>le_address = address, le_topic = topic, le_data = data\<rparr>))))"

definition LogEntry_ok :: "LogEntry \<Rightarrow> bool" where
  "LogEntry_ok l \<longleftrightarrow> length (le_address l) \<le> TARS_MAX_STRING_LENGTH \<and> length (le_data l) < 2 ^ 32 \<and>
    length (le_topic l) < 2 ^ 32 \<and> (\<forall>t \<in> set (le_topic l). length t < 2 ^ 32)"

interpretation ttopics: tars_codec write_topics read_topics
  "\<lambda>vs. length vs < 2 ^ 32 \<and> (\<forall>v \<in> set vs. length v < 2 ^ 32)"
  by (rule tbytes.list_codec)

interpretation tlog: tars_struct LogEntry_writeTo LogEntry_readFrom LogEntry_ok 3
proof (rule tars_structI [OF _ LogEntry_writeTo_def])
  show "agree (LogEntry_readFrom buf) (LogEntry_readFrom buf) c" for buf c
    unfolding LogEntry_readFrom_def Let_def by (intro agree_rbind scalar_agree ttopics.agree_rdr)
  fix l
  assume ok: "LogEntry_ok l"
  show "slots 1 3
    [if le_address l \<noteq> '''' then write_string (le_address l) 1 else Inr [],
     if length (le_topic l) > 0 then write_topics (le_topic l) 2 else Inr [],
     if length (le_data l) > 0 then Inr (write_bytes (le_data l) 3) else Inr []] LogEntry_readFrom l"
    unfolding LogEntry_readFrom_def [abs_def] Let_def
    by (rule slots_Cons slots_Nil scalar_slots ttopics.slot_opt
        | simp add: ok [unfolded LogEntry_ok_def, simplified] LogEntry_resetDefault_def)+
qed

section \<open>TransactionReceiptData\<close>

record TransactionReceiptData =
  rd_version :: u32
  rd_gasUsed :: string
  rd_contractAddress :: string
  rd_status :: u32
  rd_output :: bytes
  rd_logEntries :: "LogEntry list"
  rd_blockNumber :: u64

definition TransactionReceiptData_resetDefault :: TransactionReceiptData where
  "TransactionReceiptData_resetDefault =
    \<lparr>rd_version = 0, rd_gasUsed = '''', rd_contractAddress = '''', rd_status = 0, rd_output = [],
     rd_logEntries = [], rd_blockNumber = 0\<rparr>"

abbreviation write_logs :: "LogEntry list \<Rightarrow> nat \<Rightarrow> tars_exn + bytes" where
  "write_logs \<equiv> write_vector (write_struct LogEntry_writeTo)"

abbreviation read_logs :: "bytes \<Rightarrow> LogEntry list \<Rightarrow> nat \<Rightarrow> bool \<Rightarrow> LogEntry list rd" where
  "read_logs \<equiv> read_vector (read_struct LogEntry_readFrom) LogEntry_resetDefault"

definition TransactionReceiptData_writeTo :: "TransactionReceiptData \<Rightarrow> tars_exn + bytes" where
  "TransactionReceiptData_writeTo r = write_all (\<lambda>w. w)
    [Inr (write_Int32 (rd_version r) 1),
     if rd_gasUsed r \<noteq> '''' then write_string (rd_gasUsed r) 2 else Inr [],
     if rd_contractAddress r \<noteq> '''' then write_string (rd_contractAddress r) 3 else Inr [],
     if rd_status r \<noteq> 0 then Inr (write_Int32 (rd_status r) 4) else Inr [],
     if length (rd_output r) > 0 then Inr (write_bytes (rd_output r) 5) else Inr [],
     if length (rd_logEntries r) > 0 then write_logs (rd_logEntries r) 6 else Inr [],
     if rd_blockNumber r \<noteq> 0 then Inr (write_Int64 (rd_blockNumber r) 7) else Inr []]"

definition TransactionReceiptData_readFrom :: "bytes \<Rightarrow> TransactionReceiptData rd" where
  "TransactionReceiptData_readFrom buf = (let r = TransactionReceiptData_resetDefault in
    rbind (read_Int32 buf (rd_version r) 1 True) (\<lambda>version.
    rbind (read_string buf (rd_gasUsed r) 2 False) (\<lambda>gasUsed.
    rbind (read_string buf (rd_contractAddress r) 3 False) (\<lambda>contractAddress.
    rbind (read_Int32 buf (rd_status r) 4 False) (\<lambda>status.
    rbind (read_bytes buf (rd_output r) 5 False) (\<lambda>output.
    rbind (read_logs buf (rd_logEntries r) 6 False) (\<lambda>logEntries.
    rbind (read_Int64 (seek_tag buf) buf (rd_blockNumber r) 7 False) (\<lambda>blockNumber.
      ret \<lparr>rd_version = version, rd_gasUsed = gasUsed, rd_contractAddress = contractAddress,
           rd_status = status, rd_output = output, rd_logEntries = logEntries,
           rd_blockNumber = blockNumber\<rparr>))))))))"

definition TransactionReceiptData_ok :: "TransactionReceiptData \<Rightarrow> bool" where
  "TransactionReceiptData_ok r \<longleftrightarrow>
    length (rd_gasUsed r) \<le> TARS_MAX_STRING_LENGTH \<and>
    length (rd_contractAddress r) \<le> TARS_MAX_STRING_LENGTH \<and> length (rd_output r) < 2 ^ 32 \<and>
    length (rd_logEntries r) < 2 ^ 32 \<and> (\<forall>l \<in> set (rd_logEntries r). LogEntry_ok l)"

interpretation tlogs: tars_codec write_logs read_logs
  "\<lambda>vs. length vs < 2 ^ 32 \<and> (\<forall>v \<in> set vs. LogEntry_ok v)"
  by (rule tlog.field.list_codec)

interpretation treceiptdata: tars_struct TransactionReceiptData_writeTo TransactionReceiptData_readFrom
  TransactionReceiptData_ok 7
proof (rule tars_structI [OF _ TransactionReceiptData_writeTo_def])
  show "agree (TransactionReceiptData_readFrom buf) (TransactionReceiptData_readFrom buf) c" for buf c
    unfolding TransactionReceiptData_readFrom_def Let_def
    by (intro agree_rbind scalar_agree tlogs.agree_rdr)
  fix r
  assume ok: "TransactionReceiptData_ok r"
  show "slots 1 7
    [Inr (write_Int32 (rd_version r) 1),
     if rd_gasUsed r \<noteq> '''' then write_string (rd_gasUsed r) 2 else Inr [],
     if rd_contractAddress r \<noteq> '''' then write_string (rd_contractAddress r) 3 else Inr [],
     if rd_status r \<noteq> 0 then Inr (write_Int32 (rd_status r) 4) else Inr [],
     if length (rd_output r) > 0 then Inr (write_bytes (rd_output r) 5) else Inr [],
     if length (rd_logEntries r) > 0 then write_logs (rd_logEntries r) 6 else Inr [],
     if rd_blockNumber r \<noteq> 0 then Inr (write_Int64 (rd_blockNumber r) 7) else Inr []]
    TransactionReceiptData_readFrom r"
    unfolding TransactionReceiptData_readFrom_def [abs_def] Let_def
    by (rule slots_Cons slots_Nil scalar_slots tlogs.slot_opt
        | simp add: ok [unfolded TransactionReceiptData_ok_def, simplified]
            TransactionReceiptData_resetDefault_def)+
qed

text \<open>The bytes of a receipt that are hashed.\<close>

definition log_preimage :: "LogEntry \<Rightarrow> bytes" where
  "log_preimage l = bytes_of_string (le_address l) @ concat (le_topic l) @ le_data l"

definition TransactionReceiptData_preimage :: "TransactionReceiptData \<Rightarrow> bytes" where
  "TransactionReceiptData_preimage r =
    be_bytes 4 (unat (rd_version r)) @ bytes_of_string (rd_gasUsed r) @
    bytes_of_string (rd_contractAddress r) @ be_bytes 4 (unat (rd_status r)) @ rd_output r @
    concat (map log_preimage (rd_logEntries r)) @ be_bytes 8 (unat (rd_blockNumber r))"

definition TransactionReceiptData_hash :: "(bytes \<Rightarrow> bytes) \<Rightarrow> TransactionReceiptData \<Rightarrow> bytes" where
  "TransactionReceiptData_hash hashImpl r = hashImpl (TransactionReceiptData_preimage r)"

section \<open>TransactionReceipt\<close>

record TransactionReceipt =
  tr_data :: TransactionReceiptData
  tr_dataHash :: bytes
  tr_message :: string

definition TransactionReceipt_resetDefault :: TransactionReceipt where
  "TransactionReceipt_resetDefault =
    \<lparr>tr_data = TransactionReceiptData_resetDefault, tr_dataHash = [], tr_message = ''''\<rparr>"

definition TransactionReceipt_writeTo :: "TransactionReceipt \<Rightarrow> tars_exn + bytes" where
  "TransactionReceipt_writeTo t = write_all (\<lambda>w. w)
    [write_struct TransactionReceiptData_writeTo (tr_data t) 1,
     if length (tr_dataHash t) > 0 then Inr (write_bytes (tr_dataHash t) 2) else Inr [],
     if tr_message t \<noteq> '''' then write_string (tr_message t) 3 else Inr []]"

definition TransactionReceipt_readFrom :: "bytes \<Rightarrow> TransactionReceipt rd" where
  "TransactionReceipt_readFrom buf = (let t = TransactionReceipt_resetDefault in
    rbind (read_struct TransactionReceiptData_readFrom buf (tr_data t) 1 False) (\<lambda>data.
    rbind (read_bytes buf (tr_dataHash t) 2 False) (\<lambda>dataHash.
    rbind (read_string buf (tr_message t) 3 False) (\<lambda>message.
      ret \<lparr>tr_data = data, tr_dataHash = dataHash, tr_message = message\<rparr>))))"

definition TransactionReceipt_ok :: "TransactionReceipt \<Rightarrow> bool" where
  "TransactionReceipt_ok t \<longleftrightarrow> TransactionReceiptData_ok (tr_data t) \<and>
    length (tr_dataHash t) < 2 ^ 32 \<and> length (tr_message t) \<le> TARS_MAX_STRING_LENGTH"

interpretation treceipt: tars_struct TransactionReceipt_writeTo TransactionReceipt_readFrom
  TransactionReceipt_ok 3
proof (rule tars_structI [OF _ TransactionReceipt_writeTo_def])
  show "agree (TransactionReceipt_readFrom buf) (TransactionReceipt_readFrom buf) c" for buf c
    unfolding TransactionReceipt_readFrom_def Let_def
    by (intro agree_rbind scalar_agree treceiptdata.field.agree_rdr)
  fix t
  assume ok: "TransactionReceipt_ok t"
  show "slots 1 3
    [write_struct TransactionReceiptData_writeTo (tr_data t) 1,
     if length (tr_dataHash t) > 0 then Inr (write_bytes (tr_dataHash t) 2) else Inr [],
     if tr_message t \<noteq> '''' then write_string (tr_message t) 3 else Inr []]
    TransactionReceipt_readFrom t"
    unfolding TransactionReceipt_readFrom_def [abs_def] Let_def
    by (rule slots_Cons slots_Nil scalar_slots treceiptdata.field.slot_req
        | simp add: ok [unfolded TransactionReceipt_ok_def, simplified] TransactionReceipt_resetDefault_def)+
qed

end
