(* ===== verification/TxBuilder.thy ===== *)
theory TxBuilder
  imports Receipt Service AbiNames
begin

text \<open>
  Building transactions (\<open>utilities/tx/TransactionBuilder.cpp\<close>, \<open>TransactionBuilderService.cpp\<close>),
  receipts (\<open>utilities/receipt/ReceiptBuilder.cpp\<close>), key pairs and signatures
  (\<open>utilities/crypto\<close>). Hashes, signatures and key pairs are those of bcos-crypto, the hexadecimal
  images those of bcos-utilities: the record \<open>bcos_crypto\<close>, an argument of the definitions.
\<close>

section \<open>What the builders call\<close>

datatype KeyPairType = Secp256K1 | SM2 | HsmSM2 | Other_KeyPairType nat

text \<open>
  A key pair: its type, the library path of an \<open>HsmSM2KeyPair\<close> (\<open>None\<close> for an object of another
  class) and the key.
\<close>

record key_pair =
  keyPairType :: KeyPairType
  hsmLibPath :: "string option"
  kp_key :: bytes

record bcos_crypto =
  keccak256 :: "bytes \<Rightarrow> bytes"
  sm3 :: "bytes \<Rightarrow> bytes"
  secp256k1_sign :: "key_pair \<Rightarrow> bytes \<Rightarrow> bytes"
  sm2_sign :: "key_pair \<Rightarrow> bytes \<Rightarrow> bytes"
  hsm_sign :: "string \<Rightarrow> key_pair \<Rightarrow> bytes \<Rightarrow> bytes"
  toHexStringWithPrefix :: "bytes \<Rightarrow> string"

datatype builder_exn =
    Tars_exn tars_exn
  | Bad_cast
  | Null_pointer
  | Runtime_error string
  | Limit_overflow

definition tars_result :: "tars_exn + 'a \<Rightarrow> builder_exn + 'a" where
  "tars_result r = (case r of Inl e \<Rightarrow> Inl (Tars_exn e) | Inr x \<Rightarrow> Inr x)"

lemma tars_result_simps [simp]:
  "tars_result (Inr x) = Inr x" "tars_result (Inl e) = Inl (Tars_exn e)"
  by (simp_all add: tars_result_def)

section \<open>TransactionBuilder\<close>

text \<open>The state of a builder: the library of the suite of the hardware module, once it exists.\<close>

record tx_builder =
  m_hsmCryptoSuite :: "string option"

definition new_tx_builder :: tx_builder where
  "new_tx_builder = \<lparr>m_hsmCryptoSuite = None\<rparr>"

text \<open>Two 64 bit numbers of random bytes (little endian) printed one after the other.\<close>

definition generateRandomStr :: "bytes \<Rightarrow> string" where
  "generateRandomStr randomFixedBytes =
    decimal (le_val (take 8 randomFixedBytes)) @ decimal (le_val (take 8 (drop 8 randomFixedBytes)))"

definition createTransactionData ::
  "bytes \<Rightarrow> string \<Rightarrow> string \<Rightarrow> string \<Rightarrow> bytes \<Rightarrow> string \<Rightarrow> u64 \<Rightarrow> TransactionData" where
  "createTransactionData rnd groupID chainID to data abi blockLimit =
    TransactionData_resetDefault \<lparr>td_version := 0, td_chainID := chainID, td_groupID := groupID,
      td_to := to, td_blockLimit := blockLimit, td_nonce := generateRandomStr rnd, td_abi := abi,
      td_input := data\<rparr>"

definition encodeTransactionData :: "TransactionData \<Rightarrow> tars_exn + bytes" where
  "encodeTransactionData d = TransactionData_writeTo d"

definition decodeTransactionData :: "bytes \<Rightarrow> tars_exn + TransactionData" where
  "decodeTransactionData txBytes = fst (TransactionData_readFrom txBytes 0)"

definition suite_hash :: "bcos_crypto \<Rightarrow> KeyPairType \<Rightarrow> bytes \<Rightarrow> bytes" where
  "suite_hash C cryptoType =
    (if cryptoType = SM2 \<or> cryptoType = HsmSM2 then sm3 C else keccak256 C)"

definition calculateTransactionDataHash :: "bcos_crypto \<Rightarrow> KeyPairType \<Rightarrow> TransactionData \<Rightarrow> bytes" where
  "calculateTransactionDataHash C cryptoType d = TransactionData_hash (suite_hash C cryptoType) d"

definition signTransactionDataHash ::
  "bcos_crypto \<Rightarrow> key_pair \<Rightarrow> bytes \<Rightarrow> tx_builder \<Rightarrow> (builder_exn + bytes) \<times> tx_builder" where
  "signTransactionDataHash C keyPair hash b =
    (if keyPairType keyPair = SM2 then (Inr (sm2_sign C keyPair hash), b)
     else if keyPairType keyPair = HsmSM2 then
       (case m_hsmCryptoSuite b of
          Some lib \<Rightarrow> (Inr (hsm_sign C lib keyPair hash), b)
        | None \<Rightarrow> (case hsmLibPath keyPair of
            None \<Rightarrow> (Inl Bad_cast, b)
          | Some lib \<Rightarrow> (Inr (hsm_sign C lib keyPair hash), b \<lparr>m_hsmCryptoSuite := Some lib\<rparr>)))
     else (Inr (secp256k1_sign C keyPair hash), b))"

definition createTransaction :: "TransactionData \<Rightarrow> bytes \<Rightarrow> bytes \<Rightarrow> u32 \<Rightarrow> string \<Rightarrow> Transaction" where
  "createTransaction d signData hash attribute extraData =
    Transaction_resetDefault \<lparr>tx_data := d, tx_dataHash := hash, tx_signature := signData,
      tx_importTime := 0, tx_attribute := attribute, tx_extraData := extraData\<rparr>"

definition encodeTransaction :: "Transaction \<Rightarrow> tars_exn + bytes" where
  "encodeTransaction t = Transaction_writeTo t"

definition decodeTransaction :: "bytes \<Rightarrow> tars_exn + Transaction" where
  "decodeTransaction txBytes = fst (Transaction_readFrom txBytes 0)"

definition createSignedTransaction_data ::
  "TransactionData \<Rightarrow> bytes \<Rightarrow> bytes \<Rightarrow> u32 \<Rightarrow> string \<Rightarrow> tars_exn + bytes" where
  "createSignedTransaction_data d signData hash attribute extraData =
    encodeTransaction (createTransaction d signData hash attribute extraData)"

definition createSignedTransaction ::
  "bcos_crypto \<Rightarrow> bytes \<Rightarrow> key_pair \<Rightarrow> string \<Rightarrow> string \<Rightarrow> string \<Rightarrow> bytes \<Rightarrow> string \<Rightarrow> u64 \<Rightarrow> u32 \<Rightarrow>
    string \<Rightarrow> tx_builder \<Rightarrow> (builder_exn + string \<times> string) \<times> tx_builder" where
  "createSignedTransaction C rnd keyPair groupID chainID to data abi blockLimit attribute extraData b =
    (let d = createTransactionData rnd groupID chainID to data abi blockLimit;
         hash = calculateTransactionDataHash C (keyPairType keyPair) d;
         (r, b') = signTransactionDataHash C keyPair hash b
     in (bindE r (\<lambda>signData.
           let t = createTransaction d signData hash attribute extraData in
           bindE (tars_result (encodeTransaction t)) (\<lambda>encodedTx.
             Inr (toHexStringWithPrefix C hash, toHexStringWithPrefix C encodedTx))), b'))"

section \<open>ReceiptBuilder\<close>

definition createReceiptData :: "string \<Rightarrow> string \<Rightarrow> bytes \<Rightarrow> u64 \<Rightarrow> TransactionReceiptData" where
  "createReceiptData gasUsed contractAddress output blockNumber =
    TransactionReceiptData_resetDefault \<lparr>rd_version := 0, rd_gasUsed := gasUsed,
      rd_contractAddress := contractAddress, rd_status := 0, rd_output := output,
      rd_logEntries := [], rd_blockNumber := blockNumber\<rparr>"

definition calculateReceiptDataHash :: "bcos_crypto \<Rightarrow> KeyPairType \<Rightarrow> TransactionReceiptData \<Rightarrow> bytes" where
  "calculateReceiptDataHash C cryptoType r = TransactionReceiptData_hash (suite_hash C cryptoType) r"

definition encodeReceipt :: "TransactionReceiptData \<Rightarrow> tars_exn + bytes" where
  "encodeReceipt r = TransactionReceiptData_writeTo r"

definition decodeReceiptData :: "bytes \<Rightarrow> tars_exn + TransactionReceiptData" where
  "decodeReceiptData receiptBytes = fst (TransactionReceiptData_readFrom receiptBytes 0)"

section \<open>TransactionBuilderService\<close>

text \<open>
  The group information is the copy \<open>getGroupInfo\<close> built when the service object was created. The
  condition on the builder passed is the one of the source: a given builder is replaced by the
  default one, and a null pointer, the default argument, is kept.
\<close>

record builder_service =
  bs_groupInfo :: group_info
  bs_builder :: "tx_builder option"

definition TransactionBuilderService ::
  "('h, 'n) service \<Rightarrow> string \<Rightarrow> tx_builder option \<Rightarrow> builder_exn + builder_service" where
  "TransactionBuilderService s groupID given =
    (case getGroupInfo groupID s of
       None \<Rightarrow> Inl (Runtime_error (''group not exist, groupID: '' @ groupID))
     | Some gi \<Rightarrow> Inr \<lparr>bs_groupInfo = gi,
         bs_builder = (if given \<noteq> None then Some new_tx_builder else given)\<rparr>)"

definition service_blockLimit :: "('h, 'n) service \<Rightarrow> string \<Rightarrow> builder_exn + u64" where
  "service_blockLimit s groupID =
    (case getBlockLimit groupID s of
       Inl _ \<Rightarrow> Inl Limit_overflow
     | Inr None \<Rightarrow> Inl (Runtime_error (''get block limit failed, groupID: '' @ groupID))
     | Inr (Some limit) \<Rightarrow> Inr (word_of_int limit))"

definition service_createTransactionData ::
  "('h, 'n) service \<Rightarrow> bytes \<Rightarrow> string \<Rightarrow> bytes \<Rightarrow> string \<Rightarrow> builder_service \<Rightarrow> builder_exn + TransactionData" where
  "service_createTransactionData s rnd to data abi bs =
    bindE (service_blockLimit s (m_groupID (bs_groupInfo bs))) (\<lambda>limit.
      case bs_builder bs of
        None \<Rightarrow> Inl Null_pointer
      | Some b \<Rightarrow> Inr (createTransactionData rnd (m_groupID (bs_groupInfo bs)) (m_chainID (bs_groupInfo bs))
          to data abi limit))"

definition keyPairStr :: "KeyPairType \<Rightarrow> string" where
  "keyPairStr type =
    (if type = SM2 \<or> type = HsmSM2 then ''sm'' else if type = Secp256K1 then ''none sm'' else ''unkown'')"

definition check_keyPair :: "group_info \<Rightarrow> KeyPairType \<Rightarrow> builder_exn + unit" where
  "check_keyPair gi type =
    (if m_smCryptoType gi \<and> type \<noteq> SM2 \<and> type \<noteq> HsmSM2 then
       Inl (Runtime_error (''group id: '' @ m_groupID gi @ '' ,group crypto type: sm/hsm'' @
         '' ,but the keypair type: '' @ keyPairStr type))
     else if \<not> m_smCryptoType gi \<and> type \<noteq> Secp256K1 then
       Inl (Runtime_error (''group id: '' @ m_groupID gi @ '' ,group crypto type: none sm'' @
         '' ,but the keypair type: '' @ keyPairStr type))
     else Inr ())"

definition service_createSignedTransaction ::
  "('h, 'n) service \<Rightarrow> bcos_crypto \<Rightarrow> bytes \<Rightarrow> key_pair \<Rightarrow> string \<Rightarrow> bytes \<Rightarrow> string \<Rightarrow> u32 \<Rightarrow> string \<Rightarrow>
    builder_service \<Rightarrow> (builder_exn + string \<times> string) \<times> builder_service" where
  "service_createSignedTransaction s C rnd keyPair to data abi attribute extraData bs =
    (let gi = bs_groupInfo bs in
     case bindE (service_blockLimit s (m_groupID gi)) (\<lambda>limit.
            bindE (check_keyPair gi (keyPairType keyPair)) (\<lambda>_. Inr limit)) of
       Inl e \<Rightarrow> (Inl e, bs)
     | Inr limit \<Rightarrow> (case bs_builder bs of
         None \<Rightarrow> (Inl Null_pointer, bs)
       | Some b \<Rightarrow>
           let (r, b') = createSignedTransaction C rnd keyPair (m_groupID gi) (m_chainID gi) to data abi
                 limit attribute extraData b
           in (r, bs \<lparr>bs_builder := Some b'\<rparr>)))"

section \<open>Key pairs and signatures\<close>

text \<open>
  \<open>KeyPairBuilder\<close> dispatches on the type; \<open>Signature\<close> knows the hardware module only. The factories
  and algorithms of bcos-crypto are arguments.
\<close>

definition genKeyPair ::
  "(bytes \<Rightarrow> 'k) \<Rightarrow> (bytes \<Rightarrow> 'k) \<Rightarrow> (string \<Rightarrow> bytes \<Rightarrow> 'k) \<Rightarrow> KeyPairType \<Rightarrow> bytes \<Rightarrow> string \<Rightarrow> builder_exn + 'k" where
  "genKeyPair secp sm hsm cryptoType privateKey hsmLib =
    (if cryptoType = Secp256K1 then Inr (secp privateKey)
     else if cryptoType = SM2 then Inr (sm privateKey)
     else if cryptoType = HsmSM2 then Inr (hsm hsmLib privateKey)
     else Inl (Runtime_error ''genKeyPair don't unsupport algorithm ''))"

definition genKeyPair_random ::
  "(bytes \<Rightarrow> 'k) \<Rightarrow> (bytes \<Rightarrow> 'k) \<Rightarrow> (string \<Rightarrow> bytes \<Rightarrow> 'k) \<Rightarrow> bytes \<Rightarrow> KeyPairType \<Rightarrow> string \<Rightarrow> builder_exn + 'k" where
  "genKeyPair_random secp sm hsm rnd cryptoType hsmLib =
    genKeyPair secp sm hsm cryptoType (take 32 rnd) hsmLib"

definition useHsmKeyPair :: "(string \<Rightarrow> nat \<Rightarrow> string \<Rightarrow> 'k) \<Rightarrow> nat \<Rightarrow> string \<Rightarrow> string \<Rightarrow> 'k" where
  "useHsmKeyPair hsm keyIndex password hsmLib = hsm hsmLib keyIndex password"

definition hsm_only :: "KeyPairType \<Rightarrow> 'a \<Rightarrow> builder_exn + 'a" where
  "hsm_only cryptoType x =
    (if cryptoType = HsmSM2 then Inr x else Inl (Runtime_error ''sign don't unsupport algorithm ''))"

definition Signature_sign :: "bcos_crypto \<Rightarrow> key_pair \<Rightarrow> bytes \<Rightarrow> string \<Rightarrow> builder_exn + bytes" where
  "Signature_sign C keyPair hash hsmLib = hsm_only (keyPairType keyPair) (hsm_sign C hsmLib keyPair hash)"

definition Signature_verify ::
  "(string \<Rightarrow> bytes \<Rightarrow> bytes \<Rightarrow> bytes \<Rightarrow> bool) \<Rightarrow> KeyPairType \<Rightarrow> bytes \<Rightarrow> bytes \<Rightarrow> bytes \<Rightarrow> string \<Rightarrow> builder_exn + bool" where
  "Signature_verify vf cryptoType pubKey hash sig hsmLib = hsm_only cryptoType (vf hsmLib pubKey hash sig)"

definition Signature_recover ::
  "(string \<Rightarrow> bytes \<Rightarrow> bytes \<Rightarrow> bytes) \<Rightarrow> KeyPairType \<Rightarrow> bytes \<Rightarrow> bytes \<Rightarrow> string \<Rightarrow> builder_exn + bytes" where
  "Signature_recover rc cryptoType hash sig hsmLib = hsm_only cryptoType (rc hsmLib hash sig)"

definition Signature_recoverAddress ::
  "(string \<Rightarrow> bytes \<Rightarrow> bool \<times> bytes) \<Rightarrow> KeyPairType \<Rightarrow> bytes \<Rightarrow> string \<Rightarrow> builder_exn + bool \<times> bytes" where
  "Signature_recoverAddress rc cryptoType input hsmLib = hsm_only cryptoType (rc hsmLib input)"

end
