(* ===== verification/JsonRpc.thy ===== *)
theory JsonRpc
  imports TxBuilder ServiceProps
begin

text \<open>
  The JSON-RPC client: requests and their factory (\<open>rpc/JsonRpcRequest.h\<close>, \<open>.cpp\<close>), responses
  (\<open>rpc/Common.h\<close>), the methods of the client (\<open>rpc/JsonRpcImpl.cpp\<close>), the sender that
  \<open>SdkFactory::buildJsonRpc\<close> installs, and \<open>rpc/JsonRpcServiceImpl.cpp\<close>. A method gives the group,
  the node and the text it passes to the sender, together with the new state of the client.
\<close>

section \<open>Requests\<close>

record rpc_request =
  rq_jsonrpc :: string
  rq_method :: string
  rq_id :: u64
  rq_params :: json

definition new_rpc_request :: rpc_request where
  "new_rpc_request = \<lparr>rq_jsonrpc = ''2.0'', rq_method = '''', rq_id = 1, rq_params = JNull\<rparr>"

definition request_json :: "rpc_request \<Rightarrow> json" where
  "request_json r = jobject [(''jsonrpc'', JString (rq_jsonrpc r)), (''method'', JString (rq_method r)),
    (''id'', JInt (sint (rq_id r))), (''params'', rq_params r)]"

definition request_toJson :: "jsoncpp \<Rightarrow> rpc_request \<Rightarrow> string" where
  "request_toJson J r = json_write J (request_json r)"

text \<open>
  \<open>fromJson\<close> leaves the request alone when it throws. The two errors are \<open>ParseError\<close>, for an
  exception of the library, and \<open>InvalidRequest\<close>.
\<close>

datatype rpc_exn = ParseError | InvalidRequest

definition request_fields :: "jsoncpp \<Rightarrow> string \<Rightarrow> json_exn + rpc_request option" where
  "request_fields J request =
    (case json_parse J request of
       None \<Rightarrow> Inr None
     | Some root \<Rightarrow>
         bindE (json_isMember J root ''jsonrpc'') (\<lambda>m. if \<not> m then Inr None else
         bindE (bindE (json_member J root ''jsonrpc'') (json_asString J)) (\<lambda>jsonrpc.
         bindE (json_isMember J root ''method'') (\<lambda>m. if \<not> m then Inr None else
         bindE (bindE (json_member J root ''method'') (json_asString J)) (\<lambda>method.
         bindE (json_isMember J root ''id'') (\<lambda>m.
         bindE (if m then bindE (json_member J root ''id'') (json_asInt64 J) else Inr 0) (\<lambda>id.
         bindE (json_isMember J root ''params'') (\<lambda>m. if \<not> m then Inr None else
         bindE (json_member J root ''params'') (\<lambda>params.
           if \<not> jsoncpp.json_isArray J params then Inr None
           else Inr (Some \<lparr>rq_jsonrpc = jsonrpc, rq_method = method, rq_id = word_of_int id,
             rq_params = params\<rparr>))))))))))"

definition request_fromJson :: "jsoncpp \<Rightarrow> string \<Rightarrow> rpc_exn + rpc_request" where
  "request_fromJson J request =
    (case request_fields J request of
       Inl _ \<Rightarrow> Inl ParseError
     | Inr None \<Rightarrow> Inl InvalidRequest
     | Inr (Some r) \<Rightarrow> Inr r)"

section \<open>Responses\<close>

record rpc_response =
  rs_jsonrpc :: string
  rs_id :: u64
  rs_code :: u32
  rs_message :: string
  rs_result :: json

definition response_json :: "rpc_response \<Rightarrow> json" where
  "response_json r = jobject
    ([(''jsonrpc'', JString (rs_jsonrpc r)), (''id'', JInt (sint (rs_id r)))] @
     (if rs_code r = 0 then [(''result'', rs_result r)]
      else [(''error'', jobject [(''code'', JInt (sint (rs_code r))), (''message'', JString (rs_message r))])]))"

definition response_toJsonString :: "jsoncpp \<Rightarrow> rpc_response \<Rightarrow> string" where
  "response_toJsonString J r = json_write J (response_json r)"

text \<open>\<open>Error::toString\<close>.\<close>

definition dquote :: char where "dquote = CHR 0x22"

definition error_toString :: "rpc_response \<Rightarrow> string" where
  "error_toString r = ''{'' @ [dquote] @ ''code'' @ [dquote] @ '':'' @ to_string (sint (rs_code r)) @
    [dquote] @ ''message'' @ [dquote] @ '':'' @ rs_message r @ ''}''"

section \<open>The client\<close>

text \<open>The counter of the request factory and the option of the client.\<close>

record json_rpc =
  rpc_id :: u64
  m_sendRequestToHighestBlockNode :: bool

text \<open>What a method passes to the sender, or to the callback at once.\<close>

datatype rpc_out =
    Rpc_send string string string
  | Rpc_respond string
  | Rpc_error int string
  | Rpc_throw group_exn

definition nextId :: "json_rpc \<Rightarrow> u64 \<times> json_rpc" where
  "nextId c = (rpc_id c + 1, c \<lparr>rpc_id := rpc_id c + 1\<rparr>)"

definition rpc_buildRequest :: "string \<Rightarrow> json \<Rightarrow> json_rpc \<Rightarrow> rpc_request \<times> json_rpc" where
  "rpc_buildRequest method params c =
    (let (i, c') = nextId c in (new_rpc_request \<lparr>rq_id := i, rq_method := method, rq_params := params\<rparr>, c'))"

text \<open>
  The client's environment: the library, the shuffle of the random choice and the service.
  \<open>randomGetHighestBlockNumberNode\<close> leaves the name alone when it finds no node.
\<close>

definition target_node ::
  "(string list \<Rightarrow> string list) \<Rightarrow> ('h, 'n) service \<Rightarrow> json_rpc \<Rightarrow> string \<Rightarrow> string \<Rightarrow> string" where
  "target_node shuffle s c groupID nodeName =
    (if m_sendRequestToHighestBlockNode c \<and> nodeName = [] then
       (case randomGetHighestBlockNumberNode shuffle groupID s of None \<Rightarrow> nodeName | Some name \<Rightarrow> name)
     else nodeName)"

definition send_request ::
  "jsoncpp \<Rightarrow> string \<Rightarrow> string \<Rightarrow> string \<Rightarrow> json list \<Rightarrow> json_rpc \<Rightarrow> rpc_out \<times> json_rpc" where
  "send_request J g n method params c =
    (let (request, c') = rpc_buildRequest method (JArray params) c
     in (Rpc_send g n (request_toJson J request), c'))"

definition node_request ::
  "jsoncpp \<Rightarrow> (string list \<Rightarrow> string list) \<Rightarrow> ('h, 'n) service \<Rightarrow> string \<Rightarrow> string \<Rightarrow> string \<Rightarrow> json list \<Rightarrow>
    json_rpc \<Rightarrow> rpc_out \<times> json_rpc" where
  "node_request J shuffle s groupID nodeName method args c =
    (let name = target_node shuffle s c groupID nodeName
     in send_request J groupID name method (JString groupID # JString name # args) c)"

text \<open>
  \<open>sendTransaction\<close> prints its request with \<open>boost::format\<close>: the strings between quotes as they
  are, the flag as \<open>0\<close> or \<open>1\<close>. It sends it with an empty group and node.
\<close>

definition sendTransaction_text :: "u64 \<Rightarrow> string \<Rightarrow> string \<Rightarrow> string \<Rightarrow> bool \<Rightarrow> string" where
  "sendTransaction_text i groupID name data requireProof =
    (let q = [dquote] in
     ''{'' @ q @ ''id'' @ q @ '':'' @ to_string (sint i) @ '','' @ q @ ''jsonrpc'' @ q @ '':'' @ q @ ''2.0'' @ q @
     '','' @ q @ ''method'' @ q @ '':'' @ q @ ''sendTransaction'' @ q @ '','' @ q @ ''params'' @ q @ '':['' @
     q @ groupID @ q @ '','' @ q @ name @ q @ '','' @ q @ data @ q @ '','' @
     (if requireProof then ''1'' else ''0'') @ '']}'')"

definition rpc_sendTransaction ::
  "(string list \<Rightarrow> string list) \<Rightarrow> ('h, 'n) service \<Rightarrow> string \<Rightarrow> string \<Rightarrow> string \<Rightarrow> bool \<Rightarrow>
    json_rpc \<Rightarrow> rpc_out \<times> json_rpc" where
  "rpc_sendTransaction shuffle s groupID nodeName data requireProof c =
    (let name = target_node shuffle s c groupID nodeName; (i, c') = nextId c
     in (Rpc_send '''' '''' (sendTransaction_text i groupID name data requireProof), c'))"

definition rpc_getGroupInfo :: "jsoncpp \<Rightarrow> ('h, 'n) service \<Rightarrow> string \<Rightarrow> json_rpc \<Rightarrow> rpc_out \<times> json_rpc" where
  "rpc_getGroupInfo J s groupID c =
    (let (i, c') = nextId c in
     case (case getGroupInfo groupID s of None \<Rightarrow> Inr JNull | Some gi \<Rightarrow> group_serialize gi) of
       Inl e \<Rightarrow> (Rpc_throw e, c')
     | Inr j \<Rightarrow> (Rpc_respond (response_toJsonString J
         \<lparr>rs_jsonrpc = ''2.0'', rs_id = i, rs_code = 0, rs_message = ''success'', rs_result = j\<rparr>), c'))"

definition rpc_genericMethod :: "string \<Rightarrow> json_rpc \<Rightarrow> rpc_out \<times> json_rpc" where
  "rpc_genericMethod data c = (Rpc_send '''' '''' data, c)"

definition rpc_genericMethod_group :: "string \<Rightarrow> string \<Rightarrow> json_rpc \<Rightarrow> rpc_out \<times> json_rpc" where
  "rpc_genericMethod_group g data c = (Rpc_send g '''' data, c)"

definition rpc_genericMethod_node ::
  "(string list \<Rightarrow> string list) \<Rightarrow> ('h, 'n) service \<Rightarrow> string \<Rightarrow> string \<Rightarrow> string \<Rightarrow> json_rpc \<Rightarrow> rpc_out \<times> json_rpc" where
  "rpc_genericMethod_node sh s g n data c = (Rpc_send g (target_node sh s c g n) data, c)"

definition rpc_callMethod ::
  "jsoncpp \<Rightarrow> (string list \<Rightarrow> string list) \<Rightarrow> ('h, 'n) service \<Rightarrow> string \<Rightarrow> string \<Rightarrow> string \<Rightarrow> string \<Rightarrow> json_rpc \<Rightarrow> rpc_out \<times> json_rpc" where
  "rpc_callMethod J sh s g n to data c =
    node_request J sh s g n ''call'' [JString to, JString data] c"

definition rpc_getTransaction ::
  "jsoncpp \<Rightarrow> (string list \<Rightarrow> string list) \<Rightarrow> ('h, 'n) service \<Rightarrow> string \<Rightarrow> string \<Rightarrow> string \<Rightarrow> bool \<Rightarrow> json_rpc \<Rightarrow> rpc_out \<times> json_rpc" where
  "rpc_getTransaction J sh s g n h proof c =
    node_request J sh s g n ''getTransaction'' [JString h, JBool proof] c"

definition rpc_getTransactionReceipt ::
  "jsoncpp \<Rightarrow> (string list \<Rightarrow> string list) \<Rightarrow> ('h, 'n) service \<Rightarrow> string \<Rightarrow> string \<Rightarrow> string \<Rightarrow> bool \<Rightarrow> json_rpc \<Rightarrow> rpc_out \<times> json_rpc" where
  "rpc_getTransactionReceipt J sh s g n h proof c =
    node_request J sh s g n ''getTransactionReceipt'' [JString h, JBool proof] c"

definition rpc_getBlockByHash ::
  "jsoncpp \<Rightarrow> (string list \<Rightarrow> string list) \<Rightarrow> ('h, 'n) service \<Rightarrow> string \<Rightarrow> string \<Rightarrow> string \<Rightarrow> bool \<Rightarrow> bool \<Rightarrow> json_rpc \<Rightarrow> rpc_out \<times> json_rpc" where
  "rpc_getBlockByHash J sh s g n h onlyHeader onlyTxHash c =
    node_request J sh s g n ''getBlockByHash'' [JString h, JBool onlyHeader, JBool onlyTxHash] c"

definition rpc_getBlockByNumber ::
  "jsoncpp \<Rightarrow> (string list \<Rightarrow> string list) \<Rightarrow> ('h, 'n) service \<Rightarrow> string \<Rightarrow> string \<Rightarrow> u64 \<Rightarrow> bool \<Rightarrow> bool \<Rightarrow> json_rpc \<Rightarrow> rpc_out \<times> json_rpc" where
  "rpc_getBlockByNumber J sh s g n number onlyHeader onlyTxHash c =
    node_request J sh s g n ''getBlockByNumber'' [JInt (sint number), JBool onlyHeader, JBool onlyTxHash] c"

definition rpc_getBlockHashByNumber ::
  "jsoncpp \<Rightarrow> (string list \<Rightarrow> string list) \<Rightarrow> ('h, 'n) service \<Rightarrow> string \<Rightarrow> string \<Rightarrow> u64 \<Rightarrow> json_rpc \<Rightarrow> rpc_out \<times> json_rpc" where
  "rpc_getBlockHashByNumber J sh s g n number c =
    node_request J sh s g n ''getBlockHashByNumber'' [JInt (sint number)] c"

definition rpc_getBlockNumber ::
  "jsoncpp \<Rightarrow> (string list \<Rightarrow> string list) \<Rightarrow> ('h, 'n) service \<Rightarrow> string \<Rightarrow> string \<Rightarrow> json_rpc \<Rightarrow> rpc_out \<times> json_rpc" where
  "rpc_getBlockNumber J sh s g n c =
    node_request J sh s g n ''getBlockNumber'' [] c"

definition rpc_getCode ::
  "jsoncpp \<Rightarrow> (string list \<Rightarrow> string list) \<Rightarrow> ('h, 'n) service \<Rightarrow> string \<Rightarrow> string \<Rightarrow> string \<Rightarrow> json_rpc \<Rightarrow> rpc_out \<times> json_rpc" where
  "rpc_getCode J sh s g n address c =
    node_request J sh s g n ''getCode'' [JString address] c"

definition rpc_getSealerList ::
  "jsoncpp \<Rightarrow> (string list \<Rightarrow> string list) \<Rightarrow> ('h, 'n) service \<Rightarrow> string \<Rightarrow> string \<Rightarrow> json_rpc \<Rightarrow> rpc_out \<times> json_rpc" where
  "rpc_getSealerList J sh s g n c =
    node_request J sh s g n ''getSealerList'' [] c"

definition rpc_getObserverList ::
  "jsoncpp \<Rightarrow> (string list \<Rightarrow> string list) \<Rightarrow> ('h, 'n) service \<Rightarrow> string \<Rightarrow> string \<Rightarrow> json_rpc \<Rightarrow> rpc_out \<times> json_rpc" where
  "rpc_getObserverList J sh s g n c =
    node_request J sh s g n ''getObserverList'' [] c"

definition rpc_getPbftView ::
  "jsoncpp \<Rightarrow> (string list \<Rightarrow> string list) \<Rightarrow> ('h, 'n) service \<Rightarrow> string \<Rightarrow> string \<Rightarrow> json_rpc \<Rightarrow> rpc_out \<times> json_rpc" where
  "rpc_getPbftView J sh s g n c =
    node_request J sh s g n ''getPbftView'' [] c"

definition rpc_getPendingTxSize ::
  "jsoncpp \<Rightarrow> (string list \<Rightarrow> string list) \<Rightarrow> ('h, 'n) service \<Rightarrow> string \<Rightarrow> string \<Rightarrow> json_rpc \<Rightarrow> rpc_out \<times> json_rpc" where
  "rpc_getPendingTxSize J sh s g n c =
    node_request J sh s g n ''getPendingTxSize'' [] c"

definition rpc_getSyncStatus ::
  "jsoncpp \<Rightarrow> (string list \<Rightarrow> string list) \<Rightarrow> ('h, 'n) service \<Rightarrow> string \<Rightarrow> string \<Rightarrow> json_rpc \<Rightarrow> rpc_out \<times> json_rpc" where
  "rpc_getSyncStatus J sh s g n c =
    node_request J sh s g n ''getSyncStatus'' [] c"

definition rpc_getConsensusStatus ::
  "jsoncpp \<Rightarrow> (string list \<Rightarrow> string list) \<Rightarrow> ('h, 'n) service \<Rightarrow> string \<Rightarrow> string \<Rightarrow> json_rpc \<Rightarrow> rpc_out \<times> json_rpc" where
  "rpc_getConsensusStatus J sh s g n c =
    node_request J sh s g n ''getConsensusStatus'' [] c"

definition rpc_getSystemConfigByKey ::
  "jsoncpp \<Rightarrow> (string list \<Rightarrow> string list) \<Rightarrow> ('h, 'n) service \<Rightarrow> string \<Rightarrow> string \<Rightarrow> string \<Rightarrow> json_rpc \<Rightarrow> rpc_out \<times> json_rpc" where
  "rpc_getSystemConfigByKey J sh s g n key c =
    node_request J sh s g n ''getSystemConfigByKey'' [JString key] c"

definition rpc_getTotalTransactionCount ::
  "jsoncpp \<Rightarrow> (string list \<Rightarrow> string list) \<Rightarrow> ('h, 'n) service \<Rightarrow> string \<Rightarrow> string \<Rightarrow> json_rpc \<Rightarrow> rpc_out \<times> json_rpc" where
  "rpc_getTotalTransactionCount J sh s g n c =
    node_request J sh s g n ''getTotalTransactionCount'' [] c"

definition rpc_getPeers ::
  "jsoncpp \<Rightarrow> json_rpc \<Rightarrow> rpc_out \<times> json_rpc" where
  "rpc_getPeers J c =
    send_request J '''' '''' ''getPeers'' [] c"

definition rpc_getGroupList ::
  "jsoncpp \<Rightarrow> json_rpc \<Rightarrow> rpc_out \<times> json_rpc" where
  "rpc_getGroupList J c =
    send_request J '''' '''' ''getGroupList'' [] c"

definition rpc_getGroupInfoList ::
  "jsoncpp \<Rightarrow> json_rpc \<Rightarrow> rpc_out \<times> json_rpc" where
  "rpc_getGroupInfoList J c =
    send_request J '''' '''' ''getGroupInfoList'' [] c"

definition rpc_getGroupNodeInfo ::
  "jsoncpp \<Rightarrow> string \<Rightarrow> string \<Rightarrow> json_rpc \<Rightarrow> rpc_out \<times> json_rpc" where
  "rpc_getGroupNodeInfo J g n c =
    send_request J g n ''getGroupNodeInfo'' [JString g, JString n] c"

definition rpc_getGroupPeers ::
  "jsoncpp \<Rightarrow> string \<Rightarrow> json_rpc \<Rightarrow> rpc_out \<times> json_rpc" where
  "rpc_getGroupPeers J g c =
    send_request J '''' '''' ''getGroupPeers'' [JString g] c"

text \<open>The methods, as the calls of the interface.\<close>

datatype rpc_call =
    GenericMethod string
  | GenericMethod_group string string
  | GenericMethod_node string string string
  | Call string string string string
  | SendTransaction string string string bool
  | GetTransaction string string string bool
  | GetTransactionReceipt string string string bool
  | GetBlockByHash string string string bool bool
  | GetBlockByNumber string string u64 bool bool
  | GetBlockHashByNumber string string u64
  | GetBlockNumber string string
  | GetCode string string string
  | GetSealerList string string
  | GetObserverList string string
  | GetPbftView string string
  | GetPendingTxSize string string
  | GetSyncStatus string string
  | GetConsensusStatus string string
  | GetSystemConfigByKey string string string
  | GetTotalTransactionCount string string
  | GetPeers
  | GetGroupList
  | GetGroupInfo string
  | GetGroupInfoList
  | GetGroupNodeInfo string string
  | GetGroupPeers string

fun rpc_exec ::
  "jsoncpp \<Rightarrow> (string list \<Rightarrow> string list) \<Rightarrow> ('h, 'n) service \<Rightarrow> rpc_call \<Rightarrow> json_rpc \<Rightarrow> rpc_out \<times> json_rpc" where
  "rpc_exec J sh s (GenericMethod data) c = rpc_genericMethod data c"
| "rpc_exec J sh s (GenericMethod_group g data) c = rpc_genericMethod_group g data c"
| "rpc_exec J sh s (GenericMethod_node g n data) c = rpc_genericMethod_node sh s g n data c"
| "rpc_exec J sh s (Call g n to data) c = rpc_callMethod J sh s g n to data c"
| "rpc_exec J sh s (SendTransaction g n data proof) c = rpc_sendTransaction sh s g n data proof c"
| "rpc_exec J sh s (GetTransaction g n h proof) c = rpc_getTransaction J sh s g n h proof c"
| "rpc_exec J sh s (GetTransactionReceipt g n h proof) c = rpc_getTransactionReceipt J sh s g n h proof c"
| "rpc_exec J sh s (GetBlockByHash g n h onlyHeader onlyTxHash) c = rpc_getBlockByHash J sh s g n h onlyHeader onlyTxHash c"
| "rpc_exec J sh s (GetBlockByNumber g n number onlyHeader onlyTxHash) c = rpc_getBlockByNumber J sh s g n number onlyHeader onlyTxHash c"
| "rpc_exec J sh s (GetBlockHashByNumber g n number) c = rpc_getBlockHashByNumber J sh s g n number c"
| "rpc_exec J sh s (GetBlockNumber g n) c = rpc_getBlockNumber J sh s g n c"
| "rpc_exec J sh s (GetCode g n address) c = rpc_getCode J sh s g n address c"
| "rpc_exec J sh s (GetSealerList g n) c = rpc_getSealerList J sh s g n c"
| "rpc_exec J sh s (GetObserverList g n) c = rpc_getObserverList J sh s g n c"
| "rpc_exec J sh s (GetPbftView g n) c = rpc_getPbftView J sh s g n c"
| "rpc_exec J sh s (GetPendingTxSize g n) c = rpc_getPendingTxSize J sh s g n c"
| "rpc_exec J sh s (GetSyncStatus g n) c = rpc_getSyncStatus J sh s g n c"
| "rpc_exec J sh s (GetConsensusStatus g n) c = rpc_getConsensusStatus J sh s g n c"
| "rpc_exec J sh s (GetSystemConfigByKey g n key) c = rpc_getSystemConfigByKey J sh s g n key c"
| "rpc_exec J sh s (GetTotalTransactionCount g n) c = rpc_getTotalTransactionCount J sh s g n c"
| "rpc_exec J sh s GetPeers c = rpc_getPeers J c"
| "rpc_exec J sh s GetGroupList c = rpc_getGroupList J c"
| "rpc_exec J sh s (GetGroupInfo g) c = rpc_getGroupInfo J s g c"
| "rpc_exec J sh s GetGroupInfoList c = rpc_getGroupInfoList J c"
| "rpc_exec J sh s (GetGroupNodeInfo g n) c = rpc_getGroupNodeInfo J g n c"
| "rpc_exec J sh s (GetGroupPeers g) c = rpc_getGroupPeers J g c"

text \<open>\<open>start\<close> starts the service, if one is set; \<open>stop\<close> only logs.\<close>

definition rpc_start ::
  "bool \<Rightarrow> (nat \<Rightarrow> u32 \<times> int) \<Rightarrow> int \<Rightarrow> int \<Rightarrow> (('h, 'n) service_effect list \<times> (service_exn + unit)) option" where
  "rpc_start m_service obs start timeout =
    (if m_service then service_start obs start timeout else Some ([], Inr ()))"

section \<open>The sender\<close>

definition RPC_REQUEST :: nat where "RPC_REQUEST = 0x102"

definition rpc_message :: "string \<Rightarrow> string \<Rightarrow> ws_message" where
  "rpc_message sequence request =
    \<lparr>seq = sequence, packetType = RPC_REQUEST, payload = bytes_of_string request\<rparr>"

text \<open>The sender of \<open>buildJsonRpc\<close>; the sequence number is one the message factory gives.\<close>

definition rpc_sender ::
  "(string list \<Rightarrow> string list) \<Rightarrow> int \<Rightarrow> ws_session list \<Rightarrow> string \<Rightarrow> ('h, 'n) service \<Rightarrow> rpc_out \<Rightarrow>
    ('h, 'n) service_effect list" where
  "rpc_sender shuffle code sessions sequence s out =
    (case out of
       Rpc_send g n request \<Rightarrow>
         asyncSendMessageByGroupAndNode shuffle code sessions g n (rpc_message sequence request) s
     | _ \<Rightarrow> [])"

text \<open>What reaches the user's callback: the error and the payload of the answer, if there is one.\<close>

definition rpc_callback :: "'e option \<Rightarrow> ws_message option \<Rightarrow> 'e option \<times> bytes option" where
  "rpc_callback err msg = (err, map_option payload msg)"

section \<open>JsonRpcServiceImpl\<close>

text \<open>
  \<open>sendTransaction\<close> of the service: it signs a transaction for a known group and sends it. The result
  of \<open>getBlockLimit\<close> is not looked at: for a group without a height the limit stays 0.
\<close>

definition blockLimit_or_0 :: "('h, 'n) service \<Rightarrow> string \<Rightarrow> builder_exn + u64" where
  "blockLimit_or_0 s groupID =
    (case getBlockLimit groupID s of
       Inl _ \<Rightarrow> Inl Limit_overflow | Inr None \<Rightarrow> Inr 0 | Inr (Some limit) \<Rightarrow> Inr (word_of_int limit))"

definition rpcService_sendTransaction ::
  "(string list \<Rightarrow> string list) \<Rightarrow> ('h, 'n) service \<Rightarrow> bcos_crypto \<Rightarrow> bytes \<Rightarrow> key_pair \<Rightarrow> string \<Rightarrow> string \<Rightarrow>
    string \<Rightarrow> bytes \<Rightarrow> string \<Rightarrow> u32 \<Rightarrow> string \<Rightarrow> tx_builder \<times> json_rpc \<Rightarrow>
    (builder_exn + string \<times> rpc_out) \<times> tx_builder \<times> json_rpc" where
  "rpcService_sendTransaction shuffle s C rnd keyPair groupID nodeName to data abi attribute extraData st =
    (case getGroupInfo groupID s of
       None \<Rightarrow> (Inr ('''', Rpc_error (- 1) (''group not exist, groupID: '' @ groupID)), st)
     | Some gi \<Rightarrow>
         (case blockLimit_or_0 s groupID of
            Inl e \<Rightarrow> (Inl e, st)
          | Inr limit \<Rightarrow>
              let (b, c) = st;
                  (r, b') = createSignedTransaction C rnd keyPair groupID (m_chainID gi) to data abi limit
                    attribute extraData b
              in (case r of
                    Inl e \<Rightarrow> (Inl e, b', c)
                  | Inr (transactionHash, signedTransaction) \<Rightarrow>
                      let (out, c') = rpc_sendTransaction shuffle s groupID nodeName signedTransaction False c
                      in (Inr (transactionHash, out), b', c'))))"

end
