(* ===== verification/TxTheorems.thy ===== *)
theory TxTheorems
  imports TxBuilder GroupProps
begin

text \<open>
  The properties of the transactions: what is encoded is decoded, the decoder always ends, what a
  signed transaction holds, what its hash covers, and when the builder service fails.
\<close>

section \<open>Round trips\<close>

text \<open>Claim C3. A transaction, its data included, is encoded without an error, the decoder gives
it back, and it gives it back as well when a field of a newer version of the struct follows: for
every transaction whose strings have at most \<open>TARS_MAX_STRING_LENGTH\<close> bytes and whose byte vectors
have less than \<open>2 ^ 32\<close>, whatever its integers, with each optional field present or left out.\<close>
theorem transaction_roundtrip:
  assumes "Transaction_ok t" and "length s \<le> TARS_MAX_STRING_LENGTH" and "8 < tag" and "tag < 256"
  shows "\<exists>img ext. encodeTransaction t = Inr img \<and> write_string s tag = Inr ext \<and>
    decodeTransaction img = Inr t \<and> decodeTransaction (img @ ext) = Inr t"
  using ttx.roundtrip_newer [OF assms]
  by (metis encodeTransaction_def decodeTransaction_def fst_conv)

text \<open>The data of a transaction and a transaction with every kind of field.\<close>

definition example_data :: TransactionData where
  "example_data = \<lparr>td_version = - 3, td_chainID = ''chain0'', td_groupID = ''group0'',
    td_blockLimit = 70000, td_nonce = ''12'', td_to = '''', td_input = [0, 255], td_abi = ''[]''\<rparr>"

definition example_transaction :: Transaction where
  "example_transaction = \<lparr>tx_data = example_data, tx_dataHash = [1, 2], tx_signature = [],
    tx_importTime = 5000000000, tx_attribute = 0, tx_sender = [7], tx_extraData = ''x''\<rparr>"

lemma example_ok: "TransactionData_ok example_data" "Transaction_ok example_transaction"
  by (simp_all add: TransactionData_ok_def Transaction_ok_def example_data_def example_transaction_def
      TARS_MAX_STRING_LENGTH_def)

theorem transaction_roundtrip_witness:
  "\<exists>img ext. encodeTransaction example_transaction = Inr img \<and> write_string ''new'' 200 = Inr ext \<and>
    decodeTransaction img = Inr example_transaction \<and>
    decodeTransaction (img @ ext) = Inr example_transaction"
  by (rule transaction_roundtrip [OF example_ok(2)]) (simp_all add: TARS_MAX_STRING_LENGTH_def)

text \<open>Claim C12. A receipt, with its log entries and their topics, and the data of a receipt alone
are encoded without an error and decoded to what they were, also when a field of a newer version of
the struct follows.\<close>
theorem receipt_roundtrip:
  assumes "TransactionReceipt_ok t" and "length s \<le> TARS_MAX_STRING_LENGTH" and "7 < tag" and "tag < 256"
  shows "\<exists>img data ext. TransactionReceipt_writeTo t = Inr img \<and> encodeReceipt (tr_data t) = Inr data \<and>
    write_string s tag = Inr ext \<and>
    fst (TransactionReceipt_readFrom img 0) = Inr t \<and>
    fst (TransactionReceipt_readFrom (img @ ext) 0) = Inr t \<and>
    decodeReceiptData data = Inr (tr_data t) \<and> decodeReceiptData (data @ ext) = Inr (tr_data t)"
proof -
  have ok: "TransactionReceiptData_ok (tr_data t)" and "3 < tag"
    using assms by (simp_all add: TransactionReceipt_ok_def)
  from treceipt.roundtrip_newer [OF assms(1,2) this(2) assms(4)] obtain img ext where
    1: "TransactionReceipt_writeTo t = Inr img" "write_string s tag = Inr ext"
    "TransactionReceipt_readFrom img 0 = (Inr t, length img)"
    "TransactionReceipt_readFrom (img @ ext) 0 = (Inr t, length img)" by blast
  from treceiptdata.roundtrip_newer [OF ok assms(2-4)] obtain data ext' where
    2: "TransactionReceiptData_writeTo (tr_data t) = Inr data" "write_string s tag = Inr ext'"
    "TransactionReceiptData_readFrom data 0 = (Inr (tr_data t), length data)"
    "TransactionReceiptData_readFrom (data @ ext') 0 = (Inr (tr_data t), length data)" by blast
  have "ext' = ext" using 1(2) 2(2) by simp
  with 1 2 show ?thesis unfolding encodeReceipt_def decodeReceiptData_def by auto
qed

definition example_receipt :: TransactionReceipt where
  "example_receipt = \<lparr>tr_data = \<lparr>rd_version = 1, rd_gasUsed = ''100'', rd_contractAddress = '''', rd_status = 0,
      rd_output = [], rd_logEntries = [\<lparr>le_address = ''a'', le_topic = [[1, 2], []], le_data = [9]\<rparr>,
        \<lparr>le_address = '''', le_topic = [], le_data = []\<rparr>],
      rd_blockNumber = 7\<rparr>, tr_dataHash = [3], tr_message = ''''\<rparr>"

theorem receipt_roundtrip_witness:
  "\<exists>img data ext. TransactionReceipt_writeTo example_receipt = Inr img \<and>
    encodeReceipt (tr_data example_receipt) = Inr data \<and> write_string ''new'' 8 = Inr ext \<and>
    fst (TransactionReceipt_readFrom img 0) = Inr example_receipt \<and>
    fst (TransactionReceipt_readFrom (img @ ext) 0) = Inr example_receipt \<and>
    decodeReceiptData data = Inr (tr_data example_receipt) \<and>
    decodeReceiptData (data @ ext) = Inr (tr_data example_receipt)"
  by (rule receipt_roundtrip)
    (simp_all add: TransactionReceipt_ok_def TransactionReceiptData_ok_def LogEntry_ok_def
      example_receipt_def TARS_MAX_STRING_LENGTH_def)

section \<open>The decoder ends\<close>

text \<open>Claim C22. Decoding ends on every input: the recursion on nested structs, lists and maps and
the loops over fields and elements, bounded by a fuel in the model, never use it up, for the data
of a transaction, a transaction, the data of a receipt and a receipt; and every larger fuel of the
routine that skips a field gives the same result.\<close>
theorem tars_decode_ends:
  "fst (TransactionData_readFrom buf c) \<noteq> Inl Fuel_exhausted \<and>
   fst (Transaction_readFrom buf c) \<noteq> Inl Fuel_exhausted \<and>
   fst (TransactionReceiptData_readFrom buf c) \<noteq> Inl Fuel_exhausted \<and>
   fst (TransactionReceipt_readFrom buf c) \<noteq> Inl Fuel_exhausted \<and>
   fst (skipField buf ty c) \<noteq> Inl Fuel_exhausted \<and>
   skip_field buf (tars_fuel buf + extra) ty c = skipField buf ty c"
  using tdata.readFrom_fuel ttx.readFrom_fuel treceiptdata.readFrom_fuel treceipt.readFrom_fuel
    agreeD(2) [OF agree_skip_field [of buf c "tars_fuel buf" "tars_fuel buf" ty]]
    skip_field_fuel [of buf c "tars_fuel buf + extra" ty]
  by (simp add: tars_fuel_def skipField_def)

text \<open>
  Every field of a transaction is optional for the reader: nothing at all is decoded as the default
  transaction, and data cut off after the field of the data as an unsigned one.
\<close>

lemma empty_transaction: "decodeTransaction [] = Inr Transaction_resetDefault"
proof -
  have "seek_tag [] tag c = (Inr None, c)" for tag c
    by (rule seek_tag_beyond [of _ _ "[]"]) simp_all
  then show ?thesis
    by (simp add: decodeTransaction_def Transaction_readFrom_def Transaction_resetDefault_def Let_def rbind_def
        tbytes.read_absent tint64.read_absent tint32.read_absent tstring.read_absent tdata.field.read_absent)
qed

section \<open>Signed transactions\<close>

lemma decimal_length: "n < 10 ^ Suc k \<Longrightarrow> length (decimal n) \<le> Suc k"
proof (induction k arbitrary: n)
  case (Suc k)
  show ?case
  proof (cases "n < 10")
    case False
    have "length (decimal (n div 10)) \<le> Suc k" using Suc.prems by (intro Suc.IH) simp
    with False show ?thesis by (subst decimal.simps) simp
  qed (simp add: decimal.simps)
qed (simp add: decimal.simps)

lemma nonce_length: "length (generateRandomStr rnd) \<le> 40"
proof -
  have "length (decimal (le_val bs)) \<le> Suc 19" if "length bs \<le> 8" for bs
  proof (rule decimal_length)
    have "le_val bs < 256 ^ length bs" by (rule le_val_less)
    also have "\<dots> \<le> 256 ^ 8" using that by (intro power_increasing) simp_all
    also have "\<dots> < 10 ^ Suc 19" by simp
    finally show "le_val bs < 10 ^ Suc 19" .
  qed
  from this [of "take 8 rnd"] this [of "take 8 (drop 8 rnd)"] show ?thesis
    by (simp add: generateRandomStr_def)
qed

text \<open>What is relied on of bcos-crypto: hashes of 32 bytes and signatures of at most 128.\<close>

definition bcos_crypto_ok :: "bcos_crypto \<Rightarrow> bool" where
  "bcos_crypto_ok C \<longleftrightarrow> (\<forall>x. length (keccak256 C x) = 32 \<and> length (sm3 C x) = 32) \<and>
    (\<forall>lib k h. length (secp256k1_sign C k h) \<le> 128 \<and> length (sm2_sign C k h) \<le> 128 \<and>
      length (hsm_sign C lib k h) \<le> 128)"

lemma sign_length:
  "bcos_crypto_ok C \<Longrightarrow> fst (signTransactionDataHash C kp h b) = Inr sig \<Longrightarrow> length sig \<le> 128"
  by (auto simp: bcos_crypto_ok_def signTransactionDataHash_def split: if_splits option.splits)

lemma suite_hash_length: "bcos_crypto_ok C \<Longrightarrow> length (suite_hash C ty x) = 32"
  by (simp add: bcos_crypto_ok_def suite_hash_def)

lemma createSignedTransaction_fails:
  "fst (signTransactionDataHash C kp (calculateTransactionDataHash C (keyPairType kp)
      (createTransactionData rnd g ch to inp abi limit)) b) = Inl e \<Longrightarrow>
    fst (createSignedTransaction C rnd kp g ch to inp abi limit attr ext b) = Inl e \<and>
    e = Bad_cast \<and> keyPairType kp = HsmSM2 \<and> hsmLibPath kp = None \<and> m_hsmCryptoSuite b = None"
  by (auto simp: createSignedTransaction_def Let_def case_prod_unfold signTransactionDataHash_def
      split: if_splits option.splits)

lemma createSignedTransaction_signs:
  fixes rnd g ch to inp abi limit C kp
  defines "d \<equiv> createTransactionData rnd g ch to inp abi limit"
  defines "h \<equiv> calculateTransactionDataHash C (keyPairType kp) d"
  assumes C: "bcos_crypto_ok C" and s: "\<forall>s \<in> {g, ch, to, abi, ext}. length s \<le> TARS_MAX_STRING_LENGTH"
    and i: "length inp < 2 ^ 32" and sig: "fst (signTransactionDataHash C kp h b) = Inr sig"
  shows "\<exists>tx. fst (createSignedTransaction C rnd kp g ch to inp abi limit attr ext b) =
      Inr (toHexStringWithPrefix C h, toHexStringWithPrefix C tx) \<and>
    decodeTransaction tx = Inr (createTransaction d sig h attr ext)"
proof -
  let ?t = "createTransaction d sig h attr ext"
  have "TransactionData_ok d"
    using s i nonce_length [of rnd]
    by (simp add: d_def TransactionData_ok_def createTransactionData_def TARS_MAX_STRING_LENGTH_def)
  then have "Transaction_ok ?t"
    using s sign_length [OF C sig] suite_hash_length [OF C]
    by (simp add: Transaction_ok_def createTransaction_def Transaction_resetDefault_def h_def
        calculateTransactionDataHash_def TransactionData_hash_def)
  from ttx.roundtrip [OF this] obtain tx where
    tx: "encodeTransaction ?t = Inr tx" "decodeTransaction tx = Inr ?t"
    unfolding encodeTransaction_def decodeTransaction_def by fastforce
  then show ?thesis using sig unfolding d_def h_def
    by (intro exI [of _ tx]) (simp add: createSignedTransaction_def Let_def case_prod_unfold)
qed

text \<open>Claim C9. \<open>createSignedTransaction\<close> returns the images of a hash and of an encoded
transaction, and whoever decodes the latter finds the chain, the group, the contract, the input,
the ABI, the block limit, the attribute and the extra data that were asked for, the hash returned,
which is the hash of the data under SM3 for a key of one of the two SM2 types and under Keccak256
for any other, and the signature the key's algorithm gives for that hash; it fails only when signing
fails.\<close>
theorem signed_transaction:
  assumes "bcos_crypto_ok C" and "\<forall>s \<in> {g, ch, to, abi, ext}. length s \<le> TARS_MAX_STRING_LENGTH"
    and "length inp < 2 ^ 32"
  shows "case fst (createSignedTransaction C rnd kp g ch to inp abi limit attr ext b) of
      Inl e \<Rightarrow> e = Bad_cast \<and> keyPairType kp = HsmSM2 \<and> hsmLibPath kp = None \<and> m_hsmCryptoSuite b = None
    | Inr (hashHex, txHex) \<Rightarrow> (\<exists>tx t hash. txHex = toHexStringWithPrefix C tx \<and>
        hashHex = toHexStringWithPrefix C hash \<and> decodeTransaction tx = Inr t \<and>
        td_chainID (tx_data t) = ch \<and> td_groupID (tx_data t) = g \<and> td_to (tx_data t) = to \<and>
        td_input (tx_data t) = inp \<and> td_abi (tx_data t) = abi \<and> td_blockLimit (tx_data t) = limit \<and>
        tx_attribute t = attr \<and> tx_extraData t = ext \<and> tx_dataHash t = hash \<and>
        hash = TransactionData_hash
          (if keyPairType kp \<in> {SM2, HsmSM2} then sm3 C else keccak256 C) (tx_data t) \<and>
        fst (signTransactionDataHash C kp hash b) = Inr (tx_signature t))"
proof (cases "fst (signTransactionDataHash C kp (calculateTransactionDataHash C (keyPairType kp)
    (createTransactionData rnd g ch to inp abi limit)) b)")
  case (Inl e)
  from createSignedTransaction_fails [OF this] show ?thesis by simp
next
  case (Inr sig)
  from createSignedTransaction_signs [OF assms this] obtain tx where
    "fst (createSignedTransaction C rnd kp g ch to inp abi limit attr ext b) =
      Inr (toHexStringWithPrefix C (calculateTransactionDataHash C (keyPairType kp)
        (createTransactionData rnd g ch to inp abi limit)), toHexStringWithPrefix C tx)"
    "decodeTransaction tx = Inr (createTransaction (createTransactionData rnd g ch to inp abi limit) sig
      (calculateTransactionDataHash C (keyPairType kp) (createTransactionData rnd g ch to inp abi limit)) attr ext)"
    by blast
  with Inr show ?thesis
    by (auto simp: createTransaction_def createTransactionData_def calculateTransactionDataHash_def
        suite_hash_def intro!: exI [of _ tx])
qed

definition crypto0 :: bcos_crypto where
  "crypto0 = \<lparr>keccak256 = (\<lambda>x. replicate 32 (if x = [] then 0 else last x)),
    sm3 = (\<lambda>x. replicate 32 (if x = [] then 1 else hd x)),
    secp256k1_sign = (\<lambda>k h. take 64 (kp_key k @ h)), sm2_sign = (\<lambda>k h. take 64 (h @ kp_key k)),
    hsm_sign = (\<lambda>lib k h. take 64 (bytes_of_string lib @ h)),
    toHexStringWithPrefix = (\<lambda>bs. ''0x'' @ concat (map (\<lambda>b. decimal (unat b)) bs))\<rparr>"

lemma crypto0_ok: "bcos_crypto_ok crypto0"
  by (auto simp: bcos_crypto_ok_def crypto0_def min_def)

theorem signed_transaction_witness:
  "\<exists>tx t. fst (createSignedTransaction crypto0 [] \<lparr>keyPairType = Secp256K1, hsmLibPath = None, kp_key = [5]\<rparr>
      ''group0'' ''chain0'' ''0x01'' [1, 2] '''' 600 0 '''' new_tx_builder) =
      Inr (toHexStringWithPrefix crypto0 (tx_dataHash t), toHexStringWithPrefix crypto0 tx) \<and>
    decodeTransaction tx = Inr t \<and> td_groupID (tx_data t) = ''group0'' \<and> td_input (tx_data t) = [1, 2]"
proof -
  have len: "\<forall>s \<in> {''group0'', ''chain0'', ''0x01'', '''', ''''}. length s \<le> TARS_MAX_STRING_LENGTH"
    "length [1, 2 :: byte] < 2 ^ 32" by (simp_all add: TARS_MAX_STRING_LENGTH_def)
  show ?thesis
    using signed_transaction [OF crypto0_ok len, where rnd = "[]" and limit = 600 and attr = 0 and b = new_tx_builder
        and kp = "\<lparr>keyPairType = Secp256K1, hsmLibPath = None, kp_key = [5]\<rparr>"]
    by (auto split: sum.splits)
qed

section \<open>What the hash covers\<close>

lemma bytes_of_string_inject: "bytes_of_string a = bytes_of_string b \<longleftrightarrow> a = b"
  by (metis string_of_bytes_of_string)

lemma be_bytes_unat_inject:
  "be_bytes 4 (unat a) = be_bytes 4 (unat b) \<longleftrightarrow> a = (b :: u32)"
  "be_bytes 8 (unat c) = be_bytes 8 (unat d) \<longleftrightarrow> c = (d :: u64)"
proof -
  have "unat x < 256 ^ 4" for x :: u32 using unsigned_less [of x] by simp
  then show "be_bytes 4 (unat a) = be_bytes 4 (unat b) \<longleftrightarrow> a = b"
    by (metis be_val_be_bytes word_unat_eq_iff)
  have "unat x < 256 ^ 8" for x :: u64 using unsigned_less [of x] by simp
  then show "be_bytes 8 (unat c) = be_bytes 8 (unat d) \<longleftrightarrow> c = d"
    by (metis be_val_be_bytes word_unat_eq_iff)
qed

lemma preimage_parts:
  "TransactionData_preimage d = be_bytes 4 (unat (td_version d)) @
    bytes_of_string (td_chainID d @ td_groupID d) @ be_bytes 8 (unat (td_blockLimit d)) @
    (bytes_of_string (td_nonce d @ td_to d) @ td_input d @ bytes_of_string (td_abi d))"
  by (simp add: TransactionData_preimage_def bytes_of_string_def)

text \<open>Claim C37. The bytes hashed determine the data of a transaction once the lengths of its fields
are known, but not otherwise, because they carry no lengths: moving the boundary between the chain
and the group, or between the nonce, the contract, the input and the ABI, changes the transaction
and not its hash, under every hash function.\<close>
theorem hash_preimage:
  "(TransactionData_preimage d = TransactionData_preimage e \<and>
      map length [td_chainID d, td_groupID d, td_nonce d, td_to d] =
      map length [td_chainID e, td_groupID e, td_nonce e, td_to e] \<and>
      length (td_input d) = length (td_input e) \<longrightarrow> d = e) \<and>
   (bytes_of_string (td_chainID d @ td_groupID d) = bytes_of_string (td_chainID e @ td_groupID e) \<and>
      td_version d = td_version e \<and> td_blockLimit d = td_blockLimit e \<and>
      bytes_of_string (td_nonce d @ td_to d) @ td_input d @ bytes_of_string (td_abi d) =
      bytes_of_string (td_nonce e @ td_to e) @ td_input e @ bytes_of_string (td_abi e) \<longrightarrow>
      TransactionData_hash H d = TransactionData_hash H e)"
proof (intro conjI impI)
  assume "TransactionData_preimage d = TransactionData_preimage e \<and>
      map length [td_chainID d, td_groupID d, td_nonce d, td_to d] =
      map length [td_chainID e, td_groupID e, td_nonce e, td_to e] \<and>
      length (td_input d) = length (td_input e)"
  then have len: "length (td_chainID d) = length (td_chainID e)" "length (td_groupID d) = length (td_groupID e)"
      "length (td_nonce d) = length (td_nonce e)" "length (td_to d) = length (td_to e)"
      "length (td_input d) = length (td_input e)"
    and pre: "TransactionData_preimage d = TransactionData_preimage e" by simp_all
  from pre show "d = e"
    by (intro TransactionData.equality)
      (simp_all add: TransactionData_preimage_def bytes_of_string_inject be_bytes_unat_inject len)
qed (simp only: TransactionData_hash_def preimage_parts)

theorem hash_preimage_witness:
  "example_data \<lparr>td_to := ''2'', td_nonce := ''1''\<rparr> \<noteq> example_data \<lparr>td_to := '''', td_nonce := ''12''\<rparr> \<and>
   TransactionData_hash (keccak256 crypto0) (example_data \<lparr>td_to := ''2'', td_nonce := ''1''\<rparr>) =
   TransactionData_hash (keccak256 crypto0) (example_data \<lparr>td_to := '''', td_nonce := ''12''\<rparr>)"
  using hash_preimage [of "example_data \<lparr>td_to := ''2'', td_nonce := ''1''\<rparr>"
      "example_data \<lparr>td_to := '''', td_nonce := ''12''\<rparr>" "keccak256 crypto0"]
  by (simp add: example_data_def)

section \<open>The builder service\<close>

text \<open>
  The suite of the hardware module is made once, for the library of the first key: a key of another
  library is signed with the first one.
\<close>

lemma hsm_library_kept:
  assumes "keyPairType k1 = HsmSM2" and "hsmLibPath k1 = Some lib" and "keyPairType k2 = HsmSM2"
  shows "signTransactionDataHash C k2 h2 (snd (signTransactionDataHash C k1 h1 new_tx_builder)) =
    (Inr (hsm_sign C lib k2 h2), \<lparr>m_hsmCryptoSuite = Some lib\<rparr>)"
  using assms by (simp add: signTransactionDataHash_def new_tx_builder_def)

text \<open>The builder service: for an unknown group it cannot be created; otherwise a signed
transaction needs a known height of the group and a key of the kind of the group's cryptography, and
then, when the service was created with a builder, it is the one of a fresh builder of the SDK for the
group's chain and the block limit of the group, whatever builder was given; when it was created
without one, as the default argument does, every such call dereferences a null pointer.\<close>
lemma builder_service_calls:
  assumes "0 \<le> height" and "height < 2 ^ 63 - 500"
  shows "case TransactionBuilderService s g given of
      Inl e \<Rightarrow> getGroupInfo g s = None \<and> e = Runtime_error (''group not exist, groupID: '' @ g)
    | Inr bs \<Rightarrow> (\<exists>gi. getGroupInfo g s = Some gi \<and>
        (let r = fst (service_createSignedTransaction s C rnd kp to inp abi attr ext bs);
             fits = (if m_smCryptoType gi then keyPairType kp \<in> {SM2, HsmSM2} else keyPairType kp = Secp256K1)
         in (getBlockNumber (m_groupID gi) s = None \<longrightarrow>
               r = Inl (Runtime_error (''get block limit failed, groupID: '' @ m_groupID gi))) \<and>
            (getBlockNumber (m_groupID gi) s = Some height \<longrightarrow>
               (if \<not> fits then \<exists>reason. r = Inl (Runtime_error reason)
                else if given = None then r = Inl Null_pointer
                else r = fst (createSignedTransaction C rnd kp (m_groupID gi) (m_chainID gi) to inp abi
                  (word_of_int (height + 500)) attr ext new_tx_builder)))))"
proof (cases "getGroupInfo g s")
  case (Some gi)
  have range: "int64_range (height + BLOCK_LIMIT_RANGE)"
    using assms by (simp add: int64_range_def BLOCK_LIMIT_RANGE_def)
  have limit: "getBlockNumber (m_groupID gi) s = Some height \<Longrightarrow>
      service_blockLimit s (m_groupID gi) = Inr (word_of_int (height + 500))"
    "getBlockNumber (m_groupID gi) s = None \<Longrightarrow> service_blockLimit s (m_groupID gi) =
      Inl (Runtime_error (''get block limit failed, groupID: '' @ m_groupID gi))"
    using range by (simp_all add: service_blockLimit_def getBlockLimit_def BLOCK_LIMIT_RANGE_def)
  show ?thesis using Some limit
    by (auto simp: TransactionBuilderService_def service_createSignedTransaction_def check_keyPair_def
        Let_def case_prod_unfold split: option.split)
qed (simp add: TransactionBuilderService_def)

definition example_service :: "(nat, nat) service" where
  "example_service = new_service \<lparr>m_endPoint2GroupId2GroupInfo := [(''ep'', [(''group0'', example_group)])],
    m_group2BlockNumber := [(''group0'', 100)]\<rparr>"

theorem builder_service_calls_witness:
  "\<exists>bs. TransactionBuilderService example_service ''group0'' None = Inr bs \<and>
    fst (service_createSignedTransaction example_service crypto0 []
      \<lparr>keyPairType = Secp256K1, hsmLibPath = None, kp_key = [5]\<rparr> ''0x01'' [1, 2] '''' 0 '''' bs) = Inl Null_pointer"
proof -
  obtain gi where gi: "getGroupInfo ''group0'' example_service = Some gi" "m_groupID gi = ''group0''"
    "\<not> m_smCryptoType gi"
    by (auto simp: getGroupInfo_def example_service_def new_service_def umap_find_def map_filter_def
        merge_nodes_def example_group_def createGroupInfo_of_def nodeInfo_def appendNodeInfo_def)
  have h: "getBlockNumber ''group0'' example_service = Some 100"
    by (simp add: getBlockNumber_def example_service_def umap_find_def)
  obtain bs where bs: "TransactionBuilderService example_service ''group0'' None = Inr bs"
    using gi(1) by (simp add: TransactionBuilderService_def)
  show ?thesis
    using builder_service_calls [where height = 100 and s = example_service and g = "''group0''" and given = None
        and C = crypto0 and rnd = "[]" and kp = "\<lparr>keyPairType = Secp256K1, hsmLibPath = None, kp_key = [5]\<rparr>"
        and to = "''0x01''" and inp = "[1, 2]" and abi = "''''" and attr = 0 and ext = "''''"] gi h bs
    by (simp add: Let_def)
qed

end
