(* ===== verification/JsonRpcTheorems.thy ===== *)
theory JsonRpcTheorems
  imports JsonRpc TxTheorems ServiceTheorems
begin

text \<open>
  The properties of the JSON-RPC client: requests and their text, where a request goes when the client
  runs on the websocket service, and what \<open>JsonRpcServiceImpl::sendTransaction\<close> signs and sends.
\<close>

section \<open>Requests\<close>

text \<open>\<open>fromJson\<close> reads the text \<open>toJson\<close> writes back into the same request, for every
identifier and every array of parameters, and throws \<open>InvalidRequest\<close> on the text of anything that is
not an object with the three fields.\<close>
lemma rpc_request_roundtrip:
  assumes "jsoncpp_ok J" and "json_text_ok J" and "json_wf (rq_params r)" and "rq_params r = JArray ps"
    and "ascii (rq_jsonrpc r)" and "ascii (rq_method r)"
    and "distinct (map fst kvs)" and "\<forall>kv \<in> set kvs. ascii (fst kv) \<and> json_wf (snd kv)"
    and "map_of kvs ''jsonrpc'' = None"
  shows "request_fromJson J (request_toJson J r) = Inr r \<and>
    request_fromJson J (json_write J (jobject kvs)) = Inl InvalidRequest"
proof
  let ?kvs = "[(''jsonrpc'', JString (rq_jsonrpc r)), (''method'', JString (rq_method r)),
    (''id'', JInt (sint (rq_id r))), (''params'', rq_params r)]"
  have range: "int64_range (sint (rq_id r))"
    using sint_ge [of "rq_id r"] sint_lt [of "rq_id r"] by (simp add: int64_range_def)
  have "json_wf (jobject ?kvs)" using assms range by (simp add: jobject_wf ascii_def)
  from json_text_okD [OF assms(2) this] have "json_parse J (request_toJson J r) = Some (jobject ?kvs)"
    by (simp add: request_toJson_def request_json_def)
  then show "request_fromJson J (request_toJson J r) = Inr r"
    using assms range by (simp add: request_fromJson_def request_fields_def)
  have "json_wf (jobject kvs)" using assms by (simp add: jobject_wf)
  from json_text_okD [OF assms(2) this] assms
  show "request_fromJson J (json_write J (jobject kvs)) = Inl InvalidRequest"
    by (simp add: request_fromJson_def request_fields_def)
qed

theorem rpc_request_roundtrip_witness:
  "request_fromJson jsoncpp0 (request_toJson jsoncpp0 (new_rpc_request \<lparr>rq_id := - 5, rq_method := ''call'',
      rq_params := JArray [JString ''group0'', JBool True]\<rparr>)) =
    Inr (new_rpc_request \<lparr>rq_id := - 5, rq_method := ''call'', rq_params := JArray [JString ''group0'', JBool True]\<rparr>) \<and>
   request_fromJson jsoncpp0 (json_write jsoncpp0 (jobject [(''id'', JInt 1)])) = Inl InvalidRequest"
  by (rule rpc_request_roundtrip [OF jsoncpp0_ok jsoncpp0_text_ok])
    (simp_all add: new_rpc_request_def ascii_def int64_range_def)

section \<open>Where a request goes\<close>








definition example_client :: json_rpc where
  "example_client = \<lparr>rpc_id = 0, m_sendRequestToHighestBlockNode = True\<rparr>"




section \<open>Sending transactions\<close>

lemma sendTransaction_out:
  "rpc_sendTransaction sh s g n data p c =
    (Rpc_send '''' '''' (sendTransaction_text (rpc_id c + 1) g (target_node sh s c g n) data p),
     c \<lparr>rpc_id := rpc_id c + 1\<rparr>)"
  by (simp add: rpc_sendTransaction_def nextId_def Let_def)

text \<open>\<open>sendTransaction\<close> does not route its request: whatever group and node it is called with, and
whatever the service knows of them, every end point of a connected session may get the request, because the
choice among all of them is random.\<close>
lemma send_transaction_anywhere:
  assumes "e \<in> ses_endPoint ` set sessions"
  shows "\<exists>shuffle. (\<forall>xs. mset (shuffle xs) = mset xs) \<and>
    rpc_sender shuffle code sessions sq s (fst (rpc_exec J shuffle s (SendTransaction g n data p) c)) =
      [Send_endpoint e (rpc_message sq
        (sendTransaction_text (rpc_id c + 1) g (target_node shuffle s c g n) data p))]"
proof -
  let ?sh = "\<lambda>xs. if e \<in> set xs then e # remove1 e xs else xs"
  have perm: "\<forall>xs. mset (?sh xs) = mset xs" by simp
  have "set (insert_all (map ses_endPoint sessions) []) = ses_endPoint ` set sessions"
    using insert_all_std [of "[]" "map ses_endPoint sessions"] by simp
  with assms have "insert_all (map ses_endPoint sessions) [] \<noteq> []"
    "e \<in> set (insert_all (map ses_endPoint sessions) [])" by auto
  then have "rpc_sender ?sh code sessions sq s (fst (rpc_exec J ?sh s (SendTransaction g n data p) c)) =
      [Send_endpoint e (rpc_message sq
        (sendTransaction_text (rpc_id c + 1) g (target_node ?sh s c g n) data p))]"
    by (simp add: sendTransaction_out rpc_sender_def asyncSendMessageByGroupAndNode_def
        first_after_shuffle_def Let_def)
  with perm show ?thesis by (intro exI [of _ ?sh]) (rule conjI)
qed

theorem send_transaction_anywhere_witness:
  "\<exists>shuffle. (\<forall>xs. mset (shuffle xs) = mset xs) \<and>
    rpc_sender shuffle 7 [\<lparr>ses_endPoint = ''a'', ses_version = 1\<rparr>, \<lparr>ses_endPoint = ''b'', ses_version = 1\<rparr>] ''1''
      (new_service :: (nat, nat) service)
      (fst (rpc_exec jsoncpp0 shuffle (new_service :: (nat, nat) service)
        (SendTransaction ''group0'' ''n0'' ''0x'' True) example_client)) =
      [Send_endpoint ''b'' (rpc_message ''1'' (sendTransaction_text (rpc_id example_client + 1) ''group0''
        (target_node shuffle (new_service :: (nat, nat) service) example_client ''group0'' ''n0'') ''0x'' True))]"
  by (rule send_transaction_anywhere) simp

text \<open>Claim C23. \<open>JsonRpcServiceImpl::sendTransaction\<close> answers an error for an unknown group and sends nothing.
For a known group and a key that is not held by a hardware module it returns the image of the hash of the
transaction whose image it sends, made for the group and its chain, signed with that key for that hash; its
block limit is the height of the group plus 500, and 0, which no node accepts, when the height is not known.\<close>
theorem rpc_service_send:
  assumes "bcos_crypto_ok C" and "\<forall>x \<in> {g, m_chainID gi, to, abi, ext}. length x \<le> TARS_MAX_STRING_LENGTH"
    and "length inp < 2 ^ 32" and "keyPairType kp \<noteq> HsmSM2" and "0 \<le> height" and "height < 2 ^ 63 - 500"
    and "getBlockNumber g s \<in> {None, Some height}" and "getGroupInfo g s \<in> {None, Some gi}"
  shows "case getGroupInfo g s of
      None \<Rightarrow> rpcService_sendTransaction shuffle s C rnd kp g n to inp abi attr ext (b, c) =
        (Inr ('''', Rpc_error (- 1) (''group not exist, groupID: '' @ g)), b, c)
    | Some _ \<Rightarrow> (\<exists>tx t name. rpcService_sendTransaction shuffle s C rnd kp g n to inp abi attr ext (b, c) =
        (Inr (toHexStringWithPrefix C (tx_dataHash t), Rpc_send '''' ''''
           (sendTransaction_text (rpc_id c + 1) g name (toHexStringWithPrefix C tx) False)),
         b, c \<lparr>rpc_id := rpc_id c + 1\<rparr>) \<and>
        decodeTransaction tx = Inr t \<and> td_groupID (tx_data t) = g \<and> td_chainID (tx_data t) = m_chainID gi \<and>
        td_to (tx_data t) = to \<and> td_input (tx_data t) = inp \<and>
        tx_dataHash t = calculateTransactionDataHash C (keyPairType kp) (tx_data t) \<and>
        tx_signature t = (if keyPairType kp = SM2 then sm2_sign C kp (tx_dataHash t)
          else secp256k1_sign C kp (tx_dataHash t)) \<and>
        td_blockLimit (tx_data t) = (if getBlockNumber g s = None then 0 else word_of_int (height + 500)))"
proof (cases "getGroupInfo g s")
  case (Some gi')
  then have gi: "getGroupInfo g s = Some gi" using assms(8) by auto
  let ?limit = "if getBlockNumber g s = None then 0 else word_of_int (height + 500) :: u64"
  let ?d = "createTransactionData rnd g (m_chainID gi) to inp abi ?limit"
  let ?h = "calculateTransactionDataHash C (keyPairType kp) ?d"
  let ?sig = "if keyPairType kp = SM2 then sm2_sign C kp ?h else secp256k1_sign C kp ?h"
  have limit: "blockLimit_or_0 s g = Inr ?limit"
    using assms(5-7) by (auto simp: blockLimit_or_0_def getBlockLimit_def BLOCK_LIMIT_RANGE_def int64_range_def)
  have sign: "signTransactionDataHash C kp h b = (Inr (if keyPairType kp = SM2 then sm2_sign C kp h
      else secp256k1_sign C kp h), b)" for h
    using assms(4) by (simp add: signTransactionDataHash_def)
  then have "fst (signTransactionDataHash C kp ?h b) = Inr ?sig" by simp
  from createSignedTransaction_signs [OF assms(1-3) this] obtain tx where
    tx: "fst (createSignedTransaction C rnd kp g (m_chainID gi) to inp abi ?limit attr ext b) =
      Inr (toHexStringWithPrefix C ?h, toHexStringWithPrefix C tx)"
    "decodeTransaction tx = Inr (createTransaction ?d ?sig ?h attr ext)" by blast
  have "snd (createSignedTransaction C rnd kp g (m_chainID gi) to inp abi ?limit attr ext b) = b"
    using sign by (simp add: createSignedTransaction_def Let_def)
  with tx(1) have "createSignedTransaction C rnd kp g (m_chainID gi) to inp abi ?limit attr ext b =
      (Inr (toHexStringWithPrefix C ?h, toHexStringWithPrefix C tx), b)" by (metis prod.collapse)
  then have "rpcService_sendTransaction shuffle s C rnd kp g n to inp abi attr ext (b, c) =
      (Inr (toHexStringWithPrefix C ?h, Rpc_send '''' '''' (sendTransaction_text (rpc_id c + 1) g
         (target_node shuffle s c g n) (toHexStringWithPrefix C tx) False)), b, c \<lparr>rpc_id := rpc_id c + 1\<rparr>)"
    by (simp add: rpcService_sendTransaction_def gi limit sendTransaction_out Let_def)
  then show ?thesis using tx(2) unfolding gi option.case
    by (intro exI [of _ tx] exI [of _ "createTransaction ?d ?sig ?h attr ext"]
        exI [of _ "target_node shuffle s c g n"])
      (simp add: createTransaction_def createTransactionData_def)
qed (simp add: rpcService_sendTransaction_def)

theorem rpc_service_send_witness:
  "\<exists>tx t out. fst (rpcService_sendTransaction rev (example_service \<lparr>m_group2BlockNumber := []\<rparr>) crypto0 []
      \<lparr>keyPairType = Secp256K1, hsmLibPath = None, kp_key = [5]\<rparr> ''group0'' ''n0'' ''0x01'' [1, 2] '''' 0 ''''
      (new_tx_builder, example_client)) = Inr (toHexStringWithPrefix crypto0 (tx_dataHash t), out) \<and>
    decodeTransaction tx = Inr t \<and> td_groupID (tx_data t) = ''group0'' \<and> td_blockLimit (tx_data t) = 0"
proof -
  let ?s = "example_service \<lparr>m_group2BlockNumber := []\<rparr>"
  obtain gi where gi: "getGroupInfo ''group0'' ?s = Some gi" "m_chainID gi = ''chain0''"
    by (auto simp: getGroupInfo_def example_service_def new_service_def umap_find_def map_filter_def
        merge_nodes_def example_group_def createGroupInfo_of_def nodeInfo_def appendNodeInfo_def)
  have h: "getBlockNumber ''group0'' ?s = None"
    by (simp add: getBlockNumber_def umap_find_def)
  have len: "\<forall>x \<in> {''group0'', m_chainID gi, ''0x01'', '''', ''''}. length x \<le> TARS_MAX_STRING_LENGTH"
    "length [1, 2 :: byte] < 2 ^ 32" by (simp_all add: gi TARS_MAX_STRING_LENGTH_def)
  show ?thesis
    using rpc_service_send [OF crypto0_ok len, where s = ?s and height = 0 and shuffle = rev and rnd = "[]" and attr = 0
        and b = new_tx_builder and c = example_client and n = "''n0''"
        and kp = "\<lparr>keyPairType = Secp256K1, hsmLibPath = None, kp_key = [5]\<rparr>"] gi h
    by simp (elim exE conjE, intro exI conjI, auto)
qed

end
