(* ===== verification/TcJson.thy ===== *)
theory TcJson
  imports AbiNames StdSet
begin

text \<open>
  The JSON reader and writer of the Tars runtime (\<open>utilities/tx/tars/util/tc_json.{h,cpp}\<close>), by
  which transactions and receipts become JSON text. A reader is the part of its buffer from the
  current position on, so that \<open>back\<close> puts the character just read in front again. The position in
  the text of an exception is not kept.
\<close>

section \<open>Values\<close>

text \<open>
  The floating point numbers of the machine are the type \<open>'d\<close>, with the operations the code uses:
  conversion from and to \<open>int64_t\<close>, sum, product, \<open>0 - x\<close>, \<open>pow(10, x)\<close>, the constant \<open>0.1\<close>,
  \<open>std::isnan\<close> and \<open>std::to_string\<close>.
\<close>

record 'd doubles =
  d_of_int :: "u64 \<Rightarrow> 'd"
  d_to_int :: "'d \<Rightarrow> u64"
  d_add :: "'d \<Rightarrow> 'd \<Rightarrow> 'd"
  d_mul :: "'d \<Rightarrow> 'd \<Rightarrow> 'd"
  d_neg :: "'d \<Rightarrow> 'd"
  d_pow10 :: "u64 \<Rightarrow> 'd"
  d_tenth :: 'd
  d_isnan :: "'d \<Rightarrow> bool"
  d_to_string :: "'d \<Rightarrow> string"

text \<open>
  A pointer to a value: null, or an object of one of the classes. A number has its \<open>value\<close>, its
  \<open>lvalue\<close> and the flag \<open>isInt\<close>.
\<close>

datatype 'd json_value =
    NoValue
  | ValueNull
  | ValueString string
  | ValueNum (num_value: 'd) (num_lvalue: u64) (num_isInt: bool)
  | ValueObj "(string \<times> 'd json_value) list"
  | ValueArray "'d json_value list"
  | ValueBoolean bool

datatype tc_json_exn = TC_Json_Exception | TC_AutoPtrNull_Exception | Assertion_failed | BadHexCharacter | Out_of_fuel

type_synonym 'a json_reader = "string \<Rightarrow> tc_json_exn + 'a \<times> string"

text \<open>\<open>JsonValueNum(int64_t, true)\<close>\<close>

definition int_value :: "'d doubles \<Rightarrow> u64 \<Rightarrow> 'd json_value" where
  "int_value D n = ValueNum (d_of_int D n) n True"

text \<open>\<open>pObj->value[k]\<close>: an absent key yields a null pointer.\<close>

definition obj_at :: "string \<Rightarrow> (string \<times> 'd json_value) list \<Rightarrow> 'd json_value" where
  "obj_at k m = (case umap_find k m of None \<Rightarrow> NoValue | Some v \<Rightarrow> v)"

section \<open>Reading\<close>

definition json_space :: "char \<Rightarrow> bool" where
  "json_space c \<longleftrightarrow> c = CHR '' '' \<or> c = CHR 0x09 \<or> c = CHR 0x0D \<or> c = CHR 0x0A"

fun json_read :: "char json_reader" where
  "json_read [] = Inl TC_Json_Exception"
| "json_read (c # r) = Inr (c, r)"

text \<open>\<open>read\<close> followed by \<open>FILTER_SPACE\<close>\<close>

fun read_filtered :: "char json_reader" where
  "read_filtered [] = Inl TC_Json_Exception"
| "read_filtered (c # r) = (if json_space c then read_filtered r else Inr (c, r))"

definition hex_nibble :: "char \<Rightarrow> nat option" where
  "hex_nibble c = (let n = of_char c in
    if 97 \<le> n \<and> n \<le> 102 then Some (n - 97 + 10)
    else if 65 \<le> n \<and> n \<le> 70 then Some (n - 65 + 10)
    else if 48 \<le> n \<and> n \<le> 57 then Some (n - 48)
    else None)"

primrec getHex_loop :: "nat \<Rightarrow> nat \<Rightarrow> nat json_reader" where
  "getHex_loop 0 iCode r = Inr (iCode, r)"
| "getHex_loop (Suc i) iCode r = bindE (json_read r) (\<lambda>(c, r1).
     case hex_nibble c of None \<Rightarrow> Inl TC_Json_Exception | Some h \<Rightarrow> getHex_loop i (iCode * 16 + h) r1)"

definition getHex :: "nat json_reader" where
  "getHex r = getHex_loop 4 0 r"

text \<open>The characters appended for the code of a \<open>\\u\<close> escape.\<close>

definition code_chars :: "nat \<Rightarrow> string" where
  "code_chars iCode =
    (if iCode < 0x80 then [char_of iCode]
     else if iCode < 0x800 then [char_of (0xC0 + iCode div 2 ^ 6 mod 0x20), char_of (0x80 + iCode mod 0x40)]
     else if iCode < 0x10000 then
       [char_of (0xE0 + iCode div 2 ^ 12 mod 0x10), char_of (0x80 + iCode div 2 ^ 6 mod 0x40),
        char_of (0x80 + iCode mod 0x40)]
     else
       [char_of (0xF0 + iCode div 2 ^ 18 mod 0x08), char_of (0x80 + iCode div 2 ^ 12 mod 0x40),
        char_of (0x80 + iCode div 2 ^ 6 mod 0x40), char_of (0x80 + iCode mod 0x40)])"

text \<open>What is appended for the other escapes; an unknown one is dropped.\<close>

definition escape_chars :: "char \<Rightarrow> string" where
  "escape_chars c =
    (if c = CHR 0x5C \<or> c = CHR 0x22 \<or> c = CHR ''/'' then [c]
     else if c = CHR ''b'' then [CHR 0x08]
     else if c = CHR ''f'' then [CHR 0x0C]
     else if c = CHR ''n'' then [CHR 0x0A]
     else if c = CHR ''r'' then [CHR 0x0D]
     else if c = CHR ''t'' then [CHR 0x09]
     else [])"

lemma json_read_Inr: "json_read r = Inr (c, r') \<longleftrightarrow> r = c # r'"
  by (cases r) auto

lemma getHex_loop_length: "getHex_loop i a r = Inr (x, r') \<Longrightarrow> length r = i + length r'"
proof (induction i arbitrary: a r)
  case (Suc i)
  then obtain c r1 h where "r = c # r1" "getHex_loop i (a * 16 + h) r1 = Inr (x, r')"
    by (auto simp: json_read_Inr bindE_Inr_iff split: option.splits)
  with Suc.IH show ?case by fastforce
qed simp

lemma getHex_length: "getHex r = Inr (x, r') \<Longrightarrow> length r = 4 + length r'"
  unfolding getHex_def by (rule getHex_loop_length)

text \<open>
  The loop of \<open>getString\<close>: the characters since the last escape are not copied one by one, but
  counted (\<open>i\<close>) from the pointer \<open>pChar\<close> into the buffer.
\<close>

function getString_loop :: "char \<Rightarrow> string \<Rightarrow> string \<Rightarrow> nat \<Rightarrow> string json_reader" where
  "getString_loop head v pChar i r =
    bindE (json_read r) (\<lambda>(c, r1).
      if c = CHR 0x5C then
        bindE (json_read r1) (\<lambda>(e, r2).
          let v1 = v @ take i pChar; p1 = drop (i + 2) pChar in
          if e = CHR ''u'' then
            bindE (getHex r2) (\<lambda>(iCode, r3). getString_loop head (v1 @ code_chars iCode) (drop 4 p1) 0 r3)
          else getString_loop head (v1 @ escape_chars e) p1 0 r2)
      else if c = head then Inr (v @ take i pChar, r1)
      else getString_loop head v pChar (i + 1) r1)"
  by pat_completeness auto

termination
  by (relation "measure (\<lambda>(_, _, _, _, r). length r)") (auto simp: json_read_Inr dest: getHex_length)

declare getString_loop.simps [simp del]

definition getString :: "char \<Rightarrow> string json_reader" where
  "getString head r = getString_loop head [] r 0 r"

text \<open>Numbers: the variables of \<open>getNum\<close>. The arithmetic of \<open>int64_t\<close> wraps.\<close>

record 'd num_state =
  bOk :: bool
  bFloat :: bool
  bExponential :: bool
  bExponentialNegative :: bool
  iInt :: u64
  dFloat :: 'd
  dFloatRat :: 'd
  iExponential :: u64

definition digit_value :: "char \<Rightarrow> u64" where
  "digit_value c = word_of_nat (of_char c - 48)"

definition getNum_digit :: "'d doubles \<Rightarrow> char \<Rightarrow> 'd num_state \<Rightarrow> 'd num_state" where
  "getNum_digit D c s = (let s = s\<lparr>bOk := True\<rparr> in
    if bExponential s then s\<lparr>iExponential := iExponential s * 10 + digit_value c\<rparr>
    else if bFloat s then
      s\<lparr>dFloat := d_add D (dFloat s) (d_mul D (dFloatRat s) (d_of_int D (digit_value c))),
        dFloatRat := d_mul D (dFloatRat s) (d_tenth D)\<rparr>
    else s\<lparr>iInt := iInt s * 10 + digit_value c\<rparr>)"

fun getNum_loop :: "'d doubles \<Rightarrow> 'd num_state \<Rightarrow> string \<Rightarrow> 'd num_state \<times> string" where
  "getNum_loop D s [] = (s, [])"
| "getNum_loop D s (c # r) =
    (if isdigit c then getNum_loop D (getNum_digit D c s) r
     else if c = CHR ''.'' \<and> \<not> bFloat s \<and> \<not> bExponential s \<and> bOk s then
       getNum_loop D (s\<lparr>bOk := False, bFloat := True, dFloatRat := d_tenth D\<rparr>) r
     else if (c = CHR ''e'' \<or> c = CHR ''E'') \<and> \<not> bExponential s \<and> bOk s then
       let s = s\<lparr>bOk := False, bExponential := True, iExponential := 0\<rparr> in
       (case r of
          [] \<Rightarrow> (s, [])
        | e # r1 \<Rightarrow>
            if e = CHR ''-'' then getNum_loop D (s\<lparr>bExponentialNegative := True\<rparr>) r1
            else if e = CHR ''+'' then getNum_loop D (s\<lparr>bExponentialNegative := False\<rparr>) r1
            else if isdigit e then getNum_loop D (s\<lparr>bOk := True, bExponential := (digit_value e \<noteq> 0)\<rparr>) r1
            else (s, r))
     else (s, c # r))"

definition getNum_result :: "'d doubles \<Rightarrow> bool \<Rightarrow> 'd num_state \<Rightarrow> 'd json_value" where
  "getNum_result D bNegative s =
    (let e = (if bExponentialNegative s then 0 - iExponential s else iExponential s) in
     if bFloat s then
       let d = d_mul D (d_add D (d_of_int D (iInt s)) (dFloat s)) (d_pow10 D e);
           d = (if bNegative then d_neg D d else d)
       in ValueNum d (d_to_int D d) False
     else
       let n = (if bNegative then 0 - iInt s else iInt s)
       in ValueNum (d_of_int D n) n True)"

definition getNum :: "'d doubles \<Rightarrow> char \<Rightarrow> 'd json_value json_reader" where
  "getNum D head r =
    (let bNegative = (head = CHR ''-'');
         (s, r') = getNum_loop D
           \<lparr>bOk = \<not> bNegative, bFloat = False, bExponential = False, bExponentialNegative = False,
            iInt = (if bNegative then 0 else digit_value head), dFloat = d_of_int D 0,
            dFloatRat = d_of_int D 0, iExponential = 0\<rparr> r
     in if \<not> bOk s then Inl TC_Json_Exception else Inr (getNum_result D bNegative s, r'))"

text \<open>The letters of a literal in either case.\<close>

fun read_letters :: "(char \<times> char) list \<Rightarrow> unit json_reader" where
  "read_letters [] r = Inr ((), r)"
| "read_letters ((lower, upper) # ls) r = bindE (json_read r) (\<lambda>(c, r1).
     if c = lower \<or> c = upper then read_letters ls r1 else Inl TC_Json_Exception)"

definition getBoolean :: "char \<Rightarrow> 'd json_value json_reader" where
  "getBoolean c r =
    (if c = CHR ''t'' \<or> c = CHR ''T'' then
       bindE (read_letters (zip ''rue'' ''RUE'') r) (\<lambda>(_, r1). Inr (ValueBoolean True, r1))
     else if c = CHR ''f'' \<or> c = CHR ''F'' then
       bindE (read_letters (zip ''alse'' ''ALSE'') r) (\<lambda>(_, r1). Inr (ValueBoolean False, r1))
     else Inl TC_Json_Exception)"

definition getNull :: "char \<Rightarrow> 'd json_value json_reader" where
  "getNull c r =
    (if c = CHR ''n'' \<or> c = CHR ''N'' then
       bindE (read_letters (zip ''ull'' ''ULL'') r) (\<lambda>(_, r1). Inr (ValueNull, r1))
     else Inl Assertion_failed)"

text \<open>
  \<open>getValue\<close> and the loops of \<open>getObj\<close> and \<open>getArray\<close> call each other. The first argument bounds
  the calls and rounds; \<open>TcJsonProps\<close> shows that more than twice the characters of
  the buffer is never used up (an array enters its first element without reading a character).
\<close>

fun getValue :: "nat \<Rightarrow> 'd doubles \<Rightarrow> 'd json_value json_reader"
and getObj_loop :: "nat \<Rightarrow> 'd doubles \<Rightarrow> (string \<times> 'd json_value) list \<Rightarrow> bool \<Rightarrow> 'd json_value json_reader"
and getArray_loop :: "nat \<Rightarrow> 'd doubles \<Rightarrow> 'd json_value list \<Rightarrow> bool \<Rightarrow> 'd json_value json_reader" where
  "getValue 0 D r = Inl Out_of_fuel"
| "getValue (Suc n) D r = bindE (read_filtered r) (\<lambda>(c, r1).
     if c = CHR ''{'' then getObj_loop n D [] True r1
     else if c = CHR ''['' then getArray_loop n D [] True r1
     else if c = CHR 0x22 then bindE (getString c r1) (\<lambda>(s, r2). Inr (ValueString s, r2))
     else if c \<in> set ''TtFf'' then getBoolean c r1
     else if isdigit c \<or> c = CHR ''-'' then getNum D c r1
     else if c \<in> set ''nN'' then getNull c r1
     else Inl TC_Json_Exception)"
| "getObj_loop 0 D p bFirst r = Inl Out_of_fuel"
| "getObj_loop (Suc n) D p bFirst r = bindE (read_filtered r) (\<lambda>(c, r1).
     if c = CHR ''}'' \<and> bFirst then Inr (ValueObj p, r1)
     else if c \<noteq> CHR 0x22 then Inl TC_Json_Exception
     else bindE (getString (CHR 0x22) r1) (\<lambda>(k, r2). bindE (read_filtered r2) (\<lambda>(c, r3).
       if c \<noteq> CHR '':'' then Inl TC_Json_Exception
       else bindE (getValue n D r3) (\<lambda>(v, r4). bindE (read_filtered r4) (\<lambda>(c, r5).
         let p1 = umap_set k v p in
         if c = CHR '','' then getObj_loop n D p1 False r5
         else if c = CHR ''}'' then Inr (ValueObj p1, r5)
         else Inl TC_Json_Exception)))))"
| "getArray_loop 0 D p bFirst r = Inl Out_of_fuel"
| "getArray_loop (Suc n) D p bFirst r =
     bindE (if bFirst then bindE (read_filtered r) (\<lambda>(c, r1). Inr (c = CHR '']'', if c = CHR '']'' then r1 else c # r1))
            else Inr (False, r)) (\<lambda>(ended, r1).
       if ended then Inr (ValueArray p, r1)
       else bindE (getValue n D r1) (\<lambda>(v, r2). bindE (read_filtered r2) (\<lambda>(c, r3).
         let p1 = p @ [v] in
         if c = CHR '','' then getArray_loop n D p1 False r3
         else if c = CHR '']'' then Inr (ValueArray p1, r3)
         else Inl TC_Json_Exception)))"

text \<open>The static \<open>getValue(const std::string&)\<close>; what follows the value is not looked at.\<close>

definition TC_Json_getValue :: "'d doubles \<Rightarrow> string \<Rightarrow> tc_json_exn + 'd json_value" where
  "TC_Json_getValue D str = bindE (getValue (Suc (2 * length str)) D str) (\<lambda>(v, _). Inr v)"

section \<open>Writing\<close>

definition nibble_char :: "nat \<Rightarrow> char" where
  "nibble_char n = (if n < 10 then char_of (48 + n) else char_of (87 + n))"

definition write_char :: "char \<Rightarrow> string" where
  "write_char c =
    (if c = CHR 0x22 then [CHR 0x5C, CHR 0x22]
     else if c = CHR 0x5C then [CHR 0x5C, CHR 0x5C]
     else if c = CHR ''/'' then [CHR 0x5C, CHR ''/'']
     else if c = CHR 0x08 then [CHR 0x5C, CHR ''b'']
     else if c = CHR 0x0C then [CHR 0x5C, CHR ''f'']
     else if c = CHR 0x0A then [CHR 0x5C, CHR ''n'']
     else if c = CHR 0x0D then [CHR 0x5C, CHR ''r'']
     else if c = CHR 0x09 then [CHR 0x5C, CHR ''t'']
     else if (of_char c :: nat) < 0x20 then
       [CHR 0x5C, CHR ''u'', CHR ''0'', CHR ''0'', nibble_char (of_char c div 16), nibble_char (of_char c mod 16)]
     else [c])"

definition writeString :: "string \<Rightarrow> string" where
  "writeString s = [CHR 0x22] @ concat (map write_char s) @ [CHR 0x22]"

text \<open>
  \<open>TC_Common::tostr<double>\<close>: trailing zeros are cut off, with the point when nothing is left behind
  it. The loop returns \<open>bFlag\<close> and \<open>pos\<close>.
\<close>

fun tostr_loop :: "string \<Rightarrow> nat \<Rightarrow> bool \<Rightarrow> bool \<times> int" where
  "tostr_loop s 0 bFlag = (bFlag, 0)"
| "tostr_loop s (Suc p) bFlag =
    (if s ! Suc p = CHR ''0'' then
       if s ! p = CHR ''.'' then (True, int (Suc p) - 2) else tostr_loop s p True
     else (bFlag, int (Suc p)))"

definition tostr_double :: "'d doubles \<Rightarrow> 'd \<Rightarrow> string" where
  "tostr_double D t = (let s = d_to_string D t; (bFlag, pos) = tostr_loop s (length s - 1) False
    in if bFlag then take (nat (pos + 1)) s else s)"

definition writeNum :: "'d doubles \<Rightarrow> 'd \<Rightarrow> u64 \<Rightarrow> bool \<Rightarrow> string" where
  "writeNum D value lvalue isInt =
    (if d_isnan D value then ''null''
     else if \<not> isInt then tostr_double D value
     else to_string (sint lvalue))"

definition writeBoolean :: "bool \<Rightarrow> string" where
  "writeBoolean b = (if b then ''true'' else ''false'')"

text \<open>
  The loops of \<open>writeArray\<close> and \<open>writeObj\<close> over what is written for the elements: a separator
  after each one but the last. Members are visited in the iteration order \<open>iter\<close> of the unordered
  map. A value of class \<open>JsonValueNull\<close> fails an assertion.
\<close>

fun separated :: "string \<Rightarrow> ('e + string) list \<Rightarrow> 'e + string" where
  "separated sep [] = Inr []"
| "separated sep [x] = x"
| "separated sep (x # y # xs) = bindE x (\<lambda>s. bindE (separated sep (y # xs)) (\<lambda>t. Inr (s @ sep @ t)))"

definition writeArray :: "bool \<Rightarrow> (tc_json_exn + string) list \<Rightarrow> tc_json_exn + string" where
  "writeArray withSpace xs =
    bindE (separated (if withSpace then '', '' else '','') xs) (\<lambda>s.
      Inr ((if withSpace then ''[ '' else ''['') @ s @ (if withSpace then '' ]'' else '']'')))"

definition write_member :: "bool \<Rightarrow> (string \<times> (tc_json_exn + string)) list \<Rightarrow> string \<Rightarrow> tc_json_exn + string" where
  "write_member withSpace m k =
    (case umap_find k m of
       None \<Rightarrow> Inr []
     | Some x \<Rightarrow> bindE x (\<lambda>s. Inr (writeString k @ (if withSpace then '': '' else '':'') @ s)))"

definition writeObj ::
  "(string list \<Rightarrow> string list) \<Rightarrow> bool \<Rightarrow> (string \<times> (tc_json_exn + string)) list \<Rightarrow> tc_json_exn + string" where
  "writeObj iter withSpace m =
    bindE (separated (if withSpace then '', '' else '','') (map (write_member withSpace m) (iter (map fst m)))) (\<lambda>s.
      Inr ((if withSpace then ''{ '' else ''{'') @ s @ (if withSpace then '' }'' else ''}'')))"

fun writeValue ::
  "'d doubles \<Rightarrow> (string list \<Rightarrow> string list) \<Rightarrow> bool \<Rightarrow> 'd json_value \<Rightarrow> tc_json_exn + string" where
  "writeValue D iter sp NoValue = Inr ''null''"
| "writeValue D iter sp (ValueString s) = Inr (writeString s)"
| "writeValue D iter sp (ValueNum v l i) = Inr (writeNum D v l i)"
| "writeValue D iter sp (ValueObj m) =
     writeObj iter sp (map (\<lambda>(k, v). (k, writeValue D iter False v)) m)"
| "writeValue D iter sp (ValueArray vs) = writeArray sp (map (writeValue D iter False) vs)"
| "writeValue D iter sp (ValueBoolean b) = Inr (writeBoolean b)"
| "writeValue D iter sp ValueNull = Inl Assertion_failed"

end
