(* ===== verification/TcJsonProps.thy ===== *)
theory TcJsonProps
  imports TcJson
begin

text \<open>
  What the JSON reader and writer of the Tars runtime achieve: reading ends on every text, the
  string reader with its pointer into the buffer is plain unescaping, and what is written is read
  back, whatever the iteration order of the unordered maps.
\<close>

section \<open>Reading ends\<close>

text \<open>
  Two runs of a reader agree, do not stop for want of fuel, and leave fewer than \<open>L\<close> characters.
\<close>

definition reads :: "nat \<Rightarrow> tc_json_exn + 'a \<times> string \<Rightarrow> tc_json_exn + 'a \<times> string \<Rightarrow> bool" where
  "reads L m m' \<longleftrightarrow> m = m' \<and> (case m of Inl e \<Rightarrow> e \<noteq> Out_of_fuel | Inr (v, r) \<Rightarrow> length r < L)"

lemma reads_Inl [simp]: "reads L (Inl e) (Inl e) \<longleftrightarrow> e \<noteq> Out_of_fuel"
  by (simp add: reads_def)

lemma reads_Inr [simp]: "reads L (Inr (v, r)) (Inr (v, r)) \<longleftrightarrow> length r < L"
  by (simp add: reads_def)

lemma reads_bind:
  assumes "reads K m m'" and "\<And>x r. length r < K \<Longrightarrow> reads L (f (x, r)) (g (x, r))"
  shows "reads L (bindE m f) (bindE m' g)"
proof (cases m rule: sum_pair_exhaust)
  case (Inr x r)
  then have "m' = Inr (x, r)" and "length r < K" using assms(1) by (simp_all add: reads_def)
  then show ?thesis using Inr assms(2) [of r x] by simp
next
  case (Inl e)
  then have "m' = Inl e" and "e \<noteq> Out_of_fuel" using assms(1) by (simp_all add: reads_def)
  then show ?thesis using Inl by simp
qed

lemma reads_mono: "reads K m m' \<Longrightarrow> K \<le> L \<Longrightarrow> reads L m m'"
  by (auto simp: reads_def split: sum.splits)

lemma reads_if: "(b \<Longrightarrow> reads L m m') \<Longrightarrow> (\<not> b \<Longrightarrow> reads L k k') \<Longrightarrow> reads L (if b then m else k) (if b then m' else k')"
  by simp

lemma reads_read: "reads (length r) (json_read r) (json_read r)"
  by (cases r) simp_all

lemma reads_filtered: "reads (length r) (read_filtered r) (read_filtered r)"
proof (induction r)
  case (Cons c r)
  then show ?case using reads_mono [OF Cons.IH, of "Suc (length r)"] by simp
qed simp

lemma reads_getHex_loop: "reads (Suc (length r)) (getHex_loop i a r) (getHex_loop i a r)"
proof (induction i arbitrary: a r)
  case (Suc i)
  have "reads (Suc (length r)) (getHex_loop i b r1) (getHex_loop i b r1)" if "length r1 < length r" for b r1
    using reads_mono [OF Suc.IH] that by simp
  then show ?case by (auto intro!: reads_bind [OF reads_read] split: option.split)
qed simp

lemma reads_getHex: "reads (Suc (length r)) (getHex r) (getHex r)"
  unfolding getHex_def by (rule reads_getHex_loop)

lemma reads_getString_loop: "reads (length r) (getString_loop h v p i r) (getString_loop h v p i r)"
proof (induction r arbitrary: v p i rule: length_induct)
  case (1 r)
  have IH: "reads (length r) (getString_loop h v' p' i' r1) (getString_loop h v' p' i' r1)"
    if "length r1 < length r" for v' p' i' r1
    using reads_mono [OF 1 [rule_format, OF that]] that by simp
  show ?case
    by (subst (1 2) getString_loop.simps)
      (auto simp: Let_def intro!: reads_bind [OF reads_read] reads_bind [OF reads_getHex] reads_if IH)
qed

lemma reads_getString: "reads (length r) (getString h r) (getString h r)"
  unfolding getString_def by (rule reads_getString_loop)

lemma getNum_loop_length: "length (snd (getNum_loop D s r)) \<le> length r"
proof (induction r arbitrary: s rule: length_induct)
  case (1 r)
  show ?case
  proof (cases r)
    case (Cons c r')
    have IH: "length (snd (getNum_loop D s' r1)) \<le> Suc (length r')" if "length r1 \<le> length r'" for s' r1
      using 1 [rule_format, of r1 s'] that Cons by simp
    show ?thesis unfolding Cons
    proof (cases r')
      case Nil
      then show "length (snd (getNum_loop D s (c # r'))) \<le> length (c # r')" by (simp add: Let_def)
    next
      case (Cons e r1)
      then show "length (snd (getNum_loop D s (c # r'))) \<le> length (c # r')"
        by (subst getNum_loop.simps) (simp add: Let_def IH [unfolded Cons, simplified] del: getNum_loop.simps)
    qed
  qed simp
qed

lemma reads_getNum: "reads (Suc (length r)) (getNum D c r) (getNum D c r)"
  by (auto simp: getNum_def Let_def case_prod_unfold less_Suc_eq_le getNum_loop_length)

lemma reads_letters: "reads (Suc (length r)) (read_letters ls r) (read_letters ls r)"
proof (induction ls arbitrary: r)
  case (Cons l ls)
  have "reads (Suc (length r)) (read_letters ls r1) (read_letters ls r1)" if "length r1 < length r" for r1
    using reads_mono [OF Cons.IH] that by simp
  then show ?case by (cases l) (auto intro!: reads_bind [OF reads_read] reads_if)
qed simp

lemma reads_literals:
  "reads (Suc (length r)) (getBoolean c r) (getBoolean c r)" "reads (Suc (length r)) (getNull c r) (getNull c r)"
  unfolding getBoolean_def getNull_def
  by (auto intro!: reads_if reads_bind [OF reads_letters] simp del: read_letters.simps zip_Cons_Cons)

lemmas reader_reads = reads_filtered reads_getString reads_getNum reads_literals

lemma fuel_enough:
  "2 * length r < n \<Longrightarrow> 2 * length r < m \<Longrightarrow> reads (length r) (getValue n D r) (getValue m D r)"
  "Suc (2 * length r) < n \<Longrightarrow> Suc (2 * length r) < m \<Longrightarrow>
    reads (length r) (getObj_loop n D p b r) (getObj_loop m D p b r)"
  "Suc (2 * length r) < n \<Longrightarrow> Suc (2 * length r) < m \<Longrightarrow>
    reads (length r) (getArray_loop n D vs b r) (getArray_loop m D vs b r)"
proof (induction n arbitrary: m r p b vs)
  case (Suc n)
  {
    case 1
    then obtain k where k: "m = Suc k" by (cases m) auto
    have sub: "reads (length r) (getObj_loop n D [] True r1) (getObj_loop k D [] True r1)"
      "reads (length r) (getArray_loop n D [] True r1) (getArray_loop k D [] True r1)"
      "reads (length r) (getString c r1) (getString c r1)"
      "reads (length r) (getNum D c r1) (getNum D c r1)"
      "reads (length r) (getBoolean c r1 :: tc_json_exn + 'a json_value \<times> string) (getBoolean c r1)"
      "reads (length r) (getNull c r1 :: tc_json_exn + 'a json_value \<times> string) (getNull c r1)"
      if "length r1 < length r" for c r1
      using 1 k that by (auto intro: reads_mono [OF Suc.IH(2)] reads_mono [OF Suc.IH(3)]
        reads_mono [OF reads_getString] reads_mono [OF reads_getNum] reads_mono [OF reads_literals(1)]
        reads_mono [OF reads_literals(2)])
    show ?case unfolding k getValue.simps
      by (rule reads_bind [OF reads_filtered], simp only: prod.case)
        (rule reads_if | rule sub | rule reads_bind [OF sub(3)] | simp)+
  next
    case 2
    then obtain k where k: "m = Suc k" by (cases m) auto
    have sub: "reads (length r1) (getValue n D r1) (getValue k D r1)"
      "reads (length r) (getObj_loop n D p1 False r1) (getObj_loop k D p1 False r1)"
      if "length r1 < length r" for p1 r1
      using 2 k that by (auto intro: Suc.IH(1) reads_mono [OF Suc.IH(2)])
    show ?case unfolding k getObj_loop.simps
      by (rule reads_bind [OF reads_filtered], simp only: prod.case)
        (rule reads_if | rule impI | rule conjI | rule reads_bind [OF reads_getString] | rule reads_bind [OF reads_filtered]
          | rule reads_bind [OF sub(1)] | rule sub(2) | simp add: Let_def)+
  next
    case 3
    then obtain k where k: "m = Suc k" by (cases m) auto
    have sub: "reads (length r1) (getValue n D r1) (getValue k D r1)" if "length r1 < Suc (length r)" for r1
      using 3 k that by (intro Suc.IH(1)) auto
    have loop: "reads (length r) (getArray_loop n D p1 False r1) (getArray_loop k D p1 False r1)"
      if "length r1 < length r" for p1 r1
      using 3 k that by (auto intro: reads_mono [OF Suc.IH(3)])
    have elem: "reads (length r) (bindE (getValue n D r1) (f n)) (bindE (getValue k D r1) (f k))"
      if "length r1 < Suc (length r)" and f: "f = (\<lambda>n (v, r2). bindE (read_filtered r2) (\<lambda>(c, r3).
         let p1 = vs @ [v] in
         if c = CHR '','' then getArray_loop n D p1 False r3
         else if c = CHR '']'' then Inr (ValueArray p1, r3)
         else Inl TC_Json_Exception))" for f r1
      using that(1) unfolding f
      by - (rule reads_if | rule impI | rule conjI | rule reads_bind [OF reads_filtered] | rule reads_bind [OF sub]
        | rule loop | simp add: Let_def)+
    show ?case
    proof (cases b)
      case True
      then show ?thesis unfolding k getArray_loop.simps
        by (simp add: bindE_assoc) (rule reads_bind [OF reads_filtered], auto intro!: elem)
    next
      case False
      then show ?thesis unfolding k getArray_loop.simps using elem [OF _ refl, of r] by simp
    qed
  }
qed simp_all

text \<open>The entry point has enough: its result is that of any larger bound.\<close>

lemma TC_Json_getValue_fuel:
  assumes "2 * length str < n"
  shows "TC_Json_getValue D str = bindE (getValue n D str) (\<lambda>(v, _). Inr v)"
    and "TC_Json_getValue D str \<noteq> Inl Out_of_fuel"
  using fuel_enough(1) [of str "Suc (2 * length str)" n D] assms
  by (auto simp: TC_Json_getValue_def reads_def bindE_Inl_iff split: sum.splits)

section \<open>Strings\<close>

text \<open>Unescaping one character at a time.\<close>

function unescape :: "char \<Rightarrow> string json_reader" where
  "unescape head r =
    bindE (json_read r) (\<lambda>(c, r1).
      if c = CHR 0x5C then
        bindE (json_read r1) (\<lambda>(e, r2).
          if e = CHR ''u'' then
            bindE (getHex r2) (\<lambda>(iCode, r3). bindE (unescape head r3) (\<lambda>(s, r'). Inr (code_chars iCode @ s, r')))
          else bindE (unescape head r2) (\<lambda>(s, r'). Inr (escape_chars e @ s, r')))
      else if c = head then Inr ([], r1)
      else bindE (unescape head r1) (\<lambda>(s, r'). Inr (c # s, r')))"
  by pat_completeness auto

termination
  by (relation "measure (\<lambda>(_, r). length r)") (auto simp: json_read_Inr dest: getHex_length)

declare unescape.simps [simp del]

lemma getHex_drop: "getHex r = Inr (x, r') \<Longrightarrow> r' = drop 4 r"
proof -
  have "getHex_loop i a r = Inr (x, r') \<Longrightarrow> r' = drop i r" for i a
    by (induction i arbitrary: a r) (auto simp: json_read_Inr bindE_Inr_iff split: option.splits)
  then show "getHex r = Inr (x, r') \<Longrightarrow> r' = drop 4 r" unfolding getHex_def by blast
qed

lemma getString_loop_unescape:
  "i + length r = length p \<Longrightarrow> r = drop i p \<Longrightarrow>
    getString_loop head v p i r = bindE (unescape head r) (\<lambda>(s, r'). Inr (v @ take i p @ s, r'))"
proof (induction r arbitrary: v p i rule: length_induct)
  case (1 r)
  show ?case
  proof (cases r)
    case Nil
    then show ?thesis by (subst getString_loop.simps, subst unescape.simps) simp
  next
    case (Cons c r1)
    then have d: "drop i p = c # r1" and i: "i < length p" using "1.prems" by auto
    then have c: "p ! i = c" "i < length p" "r1 = drop (Suc i) p"
      by (simp_all add: nth_via_drop drop_Suc tl_drop [symmetric])
    have IH: "getString_loop head v' p' i' r2 = bindE (unescape head r2) (\<lambda>(s, r'). Inr (v' @ take i' p' @ s, r'))"
      if "length r2 \<le> length r1" "i' + length r2 = length p'" "r2 = drop i' p'" for v' p' i' r2
      using 1(1) [rule_format, of r2 i' p' v'] that Cons by simp
    show ?thesis
    proof (cases "c = CHR 0x5C")
      case True
      show ?thesis
      proof (cases r1)
        case Nil
        then show ?thesis using Cons True by (subst getString_loop.simps, subst unescape.simps) simp
      next
        case (Cons e r2)
        then have r2: "r2 = drop (i + 2) p" using c by (metis drop_Suc_Cons drop_drop drop_0 numeral_2_eq_2 add.commute)
        show ?thesis
        proof (cases "e = CHR ''u''")
          case True
          show ?thesis
          proof (cases "getHex r2" rule: sum_pair_exhaust)
            case (Inr code r3)
            have "length r3 \<le> length r1" and "r3 = drop 0 (drop 4 r2)"
              using Cons getHex_length [OF Inr] getHex_drop [OF Inr] by simp_all
            then have "getString_loop head v' (drop 4 r2) 0 r3 = bindE (unescape head r3) (\<lambda>(s, r'). Inr (v' @ s, r'))" for v'
              using IH [of r3 0 "drop 4 r2" v'] by simp
            moreover have "drop 4 (drop (i + 2) p) = drop 4 r2" by (simp only: r2)
            ultimately show ?thesis using \<open>r = c # r1\<close> \<open>c = CHR 0x5C\<close> True Cons Inr
              by (subst getString_loop.simps, subst unescape.simps)
                (simp add: Let_def bindE_assoc case_prod_unfold del: drop_drop)
          qed (use \<open>r = c # r1\<close> \<open>c = CHR 0x5C\<close> True Cons in
            \<open>subst getString_loop.simps, subst unescape.simps, simp add: Let_def\<close>)
        next
          case False
          then show ?thesis using \<open>r = c # r1\<close> \<open>c = CHR 0x5C\<close> Cons r2
            by (subst getString_loop.simps, subst unescape.simps)
              (simp add: Let_def IH bindE_assoc case_prod_unfold)
        qed
      qed
    next
      case False
      then show ?thesis using Cons c "1.prems"
        by (subst getString_loop.simps, subst unescape.simps)
          (auto simp: IH bindE_assoc case_prod_unfold take_Suc_conv_app_nth)
    qed
  qed
qed

lemma getString_unescape: "getString head r = unescape head r"
  unfolding getString_def using getString_loop_unescape [of 0 r r head "[]"]
  by (cases "unescape head r" rule: sum_pair_exhaust) simp_all

lemma hex_nibble_char: "n < 16 \<Longrightarrow> hex_nibble (nibble_char n) = Some n"
  by (auto simp: hex_nibble_def nibble_char_def Let_def)

lemma unescape_write_char:
  "unescape (CHR 0x22) (write_char c @ r) = bindE (unescape (CHR 0x22) r) (\<lambda>(s, r'). Inr (c # s, r'))"
proof (cases "(of_char c :: nat) < 0x20 \<and> c \<notin> {CHR 0x08, CHR 0x0C, CHR 0x0A, CHR 0x0D, CHR 0x09}")
  case True
  let ?n = "of_char c :: nat"
  have "?n < 32" using True by blast
  then have n: "?n div 16 < 16" "?n mod 16 < 16" by (simp_all add: less_mult_imp_div_less)
  have q: "c \<noteq> CHR 0x22 \<and> c \<noteq> CHR 0x5C \<and> c \<noteq> CHR ''/''" using \<open>?n < 32\<close> by (intro conjI notI) simp_all
  have w: "write_char c = [CHR 0x5C, CHR ''u'', CHR ''0'', CHR ''0'', nibble_char (?n div 16), nibble_char (?n mod 16)]"
    unfolding write_char_def using True q by (simp only: insert_iff de_Morgan_disj simp_thms if_True if_False)
  have h: "hex_nibble (CHR ''0'') = Some 0" by (simp add: hex_nibble_def)
  have "getHex (CHR ''0'' # CHR ''0'' # nibble_char a # nibble_char b # r) = Inr (a * 16 + b, r)"
    if "a < 16" "b < 16" for a b
    unfolding getHex_def eval_nat_numeral BitM.simps using that h by (simp add: hex_nibble_char)
  from this [OF n] have "getHex (CHR ''0'' # CHR ''0'' # nibble_char (?n div 16) # nibble_char (?n mod 16) # r) = Inr (?n, r)"
    by simp
  moreover have "code_chars ?n = [c]" using \<open>?n < 32\<close> by (simp add: code_chars_def)
  ultimately show ?thesis unfolding w
    by (subst unescape.simps) (simp add: case_prod_unfold)
next
  case False
  then show ?thesis
    by (subst unescape.simps) (auto simp: write_char_def escape_chars_def case_prod_unfold)
qed

lemma unescape_written: "unescape (CHR 0x22) (concat (map write_char s) @ CHR 0x22 # r) = Inr (s, r)"
proof (induction s)
  case Nil
  then show ?case by (subst unescape.simps) simp
next
  case (Cons c s)
  then show ?case by (simp add: unescape_write_char)
qed

lemma getString_written: "getString (CHR 0x22) (concat (map write_char s) @ CHR 0x22 # r) = Inr (s, r)"
  by (simp add: getString_unescape unescape_written)

section \<open>Numbers\<close>

text \<open>Text at which a number ends.\<close>

definition num_end :: "string \<Rightarrow> bool" where
  "num_end r \<longleftrightarrow> (case r of [] \<Rightarrow> True | c # _ \<Rightarrow> \<not> isdigit c \<and> c \<notin> set ''.eE'')"

lemma digit_value_int: "isdigit c \<Longrightarrow> digit_value c = word_of_int (int (of_char c) - 48)"
  by (simp add: digit_value_def isdigit_def of_nat_diff)

lemma getNum_loop_digits:
  assumes "list_all isdigit ds" and "num_end r" and "\<not> bFloat s" and "\<not> bExponential s" and "iInt s = word_of_int x"
  shows "getNum_loop D s (ds @ r) =
    (s\<lparr>bOk := bOk s \<or> ds \<noteq> [],
       iInt := word_of_int (foldl (\<lambda>v c. 10 * v + (int (of_char c) - 48)) x ds)\<rparr>, r)"
  using assms
proof (induction ds arbitrary: s x)
  case Nil
  then show ?case by (cases r) (auto simp: num_end_def)
next
  case (Cons c ds)
  have "getNum_digit D c s = s\<lparr>bOk := True, iInt := word_of_int (10 * x + (int (of_char c) - 48))\<rparr>"
    using Cons.prems by (simp add: getNum_digit_def digit_value_int mult.commute)
  then show ?case using Cons.prems
    by (simp add: Cons.IH [of _ "10 * x + (int (of_char c) - 48)"])
qed

lemma getNum_written:
  assumes "num_end r"
  shows "\<exists>c t. to_string (sint l) = c # t \<and> (isdigit c \<or> c = CHR ''-'') \<and>
    getNum D c (t @ r) = Inr (int_value D l, r)"
proof -
  let ?val = "foldl (\<lambda>v c. 10 * v + (int (of_char c) - 48))"
  obtain c t where d: "decimal (nat \<bar>sint l\<bar>) = c # t" using decimal_digits by (meson neq_Nil_conv)
  then have dig: "isdigit c" "list_all isdigit t" using decimal_digits [of "nat \<bar>sint l\<bar>"] by simp_all
  have v: "?val (int (of_char c) - 48) t = \<bar>sint l\<bar>" "?val 0 (c # t) = \<bar>sint l\<bar>"
    using digits_value_decimal [of "nat \<bar>sint l\<bar>"] by (simp_all add: digits_value_def d)
  have neq: "c \<noteq> CHR ''-''" using dig(1) by (auto simp: isdigit_def)
  show ?thesis
  proof (cases "sint l < 0")
    case True
    have "- \<bar>sint l\<bar> = sint l" using True by simp
    moreover have "word_of_int (sint l) = l" by simp
    ultimately have "0 - word_of_int \<bar>sint l\<bar> = l" by (metis diff_0 wi_hom_neg)
    then show ?thesis using True d dig v assms
      by (simp add: to_string_def getNum_def getNum_loop_digits [where ds = "c # t" and x = 0, simplified]
        getNum_result_def int_value_def)
  next
    case False
    then have "word_of_int \<bar>sint l\<bar> = l" by simp
    then show ?thesis using False d dig v(1) assms neq
      by (simp add: to_string_def getNum_def digit_value_int
        getNum_loop_digits [where x = "int (of_char c) - 48"] getNum_result_def int_value_def)
  qed
qed

section \<open>Values\<close>

text \<open>
  The values that are restored: numbers are integers whose image as a floating point number is not
  NaN, and not the least one, whose digits overflow before the sign is applied; the keys of an
  object are distinct. Null pointers and nulls are left out.
\<close>

fun json_ok :: "'d doubles \<Rightarrow> 'd json_value \<Rightarrow> bool" where
  "json_ok D (ValueString s) \<longleftrightarrow> True"
| "json_ok D (ValueNum d l i) \<longleftrightarrow> i \<and> d = d_of_int D l \<and> \<not> d_isnan D d \<and> l \<noteq> 0x8000000000000000"
| "json_ok D (ValueObj m) \<longleftrightarrow> umap_ok m \<and> (\<forall>kv \<in> set m. json_ok D (snd kv))"
| "json_ok D (ValueArray vs) \<longleftrightarrow> (\<forall>v \<in> set vs. json_ok D v)"
| "json_ok D (ValueBoolean b) \<longleftrightarrow> True"
| "json_ok D v \<longleftrightarrow> False"

text \<open>The order in which an unordered map is iterated contains every key once.\<close>

definition iter_ok :: "(string list \<Rightarrow> string list) \<Rightarrow> bool" where
  "iter_ok iter \<longleftrightarrow> (\<forall>ks. distinct ks \<longrightarrow> distinct (iter ks) \<and> set (iter ks) = set ks)"

text \<open>The value with the members of its objects in iteration order.\<close>

fun reordered :: "(string list \<Rightarrow> string list) \<Rightarrow> 'd json_value \<Rightarrow> 'd json_value" where
  "reordered iter (ValueObj m) =
    (let m' = map (\<lambda>(k, v). (k, reordered iter v)) m
     in ValueObj (map (\<lambda>k. (k, obj_at k m')) (iter (map fst m))))"
| "reordered iter (ValueArray vs) = ValueArray (map (reordered iter) vs)"
| "reordered iter v = v"

text \<open>The text of a value that is restored, and that it is there.\<close>

definition written :: "'d doubles \<Rightarrow> (string list \<Rightarrow> string list) \<Rightarrow> bool \<Rightarrow> 'd json_value \<Rightarrow> string" where
  "written D iter sp v = (case writeValue D iter sp v of Inl _ \<Rightarrow> [] | Inr s \<Rightarrow> s)"

fun join :: "string \<Rightarrow> string list \<Rightarrow> string" where
  "join sep [] = []"
| "join sep [x] = x"
| "join sep (x # y # xs) = x @ sep @ join sep (y # xs)"

lemma separated_Inr: "separated sep (map (\<lambda>x. Inr (f x)) xs) = Inr (join sep (map f xs))"
  by (induction xs rule: induct_list012) simp_all

lemma umap_find_map: "umap_find k (map (\<lambda>(k, v). (k, f v)) m) = map_option f (umap_find k m)"
  by (induction m) (auto simp: umap_find_def)

lemma obj_at_map: "obj_at k (map (\<lambda>(k, v). (k, reordered iter v)) m) = reordered iter (obj_at k m)"
  by (simp add: obj_at_def umap_find_map split: option.split)

lemma map_fst_map: "map fst (map (\<lambda>(k, v). (k, f v)) m) = map fst m"
  by (simp add: comp_def case_prod_unfold)

lemma obj_member:
  assumes "umap_ok m" and "iter_ok iter" and "k \<in> set (iter (map fst m))"
  shows "(k, obj_at k m) \<in> set m" and "umap_find k m = Some (obj_at k m)"
proof -
  have "k \<in> fst ` set m" using assms by (auto simp: iter_ok_def umap_ok_def)
  then obtain v where "umap_find k m = Some v" by (metis umap_find_None not_None_eq)
  then show "(k, obj_at k m) \<in> set m" and "umap_find k m = Some (obj_at k m)"
    by (simp_all add: obj_at_def umap_find_def map_of_SomeD)
qed

definition member_text :: "'d doubles \<Rightarrow> (string list \<Rightarrow> string list) \<Rightarrow> bool \<Rightarrow> (string \<times> 'd json_value) list \<Rightarrow> string \<Rightarrow> string" where
  "member_text D iter sp m k =
    writeString k @ (if sp then '': '' else '':'') @ written D iter False (obj_at k m)"

lemma writeValue_array:
  assumes "\<And>v. v \<in> set vs \<Longrightarrow> writeValue D iter False v = Inr (written D iter False v)"
  shows "writeValue D iter sp (ValueArray vs) = Inr
    ((if sp then ''[ '' else ''['') @ join (if sp then '', '' else '','') (map (written D iter False) vs) @
     (if sp then '' ]'' else '']''))"
proof -
  have "map (writeValue D iter False) vs = map (\<lambda>v. Inr (written D iter False v)) vs" using assms by simp
  then show ?thesis unfolding writeValue.simps writeArray_def by (simp only: separated_Inr bindE_simps)
qed

lemma writeValue_obj:
  assumes "umap_ok m" and "iter_ok iter"
    and "\<And>k v. (k, v) \<in> set m \<Longrightarrow> writeValue D iter False v = Inr (written D iter False v)"
  shows "writeValue D iter sp (ValueObj m) = Inr
    ((if sp then ''{ '' else ''{'') @
     join (if sp then '', '' else '','') (map (member_text D iter sp m) (iter (map fst m))) @
     (if sp then '' }'' else ''}''))"
proof -
  have "write_member sp (map (\<lambda>(k, v). (k, writeValue D iter False v)) m) k = Inr (member_text D iter sp m k)"
    if "k \<in> set (iter (map fst m))" for k
    using obj_member [OF assms(1,2) that] assms(3) by (simp add: write_member_def umap_find_map member_text_def)
  then have "map (write_member sp (map (\<lambda>(k, v). (k, writeValue D iter False v)) m)) (iter (map fst m)) =
      map (\<lambda>k. Inr (member_text D iter sp m k)) (iter (map fst m))" by simp
  then show ?thesis unfolding writeValue.simps writeObj_def map_fst_map
    by (simp only: separated_Inr bindE_simps)
qed

lemma writeValue_ok: "json_ok D v \<Longrightarrow> iter_ok iter \<Longrightarrow> writeValue D iter sp v = Inr (written D iter sp v)"
proof (induction v arbitrary: sp)
  case (ValueObj m)
  then have "writeValue D iter False v = Inr (written D iter False v)" if "(k, v) \<in> set m" for k v
    using that by fastforce
  with ValueObj.prems show ?case by (simp add: writeValue_obj written_def del: writeValue.simps(4))
next
  case (ValueArray vs)
  then show ?case by (simp add: writeValue_array written_def del: writeValue.simps(5))
qed (simp_all add: written_def)

lemma written_simps:
  "written D iter sp (ValueString s) = writeString s"
  "written D iter sp (ValueNum d l i) = writeNum D d l i"
  "written D iter sp (ValueBoolean b) = writeBoolean b"
  by (simp_all add: written_def)

lemma written_array:
  assumes "json_ok D (ValueArray vs)" and "iter_ok iter"
  shows "written D iter sp (ValueArray vs) =
    (if sp then ''[ '' else ''['') @ join (if sp then '', '' else '','') (map (written D iter False) vs) @
    (if sp then '' ]'' else '']'')"
  unfolding written_def [of D iter sp "ValueArray vs"] using assms
  by (subst writeValue_array) (auto intro: writeValue_ok)

lemma written_obj:
  assumes "json_ok D (ValueObj m)" and "iter_ok iter"
  shows "written D iter sp (ValueObj m) =
    (if sp then ''{ '' else ''{'') @ join (if sp then '', '' else '','') (map (member_text D iter sp m) (iter (map fst m))) @
    (if sp then '' }'' else ''}'')"
  unfolding written_def [of D iter sp "ValueObj m"] using assms
  by (subst writeValue_obj) (force intro!: writeValue_ok)+

lemma not_space [simp]:
  "\<not> json_space (CHR '','')" "\<not> json_space (CHR '']'')" "\<not> json_space (CHR ''}'')" "\<not> json_space (CHR '':'')"
  "\<not> json_space (CHR 0x22)" "\<not> json_space (CHR ''{'')" "\<not> json_space (CHR ''['')" "\<not> json_space (CHR ''t'')"
  "\<not> json_space (CHR ''f'')" "\<not> json_space (CHR ''-'')" "json_space (CHR '' '')"
  by (simp_all add: json_space_def)

text \<open>Blanks before a value or a member are skipped.\<close>

lemma blank_skipped:
  "getValue n D (CHR '' '' # r) = getValue n D r"
  "getObj_loop n D p b (CHR '' '' # r) = getObj_loop n D p b r"
  "getArray_loop n D vs False (CHR '' '' # r) = getArray_loop n D vs False r"
proof -
  show v: "getValue n D (CHR '' '' # r) = getValue n D r" for n by (cases n) simp_all
  show "getObj_loop n D p b (CHR '' '' # r) = getObj_loop n D p b r" by (cases n) simp_all
  show "getArray_loop n D vs False (CHR '' '' # r) = getArray_loop n D vs False r" by (cases n) (simp_all add: v)
qed

lemma num_end_simps [simp]:
  "num_end []" "num_end (CHR '','' # r)" "num_end (CHR '' '' # r)" "num_end (CHR '']'' # r)" "num_end (CHR ''}'' # r)"
  by (simp_all add: num_end_def isdigit_def)

lemma getArray_loop_written:
  assumes each: "\<And>v r n. v \<in> set vs \<Longrightarrow> num_end r \<Longrightarrow> 2 * length (f v @ r) < n \<Longrightarrow>
      getValue n D (f v @ r) = Inr (g v, r)"
    and "vs \<noteq> []"
    and "Suc (2 * length (join (if sp then '', '' else '','') (map f vs) @ (if sp then '' ]'' else '']'') @ r)) < n"
  shows "getArray_loop n D p False (join (if sp then '', '' else '','') (map f vs) @ (if sp then '' ]'' else '']'') @ r) =
    Inr (ValueArray (p @ map g vs), r)"
  using assms
proof (induction vs arbitrary: p n rule: induct_list012)
  case (2 v)
  then obtain k where "n = Suc k" by (cases n) auto
  with 2 show ?case by simp
next
  case (3 v w vs)
  then obtain k where k: "n = Suc k" by (cases n) auto
  let ?t = "join (if sp then '', '' else '','') (map f (w # vs)) @ (if sp then '' ]'' else '']'') @ r"
  have IH: "getArray_loop k D (p @ [g v]) False ?t = Inr (ValueArray ((p @ [g v]) @ map g (w # vs)), r)"
    using 3 k by (intro "3.IH"(2)) (auto split: if_splits)
  have "getValue k D (f v @ (if sp then '', '' else '','') @ ?t) = Inr (g v, (if sp then '', '' else '','') @ ?t)"
    using 3 k by (intro 3) (auto split: if_splits)
  then show ?case using IH by (cases sp) (simp_all add: k blank_skipped)
qed simp

lemma getObj_loop_written:
  assumes each: "\<And>k r n. k \<in> set ks \<Longrightarrow> num_end r \<Longrightarrow> 2 * length (f k @ r) < n \<Longrightarrow>
      getValue n D (f k @ r) = Inr (g k, r)"
    and "ks \<noteq> []" and "distinct (map fst p @ ks)"
    and "Suc (2 * length (join (if sp then '', '' else '','')
      (map (\<lambda>k. writeString k @ (if sp then '': '' else '':'') @ f k) ks) @ (if sp then '' }'' else ''}'') @ r)) < n"
  shows "getObj_loop n D p b (join (if sp then '', '' else '','')
      (map (\<lambda>k. writeString k @ (if sp then '': '' else '':'') @ f k) ks) @ (if sp then '' }'' else ''}'') @ r) =
    Inr (ValueObj (p @ map (\<lambda>k. (k, g k)) ks), r)"
  using assms
proof (induction ks arbitrary: p n b rule: induct_list012)
  case (2 k)
  then obtain m where m: "n = Suc m" by (cases n) auto
  let ?c = "(if sp then '' }'' else ''}'') @ r"
  have "umap_set k (g k) p = p @ [(k, g k)]" using 2 by (simp add: umap_set_def umap_find_None)
  moreover have "getValue m D (f k @ ?c) = Inr (g k, ?c)"
    using 2 m by (intro 2) (auto simp: writeString_def split: if_splits)
  ultimately show ?case by (simp add: m writeString_def getString_written blank_skipped split: if_splits)
next
  case (3 k l ks)
  then obtain m where m: "n = Suc m" by (cases n) auto
  let ?t = "join (if sp then '', '' else '','')
    (map (\<lambda>k. writeString k @ (if sp then '': '' else '':'') @ f k) (l # ks)) @ (if sp then '' }'' else ''}'') @ r"
  have IH: "getObj_loop m D (p @ [(k, g k)]) False ?t = Inr (ValueObj ((p @ [(k, g k)]) @ map (\<lambda>k. (k, g k)) (l # ks)), r)"
    using 3 m by (intro "3.IH"(2)) (auto split: if_splits)
  have "umap_set k (g k) p = p @ [(k, g k)]" using 3 by (simp add: umap_set_def umap_find_None)
  moreover have "getValue m D (f k @ (if sp then '', '' else '','') @ ?t) = Inr (g k, (if sp then '', '' else '','') @ ?t)"
    using 3 m by (intro 3) (auto split: if_splits)
  ultimately show ?case using IH
    by (simp add: m writeString_def [of k] getString_written blank_skipped split: if_splits)
qed simp

lemma read_filtered_again:
  assumes "read_filtered r = Inr (c, r1)" shows "read_filtered (c # r1) = Inr (c, r1)"
proof -
  have "\<not> json_space c" using assms by (induction r) (auto split: if_splits)
  then show ?thesis by simp
qed

lemma first_element:
  assumes "getValue n D r = Inr (v, r')"
  shows "getArray_loop (Suc n) D vs True r = getArray_loop (Suc n) D vs False r"
proof -
  obtain c r1 where c: "read_filtered r = Inr (c, r1)" and n: "0 < n"
    using assms by (cases n) (auto elim!: bindE_InrE)
  have "c \<noteq> CHR '']''" using assms c n by (cases n) (auto simp: isdigit_def)
  moreover have "getValue n D (c # r1) = getValue n D r"
    using n read_filtered_again [OF c] c by (cases n) (simp_all del: read_filtered.simps)
  ultimately show ?thesis using c by simp
qed

lemma getValue_written:
  assumes "json_ok D v" and "iter_ok iter" and "num_end r" and "2 * length (written D iter sp v @ r) < n"
  shows "getValue n D (written D iter sp v @ r) = Inr (reordered iter v, r)"
  using assms
proof (induction v arbitrary: sp r n)
  case (ValueString s)
  then obtain m where "n = Suc m" by (cases n) auto
  then show ?case by (simp add: written_simps writeString_def getString_written)
next
  case (ValueNum d l i)
  then obtain m where n: "n = Suc m" by (cases n) auto
  obtain c t where c: "to_string (sint l) = c # t" "isdigit c \<or> c = CHR ''-''"
    and g: "getNum D c (t @ r) = Inr (int_value D l, r)"
    using getNum_written ValueNum.prems(3) by blast
  have "\<not> json_space c" "c \<noteq> CHR ''{''" "c \<noteq> CHR ''[''" "c \<noteq> CHR 0x22" "c \<notin> set ''TtFf''"
    using c(2) by (auto simp: isdigit_def json_space_def)
  moreover have "written D iter sp (ValueNum d l i) = c # t" "ValueNum d l i = int_value D l"
    using ValueNum.prems(1) c(1) by (auto simp: written_simps writeNum_def int_value_def)
  moreover have "reordered iter (int_value D l) = int_value D l" by (simp add: int_value_def)
  ultimately show ?case using n c(2) g by simp
next
  case (ValueBoolean b)
  then obtain m where "n = Suc m" by (cases n) auto
  then show ?case by (cases b) (simp_all add: written_simps writeBoolean_def getBoolean_def)
next
  case (ValueArray vs)
  then obtain m where n: "n = Suc (Suc m)" by (cases n rule: nat.exhaust; cases "n - 1") (auto simp: written_array split: if_splits)
  show ?case
  proof (cases "vs = []")
    case True
    then show ?thesis using n ValueArray.prems by (cases sp) (simp_all add: written_array)
  next
    case False
    let ?t = "join (if sp then '', '' else '','') (map (written D iter False) vs) @ (if sp then '' ]'' else '']'') @ r"
    have each: "getValue k D (written D iter False v @ r') = Inr (reordered iter v, r')"
      if "v \<in> set vs" "num_end r'" "2 * length (written D iter False v @ r') < k" for v r' k
      using ValueArray.IH [OF that(1)] ValueArray.prems that by simp
    have len: "Suc (2 * length ?t) < Suc m"
      using ValueArray.prems n by (cases sp) (simp_all add: written_array)
    have loop: "getArray_loop (Suc m) D [] False ?t = Inr (ValueArray (map (reordered iter) vs), r)"
      using getArray_loop_written [OF each False len, where p = "[]"] by (simp del: getArray_loop.simps)
    have "\<exists>v r'. getValue m D ?t = Inr (v, r')" using loop by (auto elim!: bindE_InrE)
    then obtain v r' where v: "getValue m D ?t = Inr (v, r')" by blast
    define blank where "blank = (if sp then '' '' else [])"
    have "getValue m D (blank @ ?t) = Inr (v, r')" using v by (cases sp) (simp_all add: blank_def blank_skipped)
    then have "getArray_loop (Suc m) D [] True (blank @ ?t) = getArray_loop (Suc m) D [] False (blank @ ?t)"
      by (rule first_element)
    also have "\<dots> = Inr (ValueArray (map (reordered iter) vs), r)"
      using loop by (cases sp) (simp_all add: blank_def blank_skipped del: getArray_loop.simps)
    finally have "getArray_loop (Suc m) D [] True (blank @ ?t) = Inr (ValueArray (map (reordered iter) vs), r)" .
    moreover have "written D iter sp (ValueArray vs) @ r = CHR ''['' # blank @ ?t"
      using written_array [OF ValueArray.prems(1,2), of sp] by (cases sp) (simp_all add: blank_def)
    ultimately show ?thesis unfolding n by (simp add: isdigit_def del: getArray_loop.simps)
  qed
next
  case (ValueObj kvs)
  let ?ks = "iter (map fst kvs)"
  obtain m where n: "n = Suc m" using ValueObj.prems(4) by (cases n) auto
  have g: "reordered iter (ValueObj kvs) = ValueObj (map (\<lambda>k. (k, reordered iter (obj_at k kvs))) ?ks)"
    by (simp add: Let_def obj_at_map)
  have ks: "distinct ?ks" using ValueObj.prems by (simp add: iter_ok_def umap_ok_def)
  show ?case
  proof (cases "?ks = []")
    case True
    then obtain k where "m = Suc k" using ValueObj.prems n by (cases m) (auto simp: written_obj split: if_splits)
    then show ?thesis unfolding g using True n ValueObj.prems
      by (cases sp) (simp_all add: written_obj isdigit_def)
  next
    case False
    let ?t = "join (if sp then '', '' else '','') (map (member_text D iter sp kvs) ?ks) @ (if sp then '' }'' else ''}'') @ r"
    have each: "getValue j D (written D iter False (obj_at k kvs) @ r') = Inr (reordered iter (obj_at k kvs), r')"
      if "k \<in> set ?ks" "num_end r'" "2 * length (written D iter False (obj_at k kvs) @ r') < j" for k r' j
    proof -
      have mem: "(k, obj_at k kvs) \<in> set kvs" using ValueObj.prems that(1) by (intro obj_member(1)) simp_all
      then have "json_ok D (obj_at k kvs)" using ValueObj.prems(1) by fastforce
      then show ?thesis using ValueObj.IH [OF mem] ValueObj.prems(2) that by (simp add: snds.simps)
    qed
    have "Suc (2 * length ?t) < m"
      using ValueObj.prems n by (cases sp) (simp_all add: written_obj)
    then have "getObj_loop m D [] True ?t = Inr (reordered iter (ValueObj kvs), r)"
      using getObj_loop_written [OF each False, where p = "[]"] ks unfolding g
      by (simp add: member_text_def [abs_def])
    then show ?thesis using n ValueObj.prems
      by (cases sp) (simp_all add: written_obj isdigit_def blank_skipped del: getObj_loop.simps reordered.simps)
  qed
qed simp_all

lemma TC_Json_roundtrip:
  assumes "json_ok D v" and "iter_ok iter" and "num_end r"
  shows "TC_Json_getValue D (written D iter sp v @ r) = Inr (reordered iter v)"
  using getValue_written [OF assms, of sp "Suc (2 * length (written D iter sp v @ r))"]
  by (simp add: TC_Json_getValue_def)

section \<open>What the reader does to some texts\<close>

text \<open>
  The exponent of an integer is ignored, the first digit of an exponent is dropped unless a sign
  stands before it, and after a first digit 0 the digits are added to the number itself.
\<close>

lemma exponents_misread:
  "TC_Json_getValue D ''1e5'' = Inr (int_value D 1)"
  "TC_Json_getValue D ''1e05'' = Inr (int_value D 15)"
  "TC_Json_getValue D ''1.5e8'' = TC_Json_getValue D ''1.5''"
proof -
  show "TC_Json_getValue D ''1e5'' = Inr (int_value D 1)"
    "TC_Json_getValue D ''1e05'' = Inr (int_value D 15)"
    "TC_Json_getValue D ''1.5e8'' = TC_Json_getValue D ''1.5''"
    by (simp_all add: TC_Json_getValue_def json_space_def isdigit_def getNum_def getNum_digit_def digit_value_def
      getNum_result_def int_value_def Let_def numeral_eq_Suc)
qed

lemma getHex4:
  "getHex (a # b # c # d # r) =
    (case (hex_nibble a, hex_nibble b, hex_nibble c, hex_nibble d) of
       (Some p, Some q, Some s, Some t) \<Rightarrow> Inr (((p * 16 + q) * 16 + s) * 16 + t, r)
     | _ \<Rightarrow> Inl TC_Json_Exception)"
  by (simp add: getHex_def numeral_eq_Suc split: option.split)

text \<open>
  The two halves of a surrogate pair are encoded one by one, three bytes each, which is not UTF-8;
  an unknown escape is dropped; what follows a value is ignored.
\<close>

lemma surrogates_not_combined:
  "TC_Json_getValue D ([CHR 0x22, CHR 0x5C] @ ''ud83d'' @ [CHR 0x5C] @ ''ude00'' @ [CHR 0x22]) =
    Inr (ValueString [CHR 0xED, CHR 0xA0, CHR 0xBD, CHR 0xED, CHR 0xB8, CHR 0x80])"
proof -
  have codes: "code_chars 0xD83D = [CHR 0xED, CHR 0xA0, CHR 0xBD]" "code_chars 0xDE00 = [CHR 0xED, CHR 0xB8, CHR 0x80]"
    by (simp_all add: code_chars_def char_of_def bit_Suc_0_iff)
  have "getString (CHR 0x22) ([CHR 0x5C] @ ''ud83d'' @ [CHR 0x5C] @ ''ude00'' @ [CHR 0x22]) =
      Inr ([CHR 0xED, CHR 0xA0, CHR 0xBD, CHR 0xED, CHR 0xB8, CHR 0x80], [])"
    unfolding getString_unescape using codes by (simp add: unescape.simps getHex4 hex_nibble_def)
  then show ?thesis by (simp add: TC_Json_getValue_def numeral_eq_Suc)
qed

lemma unknown_escape_dropped:
  "TC_Json_getValue D [CHR 0x22, CHR ''a'', CHR 0x5C, CHR ''x'', CHR ''b'', CHR 0x22] = Inr (ValueString ''ab'')"
proof -
  have "getString (CHR 0x22) [CHR ''a'', CHR 0x5C, CHR ''x'', CHR ''b'', CHR 0x22] = Inr (''ab'', [])" by code_simp
  then show ?thesis by (simp add: TC_Json_getValue_def numeral_eq_Suc)
qed

lemma trailing_text_ignored: "TC_Json_getValue D ''true} and more'' = Inr (ValueBoolean True)"
  by (simp add: TC_Json_getValue_def getBoolean_def numeral_eq_Suc)

end
