(* ===== verification/TxJson.thy ===== *)
theory TxJson
  imports TcJsonProps TxBuilder
begin

text \<open>
  Transactions and receipts as JSON: \<open>JsonInput::readJson\<close> and \<open>JsonOutput::writeJson\<close>
  (\<open>utilities/tx/tars/tup/TarsJson.h\<close>) for the types the structs have, \<open>writeToJson\<close> and
  \<open>readFromJson\<close> of the structs (\<open>utilities/tx/Transaction.h\<close>, \<open>utilities/receipt/TransactionReceipt.h\<close>)
  and the conversions of the builders. The hexadecimal images are those of bcos-utilities:
  \<open>fromHexString\<close> throws on text that is not hexadecimal (\<open>None\<close>).
\<close>

record bcos_hex =
  hex_toHex :: "bytes \<Rightarrow> string"
  hex_toHexStringWithPrefix :: "bytes \<Rightarrow> string"
  hex_fromHexString :: "string \<Rightarrow> bytes option"

definition hex_ok :: "bcos_hex \<Rightarrow> bool" where
  "hex_ok H \<longleftrightarrow> (\<forall>bs. hex_fromHexString H (hex_toHex H bs) = Some bs) \<and>
    (\<forall>bs. hex_fromHexString H (hex_toHexStringWithPrefix H bs) = Some bs) \<and> hex_toHex H [] = ''''"

text \<open>An integer converted to a floating point number is a number.\<close>

definition doubles_ok :: "'d doubles \<Rightarrow> bool" where
  "doubles_ok D \<longleftrightarrow> (\<forall>n. \<not> d_isnan D (d_of_int D n))"

section \<open>Members\<close>

text \<open>
  A value of another class leaves the member as it is, or throws when the member is required; the
  message of that exception asks a null pointer for its type, which throws its own.
\<close>

definition readJson_other :: "'a \<Rightarrow> 'd json_value \<Rightarrow> bool \<Rightarrow> tc_json_exn + 'a" where
  "readJson_other c p isRequire =
    (if isRequire then Inl (case p of NoValue \<Rightarrow> TC_AutoPtrNull_Exception | _ \<Rightarrow> TC_Json_Exception) else Inr c)"

definition readJson_int :: "'n::len word \<Rightarrow> 'd json_value \<Rightarrow> bool \<Rightarrow> tc_json_exn + 'n word" where
  "readJson_int c p isRequire =
    (case p of ValueNum _ lvalue _ \<Rightarrow> Inr (ucast lvalue) | _ \<Rightarrow> readJson_other c p isRequire)"

definition readJson_string :: "string \<Rightarrow> 'd json_value \<Rightarrow> bool \<Rightarrow> tc_json_exn + string" where
  "readJson_string s p isRequire =
    (case p of ValueString v \<Rightarrow> Inr v | _ \<Rightarrow> readJson_other s p isRequire)"

primrec readJson_elems :: "('a \<Rightarrow> 'd json_value \<Rightarrow> bool \<Rightarrow> tc_json_exn + 'a) \<Rightarrow> ('a \<times> 'd json_value) list \<Rightarrow> tc_json_exn + 'a list" where
  "readJson_elems rd [] = Inr []"
| "readJson_elems rd (vp # vps) = bindE (rd (fst vp) (snd vp) True) (\<lambda>x. bindE (readJson_elems rd vps) (\<lambda>xs. Inr (x # xs)))"

definition readJson_vector ::
  "('a \<Rightarrow> 'd json_value \<Rightarrow> bool \<Rightarrow> tc_json_exn + 'a) \<Rightarrow> 'a \<Rightarrow> 'a list \<Rightarrow> 'd json_value \<Rightarrow> bool \<Rightarrow> tc_json_exn + 'a list" where
  "readJson_vector rd def v p isRequire =
    (case p of ValueArray ps \<Rightarrow> readJson_elems rd (zip (vec_resize def (length ps) v) ps)
     | _ \<Rightarrow> readJson_other v p isRequire)"

definition readJson_struct ::
  "('d json_value \<Rightarrow> tc_json_exn + 'a) \<Rightarrow> 'a \<Rightarrow> 'd json_value \<Rightarrow> bool \<Rightarrow> tc_json_exn + 'a" where
  "readJson_struct readFromJson v p isRequire =
    (case p of ValueObj _ \<Rightarrow> readFromJson p | _ \<Rightarrow> readJson_other v p isRequire)"

definition writeJson_int :: "'d doubles \<Rightarrow> 'n::len word \<Rightarrow> 'd json_value" where
  "writeJson_int D b = int_value D (scast b)"

definition writeJson_string :: "string \<Rightarrow> 'd json_value" where
  "writeJson_string s = ValueString s"

definition writeJson_vector :: "('a \<Rightarrow> 'd json_value) \<Rightarrow> 'a list \<Rightarrow> 'd json_value" where
  "writeJson_vector wr vs = ValueArray (map wr vs)"

text \<open>The bytes of a hexadecimal member, which is required.\<close>

definition readJson_hex :: "bcos_hex \<Rightarrow> 'd json_value \<Rightarrow> tc_json_exn + bytes" where
  "readJson_hex H p = bindE (readJson_string '''' p True) (\<lambda>s.
     case hex_fromHexString H s of None \<Rightarrow> Inl BadHexCharacter | Some bs \<Rightarrow> Inr bs)"

section \<open>Structs\<close>

definition TransactionData_writeToJson :: "'d doubles \<Rightarrow> bcos_hex \<Rightarrow> TransactionData \<Rightarrow> 'd json_value" where
  "TransactionData_writeToJson D H d = ValueObj
    [(''version'', writeJson_int D (td_version d)),
     (''chainID'', writeJson_string (td_chainID d)),
     (''groupID'', writeJson_string (td_groupID d)),
     (''blockLimit'', writeJson_int D (td_blockLimit d)),
     (''nonce'', writeJson_string (td_nonce d)),
     (''to'', writeJson_string (td_to d)),
     (''input'', writeJson_string (hex_toHexStringWithPrefix H (td_input d))),
     (''abi'', writeJson_string (td_abi d))]"

definition TransactionData_readFromJson :: "bcos_hex \<Rightarrow> 'd json_value \<Rightarrow> tc_json_exn + TransactionData" where
  "TransactionData_readFromJson H p = (let d = TransactionData_resetDefault in
    case p of ValueObj m \<Rightarrow>
      bindE (readJson_int (td_version d) (obj_at ''version'' m) True) (\<lambda>version.
      bindE (readJson_string (td_chainID d) (obj_at ''chainID'' m) True) (\<lambda>chainID.
      bindE (readJson_string (td_groupID d) (obj_at ''groupID'' m) True) (\<lambda>groupID.
      bindE (readJson_int (td_blockLimit d) (obj_at ''blockLimit'' m) True) (\<lambda>blockLimit.
      bindE (readJson_string (td_nonce d) (obj_at ''nonce'' m) True) (\<lambda>nonce.
      bindE (readJson_string (td_to d) (obj_at ''to'' m) False) (\<lambda>to.
      bindE (readJson_hex H (obj_at ''input'' m)) (\<lambda>input.
      bindE (readJson_string (td_abi d) (obj_at ''abi'' m) False) (\<lambda>abi.
        Inr \<lparr>td_version = version, td_chainID = chainID, td_groupID = groupID, td_blockLimit = blockLimit,
             td_nonce = nonce, td_to = to, td_input = input, td_abi = abi\<rparr>))))))))
    | _ \<Rightarrow> Inl TC_Json_Exception)"

definition Transaction_writeToJson :: "'d doubles \<Rightarrow> bcos_hex \<Rightarrow> Transaction \<Rightarrow> 'd json_value" where
  "Transaction_writeToJson D H t = ValueObj
    [(''data'', TransactionData_writeToJson D H (tx_data t)),
     (''dataHash'', writeJson_vector (writeJson_int D) (tx_dataHash t)),
     (''signature'', writeJson_vector (writeJson_int D) (tx_signature t)),
     (''importTime'', writeJson_int D (tx_importTime t)),
     (''attribute'', writeJson_int D (tx_attribute t)),
     (''sender'', writeJson_vector (writeJson_int D) (tx_sender t)),
     (''extraData'', writeJson_string (tx_extraData t))]"

definition Transaction_readFromJson :: "bcos_hex \<Rightarrow> 'd json_value \<Rightarrow> tc_json_exn + Transaction" where
  "Transaction_readFromJson H p = (let t = Transaction_resetDefault in
    case p of ValueObj m \<Rightarrow>
      bindE (readJson_struct (TransactionData_readFromJson H) (tx_data t) (obj_at ''data'' m) False) (\<lambda>data.
      bindE (readJson_vector readJson_int 0 (tx_dataHash t) (obj_at ''dataHash'' m) False) (\<lambda>dataHash.
      bindE (readJson_vector readJson_int 0 (tx_signature t) (obj_at ''signature'' m) False) (\<lambda>signature.
      bindE (readJson_int (tx_importTime t) (obj_at ''importTime'' m) False) (\<lambda>importTime.
      bindE (readJson_int (tx_attribute t) (obj_at ''attribute'' m) False) (\<lambda>attribute.
      bindE (readJson_vector readJson_int 0 (tx_sender t) (obj_at ''sender'' m) False) (\<lambda>sender.
      bindE (readJson_string (tx_extraData t) (obj_at ''extraData'' m) False) (\<lambda>extraData.
        Inr \<lparr>tx_data = data, tx_dataHash = dataHash, tx_signature = signature, tx_importTime = importTime,
             tx_attribute = attribute, tx_sender = sender, tx_extraData = extraData\<rparr>)))))))
    | _ \<Rightarrow> Inl TC_Json_Exception)"

text \<open>
  The vector of topics is resized to their number, which makes that many empty strings, and then
  extended by the topics.
\<close>

definition LogEntry_topics :: "bcos_hex \<Rightarrow> LogEntry \<Rightarrow> string list" where
  "LogEntry_topics H l = foldl (\<lambda>topics item. topics @ [hex_toHex H item])
    (vec_resize '''' (length (le_topic l)) []) (le_topic l)"

definition LogEntry_writeToJson :: "'d doubles \<Rightarrow> bcos_hex \<Rightarrow> LogEntry \<Rightarrow> 'd json_value" where
  "LogEntry_writeToJson D H l = ValueObj
    [(''address'', writeJson_string (le_address l)),
     (''topics'', writeJson_vector writeJson_string (LogEntry_topics H l)),
     (''data'', writeJson_string (hex_toHexStringWithPrefix H (le_data l)))]"

primrec read_topic_list :: "bcos_hex \<Rightarrow> 'd json_value list \<Rightarrow> tc_json_exn + bytes list" where
  "read_topic_list H [] = Inr []"
| "read_topic_list H (p # ps) = bindE (readJson_hex H p) (\<lambda>t. bindE (read_topic_list H ps) (\<lambda>ts. Inr (t # ts)))"

definition LogEntry_readFromJson :: "bcos_hex \<Rightarrow> 'd json_value \<Rightarrow> tc_json_exn + LogEntry" where
  "LogEntry_readFromJson H p = (let l = LogEntry_resetDefault in
    case p of ValueObj m \<Rightarrow>
      bindE (readJson_string (le_address l) (obj_at ''address'' m) True) (\<lambda>address.
      bindE (case obj_at ''topics'' m of ValueArray ps \<Rightarrow> read_topic_list H ps | _ \<Rightarrow> Inr (le_topic l)) (\<lambda>topic.
      bindE (readJson_hex H (obj_at ''data'' m)) (\<lambda>data.
        Inr \<lparr>le_address = address, le_topic = topic, le_data = data\<rparr>)))
    | _ \<Rightarrow> Inl TC_Json_Exception)"

definition TransactionReceiptData_writeToJson ::
  "'d doubles \<Rightarrow> bcos_hex \<Rightarrow> TransactionReceiptData \<Rightarrow> 'd json_value" where
  "TransactionReceiptData_writeToJson D H r = ValueObj
    [(''version'', writeJson_int D (rd_version r)),
     (''gasUsed'', writeJson_string (rd_gasUsed r)),
     (''contractAddress'', writeJson_string (rd_contractAddress r)),
     (''status'', writeJson_int D (rd_status r)),
     (''output'', writeJson_string (hex_toHexStringWithPrefix H (rd_output r))),
     (''logEntries'', writeJson_vector (LogEntry_writeToJson D H) (rd_logEntries r)),
     (''blockNumber'', writeJson_int D (rd_blockNumber r))]"

definition TransactionReceiptData_readFromJson ::
  "bcos_hex \<Rightarrow> 'd json_value \<Rightarrow> tc_json_exn + TransactionReceiptData" where
  "TransactionReceiptData_readFromJson H p = (let r = TransactionReceiptData_resetDefault in
    case p of ValueObj m \<Rightarrow>
      bindE (readJson_int (rd_version r) (obj_at ''version'' m) True) (\<lambda>version.
      bindE (readJson_string (rd_gasUsed r) (obj_at ''gasUsed'' m) True) (\<lambda>gasUsed.
      bindE (readJson_string (rd_contractAddress r) (obj_at ''contractAddress'' m) True) (\<lambda>contractAddress.
      bindE (readJson_int (rd_status r) (obj_at ''status'' m) True) (\<lambda>status.
      bindE (readJson_hex H (obj_at ''output'' m)) (\<lambda>output.
      bindE (readJson_vector (readJson_struct (LogEntry_readFromJson H)) LogEntry_resetDefault
        (rd_logEntries r) (obj_at ''logEntries'' m) False) (\<lambda>logEntries.
      bindE (readJson_int (rd_blockNumber r) (obj_at ''blockNumber'' m) True) (\<lambda>blockNumber.
        Inr \<lparr>rd_version = version, rd_gasUsed = gasUsed, rd_contractAddress = contractAddress,
             rd_status = status, rd_output = output, rd_logEntries = logEntries,
             rd_blockNumber = blockNumber\<rparr>)))))))
    | _ \<Rightarrow> Inl TC_Json_Exception)"

section \<open>The builders\<close>

definition writeToJsonString :: "'d doubles \<Rightarrow> (string list \<Rightarrow> string list) \<Rightarrow> 'd json_value \<Rightarrow> tc_json_exn + string" where
  "writeToJsonString D iter p = writeValue D iter False p"

definition readFromJsonString :: "'d doubles \<Rightarrow> ('d json_value \<Rightarrow> tc_json_exn + 'a) \<Rightarrow> string \<Rightarrow> tc_json_exn + 'a" where
  "readFromJsonString D readFromJson str = bindE (TC_Json_getValue D str) readFromJson"

definition createTransactionDataWithJson :: "'d doubles \<Rightarrow> bcos_hex \<Rightarrow> string \<Rightarrow> tc_json_exn + TransactionData" where
  "createTransactionDataWithJson D H json = readFromJsonString D (TransactionData_readFromJson H) json"

definition createReceiptDataWithJson :: "'d doubles \<Rightarrow> bcos_hex \<Rightarrow> string \<Rightarrow> tc_json_exn + TransactionReceiptData" where
  "createReceiptDataWithJson D H json = readFromJsonString D (TransactionReceiptData_readFromJson H) json"

datatype text_exn = Decode_failed tars_exn | Text_failed tc_json_exn

definition decode_to_text :: "tars_exn + 'a \<Rightarrow> ('a \<Rightarrow> tc_json_exn + string) \<Rightarrow> text_exn + string" where
  "decode_to_text decoded to_text =
    (case decoded of Inl e \<Rightarrow> Inl (Decode_failed e)
     | Inr x \<Rightarrow> (case to_text x of Inl e \<Rightarrow> Inl (Text_failed e) | Inr s \<Rightarrow> Inr s))"

definition decodeTransactionDataToJsonObj ::
  "'d doubles \<Rightarrow> bcos_hex \<Rightarrow> (string list \<Rightarrow> string list) \<Rightarrow> bytes \<Rightarrow> text_exn + string" where
  "decodeTransactionDataToJsonObj D H iter txBytes =
    decode_to_text (decodeTransactionData txBytes) (\<lambda>d. writeToJsonString D iter (TransactionData_writeToJson D H d))"

definition decodeTransactionToJsonObj ::
  "'d doubles \<Rightarrow> bcos_hex \<Rightarrow> (string list \<Rightarrow> string list) \<Rightarrow> bytes \<Rightarrow> text_exn + string" where
  "decodeTransactionToJsonObj D H iter txBytes =
    decode_to_text (decodeTransaction txBytes) (\<lambda>t. writeToJsonString D iter (Transaction_writeToJson D H t))"

definition decodeReceiptDataToJsonObj ::
  "'d doubles \<Rightarrow> bcos_hex \<Rightarrow> (string list \<Rightarrow> string list) \<Rightarrow> bytes \<Rightarrow> text_exn + string" where
  "decodeReceiptDataToJsonObj D H iter receiptBytes =
    decode_to_text (decodeReceiptData receiptBytes) (\<lambda>r. writeToJsonString D iter (TransactionReceiptData_writeToJson D H r))"

end
