(* ===== verification/TxJsonTheorems.thy ===== *)
theory TxJsonTheorems
  imports TxJson TxTheorems
begin

text \<open>
  What the JSON of transactions and receipts keeps: the locale \<open>json_codec\<close> is the contract of a
  writer and a reader of one type, and is interpreted for every member type and every struct.
\<close>

section \<open>The contract of a member\<close>

text \<open>
  What is written for a value is restored as \<open>f v\<close> from the members in any order, whatever the
  variable held before and whether or not the member is required.
\<close>

locale json_codec =
  fixes wr :: "'d doubles \<Rightarrow> bcos_hex \<Rightarrow> 'a \<Rightarrow> 'd json_value"
    and rd :: "bcos_hex \<Rightarrow> 'a \<Rightarrow> 'd json_value \<Rightarrow> bool \<Rightarrow> tc_json_exn + 'a"
    and ok :: "'a \<Rightarrow> bool" and f :: "'a \<Rightarrow> 'a"
  assumes writes: "doubles_ok D \<Longrightarrow> ok v \<Longrightarrow> json_ok D (wr D H v)"
    and reads_back: "doubles_ok D \<Longrightarrow> hex_ok H \<Longrightarrow> iter_ok iter \<Longrightarrow> ok v \<Longrightarrow>
      rd H old (reordered iter (wr D H v)) req = Inr (f v)"
begin

lemma elems:
  assumes "doubles_ok D" "hex_ok H" "iter_ok iter" "\<forall>v \<in> set vs. ok v" "length olds = length vs"
  shows "readJson_elems (rd H) (zip olds (map (\<lambda>v. reordered iter (wr D H v)) vs)) = Inr (map f vs)"
  using assms(4,5)
proof (induction vs arbitrary: olds)
  case (Cons v vs)
  then show ?case using reads_back [OF assms(1-3)] by (cases olds) simp_all
qed simp

lemma vector_codec_json:
  "json_codec (\<lambda>D H. writeJson_vector (wr D H)) (\<lambda>H. readJson_vector (rd H) def) (\<lambda>vs. \<forall>v \<in> set vs. ok v) (map f)"
  by unfold_locales
    (simp_all add: writeJson_vector_def readJson_vector_def writes elems comp_def)

lemma text_roundtrip:
  assumes "doubles_ok D" "hex_ok H" "iter_ok iter" "ok v" "num_end r"
  shows "\<exists>s. writeToJsonString D iter (wr D H v) = Inr s \<and>
    bindE (TC_Json_getValue D (s @ r)) (\<lambda>p. rd H old p req) = Inr (f v)"
  using writeValue_ok [OF writes [OF assms(1,4)] assms(3)] TC_Json_roundtrip [OF writes [OF assms(1,4)] assms(3,5)]
    reads_back [OF assms(1-4)]
  by (simp add: writeToJsonString_def)

end

section \<open>Integers and strings\<close>

lemma jint_codec:
  assumes "\<And>v. ok v \<Longrightarrow> (scast v :: u64) \<noteq> 0x8000000000000000 \<and> ucast (scast v :: u64) = v"
  shows "json_codec (\<lambda>D H. writeJson_int D) (\<lambda>H. readJson_int) ok (\<lambda>v :: 'n::len word. v)"
  using assms by unfold_locales (simp_all add: writeJson_int_def readJson_int_def int_value_def doubles_ok_def)

lemma ucast_scast_u64: "LENGTH('n::len) \<le> 64 \<Longrightarrow> ucast (scast (v :: 'n word) :: u64) = v"
  by (rule bit_word_eqI) (simp add: bit_simps)

lemma scast_not_least: "LENGTH('n::len) < 64 \<Longrightarrow> (scast (v :: 'n word) :: u64) \<noteq> 0x8000000000000000"
proof
  assume n: "LENGTH('n) < 64" and v: "(scast v :: u64) = 0x8000000000000000"
  have "LENGTH('n) - Suc 0 \<le> 62" using n by linarith
  then have "bit (scast v :: u64) 63 = bit (scast v :: u64) 62" by (simp add: bit_simps min_def)
  then show False unfolding v by simp
qed

interpretation jbyte: json_codec "\<lambda>D H. writeJson_int D" "\<lambda>H. readJson_int" "\<lambda>_. True" "\<lambda>v :: byte. v"
  by (rule jint_codec) (simp add: ucast_scast_u64 scast_not_least)

interpretation jint32: json_codec "\<lambda>D H. writeJson_int D" "\<lambda>H. readJson_int" "\<lambda>_. True" "\<lambda>v :: u32. v"
  by (rule jint_codec) (simp add: ucast_scast_u64 scast_not_least)

interpretation jint64: json_codec "\<lambda>D H. writeJson_int D" "\<lambda>H. readJson_int" "\<lambda>v. v \<noteq> 0x8000000000000000" "\<lambda>v :: u64. v"
  by (rule jint_codec) simp

interpretation jstring: json_codec "\<lambda>D H. writeJson_string" "\<lambda>H. readJson_string" "\<lambda>_. True" "\<lambda>s. s"
  by unfold_locales (simp_all add: writeJson_string_def readJson_string_def)

interpretation jbytes: json_codec "\<lambda>D H. writeJson_vector (writeJson_int D)" "\<lambda>H. readJson_vector readJson_int 0"
  "\<lambda>vs. \<forall>v \<in> set vs. True" "map (\<lambda>v :: byte. v)"
  by (rule jbyte.vector_codec_json)

section \<open>Structs\<close>

lemma json_ok_obj: "json_ok D (ValueObj m) \<longleftrightarrow> distinct (map fst m) \<and> (\<forall>v \<in> snd ` set m. json_ok D v)"
  by (simp add: umap_ok_def)

lemma hex_member:
  "hex_ok H \<Longrightarrow> readJson_hex H (reordered iter (writeJson_string (hex_toHexStringWithPrefix H bs))) = Inr bs"
  "hex_ok H \<Longrightarrow> readJson_hex H (ValueString (hex_toHex H bs)) = Inr bs"
  "hex_ok H \<Longrightarrow> readJson_hex H (ValueString '''') = Inr []"
  by (simp_all add: readJson_hex_def writeJson_string_def readJson_string_def hex_ok_def) (metis option.simps(5))

text \<open>The members of an object in iteration order are found as before.\<close>

lemma reordered_obj:
  assumes "umap_ok m" and "iter_ok iter"
  obtains m' where "reordered iter (ValueObj m) = ValueObj m'" and "\<And>k. obj_at k m' = reordered iter (obj_at k m)"
proof
  let ?r = "map (\<lambda>(k, v). (k, reordered iter v)) m"
  let ?m' = "map (\<lambda>k. (k, obj_at k ?r)) (iter (map fst m))"
  show "reordered iter (ValueObj m) = ValueObj ?m'" by (simp add: Let_def)
  fix k
  have "set (iter (map fst m)) = fst ` set m" using assms by (simp add: iter_ok_def umap_ok_def)
  moreover have "map_of (map (\<lambda>k. (k, g k)) ks) k = (if k \<in> set ks then Some (g k) else None)" for g :: "string \<Rightarrow> 'a json_value" and ks
    by (simp add: map_of_map_restrict restrict_map_def)
  ultimately have "umap_find k ?m' = (if k \<in> fst ` set m then Some (reordered iter (obj_at k m)) else None)"
    by (simp add: umap_find_def obj_at_map)
  moreover have "obj_at k m = NoValue" if "k \<notin> fst ` set m"
    using that by (simp add: obj_at_def umap_find_None [THEN iffD2])
  ultimately show "obj_at k ?m' = reordered iter (obj_at k m)"
    by (cases "k \<in> fst ` set m") (simp_all add: obj_at_def [of k ?m'])
qed

text \<open>
  A struct is a codec when its object is restorable and its reader, on an object whose members are
  found reordered, rebuilds the value.
\<close>

lemma struct_codec:
  fixes ms :: "'d doubles \<Rightarrow> bcos_hex \<Rightarrow> 'a \<Rightarrow> (string \<times> 'd json_value) list"
  assumes obj: "\<And>D H v. wr D H v = ValueObj (ms D H v)"
    and writes: "\<And>D H v. doubles_ok D \<Longrightarrow> ok v \<Longrightarrow> json_ok D (ValueObj (ms D H v))"
    and reads: "\<And>D H iter v m. doubles_ok D \<Longrightarrow> hex_ok H \<Longrightarrow> iter_ok iter \<Longrightarrow> ok v \<Longrightarrow>
      (\<And>k. obj_at k m = reordered iter (obj_at k (ms D H v))) \<Longrightarrow> rd H (ValueObj m) = Inr (f v)"
  shows "json_codec wr (\<lambda>H. readJson_struct (rd H)) ok f"
proof
  show "doubles_ok D \<Longrightarrow> ok v \<Longrightarrow> json_ok D (wr D H v)" for D :: "'d doubles" and v H unfolding obj by (rule writes)
  fix D :: "'d doubles" and H iter v old req
  assume a: "doubles_ok D" "hex_ok H" "iter_ok iter" "ok v"
  have "umap_ok (ms D H v)" using writes [OF a(1,4), of H] by simp
  from reordered_obj [OF this a(3)] obtain m where m: "reordered iter (ValueObj (ms D H v)) = ValueObj m"
    and o: "\<And>k. obj_at k m = reordered iter (obj_at k (ms D H v))" by metis
  show "readJson_struct (rd H) old (reordered iter (wr D H v)) req = Inr (f v)"
    unfolding obj m readJson_struct_def using reads [OF a o] by simp
qed

lemma obj_at_simps [simp]:
  "obj_at k [] = NoValue" "obj_at k ((k', v) # m) = (if k' = k then v else obj_at k m)"
  by (simp_all add: obj_at_def umap_find_def)

definition data_json_ok :: "TransactionData \<Rightarrow> bool" where
  "data_json_ok d \<longleftrightarrow> td_blockLimit d \<noteq> 0x8000000000000000"

interpretation jdata: json_codec TransactionData_writeToJson "\<lambda>H. readJson_struct (TransactionData_readFromJson H)"
  data_json_ok "\<lambda>d. d"
proof (rule struct_codec, unfold TransactionData_writeToJson_def, rule refl)
  fix D :: "'a doubles" and H v
  assume "doubles_ok D" and "data_json_ok v"
  then show "json_ok D (ValueObj
    [(''version'', writeJson_int D (td_version v)), (''chainID'', writeJson_string (td_chainID v)),
     (''groupID'', writeJson_string (td_groupID v)), (''blockLimit'', writeJson_int D (td_blockLimit v)),
     (''nonce'', writeJson_string (td_nonce v)), (''to'', writeJson_string (td_to v)),
     (''input'', writeJson_string (hex_toHexStringWithPrefix H (td_input v))),
     (''abi'', writeJson_string (td_abi v))])"
    by (simp add: json_ok_obj jint32.writes jint64.writes jstring.writes data_json_ok_def del: json_ok.simps)
next
  fix D :: "'a doubles" and H iter v and m :: "(string \<times> 'a json_value) list"
  assume a: "doubles_ok D" "hex_ok H" "iter_ok iter" "data_json_ok v"
  and m: "\<And>k. obj_at k m = reordered iter (obj_at k
    [(''version'', writeJson_int D (td_version v)), (''chainID'', writeJson_string (td_chainID v)),
     (''groupID'', writeJson_string (td_groupID v)), (''blockLimit'', writeJson_int D (td_blockLimit v)),
     (''nonce'', writeJson_string (td_nonce v)), (''to'', writeJson_string (td_to v)),
     (''input'', writeJson_string (hex_toHexStringWithPrefix H (td_input v))),
     (''abi'', writeJson_string (td_abi v))])"
  show "TransactionData_readFromJson H (ValueObj m) = Inr v"
    unfolding TransactionData_readFromJson_def using a(4)
    by (simp add: m jint32.reads_back [OF a(1-3)] jint64.reads_back [OF a(1-3)] jstring.reads_back [OF a(1-3)]
      hex_member(1) [OF a(2)] data_json_ok_def)
qed

definition tx_json_ok :: "Transaction \<Rightarrow> bool" where
  "tx_json_ok t \<longleftrightarrow> data_json_ok (tx_data t) \<and> tx_importTime t \<noteq> 0x8000000000000000"

interpretation jtx: json_codec Transaction_writeToJson "\<lambda>H. readJson_struct (Transaction_readFromJson H)"
  tx_json_ok "\<lambda>t. t"
proof (rule struct_codec, unfold Transaction_writeToJson_def, rule refl)
  fix D :: "'a doubles" and H v
  assume "doubles_ok D" and "tx_json_ok v"
  then show "json_ok D (ValueObj
    [(''data'', TransactionData_writeToJson D H (tx_data v)),
     (''dataHash'', writeJson_vector (writeJson_int D) (tx_dataHash v)),
     (''signature'', writeJson_vector (writeJson_int D) (tx_signature v)),
     (''importTime'', writeJson_int D (tx_importTime v)), (''attribute'', writeJson_int D (tx_attribute v)),
     (''sender'', writeJson_vector (writeJson_int D) (tx_sender v)),
     (''extraData'', writeJson_string (tx_extraData v))])"
    by (simp add: json_ok_obj jint32.writes jint64.writes jstring.writes jbytes.writes jdata.writes
      tx_json_ok_def del: json_ok.simps)
next
  fix D :: "'a doubles" and H iter v and m :: "(string \<times> 'a json_value) list"
  assume a: "doubles_ok D" "hex_ok H" "iter_ok iter" "tx_json_ok v"
  and m: "\<And>k. obj_at k m = reordered iter (obj_at k
    [(''data'', TransactionData_writeToJson D H (tx_data v)),
     (''dataHash'', writeJson_vector (writeJson_int D) (tx_dataHash v)),
     (''signature'', writeJson_vector (writeJson_int D) (tx_signature v)),
     (''importTime'', writeJson_int D (tx_importTime v)), (''attribute'', writeJson_int D (tx_attribute v)),
     (''sender'', writeJson_vector (writeJson_int D) (tx_sender v)),
     (''extraData'', writeJson_string (tx_extraData v))])"
  show "Transaction_readFromJson H (ValueObj m) = Inr v"
    unfolding Transaction_readFromJson_def using a(4)
    by (simp add: m jint32.reads_back [OF a(1-3)] jint64.reads_back [OF a(1-3)] jstring.reads_back [OF a(1-3)]
      jbytes.reads_back [OF a(1-3)] jdata.reads_back [OF a(1-3)] tx_json_ok_def)
qed

text \<open>
  A log entry comes back with as many empty topics in front as it has topics, because
  \<open>writeToJson\<close> resizes the vector to their number before it appends them.
\<close>

definition topics_doubled :: "LogEntry \<Rightarrow> LogEntry" where
  "topics_doubled l = l\<lparr>le_topic := replicate (length (le_topic l)) [] @ le_topic l\<rparr>"

lemma LogEntry_topics_alt: "LogEntry_topics H l = replicate (length (le_topic l)) '''' @ map (hex_toHex H) (le_topic l)"
proof -
  have "foldl (\<lambda>topics item. topics @ [hex_toHex H item]) xs ts = xs @ map (hex_toHex H) ts" for xs ts
    by (induction ts arbitrary: xs) simp_all
  then show ?thesis by (simp add: LogEntry_topics_def vec_resize_def)
qed

lemma read_topic_list_written:
  assumes "hex_ok H"
  shows "read_topic_list H (map writeJson_string (LogEntry_topics H l) :: 'd json_value list) = Inr (le_topic (topics_doubled l))"
proof -
  have empty: "read_topic_list H (replicate n (writeJson_string '''') @ ps) =
      bindE (read_topic_list H ps) (\<lambda>ts. Inr (replicate n [] @ ts))" for n and ps :: "'d json_value list"
    by (induction n)
      (simp_all add: hex_member(3) [OF assms] writeJson_string_def bindE_def split: sum.split)
  have "read_topic_list H (map (\<lambda>t. writeJson_string (hex_toHex H t) :: 'd json_value) ts) = Inr ts" for ts
    by (induction ts) (simp_all add: writeJson_string_def hex_member(2) [OF assms])
  with empty show ?thesis by (simp add: LogEntry_topics_alt topics_doubled_def comp_def)
qed

interpretation jlog: json_codec LogEntry_writeToJson "\<lambda>H. readJson_struct (LogEntry_readFromJson H)"
  "\<lambda>_. True" topics_doubled
proof (rule struct_codec, unfold LogEntry_writeToJson_def, rule refl)
  fix D :: "'a doubles" and H v
  assume "doubles_ok D"
  then show "json_ok D (ValueObj
    [(''address'', writeJson_string (le_address v)),
     (''topics'', writeJson_vector writeJson_string (LogEntry_topics H v)),
     (''data'', writeJson_string (hex_toHexStringWithPrefix H (le_data v)))])"
    by (simp add: json_ok_obj jstring.writes writeJson_vector_def json_ok.simps(4) del: json_ok.simps(3))
next
  fix D :: "'a doubles" and H iter v and m :: "(string \<times> 'a json_value) list"
  assume a: "doubles_ok D" "hex_ok H" "iter_ok iter"
  and m: "\<And>k. obj_at k m = reordered iter (obj_at k
    [(''address'', writeJson_string (le_address v)),
     (''topics'', writeJson_vector writeJson_string (LogEntry_topics H v)),
     (''data'', writeJson_string (hex_toHexStringWithPrefix H (le_data v)))])"
  have "map (reordered iter) (map writeJson_string ss) = (map writeJson_string ss :: 'a json_value list)" for ss
    by (simp add: writeJson_string_def)
  then show "LogEntry_readFromJson H (ValueObj m) = Inr (topics_doubled v)"
    unfolding LogEntry_readFromJson_def
    using read_topic_list_written [OF a(2), of v, where 'd = 'a]
    by (simp add: m jstring.reads_back [OF a(1-3)] hex_member(1) [OF a(2)] writeJson_vector_def
      topics_doubled_def del: map_map)
qed

interpretation jlogs: json_codec "\<lambda>D H. writeJson_vector (LogEntry_writeToJson D H)"
  "\<lambda>H. readJson_vector (readJson_struct (LogEntry_readFromJson H)) LogEntry_resetDefault"
  "\<lambda>vs. \<forall>v \<in> set vs. True" "map topics_doubled"
  by (rule jlog.vector_codec_json)

definition receipt_json_ok :: "TransactionReceiptData \<Rightarrow> bool" where
  "receipt_json_ok r \<longleftrightarrow> rd_blockNumber r \<noteq> 0x8000000000000000"

definition logs_doubled :: "TransactionReceiptData \<Rightarrow> TransactionReceiptData" where
  "logs_doubled r = r\<lparr>rd_logEntries := map topics_doubled (rd_logEntries r)\<rparr>"

interpretation jreceipt: json_codec TransactionReceiptData_writeToJson
  "\<lambda>H. readJson_struct (TransactionReceiptData_readFromJson H)" receipt_json_ok logs_doubled
proof (rule struct_codec, unfold TransactionReceiptData_writeToJson_def, rule refl)
  fix D :: "'a doubles" and H v
  assume "doubles_ok D" and "receipt_json_ok v"
  then show "json_ok D (ValueObj
    [(''version'', writeJson_int D (rd_version v)), (''gasUsed'', writeJson_string (rd_gasUsed v)),
     (''contractAddress'', writeJson_string (rd_contractAddress v)), (''status'', writeJson_int D (rd_status v)),
     (''output'', writeJson_string (hex_toHexStringWithPrefix H (rd_output v))),
     (''logEntries'', writeJson_vector (LogEntry_writeToJson D H) (rd_logEntries v)),
     (''blockNumber'', writeJson_int D (rd_blockNumber v))])"
    by (simp add: json_ok_obj jint32.writes jint64.writes jstring.writes jlogs.writes receipt_json_ok_def
      del: json_ok.simps)
next
  fix D :: "'a doubles" and H iter v and m :: "(string \<times> 'a json_value) list"
  assume a: "doubles_ok D" "hex_ok H" "iter_ok iter" "receipt_json_ok v"
  and m: "\<And>k. obj_at k m = reordered iter (obj_at k
    [(''version'', writeJson_int D (rd_version v)), (''gasUsed'', writeJson_string (rd_gasUsed v)),
     (''contractAddress'', writeJson_string (rd_contractAddress v)), (''status'', writeJson_int D (rd_status v)),
     (''output'', writeJson_string (hex_toHexStringWithPrefix H (rd_output v))),
     (''logEntries'', writeJson_vector (LogEntry_writeToJson D H) (rd_logEntries v)),
     (''blockNumber'', writeJson_int D (rd_blockNumber v))])"
  show "TransactionReceiptData_readFromJson H (ValueObj m) = Inr (logs_doubled v)"
    unfolding TransactionReceiptData_readFromJson_def using a(4)
    by (simp add: m jint32.reads_back [OF a(1-3)] jint64.reads_back [OF a(1-3)] jstring.reads_back [OF a(1-3)]
      jlogs.reads_back [OF a(1-3)] hex_member(1) [OF a(2)] receipt_json_ok_def logs_doubled_def)
qed

section \<open>The library as a concrete function\<close>

definition doubles0 :: "int doubles" where
  "doubles0 = \<lparr>d_of_int = sint, d_to_int = word_of_int, d_add = (+), d_mul = (*), d_neg = uminus,
    d_pow10 = (\<lambda>n. 10 ^ unat n), d_tenth = 0, d_isnan = (\<lambda>_. False), d_to_string = to_string\<rparr>"

lemma doubles0_ok: "doubles_ok doubles0"
  by (simp add: doubles_ok_def doubles0_def)

definition hex_pairs :: "bytes \<Rightarrow> string" where
  "hex_pairs bs = concat (map (\<lambda>b. [nibble_char (unat b div 16), nibble_char (unat b mod 16)]) bs)"

fun unhex_pairs :: "string \<Rightarrow> bytes option" where
  "unhex_pairs [] = Some []"
| "unhex_pairs [a] = None"
| "unhex_pairs (a # b # r) =
    (case (hex_nibble a, hex_nibble b, unhex_pairs r) of
       (Some p, Some q, Some bs) \<Rightarrow> Some (word_of_nat (p * 16 + q) # bs) | _ \<Rightarrow> None)"

definition bcos_hex0 :: bcos_hex where
  "bcos_hex0 = \<lparr>hex_toHex = hex_pairs, hex_toHexStringWithPrefix = (\<lambda>bs. ''0x'' @ hex_pairs bs),
    hex_fromHexString = (\<lambda>s. if take 2 s = ''0x'' then unhex_pairs (drop 2 s) else unhex_pairs s)\<rparr>"

lemma unhex_hex: "unhex_pairs (hex_pairs bs) = Some bs"
proof (induction bs)
  case (Cons b bs)
  have "unat b < 256" by simp
  then have "unat b div 16 < 16" by (simp add: less_mult_imp_div_less)
  then show ?case using Cons by (simp add: hex_pairs_def hex_nibble_char)
qed (simp add: hex_pairs_def)

lemma bcos_hex0_ok: "hex_ok bcos_hex0"
proof -
  have "take 2 (hex_pairs bs) \<noteq> ''0x''" for bs
  proof (cases bs)
    case (Cons b bs')
    have "unat b mod 16 < 16" by simp
    then have "hex_nibble (nibble_char (unat b mod 16)) \<noteq> None" by (simp add: hex_nibble_char)
    moreover have "hex_nibble (CHR ''x'') = None" by (simp add: hex_nibble_def)
    ultimately have "nibble_char (unat b mod 16) \<noteq> CHR ''x''" by metis
    then show ?thesis by (simp add: Cons hex_pairs_def)
  qed (simp add: hex_pairs_def)
  then show ?thesis by (simp add: hex_ok_def bcos_hex0_def unhex_hex) (simp add: hex_pairs_def)
qed

lemma iter_id: "iter_ok (\<lambda>ks. ks)" and iter_rev: "iter_ok rev"
  by (simp_all add: iter_ok_def)

section \<open>Properties\<close>

text \<open>Claim C24. The JSON text of a value is read back with all its members, in compact form and with
spaces, in whatever order an unordered map is iterated, and also when other text follows it: for every
value of strings of arbitrary bytes, integers but the least one, arrays, objects and booleans.\<close>
theorem json_text_roundtrip:
  assumes "json_ok D v" and "iter_ok iter" and "num_end r"
  shows "\<exists>s. writeValue D iter withSpace v = Inr s \<and> TC_Json_getValue D s = Inr (reordered iter v) \<and>
    TC_Json_getValue D (s @ r) = Inr (reordered iter v)"
  using writeValue_ok [OF assms(1,2)] TC_Json_roundtrip [OF assms(1,2), of "[]"] TC_Json_roundtrip [OF assms]
  by simp

theorem json_text_roundtrip_witness:
  "\<exists>s. writeValue doubles0 rev True
      (ValueObj [(''a'', ValueArray [int_value doubles0 (- 5), ValueBoolean False]),
        ([CHR 0x0A, CHR 0x80], ValueString [CHR 0x00, CHR 0x22])]) = Inr s \<and>
    TC_Json_getValue doubles0 s = Inr
      (ValueObj [([CHR 0x0A, CHR 0x80], ValueString [CHR 0x00, CHR 0x22]),
        (''a'', ValueArray [int_value doubles0 (- 5), ValueBoolean False])]) \<and>
    TC_Json_getValue doubles0 (s @ '', more'') = Inr
      (ValueObj [([CHR 0x0A, CHR 0x80], ValueString [CHR 0x00, CHR 0x22]),
        (''a'', ValueArray [int_value doubles0 (- 5), ValueBoolean False])])"
  using json_text_roundtrip [of doubles0 "ValueObj [(''a'', ValueArray [int_value doubles0 (- 5), ValueBoolean False]),
        ([CHR 0x0A, CHR 0x80], ValueString [CHR 0x00, CHR 0x22])]" rev "'', more''" True, OF _ iter_rev]
  by (simp add: umap_ok_def int_value_def doubles0_def Let_def)

text \<open>Claim C38. Reading a JSON text ends: the bound on calls and rounds is never used up, and a larger
one changes nothing. The string reader, which copies the stretches between two escapes by pointer and
length, computes the characters one by one as plain unescaping does.\<close>
theorem json_reading_ends:
  "TC_Json_getValue D str \<noteq> Inl Out_of_fuel \<and>
   TC_Json_getValue D str = bindE (getValue (Suc (2 * length str + extra)) D str) (\<lambda>(v, _). Inr v) \<and>
   getString head str = unescape head str"
  using TC_Json_getValue_fuel [of str "Suc (2 * length str + extra)" D] getString_unescape by simp

lemma struct_text:
  assumes c: "json_codec wr (\<lambda>H. readJson_struct (rd H)) ok f" and obj: "wr D H v = ValueObj ms"
    and a: "doubles_ok D" "hex_ok H" "iter_ok iter" "ok v"
  shows "\<exists>s. writeToJsonString D iter (wr D H v) = Inr s \<and> readFromJsonString D (rd H) s = Inr (f v)"
proof -
  from json_codec.text_roundtrip [OF c a, of "[]" undefined undefined]
  obtain s where s: "writeToJsonString D iter (wr D H v) = Inr s" by auto
  have ok: "json_ok D (wr D H v)" using json_codec.writes [OF c] a by blast
  have "written D iter False (wr D H v) = s" using s writeValue_ok [OF ok a(3)] by (simp add: writeToJsonString_def)
  then have "TC_Json_getValue D s = Inr (reordered iter (wr D H v))"
    using TC_Json_roundtrip [OF ok a(3), of "[]" False] by simp
  moreover have "readJson_struct (rd H) undefined (reordered iter (wr D H v)) undefined = Inr (f v)"
    using json_codec.reads_back [OF c a] .
  ultimately show ?thesis using s by (simp add: obj readFromJsonString_def readJson_struct_def Let_def)
qed

lemma tx_texts:
  assumes "doubles_ok D" "hex_ok H" "iter_ok iter" "tx_json_ok t"
  shows "\<exists>s. writeToJsonString D iter (Transaction_writeToJson D H t) = Inr s \<and>
      readFromJsonString D (Transaction_readFromJson H) s = Inr t"
    and "\<exists>s. writeToJsonString D iter (TransactionData_writeToJson D H (tx_data t)) = Inr s \<and>
      readFromJsonString D (TransactionData_readFromJson H) s = Inr (tx_data t)"
  using struct_text [OF jtx.json_codec_axioms Transaction_writeToJson_def assms]
    struct_text [OF jdata.json_codec_axioms TransactionData_writeToJson_def assms(1-3), of "tx_data t"] assms(4)
  by (simp_all add: tx_json_ok_def)

text \<open>Claim C25. The JSON text that \<open>decodeTransactionToJsonObj\<close> makes of an encoded transaction is
read back as that transaction, and the text of its encoded data is turned into the same data by
\<open>createTransactionDataWithJson\<close>, in every iteration order; the strings may hold any bytes.\<close>
theorem transaction_json:
  assumes "doubles_ok D" and "hex_ok H" and "iter_ok iter" and "Transaction_ok t"
    and "td_blockLimit (tx_data t) \<noteq> 0x8000000000000000" and "tx_importTime t \<noteq> 0x8000000000000000"
  shows "\<exists>img dimg text dtext. encodeTransaction t = Inr img \<and> encodeTransactionData (tx_data t) = Inr dimg \<and>
    decodeTransactionToJsonObj D H iter img = Inr text \<and>
    readFromJsonString D (Transaction_readFromJson H) text = Inr t \<and>
    decodeTransactionDataToJsonObj D H iter dimg = Inr dtext \<and>
    createTransactionDataWithJson D H dtext = Inr (tx_data t)"
proof -
  have j: "tx_json_ok t" and d: "TransactionData_ok (tx_data t)"
    using assms(4-6) by (simp_all add: tx_json_ok_def data_json_ok_def Transaction_ok_def)
  from ttx.roundtrip [OF assms(4)] tdata.roundtrip [OF d] tx_texts [OF assms(1-3) j] show ?thesis
    by (auto simp: encodeTransaction_def encodeTransactionData_def decodeTransactionToJsonObj_def
      decodeTransactionDataToJsonObj_def decodeTransaction_def decodeTransactionData_def decode_to_text_def
      createTransactionDataWithJson_def)
qed

theorem transaction_json_witness:
  "\<exists>img dimg text dtext. encodeTransaction example_transaction = Inr img \<and>
    encodeTransactionData (tx_data example_transaction) = Inr dimg \<and>
    decodeTransactionToJsonObj doubles0 bcos_hex0 rev img = Inr text \<and>
    readFromJsonString doubles0 (Transaction_readFromJson bcos_hex0) text = Inr example_transaction \<and>
    decodeTransactionDataToJsonObj doubles0 bcos_hex0 rev dimg = Inr dtext \<and>
    createTransactionDataWithJson doubles0 bcos_hex0 dtext = Inr (tx_data example_transaction)"
  by (rule transaction_json [OF doubles0_ok bcos_hex0_ok iter_rev example_ok(2)])
    (simp_all add: example_transaction_def example_data_def)

lemma receipt_text:
  assumes "doubles_ok D" "hex_ok H" "iter_ok iter" "receipt_json_ok r"
  shows "\<exists>s. writeToJsonString D iter (TransactionReceiptData_writeToJson D H r) = Inr s \<and>
    readFromJsonString D (TransactionReceiptData_readFromJson H) s = Inr (logs_doubled r)"
  by (rule struct_text [OF jreceipt.json_codec_axioms TransactionReceiptData_writeToJson_def assms])

text \<open>The JSON text made of an encoded receipt is read back as that receipt, except that each
log entry has as many empty topics in front as it has topics: \<open>writeToJson\<close> resizes the vector of topics
before it appends them. A receipt whose log entries have no topics is restored.\<close>
lemma receipt_json:
  assumes "doubles_ok D" and "hex_ok H" and "iter_ok iter" and "TransactionReceiptData_ok r"
    and "rd_blockNumber r \<noteq> 0x8000000000000000"
  shows "\<exists>img text r'. encodeReceipt r = Inr img \<and> decodeReceiptDataToJsonObj D H iter img = Inr text \<and>
    createReceiptDataWithJson D H text = Inr r' \<and>
    map le_topic (rd_logEntries r') = map (\<lambda>l. replicate (length (le_topic l)) [] @ le_topic l) (rd_logEntries r) \<and>
    r'\<lparr>rd_logEntries := []\<rparr> = r\<lparr>rd_logEntries := []\<rparr> \<and>
    map (le_topic_update (\<lambda>_. [])) (rd_logEntries r') = map (le_topic_update (\<lambda>_. [])) (rd_logEntries r) \<and>
    (r' = r \<longleftrightarrow> (\<forall>l \<in> set (rd_logEntries r). le_topic l = []))"
proof -
  have j: "receipt_json_ok r" using assms(5) by (simp add: receipt_json_ok_def)
  have same: "logs_doubled r = r \<longleftrightarrow> (\<forall>l \<in> set (rd_logEntries r). le_topic l = [])"
  proof -
    have "topics_doubled l = l \<longleftrightarrow> le_topic l = []" for l
      by (cases l) (auto simp: topics_doubled_def dest: arg_cong [where f = length])
    moreover have "map topics_doubled ls = ls \<longleftrightarrow> (\<forall>l \<in> set ls. topics_doubled l = l)" for ls
      by (induction ls) auto
    ultimately show ?thesis by (cases r) (simp add: logs_doubled_def)
  qed
  from treceiptdata.roundtrip [OF assms(4)] receipt_text [OF assms(1-3) j]
  obtain img jtext where img: "encodeReceipt r = Inr img" "fst (TransactionReceiptData_readFrom img 0) = Inr r"
    and jtext: "writeToJsonString D iter (TransactionReceiptData_writeToJson D H r) = Inr jtext"
      "readFromJsonString D (TransactionReceiptData_readFromJson H) jtext = Inr (logs_doubled r)"
    by (auto simp: encodeReceipt_def)
  show ?thesis
    by (intro exI [of _ img] exI [of _ jtext] exI [of _ "logs_doubled r"])
      (simp add: img jtext same decodeReceiptDataToJsonObj_def decodeReceiptData_def decode_to_text_def
        createReceiptDataWithJson_def, simp add: logs_doubled_def topics_doubled_def)
qed

definition example_log_receipt :: TransactionReceiptData where
  "example_log_receipt = TransactionReceiptData_resetDefault\<lparr>rd_gasUsed := ''21000'', rd_blockNumber := 7,
    rd_logEntries := [\<lparr>le_address = ''ab'', le_topic = [[1, 2], [3]], le_data = [255]\<rparr>]\<rparr>"

theorem receipt_json_witness:
  "\<exists>img text r'. encodeReceipt example_log_receipt = Inr img \<and>
    decodeReceiptDataToJsonObj doubles0 bcos_hex0 rev img = Inr text \<and>
    createReceiptDataWithJson doubles0 bcos_hex0 text = Inr r' \<and>
    map le_topic (rd_logEntries r') = [[[], [], [1, 2], [3]]] \<and> r' \<noteq> example_log_receipt"
  using receipt_json [OF doubles0_ok bcos_hex0_ok iter_rev, of example_log_receipt]
  by (auto simp: example_log_receipt_def TransactionReceiptData_resetDefault_def TransactionReceiptData_ok_def
    LogEntry_ok_def TARS_MAX_STRING_LENGTH_def)

text \<open>Which objects \<open>createTransactionDataWithJson\<close> accepts: the version, the block limit
(numbers), the chain, the group, the nonce and the input (strings, the input hexadecimal) must be there;
\<open>to\<close> and \<open>abi\<close> may be missing or of another type and are then empty; every other value is refused,
and a missing required member raises the exception of the null pointer.\<close>
lemma transaction_json_members:
  "((\<exists>d. TransactionData_readFromJson H (p :: 'd json_value) = Inr d) \<longleftrightarrow>
    (\<exists>m. p = ValueObj m \<and>
      (\<exists>v l i. obj_at ''version'' m = ValueNum v l i) \<and> (\<exists>v l i. obj_at ''blockLimit'' m = ValueNum v l i) \<and>
      (\<exists>s. obj_at ''chainID'' m = ValueString s) \<and> (\<exists>s. obj_at ''groupID'' m = ValueString s) \<and>
      (\<exists>s. obj_at ''nonce'' m = ValueString s) \<and>
      (\<exists>s. obj_at ''input'' m = ValueString s \<and> hex_fromHexString H s \<noteq> None))) \<and>
   TransactionData_readFromJson H (ValueObj [] :: 'd json_value) = Inl TC_AutoPtrNull_Exception \<and>
   createTransactionDataWithJson D H ''7'' = Inl TC_Json_Exception"
proof -
  have int: "(\<exists>x. readJson_int (c :: 'n::len word) q True = Inr x) \<longleftrightarrow> (\<exists>v l i. q = ValueNum v l i)" for c and q :: "'d json_value"
    by (cases q) (simp_all add: readJson_int_def readJson_other_def)
  have str: "(\<exists>x. readJson_string c q True = Inr x) \<longleftrightarrow> (\<exists>s. q = ValueString s)" for c and q :: "'d json_value"
    by (cases q) (simp_all add: readJson_string_def readJson_other_def)
  have opt: "\<exists>x. readJson_string c q False = Inr x" for c and q :: "'d json_value"
    by (cases q) (simp_all add: readJson_string_def readJson_other_def)
  have hex: "(\<exists>x. readJson_hex H q = Inr x) \<longleftrightarrow> (\<exists>s. q = ValueString s \<and> hex_fromHexString H s \<noteq> None)" for q :: "'d json_value"
    by (cases q) (auto simp: readJson_hex_def readJson_string_def readJson_other_def split: option.split)
  have bind: "(\<exists>d. bindE n f = Inr d) \<longleftrightarrow> (\<exists>x. n = Inr x \<and> (\<exists>d. f x = Inr d))" for n :: "tc_json_exn + 'x" and f
    by (auto simp: bindE_Inr_iff)
  have "(\<exists>d. TransactionData_readFromJson H (ValueObj m :: 'd json_value) = Inr d) \<longleftrightarrow>
      (\<exists>v l i. obj_at ''version'' m = ValueNum v l i) \<and> (\<exists>v l i. obj_at ''blockLimit'' m = ValueNum v l i) \<and>
      (\<exists>s. obj_at ''chainID'' m = ValueString s) \<and> (\<exists>s. obj_at ''groupID'' m = ValueString s) \<and>
      (\<exists>s. obj_at ''nonce'' m = ValueString s) \<and>
      (\<exists>s. obj_at ''input'' m = ValueString s \<and> hex_fromHexString H s \<noteq> None)" for m
    unfolding TransactionData_readFromJson_def Let_def json_value.case bind by (simp add: int str hex opt) blast
  note members = this
  have other: "TransactionData_readFromJson H q = Inl TC_Json_Exception" if "\<forall>m. q \<noteq> ValueObj m" for q :: "'b json_value"
    using that by (cases q) (simp_all add: TransactionData_readFromJson_def)
  have "TC_Json_getValue D ''7'' = Inr (int_value D 7)"
    by (simp add: TC_Json_getValue_def getNum_def getNum_result_def numeral_eq_Suc isdigit_def json_space_def
      int_value_def digit_value_def)
  then have "createTransactionDataWithJson D H ''7'' = Inl TC_Json_Exception"
    by (simp add: createTransactionDataWithJson_def readFromJsonString_def int_value_def other)
  note c7 = this
  have null: "TransactionData_readFromJson H (ValueObj [] :: 'd json_value) = Inl TC_AutoPtrNull_Exception"
    by (simp add: TransactionData_readFromJson_def readJson_int_def readJson_other_def)
  have "(\<exists>d. TransactionData_readFromJson H q = Inr d) \<longleftrightarrow> False" if "\<forall>m. q \<noteq> ValueObj m" for q :: "'d json_value"
    using that by (cases q) (simp_all add: TransactionData_readFromJson_def)
  note others = this
  show ?thesis
  proof (cases "\<exists>m. p = ValueObj m")
    case True
    then obtain m where "p = ValueObj m" by blast
    then show ?thesis using c7 null members [of m] by simp
  next
    case False
    then show ?thesis using c7 null others [of p] by blast
  qed
qed

end
