(* ===== verification/LegacyAbi.thy ===== *)
theory LegacyAbi
  imports AbiTheorems
begin

text \<open>
  The codec of the contract ABI over C++ types (\<open>utilities/abi/solidity/ContractABICodec.{h,cpp}\<close>)
  and the parser of signatures (\<open>ContractABIType.{h,cpp}\<close>). The C++ types for which the templates
  are instantiated are the datatype \<open>cpp_type\<close>, their values \<open>cpp_value\<close>; what the compiler
  selects by the type is a function of it. Offsets are \<open>size_t\<close>, 64 bit words; sizes of what is
  built in memory are natural numbers.
\<close>

section \<open>Types and values\<close>

text \<open>
  \<open>CppSmall\<close> stands for \<open>std::uint8_t\<close>, \<open>std::uint32_t\<close> and pairs, which \<open>ABIElementType\<close> admits
  and for which only the generic templates exist.
\<close>

datatype cpp_type =
    CppS256
  | CppU256
  | CppBool
  | CppAddress
  | CppString32
  | CppString
  | CppBytes
  | CppSmall
  | CppArray nat cpp_type
  | CppVector cpp_type
  | CppTuple "cpp_type list"

datatype cpp_value =
    VS256 int
  | VU256 u256
  | VBool bool
  | VAddress bytes
  | VString32 bytes
  | VString string
  | VBytes bytes
  | VSmall nat
  | VArray "cpp_value list"
  | VVector "cpp_value list"
  | VTuple "cpp_value list"

fun remove_dimension :: "cpp_type \<Rightarrow> cpp_type" where
  "remove_dimension (CppArray n t) = remove_dimension t"
| "remove_dimension t = t"

text \<open>\<open>std::string\<close>, every \<open>std::vector\<close> (among them \<open>bytes\<close>), every tuple and arrays of these.\<close>

definition ABIDynamicType :: "cpp_type \<Rightarrow> bool" where
  "ABIDynamicType t =
    (case remove_dimension t of
       CppString \<Rightarrow> True | CppBytes \<Rightarrow> True | CppVector _ \<Rightarrow> True | CppTuple _ \<Rightarrow> True | _ \<Rightarrow> False)"

fun Length :: "cpp_type \<Rightarrow> nat" where
  "Length (CppArray n t) = (if ABIDynamicType (CppArray n t) then 1 else n * Length t)"
| "Length t = 1"

definition Offset :: "cpp_type list \<Rightarrow> nat" where
  "Offset ts = sum_list (map Length ts)"

text \<open>The value a variable has before it is decoded into: default constructed.\<close>

fun cpp_default :: "cpp_type \<Rightarrow> cpp_value" where
  "cpp_default CppS256 = VS256 0"
| "cpp_default CppU256 = VU256 0"
| "cpp_default CppBool = VBool False"
| "cpp_default CppAddress = VAddress (replicate 20 0)"
| "cpp_default CppString32 = VString32 (replicate 32 0)"
| "cpp_default CppString = VString []"
| "cpp_default CppBytes = VBytes []"
| "cpp_default CppSmall = VSmall 0"
| "cpp_default (CppArray n t) = VArray (replicate n (cpp_default t))"
| "cpp_default (CppVector t) = VVector []"
| "cpp_default (CppTuple ts) = VTuple (map cpp_default ts)"

section \<open>Encoding\<close>

definition serialise_u256 :: "abi_ext \<Rightarrow> u256 \<Rightarrow> bytes" where
  "serialise_u256 X u = h256_of_u256 X u"

definition serialise_s256 :: "abi_ext \<Rightarrow> int \<Rightarrow> bytes" where
  "serialise_s256 X i = h256_of_u256 X (s2u X i)"

definition serialise_bool :: "abi_ext \<Rightarrow> bool \<Rightarrow> bytes" where
  "serialise_bool X b = h256_of_u256 X (if b then 1 else 0)"

definition serialise_address :: "bytes \<Rightarrow> bytes" where
  "serialise_address a = replicate 12 0 @ a"

definition serialise_bytes :: "abi_ext \<Rightarrow> bytes \<Rightarrow> bytes" where
  "serialise_bytes X bs = h256_of_u256 X (word_of_nat (length bs)) @ bs @
    replicate ((length bs + 31) div MAX_BYTE_LENGTH * MAX_BYTE_LENGTH - length bs) 0"

definition serialise_string :: "abi_ext \<Rightarrow> string \<Rightarrow> bytes" where
  "serialise_string X s = h256_of_u256 X (word_of_nat (length s)) @ bytes_of_string s @
    replicate ((length s + 31) div MAX_BYTE_LENGTH * MAX_BYTE_LENGTH - length s) 0"

text \<open>The loop over the elements of an array or a vector, all of one type.\<close>

primrec serialise_loop :: "abi_ext \<Rightarrow> bool \<Rightarrow> bytes list \<Rightarrow> nat \<Rightarrow> bytes \<Rightarrow> bytes \<Rightarrow> bytes" where
  "serialise_loop X dynamic [] len offset_bytes content = offset_bytes @ content"
| "serialise_loop X dynamic (out # outs) len offset_bytes content =
    (if dynamic then
       serialise_loop X dynamic outs (len + length out) (offset_bytes @ serialise_u256 X (word_of_nat len)) (content @ out)
     else serialise_loop X dynamic outs len offset_bytes (content @ out))"

text \<open>The loop over the items of a tuple, each with its kind.\<close>

fun serialise_items :: "abi_ext \<Rightarrow> (bool \<times> bytes) list \<Rightarrow> nat \<Rightarrow> bytes \<Rightarrow> bytes \<Rightarrow> bytes" where
  "serialise_items X [] len offsetBytes dynamicContent = offsetBytes @ dynamicContent"
| "serialise_items X ((dynamic, out) # items) len offsetBytes dynamicContent =
    (if dynamic then
       serialise_items X items (len + length out) (offsetBytes @ serialise_u256 X (word_of_nat len)) (dynamicContent @ out)
     else serialise_items X items len (offsetBytes @ out) dynamicContent)"

fun cpp_s256 :: "cpp_value \<Rightarrow> int" where "cpp_s256 (VS256 i) = i" | "cpp_s256 _ = 0"
fun cpp_u256 :: "cpp_value \<Rightarrow> u256" where "cpp_u256 (VU256 u) = u" | "cpp_u256 _ = 0"
fun cpp_bool :: "cpp_value \<Rightarrow> bool" where "cpp_bool (VBool b) = b" | "cpp_bool _ = False"
fun cpp_string :: "cpp_value \<Rightarrow> string" where "cpp_string (VString s) = s" | "cpp_string _ = []"

fun cpp_bytes :: "cpp_value \<Rightarrow> bytes" where
  "cpp_bytes (VAddress bs) = bs"
| "cpp_bytes (VString32 bs) = bs"
| "cpp_bytes (VBytes bs) = bs"
| "cpp_bytes v = []"

fun cpp_elements :: "cpp_value \<Rightarrow> cpp_value list" where
  "cpp_elements (VArray vs) = vs"
| "cpp_elements (VVector vs) = vs"
| "cpp_elements (VTuple vs) = vs"
| "cpp_elements v = []"

lemma zip_type_size [termination_simp]:
  "(t, v) \<in> set (zip ts vs) \<Longrightarrow> size t < Suc (size_list size (ts :: cpp_type list))"
  using size_list_estimation' [OF set_zip_leftD order_refl, of t v ts vs size] by simp

text \<open>The overloads by type; for \<open>CppSmall\<close> only the generic template exists.\<close>

fun serialise :: "abi_ext \<Rightarrow> cpp_type \<Rightarrow> cpp_value \<Rightarrow> bytes" where
  "serialise X CppS256 v = serialise_s256 X (cpp_s256 v)"
| "serialise X CppU256 v = serialise_u256 X (cpp_u256 v)"
| "serialise X CppBool v = serialise_bool X (cpp_bool v)"
| "serialise X CppAddress v = serialise_address (cpp_bytes v)"
| "serialise X CppString32 v = cpp_bytes v"
| "serialise X CppString v = serialise_string X (cpp_string v)"
| "serialise X CppBytes v = serialise_bytes X (cpp_bytes v)"
| "serialise X CppSmall v = []"
| "serialise X (CppArray n t) v =
    serialise_loop X (ABIDynamicType t) (map (serialise X t) (cpp_elements v)) (n * MAX_BYTE_LENGTH) [] []"
| "serialise X (CppVector t) v =
    serialise_loop X (ABIDynamicType t) (map (serialise X t) (cpp_elements v)) (length (cpp_elements v) * MAX_BYTE_LENGTH)
      (serialise_u256 X (word_of_nat (length (cpp_elements v)))) []"
| "serialise X (CppTuple ts) v =
    serialise_items X (map (\<lambda>(t, v). (ABIDynamicType t, serialise X t v)) (zip ts (cpp_elements v)))
      (length ts * MAX_BYTE_LENGTH) [] []"

text \<open>
  \<open>abiIn\<close>: the members \<open>fixed\<close>, \<open>dynamic\<close> and \<open>offset\<close> are set up and then extended argument by
  argument. The selector of a signature is the start of its hash.
\<close>

record codec_state =
  cs_offset :: nat
  cs_fixed :: bytes
  cs_dynamic :: bytes

fun abiInAux :: "abi_ext \<Rightarrow> (cpp_type \<times> cpp_value) list \<Rightarrow> codec_state \<Rightarrow> codec_state" where
  "abiInAux X [] c = c"
| "abiInAux X ((t, v) # args) c = (let out = serialise X t v in
    abiInAux X args
      (if ABIDynamicType t then
         c\<lparr>cs_dynamic := cs_dynamic c @ out, cs_fixed := cs_fixed c @ serialise_u256 X (word_of_nat (cs_offset c)),
           cs_offset := cs_offset c + length out\<rparr>
       else c\<lparr>cs_fixed := cs_fixed c @ out\<rparr>))"

definition abiIn :: "abi_ext \<Rightarrow> (string \<Rightarrow> bytes) \<Rightarrow> string \<Rightarrow> (cpp_type \<times> cpp_value) list \<Rightarrow> bytes" where
  "abiIn X hash sig args =
    (let c = abiInAux X args \<lparr>cs_offset = Offset (map fst args) * MAX_BYTE_LENGTH, cs_fixed = [], cs_dynamic = []\<rparr>
     in if sig = [] then cs_fixed c @ cs_dynamic c else take 4 (hash sig) @ cs_fixed c @ cs_dynamic c)"

definition abiInHex :: "abi_ext \<Rightarrow> (string \<Rightarrow> bytes) \<Rightarrow> string \<Rightarrow> (cpp_type \<times> cpp_value) list \<Rightarrow> string" where
  "abiInHex X hash sig args = toHexString X (abiIn X hash sig args)"

section \<open>Decoding\<close>

definition validOffset :: "bytes \<Rightarrow> u64 \<Rightarrow> abi_exn + unit" where
  "validOffset data off = (if unat off \<ge> length data then Inl Length_error else Inr ())"

definition deserialize_u256 :: "abi_ext \<Rightarrow> bytes \<Rightarrow> u64 \<Rightarrow> abi_exn + u256" where
  "deserialize_u256 X data off =
    bindE (validOffset data (off + 32 - 1)) (\<lambda>_. Inr (fromBigEndian X (getCroppedData2 X data off 32)))"

text \<open>The sign: a number above \<open>0x8fff...\<close> is negative.\<close>

definition s256_of :: "u256 \<Rightarrow> int" where
  "s256_of u =
    (if u > 0x8fffffffffffffffffffffffffffffffffffffffffffffffffffffffffffffff then - uint (- 1 - u + 1) else uint u)"

definition deserialize_s256 :: "abi_ext \<Rightarrow> bytes \<Rightarrow> u64 \<Rightarrow> abi_exn + int" where
  "deserialize_s256 X data off = bindE (deserialize_u256 X data off) (\<lambda>u. Inr (s256_of u))"

definition deserialize_bool :: "abi_ext \<Rightarrow> bytes \<Rightarrow> u64 \<Rightarrow> abi_exn + bool" where
  "deserialize_bool X data off = bindE (deserialize_u256 X data off) (\<lambda>u. Inr (u > 0))"

definition deserialize_address :: "abi_ext \<Rightarrow> bytes \<Rightarrow> u64 \<Rightarrow> abi_exn + bytes" where
  "deserialize_address X data off =
    bindE (validOffset data (off + 32 - 1)) (\<lambda>_. Inr (getCroppedData2 X data (off + 32 - 20) 20))"

definition deserialize_string32 :: "abi_ext \<Rightarrow> bytes \<Rightarrow> u64 \<Rightarrow> abi_exn + bytes" where
  "deserialize_string32 X data off =
    bindE (validOffset data (off + 32 - 1)) (\<lambda>_. Inr (getCroppedData2 X data off 32))"

definition deserialize_bytes :: "abi_ext \<Rightarrow> bytes \<Rightarrow> u64 \<Rightarrow> abi_exn + bytes" where
  "deserialize_bytes X data off =
    bindE (deserialize_u256 X data off) (\<lambda>len.
    bindE (validOffset data (off + 32 + u256_to_size X len - 1)) (\<lambda>_.
      Inr (getCroppedData2 X data (off + 32) (u256_to_size X len))))"

definition deserialize_string :: "abi_ext \<Rightarrow> bytes \<Rightarrow> u64 \<Rightarrow> abi_exn + string" where
  "deserialize_string X data off = bindE (deserialize_bytes X data off) (\<lambda>bs. Inr (string_of_bytes bs))"

text \<open>
  Where element \<open>u\<close> of a sequence at \<open>off\<close> is: behind the offset stored for it, or in place.
\<close>

definition element_offset :: "abi_ext \<Rightarrow> cpp_type \<Rightarrow> bytes \<Rightarrow> u64 \<Rightarrow> nat \<Rightarrow> abi_exn + u64" where
  "element_offset X t data off u =
    (let place = off + word_of_nat u * word_of_nat (Length t) * 32 in
     if ABIDynamicType t then bindE (deserialize_u256 X data place) (\<lambda>len. Inr (off + u256_to_size X len))
     else Inr place)"

primrec deserialize_loop :: "(nat \<Rightarrow> abi_exn + 'a) \<Rightarrow> nat \<Rightarrow> nat \<Rightarrow> abi_exn + 'a list" where
  "deserialize_loop f u 0 = Inr []"
| "deserialize_loop f u (Suc k) = bindE (f u) (\<lambda>v. bindE (deserialize_loop f (Suc u) k) (\<lambda>vs. Inr (v # vs)))"

text \<open>The items of a tuple at \<open>off\<close>, the head of the next one at \<open>off + tupleOffset\<close>.\<close>

fun deserialize_items :: "abi_ext \<Rightarrow> bytes \<Rightarrow> u64 \<Rightarrow> (cpp_type \<times> (cpp_value \<Rightarrow> u64 \<Rightarrow> abi_exn + cpp_value)) list \<Rightarrow>
    cpp_value list \<Rightarrow> u64 \<Rightarrow> abi_exn + cpp_value list" where
  "deserialize_items X data off ((t, des) # items) (old # olds) tupleOffset =
    bindE (if ABIDynamicType t then
             bindE (deserialize_u256 X data (off + tupleOffset)) (\<lambda>dynamicOffset.
               des old (off + u256_to_size X dynamicOffset))
           else des old (off + tupleOffset)) (\<lambda>v.
    bindE (deserialize_items X data off items olds (tupleOffset + word_of_nat (Length t) * 32)) (\<lambda>vs. Inr (v # vs)))"
| "deserialize_items X data off items olds tupleOffset = Inr []"

definition nth_or :: "'a \<Rightarrow> 'a list \<Rightarrow> nat \<Rightarrow> 'a" where
  "nth_or d xs u = (if u < length xs then xs ! u else d)"

text \<open>\<open>deserialize\<close> into a variable that holds \<open>old\<close>; the generic template leaves it as it is. No program
  instantiates it for a type with a \<open>std::vector<bool>\<close> in it, which does not compile.\<close>

fun cpp_deserialize :: "abi_ext \<Rightarrow> bytes \<Rightarrow> cpp_type \<Rightarrow> cpp_value \<Rightarrow> u64 \<Rightarrow> abi_exn + cpp_value" where
  "cpp_deserialize X data CppS256 old off = bindE (deserialize_s256 X data off) (\<lambda>i. Inr (VS256 i))"
| "cpp_deserialize X data CppU256 old off = bindE (deserialize_u256 X data off) (\<lambda>u. Inr (VU256 u))"
| "cpp_deserialize X data CppBool old off = bindE (deserialize_bool X data off) (\<lambda>b. Inr (VBool b))"
| "cpp_deserialize X data CppAddress old off = bindE (deserialize_address X data off) (\<lambda>a. Inr (VAddress a))"
| "cpp_deserialize X data CppString32 old off = bindE (deserialize_string32 X data off) (\<lambda>s. Inr (VString32 s))"
| "cpp_deserialize X data CppString old off = bindE (deserialize_string X data off) (\<lambda>s. Inr (VString s))"
| "cpp_deserialize X data CppBytes old off = bindE (deserialize_bytes X data off) (\<lambda>bs. Inr (VBytes bs))"
| "cpp_deserialize X data CppSmall old off = Inr old"
| "cpp_deserialize X data (CppArray n t) old off =
    bindE (deserialize_loop (\<lambda>u. bindE (element_offset X t data off u)
        (cpp_deserialize X data t (nth_or (cpp_default t) (cpp_elements old) u))) 0 n) (\<lambda>vs. Inr (VArray vs))"
| "cpp_deserialize X data (CppVector t) old off =
    bindE (deserialize_u256 X data off) (\<lambda>len. let off = off + 32 in
    bindE (deserialize_loop (\<lambda>u. bindE (element_offset X t data off u)
        (cpp_deserialize X data t (nth_or (cpp_default t) (cpp_elements old) u))) 0 (unat (u256_to_size X len)))
      (\<lambda>vs. Inr (VVector vs)))"
| "cpp_deserialize X data (CppTuple ts) old off =
    bindE (deserialize_items X data off (map (\<lambda>t. (t, cpp_deserialize X data t)) ts) (cpp_elements old) 0)
      (\<lambda>vs. Inr (VTuple vs))"

text \<open>\<open>abiOut\<close>: the decoded variables, or \<open>None\<close> for the result \<open>false\<close> of any exception.\<close>

primrec abiOutAux :: "abi_ext \<Rightarrow> bytes \<Rightarrow> (cpp_type \<times> cpp_value) list \<Rightarrow> u64 \<Rightarrow> abi_exn + cpp_value list" where
  "abiOutAux X data [] off = Inr []"
| "abiOutAux X data (tv # tvs) off =
    bindE (if ABIDynamicType (fst tv) then
             bindE (deserialize_u256 X data off) (\<lambda>dynamicOffset. Inr (u256_to_size X dynamicOffset))
           else Inr off) (\<lambda>off'.
    bindE (cpp_deserialize X data (fst tv) (snd tv) off') (\<lambda>v.
    bindE (abiOutAux X data tvs (off + word_of_nat (Length (fst tv)) * 32)) (\<lambda>vs. Inr (v # vs))))"

definition abiOut :: "abi_ext \<Rightarrow> bytes \<Rightarrow> (cpp_type \<times> cpp_value) list \<Rightarrow> cpp_value list option" where
  "abiOut X data vars = (case abiOutAux X data vars 0 of Inl _ \<Rightarrow> None | Inr vs \<Rightarrow> Some vs)"

text \<open>\<open>fromHexString\<close> of bcos-utilities is called outside the \<open>try\<close>; it throws on other text.\<close>

definition abiOutHex ::
  "abi_ext \<Rightarrow> (string \<Rightarrow> bytes option) \<Rightarrow> string \<Rightarrow> (cpp_type \<times> cpp_value) list \<Rightarrow> abi_exn + cpp_value list option" where
  "abiOutHex X fromHexString s vars =
    (case fromHexString s of None \<Rightarrow> Inl Bad_hex_character | Some bs \<Rightarrow> Inr (abiOut X bs vars))"

text \<open>
  \<open>abiOutByFuncSelector\<close>: the texts of the values of the named types; \<open>None\<close> is the result
  \<open>false\<close>. It has no \<open>try\<close>.
\<close>

fun abiOutByFuncSelector_loop :: "abi_ext \<Rightarrow> bytes \<Rightarrow> u64 \<Rightarrow> string list \<Rightarrow> string list \<Rightarrow> abi_exn + string list option" where
  "abiOutByFuncSelector_loop X data off [] out = Inr (Some out)"
| "abiOutByFuncSelector_loop X data off (type # types) out =
    (if type = ''int'' \<or> type = ''int256'' then
       bindE (deserialize_s256 X data off) (\<lambda>s. abiOutByFuncSelector_loop X data (off + 32) types (out @ [str10 X s]))
     else if type = ''uint'' \<or> type = ''uint256'' then
       bindE (deserialize_u256 X data off) (\<lambda>u. abiOutByFuncSelector_loop X data (off + 32) types (out @ [str10 X (uint u)]))
     else if type = ''address'' then
       bindE (deserialize_address X data off) (\<lambda>a. abiOutByFuncSelector_loop X data (off + 32) types (out @ [toHexString X a]))
     else if type = ''string'' then
       bindE (deserialize_u256 X data off) (\<lambda>stringOffset.
       bindE (deserialize_string X data (u256_to_size X stringOffset)) (\<lambda>s.
         abiOutByFuncSelector_loop X data (off + 32) types (out @ [s])))
     else Inr None)"

definition abiOutByFuncSelector :: "abi_ext \<Rightarrow> bytes \<Rightarrow> string list \<Rightarrow> abi_exn + string list option" where
  "abiOutByFuncSelector X data allTypes = abiOutByFuncSelector_loop X data 0 allTypes []"

section \<open>Fixed strings\<close>

definition toString32 :: "string \<Rightarrow> bytes" where
  "toString32 s = map (\<lambda>i. if i < length s then bytes_of_string s ! i else 0) [0..<32]"

definition toString32_hash :: "bytes \<Rightarrow> bytes" where
  "toString32_hash h = map (\<lambda>i. h ! i) [0..<32]"

definition fromString32 :: "bytes \<Rightarrow> bytes" where
  "fromString32 s = map (\<lambda>i. s ! i) [0..<32]"

end
