(* ===== verification/LegacyAbiProps.thy ===== *)
theory LegacyAbiProps
  imports LegacyAbi
begin

text \<open>
  The codec over C++ types decodes what it encodes, and where it encodes as the specification of
  the contract ABI says. Types are classified by \<open>cpp_decodable\<close> and \<open>cpp_standard\<close>; the layout of a
  sequence is stated over the parts of \<open>AbiSpec\<close>.
\<close>

section \<open>Values of a type\<close>

fun cpp_typed :: "cpp_type \<Rightarrow> cpp_value \<Rightarrow> bool" where
  "cpp_typed CppS256 v = (case v of VS256 _ \<Rightarrow> True | _ \<Rightarrow> False)"
| "cpp_typed CppU256 v = (case v of VU256 _ \<Rightarrow> True | _ \<Rightarrow> False)"
| "cpp_typed CppBool v = (case v of VBool _ \<Rightarrow> True | _ \<Rightarrow> False)"
| "cpp_typed CppAddress v = (case v of VAddress a \<Rightarrow> length a = 20 | _ \<Rightarrow> False)"
| "cpp_typed CppString32 v = (case v of VString32 s \<Rightarrow> length s = 32 | _ \<Rightarrow> False)"
| "cpp_typed CppString v = (case v of VString _ \<Rightarrow> True | _ \<Rightarrow> False)"
| "cpp_typed CppBytes v = (case v of VBytes _ \<Rightarrow> True | _ \<Rightarrow> False)"
| "cpp_typed CppSmall v = (case v of VSmall _ \<Rightarrow> True | _ \<Rightarrow> False)"
| "cpp_typed (CppArray n t) v =
     (case v of VArray vs \<Rightarrow> length vs = n \<and> (\<forall>x \<in> set vs. cpp_typed t x) | _ \<Rightarrow> False)"
| "cpp_typed (CppVector t) v = (case v of VVector vs \<Rightarrow> (\<forall>x \<in> set vs. cpp_typed t x) | _ \<Rightarrow> False)"
| "cpp_typed (CppTuple ts) v =
     (case v of VTuple vs \<Rightarrow> length ts = length vs \<and> (\<forall>(t, x) \<in> set (zip ts vs). cpp_typed t x) | _ \<Rightarrow> False)"

text \<open>The negative numbers that are decoded as negative.\<close>

fun cpp_in_range :: "cpp_value \<Rightarrow> bool" where
  "cpp_in_range (VS256 i) \<longleftrightarrow> - (7 * 2 ^ 252) \<le> i \<and> i < 2 ^ 255"
| "cpp_in_range (VArray vs) \<longleftrightarrow> (\<forall>v \<in> set vs. cpp_in_range v)"
| "cpp_in_range (VVector vs) \<longleftrightarrow> (\<forall>v \<in> set vs. cpp_in_range v)"
| "cpp_in_range (VTuple vs) \<longleftrightarrow> (\<forall>v \<in> set vs. cpp_in_range v)"
| "cpp_in_range _ \<longleftrightarrow> True"

text \<open>
  The types with a layout: no small integers, no empty arrays, and in a tuple with dynamic items
  every item takes one word of the heads. The types that the specification encodes in the same way
  have a dynamic item in every tuple. Decoding into a \<open>std::vector<bool>\<close> does not compile: its elements
  are proxies, for which the overload for any type is taken, whose \<open>static_assert\<close> fails. The types that can be
  decoded are those with a layout and no such vector in them.
\<close>

fun cpp_sized :: "cpp_type \<Rightarrow> bool" where
  "cpp_sized CppSmall \<longleftrightarrow> False"
| "cpp_sized (CppArray n t) \<longleftrightarrow> 0 < n \<and> cpp_sized t"
| "cpp_sized (CppVector t) \<longleftrightarrow> cpp_sized t"
| "cpp_sized (CppTuple ts) \<longleftrightarrow> (\<forall>t \<in> set ts. cpp_sized t) \<and>
     ((\<forall>t \<in> set ts. \<not> ABIDynamicType t) \<or> (\<forall>t \<in> set ts. Length t = 1))"
| "cpp_sized _ \<longleftrightarrow> True"

fun cpp_standard :: "cpp_type \<Rightarrow> bool" where
  "cpp_standard CppSmall \<longleftrightarrow> False"
| "cpp_standard (CppArray n t) \<longleftrightarrow> 0 < n \<and> cpp_standard t"
| "cpp_standard (CppVector t) \<longleftrightarrow> cpp_standard t"
| "cpp_standard (CppTuple ts) \<longleftrightarrow> (\<forall>t \<in> set ts. cpp_standard t) \<and>
     (\<exists>t \<in> set ts. ABIDynamicType t) \<and> (\<forall>t \<in> set ts. Length t = 1)"
| "cpp_standard _ \<longleftrightarrow> True"

fun has_bool_vector :: "cpp_type \<Rightarrow> bool" where
  "has_bool_vector (CppArray n t) \<longleftrightarrow> has_bool_vector t"
| "has_bool_vector (CppVector t) \<longleftrightarrow> t = CppBool \<or> has_bool_vector t"
| "has_bool_vector (CppTuple ts) \<longleftrightarrow> (\<exists>t \<in> set ts. has_bool_vector t)"
| "has_bool_vector _ \<longleftrightarrow> False"

definition cpp_decodable :: "cpp_type \<Rightarrow> bool" where
  "cpp_decodable t \<longleftrightarrow> cpp_sized t \<and> \<not> has_bool_vector t"

lemma standard_decodable: "cpp_standard t \<Longrightarrow> cpp_sized t"
  by (induction t rule: cpp_standard.induct) auto

lemma ABIDynamicType_simps [simp]:
  "ABIDynamicType CppS256 = False" "ABIDynamicType CppU256 = False" "ABIDynamicType CppBool = False"
  "ABIDynamicType CppAddress = False" "ABIDynamicType CppString32 = False" "ABIDynamicType CppString = True"
  "ABIDynamicType CppBytes = True" "ABIDynamicType CppSmall = False" "ABIDynamicType (CppArray n t) = ABIDynamicType t"
  "ABIDynamicType (CppVector t) = True" "ABIDynamicType (CppTuple ts) = True"
  by (simp_all add: ABIDynamicType_def)

lemma dynamic_Length: "ABIDynamicType t \<Longrightarrow> Length t = 1"
  by (cases t) simp_all

lemma decodable_Length: "cpp_sized t \<Longrightarrow> 0 < Length t"
  by (induction t rule: cpp_sized.induct) simp_all

lemma default_typed: "cpp_typed t (cpp_default t)"
  by (induction t rule: cpp_default.induct) (auto simp: in_set_zip)

lemma nth_or_typed: "\<forall>v \<in> set vs. cpp_typed t v \<Longrightarrow> cpp_typed t (nth_or (cpp_default t) vs u)"
  by (simp add: nth_or_def default_typed)

section \<open>The layout of sequences\<close>

text \<open>Heads and tails of parts, part after part; \<open>q\<close> is the offset of the next tail.\<close>

fun part_heads :: "(bool \<times> bytes) list \<Rightarrow> nat \<Rightarrow> bytes" where
  "part_heads [] q = []"
| "part_heads ((d, out) # ms) q = (if d then be_bytes 32 q else out) @ part_heads ms (if d then q + length out else q)"

lemma part_tails_simps [simp]:
  "part_tails [] = []" "part_tails (m # ms) = (if fst m then snd m else []) @ part_tails ms"
  by (simp_all add: part_tails_def)

lemma part_heads_concat: "part_heads ms q = concat (map (part_head q ms) [0..<length ms])"
proof (induction ms q rule: part_heads.induct)
  case (2 d out ms q)
  have t: "part_head q ((d, out) # ms) (Suc i) = part_head (if d then q + length out else q) ms i" for i
    by (simp add: part_head_def add.assoc)
  have h: "part_head q ((d, out) # ms) 0 = (if d then be_bytes 32 q else out)" by (simp add: part_head_def)
  have "concat (map (part_head q ((d, out) # ms)) [0..<length ((d, out) # ms)]) =
    part_head q ((d, out) # ms) 0 @ concat (map (\<lambda>i. part_head q ((d, out) # ms) (Suc i)) [0..<length ms])"
    by (simp add: upt_conv_Cons map_Suc_upt [symmetric] comp_def del: upt_Suc)
  then show ?case unfolding h t using 2 by (simp cong: if_cong)
qed simp

lemma part_heads_length: "length (part_heads ms q) = sum_list (map part_size ms)"
  by (induction ms q rule: part_heads.induct) (simp_all add: part_size_def)

lemma part_heads_static: "\<forall>m \<in> set ms. \<not> fst m \<Longrightarrow> part_heads ms q = concat (map snd ms)"
  by (induction ms) auto

lemma spec_sequence_heads:
  assumes "(\<exists>m \<in> set ms. fst m) \<Longrightarrow> q = sum_list (map part_size ms)"
  shows "part_heads ms q @ part_tails ms = spec_sequence ms"
proof (cases "\<exists>m \<in> set ms. fst m")
  case True
  then show ?thesis using assms by (simp add: spec_sequence_def part_heads_concat)
next
  case False
  then have "part_heads ms q = part_heads ms (sum_list (map part_size ms))" by (simp add: part_heads_static)
  then show ?thesis by (simp add: spec_sequence_def part_heads_concat)
qed

lemma serialise_u256_bytes: "abi_ext_ok X \<Longrightarrow> serialise_u256 X u = be_bytes 32 (unat u)"
  by (simp add: serialise_u256_def abi_ext_okD(1))

lemma serialise_u256_nat: "abi_ext_ok X \<Longrightarrow> serialise_u256 X (word_of_nat q) = be_bytes 32 q"
  by (simp add: serialise_u256_bytes be_bytes_word)

lemma serialise_items_image:
  "abi_ext_ok X \<Longrightarrow> serialise_items X ms q ob db = ob @ part_heads ms q @ db @ part_tails ms"
  by (induction ms arbitrary: q ob db) (auto simp: serialise_u256_nat)

lemma serialise_loop_image:
  assumes "abi_ext_ok X"
  shows "serialise_loop X d outs q ob [] = ob @ part_heads (map (Pair d) outs) q @ part_tails (map (Pair d) outs)"
proof -
  have "serialise_loop X d outs q ob db =
    (if d then ob @ part_heads (map (Pair d) outs) q @ db @ part_tails (map (Pair d) outs) else ob @ db @ concat outs)" for db
    by (induction outs arbitrary: q ob db) (cases d, simp_all add: serialise_u256_nat [OF assms])+
  moreover have "part_tails (map (Pair False) outs) = []" by (induction outs) simp_all
  ultimately show ?thesis by (simp add: part_heads_static comp_def)
qed

definition cpp_parts :: "abi_ext \<Rightarrow> (cpp_type \<times> cpp_value) list \<Rightarrow> (bool \<times> bytes) list" where
  "cpp_parts X tvs = map (\<lambda>(t, v). (ABIDynamicType t, serialise X t v)) tvs"

lemma cpp_parts_simps [simp]:
  "cpp_parts X [] = []" "cpp_parts X ((t, v) # tvs) = (ABIDynamicType t, serialise X t v) # cpp_parts X tvs"
  "length (cpp_parts X tvs) = length tvs"
  by (simp_all add: cpp_parts_def)

lemma cpp_parts_uniform: "map (Pair (ABIDynamicType t)) (map (serialise X t) vs) = cpp_parts X (map (Pair t) vs)"
  by (simp add: cpp_parts_def)

lemma serialise_composite:
  assumes "abi_ext_ok X"
  shows "serialise X (CppArray n t) (VArray vs) =
      part_heads (cpp_parts X (map (Pair t) vs)) (n * 32) @ part_tails (cpp_parts X (map (Pair t) vs))"
    and "serialise X (CppVector t) (VVector vs) = be_bytes 32 (length vs) @
      part_heads (cpp_parts X (map (Pair t) vs)) (length vs * 32) @ part_tails (cpp_parts X (map (Pair t) vs))"
    and "serialise X (CppTuple ts) (VTuple vs) =
      part_heads (cpp_parts X (zip ts vs)) (length ts * 32) @ part_tails (cpp_parts X (zip ts vs))"
  by (simp_all add: serialise_loop_image [OF assms] cpp_parts_uniform serialise_items_image [OF assms]
      serialise_u256_nat [OF assms] MAX_BYTE_LENGTH_def flip: cpp_parts_def del: map_map)

text \<open>The arguments of a call are encoded like the items of a tuple.\<close>

lemma abiInAux_image:
  assumes "abi_ext_ok X"
  shows "let c' = abiInAux X args c in cs_fixed c' = cs_fixed c @ part_heads (cpp_parts X args) (cs_offset c) \<and>
    cs_dynamic c' = cs_dynamic c @ part_tails (cpp_parts X args)"
proof (induction args arbitrary: c)
  case (Cons a args)
  obtain t v where a: "a = (t, v)" by (cases a)
  show ?case
    using Cons [of "c\<lparr>cs_dynamic := cs_dynamic c @ serialise X t v,
        cs_fixed := cs_fixed c @ serialise_u256 X (word_of_nat (cs_offset c)), cs_offset := cs_offset c + length (serialise X t v)\<rparr>"]
      Cons [of "c\<lparr>cs_fixed := cs_fixed c @ serialise X t v\<rparr>"]
    by (simp add: a Let_def serialise_u256_nat [OF assms])
qed simp

lemma abiIn_image:
  assumes "abi_ext_ok X"
  shows "abiIn X hash [] args = part_heads (cpp_parts X args) (Offset (map fst args) * 32) @ part_tails (cpp_parts X args)"
  using abiInAux_image [OF assms, of args "\<lparr>cs_offset = Offset (map fst args) * 32, cs_fixed = [], cs_dynamic = []\<rparr>"]
  by (simp add: abiIn_def Let_def MAX_BYTE_LENGTH_def)

text \<open>A static value takes as many words as \<open>Length\<close> says.\<close>

lemma serialise_static_length:
  assumes X: "abi_ext_ok X"
  shows "cpp_typed t v \<Longrightarrow> cpp_sized t \<Longrightarrow> \<not> ABIDynamicType t \<Longrightarrow> length (serialise X t v) = 32 * Length t"
proof (induction t arbitrary: v rule: cpp_sized.induct)
  case (2 n t)
  then obtain vs where v: "v = VArray vs" "length vs = n" by (auto split: cpp_value.splits)
  then have "length (concat (map snd (cpp_parts X (map (Pair t) vs)))) = (\<Sum>x\<leftarrow>vs. 32 * Length t)"
    using 2 by (simp add: length_concat cpp_parts_def comp_def cong: map_cong)
  moreover have "part_tails (cpp_parts X (map (Pair t) vs)) = []"
    using 2(4) by (simp add: part_tails_def cpp_parts_def comp_def filter_empty_conv)
  moreover have "part_heads (cpp_parts X (map (Pair t) vs)) (n * 32) = concat (map snd (cpp_parts X (map (Pair t) vs)))"
    using 2(4) by (intro part_heads_static) (auto simp: cpp_parts_def)
  ultimately show ?case using 2(4) unfolding v(1) serialise_composite [OF X]
    by (simp add: sum_list_triv v(2))
qed (auto simp: serialise_s256_def serialise_u256_def serialise_bool_def serialise_address_def abi_ext_okD(1) [OF X]
    split: cpp_value.splits)


lemma part_size_static:
  assumes "abi_ext_ok X" and "cpp_typed t v" and "cpp_sized t"
  shows "part_size (ABIDynamicType t, serialise X t v) = 32 * Length t"
  using serialise_static_length [OF assms] dynamic_Length [of t] by (simp add: part_size_def)

lemma part_sizes:
  assumes "abi_ext_ok X" and "\<forall>(t, v) \<in> set tvs. cpp_typed t v \<and> cpp_sized t"
  shows "sum_list (map part_size (cpp_parts X tvs)) = 32 * Offset (map fst tvs)"
  using assms(2) by (induction tvs) (auto simp: Offset_def part_size_static [OF assms(1)])

section \<open>Decoding\<close>

definition legacy_ext_ok :: "abi_ext \<Rightarrow> bool" where
  "legacy_ext_ok X \<longleftrightarrow> abi_ext_ok X \<and> (\<forall>i. - (2 ^ 255) \<le> i \<and> i < 2 ^ 255 \<longrightarrow> s2u X i = word_of_int i)"

text \<open>The readers of base types are those of the Solidity codec, but for the sign.\<close>

lemma deserialize_base:
  "deserialize_u256 X buf off = des_u256 X buf off" "deserialize_bool X buf off = des_bool X buf off"
  "deserialize_address X buf off = des_address X buf off" "deserialize_bytes X buf off = des_bytes X buf off"
  "deserialize_string X buf off = des_string X buf off"
  by (simp_all add: deserialize_u256_def des_u256_def deserialize_bool_def des_bool_def deserialize_address_def
      des_address_def deserialize_bytes_def des_bytes_def deserialize_string_def des_string_bytes validOffset_def
      verifyBufferOffset_def)

lemma s256_of_word:
  assumes "- (7 * 2 ^ 252) \<le> i" and "i < 2 ^ 255"
  shows "s256_of (word_of_int i) = i"
proof (cases "0 \<le> i")
  case True
  then have "uint (word_of_int i :: u256) = i" using assms(2) by (simp add: unsigned_of_int take_bit_int_eq_self)
  then show ?thesis using assms(2) by (simp add: s256_of_def word_less_alt)
next
  case False
  then have u: "uint (word_of_int i :: u256) = 2 ^ 256 + i"
    using assms(1) mod_pos_pos_trivial [of "2 ^ 256 + i" "2 ^ 256"] by (simp add: unsigned_of_int take_bit_eq_mod)
  have "uint (word_of_int j :: u256) = j" if "0 \<le> j" "j < 2 ^ 256" for j
    using that by (simp add: unsigned_of_int take_bit_int_eq_self)
  from this [of "- i"] have "uint (word_of_int (- i) :: u256) = - i" using False assms(1) by simp
  moreover have "- 1 - word_of_int i + 1 = (word_of_int (- i) :: u256)" by simp
  ultimately have "uint (- 1 - word_of_int i + 1 :: u256) = - i" by (simp only:)
  then show ?thesis using u assms(1) by (simp add: s256_of_def word_less_alt)
qed

definition cpp_decodes :: "abi_ext \<Rightarrow> cpp_type \<Rightarrow> cpp_value \<Rightarrow> bool" where
  "cpp_decodes X t v \<longleftrightarrow> (\<forall>buf p old. length buf < 2 ^ 31 \<longrightarrow> located buf p (serialise X t v) \<longrightarrow>
     cpp_typed t old \<longrightarrow> cpp_deserialize X buf t old (word_of_nat p) = Inr v)"

lemma cpp_decodesD:
  "cpp_decodes X t v \<Longrightarrow> length buf < 2 ^ 31 \<Longrightarrow> located buf p (serialise X t v) \<Longrightarrow> cpp_typed t old \<Longrightarrow>
     cpp_deserialize X buf t old (word_of_nat p) = Inr v"
  by (simp add: cpp_decodes_def)

text \<open>
  Where a loop finds its items: the heads from \<open>cur\<close> on, and the tails at distance \<open>q\<close> from
  the base, when there is a dynamic item.
\<close>

definition cpp_layout :: "bytes \<Rightarrow> nat \<Rightarrow> nat \<Rightarrow> nat \<Rightarrow> (bool \<times> bytes) list \<Rightarrow> bool" where
  "cpp_layout buf base cur q ms \<longleftrightarrow> located buf cur (part_heads ms q) \<and>
     (list_ex fst ms \<longrightarrow> located buf (base + q) (part_tails ms))"

lemma cpp_layoutI:
  assumes "located buf p (part_heads ms q @ part_tails ms)" and "list_ex fst ms \<Longrightarrow> q = sum_list (map part_size ms)"
  shows "cpp_layout buf p p q ms"
  using assms by (simp add: cpp_layout_def located_append part_heads_length)

lemma cpp_layout_next:
  assumes "cpp_layout buf base cur q (m # ms)"
  shows "cpp_layout buf base (cur + part_size m) (if fst m then q + length (snd m) else q) ms"
  using assms by (cases m; cases "fst m") (simp_all add: cpp_layout_def located_append part_size_def add.assoc)

lemma cpp_item:
  assumes X: "abi_ext_ok X" and b: "length buf < 2 ^ 31" and d: "cpp_decodes X t v" and o: "cpp_typed t old"
    and h: "cpp_layout buf base cur q ((ABIDynamicType t, serialise X t v) # ms)"
  shows "ABIDynamicType t \<Longrightarrow> deserialize_u256 X buf (word_of_nat cur) = Inr (word_of_nat q) \<and>
      cpp_deserialize X buf t old (word_of_nat base + u256_to_size X (word_of_nat q)) = Inr v"
    and "\<not> ABIDynamicType t \<Longrightarrow> cpp_deserialize X buf t old (word_of_nat cur) = Inr v"
proof -
  show "\<not> ABIDynamicType t \<Longrightarrow> cpp_deserialize X buf t old (word_of_nat cur) = Inr v"
    using h cpp_decodesD [OF d b _ o] by (simp add: cpp_layout_def located_append)
  assume t: "ABIDynamicType t"
  have l: "located buf cur (ser_u256 X (word_of_nat q))" and l2: "located buf (base + q) (serialise X t v)"
    using h t by (simp_all add: cpp_layout_def located_append ser_u256_def abi_ext_okD(1) [OF X] be_bytes_word)
  have q: "q < 2 ^ 31" using located_length [OF l2] b by simp
  have u: "unat (word_of_nat q :: u256) = q" using q by (intro unat_word_of_nat_id) simp
  have z: "word_of_nat base + u256_to_size X (word_of_nat q) = word_of_nat (base + q)"
    using abi_ext_okD(4) [OF X, of "word_of_nat q", unfolded u] q by simp
  show "deserialize_u256 X buf (word_of_nat cur) = Inr (word_of_nat q) \<and>
      cpp_deserialize X buf t old (word_of_nat base + u256_to_size X (word_of_nat q)) = Inr v"
    unfolding z using des_ser_u256 [OF X l b] cpp_decodesD [OF d b l2 o] by (simp add: deserialize_base)
qed

lemma deserialize_loop_image:
  assumes X: "abi_ext_ok X" and b: "length buf < 2 ^ 31"
    and m: "\<forall>v \<in> set vs. cpp_decodes X t v \<and> cpp_typed t v" and k: "cpp_sized t"
    and o: "\<And>u. cpp_typed t (old u)"
    and h: "cpp_layout buf base (base + 32 * Length t * u) q (cpp_parts X (map (Pair t) vs))"
  shows "deserialize_loop (\<lambda>u. bindE (element_offset X t buf (word_of_nat base) u) (cpp_deserialize X buf t (old u))) u
    (length vs) = Inr vs"
  using m h
proof (induction vs arbitrary: u q)
  case (Cons v vs)
  let ?cur = "base + 32 * Length t * u"
  have d: "cpp_decodes X t v" and l: "cpp_layout buf base ?cur q ((ABIDynamicType t, serialise X t v) # cpp_parts X (map (Pair t) vs))"
    using Cons.prems by simp_all
  note st = cpp_item [OF X b d o l]
  have w: "word_of_nat base + word_of_nat u * word_of_nat (Length t) * 32 = (word_of_nat ?cur :: u64)"
    by (simp add: algebra_simps)
  have "part_size (ABIDynamicType t, serialise X t v) = 32 * Length t"
    using Cons.prems(1) by (intro part_size_static [OF X _ k]) simp
  moreover have "?cur + 32 * Length t = base + 32 * Length t * Suc u" by simp
  ultimately have n: "cpp_layout buf base (base + 32 * Length t * Suc u)
      (if ABIDynamicType t then q + length (serialise X t v) else q) (cpp_parts X (map (Pair t) vs))"
    using cpp_layout_next [OF l] by (simp only: fst_conv snd_conv)
  have "bindE (element_offset X t buf (word_of_nat base) u) (cpp_deserialize X buf t (old u)) = Inr v"
    unfolding element_offset_def Let_def w using st by (cases "ABIDynamicType t") simp_all
  then show ?case using Cons.IH [OF _ n] Cons.prems(1) by simp
qed simp

lemma deserialize_items_image:
  assumes X: "abi_ext_ok X" and b: "length buf < 2 ^ 31"
    and m: "list_all2 (\<lambda>t v. cpp_decodes X t v \<and> cpp_typed t v \<and> cpp_sized t) ts vs"
    and o: "list_all2 cpp_typed ts olds"
    and h: "cpp_layout buf base (base + k) q (cpp_parts X (zip ts vs))"
  shows "deserialize_items X buf (word_of_nat base) (map (\<lambda>t. (t, cpp_deserialize X buf t)) ts) olds (word_of_nat k) = Inr vs"
  using m o h
proof (induction ts vs arbitrary: olds k q rule: list_all2_induct)
  case (Cons t ts v vs)
  obtain old olds' where e: "olds = old # olds'" and o: "cpp_typed t old" and o': "list_all2 cpp_typed ts olds'"
    using Cons.prems(1) by (auto simp: list_all2_Cons1)
  have l: "cpp_layout buf base (base + k) q ((ABIDynamicType t, serialise X t v) # cpp_parts X (zip ts vs))"
    using Cons.prems(2) by simp
  have d: "cpp_decodes X t v" using Cons.hyps by simp
  note st = cpp_item [OF X b d o l]
  have "part_size (ABIDynamicType t, serialise X t v) = 32 * Length t"
    using Cons.hyps by (intro part_size_static [OF X]) simp_all
  then have n: "cpp_layout buf base (base + (k + 32 * Length t))
      (if ABIDynamicType t then q + length (serialise X t v) else q) (cpp_parts X (zip ts vs))"
    using cpp_layout_next [OF l] by (simp only: fst_conv snd_conv add.assoc)
  have w: "word_of_nat base + word_of_nat k = (word_of_nat (base + k) :: u64)"
    "word_of_nat k + word_of_nat (Length t) * 32 = (word_of_nat (k + 32 * Length t) :: u64)"
    by (simp_all add: algebra_simps)
  show ?case unfolding e list.map deserialize_items.simps w Cons.IH [OF o' n]
    using st by (cases "ABIDynamicType t") simp_all
qed simp

lemma legacy_ext_okD:
  assumes "legacy_ext_ok X"
  shows "abi_ext_ok X" and "- (2 ^ 255) \<le> i \<Longrightarrow> i < 2 ^ 255 \<Longrightarrow> s2u X i = word_of_int i"
  using assms by (simp_all add: legacy_ext_ok_def)

lemma decodes_base:
  assumes L: "legacy_ext_ok X"
  shows "cpp_in_range (VS256 i) \<Longrightarrow> cpp_decodes X CppS256 (VS256 i)" and "cpp_decodes X CppU256 (VU256 u)"
    and "cpp_decodes X CppBool (VBool c)" and "length a = 20 \<Longrightarrow> cpp_decodes X CppAddress (VAddress a)"
    and "length s = 32 \<Longrightarrow> cpp_decodes X CppString32 (VString32 s)" and "cpp_decodes X CppString (VString w)"
    and "cpp_decodes X CppBytes (VBytes bs)"
proof -
  note X = legacy_ext_okD(1) [OF L]
  have eq: "serialise_u256 X u = ser_u256 X u" for u by (simp add: serialise_u256_def ser_u256_def)
  show "cpp_decodes X CppU256 (VU256 u)"
    by (simp add: cpp_decodes_def eq deserialize_base des_ser_u256 [OF X])
  show "cpp_decodes X CppS256 (VS256 i)" if i: "cpp_in_range (VS256 i)"
    using i legacy_ext_okD(2) [OF L, of i] s256_of_word [of i]
    by (simp add: cpp_decodes_def serialise_s256_def deserialize_s256_def deserialize_base des_ser_u256 [OF X]
        flip: ser_u256_def)
  show "cpp_decodes X CppBool (VBool c)"
    by (auto simp: cpp_decodes_def serialise_bool_def deserialize_base des_bool_def des_ser_u256 [OF X] word_gt_0
        simp flip: ser_u256_def)
  have sb: "serialise_bytes X bs = ser_bytes X bs" for bs by (simp add: serialise_bytes_def ser_bytes_def)
  show "cpp_decodes X CppBytes (VBytes bs)"
    by (simp add: cpp_decodes_def sb deserialize_base ser_bytes_located [OF X])
  have "serialise_string X w = ser_bytes X (bytes_of_string w)" by (simp add: serialise_string_def ser_bytes_def)
  then show "cpp_decodes X CppString (VString w)"
    by (simp add: cpp_decodes_def deserialize_base des_string_bytes ser_bytes_located [OF X])
  show "cpp_decodes X CppAddress (VAddress a)" if a: "length a = 20"
    unfolding cpp_decodes_def serialise.simps cpp_bytes.simps serialise_address_def
  proof (intro allI impI)
    fix buf p old assume b: "length buf < 2 ^ 31" and l: "located buf p (replicate 12 0 @ a)"
    have p: "p + 32 \<le> length buf" using located_length [OF l] a by simp
    have "located buf (p + 12) a" using l by (simp add: located_append)
    from crop [OF X this b] have "getCroppedData2 X buf (word_of_nat (p + 12)) 20 = a" using a by (simp del: of_nat_add)
    moreover have "(word_of_nat p + 32 - 20 :: u64) = word_of_nat (p + 12)" by simp
    ultimately have "des_address X buf (word_of_nat p) = Inr a"
      unfolding des_address_def verify_31 [OF p b] by (simp del: of_nat_add)
    then show "cpp_deserialize X buf CppAddress old (word_of_nat p) = Inr (VAddress a)" by (simp add: deserialize_base)
  qed
  show "cpp_decodes X CppString32 (VString32 s)" if s: "length s = 32"
    unfolding cpp_decodes_def serialise.simps cpp_bytes.simps
  proof (intro allI impI)
    fix buf p old assume b: "length buf < 2 ^ 31" and l: "located buf p s"
    have "p + 32 \<le> length buf" using located_length [OF l] s by simp
    from verify_31 [OF this b] have v: "validOffset buf (word_of_nat p + 32 - 1) = Inr ()"
      by (simp add: validOffset_def verifyBufferOffset_def)
    show "cpp_deserialize X buf CppString32 old (word_of_nat p) = Inr (VString32 s)"
      using crop [OF X l b] s unfolding cpp_deserialize.simps deserialize_string32_def v by simp
  qed
qed

text \<open>The offsets of the tails of uniform sequences and of tuples.\<close>

lemma uniform_offset:
  assumes "abi_ext_ok X" and "list_ex fst (cpp_parts X (map (Pair t) vs))"
  shows "length vs * 32 = sum_list (map part_size (cpp_parts X (map (Pair t) vs)))"
proof -
  have "ABIDynamicType t" using assms(2) by (auto simp: cpp_parts_def list_ex_iff)
  then show ?thesis by (simp add: cpp_parts_def part_size_def comp_def sum_list_triv)
qed

lemma tuple_offset:
  assumes "abi_ext_ok X" and "\<forall>(t, v) \<in> set (zip ts vs). cpp_typed t v \<and> cpp_sized t" and "length ts = length vs"
    and "(\<forall>t \<in> set ts. \<not> ABIDynamicType t) \<or> (\<forall>t \<in> set ts. Length t = 1)" and "list_ex fst (cpp_parts X (zip ts vs))"
  shows "length ts * 32 = sum_list (map part_size (cpp_parts X (zip ts vs)))"
proof -
  have "\<exists>t \<in> set ts. ABIDynamicType t" using assms(5) by (auto simp: cpp_parts_def list_ex_iff dest: set_zip_leftD)
  then have "\<forall>t \<in> set ts. Length t = 1" using assms(4) by blast
  then have "Offset ts = length ts" unfolding Offset_def using sum_list_const [of ts Length 1] by simp
  then show ?thesis using part_sizes [OF assms(1,2)] assms(3) by simp
qed

lemma decodable_decodes:
  assumes L: "legacy_ext_ok X"
  shows "cpp_typed t v \<Longrightarrow> cpp_sized t \<Longrightarrow> cpp_in_range v \<Longrightarrow> cpp_decodes X t v"
proof (induction t arbitrary: v rule: cpp_sized.induct)
  note X = legacy_ext_okD(1) [OF L]
  case (2 n t)
  then obtain vs where v: "v = VArray vs" "length vs = n" by (auto split: cpp_value.splits)
  have m: "\<forall>v \<in> set vs. cpp_decodes X t v \<and> cpp_typed t v" using 2 v by auto
  show ?case unfolding v(1) cpp_decodes_def serialise_composite [OF X]
  proof (intro allI impI)
    fix buf p old assume b: "length buf < 2 ^ 31" and o: "cpp_typed (CppArray n t) old"
      and l: "located buf p (part_heads (cpp_parts X (map (Pair t) vs)) (n * 32) @ part_tails (cpp_parts X (map (Pair t) vs)))"
    have "cpp_layout buf p (p + 32 * Length t * 0) (n * 32) (cpp_parts X (map (Pair t) vs))"
      using cpp_layoutI [OF l] uniform_offset [OF X, of t vs, unfolded v(2)] by simp
    from deserialize_loop_image [OF X b m _ _ this, where old = "nth_or (cpp_default t) (cpp_elements old)"]
    show "cpp_deserialize X buf (CppArray n t) old (word_of_nat p) = Inr (VArray vs)"
      using 2(3) o v(2) nth_or_typed [of "cpp_elements old" t] by (auto split: cpp_value.splits)
  qed
next
  note X = legacy_ext_okD(1) [OF L]
  case (3 t)
  then obtain vs where v: "v = VVector vs" by (auto split: cpp_value.splits)
  have m: "\<forall>v \<in> set vs. cpp_decodes X t v \<and> cpp_typed t v" using 3 v by auto
  show ?case unfolding v cpp_decodes_def serialise_composite [OF X]
  proof (intro allI impI)
    let ?n = "length vs"
    fix buf p old assume b: "length buf < 2 ^ 31" and o: "cpp_typed (CppVector t) old"
      and l: "located buf p (be_bytes 32 ?n @
        part_heads (cpp_parts X (map (Pair t) vs)) (?n * 32) @ part_tails (cpp_parts X (map (Pair t) vs)))"
    have l1: "located buf p (ser_u256 X (word_of_nat ?n))"
      and l2: "located buf (p + 32) (part_heads (cpp_parts X (map (Pair t) vs)) (?n * 32) @ part_tails (cpp_parts X (map (Pair t) vs)))"
      using l by (simp_all add: located_append ser_u256_def abi_ext_okD(1) [OF X] be_bytes_word)
    have h: "cpp_layout buf (p + 32) (p + 32 + 32 * Length t * 0) (?n * 32) (cpp_parts X (map (Pair t) vs))"
      using cpp_layoutI [OF l2] uniform_offset [OF X, of t vs] by simp
    have "\<forall>(t, v) \<in> set (map (Pair t) vs). cpp_typed t v \<and> cpp_sized t" using m 3(3) by auto
    from part_sizes [OF X this] have "?n \<le> length (part_heads (cpp_parts X (map (Pair t) vs)) (?n * 32))"
      using decodable_Length [of t] 3(3) by (simp add: part_heads_length Offset_def comp_def sum_list_triv)
    then have "?n < 2 ^ 31" using located_length [OF l2] b by simp
    then have s: "unat (u256_to_size X (word_of_nat ?n)) = ?n"
      using abi_ext_okD(4) [OF X, of "word_of_nat ?n"] by (simp add: unat_word_of_nat_id)
    have w: "word_of_nat p + 32 = (word_of_nat (p + 32) :: u64)" by simp
    from deserialize_loop_image [OF X b m _ _ h, where old = "nth_or (cpp_default t) (cpp_elements old)"]
    show "cpp_deserialize X buf (CppVector t) old (word_of_nat p) = Inr (VVector vs)"
      using 3(3) o des_ser_u256 [OF X l1 b] nth_or_typed [of "cpp_elements old" t] unfolding cpp_deserialize.simps w deserialize_base by (auto simp: s split: cpp_value.splits)
  qed
next
  note X = legacy_ext_okD(1) [OF L]
  case (4 ts)
  then obtain vs where v: "v = VTuple vs" "length ts = length vs" by (auto split: cpp_value.splits)
  have z: "\<forall>(t, v) \<in> set (zip ts vs). cpp_decodes X t v \<and> cpp_typed t v \<and> cpp_sized t"
  proof (intro ballI, clarify)
    fix t x assume i: "(t, x) \<in> set (zip ts vs)"
    then have "t \<in> set ts" "x \<in> set vs" by (auto dest: set_zip_leftD set_zip_rightD)
    then have "cpp_typed t x" "cpp_sized t" "cpp_in_range x" using 4(2-4) i unfolding v(1) by auto
    then show "cpp_decodes X t x \<and> cpp_typed t x \<and> cpp_sized t" using 4(1) \<open>t \<in> set ts\<close> by blast
  qed
  then have m: "list_all2 (\<lambda>t v. cpp_decodes X t v \<and> cpp_typed t v \<and> cpp_sized t) ts vs"
    using v(2) by (auto simp: list_all2_iff)
  show ?case unfolding v(1) cpp_decodes_def serialise_composite [OF X]
  proof (intro allI impI)
    fix buf p old assume b: "length buf < 2 ^ 31" and o: "cpp_typed (CppTuple ts) old"
      and l: "located buf p (part_heads (cpp_parts X (zip ts vs)) (length ts * 32) @ part_tails (cpp_parts X (zip ts vs)))"
    have z': "\<forall>(t, v) \<in> set (zip ts vs). cpp_typed t v \<and> cpp_sized t" using z by blast
    have d: "(\<forall>t \<in> set ts. \<not> ABIDynamicType t) \<or> (\<forall>t \<in> set ts. Length t = 1)" using 4(3) by simp
    have h: "cpp_layout buf p (p + 0) (length ts * 32) (cpp_parts X (zip ts vs))"
      unfolding add_0_right by (rule cpp_layoutI [OF l tuple_offset [OF X z' v(2) d]])
    have "list_all2 cpp_typed ts (cpp_elements old)"
      using o by (auto simp: list_all2_iff split: cpp_value.splits)
    from deserialize_items_image [OF X b m this h]
    show "cpp_deserialize X buf (CppTuple ts) old (word_of_nat p) = Inr (VTuple vs)" by simp
  qed
qed (auto simp: decodes_base [OF L] split: cpp_value.splits)

end
