(* ===== verification/LegacyAbiTheorems.thy ===== *)
theory LegacyAbiTheorems
  imports LegacyAbiProps
begin

text \<open>
  What the codec over C++ types computes: the encoding of the specification and of the Solidity
  codec for standard types, its own round trip, and the values and types on which it differs.
\<close>

section \<open>The specified encoding\<close>

text \<open>The ABI value of a C++ value.\<close>

fun sol_value :: "abi_ext \<Rightarrow> cpp_type \<Rightarrow> cpp_value \<Rightarrow> abi_value" where
  "sol_value X CppS256 v = IntV [] (cpp_s256 v) 256"
| "sol_value X CppU256 v = Uint [] (cpp_u256 v) 256"
| "sol_value X CppBool v = Boolean [] (cpp_bool v)"
| "sol_value X CppAddress v = Addr [] (hexPrefixed X (cpp_bytes v))"
| "sol_value X CppString32 v = FixedBytes [] 32 (cpp_bytes v)"
| "sol_value X CppString v = String [] (cpp_string v)"
| "sol_value X CppBytes v = DynamicBytes [] (cpp_bytes v)"
| "sol_value X CppSmall v = Uint [] 0 8"
| "sol_value X (CppArray n t) v = FixedList [] n (map (sol_value X t) (cpp_elements v))"
| "sol_value X (CppVector t) v = DynamicList [] (map (sol_value X t) (cpp_elements v))"
| "sol_value X (CppTuple ts) v = Struct [] (map (\<lambda>(t, v). sol_value X t v) (zip ts (cpp_elements v)))"

abbreviation sol_values :: "abi_ext \<Rightarrow> (cpp_type \<times> cpp_value) list \<Rightarrow> abi_value list" where
  "sol_values X args \<equiv> map (\<lambda>(t, v). sol_value X t v) args"

lemma typed_cases:
  "cpp_typed (CppArray n t) v \<Longrightarrow> \<exists>vs. v = VArray vs \<and> length vs = n \<and> (\<forall>x \<in> set vs. cpp_typed t x)"
  "cpp_typed (CppVector t) v \<Longrightarrow> \<exists>vs. v = VVector vs \<and> (\<forall>x \<in> set vs. cpp_typed t x)"
  "cpp_typed (CppTuple ts) v \<Longrightarrow>
     \<exists>vs. v = VTuple vs \<and> length ts = length vs \<and> (\<forall>(t, x) \<in> set (zip ts vs). cpp_typed t x)"
  by (auto split: cpp_value.splits)

lemma spec_dyn_value:
  "cpp_typed t v \<Longrightarrow> cpp_standard t \<Longrightarrow> spec_dyn (sol_value X t v) = ABIDynamicType t"
proof (induction t arbitrary: v rule: cpp_standard.induct)
  case (2 n t)
  then obtain vs where v: "v = VArray vs" "length vs = n" "\<forall>x \<in> set vs. cpp_typed t x" using typed_cases(1) by blast
  then have "\<forall>x \<in> set vs. spec_dyn (sol_value X t x) = ABIDynamicType t" and "vs \<noteq> []" using 2 by auto
  then show ?case unfolding v(1) by (cases vs) (auto simp: list_ex_iff)
next
  case (4 ts)
  then obtain vs where v: "v = VTuple vs" "length ts = length vs" "\<forall>(t, x) \<in> set (zip ts vs). cpp_typed t x"
    using typed_cases(3) by blast
  obtain i where i: "i < length ts" "ABIDynamicType (ts ! i)" using 4(3) by (auto simp: in_set_conv_nth)
  then have z: "(ts ! i, vs ! i) \<in> set (zip ts vs)" using v(2) by (auto simp: in_set_zip)
  then have "spec_dyn (sol_value X (ts ! i) (vs ! i))"
    using 4(1) [of "ts ! i" "vs ! i"] 4(3) v(3) i by auto
  then show ?case using z unfolding v(1) by (force simp: list_ex_iff)
qed auto

lemma bool_word: "unat (if b then 1 else 0 :: u256) = (if b then 1 else 0)"
  by simp

lemma serialise_spec:
  assumes X: "abi_ext_ok X"
  shows "cpp_typed t v \<Longrightarrow> cpp_standard t \<Longrightarrow> serialise X t v = spec_enc X (sol_value X t v)"
proof (induction t arbitrary: v rule: cpp_standard.induct)
  case (2 n t)
  then obtain vs where v: "v = VArray vs" "length vs = n" "\<forall>x \<in> set vs. cpp_typed t x" using typed_cases(1) by blast
  then have "cpp_parts X (map (Pair t) vs) = spec_parts X (map (sol_value X t) vs)"
    using 2 spec_dyn_value by (simp add: cpp_parts_def)
  then show ?case
    unfolding v(1) serialise_composite [OF X] using uniform_offset [OF X, of t vs] v(2)
    by (subst spec_sequence_heads) (simp_all add: list_ex_iff)
next
  case (3 t)
  then obtain vs where v: "v = VVector vs" "\<forall>x \<in> set vs. cpp_typed t x" using typed_cases(2) by blast
  then have "cpp_parts X (map (Pair t) vs) = spec_parts X (map (sol_value X t) vs)"
    using 3 spec_dyn_value by (simp add: cpp_parts_def)
  then show ?case
    unfolding v(1) serialise_composite [OF X] using uniform_offset [OF X, of t vs]
    by (subst spec_sequence_heads) (simp_all add: list_ex_iff)
next
  case (4 ts)
  then obtain vs where v: "v = VTuple vs" "length ts = length vs" and z: "\<forall>(t, x) \<in> set (zip ts vs). cpp_typed t x"
    using typed_cases(3) by blast
  have "\<forall>(t, x) \<in> set (zip ts vs). cpp_typed t x \<and> cpp_standard t" using z 4(3) by (auto dest: set_zip_leftD)
  then have e: "cpp_parts X (zip ts vs) = spec_parts X (sol_values X (zip ts vs))"
    using 4(1) spec_dyn_value by (fastforce simp: cpp_parts_def dest: set_zip_leftD)
  have d: "\<forall>(t, x) \<in> set (zip ts vs). cpp_typed t x \<and> cpp_sized t"
    using z 4(3) standard_decodable by (auto dest: set_zip_leftD)
  have o: "(\<forall>t \<in> set ts. \<not> ABIDynamicType t) \<or> (\<forall>t \<in> set ts. Length t = 1)" using 4(3) by simp
  show ?case unfolding v(1) serialise_composite [OF X]
    by (subst spec_sequence_heads) (use tuple_offset [OF X d v(2) o] e in \<open>simp_all add: list_ex_iff\<close>)
qed (auto simp: serialise_s256_def serialise_u256_def serialise_bool_def serialise_address_def serialise_bytes_def
    serialise_string_def abi_ext_okD [OF X] bool_word be_bytes_word padding_size padded_def MAX_BYTE_LENGTH_def
    split: cpp_value.splits)

lemma abiIn_spec:
  assumes X: "abi_ext_ok X" and a: "\<forall>(t, v) \<in> set args. cpp_typed t v \<and> cpp_standard t"
  shows "abiIn X hash [] args = spec_enc X (Struct [] (sol_values X args))"
proof -
  have e: "cpp_parts X args = spec_parts X (sol_values X args)"
    using a by (auto simp: cpp_parts_def spec_dyn_value serialise_spec [OF X])
  have "Offset (map fst args) * 32 = sum_list (map part_size (cpp_parts X args))"
    using part_sizes [OF X, of args] a standard_decodable by fastforce
  then show ?thesis unfolding abiIn_image [OF X] by (subst spec_sequence_heads) (simp_all add: e)
qed

section \<open>Agreement with the Solidity codec\<close>

text \<open>The template of a type, as a contract definition provides it: a list has one element.\<close>

fun cpp_template :: "cpp_type \<Rightarrow> cpp_value" where
  "cpp_template (CppArray n t) = VArray (replicate n (cpp_template t))"
| "cpp_template (CppVector t) = VVector [cpp_template t]"
| "cpp_template (CppTuple ts) = VTuple (map cpp_template ts)"
| "cpp_template t = cpp_default t"

lemma template_typed: "cpp_typed t (cpp_template t)"
  by (induction t rule: cpp_template.induct) (auto simp: in_set_zip)

lemma template_checked: "cpp_standard t \<Longrightarrow> abi_checked (sol_value X t (cpp_template t))"
proof (induction t rule: cpp_standard.induct)
  case (4 ts)
  then show ?case by (auto simp: zip_map2 zip_same_conv_map)
qed auto

lemma members_small:
  assumes "length (spec_enc X w) < b" and "w \<in> {FixedList n k vs, DynamicList n vs, Struct n vs}" and "v \<in> set vs"
  shows "length (spec_enc X v) < b"
  using assms part_in_sequence(1) [of "(spec_dyn v, spec_enc X v)" "spec_parts X vs"] by fastforce

lemma vector_small:
  assumes X: "abi_ext_ok X" and w: "\<forall>x \<in> set vs. cpp_typed t x" and k: "cpp_standard t"
    and l: "length (spec_enc X (sol_value X (CppVector t) (VVector vs))) < 2 ^ 31"
  shows "length vs < 2 ^ 31 - 1"
proof -
  have e: "serialise X (CppVector t) (VVector vs) = spec_enc X (sol_value X (CppVector t) (VVector vs))"
    by (rule serialise_spec [OF X]) (use w k in simp_all)
  have "\<forall>(t, v) \<in> set (map (Pair t) vs). cpp_typed t v \<and> cpp_sized t"
    using w k standard_decodable by auto
  from part_sizes [OF X this] have "length vs \<le> length (part_heads (cpp_parts X (map (Pair t) vs)) (length vs * 32))"
    using decodable_Length [OF standard_decodable [OF k]]
    by (simp add: part_heads_length Offset_def comp_def sum_list_triv)
  then show ?thesis using l unfolding e [symmetric] serialise_composite [OF X] by simp
qed

lemma template_matches:
  assumes X: "abi_ext_ok X"
  shows "cpp_typed t w \<Longrightarrow> cpp_standard t \<Longrightarrow> cpp_in_range w \<Longrightarrow> length (spec_enc X (sol_value X t w)) < 2 ^ 31 \<Longrightarrow>
    matches X (sol_value X t (cpp_template t)) (sol_value X t w)"
proof (induction t arbitrary: w rule: cpp_standard.induct)
  case (2 n t)
  then obtain vs where w: "w = VArray vs" "length vs = n" "\<forall>x \<in> set vs. cpp_typed t x" using typed_cases(1) by blast
  have "\<forall>x \<in> set vs. matches X (sol_value X t (cpp_template t)) (sol_value X t x)"
  proof
    fix x assume x: "x \<in> set vs"
    have "length (spec_enc X (sol_value X t x)) < 2 ^ 31"
      using members_small [OF 2(5), of "[]" n "map (sol_value X t) vs"] x w(1) by simp
    then show "matches X (sol_value X t (cpp_template t)) (sol_value X t x)" using 2(1-4) w(1,3) x by simp
  qed
  then show ?case using 2(3) w by (auto intro!: M_fixedList simp: list_all2_conv_all_nth)
next
  case (3 t)
  then obtain vs where w: "w = VVector vs" "\<forall>x \<in> set vs. cpp_typed t x" using typed_cases(2) by blast
  have k: "cpp_standard t" using 3(3) by simp
  have "\<forall>x \<in> set vs. matches X (sol_value X t (cpp_template t)) (sol_value X t x)"
  proof
    fix x assume x: "x \<in> set vs"
    have "length (spec_enc X (sol_value X t x)) < 2 ^ 31"
      using members_small [OF 3(5), of "[]" 0 "map (sol_value X t) vs"] x w(1) by simp
    then show "matches X (sol_value X t (cpp_template t)) (sol_value X t x)" using 3(1-4) w(1,2) x by simp
  qed
  then show ?case
    using vector_small [OF X w(2) k 3(5) [unfolded w(1)]] template_checked [OF k] by (auto intro!: M_list simp: w(1))
next
  case (4 ts)
  then obtain vs where w: "w = VTuple vs" "length ts = length vs" and z: "\<forall>(t, x) \<in> set (zip ts vs). cpp_typed t x"
    using typed_cases(3) by blast
  have m: "matches X (sol_value X (ts ! i) (cpp_template (ts ! i))) (sol_value X (ts ! i) (vs ! i))" if i: "i < length ts" for i
  proof -
    have s: "(ts ! i, vs ! i) \<in> set (zip ts vs)" using i w(2) by (auto simp: in_set_zip)
    have "length (spec_enc X (sol_value X (ts ! i) (vs ! i))) < 2 ^ 31"
      by (rule members_small [OF 4(5), of "[]" 0 "sol_values X (zip ts vs)"]) (use s w(1) in force)+
    moreover have "ts ! i \<in> set ts" "vs ! i \<in> set vs" using i w(2) by simp_all
    ultimately show ?thesis using 4(1-4) s z unfolding w(1) by auto
  qed
  have "list_all2 (matches X) (sol_values X (zip ts (map cpp_template ts))) (sol_values X (zip ts vs))"
    using m w(2) by (simp add: list_all2_conv_all_nth)
  then show ?case using w by (auto intro: M_struct)
qed (auto intro: matches.intros split: cpp_value.splits)

section \<open>Decoding the arguments\<close>

lemma abiOutAux_image:
  assumes X: "abi_ext_ok X" and b: "length buf < 2 ^ 31"
    and m: "list_all2 (\<lambda>t v. cpp_decodes X t v \<and> cpp_typed t v \<and> cpp_sized t) ts vs"
    and o: "list_all2 cpp_typed ts olds"
    and h: "cpp_layout buf 0 k q (cpp_parts X (zip ts vs))"
  shows "abiOutAux X buf (zip ts olds) (word_of_nat k) = Inr vs"
  using m o h
proof (induction ts vs arbitrary: olds k q rule: list_all2_induct)
  case (Cons t ts v vs)
  obtain old olds' where e: "olds = old # olds'" and o: "cpp_typed t old" and o': "list_all2 cpp_typed ts olds'"
    using Cons.prems(1) by (auto simp: list_all2_Cons1)
  have l: "cpp_layout buf 0 k q ((ABIDynamicType t, serialise X t v) # cpp_parts X (zip ts vs))"
    using Cons.prems(2) by simp
  have d: "cpp_decodes X t v" using Cons.hyps by simp
  note st = cpp_item [OF X b d o l]
  have "part_size (ABIDynamicType t, serialise X t v) = 32 * Length t"
    using Cons.hyps by (intro part_size_static [OF X]) simp_all
  then have n: "cpp_layout buf 0 (k + 32 * Length t)
      (if ABIDynamicType t then q + length (serialise X t v) else q) (cpp_parts X (zip ts vs))"
    using cpp_layout_next [OF l] by (simp only: fst_conv snd_conv)
  have w: "word_of_nat k + word_of_nat (Length t) * 32 = (word_of_nat (k + 32 * Length t) :: u64)"
    by (simp add: algebra_simps)
  show ?case unfolding e zip_Cons_Cons abiOutAux.simps fst_conv snd_conv w Cons.IH [OF o' n]
    using st by (cases "ABIDynamicType t") simp_all
qed simp

lemma list_all2_fst_snd: "\<forall>(a, b) \<in> set xs. P a b \<Longrightarrow> list_all2 P (map fst xs) (map snd xs)"
  by (induction xs) auto

definition cpp_args_ok :: "(cpp_type \<times> cpp_value) list \<Rightarrow> bool" where
  "cpp_args_ok args \<longleftrightarrow> (\<forall>(t, v) \<in> set args. cpp_typed t v \<and> cpp_decodable t \<and> cpp_in_range v)"

lemma args_layout:
  assumes X: "abi_ext_ok X" and a: "cpp_args_ok args"
  shows "cpp_layout (abiIn X hash [] args) 0 0 (Offset (map fst args) * 32) (cpp_parts X args)"
proof -
  have "sum_list (map part_size (cpp_parts X args)) = Offset (map fst args) * 32"
    using part_sizes [OF X, of args] a by (fastforce simp: cpp_args_ok_def cpp_decodable_def)
  then show ?thesis
    using located_self [of "[]" _ "[]"] unfolding abiIn_image [OF X] by (intro cpp_layoutI) simp_all
qed

lemma legacy_ext0_ok: "legacy_ext_ok abi_ext0"
  using abi_ext0_ok by (simp add: legacy_ext_ok_def) (simp add: abi_ext0_def)

definition legacy_args :: "(cpp_type \<times> cpp_value) list" where
  "legacy_args =
    [(CppU256, VU256 5), (CppString, VString ''abi''), (CppArray 2 CppS256, VArray [VS256 (- 1), VS256 7]),
     (CppTuple [CppBool, CppBytes], VTuple [VBool True, VBytes [1, 2]])]"

lemma legacy_args_ok: "cpp_args_ok legacy_args" "\<forall>(t, v) \<in> set legacy_args. cpp_typed t v \<and> cpp_standard t"
  by (simp_all add: cpp_args_ok_def cpp_decodable_def legacy_args_def)

lemma legacy_args_size: "length (abiIn abi_ext0 hash [] legacy_args) = 352"
  unfolding abiIn_spec [OF abi_ext0_ok legacy_args_ok(2)]
  by (simp add: legacy_args_def spec_sequence_def part_size_def part_tails_def part_head_def padded_def upt_rec)

text \<open>Claim C27. Decoding the arguments that were encoded gives them back: for every list of
  types that can be decoded (vectors of \<open>bool\<close> cannot), whatever the variables hold before, the round trip is the identity when integers
  are in the range that is decoded and the encoding is shorter than \<open>2 ^ 31\<close> bytes.\<close>

theorem legacy_roundtrip:
  assumes "legacy_ext_ok X" and "cpp_args_ok args" and "list_all2 cpp_typed (map fst args) olds"
    and "length (abiIn X hash [] args) < 2 ^ 31"
  shows "abiOut X (abiIn X hash [] args) (zip (map fst args) olds) = Some (map snd args)"
proof -
  note X = legacy_ext_okD(1) [OF assms(1)]
  have "list_all2 (\<lambda>t v. cpp_decodes X t v \<and> cpp_typed t v \<and> cpp_sized t) (map fst args) (map snd args)"
    using assms(2) decodable_decodes [OF assms(1)] by (intro list_all2_fst_snd) (auto simp: cpp_args_ok_def cpp_decodable_def)
  from abiOutAux_image [OF X assms(4) this assms(3), of 0 "Offset (map fst args) * 32"] args_layout [OF X assms(2), of hash]
  show ?thesis by (simp add: abiOut_def zip_map_fst_snd)
qed

theorem legacy_roundtrip_witness:
  "abiOut abi_ext0 (abiIn abi_ext0 (\<lambda>s. []) [] legacy_args) (zip (map fst legacy_args) (map (cpp_default \<circ> fst) legacy_args)) =
     Some (map snd legacy_args)"
proof (rule legacy_roundtrip [OF legacy_ext0_ok])
  show "list_all2 cpp_typed (map fst legacy_args) (map (cpp_default \<circ> fst) legacy_args)"
    by (simp add: list_all2_map1 list_all2_map2 list_all2_same default_typed)
qed (simp_all add: legacy_args_ok legacy_args_size)

section \<open>The specification and the other codec\<close>

text \<open>Refinement of the contract ABI. For values of standard types, \<open>abiIn\<close> gives the
  encoding the specification gives to the structure of the arguments, of any size, behind the first
  four bytes of the hash when there is a signature.\<close>

lemma legacy_refines_abi:
  assumes "abi_ext_ok X" and "\<forall>(t, v) \<in> set args. cpp_typed t v \<and> cpp_standard t"
  shows "abiIn X hash sig args = (if sig = [] then [] else take 4 (hash sig)) @ spec_enc X (Struct [] (sol_values X args))"
proof -
  have "abiIn X hash sig args = (if sig = [] then [] else take 4 (hash sig)) @ abiIn X hash [] args"
    by (simp add: abiIn_def Let_def)
  then show ?thesis using abiIn_spec [OF assms] by simp
qed

lemma legacy_refines_abi_example:
  "abiIn abi_ext0 (\<lambda>s. [1, 2, 3, 4, 5]) ''f()'' legacy_args =
     [1, 2, 3, 4] @ spec_enc abi_ext0 (Struct [] (sol_values abi_ext0 legacy_args))"
  using legacy_refines_abi [OF abi_ext0_ok legacy_args_ok(2), of "\<lambda>s. [1, 2, 3, 4, 5]" "''f()''"] by simp

text \<open>Claim C26. The two codecs of the SDK agree: what the Solidity codec serializes for the structure of
  the arguments is what \<open>abiIn\<close> gives, and it decodes these bytes, with the template of the types, to
  the same values.\<close>

theorem legacy_agrees_sol:
  assumes "abi_ext_ok X" and "\<forall>(t, v) \<in> set args. cpp_typed t v \<and> cpp_standard t \<and> cpp_in_range v"
    and "length (abiIn X hash [] args) < 2 ^ 31"
  shows "serialize X (Struct [] (sol_values X args)) = Inr (abiIn X hash [] args) \<and>
    deserialize X (Struct [] (map (\<lambda>(t, v). sol_value X t (cpp_template t)) args)) (abiIn X hash [] args) 0 =
      Inr (Struct [] (sol_values X args))"
proof -
  let ?s = "Struct [] (sol_values X args)" and ?t = "Struct [] (map (\<lambda>(t, v). sol_value X t (cpp_template t)) args)"
  have e: "abiIn X hash [] args = spec_enc X ?s" using assms(2) by (intro abiIn_spec [OF assms(1)]) auto
  have "matches X (sol_value X t (cpp_template t)) (sol_value X t v)" if "(t, v) \<in> set args" for t v
  proof (rule template_matches [OF assms(1)])
    have "sol_value X t v \<in> set (sol_values X args)" using that by force
    then show "length (spec_enc X (sol_value X t v)) < 2 ^ 31"
      using members_small [OF assms(3) [unfolded e], of "[]" 0 "sol_values X args"] by simp
  qed (use that assms(2) in auto)
  then have m: "matches X ?t ?s"
    by (intro M_struct) (auto simp: list_all2_map1 list_all2_map2 list_all2_same)
  have s: "enc X ?s = spec_enc X ?s"
    using matches_refines [OF assms(1) m] assms(3) unfolding e refines_def by simp
  have h: "handled X ?t ?s" by (rule matches_handled [OF assms(1) m])
  have "located (enc X ?s) 0 (enc X ?s)" by (simp add: located_def)
  from decodesD(3) [OF handledD(2) [OF h] _ this] serializesD(1) [OF handledD(1) [OF h]] assms(3)
  show ?thesis unfolding e s by simp
qed

theorem legacy_agrees_sol_witness:
  "serialize abi_ext0 (Struct [] (sol_values abi_ext0 legacy_args)) = Inr (abiIn abi_ext0 (\<lambda>s. []) [] legacy_args) \<and>
   deserialize abi_ext0 (Struct [] (map (\<lambda>(t, v). sol_value abi_ext0 t (cpp_template t)) legacy_args))
     (abiIn abi_ext0 (\<lambda>s. []) [] legacy_args) 0 = Inr (Struct [] (sol_values abi_ext0 legacy_args))"
  by (rule legacy_agrees_sol [OF abi_ext0_ok]) (use legacy_args_ok in \<open>auto simp: cpp_args_ok_def cpp_decodable_def legacy_args_size\<close>)

section \<open>Where the codec goes wrong\<close>

text \<open>
  The least integers: the numbers from \<open>- 2 ^ 255\<close> to \<open>- 7 * 2 ^ 252\<close> are encoded as specified and
  decoded as positive numbers.
\<close>

lemma s256_misread:
  assumes "- (2 ^ 255) \<le> i" and "i < - (7 * 2 ^ 252)"
  shows "s256_of (word_of_int i) = i + 2 ^ 256"
proof -
  have "uint (word_of_int i :: u256) = 2 ^ 256 + i"
    using assms mod_pos_pos_trivial [of "2 ^ 256 + i" "2 ^ 256"] by (simp add: unsigned_of_int take_bit_eq_mod)
  then show ?thesis using assms by (simp add: s256_of_def word_less_alt)
qed

lemma legacy_min_int:
  assumes L: "legacy_ext_ok X" and i: "- (2 ^ 255) \<le> i" "i < - (7 * 2 ^ 252)"
  shows "abiOut X (abiIn X hash [] [(CppS256, VS256 i)]) [(CppS256, old)] = Some [VS256 (i + 2 ^ 256)]"
proof -
  note X = legacy_ext_okD(1) [OF L]
  have e: "abiIn X hash [] [(CppS256, VS256 i)] = ser_u256 X (word_of_int i)"
    using legacy_ext_okD(2) [OF L, of i] i by (simp add: abiIn_def Let_def serialise_s256_def ser_u256_def)
  have "located (ser_u256 X (word_of_int i)) 0 (ser_u256 X (word_of_int i))" by (simp add: located_def)
  from des_ser_u256 [OF X this] X have "deserialize_u256 X (ser_u256 X (word_of_int i)) 0 = Inr (word_of_int i)"
    by (simp add: deserialize_base)
  then show ?thesis unfolding e by (simp add: abiOut_def deserialize_s256_def s256_misread [OF i])
qed

text \<open>
  A tuple of static items is static in the specification and dynamic here: two integers in a tuple
  take three words as an argument.
\<close>

lemma legacy_static_tuple:
  assumes "abi_ext_ok X"
  shows "length (abiIn X hash [] [(CppTuple [CppU256, CppU256], VTuple [VU256 a, VU256 b])]) = 96"
    and "length (spec_enc X (Struct [] (sol_values X [(CppTuple [CppU256, CppU256], VTuple [VU256 a, VU256 b])]))) = 64"
  by (simp_all add: abiIn_image [OF assms] Offset_def serialise_u256_def abi_ext_okD(1) [OF assms]
      spec_sequence_def part_size_def part_tails_def part_head_def upt_rec)

text \<open>
  In a tuple with a static array and a dynamic item the offset of the item does not count the words
  of the array: it leads into the heads.
\<close>

lemma legacy_tuple_offset:
  assumes "abi_ext_ok X"
  shows "serialise X (CppTuple [CppArray 2 CppU256, CppString]) (VTuple [VArray [VU256 a, VU256 b], VString s]) =
    be_bytes 32 (unat a) @ be_bytes 32 (unat b) @ be_bytes 32 64 @ serialise_string X s"
  unfolding serialise_composite [OF assms]
  by (simp add: serialise_loop_image [OF assms] serialise_u256_def abi_ext_okD(1) [OF assms])

text \<open>Small integers and pairs are accepted, take a word in the offsets, and are encoded as nothing.\<close>

lemma legacy_small_dropped: "serialise X CppSmall v = [] \<and> Length CppSmall = 1 \<and> cpp_deserialize X data CppSmall old off = Inr old"
  by simp

text \<open>A length near \<open>2 ^ 64\<close> wraps the check of the end of the bytes.\<close>

lemma validOffset_wraps:
  assumes "63 < length buf"
  shows "validOffset buf (word_of_nat 0 + 32 + (2 ^ 64 - 1) - 1) = Inr ()"
  using assms by (simp add: validOffset_def)

section \<open>Decoding by type names\<close>

fun selector_name :: "cpp_type \<Rightarrow> string" where
  "selector_name CppS256 = ''int256''"
| "selector_name CppU256 = ''uint256''"
| "selector_name CppAddress = ''address''"
| "selector_name CppString = ''string''"
| "selector_name t = []"

fun selector_text :: "abi_ext \<Rightarrow> cpp_value \<Rightarrow> string" where
  "selector_text X (VS256 i) = str10 X i"
| "selector_text X (VU256 u) = str10 X (uint u)"
| "selector_text X (VAddress a) = toHexString X a"
| "selector_text X (VString s) = s"
| "selector_text X v = []"

lemma by_selector_step:
  assumes "t \<in> {CppS256, CppU256, CppAddress, CppString}" and "cpp_typed t v"
    and "ABIDynamicType t \<Longrightarrow> deserialize_u256 X buf off = Inr q \<and> cpp_deserialize X buf t (cpp_default t) (u256_to_size X q) = Inr v"
    and "\<not> ABIDynamicType t \<Longrightarrow> cpp_deserialize X buf t (cpp_default t) off = Inr v"
  shows "abiOutByFuncSelector_loop X buf off (selector_name t # names) out =
    abiOutByFuncSelector_loop X buf (off + 32) names (out @ [selector_text X v])"
  using assms by (auto simp: bindE_Inr_iff split: cpp_value.splits)

text \<open>Decoding by the names of types. For arguments of the four types it knows,
  \<open>abiOutByFuncSelector\<close> returns the texts of the values that were encoded, in their order.\<close>

lemma legacy_by_selector:
  assumes "legacy_ext_ok X" and "cpp_args_ok args" and "set (map fst args) \<subseteq> {CppS256, CppU256, CppAddress, CppString}"
    and "length (abiIn X hash [] args) < 2 ^ 31"
  shows "abiOutByFuncSelector X (abiIn X hash [] args) (map (selector_name \<circ> fst) args) =
    Inr (Some (map (selector_text X \<circ> snd) args))"
proof -
  note X = legacy_ext_okD(1) [OF assms(1)]
  let ?buf = "abiIn X hash [] args"
  have "abiOutByFuncSelector_loop X ?buf (word_of_nat k) (map (selector_name \<circ> fst) as) out =
      Inr (Some (out @ map (selector_text X \<circ> snd) as))"
    if "cpp_args_ok as" "set (map fst as) \<subseteq> {CppS256, CppU256, CppAddress, CppString}"
      "cpp_layout ?buf 0 k q (cpp_parts X as)" for as k q out
    using that
  proof (induction as arbitrary: k q out)
    case (Cons a as)
    obtain t v where a: "a = (t, v)" by (cases a)
    have v: "cpp_typed t v" "cpp_sized t" "cpp_in_range v" and t: "t \<in> {CppS256, CppU256, CppAddress, CppString}"
      using Cons.prems(1,2) by (simp_all add: cpp_args_ok_def cpp_decodable_def a)
    have l: "cpp_layout ?buf 0 k q ((ABIDynamicType t, serialise X t v) # cpp_parts X as)" using Cons.prems(3) by (simp add: a)
    have "part_size (ABIDynamicType t, serialise X t v) = 32"
      using t part_size_static [OF X v(1,2)] by auto
    then have n: "cpp_layout ?buf 0 (k + 32) (if ABIDynamicType t then q + length (serialise X t v) else q) (cpp_parts X as)"
      using cpp_layout_next [OF l] by (simp only: fst_conv snd_conv)
    note st = cpp_item [OF X assms(4) decodable_decodes [OF assms(1) v] default_typed l]
    have w: "word_of_nat k + 32 = (word_of_nat (k + 32) :: u64)" by simp
    have "abiOutByFuncSelector_loop X ?buf (word_of_nat k) (selector_name t # map (selector_name \<circ> fst) as) out =
        abiOutByFuncSelector_loop X ?buf (word_of_nat (k + 32)) (map (selector_name \<circ> fst) as) (out @ [selector_text X v])"
      unfolding w [symmetric] by (rule by_selector_step [OF t v(1), where q = "word_of_nat q"]) (use st in simp_all)
    also have "\<dots> = Inr (Some ((out @ [selector_text X v]) @ map (selector_text X \<circ> snd) as))"
      by (rule Cons.IH [OF _ _ n]) (use Cons.prems in \<open>simp_all add: cpp_args_ok_def cpp_decodable_def\<close>)
    finally show ?case by (simp add: a comp_def del: abiOutByFuncSelector_loop.simps)
  qed simp
  from this [OF assms(2,3) args_layout [OF X assms(2)], of "[]"] show ?thesis by (simp add: abiOutByFuncSelector_def)
qed

lemma legacy_by_selector_example:
  "abiOutByFuncSelector abi_ext0 (abiIn abi_ext0 (\<lambda>s. []) [] [(CppString, VString ''ab''), (CppU256, VU256 7)])
     [''string'', ''uint256''] = Inr (Some [''ab'', str10 abi_ext0 7])"
proof -
  let ?args = "[(CppString, VString ''ab''), (CppU256, VU256 7)]"
  have a: "\<forall>(t, v) \<in> set ?args. cpp_typed t v \<and> cpp_standard t" by simp
  have "length (abiIn abi_ext0 (\<lambda>s. []) [] ?args) = 128"
    unfolding abiIn_spec [OF abi_ext0_ok a]
    by (simp add: spec_sequence_def part_size_def part_tails_def part_head_def padded_def upt_rec)
  then show ?thesis
    using legacy_by_selector [OF legacy_ext0_ok, of ?args "\<lambda>s. []"] by (simp add: cpp_args_ok_def cpp_decodable_def)
qed

lemma selector_unknown_type:
  "type \<notin> {''int'', ''int256'', ''uint'', ''uint256'', ''address'', ''string''} \<Longrightarrow>
     abiOutByFuncSelector X data [type] = Inr None"
  by (simp add: abiOutByFuncSelector_def)

lemma map_nth_32: "length s = 32 \<Longrightarrow> map (\<lambda>i. s ! i) [0..<32] = s"
  using map_nth [of s] by simp

lemma string32_roundtrip:
  assumes "length s = 32" shows "toString32_hash (fromString32 s) = s" and "fromString32 (toString32_hash s) = s"
  using assms by (simp_all add: toString32_hash_def fromString32_def map_nth_32)

end
