(* ===== verification/LegacySignature.thy ===== *)
theory LegacySignature
  imports AbiCallTheorems
begin

text \<open>
  The parser of type names and signatures beside the codec over C++ types
  (\<open>utilities/abi/solidity/ContractABIType.{h,cpp}\<close>), and its agreement with the reader of type names
  of contract definitions. Only blanks are trimmed here; \<open>boost::split\<close> at commas is the parameter
  \<open>split_commas\<close>.
\<close>

section \<open>Type names\<close>

datatype ABI_ELEMENTARY_TYPE =
  AET_INVALID | AET_BOOL | AET_INT | AET_UINT | AET_BYTESN | AET_ADDR | AET_BYTES | AET_STRING | AET_FIXED | AET_UNFIXED

record abi_in_type =
  aet :: ABI_ELEMENTARY_TYPE
  strEleType :: string
  strType :: string
  extents :: "nat list"

definition ABIInType_new :: abi_in_type where
  "ABIInType_new = \<lparr>aet = AET_INVALID, strEleType = [], strType = [], extents = []\<rparr>"

definition setUint :: "string set" where
  "setUint = set [
    ''uint'', ''uint8'', ''uint16'', ''uint24'', ''uint32'', ''uint40'', ''uint48'', ''uint56'', ''uint64'',
    ''uint72'', ''uint80'', ''uint88'', ''uint96'', ''uint104'', ''uint112'', ''uint120'', ''uint128'',
    ''uint136'', ''uint144'', ''uint152'', ''uint160'', ''uint168'', ''uint176'', ''uint184'', ''uint192'',
    ''uint200'', ''uint208'', ''uint216'', ''uint224'', ''uint232'', ''uint240'', ''uint248'', ''uint256'']"

definition setInt :: "string set" where
  "setInt = set [
    ''int'', ''int8'', ''int16'', ''int24'', ''int32'', ''int40'', ''int48'', ''int56'', ''int64'', ''int72'',
    ''int80'', ''int88'', ''int96'', ''int104'', ''int112'', ''int120'', ''int128'', ''int136'', ''int144'',
    ''int152'', ''int160'', ''int168'', ''int176'', ''int184'', ''int192'', ''int200'', ''int208'', ''int216'',
    ''int224'', ''int232'', ''int240'', ''int248'', ''int256'']"

definition setByteN :: "string set" where
  "setByteN = set [
    ''bytes1'', ''bytes2'', ''bytes3'', ''bytes4'', ''bytes5'', ''bytes6'', ''bytes7'', ''bytes8'', ''bytes9'',
    ''bytes10'', ''bytes11'', ''bytes12'', ''bytes13'', ''bytes14'', ''bytes15'', ''bytes16'', ''bytes17'',
    ''bytes18'', ''bytes19'', ''bytes20'', ''bytes21'', ''bytes22'', ''bytes23'', ''bytes24'', ''bytes25'',
    ''bytes26'', ''bytes27'', ''bytes28'', ''bytes29'', ''bytes30'', ''bytes31'', ''bytes32'']"

definition trim_blanks :: "string \<Rightarrow> string" where
  "trim_blanks s = rev (dropWhile (\<lambda>c. c = CHR '' '') (rev (dropWhile (\<lambda>c. c = CHR '' '') s)))"

definition getEnumType :: "string \<Rightarrow> ABI_ELEMENTARY_TYPE" where
  "getEnumType s =
    (if s = ''bool'' then AET_BOOL
     else if s = ''address'' then AET_ADDR
     else if s = ''string'' then AET_STRING
     else if s = ''bytes'' then AET_BYTES
     else if s \<in> setUint then AET_UINT
     else if s \<in> setInt then AET_INT
     else if s \<in> setByteN then AET_BYTESN
     else AET_INVALID)"

definition ABIInType_clear :: "abi_in_type \<Rightarrow> abi_in_type" where
  "ABIInType_clear a = a\<lparr>aet := AET_INVALID, strEleType := [], strType := [], extents := []\<rparr>"

text \<open>\<open>strtoul\<close> on a text of digits: the largest value when it is out of range.\<close>

definition strtoul :: "string \<Rightarrow> nat" where
  "strtoul s = nat (min (digits_value s) (2 ^ 64 - 1))"

text \<open>The loop over the brackets; \<open>None\<close> is an invalid format.\<close>

function bracket_loop :: "string \<Rightarrow> nat \<Rightarrow> nat list option" where
  "bracket_loop ty leftBracketBak =
     (if leftBracketBak < length ty then
        (case (find_from (CHR ''['') leftBracketBak ty, find_from (CHR '']'') leftBracketBak ty) of
           (Some leftBracket, Some rightBracket) \<Rightarrow>
             if leftBracket \<ge> rightBracket then None
             else
               let digit = trim_blanks (take (rightBracket - leftBracket - 1) (drop (leftBracket + 1) ty))
               in if \<not> list_all isdigit digit then None
                  else (case bracket_loop ty (rightBracket + 1) of
                          None \<Rightarrow> None
                        | Some es \<Rightarrow> Some ((if digit = [] then 0 else strtoul digit) # es))
         | _ \<Rightarrow> None)
      else Some [])"
  by pat_completeness auto
termination
  by (relation "measure (\<lambda>(s, l). length s - l)") (auto dest!: find_from_bounds [OF sym])

declare bracket_loop.simps [simp del]

definition ABIInType_reset :: "string \<Rightarrow> abi_in_type \<Rightarrow> bool \<times> abi_in_type" where
  "ABIInType_reset s a =
    (let a = ABIInType_clear a; ty = trim_blanks s; firstLeftBracket = find_from (CHR ''['') 0 ty;
         ele = trim_blanks (case firstLeftBracket of None \<Rightarrow> ty | Some p \<Rightarrow> take p ty); t = getEnumType ele
     in if t = AET_INVALID then (False, a)
        else (case (case firstLeftBracket of None \<Rightarrow> Some [] | Some p \<Rightarrow> bracket_loop ty p) of
                None \<Rightarrow> (False, a)
              | Some r \<Rightarrow> (True, a\<lparr>aet := t, extents := r, strType := ty, strEleType := ele\<rparr>)))"

definition in_rank :: "abi_in_type \<Rightarrow> nat" where
  "in_rank a = length (extents a)"

definition in_extent :: "nat \<Rightarrow> abi_in_type \<Rightarrow> nat" where
  "in_extent index a = (if index > in_rank a then 0 else extents a ! (index - 1))"

definition in_dynamic :: "abi_in_type \<Rightarrow> bool" where
  "in_dynamic a = (if aet a = AET_STRING \<or> aet a = AET_BYTES then True
     else list_ex (\<lambda>i. in_extent (i + 1) a = 0) [0..<in_rank a])"

definition in_removeExtent :: "abi_in_type \<Rightarrow> bool \<times> abi_in_type" where
  "in_removeExtent a = (if in_rank a > 0 then (True, a\<lparr>extents := take (in_rank a - 1) (extents a)\<rparr>) else (False, a))"

definition in_valid :: "abi_in_type \<Rightarrow> bool" where
  "in_valid a \<longleftrightarrow> aet a \<noteq> AET_INVALID"

section \<open>Signatures\<close>

record abi_func =
  strFuncName :: string
  strFuncSignature :: string
  allParamsType :: "abi_in_type list"

text \<open>
  The loop over the parameters: the type object is used for all of them, and the parameters are
  appended to those the function object has, also when a later one is invalid.
\<close>

fun parser_loop :: "string list \<Rightarrow> abi_in_type \<Rightarrow> string \<Rightarrow> abi_in_type list \<Rightarrow> string option \<times> abi_in_type list" where
  "parser_loop [] at sig params = (Some sig, params)"
| "parser_loop (ty # types) at sig params =
    (let ty = trim_blanks ty in
     if ty \<noteq> [] then
       (case ABIInType_reset ty at of
          (ok, at) \<Rightarrow> if \<not> ok then (None, params)
                     else parser_loop types at (sig @ ty @ '','') (params @ [at]))
     else parser_loop types at sig params)"

definition ABIFunc_parser :: "boost_text \<Rightarrow> string \<Rightarrow> abi_func \<Rightarrow> bool \<times> abi_func" where
  "ABIFunc_parser B sig f =
    (case (find_from (CHR ''('') 0 sig, find_from (CHR '')'') 0 sig) of
       (Some i0, Some i1) \<Rightarrow>
         if i1 \<le> i0 then (False, f)
         else
           let name = trim_blanks (take i0 sig); strTypes = take (i1 - i0 - 1) (drop (i0 + 1) sig)
           in (case parser_loop (split_commas B strTypes) ABIInType_new (name @ ''('') (allParamsType f) of
                 (None, ps) \<Rightarrow> (False, f\<lparr>allParamsType := ps\<rparr>)
               | (Some s, ps) \<Rightarrow>
                   (True, f\<lparr>strFuncName := name, allParamsType := ps,
                     strFuncSignature := (if List.last s = CHR '','' then butlast s @ '')'' else s @ '')'')\<rparr>))
     | _ \<Rightarrow> (False, f))"

definition getParamsType :: "abi_func \<Rightarrow> string list" where
  "getParamsType f = map strType (allParamsType f)"

section \<open>Reading type names\<close>

lemma trim_blanks_trimmed: "trimmed s \<Longrightarrow> trim_blanks s = s"
proof (cases s rule: rev_cases)
  case (snoc xs c)
  assume t: "trimmed s"
  have b: "isspace (CHR '' '')" by (simp add: isspace_def)
  have "dropWhile (\<lambda>c. c = CHR '' '') s = s" using t b by (cases s) (auto simp: trimmed_def)
  then show ?thesis using t b snoc by (auto simp: trim_blanks_def trimmed_def)
qed (simp add: trim_blanks_def)

lemma no_space_trimmed: "\<forall>c \<in> set s. \<not> isspace c \<Longrightarrow> trimmed s"
  by (cases s) (auto simp: trimmed_def)

definition elementary :: "string \<Rightarrow> bool" where
  "elementary s \<longleftrightarrow> getEnumType s \<noteq> AET_INVALID"

lemma no_space_part: "set x \<subseteq> set s \<Longrightarrow> \<forall>c \<in> set s. \<not> isspace c \<Longrightarrow> trimmed x"
  by (rule no_space_trimmed) blast

text \<open>Names without the characters that the parsers look for.\<close>

definition plain_name :: "string \<Rightarrow> bool" where
  "plain_name s \<longleftrightarrow> s \<noteq> [] \<and> (\<forall>c \<in> set s. \<not> isspace c \<and> c \<notin> {CHR ''['', CHR '']'', CHR '','', CHR ''('', CHR '')''})"

lemma sets_plain: "\<forall>s \<in> setUint. plain_name s" "\<forall>s \<in> setInt. plain_name s" "\<forall>s \<in> setByteN. plain_name s"
  by code_simp+

lemma elementary_plain:
  assumes "elementary s"
  shows "plain_name s"
proof -
  have "plain_name ''bool''" "plain_name ''address''" "plain_name ''string''" "plain_name ''bytes''"
    by (simp_all add: plain_name_def isspace_def)
  moreover have "s = ''bool'' \<or> s = ''address'' \<or> s = ''string'' \<or> s = ''bytes'' \<or> s \<in> setUint \<or> s \<in> setInt \<or> s \<in> setByteN"
    using assms unfolding elementary_def getEnumType_def by (simp split: if_splits)
  ultimately show ?thesis using sets_plain by (elim disjE) (simp_all only:)
qed

lemma plain_nameD:
  assumes "plain_name s"
  shows "s \<noteq> []" and "trimmed s" and "CHR ''['' \<notin> set s" and "CHR '','' \<notin> set s" and "CHR ''('' \<notin> set s"
    and "CHR '')'' \<notin> set s"
  using assms no_space_trimmed [of s] by (auto simp: plain_name_def)

lemma strtoul_decimal: "e < 2 ^ 64 \<Longrightarrow> strtoul (decimal e) = e"
  by (simp add: strtoul_def digits_value_decimal)

lemma bracket_loop_text:
  assumes es: "\<forall>e \<in> set es. e < 2 ^ 64"
  shows "bracket_loop (pre @ concat (map extent_text es)) (length pre) = Some es"
  using es
proof (induction es arbitrary: pre)
  case Nil
  show ?case by (subst bracket_loop.simps) simp
next
  case (Cons e es)
  let ?d = "if e = 0 then [] else decimal e" and ?rest = "concat (map extent_text es)"
  let ?s = "pre @ concat (map extent_text (e # es))"
  have s: "?s = pre @ CHR ''['' # ?d @ CHR '']'' # ?rest" by (simp add: extent_text_def)
  have le: "length (extent_text e) = Suc (Suc (length ?d))" by (simp add: extent_text_def)
  have nd: "CHR '']'' \<notin> set ?d" using decimal_digits [of e] by (auto simp: list_all_iff dest: digit_char)
  have l: "find_from (CHR ''['') (length pre) ?s = Some (length pre)"
    unfolding s using find_from_append [of "CHR ''[''" "[]" pre] by simp
  have r: "find_from (CHR '']'') (length pre) ?s = Some (length pre + Suc (length ?d))"
    unfolding s using find_from_append [of "CHR '']''" "CHR ''['' # ?d" pre] nd by simp
  have t: "trim_blanks ?d = ?d" using trim_blanks_trimmed trimmed_decimal by (simp add: trimmed_def)
  have v: "(if ?d = [] then 0 else strtoul ?d) = e" and g: "list_all isdigit ?d"
    using Cons.prems decimal_digits [of e] strtoul_decimal [of e] by simp_all
  have n: "bracket_loop ?s (length pre + Suc (length ?d) + 1) = Some es"
    using Cons.IH [of "pre @ extent_text e"] Cons.prems by (simp add: le)
  have k: "take (length ?d) (drop (length pre + 1) ?s) = ?d" unfolding s by simp
  show ?case
    using l r t v g n k by (subst bracket_loop.simps) (simp, simp add: extent_text_def)
qed

lemma type_text_trimmed:
  assumes "base \<noteq> []" and "trimmed base"
  shows "trimmed (type_text base es)"
proof (cases es rule: rev_cases)
  case (snoc es' e)
  then show ?thesis using assms by (simp add: type_text_def trimmed_def extent_text_def isspace_def)
qed (use assms in \<open>simp add: type_text_def\<close>)

lemma ABIInType_reset_text:
  assumes b: "elementary base" and es: "\<forall>e \<in> set es. e < 2 ^ 64"
  shows "ABIInType_reset (type_text base es) a =
    (True, a\<lparr>aet := getEnumType base, extents := es, strType := type_text base es, strEleType := base\<rparr>)"
proof -
  note c = plain_nameD [OF elementary_plain [OF b]]
  have t: "trim_blanks (type_text base es) = type_text base es" "trim_blanks base = base"
    using type_text_trimmed [OF c(1,2)] c(2) by (simp_all add: trim_blanks_trimmed)
  have f: "find_from (CHR ''['') 0 (type_text base es) = (if es = [] then None else Some (length base))"
  proof (cases es)
    case Nil
    have "takeWhile (\<lambda>d. d \<noteq> CHR ''['') base = base" using c(3) by (auto simp: takeWhile_eq_all_conv)
    then have "find_from (CHR ''['') 0 base = None" unfolding find_from_def drop_0 by (simp only:) simp
    then show ?thesis by (simp add: Nil type_text_def)
  next
    case (Cons e es')
    then have "\<exists>ys. concat (map extent_text es) = CHR ''['' # ys" by (simp add: extent_text_def)
    then show ?thesis using find_from_append [of "CHR ''[''" base "[]"] c(3) Cons by (auto simp: type_text_def)
  qed
  have e: "getEnumType base \<noteq> AET_INVALID" using b by (simp add: elementary_def)
  have l: "bracket_loop (type_text base es) (length base) = Some es"
    using bracket_loop_text [OF es, of base] by (simp add: type_text_def)
  have k: "take (length base) (type_text base es) = base" by (simp add: type_text_def)
  show ?thesis
  proof (cases "es = []")
    case True
    then show ?thesis using t f e by (simp add: ABIInType_reset_def ABIInType_clear_def type_text_def)
  next
    case False
    then show ?thesis using t f e l k by (simp add: ABIInType_reset_def ABIInType_clear_def)
  qed
qed

section \<open>Agreement with the reader of type names of definitions\<close>

lemma digits_value_nonneg: "list_all isdigit s \<Longrightarrow> 0 \<le> digits_value s"
proof -
  have "0 \<le> foldl (\<lambda>v c. 10 * v + (int (of_char c) - 48)) v s" if "list_all isdigit s" "0 \<le> v" for v
    using that by (induction s arbitrary: v) (simp_all add: isdigit_def)
  then show "list_all isdigit s \<Longrightarrow> 0 \<le> digits_value s" by (simp add: digits_value_def)
qed

lemma stoi_strtoul:
  assumes d: "list_all isdigit s" "s \<noteq> []"
  shows "stoi s = (if strtoul s < 2 ^ 31 then Some (int (strtoul s)) else None)"
proof -
  obtain c cs where c: "s = c # cs" using d(2) by (cases s) simp_all
  then have i: "isdigit c" using d(1) by simp
  have tw: "takeWhile isdigit s = s" using d(1) by (simp add: list_all_iff)
  have "stoi_digits 1 s = (if strtoul s < 2 ^ 31 then Some (int (strtoul s)) else None)"
    unfolding stoi_digits_def Let_def tw using d(2) digits_value_nonneg [OF d(1)]
    by (auto simp: strtoul_def min_def nat_less_iff)
  then show ?thesis using digit_char [OF i] by (simp add: stoi_def c)
qed

text \<open>\<open>boost::trim\<close> removes the white space around a text that has none at its ends.\<close>

definition trims :: "boost_text \<Rightarrow> bool" where
  "trims B \<longleftrightarrow> (\<forall>xs t ys. list_all isspace xs \<and> trimmed t \<and> list_all isspace ys \<longrightarrow> trim B (xs @ t @ ys) = t)"

lemma trim0_spaces: "\<forall>c \<in> set w. isspace c \<Longrightarrow> trim0 w = []"
  by (auto simp: trim0_def dest: set_dropWhileD)

lemma boost0_trims: "trims boost0"
proof -
  have "trim0 (xs @ t @ ys) = t" if "list_all isspace xs" "trimmed t" "list_all isspace ys" for xs t ys
  proof (cases "t = []")
    case True
    then show ?thesis using that trim0_spaces [of "xs @ ys"] by (auto simp: list_all_iff)
  next
    case False
    then have "dropWhile isspace (xs @ t @ ys) = t @ ys"
      using that by (cases t) (simp_all add: list_all_iff trimmed_def dropWhile_append)
    moreover have "dropWhile isspace (rev (t @ ys)) = rev t"
      using that False by (cases t rule: rev_cases) (simp_all add: list_all_iff trimmed_def dropWhile_append)
    ultimately show ?thesis by (simp add: trim0_def)
  qed
  then show ?thesis by (simp add: trims_def boost0_def)
qed

lemma trim_blanks_parts:
  obtains xs ys where "s = xs @ trim_blanks s @ ys" and "\<forall>c \<in> set xs. c = CHR '' ''" and "\<forall>c \<in> set ys. c = CHR '' ''"
proof -
  let ?P = "\<lambda>c. c = CHR '' ''" and ?d = "dropWhile (\<lambda>c. c = CHR '' '') s"
  have "s = takeWhile ?P s @ ?d" by simp
  moreover have "?d = trim_blanks s @ rev (takeWhile ?P (rev ?d))"
    unfolding trim_blanks_def by (metis rev_append rev_rev_ident takeWhile_dropWhile_id)
  ultimately have "s = takeWhile ?P s @ trim_blanks s @ rev (takeWhile ?P (rev ?d))" by simp
  then show ?thesis by (rule that) (auto dest: set_takeWhileD)
qed

lemma trims_blanks:
  assumes "trims B" and "trimmed (trim_blanks s)"
  shows "trim B s = trim_blanks s"
proof -
  obtain xs ys where s: "s = xs @ trim_blanks s @ ys" and "\<forall>c \<in> set xs. c = CHR '' ''" and "\<forall>c \<in> set ys. c = CHR '' ''"
    by (rule trim_blanks_parts)
  then have "list_all isspace xs" "list_all isspace ys" by (auto simp: list_all_iff isspace_def)
  then show ?thesis using assms s unfolding trims_def by metis
qed

lemma trim_blanks_ends: "trim_blanks s \<noteq> [] \<Longrightarrow> hd (trim_blanks s) \<noteq> CHR '' '' \<and> List.last (trim_blanks s) \<noteq> CHR '' ''"
proof -
  let ?P = "\<lambda>c. c = CHR '' ''" and ?d = "dropWhile (\<lambda>c. c = CHR '' '') s"
  assume n: "trim_blanks s \<noteq> []"
  then have "dropWhile ?P (rev ?d) \<noteq> []" by (simp add: trim_blanks_def)
  then have "hd (dropWhile ?P (rev ?d)) \<noteq> CHR '' ''" by (rule hd_dropWhile)
  then have l: "List.last (trim_blanks s) \<noteq> CHR '' ''" by (simp add: trim_blanks_def last_rev)
  have "?d = trim_blanks s @ rev (takeWhile ?P (rev ?d))"
    unfolding trim_blanks_def by (metis rev_append rev_rev_ident takeWhile_dropWhile_id)
  then have "hd (trim_blanks s) = hd ?d" "?d \<noteq> []" using n by (metis hd_append2, metis Nil_is_append_conv)
  then show ?thesis using l hd_dropWhile [of ?P s] by simp
qed

lemma find_from_nth: "find_from c p s = Some q \<Longrightarrow> s ! q = c"
proof -
  assume f: "find_from c p s = Some q"
  let ?n = "length (takeWhile (\<lambda>d. d \<noteq> c) (drop p s))"
  have q: "q = p + ?n" "q < length s" using f by (auto simp: find_from_def Let_def split: if_splits)
  then have "?n < length (drop p s)" by simp
  from nth_length_takeWhile [OF this] show ?thesis using q by simp
qed

lemma bracket_loop_last: "bracket_loop ty p = Some es \<Longrightarrow> p < length ty \<Longrightarrow> List.last ty = CHR '']''"
proof (induction ty p arbitrary: es rule: bracket_loop.induct)
  case (1 ty p)
  from "1.prems" obtain l r where f: "find_from (CHR ''['') p ty = Some l" "find_from (CHR '']'') p ty = Some r"
    by (subst (asm) bracket_loop.simps) (auto split: option.splits)
  from "1.prems" f obtain es' where lr: "\<not> l \<ge> r" and d: "list_all isdigit (trim_blanks (take (r - l - 1) (drop (l + 1) ty)))"
    and n: "bracket_loop ty (r + 1) = Some es'"
    by (subst (asm) bracket_loop.simps) (simp add: Let_def split: if_splits option.splits)
  have r: "r < length ty" "ty ! r = CHR '']''" using find_from_bounds [OF f(2)] find_from_nth [OF f(2)] by simp_all
  show ?case
  proof (cases "r + 1 < length ty")
    case True
    then show ?thesis using "1.IH" [OF "1.prems"(2) refl f lr refl _ n] d by simp
  next
    case False
    then have "r = length ty - 1" using r(1) by simp
    then show ?thesis using r by (cases "ty = []") (simp_all add: last_conv_nth)
  qed
qed

definition too_large :: "nat list \<Rightarrow> bool" where
  "too_large es \<longleftrightarrow> (\<exists>e \<in> set es. e \<ge> 2 ^ 31)"

lemma reset_loop_step:
  assumes "p < length ty" and "find_from (CHR ''['') p ty = Some l" and "find_from (CHR '']'') p ty = Some r"
    and "\<not> l \<ge> r" and "trim B (take (r - l - 1) (drop (l + 1) ty)) = d"
  shows "reset_loop B ty p =
    bindE (if d = [] then Inr 0 else case stoi d of None \<Rightarrow> Inl Runtime_error | Some i \<Rightarrow> Inr (to_size i))
      (\<lambda>e. bindE (reset_loop B ty (r + 1)) (\<lambda>es. Inr (e # es)))"
  using assms by (subst reset_loop.simps) (simp add: Let_def)

lemma bracket_loop_reset:
  assumes B: "trims B"
  shows "bracket_loop ty p = Some es \<Longrightarrow> reset_loop B ty p = (if too_large es then Inl Runtime_error else Inr es)"
proof (induction ty p arbitrary: es rule: bracket_loop.induct)
  case (1 ty p)
  show ?case
  proof (cases "p < length ty")
    case False
    then show ?thesis using "1.prems" by (subst reset_loop.simps) (simp add: bracket_loop.simps too_large_def)
  next
    case True
    from "1.prems" True obtain l r where f: "find_from (CHR ''['') p ty = Some l" "find_from (CHR '']'') p ty = Some r"
      by (subst (asm) bracket_loop.simps) (auto split: option.splits)
    let ?raw = "take (r - l - 1) (drop (l + 1) ty)"
    let ?d = "trim_blanks ?raw"
    from "1.prems" True f obtain es' where lr: "\<not> l \<ge> r" and d: "list_all isdigit ?d"
      and n: "bracket_loop ty (r + 1) = Some es'" and es: "es = (if ?d = [] then 0 else strtoul ?d) # es'"
      by (subst (asm) bracket_loop.simps) (simp add: Let_def split: if_splits option.splits)
    have "trimmed ?d" using d by (intro no_space_trimmed) (auto simp: list_all_iff dest: digit_char)
    then have t: "trim B ?raw = ?d" by (rule trims_blanks [OF B])
    have rest: "reset_loop B ty (r + 1) = (if too_large es' then Inl Runtime_error else Inr es')"
      using "1.IH" [OF True refl f lr refl _ n] d by simp
    let ?e = "if ?d = [] then 0 else strtoul ?d"
    have v: "(if ?d = [] then Inr 0 else case stoi ?d of None \<Rightarrow> Inl Runtime_error | Some i \<Rightarrow> Inr (to_size i)) =
        (if ?e \<ge> 2 ^ 31 then Inl Runtime_error else Inr ?e :: abi_exn + nat)"
      using stoi_strtoul [OF d] by (cases "?d = []") (simp_all add: to_size_nat)
    show ?thesis unfolding es reset_loop_step [OF True f lr t] rest v by (simp add: too_large_def)
  qed
qed

text \<open>Claim C39. What the helper of contract definitions makes of a name that \<open>ABIInType\<close> accepts. It throws exactly
  when a dimension is \<open>2 ^ 31\<close> or more; otherwise it reads the same text with the same dimensions, and its base type is
  the text before the first bracket, which is the element type of \<open>ABIInType\<close> with the blanks that follow it.\<close>
theorem type_readers_agree:
  assumes "trims B" and "ABIInType_reset s a = (True, a')"
  shows "reset B s = (if \<exists>e \<in> set (extents a'). e \<ge> 2 ^ 31 then Inl Runtime_error
      else Inr \<lparr>m_type = strType a', m_baseType = takeWhile (\<lambda>c. c \<noteq> CHR ''['') (strType a'), m_extents = extents a'\<rparr>) \<and>
    (\<exists>k. takeWhile (\<lambda>c. c \<noteq> CHR ''['') (strType a') = strEleType a' @ replicate k (CHR '' '')) \<and>
    getEnumType (strEleType a') = aet a' \<and> aet a' \<noteq> AET_INVALID"
proof -
  define ty where "ty = trim_blanks s"
  define base where "base = takeWhile (\<lambda>c. c \<noteq> CHR ''['') ty"
  define ele where "ele = trim_blanks base"
  have first: "find_from (CHR ''['') 0 ty = (if length base < length ty then Some (length base) else None)"
    by (simp add: find_from_def base_def)
  have tk: "take (length base) ty = base" unfolding base_def by (rule takeWhile_eq_take [symmetric])
  have cb: "(case find_from (CHR ''['') 0 ty of None \<Rightarrow> ty | Some p \<Rightarrow> take p ty) = base" unfolding first using tk by auto
  obtain es where e: "getEnumType ele \<noteq> AET_INVALID"
    and l: "(case find_from (CHR ''['') 0 ty of None \<Rightarrow> Some [] | Some p \<Rightarrow> bracket_loop ty p) = Some es"
    and a': "extents a' = es" "strType a' = ty" "strEleType a' = ele" "aet a' = getEnumType ele"
    using assms(2) unfolding ABIInType_reset_def Let_def ty_def [symmetric] cb ele_def [symmetric]
    by (cases "getEnumType ele = AET_INVALID";
        cases "case find_from (CHR ''['') 0 ty of None \<Rightarrow> Some [] | Some p \<Rightarrow> bracket_loop ty p") auto
  have "plain_name ele" using e elementary_plain by (simp add: elementary_def)
  note q = plain_nameD(1,2) [OF this]
  obtain xs ys where b: "base = xs @ ele @ ys" and xs: "\<forall>c \<in> set xs. c = CHR '' ''" and ys: "\<forall>c \<in> set ys. c = CHR '' ''"
    using trim_blanks_parts [of base] unfolding ele_def by metis
  have nb: "base \<noteq> []" using b q(1) by simp
  have hd: "hd ty = hd base" using nb unfolding base_def by (cases ty) (simp_all split: if_splits)
  have ne: "ty \<noteq> []" using nb unfolding base_def by auto
  have ends: "hd ty \<noteq> CHR '' ''" "List.last ty \<noteq> CHR '' ''" using trim_blanks_ends [of s] ne by (simp_all add: ty_def)
  have "xs = []" using ends(1) xs b hd by (cases xs) auto
  then have b': "base = ele @ ys" using b by simp
  have k: "ys = replicate (length ys) (CHR '' '')" using ys by (simp add: replicate_length_same)
  have h: "\<not> isspace (hd ty)" using q b' hd by (simp add: trimmed_def)
  have l2: "\<not> isspace (List.last ty)"
  proof (cases "length base < length ty")
    case True
    then show ?thesis using bracket_loop_last [OF _ True] l first by (simp add: isspace_def)
  next
    case False
    then have y: "base = ty" using tk by simp
    then have "ys = []" using ends(2) b' ys by (metis last_appendR last_in_set)
    then show ?thesis using b' y q by (simp add: trimmed_def)
  qed
  have t: "trim B s = ty" using trims_blanks [OF assms(1), of s] h l2 by (simp add: trimmed_def ty_def)
  have "reset B s = (if too_large es then Inl Runtime_error else Inr \<lparr>m_type = ty, m_baseType = base, m_extents = es\<rparr>)"
  proof (cases "length base < length ty")
    case True
    then have "reset_loop B ty (length base) = (if too_large es then Inl Runtime_error else Inr es)"
      using bracket_loop_reset [OF assms(1)] l first by simp
    then show ?thesis using True first ne t tk by (simp add: reset_def)
  next
    case False
    then have "es = []" "base = ty" using l cb first by simp_all
    then show ?thesis using False first ne t by (simp add: reset_def too_large_def)
  qed
  then show ?thesis using a' e b' k unfolding too_large_def base_def [symmetric] by (metis base_def)
qed

text \<open>A name with blanks: the two readers differ in the base type, and agree once the blank is gone. The last name has
  a dimension that only \<open>ABIInType\<close> reads.\<close>
theorem type_readers_agree_witness:
  "reset boost0 '' uint [ 2 ][] '' = Inr \<lparr>m_type = ''uint [ 2 ][]'', m_baseType = ''uint '', m_extents = [2, 0]\<rparr> \<and>
   reset boost0 ''int8[3]'' = Inr \<lparr>m_type = ''int8[3]'', m_baseType = ''int8'', m_extents = [3]\<rparr> \<and>
   reset boost0 (type_text ''uint'' [2 ^ 31]) = Inl Runtime_error"
proof -
  have e: "ABIInType_reset '' uint [ 2 ][] '' ABIInType_new =
      (True, \<lparr>aet = AET_UINT, strEleType = ''uint'', strType = ''uint [ 2 ][]'', extents = [2, 0]\<rparr>)"
    "ABIInType_reset ''int8[3]'' ABIInType_new =
      (True, \<lparr>aet = AET_INT, strEleType = ''int8'', strType = ''int8[3]'', extents = [3]\<rparr>)"
    by code_simp+
  have "elementary ''uint''" by code_simp
  note u = ABIInType_reset_text [OF this, of "[2 ^ 31]" ABIInType_new]
  show ?thesis
    using type_readers_agree [OF boost0_trims e(1)] type_readers_agree [OF boost0_trims e(2)]
      type_readers_agree [OF boost0_trims u] by simp
qed

section \<open>Reading signatures\<close>

fun join_commas :: "string list \<Rightarrow> string" where
  "join_commas [] = []"
| "join_commas [x] = x"
| "join_commas (x # xs) = x @ '','' @ join_commas xs"

definition split_ok :: "boost_text \<Rightarrow> bool" where
  "split_ok B \<longleftrightarrow> (\<forall>xs. xs \<noteq> [] \<and> (\<forall>x \<in> set xs. CHR '','' \<notin> set x) \<longrightarrow> split_commas B (join_commas xs) = xs)"

lemma split0_part: "CHR '','' \<notin> set x \<Longrightarrow> split0 acc x = [rev acc @ x]"
  by (induction x arbitrary: acc) auto

lemma split0_comma: "CHR '','' \<notin> set x \<Longrightarrow> split0 acc (x @ CHR '','' # s) = (rev acc @ x) # split0 [] s"
  by (induction x arbitrary: acc) auto

lemma boost0_split_ok: "split_ok boost0"
proof -
  have "split0 [] (join_commas xs) = xs" if "xs \<noteq> []" "\<forall>x \<in> set xs. CHR '','' \<notin> set x" for xs
    using that by (induction xs rule: join_commas.induct) (simp_all add: split0_part split0_comma)
  then show ?thesis by (simp add: split_ok_def boost0_def)
qed

text \<open>A parameter: its element type and dimensions.\<close>

definition param_ok :: "string \<times> nat list \<Rightarrow> bool" where
  "param_ok p \<longleftrightarrow> elementary (fst p) \<and> (\<forall>e \<in> set (snd p). e < 2 ^ 64)"

definition param_text :: "string \<times> nat list \<Rightarrow> string" where
  "param_text p = type_text (fst p) (snd p)"

definition param_type :: "string \<times> nat list \<Rightarrow> abi_in_type" where
  "param_type p = \<lparr>aet = getEnumType (fst p), strEleType = fst p, strType = param_text p, extents = snd p\<rparr>"

lemma param_reset: "param_ok p \<Longrightarrow> ABIInType_reset (param_text p) a = (True, param_type p)"
  using ABIInType_reset_text [of "fst p" "snd p" a] by (cases a) (simp add: param_ok_def param_text_def param_type_def)

lemma param_chars:
  assumes "param_ok p"
  shows "param_text p \<noteq> []" and "trim_blanks (param_text p) = param_text p"
    and "CHR '','' \<notin> set (param_text p)" and "CHR ''('' \<notin> set (param_text p)" and "CHR '')'' \<notin> set (param_text p)"
proof -
  have b: "elementary (fst p)" using assms by (simp add: param_ok_def)
  note c = plain_nameD [OF elementary_plain [OF b]]
  show "param_text p \<noteq> []" and "trim_blanks (param_text p) = param_text p"
    using c(1) trim_blanks_trimmed [OF type_text_trimmed [OF c(1,2)]] by (simp_all add: param_text_def) (simp add: type_text_def)
  have d: "x \<in> {CHR ''['', CHR '']''} \<or> isdigit x" if "x \<in> set (extent_text e)" for x e
    using that decimal_digits [of e] by (auto simp: extent_text_def list_all_iff split: if_splits)
  have "x \<notin> set (concat (map extent_text (snd p)))" if "x \<in> {CHR '','', CHR ''('', CHR '')''}" for x
    using that d [of x] by (auto simp: isdigit_def)
  then show "CHR '','' \<notin> set (param_text p)" and "CHR ''('' \<notin> set (param_text p)" and "CHR '')'' \<notin> set (param_text p)"
    using c by (simp_all add: param_text_def type_text_def)
qed

lemma parser_loop_params:
  "\<forall>p \<in> set ps. param_ok p \<Longrightarrow> parser_loop (map param_text ps) at sig params =
     (Some (sig @ concat (map (\<lambda>p. param_text p @ '','') ps)), params @ map param_type ps)"
  by (induction ps arbitrary: at sig params) (simp_all add: param_chars param_reset)

lemma join_commas_chars: "c \<noteq> CHR '','' \<Longrightarrow> c \<in> set (join_commas xs) \<Longrightarrow> \<exists>x \<in> set xs. c \<in> set x"
  by (induction xs rule: join_commas.induct) auto

lemma commas_join: "xs \<noteq> [] \<Longrightarrow> concat (map (\<lambda>x. x @ '','') xs) = join_commas xs @ '',''"
  by (induction xs rule: join_commas.induct) simp_all

definition signature_text :: "string \<Rightarrow> (string \<times> nat list) list \<Rightarrow> string" where
  "signature_text name ps = name @ ''('' @ join_commas (map param_text ps) @ '')''"

text \<open>Claim C40. A signature is read as it is written: for a name without parentheses and any list of
  parameters of elementary types and dimensions, the parser returns true, keeps name, signature and
  parameter types, and appends the parameters to those of the object.\<close>

theorem signature_parsed:
  assumes "split_ok B" and "trimmed name" and "CHR ''('' \<notin> set name" and "CHR '')'' \<notin> set name"
    and "\<forall>p \<in> set ps. param_ok p"
  shows "ABIFunc_parser B (signature_text name ps) f =
    (True, f\<lparr>strFuncName := name, strFuncSignature := signature_text name ps,
      allParamsType := allParamsType f @ map param_type ps\<rparr>)"
proof -
  let ?j = "join_commas (map param_text ps)" and ?s = "signature_text name ps"
  have "CHR '')'' \<notin> set ?j"
    using join_commas_chars [of "CHR '')''" "map param_text ps"] param_chars(5) assms(5) by fastforce
  then have c: "CHR '')'' \<notin> set (name @ CHR ''('' # ?j)" using assms(4) by simp
  have i0: "find_from (CHR ''('') 0 ?s = Some (length name)"
    using find_from_append [of "CHR ''(''" name "[]" "?j @ '')''"] assms(3) by (simp add: signature_text_def)
  have i1: "find_from (CHR '')'') 0 ?s = Some (Suc (length name + length ?j))"
    using find_from_append [OF c, of "[]" "[]"] by (simp add: signature_text_def)
  have n: "trim_blanks (take (length name) ?s) = name"
    using trim_blanks_trimmed [OF assms(2)] by (simp add: signature_text_def)
  have t: "take (length name + length ?j - length name) (drop (Suc (length name)) ?s) = ?j"
    by (simp add: signature_text_def)
  have l: "parser_loop (split_commas B ?j) ABIInType_new (name @ ''('') (allParamsType f) =
    (Some (name @ ''('' @ concat (map (\<lambda>p. param_text p @ '','') ps)), allParamsType f @ map param_type ps)"
  proof (cases ps)
    case Nil
    have "split_commas B (join_commas [[]]) = [[]]" using assms(1) unfolding split_ok_def by (metis list.distinct(1) list.set_intros(1) empty_iff empty_set set_ConsD)
    then show ?thesis by (simp add: Nil trim_blanks_def)
  next
    case (Cons q qs)
    then have "split_commas B ?j = map param_text ps" using assms(1,5) param_chars(3) unfolding split_ok_def by simp
    then show ?thesis using parser_loop_params [OF assms(5)] by simp
  qed
  have e: "(if List.last s = CHR '','' then butlast s @ '')'' else s @ '')'') = ?s"
    if "s = name @ ''('' @ concat (map (\<lambda>p. param_text p @ '','') ps)" for s
  proof (cases "ps = []")
    case False
    then have "s = (name @ ''('' @ ?j) @ '',''" using commas_join [of "map param_text ps"] that by (simp add: comp_def)
    then show ?thesis by (simp add: signature_text_def butlast_append)
  qed (simp add: that signature_text_def)
  from l e obtain s where "parser_loop (split_commas B ?j) ABIInType_new (name @ ''('') (allParamsType f) =
      (Some s, allParamsType f @ map param_type ps)"
    and "(if List.last s = CHR '','' then butlast s @ '')'' else s @ '')'') = ?s"
    by blast
  then show ?thesis unfolding ABIFunc_parser_def i0 i1 prod.case option.case Let_def using n t by simp
qed

theorem signature_parsed_witness:
  "ABIFunc_parser boost0 (signature_text ''transfer'' [(''string'', []), (''uint256'', [2, 0])])
      \<lparr>strFuncName = [], strFuncSignature = [], allParamsType = []\<rparr> =
    (True, \<lparr>strFuncName = ''transfer'', strFuncSignature = signature_text ''transfer'' [(''string'', []), (''uint256'', [2, 0])],
      allParamsType = map param_type [(''string'', []), (''uint256'', [2, 0])]\<rparr>)"
proof -
  have "elementary ''string''" and "elementary ''uint256''" by code_simp+
  then show ?thesis
    using signature_parsed [OF boost0_split_ok, of "''transfer''" "[(''string'', []), (''uint256'', [2, 0])]"
        "\<lparr>strFuncName = [], strFuncSignature = [], allParamsType = []\<rparr>"]
    by (simp add: param_ok_def trimmed_def isspace_def)
qed

section \<open>What the parsers accept beside signatures\<close>

text \<open>Text between the brackets of an array type, and behind the parameters, is ignored.\<close>

lemma type_junk_accepted:
  "fst (ABIInType_reset ''int[1]junk[2]'' ABIInType_new)" "extents (snd (ABIInType_reset ''int[1]junk[2]'' ABIInType_new)) = [1, 2]"
  by code_simp+

lemma signature_junk_accepted:
  "ABIFunc_parser boost0 ''f(int)garbage'' \<lparr>strFuncName = [], strFuncSignature = [], allParamsType = []\<rparr> =
   ABIFunc_parser boost0 ''f(int)'' \<lparr>strFuncName = [], strFuncSignature = [], allParamsType = []\<rparr>"
  by code_simp

text \<open>The signature that is hashed keeps blanks inside a type and the short name of \<open>uint256\<close>.\<close>

lemma signature_not_canonical:
  "strFuncSignature (snd (ABIFunc_parser boost0 ''f( uint [2] , int)'' \<lparr>strFuncName = [], strFuncSignature = [], allParamsType = []\<rparr>)) =
     ''f(uint [2],int)''"
  by code_simp

text \<open>A second call on the same object keeps the parameters of the first.\<close>

lemma parser_accumulates:
  "getParamsType (snd (ABIFunc_parser boost0 ''g(int)''
     (snd (ABIFunc_parser boost0 ''f(bool)'' \<lparr>strFuncName = [], strFuncSignature = [], allParamsType = []\<rparr>)))) = [''bool'', ''int'']"
  by code_simp

text \<open>An array of no elements is read like a list, and counts as dynamic.\<close>

lemma zero_extent_dynamic:
  "in_dynamic (snd (ABIInType_reset ''int[0]'' ABIInType_new))"
  "extents (snd (ABIInType_reset ''int[0]'' ABIInType_new)) = extents (snd (ABIInType_reset ''int[]'' ABIInType_new))"
  by code_simp+

text \<open>Which types are dynamic, and what removing the last dimension leaves.\<close>

lemma dynamic_iff:
  "in_dynamic a \<longleftrightarrow> aet a = AET_STRING \<or> aet a = AET_BYTES \<or> 0 \<in> set (extents a)"
proof -
  have "list_ex (\<lambda>i. in_extent (i + 1) a = 0) [0..<in_rank a] \<longleftrightarrow> 0 \<in> set (extents a)"
    by (auto simp: list_ex_iff in_extent_def in_rank_def in_set_conv_nth)
  then show ?thesis by (simp add: in_dynamic_def)
qed

lemma removeExtent_last:
  "in_removeExtent (a\<lparr>extents := es @ [e]\<rparr>) = (True, a\<lparr>extents := es\<rparr>)" "extents a = [] \<Longrightarrow> in_removeExtent a = (False, a)"
  by (simp_all add: in_removeExtent_def in_rank_def)

end
