(* ===== verification/AbiLiquid.thy ===== *)
theory AbiLiquid
  imports AbiSolProps
begin

text \<open>
  The codec for Liquid contracts (\<open>utilities/abi/ContractABITypeCodec.cpp\<close>, class
  \<open>ContractABITypeCodecLiquidImpl\<close>), as far as it is written: the encoders of integers have an empty body, so that
  numbers and lengths are left out, and so have the decoders of integers, byte strings and strings, whose
  variables keep their initial value. The value of an address is a \<open>std::string\<close>, for which the overload for
  strings is called, not the one for \<open>Address\<close>, which throws.
\<close>

section \<open>Serialization\<close>

definition liq_ser_u256 :: "u256 \<Rightarrow> bytes" where
  "liq_ser_u256 u = []"

definition liq_ser_s256 :: "int \<Rightarrow> bytes" where
  "liq_ser_s256 i = []"

definition liq_ser_bool :: "bool \<Rightarrow> bytes" where
  "liq_ser_bool b = [if b then 1 else 0]"

definition liq_ser_bytesN :: "bytes \<Rightarrow> abi_exn + bytes" where
  "liq_ser_bytesN bs = (if length bs > 32 then Inl Runtime_error else Inr bs)"

definition liq_ser_bytes :: "bytes \<Rightarrow> bytes" where
  "liq_ser_bytes bs = liq_ser_u256 (word_of_nat (length bs)) @ bs"

definition liq_ser_string :: "string \<Rightarrow> bytes" where
  "liq_ser_string s = liq_ser_u256 (word_of_nat (length s)) @ bytes_of_string s"

text \<open>The loop over the members of a composite value, with the results of serializing them.\<close>

fun liq_ser_loop :: "(abi_exn + bytes) list \<Rightarrow> bytes \<Rightarrow> abi_exn + bytes" where
  "liq_ser_loop [] buffer = Inr buffer"
| "liq_ser_loop (m # ms) buffer = bindE m (\<lambda>bs. liq_ser_loop ms (buffer @ bs))"

fun liq_serialize :: "abi_value \<Rightarrow> abi_exn + bytes" where
  "liq_serialize (Boolean n b) = Inr (liq_ser_bool b)"
| "liq_serialize (Uint n u e) = Inr (liq_ser_u256 u)"
| "liq_serialize (IntV n i e) = Inr (liq_ser_s256 i)"
| "liq_serialize (FixedBytes n k bs) = liq_ser_bytesN bs"
| "liq_serialize (Addr n s) = Inr (liq_ser_string s)"
| "liq_serialize (String n s) = Inr (liq_ser_string s)"
| "liq_serialize (DynamicBytes n bs) = Inr (liq_ser_bytes bs)"
| "liq_serialize (DynamicList n vs) = liq_ser_loop (map liq_serialize vs) (liq_ser_u256 (word_of_nat (length vs)))"
| "liq_serialize (FixedList n d vs) = liq_ser_loop (map liq_serialize vs) []"
| "liq_serialize (Struct n vs) = liq_ser_loop (map liq_serialize vs) []"

section \<open>Deserialization\<close>

definition liq_des_bool :: "bytes \<Rightarrow> u64 \<Rightarrow> abi_exn + bool" where
  "liq_des_bool buffer offset = bindE (verifyBufferOffset buffer offset) (\<lambda>_. Inr (buffer ! unat offset \<noteq> 0))"

definition liq_des_address :: "bytes \<Rightarrow> u64 \<Rightarrow> abi_exn + bytes" where
  "liq_des_address buffer offset = Inl Runtime_error"

definition liq_des_bytesN :: "abi_ext \<Rightarrow> bytes \<Rightarrow> u64 \<Rightarrow> nat \<Rightarrow> abi_exn + bytes" where
  "liq_des_bytesN X buffer offset fixedN =
     bindE (verifyBufferOffset buffer (offset + word_of_nat fixedN - 1)) (\<lambda>_.
       Inr (getCroppedData2 X buffer offset (word_of_nat fixedN)))"

text \<open>The integer, byte string and string that the callers declare, after a decoder that does not touch them.\<close>

definition liq_des_u256 :: "bytes \<Rightarrow> u64 \<Rightarrow> u256" where
  "liq_des_u256 buffer offset = 0"

definition liq_des_s256 :: "bytes \<Rightarrow> u64 \<Rightarrow> int" where
  "liq_des_s256 buffer offset = 0"

definition liq_des_bytes :: "bytes \<Rightarrow> u64 \<Rightarrow> bytes" where
  "liq_des_bytes buffer offset = []"

definition liq_des_string :: "bytes \<Rightarrow> u64 \<Rightarrow> string" where
  "liq_des_string buffer offset = []"

text \<open>
  The loops over the members of a composite value have empty bodies; the loop of \<open>T[N]\<close> still reads the pointers
  of its members, out of range when the dimension exceeds their number and assertions are off.
\<close>

fun liq_deserialize :: "abi_ext \<Rightarrow> abi_value \<Rightarrow> bytes \<Rightarrow> u64 \<Rightarrow> abi_exn + abi_value" where
  "liq_deserialize X (Boolean n _) buf off = bindE (liq_des_bool buf off) (\<lambda>b. Inr (Boolean n b))"
| "liq_deserialize X (Uint n _ e) buf off = Inr (Uint n (liq_des_u256 buf off) e)"
| "liq_deserialize X (IntV n _ e) buf off = Inr (IntV n (liq_des_s256 buf off) e)"
| "liq_deserialize X (FixedBytes n k _) buf off =
     bindE (liq_des_bytesN X buf off k) (\<lambda>bs. bindE (FixedBytes_verify k bs True) (\<lambda>_. Inr (FixedBytes n k bs)))"
| "liq_deserialize X (Addr n _) buf off = bindE (liq_des_address buf off) (\<lambda>a. Inr (Addr n (hexPrefixed X a)))"
| "liq_deserialize X (String n _) buf off = Inr (String n (liq_des_string buf off))"
| "liq_deserialize X (DynamicBytes n _) buf off = Inr (DynamicBytes n (liq_des_bytes buf off))"
| "liq_deserialize X (DynamicList n vs) buf off =
     bindE (assertE X (liq_des_u256 buf off < 2 ^ 31 - 1)) (\<lambda>_. Inr (DynamicList n []))"
| "liq_deserialize X (FixedList n d vs) buf off =
     bindE (assertE X (d = length vs)) (\<lambda>_.
       if d > length vs then Inl Index_out_of_range else Inr (FixedList n d vs))"
| "liq_deserialize X (Struct n vs) buf off = Inr (Struct n vs)"

section \<open>What is encoded\<close>

text \<open>The bytes written: the contents of the strings and booleans, without numbers and without any length.\<close>

fun liq_image :: "abi_value \<Rightarrow> bytes" where
  "liq_image (Boolean n b) = [if b then 1 else 0]"
| "liq_image (Uint n u e) = []"
| "liq_image (IntV n i e) = []"
| "liq_image (FixedBytes n k bs) = bs"
| "liq_image (Addr n s) = bytes_of_string s"
| "liq_image (String n s) = bytes_of_string s"
| "liq_image (DynamicBytes n bs) = bs"
| "liq_image (DynamicList n vs) = concat (map liq_image vs)"
| "liq_image (FixedList n d vs) = concat (map liq_image vs)"
| "liq_image (Struct n vs) = concat (map liq_image vs)"

fun short_bytes :: "abi_value \<Rightarrow> bool" where
  "short_bytes (FixedBytes n k bs) = (length bs \<le> 32)"
| "short_bytes (DynamicList n vs) = (\<forall>v \<in> set vs. short_bytes v)"
| "short_bytes (FixedList n d vs) = (\<forall>v \<in> set vs. short_bytes v)"
| "short_bytes (Struct n vs) = (\<forall>v \<in> set vs. short_bytes v)"
| "short_bytes _ = True"

lemma liq_ser_loop_cases:
  "\<forall>v \<in> set vs. f v = (if P v then Inr (g v) else Inl e) \<Longrightarrow>
     liq_ser_loop (map f vs) buffer = (if \<forall>v \<in> set vs. P v then Inr (buffer @ concat (map g vs)) else Inl e)"
  by (induction vs arbitrary: buffer) simp_all

lemma liq_serialize_cases: "liq_serialize v = (if short_bytes v then Inr (liq_image v) else Inl Runtime_error)"
proof (induction v)
  case (DynamicList n vs)
  then show ?case by (simp add: liq_ser_loop_cases [where P = short_bytes and g = liq_image] liq_ser_u256_def)
next
  case (FixedList n d vs)
  then show ?case by (simp add: liq_ser_loop_cases [where P = short_bytes and g = liq_image])
next
  case (Struct n vs)
  then show ?case by (simp add: liq_ser_loop_cases [where P = short_bytes and g = liq_image])
qed (simp_all add: liq_ser_bool_def liq_ser_u256_def liq_ser_s256_def liq_ser_bytesN_def liq_ser_string_def liq_ser_bytes_def)

text \<open>So the encoding of a list of numbers is empty, whatever the numbers and however many.\<close>

lemma liq_numbers_lost: "liq_serialize (DynamicList n (map (\<lambda>u. Uint [] u 256) us)) = Inr []"
  by (simp add: liq_serialize_cases comp_def del: liq_serialize.simps)

text \<open>An address is encoded like the string that it is, although the overload for addresses refuses it.\<close>

lemma liq_address_as_string: "liq_serialize (Addr n s) = liq_serialize (String n s)"
  by simp

section \<open>What is decoded\<close>

text \<open>Booleans and byte strings of fixed length are read back anywhere in a buffer; an address is never read.\<close>

lemma liq_bool_roundtrip:
  assumes "located buf p (liq_image (Boolean n b))" and "length buf < 2 ^ 31"
  shows "liq_deserialize X (Boolean n b') buf (word_of_nat p) = Inr (Boolean n b)"
proof -
  have p: "p < length buf" and "take 1 (drop p buf) = [if b then 1 else 0]" using assms(1) by (simp_all add: located_def)
  then have "hd (drop p buf) = (if b then 1 else 0)" by (cases "drop p buf") simp_all
  then have "buf ! p = (if b then 1 else 0)" using p by (simp add: hd_drop_conv_nth)
  moreover have "unat (word_of_nat p :: u64) = p" using p assms(2) by (simp add: unat_word_of_nat_id)
  ultimately show ?thesis using p by (simp add: liq_des_bool_def verifyBufferOffset_def)
qed

lemma liq_bytesN_roundtrip:
  assumes "abi_ext_ok X" and "located buf p bs" and "length buf < 2 ^ 31" and "length bs = k" and "0 < k" "k \<le> 32"
  shows "liq_deserialize X (FixedBytes n k bs') buf (word_of_nat p) = Inr (FixedBytes n k bs)"
proof -
  have l: "p + k \<le> length buf" using assms(2,4) by (simp add: located_def)
  have e: "word_of_nat p + word_of_nat k - 1 = (word_of_nat (p + k - 1) :: u64)"
    using assms(5) by (cases k) simp_all
  have "unat (word_of_nat (p + k - 1) :: u64) = p + k - 1"
    by (rule unat_word_of_nat_id) (use l assms(3) in simp)
  then have "verifyBufferOffset buf (word_of_nat p + word_of_nat k - 1) = Inr ()"
    unfolding e verifyBufferOffset_def using l assms(5) by simp
  then show ?thesis using crop [OF assms(1-3)] assms(4-6)
    by (simp add: liq_des_bytesN_def FixedBytes_verify_def MAX_FIXED_BYTES_LENGTH_def)
qed

lemma liq_address_never: "liq_deserialize X (Addr n s) buf off = Inl Runtime_error"
  by (simp add: liq_des_address_def)

text \<open>A composite value is not read from the buffer: what comes back depends on the template alone.\<close>

lemma liq_composites_unread:
  "liq_deserialize X (Struct n vs) buf off = Inr (Struct n vs)"
  "liq_deserialize X (DynamicList n vs) buf off = Inr (DynamicList n [])"
  "liq_deserialize X (FixedList n (length vs) vs) buf off = Inr (FixedList n (length vs) vs)"
  by (simp_all add: assertE_def liq_des_u256_def)

end
