(* ===== verification/SdkConfig.thy ===== *)
theory SdkConfig
  imports Prelude
begin

text \<open>
  The configuration of the SDK (\<open>config/Config.{h,cpp}\<close>). The ini file is the list of its sections with
  their entries, as \<open>boost::property_tree\<close> holds it; reading the file, the conversions of its texts and
  the parser of end points (\<open>WsTools\<close> of bcos-boostssl, \<open>None\<close> when it throws) are parameters. \<open>get\<close> with a default gives the
  default for a missing entry and for a text that is not converted.
\<close>

type_synonym ini_doc = "(string \<times> (string \<times> string) list) list"

record 'ep config_ext =
  read_ini :: "string \<Rightarrow> ini_doc option"
  pt_bool :: "string \<Rightarrow> bool option"
  pt_int :: "string \<Rightarrow> int option"
  stringToEndPoint :: "string \<Rightarrow> 'ep option"

datatype config_exn = Bad_path | Bad_end_point | Invalid_parameter

definition pt_get :: "ini_doc \<Rightarrow> string \<Rightarrow> string \<Rightarrow> string option" where
  "pt_get pt section_name key = (case map_of pt section_name of None \<Rightarrow> None | Some entries \<Rightarrow> map_of entries key)"

definition get_default :: "(string \<Rightarrow> 'a option) \<Rightarrow> ini_doc \<Rightarrow> string \<Rightarrow> string \<Rightarrow> 'a \<Rightarrow> 'a" where
  "get_default convert pt section_name key d =
    (case pt_get pt section_name key of None \<Rightarrow> d | Some t \<Rightarrow> (case convert t of None \<Rightarrow> d | Some x \<Rightarrow> x))"

text \<open>The certificates by name: CA, node and key; for the SM suite also those for encryption.\<close>

datatype context_config =
    Ssl_config string string string
  | SM_ssl_config string string string string string

record 'ep ws_config =
  cfg_client :: bool
  cfg_disableSsl :: bool
  cfg_sendMsgTimeout :: int
  cfg_threadPoolSize :: int
  cfg_connectPeers :: "'ep set"
  cfg_context :: "context_config option"

definition new_ws_config :: "'ep ws_config" where
  "new_ws_config = \<lparr>cfg_client = False, cfg_disableSsl = False, cfg_sendMsgTimeout = 0, cfg_threadPoolSize = 0,
     cfg_connectPeers = {}, cfg_context = None\<rparr>"

text \<open>\<open>loadCommon\<close> also sets the option of the configuration object: the second component.\<close>

definition loadCommon :: "'ep config_ext \<Rightarrow> ini_doc \<Rightarrow> 'ep ws_config \<Rightarrow> 'ep ws_config \<times> bool" where
  "loadCommon C pt config =
    (let disableSsl = get_default (pt_bool C) pt ''common'' ''disable_ssl'' False;
         threadPoolSize = get_default (pt_int C) pt ''common'' ''thread_pool_size'' 8;
         messageTimeOut = get_default (pt_int C) pt ''common'' ''message_timeout_ms'' 10000;
         highest = get_default (pt_bool C) pt ''common'' ''send_rpc_request_to_highest_block_node'' True
     in (config\<lparr>cfg_disableSsl := disableSsl, cfg_sendMsgTimeout := messageTimeOut, cfg_threadPoolSize := threadPoolSize\<rparr>,
         highest))"

text \<open>The end points are a \<open>std::set\<close>; its order is that of bcos-boostssl.\<close>

fun loadPeers_loop :: "'ep config_ext \<Rightarrow> (string \<times> string) list \<Rightarrow> 'ep set \<Rightarrow> config_exn + 'ep set" where
  "loadPeers_loop C [] peers = Inr peers"
| "loadPeers_loop C ((key, value) # entries) peers =
    (if take 5 key \<noteq> ''node.'' then loadPeers_loop C entries peers
     else case stringToEndPoint C value of None \<Rightarrow> Inl Bad_end_point
          | Some ep \<Rightarrow> loadPeers_loop C entries (insert ep peers))"

definition loadPeers :: "'ep config_ext \<Rightarrow> ini_doc \<Rightarrow> 'ep ws_config \<Rightarrow> config_exn + 'ep ws_config" where
  "loadPeers C pt config =
    (case map_of pt ''peers'' of
       None \<Rightarrow> Inl Bad_path
     | Some entries \<Rightarrow> bindE (loadPeers_loop C entries {}) (\<lambda>peers. Inr (config\<lparr>cfg_connectPeers := peers\<rparr>)))"

definition get_string :: "ini_doc \<Rightarrow> string \<Rightarrow> string \<Rightarrow> string" where
  "get_string pt key d = get_default Some pt ''cert'' key d"

definition loadSslCert :: "ini_doc \<Rightarrow> 'ep ws_config \<Rightarrow> 'ep ws_config" where
  "loadSslCert pt config =
    (let caPath = get_string pt ''ca_path'' ''./conf'';
         caCert = caPath @ ''/'' @ get_string pt ''ca_cert'' ''ca.crt'';
         sdkKey = caPath @ ''/'' @ get_string pt ''sdk_key'' ''sdk.key'';
         sdkCert = caPath @ ''/'' @ get_string pt ''sdk_cert'' ''sdk.crt''
     in config\<lparr>cfg_context := Some (Ssl_config caCert sdkCert sdkKey)\<rparr>)"

definition loadSMSslCert :: "ini_doc \<Rightarrow> 'ep ws_config \<Rightarrow> 'ep ws_config" where
  "loadSMSslCert pt config =
    (let caPath = get_string pt ''ca_path'' ''./conf'';
         smCaCert = caPath @ ''/'' @ get_string pt ''sm_ca_cert'' ''sm_ca.crt'';
         smSdkKey = caPath @ ''/'' @ get_string pt ''sm_sdk_key'' ''sm_sdk.key'';
         smSdkCert = caPath @ ''/'' @ get_string pt ''sm_sdk_cert'' ''sm_sdk.crt'';
         smEnSdkKey = caPath @ ''/'' @ get_string pt ''sm_ensdk_key'' ''sm_ensdk.key'';
         smEnSdkCert = caPath @ ''/'' @ get_string pt ''sm_ensdk_cert'' ''sm_ensdk.crt''
     in config\<lparr>cfg_context := Some (SM_ssl_config smCaCert smSdkCert smSdkKey smEnSdkCert smEnSdkKey)\<rparr>)"

definition loadCert :: "ini_doc \<Rightarrow> 'ep ws_config \<Rightarrow> 'ep ws_config" where
  "loadCert pt config =
    (if get_string pt ''ssl_type'' ''ssl'' = ''sm_ssl'' then loadSMSslCert pt config else loadSslCert pt config)"

definition loadConfig :: "'ep config_ext \<Rightarrow> ini_doc \<Rightarrow> config_exn + 'ep ws_config \<times> bool" where
  "loadConfig C pt =
    (let config = new_ws_config\<lparr>cfg_client := True\<rparr>; (config, highest) = loadCommon C pt config in
     bindE (loadPeers C pt config) (\<lambda>config.
       Inr (if \<not> cfg_disableSsl config then loadCert pt config else config, highest)))"

definition loadConfig_file :: "'ep config_ext \<Rightarrow> string \<Rightarrow> config_exn + 'ep ws_config \<times> bool" where
  "loadConfig_file C configPath =
    (case read_ini C configPath of
       None \<Rightarrow> Inl Invalid_parameter
     | Some pt \<Rightarrow> (case loadConfig C pt of Inl _ \<Rightarrow> Inl Invalid_parameter | Inr r \<Rightarrow> Inr r))"

section \<open>What is loaded\<close>

definition peer_texts :: "(string \<times> string) list \<Rightarrow> string list" where
  "peer_texts entries = map snd (filter (\<lambda>(k, v). take 5 k = ''node.'') entries)"

lemma loadPeers_loop_cases:
  "loadPeers_loop C entries peers =
     (if \<exists>v \<in> set (peer_texts entries). stringToEndPoint C v = None then Inl Bad_end_point
      else Inr (peers \<union> {ep. \<exists>v \<in> set (peer_texts entries). stringToEndPoint C v = Some ep}))"
  by (induction C entries peers rule: loadPeers_loop.induct) (auto simp: peer_texts_def split: option.splits)

text \<open>
  A document is refused exactly when it has no section of peers or a peer that is no end point; otherwise the
  peers are those end points, and the certificates are loaded exactly when SSL is not disabled.
\<close>

lemma loadConfig_fails_iff:
  "(\<exists>e. loadConfig C pt = Inl e) \<longleftrightarrow> (case map_of pt ''peers'' of None \<Rightarrow> True
     | Some entries \<Rightarrow> \<exists>v \<in> set (peer_texts entries). stringToEndPoint C v = None)"
  by (auto simp: loadConfig_def Let_def loadPeers_def loadPeers_loop_cases bindE_Inl_iff split: prod.splits option.splits)

lemma loadConfig_members:
  assumes "map_of pt ''peers'' = Some entries" and "\<forall>v \<in> set (peer_texts entries). stringToEndPoint C v \<noteq> None"
  shows "\<exists>config highest. loadConfig C pt = Inr (config, highest) \<and> cfg_client config \<and>
    cfg_connectPeers config = {ep. \<exists>v \<in> set (peer_texts entries). stringToEndPoint C v = Some ep} \<and>
    (cfg_context config = None \<longleftrightarrow> cfg_disableSsl config) \<and>
    cfg_disableSsl config = get_default (pt_bool C) pt ''common'' ''disable_ssl'' False \<and>
    highest = get_default (pt_bool C) pt ''common'' ''send_rpc_request_to_highest_block_node'' True"
  using assms by (auto simp: loadConfig_def loadCommon_def Let_def loadPeers_def loadCert_def loadSslCert_def
      loadSMSslCert_def new_ws_config_def loadPeers_loop_cases)

text \<open>The comment of the sample ends the option with a semicolon: such a text is not converted.\<close>

lemma option_with_semicolon:
  "pt_bool C t = None \<Longrightarrow>
     get_default (pt_bool C) [(''common'', [(''send_rpc_request_to_highest_block_node'', t)])] ''common''
       ''send_rpc_request_to_highest_block_node'' True"
  by (simp add: get_default_def pt_get_def)

end
