(* ===== verification/SdkAssembly.thy ===== *)
theory SdkAssembly
  imports AmopProps EventTheorems HandshakeTheorems JsonRpc SdkConfig
begin

text \<open>
  The SDK as it is put together (\<open>SdkFactory.{h,cpp}\<close>, \<open>Sdk.h\<close>): the service with the handlers the
  components register with it, and what a message, a handshake and a disconnection do to all of them.
  The base class of the service keeps the handlers; that it finds the handler of a message by its
  packet type and runs every handler of a disconnection is its documented behaviour. The handlers of
  AMOP and of the event client hold weak pointers, so their objects are optional.
\<close>

section \<open>State\<close>

datatype msg_handler =
    Handle_block_notify | Handle_group_notify | Handle_amop_request | Handle_amop_response
  | Handle_amop_broadcast | Handle_event_push

datatype handshake_handler = Amop_update_topics | Application_handler string

datatype disconnect_handler = Event_suspend_tasks

record ('n, 'cb) sdk =
  sdk_service :: "(handshake_handler, 'n) service"
  sdk_msgHandlers :: "(nat \<times> msg_handler) list"
  sdk_disconnectHandlers :: "disconnect_handler list"
  sdk_amop :: "'cb amop option"
  sdk_eventSub :: "'cb event_sub option"
  sdk_jsonRpc :: json_rpc

datatype ('n, 'cb) sdk_effect =
    Service_effect "(handshake_handler, 'n) service_effect"
  | Amop_effect "'cb amop_effect"
  | Event_effect "'cb event_effect"
  | Handler_exception

section \<open>Assembly\<close>

definition registerMsgHandler :: "nat \<Rightarrow> msg_handler \<Rightarrow> ('n, 'cb) sdk \<Rightarrow> ('n, 'cb) sdk" where
  "registerMsgHandler type h k = k\<lparr>sdk_msgHandlers := sdk_msgHandlers k @ [(type, h)]\<rparr>"

definition new_json_rpc :: "bool \<Rightarrow> json_rpc" where
  "new_json_rpc highest = \<lparr>rpc_id = 0, m_sendRequestToHighestBlockNode = highest\<rparr>"

definition buildService :: "('n, 'cb) sdk" where
  "buildService =
    (let k = \<lparr>sdk_service = new_service, sdk_msgHandlers = [], sdk_disconnectHandlers = [], sdk_amop = None,
              sdk_eventSub = None, sdk_jsonRpc = new_json_rpc True\<rparr>
     in registerMsgHandler GROUP_NOTIFY Handle_group_notify (registerMsgHandler BLOCK_NOTIFY Handle_block_notify k))"

definition buildAMOP :: "('n, 'cb) sdk \<Rightarrow> ('n, 'cb) sdk" where
  "buildAMOP k =
    (let k = k\<lparr>sdk_amop := Some amop_init\<rparr>;
         k = registerMsgHandler AMOP_REQUEST Handle_amop_request k;
         k = registerMsgHandler AMOP_RESPONSE Handle_amop_response k;
         k = registerMsgHandler AMOP_BROADCAST Handle_amop_broadcast k
     in k\<lparr>sdk_service := registerWsHandshakeSucHandler Amop_update_topics (sdk_service k)\<rparr>)"

definition buildJsonRpc :: "bool \<Rightarrow> ('n, 'cb) sdk \<Rightarrow> ('n, 'cb) sdk" where
  "buildJsonRpc highest k = k\<lparr>sdk_jsonRpc := new_json_rpc highest\<rparr>"

definition buildEventSub :: "('n, 'cb) sdk \<Rightarrow> ('n, 'cb) sdk" where
  "buildEventSub k =
    (let k = k\<lparr>sdk_eventSub := Some event_init\<rparr>;
         k = registerMsgHandler EVENT_LOG_PUSH Handle_event_push k
     in k\<lparr>sdk_disconnectHandlers := sdk_disconnectHandlers k @ [Event_suspend_tasks]\<rparr>)"

definition buildSdk :: "bool \<Rightarrow> ('n, 'cb) sdk" where
  "buildSdk highest = buildEventSub (buildJsonRpc highest (buildAMOP buildService))"

definition buildSdk_file :: "'ep config_ext \<Rightarrow> string \<Rightarrow> config_exn + 'ep ws_config \<times> ('n, 'cb) sdk" where
  "buildSdk_file C configFile =
    bindE (loadConfig_file C configFile) (\<lambda>(config, highest). Inr (config, buildSdk highest))"

section \<open>Starting and stopping\<close>

text \<open>
  \<open>start\<close> starts the JSON-RPC client, AMOP, the event client and the service; each of the first three starts
  the service itself, and a start that throws ends it. \<open>started i\<close> is the result of the \<open>i\<close>-th start of the
  service; the result says whether the timer of the event client runs and how often the service was started.
\<close>

fun start_all :: "(nat \<Rightarrow> service_exn + unit) \<Rightarrow> nat \<Rightarrow> nat \<Rightarrow> nat \<times> (service_exn + unit)" where
  "start_all started i 0 = (i, Inr ())"
| "start_all started i (Suc n) = (case started i of Inl e \<Rightarrow> (Suc i, Inl e) | Inr _ \<Rightarrow> start_all started (Suc i) n)"

definition sdk_start_event :: "('n, 'cb) sdk \<Rightarrow> ('n, 'cb) sdk \<times> nat \<times> bool" where
  "sdk_start_event k =
    (case sdk_eventSub k of
       None \<Rightarrow> (k, 0, False)
     | Some st \<Rightarrow> (let (st, es) = event_start st in
         (k\<lparr>sdk_eventSub := Some st\<rparr>, length (filter (\<lambda>e. e = EventSub.Service_start) es), Timer_start \<in> set es)))"

definition sdk_start ::
  "(nat \<Rightarrow> service_exn + unit) \<Rightarrow> ('n, 'cb) sdk \<Rightarrow> ('n, 'cb) sdk \<times> bool \<times> nat \<times> (service_exn + unit)" where
  "sdk_start started k =
    (case start_all started 0 (if sdk_amop k = None then 1 else 2) of
       (i, Inl e) \<Rightarrow> (k, False, i, Inl e)
     | (i, Inr _) \<Rightarrow>
         (let (k, starts, timer) = sdk_start_event k in
          case start_all started i starts of
            (i, Inl e) \<Rightarrow> (k, False, i, Inl e)
          | (i, Inr _) \<Rightarrow> (let (i, r) = start_all started i 1 in (k, timer, i, r))))"

definition sdk_stop :: "bool \<Rightarrow> ('n, 'cb) sdk \<Rightarrow> ('n, 'cb) sdk \<times> ('n, 'cb) sdk_effect list" where
  "sdk_stop has_timer k =
    (case sdk_eventSub k of
       None \<Rightarrow> (k, map Service_effect service_stop)
     | Some st \<Rightarrow> (let (st, es) = event_stop has_timer st in
         (k\<lparr>sdk_eventSub := Some st\<rparr>, map Service_effect service_stop @ map Event_effect es)))"

section \<open>Messages, handshakes and disconnections\<close>

definition run_msgHandler ::
  "jsoncpp \<Rightarrow> net_ext \<Rightarrow> msg_handler \<Rightarrow> ws_message \<Rightarrow> string \<Rightarrow> ('n, 'cb) sdk \<Rightarrow> ('n, 'cb) sdk \<times> ('n, 'cb) sdk_effect list" where
  "run_msgHandler J N h msg ep k =
    (case h of
       Handle_block_notify \<Rightarrow>
         (case onRecvBlockNotifier J (string_of_bytes (payload msg)) (sdk_service k) of
            Inl _ \<Rightarrow> (k, [Handler_exception])
          | Inr (s, es) \<Rightarrow> (k\<lparr>sdk_service := s\<rparr>, map Service_effect es))
     | Handle_group_notify \<Rightarrow>
         (k\<lparr>sdk_service := onNotifyGroupInfo J (string_of_bytes (payload msg)) ep (sdk_service k)\<rparr>, [])
     | Handle_amop_request \<Rightarrow>
         (case sdk_amop k of None \<Rightarrow> (k, [])
          | Some a \<Rightarrow> (case onRecvAMOPRequest N msg ep a of
              Inl _ \<Rightarrow> (k, [Handler_exception]) | Inr es \<Rightarrow> (k, map Amop_effect es)))
     | Handle_amop_response \<Rightarrow>
         (case sdk_amop k of None \<Rightarrow> (k, [])
          | Some a \<Rightarrow> (case onRecvAMOPResponse msg ep a of
              Inl _ \<Rightarrow> (k, [Handler_exception]) | Inr es \<Rightarrow> (k, map Amop_effect es)))
     | Handle_amop_broadcast \<Rightarrow>
         (case sdk_amop k of None \<Rightarrow> (k, [])
          | Some a \<Rightarrow> (case onRecvAMOPBroadcast N msg ep a of
              Inl _ \<Rightarrow> (k, [Handler_exception]) | Inr es \<Rightarrow> (k, map Amop_effect es)))
     | Handle_event_push \<Rightarrow>
         (case sdk_eventSub k of None \<Rightarrow> (k, [])
          | Some st \<Rightarrow> (let (st, es) = onRecvEventSubMessage J (payload msg) st in
              (k\<lparr>sdk_eventSub := Some st\<rparr>, map Event_effect es))))"

definition sdk_onRecvMessage ::
  "jsoncpp \<Rightarrow> net_ext \<Rightarrow> ws_message \<Rightarrow> ws_session option \<Rightarrow> ('n, 'cb) sdk \<Rightarrow>
     service_exn + ('n, 'cb) sdk \<times> ('n, 'cb) sdk_effect list" where
  "sdk_onRecvMessage J N msg session k =
    bindE (onRecvMessage msg session :: service_exn + (handshake_handler, 'n) service_effect list) (\<lambda>es.
      Inr (case (session, map_of (sdk_msgHandlers k) (packetType msg)) of
             (Some ses, Some h) \<Rightarrow>
               if es = [Base_onRecvMessage msg] then run_msgHandler J N h msg (ses_endPoint ses) k
               else (k, map Service_effect es)
           | _ \<Rightarrow> (k, map Service_effect es)))"

text \<open>The handlers a successful handshake runs, in the order of their registration.\<close>

fun run_handshakeHandlers ::
  "jsoncpp \<Rightarrow> (nat \<Rightarrow> string) \<Rightarrow> (handshake_handler, 'n) service_effect list \<Rightarrow> ('n, 'cb) sdk \<Rightarrow>
     ('n, 'cb) sdk \<times> ('n, 'cb) sdk_effect list" where
  "run_handshakeHandlers J new_seq [] k = (k, [])"
| "run_handshakeHandlers J new_seq (e # es) k =
    (let (k, out) =
       (case (e, sdk_amop k) of
          (Handshake_handler Amop_update_topics ep, Some a) \<Rightarrow>
            (let (a, es) = updateTopicsToRemote_session J new_seq ep a in (k\<lparr>sdk_amop := Some a\<rparr>, map Amop_effect es))
        | (Handshake_handler Amop_update_topics ep, None) \<Rightarrow> (k, [])
        | _ \<Rightarrow> (k, [Service_effect e]));
       (k, outs) = run_handshakeHandlers J new_seq es k
     in (k, out @ outs))"

definition sdk_handshake ::
  "jsoncpp \<Rightarrow> (nat \<Rightarrow> string) \<Rightarrow> (int \<times> string) option \<Rightarrow> bytes \<Rightarrow> string \<Rightarrow> string \<Rightarrow> ('n, 'cb) sdk \<Rightarrow>
     ('n, 'cb) sdk \<times> ('n, 'cb) sdk_effect list" where
  "sdk_handshake J new_seq err bs ep session k =
    (let (s, es) = handshake_callback J err bs ep session (sdk_service k)
     in run_handshakeHandlers J new_seq es (k\<lparr>sdk_service := s\<rparr>))"

fun run_disconnectHandlers :: "ws_session option \<Rightarrow> disconnect_handler list \<Rightarrow> ('n, 'cb) sdk \<Rightarrow> ('n, 'cb) sdk" where
  "run_disconnectHandlers session [] k = k"
| "run_disconnectHandlers session (Event_suspend_tasks # hs) k =
    run_disconnectHandlers session hs
      (case sdk_eventSub k of None \<Rightarrow> k
       | Some st \<Rightarrow> k\<lparr>sdk_eventSub := Some (fst (suspendTasks (map_option ses_endPoint session) st))\<rparr>)"

definition sdk_onDisconnect :: "ws_session option \<Rightarrow> ('n, 'cb) sdk \<Rightarrow> ('n, 'cb) sdk" where
  "sdk_onDisconnect session k =
    (let k = run_disconnectHandlers session (sdk_disconnectHandlers k) k
     in k\<lparr>sdk_service := fst (onDisconnect session (sdk_service k))\<rparr>)"

section \<open>Requests of the event client\<close>

text \<open>What the service of the SDK answers at once to a subscription request for a group: the error of
  \<open>asyncSendMessageByGroupAndNode\<close>, or nothing when the request goes to an end point.\<close>

definition service_refuses ::
  "(string list \<Rightarrow> string list) \<Rightarrow> int \<Rightarrow> ws_session list \<Rightarrow> ('n, 'cb) sdk \<Rightarrow> ws_message \<Rightarrow> string \<Rightarrow> (int \<times> string) option" where
  "service_refuses shuffle endPointNotExist ses k msg g =
    (case asyncSendMessageByGroupAndNode shuffle endPointNotExist ses g [] msg (sdk_service k) of
       [Respond_error c t] \<Rightarrow> Some (c, t) | _ \<Rightarrow> None)"

lemma service_refuses_None:
  "service_refuses shuffle code ses k msg g = None \<longleftrightarrow>
     (if g = [] then insert_all (map ses_endPoint ses) [] else fst (getEndPointsByGroup g (sdk_service k) [])) \<noteq> []"
  by (simp add: service_refuses_def asyncSendMessageByGroupAndNode_def Let_def)

lemma service_refuses_code: "service_refuses shuffle code ses k msg g = Some err \<Longrightarrow> fst err = code"
  by (auto simp: service_refuses_def asyncSendMessageByGroupAndNode_def Let_def split: if_splits)

end
