(* ===== verification/SdkTheorems.thy ===== *)
theory SdkTheorems
  imports SdkAssembly
begin

text \<open>
  The components of the assembled SDK at work together: every execution of the SDK is an execution of
  each component, so what is shown of the components holds of the SDK; and what one message, handshake
  or disconnection does across them.
\<close>

section \<open>The SDK as a transition system\<close>

text \<open>
  A world is the SDK, the sessions whose handshake succeeded, the log of what AMOP did and the
  subscription requests of the event client without a response. The network acts by messages,
  handshakes and disconnections, through the handlers; the application by calls of the components.
\<close>

record ('n, 'cb) sdk_world =
  w_sdk :: "('n, 'cb) sdk"
  w_sessions :: "string list"
  w_log :: "'cb amop_effect list"
  w_pending :: "(nat \<times> 'cb cont) list"

definition amop_view :: "('n, 'cb) sdk_world \<Rightarrow> 'cb amop_world" where
  "amop_view w = \<lparr>client = the (sdk_amop (w_sdk w)), sessions = w_sessions w, log = w_log w\<rparr>"

definition event_view :: "('n, 'cb) sdk_world \<Rightarrow> 'cb event_world" where
  "event_view w = \<lparr>sub = the (sdk_eventSub (w_sdk w)), pending = w_pending w\<rparr>"

definition amop_effects :: "('n, 'cb) sdk_effect list \<Rightarrow> 'cb amop_effect list" where
  "amop_effects es = List.map_filter (\<lambda>e. case e of Amop_effect a \<Rightarrow> Some a | _ \<Rightarrow> None) es"

definition event_effects :: "('n, 'cb) sdk_effect list \<Rightarrow> 'cb event_effect list" where
  "event_effects es = List.map_filter (\<lambda>e. case e of Event_effect a \<Rightarrow> Some a | _ \<Rightarrow> None) es"

definition after :: "('n, 'cb) sdk \<times> ('n, 'cb) sdk_effect list \<Rightarrow> ('n, 'cb) sdk_world \<Rightarrow> ('n, 'cb) sdk_world" where
  "after r w = w\<lparr>w_sdk := fst r, w_log := w_log w @ amop_effects (snd r), w_pending := w_pending w @ sends (event_effects (snd r))\<rparr>"

text \<open>The operations of the service that the application calls.\<close>

fun service_call :: "(handshake_handler, 'n) service_op \<Rightarrow> bool" where
  "service_call (Op_notifier g cb) = True"
| "service_call (Op_remove g) = True"
| "service_call (Op_handler h) = (h \<noteq> Amop_update_topics)"
| "service_call (Op_timeout t) = True"
| "service_call _ = False"

inductive sdk_step ::
  "jsoncpp \<Rightarrow> net_ext \<Rightarrow> (nat \<Rightarrow> string) \<Rightarrow> (nat \<Rightarrow> string) \<Rightarrow> ('n, 'cb) sdk_world \<Rightarrow> ('n, 'cb) sdk_world \<Rightarrow> bool"
  for J N seq_a seq_e where
  Sdk_message: "sdk_onRecvMessage J N msg session (w_sdk w) = Inr r \<Longrightarrow> sdk_step J N seq_a seq_e w (after r w)"
| Sdk_handshake: "accepted J err bs \<noteq> None \<Longrightarrow>
    sdk_step J N seq_a seq_e w
      (after (sdk_handshake J seq_a err bs ep ep (w_sdk w)) (w\<lparr>w_sessions := w_sessions w @ [ep]\<rparr>))"
| Sdk_handshake_failed: "accepted J err bs = None \<Longrightarrow>
    sdk_step J N seq_a seq_e w (after (sdk_handshake J seq_a err bs ep ep (w_sdk w)) w)"
| Sdk_disconnect:
    "sdk_step J N seq_a seq_e w
       (after (sdk_onDisconnect (Some ses) (w_sdk w), []) (w\<lparr>w_sessions := removeAll (ses_endPoint ses) (w_sessions w)\<rparr>))"
| Sdk_service: "service_call op \<Longrightarrow>
    sdk_step J N seq_a seq_e w (w\<lparr>w_sdk := (w_sdk w)\<lparr>sdk_service := service_exec J op (sdk_service (w_sdk w))\<rparr>\<rparr>)"
| Sdk_amop: "amop_step J N seq_a (amop_view w) a \<Longrightarrow> sessions a = w_sessions w \<Longrightarrow>
    sdk_step J N seq_a seq_e w (w\<lparr>w_sdk := (w_sdk w)\<lparr>sdk_amop := Some (client a)\<rparr>, w_log := log a\<rparr>)"
| Sdk_event: "event_step J seq_e (event_view w) v \<Longrightarrow>
    sdk_step J N seq_a seq_e w (w\<lparr>w_sdk := (w_sdk w)\<lparr>sdk_eventSub := Some (sub v)\<rparr>, w_pending := pending v\<rparr>)"

definition sdk_world_init :: "bool \<Rightarrow> ('n, 'cb) sdk_world" where
  "sdk_world_init highest = \<lparr>w_sdk = buildSdk highest, w_sessions = [], w_log = [], w_pending = []\<rparr>"

definition sdk_reachable ::
  "jsoncpp \<Rightarrow> net_ext \<Rightarrow> (nat \<Rightarrow> string) \<Rightarrow> (nat \<Rightarrow> string) \<Rightarrow> bool \<Rightarrow> ('n, 'cb) sdk_world \<Rightarrow> bool" where
  "sdk_reachable J N seq_a seq_e highest w \<longleftrightarrow> (sdk_step J N seq_a seq_e)\<^sup>*\<^sup>* (sdk_world_init highest) w"

section \<open>What stays as it was assembled\<close>

definition assembled :: "('n, 'cb) sdk \<Rightarrow> bool" where
  "assembled k \<longleftrightarrow> sdk_msgHandlers k =
      [(BLOCK_NOTIFY, Handle_block_notify), (GROUP_NOTIFY, Handle_group_notify), (AMOP_REQUEST, Handle_amop_request),
       (AMOP_RESPONSE, Handle_amop_response), (AMOP_BROADCAST, Handle_amop_broadcast), (EVENT_LOG_PUSH, Handle_event_push)] \<and>
     sdk_disconnectHandlers k = [Event_suspend_tasks] \<and> sdk_amop k \<noteq> None \<and> sdk_eventSub k \<noteq> None \<and>
     filter (\<lambda>h. h = Amop_update_topics) (m_wsHandshakeSucHandlers (sdk_service k)) = [Amop_update_topics]"

lemma buildSdk_parts:
  "assembled (buildSdk highest)" "sdk_amop (buildSdk highest) = Some amop_init"
  "sdk_eventSub (buildSdk highest) = Some event_init"
  "sdk_service (buildSdk highest) = run J [Op_handler Amop_update_topics]"
  "sdk_jsonRpc (buildSdk highest) = new_json_rpc highest"
  by (simp_all add: assembled_def buildSdk_def buildEventSub_def buildJsonRpc_def buildAMOP_def buildService_def Let_def
      registerMsgHandler_def registerWsHandshakeSucHandler_def new_service_def run_def)

lemma effects_simps [simp]:
  "amop_effects [] = []" "amop_effects (es @ fs) = amop_effects es @ amop_effects fs"
  "amop_effects (map Amop_effect as) = as" "amop_effects (map Service_effect ss) = []" "amop_effects (map Event_effect vs) = []"
  "amop_effects [Handler_exception] = []"
  "event_effects [] = []" "event_effects (es @ fs) = event_effects es @ event_effects fs"
  "event_effects (map Amop_effect as) = []" "event_effects (map Service_effect ss) = []" "event_effects (map Event_effect vs) = vs"
  "event_effects [Handler_exception] = []"
proof -
  show "amop_effects (map Amop_effect as) = as" "amop_effects (map Service_effect ss) = []" "amop_effects (map Event_effect vs) = []"
    by (induction as, induction ss, induction vs) (simp_all add: amop_effects_def List.map_filter_def)
qed (simp_all add: amop_effects_def event_effects_def List.map_filter_def comp_def)

lemma effects_Cons [simp]:
  "amop_effects (Amop_effect a # es) = a # amop_effects es" "amop_effects (Service_effect s # es) = amop_effects es"
  "event_effects (Amop_effect a # es) = event_effects es" "event_effects (Service_effect s # es) = event_effects es"
  by (simp_all add: amop_effects_def event_effects_def List.map_filter_def)

text \<open>The operations of the service other than registrations keep its handlers.\<close>

lemma handlers_kept [simp]:
  "m_wsHandshakeSucHandlers (updateGroupInfoByEp ep gi s) = m_wsHandshakeSucHandlers s"
  "m_wsHandshakeSucHandlers (clearGroupInfoByEp ep s) = m_wsHandshakeSucHandlers s"
  "m_wsHandshakeSucHandlers (fst (updateGroupBlockNumber g n s)) = m_wsHandshakeSucHandlers s"
  "m_wsHandshakeSucHandlers (update_nodes g node a b s) = m_wsHandshakeSucHandlers s"
  "m_wsHandshakeSucHandlers (fst (block_notified g node n s)) = m_wsHandshakeSucHandlers s"
  by (auto simp: updateGroupInfoByEp_def insert_group_nodes_def clearGroupInfoByEp_group_def updateGroupInfo_def
      clearGroupInfoByEp_def updateGroupBlockNumber_def update_nodes_def block_notified_def Let_def split_def
      split: option.splits)

lemma handlers_folds [simp]:
  "m_wsHandshakeSucHandlers (fold (updateGroupInfoByEp ep) gs s) = m_wsHandshakeSucHandlers s"
  "m_wsHandshakeSucHandlers (fold (\<lambda>(g, n) s. fst (updateGroupBlockNumber g n s)) bs s) = m_wsHandshakeSucHandlers s"
proof -
  show "m_wsHandshakeSucHandlers (fold (updateGroupInfoByEp ep) gs s) = m_wsHandshakeSucHandlers s"
    by (induction gs arbitrary: s) simp_all
  show "m_wsHandshakeSucHandlers (fold (\<lambda>(g, n) s. fst (updateGroupBlockNumber g n s)) bs s) = m_wsHandshakeSucHandlers s"
    by (induction bs arbitrary: s) (simp_all add: split_def)
qed

lemma handlers_handshake [simp]: "m_wsHandshakeSucHandlers (apply_handshake ep r s) = m_wsHandshakeSucHandlers s"
  by (simp add: apply_handshake_def increaseHandshakeSucCount_def Let_def)

lemma handlers_exec:
  "m_wsHandshakeSucHandlers (service_exec J op s) =
     m_wsHandshakeSucHandlers s @ (case op of Op_handler h \<Rightarrow> [h] | _ \<Rightarrow> [])"
  by (cases op)
    (auto simp: handshake_callback_accepted Let_def onDisconnect_def service_msgHandler_cases split_def
      registerBlockNumberNotifier_def removeBlockNumberInfo_def registerWsHandshakeSucHandler_def setWsHandshakeTimeout_def
      split: option.splits)

section \<open>What the handlers do\<close>

definition runs_topics :: "(handshake_handler, 'n) service_effect \<Rightarrow> bool" where
  "runs_topics e \<longleftrightarrow> (case e of Handshake_handler Amop_update_topics ep \<Rightarrow> True | _ \<Rightarrow> False)"

lemma other_handlers:
  "\<forall>e \<in> set es. \<not> runs_topics e \<Longrightarrow> run_handshakeHandlers J new_seq es k = (k, map Service_effect es)"
  by (induction es) (auto simp: runs_topics_def split: service_effect.splits handshake_handler.splits)

lemma topics_handler:
  assumes "\<forall>e \<in> set xs. \<not> runs_topics e" and "\<forall>e \<in> set ys. \<not> runs_topics e" and "sdk_amop k = Some a"
  shows "run_handshakeHandlers J new_seq (xs @ Handshake_handler Amop_update_topics ep # ys) k =
    (k\<lparr>sdk_amop := Some (fst (updateTopicsToRemote_session J new_seq ep a))\<rparr>,
     map Service_effect xs @ map Amop_effect (snd (updateTopicsToRemote_session J new_seq ep a)) @ map Service_effect ys)"
  using assms(1)
proof (induction xs)
  case Nil
  show ?case using assms(3) by (simp add: split_def Let_def other_handlers [OF assms(2)])
next
  case (Cons e xs)
  then show ?case by (auto simp: runs_topics_def split_def Let_def split: service_effect.splits handshake_handler.splits)
qed

lemma once_split:
  assumes "filter P xs = [x]" shows "\<exists>ys zs. xs = ys @ x # zs \<and> (\<forall>y \<in> set ys. \<not> P y) \<and> (\<forall>z \<in> set zs. \<not> P z)"
proof -
  obtain ys zs where "xs = ys @ x # zs" "\<forall>y \<in> set ys. \<not> P y" "filter P zs = []"
    using assms by (auto simp: filter_eq_Cons_iff)
  then show ?thesis by (auto simp: filter_empty_conv)
qed

text \<open>An accepted handshake: the tables of the service, and one message with the topics.\<close>

lemma sdk_handshake_accepted:
  fixes k :: "('n, 'cb) sdk"
  assumes k: "assembled k" and r: "accepted J err bs = Some r" and a: "sdk_amop k = Some a"
  shows "\<exists>xs ys. sdk_handshake J new_seq err bs ep session k =
    (k\<lparr>sdk_service := apply_handshake ep r (sdk_service k),
       sdk_amop := Some (fst (updateTopicsToRemote_session J new_seq session a))\<rparr>,
     map Service_effect xs @ map Amop_effect (snd (updateTopicsToRemote_session J new_seq session a)) @ map Service_effect ys)"
proof -
  let ?s = "apply_handshake ep r (sdk_service k)"
  have "filter (\<lambda>h. h = Amop_update_topics) (m_wsHandshakeSucHandlers (sdk_service k)) = [Amop_update_topics]"
    using k by (simp add: assembled_def)
  from once_split [OF this] obtain hs gs where h: "m_wsHandshakeSucHandlers (sdk_service k) = hs @ Amop_update_topics # gs"
    and n: "\<forall>h \<in> set hs. h \<noteq> Amop_update_topics" "\<forall>h \<in> set gs. h \<noteq> Amop_update_topics" by blast
  define xs :: "(handshake_handler, 'n) service_effect list" where "xs = Set_version ep (sint (the (m_protocolVersion r))) # map (\<lambda>h. Handshake_handler h session) hs"
  define ys :: "(handshake_handler, 'n) service_effect list" where "ys = map (\<lambda>h. Handshake_handler h session) gs"
  have q: "\<forall>e \<in> set xs. \<not> runs_topics e" "\<forall>e \<in> set ys. \<not> runs_topics e"
    using n by (auto simp: xs_def ys_def runs_topics_def split: handshake_handler.splits)
  have e: "handshake_callback J err bs ep session (sdk_service k) =
      (?s, xs @ Handshake_handler Amop_update_topics session # ys)"
    by (simp add: handshake_callback_accepted r Let_def callWsHandshakeSucHandlers_def h xs_def ys_def)
  have "sdk_amop (k\<lparr>sdk_service := ?s\<rparr>) = Some a" using a by simp
  from topics_handler [OF q this] show ?thesis unfolding sdk_handshake_def e Let_def by auto
qed

lemma sdk_handshake_refused:
  assumes "accepted J err bs = None"
  shows "\<exists>ep'. sdk_handshake J new_seq err bs ep session k = (k, [Service_effect (Drop_session ep')])"
  using assms by (auto simp: sdk_handshake_def handshake_callback_accepted Let_def)

lemma sdk_disconnected:
  assumes "assembled k" and "sdk_eventSub k = Some st"
  shows "sdk_onDisconnect session k =
    k\<lparr>sdk_service := service_exec J (Op_disconnect session) (sdk_service k),
      sdk_eventSub := Some (fst (suspendTasks (map_option ses_endPoint session) st))\<rparr>"
  using assms by (simp add: sdk_onDisconnect_def assembled_def Let_def)

text \<open>A message: it reaches the component whose packet type it has, through the handler of that type.\<close>

definition handler_type :: "msg_handler \<Rightarrow> nat" where
  "handler_type h = (case h of Handle_block_notify \<Rightarrow> BLOCK_NOTIFY | Handle_group_notify \<Rightarrow> GROUP_NOTIFY
     | Handle_amop_request \<Rightarrow> AMOP_REQUEST | Handle_amop_response \<Rightarrow> AMOP_RESPONSE
     | Handle_amop_broadcast \<Rightarrow> AMOP_BROADCAST | Handle_event_push \<Rightarrow> EVENT_LOG_PUSH)"

lemma handler_found: "assembled k \<Longrightarrow> map_of (sdk_msgHandlers k) t = Some h \<longleftrightarrow> t = handler_type h"
  by (cases h) (auto simp: assembled_def handler_type_def BLOCK_NOTIFY_def GROUP_NOTIFY_def packet_types EVENT_LOG_PUSH_def)

lemma run_msgHandler_service:
  assumes "packetType msg = handler_type h" and "h = Handle_block_notify \<or> h = Handle_group_notify"
  shows "fst (run_msgHandler J N h msg ep k) = k\<lparr>sdk_service := service_exec J (Op_message msg ep) (sdk_service k)\<rparr> \<and>
    amop_effects (snd (run_msgHandler J N h msg ep k)) = [] \<and> event_effects (snd (run_msgHandler J N h msg ep k)) = []"
proof -
  have "BLOCK_NOTIFY \<noteq> GROUP_NOTIFY" by (simp add: BLOCK_NOTIFY_def GROUP_NOTIFY_def)
  then show ?thesis using assms
    by (auto simp: run_msgHandler_def handler_type_def service_msgHandler_def split: sum.splits)
qed

lemma run_msgHandler_amop:
  assumes "packetType msg = handler_type h" and "sdk_amop k = Some a"
    and "h \<in> {Handle_amop_request, Handle_amop_response, Handle_amop_broadcast}"
  shows "run_msgHandler J N h msg ep k =
    (k, case amop_msgHandler N msg ep a of Some (Inr out) \<Rightarrow> map Amop_effect out | _ \<Rightarrow> [Handler_exception])"
  using assms by (auto simp: run_msgHandler_def handler_type_def amop_msgHandler_def packet_types split: sum.splits)

lemma run_msgHandler_event:
  assumes "sdk_eventSub k = Some st"
  shows "run_msgHandler J N Handle_event_push msg ep k =
    (k\<lparr>sdk_eventSub := Some (fst (onRecvEventSubMessage J (payload msg) st))\<rparr>,
     map Event_effect (snd (onRecvEventSubMessage J (payload msg) st)))"
  using assms by (simp add: run_msgHandler_def split_def Let_def)

lemma sdk_message_cases:
  assumes k: "assembled k" "sdk_amop k = Some a" "sdk_eventSub k = Some st"
    and r: "sdk_onRecvMessage J N msg session k = Inr r"
  obtains (nothing) "fst r = k" "amop_effects (snd r) = []" "event_effects (snd r) = []"
  | (service) ep where "fst r = k\<lparr>sdk_service := service_exec J (Op_message msg ep) (sdk_service k)\<rparr>"
      "amop_effects (snd r) = []" "event_effects (snd r) = []"
  | (amop) ep out where "amop_msgHandler N msg ep a = Some (Inr out)" "fst r = k" "amop_effects (snd r) = out"
      "event_effects (snd r) = []"
  | (event) "fst r = k\<lparr>sdk_eventSub := Some (fst (onRecvEventSubMessage J (payload msg) st))\<rparr>"
      "amop_effects (snd r) = []" "event_effects (snd r) = snd (onRecvEventSubMessage J (payload msg) st)"
proof -
  from r obtain es where e: "r = (case (session, map_of (sdk_msgHandlers k) (packetType msg)) of
       (Some ses, Some h) \<Rightarrow> if es = [Base_onRecvMessage msg] then run_msgHandler J N h msg (ses_endPoint ses) k
         else (k, map Service_effect es)
     | _ \<Rightarrow> (k, map Service_effect es))"
    unfolding sdk_onRecvMessage_def by (auto elim!: bindE_InrE)
  show ?thesis
  proof (cases "\<exists>ses h. session = Some ses \<and> map_of (sdk_msgHandlers k) (packetType msg) = Some h \<and> es = [Base_onRecvMessage msg]")
    case True
    then obtain ses h where m: "session = Some ses" "map_of (sdk_msgHandlers k) (packetType msg) = Some h" "es = [Base_onRecvMessage msg]"
      by blast
    have h: "packetType msg = handler_type h" "r = run_msgHandler J N h msg (ses_endPoint ses) k"
      using e m handler_found [OF k(1)] by simp_all
    show ?thesis
    proof (cases "h = Handle_event_push")
      case True
      then show ?thesis using event h(2) run_msgHandler_event [OF k(3)] by simp
    next
      case False
      then consider "h = Handle_block_notify \<or> h = Handle_group_notify"
        | "h \<in> {Handle_amop_request, Handle_amop_response, Handle_amop_broadcast}" by (cases h) auto
      then show ?thesis
      proof cases
        case 1
        then show ?thesis using service run_msgHandler_service [OF h(1)] h(2) by blast
      next
        case 2
        note m = run_msgHandler_amop [OF h(1) k(2) 2, of J N "ses_endPoint ses"]
        show ?thesis
        proof (cases "\<exists>out. amop_msgHandler N msg (ses_endPoint ses) a = Some (Inr out)")
          case True
          then show ?thesis using amop m h(2) by auto
        next
          case False
          then have e: "r = (k, [Handler_exception])" using m h(2) by (auto split: option.splits sum.splits)
          show ?thesis by (rule nothing) (simp_all add: e)
        qed
      qed
    qed
  next
    case False
    then have e: "r = (k, map Service_effect es)" unfolding e by (auto split: option.splits)
    show ?thesis by (rule nothing) (simp_all add: e)
  qed
qed

section \<open>Executions of the SDK are executions of its components\<close>

definition sdk_good ::
  "jsoncpp \<Rightarrow> net_ext \<Rightarrow> (nat \<Rightarrow> string) \<Rightarrow> (nat \<Rightarrow> string) \<Rightarrow> ('n, 'cb) sdk_world \<Rightarrow> bool" where
  "sdk_good J N seq_a seq_e w \<longleftrightarrow> assembled (w_sdk w) \<and> amop_reachable J N seq_a (amop_view w) \<and>
     event_reachable J seq_e (event_view w) \<and> (\<exists>ops. sdk_service (w_sdk w) = run J ops)"

lemma amop_reachable_step: "amop_reachable J N seq_a v \<Longrightarrow> amop_step J N seq_a v v' \<Longrightarrow> amop_reachable J N seq_a v'"
  unfolding amop_reachable_def by (rule rtranclp.rtrancl_into_rtrancl)

lemma event_reachable_step: "event_reachable J seq_e v \<Longrightarrow> event_step J seq_e v v' \<Longrightarrow> event_reachable J seq_e v'"
  unfolding event_reachable_def by (rule rtranclp.rtrancl_into_rtrancl)

lemma sdk_good_init: "sdk_good J N seq_a seq_e (sdk_world_init highest :: ('n, 'cb) sdk_world)"
proof -
  let ?w = "sdk_world_init highest :: ('n, 'cb) sdk_world"
  have "amop_view ?w = amop_world_init" "event_view ?w = event_world_init"
    by (simp_all add: amop_view_def event_view_def sdk_world_init_def buildSdk_parts amop_world_init_def event_world_init_def)
  moreover have "w_sdk ?w = buildSdk highest" by (simp add: sdk_world_init_def)
  moreover have "\<exists>ops. sdk_service (buildSdk highest :: ('n, 'cb) sdk) = run J ops" using buildSdk_parts(4) by blast
  ultimately show ?thesis
    by (simp add: sdk_good_def amop_reachable_def event_reachable_def buildSdk_parts(1))
qed

lemma sdk_good_step: "sdk_step J N seq_a seq_e w w' \<Longrightarrow> sdk_good J N seq_a seq_e w \<Longrightarrow> sdk_good J N seq_a seq_e w'"
proof (induction rule: sdk_step.induct)
  case (Sdk_message msg session w r)
  let ?k = "w_sdk w"
  have k: "assembled ?k" using Sdk_message.prems by (simp add: sdk_good_def)
  obtain a st where as: "sdk_amop ?k = Some a" "sdk_eventSub ?k = Some st" using k by (auto simp: assembled_def)
  show ?case using k as Sdk_message.hyps
  proof (cases rule: sdk_message_cases)
    case nothing
    then show ?thesis using Sdk_message.prems by (simp add: sdk_good_def after_def amop_view_def event_view_def)
  next
    case (service ep)
    have "\<exists>ops. service_exec J (Op_message msg ep) (sdk_service ?k) = run J ops"
      using Sdk_message.prems run_snoc(1) unfolding sdk_good_def by metis
    then show ?thesis using Sdk_message.prems service
      by (simp add: sdk_good_def after_def amop_view_def event_view_def assembled_def handlers_exec del: service_exec.simps)
  next
    case (amop ep out)
    have "amop_step J N seq_a (amop_view w) (amop_view w\<lparr>log := log (amop_view w) @ out\<rparr>)"
      by (rule Step_receive) (use amop as in \<open>simp add: amop_view_def\<close>)
    then have "amop_reachable J N seq_a (amop_view w\<lparr>log := log (amop_view w) @ out\<rparr>)"
      using Sdk_message.prems amop_reachable_step unfolding sdk_good_def by blast
    then show ?thesis using Sdk_message.prems amop by (simp add: sdk_good_def after_def amop_view_def event_view_def)
  next
    case event
    have "event_step J seq_e (event_view w) (EventProps.advance (onRecvEventSubMessage J (payload msg) (sub (event_view w))) (event_view w))"
      by (rule Ev_push)
    then have "event_reachable J seq_e (EventProps.advance (onRecvEventSubMessage J (payload msg) (sub (event_view w))) (event_view w))"
      using Sdk_message.prems event_reachable_step unfolding sdk_good_def by blast
    then show ?thesis using Sdk_message.prems event as
      by (simp add: sdk_good_def after_def amop_view_def event_view_def assembled_def EventProps.advance_def)
  qed
next
  case (Sdk_handshake err bs w ep)
  let ?k = "w_sdk w" and ?w = "w\<lparr>w_sessions := w_sessions w @ [ep]\<rparr>"
  have k: "assembled ?k" using Sdk_handshake.prems by (simp add: sdk_good_def)
  obtain a where a: "sdk_amop ?k = Some a" using k by (auto simp: assembled_def)
  obtain r where r: "accepted J err bs = Some r" using Sdk_handshake.hyps by blast
  let ?u = "updateTopicsToRemote_session J seq_a ep"
  obtain xs ys where h: "sdk_handshake J seq_a err bs ep ep ?k =
      (?k\<lparr>sdk_service := apply_handshake ep r (sdk_service ?k), sdk_amop := Some (fst (?u a))\<rparr>,
       map Service_effect xs @ map Amop_effect (snd (?u a)) @ map Service_effect ys)"
    using sdk_handshake_accepted [OF k r a] by blast
  have "amop_step J N seq_a (amop_view w) (run_op ?u ((amop_view w)\<lparr>sessions := sessions (amop_view w) @ [ep]\<rparr>))"
    by (rule Step_handshake)
  then have "amop_reachable J N seq_a (run_op ?u ((amop_view w)\<lparr>sessions := sessions (amop_view w) @ [ep]\<rparr>))"
    using Sdk_handshake.prems amop_reachable_step unfolding sdk_good_def by blast
  moreover have "run_op ?u ((amop_view w)\<lparr>sessions := sessions (amop_view w) @ [ep]\<rparr>) =
      amop_view (after (sdk_handshake J seq_a err bs ep ep ?k) ?w)"
    unfolding h by (simp add: amop_view_def run_op_def after_def a)
  moreover have "apply_handshake ep r (sdk_service ?k) = service_exec J (Op_handshake err bs ep ep) (sdk_service ?k)"
    by (simp add: handshake_callback_accepted r Let_def)
  then have "\<exists>ops. apply_handshake ep r (sdk_service ?k) = run J ops"
    using Sdk_handshake.prems run_snoc(1) unfolding sdk_good_def by metis
  moreover have "event_view (after (sdk_handshake J seq_a err bs ep ep ?k) ?w) = event_view w"
    unfolding h by (simp add: event_view_def after_def)
  moreover have "assembled (w_sdk (after (sdk_handshake J seq_a err bs ep ep ?k) ?w))"
    unfolding h using k by (simp add: after_def assembled_def)
  ultimately show ?case using Sdk_handshake.prems unfolding sdk_good_def by (simp add: after_def h)
next
  case (Sdk_handshake_failed err bs w ep)
  obtain ep' where e: "sdk_handshake J seq_a err bs ep ep (w_sdk w) = (w_sdk w, [Service_effect (Drop_session ep')])"
    using sdk_handshake_refused [OF Sdk_handshake_failed.hyps] by blast
  show ?case unfolding e using Sdk_handshake_failed.prems
    by (simp add: sdk_good_def after_def amop_view_def event_view_def)
next
  case (Sdk_disconnect w ses)
  let ?k = "w_sdk w" and ?ep = "ses_endPoint ses"
  have k: "assembled ?k" using Sdk_disconnect.prems by (simp add: sdk_good_def)
  obtain st where st: "sdk_eventSub ?k = Some st" using k by (auto simp: assembled_def)
  note d = sdk_disconnected [OF k st, of "Some ses" J]
  have "amop_reachable J N seq_a ((amop_view w)\<lparr>sessions := removeAll ?ep (sessions (amop_view w))\<rparr>)"
    using Sdk_disconnect.prems amop_reachable_step Step_disconnect unfolding sdk_good_def by blast
  moreover have "event_reachable J seq_e (EventProps.advance (fst (suspendTasks (Some ?ep) (sub (event_view w))), []) (event_view w))"
    using Sdk_disconnect.prems event_reachable_step Ev_disconnect unfolding sdk_good_def by blast
  moreover have "\<exists>ops. service_exec J (Op_disconnect (Some ses)) (sdk_service ?k) = run J ops"
    using Sdk_disconnect.prems run_snoc(1) unfolding sdk_good_def by metis
  moreover have "m_wsHandshakeSucHandlers (service_exec J (Op_disconnect (Some ses)) (sdk_service ?k)) =
      m_wsHandshakeSucHandlers (sdk_service ?k)"
    unfolding handlers_exec by simp
  ultimately show ?case using k st
    unfolding sdk_good_def after_def fst_conv snd_conv d
    by (simp add: amop_view_def event_view_def assembled_def EventProps.advance_def del: service_exec.simps)
next
  case (Sdk_service op w)
  have "\<exists>ops. service_exec J op (sdk_service (w_sdk w)) = run J ops"
    using Sdk_service.prems run_snoc(1) unfolding sdk_good_def by metis
  moreover have "filter (\<lambda>h. h = Amop_update_topics) (case op of Op_handler h \<Rightarrow> [h] | _ \<Rightarrow> []) = []"
    using Sdk_service.hyps by (cases op) simp_all
  ultimately show ?case using Sdk_service.prems
    by (simp add: sdk_good_def assembled_def handlers_exec amop_view_def event_view_def del: service_exec.simps)
next
  case (Sdk_amop w a)
  let ?w = "w\<lparr>w_sdk := (w_sdk w)\<lparr>sdk_amop := Some (client a)\<rparr>, w_log := log a\<rparr>"
  have "amop_view ?w = a" "event_view ?w = event_view w"
    using Sdk_amop.hyps(2) by (cases a; simp add: amop_view_def event_view_def)+
  moreover have "amop_reachable J N seq_a a"
    using Sdk_amop.prems Sdk_amop.hyps(1) amop_reachable_step unfolding sdk_good_def by blast
  ultimately show ?case using Sdk_amop.prems by (simp add: sdk_good_def assembled_def)
next
  case (Sdk_event w v)
  let ?w = "w\<lparr>w_sdk := (w_sdk w)\<lparr>sdk_eventSub := Some (sub v)\<rparr>, w_pending := pending v\<rparr>"
  have "event_view ?w = v" "amop_view ?w = amop_view w" by (cases v; simp add: amop_view_def event_view_def)+
  moreover have "event_reachable J seq_e v"
    using Sdk_event.prems Sdk_event.hyps event_reachable_step unfolding sdk_good_def by blast
  ultimately show ?case using Sdk_event.prems by (simp add: sdk_good_def assembled_def)
qed

interpretation sdk_sys: invariant_system "sdk_step J N seq_a seq_e" "sdk_world_init highest" "sdk_good J N seq_a seq_e"
  for J N seq_a seq_e highest
  by unfold_locales (rule sdk_good_init sdk_good_step; assumption?)+

section \<open>The assembled SDK\<close>

lemma sdk_reachable_good: "sdk_reachable J N seq_a seq_e highest w \<Longrightarrow> sdk_good J N seq_a seq_e w"
  unfolding sdk_reachable_def by (rule sdk_sys.inv_reachable)

lemma sdk_reachable_step:
  "sdk_reachable J N seq_a seq_e highest w \<Longrightarrow> sdk_step J N seq_a seq_e w w' \<Longrightarrow> sdk_reachable J N seq_a seq_e highest w'"
  unfolding sdk_reachable_def by (rule rtranclp.rtrancl_into_rtrancl)

text \<open>An example: a node announces a group after its handshake, in a message to the SDK.\<close>

definition example_session :: ws_session where
  "example_session = \<lparr>ses_endPoint = ''ep'', ses_version = 1\<rparr>"

definition demo_sdk :: "(nat, nat) sdk_world" where
  "demo_sdk = (case sdk_onRecvMessage jsoncpp0 net_ext0 example_announcement (Some example_session)
       (w_sdk (sdk_world_init True)) of
     Inr r \<Rightarrow> after r (sdk_world_init True) | Inl _ \<Rightarrow> sdk_world_init True)"

lemma demo_message:
  "\<exists>r. sdk_onRecvMessage jsoncpp0 net_ext0 example_announcement (Some example_session)
     (w_sdk (sdk_world_init True :: (nat, nat) sdk_world)) = Inr r \<and> demo_sdk = after r (sdk_world_init True)"
  by (simp add: demo_sdk_def sdk_onRecvMessage_def onRecvMessage_def checkHandshakeDone_def example_session_def split: sum.split)

lemma demo_sdk_reachable: "sdk_reachable jsoncpp0 net_ext0 (\<lambda>n. []) (\<lambda>n. []) True demo_sdk"
proof -
  obtain r where r: "sdk_onRecvMessage jsoncpp0 net_ext0 example_announcement (Some example_session)
      (w_sdk (sdk_world_init True :: (nat, nat) sdk_world)) = Inr r" and e: "demo_sdk = after r (sdk_world_init True)"
    using demo_message by blast
  have "sdk_step jsoncpp0 net_ext0 (\<lambda>n. []) (\<lambda>n. []) (sdk_world_init True) demo_sdk"
    unfolding e by (rule Sdk_message [OF r])
  then show ?thesis unfolding sdk_reachable_def by (rule r_into_rtranclp)
qed

lemma demo_sdk_service:
  "sdk_service (w_sdk demo_sdk) = run jsoncpp0 [Op_handler Amop_update_topics, Op_message example_announcement ''ep'']"
proof -
  let ?k = "w_sdk (sdk_world_init True :: (nat, nat) sdk_world)"
  have k: "?k = buildSdk True" by (simp add: sdk_world_init_def)
  have a: "assembled ?k" unfolding k by (rule buildSdk_parts)
  have t: "packetType example_announcement = handler_type Handle_group_notify"
    by (simp add: example_announcement_def handler_type_def)
  have h: "map_of (sdk_msgHandlers ?k) (packetType example_announcement) = Some Handle_group_notify"
    unfolding handler_found [OF a] by (rule t)
  have "sdk_service (w_sdk demo_sdk) = service_exec jsoncpp0 (Op_message example_announcement ''ep'') (sdk_service ?k)"
    using run_msgHandler_service [OF t, of jsoncpp0 net_ext0 "''ep''" ?k] h
    by (simp add: demo_sdk_def sdk_onRecvMessage_def onRecvMessage_def checkHandshakeDone_def example_session_def after_def
        del: service_exec.simps)
  then show ?thesis unfolding k buildSdk_parts(4) [of True jsoncpp0] run_def by (simp del: service_exec.simps)
qed

text \<open>Claim C15. Every execution of the assembled SDK, its network acting through the registered handlers and the
  application through the calls of the components, is an execution of each component: the AMOP client and the event
  client are in a state of their own transition systems, and the service is the result of a sequence of its operations.
  So the invariants and specifications of the components hold of the assembled SDK.\<close>
theorem sdk_projects:
  assumes "sdk_reachable J N seq_a seq_e highest w"
  shows "amop_reachable J N seq_a (amop_view w) \<and> event_reachable J seq_e (event_view w) \<and>
    (\<exists>ops. sdk_service (w_sdk w) = run J ops) \<and> assembled (w_sdk w)"
  using sdk_reachable_good [OF assms] by (simp add: sdk_good_def)

theorem sdk_projects_witness:
  "amop_reachable jsoncpp0 net_ext0 (\<lambda>n. []) (amop_view demo_sdk) \<and>
   sdk_service (w_sdk demo_sdk) = run jsoncpp0 [Op_handler Amop_update_topics, Op_message example_announcement ''ep'']"
  using sdk_projects [OF demo_sdk_reachable] demo_sdk_service by simp

text \<open>Claim C17. An accepted handshake in any reachable state of the SDK: the announced groups enter the directory of
  the service, the new node and every other connected node were last told exactly the current topics of the AMOP client,
  the topics stay, and the event client is not touched.\<close>
theorem sdk_handshake_tells:
  assumes "sdk_reachable J N seq_a seq_e highest w" and "accepted J err bs = Some r"
  shows "let w' = after (sdk_handshake J seq_a err bs ep ep (w_sdk w)) (w\<lparr>w_sessions := w_sessions w @ [ep]\<rparr>) in
    directory_of (sdk_service (w_sdk w')) = fold (announce ep) (m_groupInfoList r) (directory_of (sdk_service (w_sdk w))) \<and>
    (\<forall>e \<in> set (w_sessions w) \<union> {ep}. remote_topics e (w_log w') =
       Some (bytes_of_string (toJson J (m_topicManager (the (sdk_amop (w_sdk w))))))) \<and>
    m_topicManager (the (sdk_amop (w_sdk w'))) = m_topicManager (the (sdk_amop (w_sdk w))) \<and>
    sdk_eventSub (w_sdk w') = sdk_eventSub (w_sdk w)"
proof -
  have k: "assembled (w_sdk w)" and i: "nodes_informed J (amop_view w)" and "\<exists>ops. sdk_service (w_sdk w) = run J ops"
    using sdk_reachable_good [OF assms(1)] reachable_informs by (auto simp: sdk_good_def)
  then obtain ops where ops: "sdk_service (w_sdk w) = run J ops" by blast
  have inv: "routing_inv (sdk_service (w_sdk w))" using run_inv [of J ops] by (simp add: ops service_inv_def)
  obtain a where a: "sdk_amop (w_sdk w) = Some a" using k by (auto simp: assembled_def)
  obtain xs ys where h: "sdk_handshake J seq_a err bs ep ep (w_sdk w) =
      ((w_sdk w)\<lparr>sdk_service := apply_handshake ep r (sdk_service (w_sdk w)),
         sdk_amop := Some (fst (updateTopicsToRemote_session J seq_a ep a))\<rparr>,
       map Service_effect xs @ map Amop_effect (snd (updateTopicsToRemote_session J seq_a ep a)) @ map Service_effect ys)"
    using sdk_handshake_accepted [OF k assms(2) a] by blast
  have "service_exec J (Op_handshake err bs ep ep) (sdk_service (w_sdk w)) = apply_handshake ep r (sdk_service (w_sdk w))"
    by (simp add: handshake_callback_accepted assms(2) Let_def)
  then have d: "directory_of (apply_handshake ep r (sdk_service (w_sdk w))) =
      fold (announce ep) (m_groupInfoList r) (directory_of (sdk_service (w_sdk w)))"
    using service_exec_directory [OF inv, of J "Op_handshake err bs ep ep"] by (simp add: assms(2))
  from handshake_informs [OF i, of seq_a ep] show ?thesis unfolding h Let_def
    by (simp add: d a after_def amop_view_def run_op_def nodes_informed_def)
qed

theorem sdk_handshake_tells_witness:
  "let w = after (sdk_handshake jsoncpp0 (\<lambda>n. []) None example_handshake ''peer'' ''peer'' (w_sdk demo_sdk))
         (demo_sdk\<lparr>w_sessions := w_sessions demo_sdk @ [''peer'']\<rparr>)
   in directory_of (sdk_service (w_sdk w)) ''ep'' ''group0'' = {''n0''} \<and> remote_topics ''peer'' (w_log w) \<noteq> None"
  using sdk_handshake_tells [OF demo_sdk_reachable example_accepted, of "''peer''"]
  by (simp add: Let_def demo_sdk_service run_directory example_directory del: directory_spec.simps)

text \<open>Claim C16. A disconnection in any reachable state of the SDK: its end point is no longer found for any group or
  node, the other end points are found as before, exactly the event tasks of that session, and those without one, move from
  the working to the suspended map, and the AMOP client stays.\<close>
theorem sdk_disconnect_clean:
  assumes "sdk_reachable J N seq_a seq_e highest w" and "ses_endPoint ses \<noteq> []"
  shows "let k = w_sdk w; k' = sdk_onDisconnect (Some ses) k; ep = ses_endPoint ses;
      st = the (sdk_eventSub k); st' = the (sdk_eventSub k') in
    (\<forall>g e. e \<in> set (fst (getEndPointsByGroup g (sdk_service k') [])) \<longleftrightarrow>
       e \<noteq> ep \<and> e \<in> set (fst (getEndPointsByGroup g (sdk_service k) []))) \<and>
    (\<forall>g n e. e \<in> set (fst (getEndPointsByGroupAndNode g n (sdk_service k') [])) \<longleftrightarrow>
       e \<noteq> ep \<and> e \<in> set (fst (getEndPointsByGroupAndNode g n (sdk_service k) []))) \<and>
    (\<forall>i. getTask i False st' = (case getTask i False st of
        Some a \<Rightarrow> if on_session ep st a then None else Some a | None \<Rightarrow> None) \<and>
      umap_find i (m_suspendTasks st') = (case getTask i False st of
        Some a \<Rightarrow> if on_session ep st a then Some a else None | None \<Rightarrow> umap_find i (m_suspendTasks st))) \<and>
    sdk_amop k' = sdk_amop k"
proof -
  let ?k = "w_sdk w" and ?ep = "ses_endPoint ses"
  let ?s = "service_exec J (Op_disconnect (Some ses)) (sdk_service ?k)"
  have k: "assembled ?k" and v: "event_reachable J seq_e (event_view w)" and "\<exists>ops. sdk_service ?k = run J ops"
    using sdk_reachable_good [OF assms(1)] by (simp_all add: sdk_good_def)
  then obtain ops where ops: "sdk_service ?k = run J ops" by blast
  have inv: "service_inv (sdk_service ?k)" using run_inv [of J ops] by (simp add: ops)
  obtain st where st: "sdk_eventSub ?k = Some st" using k by (auto simp: assembled_def)
  have r: "routing_inv ?s" "directory_of ?s = leave ?ep (directory_of (sdk_service ?k))"
    using service_exec_directory [of "sdk_service ?k" J "Op_disconnect (Some ses)"] inv assms(2) by (simp_all add: service_inv_def)
  have T: "table_ok (m_group2Node2Endpoints ?s)" "table_ok (m_group2Node2Endpoints (sdk_service ?k))"
    using r(1) service_inv_table [OF inv] by (simp_all add: routing_inv_def)
  have e: "e \<in> set (endpoints (m_group2Node2Endpoints ?s) g n) \<longleftrightarrow>
      e \<noteq> ?ep \<and> e \<in> set (endpoints (m_group2Node2Endpoints (sdk_service ?k)) g n)" for e g n
    unfolding endpoints_directory r(2) by (simp add: leave_def)
  have d: "getTask i False (fst (suspendTasks (Some ?ep) st)) = (case getTask i False st of
        Some a \<Rightarrow> if on_session ?ep st a then None else Some a | None \<Rightarrow> None) \<and>
      umap_find i (m_suspendTasks (fst (suspendTasks (Some ?ep) st))) = (case getTask i False st of
        Some a \<Rightarrow> if on_session ?ep st a then Some a else None | None \<Rightarrow> umap_find i (m_suspendTasks st))" for i
    using event_disconnect_suspends [OF v, of ?ep] st by (simp add: event_view_def Let_def)
  have k': "sdk_onDisconnect (Some ses) ?k =
      ?k\<lparr>sdk_service := ?s, sdk_eventSub := Some (fst (suspendTasks (Some ?ep) st))\<rparr>"
    using sdk_disconnected [OF k st, of "Some ses" J] by (simp del: service_exec.simps)
  have p: "sdk_service (sdk_onDisconnect (Some ses) ?k) = ?s" "sdk_amop (sdk_onDisconnect (Some ses) ?k) = sdk_amop ?k"
    "the (sdk_eventSub (sdk_onDisconnect (Some ses) ?k)) = fst (suspendTasks (Some ?ep) st)" "the (sdk_eventSub ?k) = st"
    unfolding k' by (simp_all add: st del: service_exec.simps)
  have g: "e \<in> set (fst (getEndPointsByGroup g ?s [])) \<longleftrightarrow>
      e \<noteq> ?ep \<and> e \<in> set (fst (getEndPointsByGroup g (sdk_service ?k) []))" for e g
    unfolding getEndPointsByGroup_endpoints [OF T(1)] getEndPointsByGroup_endpoints [OF T(2)] UN_iff e by blast
  show ?thesis unfolding Let_def p getEndPointsByGroupAndNode_endpoints using g e d by blast
qed

theorem sdk_disconnect_clean_witness:
  "''ep'' \<in> set (fst (getEndPointsByGroup ''group0'' (sdk_service (w_sdk demo_sdk)) [])) \<and>
   ''ep'' \<notin> set (fst (getEndPointsByGroup ''group0'' (sdk_service (sdk_onDisconnect (Some example_session) (w_sdk demo_sdk))) []))"
proof -
  have "''ep'' \<in> set (fst (getEndPointsByGroup ''group0'' (sdk_service (w_sdk demo_sdk)) []))"
    unfolding demo_sdk_service getEndPointsByGroup_endpoints [OF service_inv_table [OF run_inv]]
    by (simp add: endpoints_directory run_directory example_directory del: directory_spec.simps)
  then show ?thesis
    using sdk_disconnect_clean [OF demo_sdk_reachable, of example_session] by (simp add: Let_def example_session_def)
qed

section \<open>Starting\<close>

text \<open>
  The start of a fresh SDK starts the service four times, each of which waits for the connections again; and a start of
  the event client that throws leaves it marked as running, without its timer: no later start creates the timer.
\<close>

lemma start_all_ok: "\<forall>i. started i = Inr () \<Longrightarrow> start_all started i n = (i + n, Inr ())"
  by (induction n arbitrary: i) simp_all

lemma sdk_start_event_cases:
  "sdk_eventSub k = Some st \<Longrightarrow> sdk_start_event k =
     (if m_running st then (k, 0, False) else (k\<lparr>sdk_eventSub := Some (st\<lparr>m_running := True\<rparr>)\<rparr>, 1, True))"
  by (cases k) (simp add: sdk_start_event_def event_start_def)

lemma sdk_start_four_times:
  assumes "\<forall>i. started i = Inr ()"
  shows "\<exists>k. sdk_start started (buildSdk highest) = (k, True, 4, Inr ())"
  using assms by (simp add: sdk_start_def buildSdk_parts start_all_ok sdk_start_event_cases event_init_def)

lemma sdk_start_timer_lost:
  assumes "started 0 = Inr ()" "started 1 = Inr ()" "started 2 = Inl e" and "\<forall>i. started' i = Inr ()"
  shows "\<exists>k k'. sdk_start started (buildSdk highest) = (k, False, 3, Inl e) \<and> sdk_start started' k = (k', False, 3, Inr ())"
  using assms
  by (simp add: sdk_start_def buildSdk_parts start_all_ok sdk_start_event_cases event_init_def numeral_2_eq_2 numeral_3_eq_3)

end
