(* ===== verification/Spec2Isabelle.thy ===== *)
theory Spec2Isabelle
  imports ScaleSafety AmopProps EventTheorems RateLimiter AbiCallTheorems HandshakeTheorems
    JsonRpcTheorems TxJsonTheorems LegacyAbiTheorems LegacySignature AbiLiquid SdkTheorems
begin

text \<open>
  Verification of the FISCO BCOS C++ SDK (\<open>src/bcos-cpp-sdk\<close>).

  The SDK connects an application to the nodes of a chain over web sockets. The AMOP client
  (\<open>amop/\<close>) sends and receives messages on topics, the event client (\<open>event/\<close>) subscribes
  to contract events, the JSON-RPC client calls the nodes, and the utilities build and decode what
  is sent: the SCALE codec, the contract ABI, transactions, and a limiter for the rate of requests.
  Sessions, cryptography and JSON belong to other libraries (bcos-boostssl, bcos-crypto, jsoncpp);
  the JSON of transactions is read and written by the Tars runtime, which the repository contains.

  \<^bold>\<open>Conventions.\<close> A function that may throw returns a sum, \<open>Inl\<close> the exception, and
  \<open>bindE\<close> runs the next statement. Objects are records, and a method takes the record and
  returns it updated; messages sent and callbacks invoked are returned as lists of effects.
  Integers whose width matters are words. A library that is not part of the repository is a record
  of functions (\<open>scale_ext\<close>, \<open>net_ext\<close>, \<open>jsoncpp\<close>, \<open>abi_ext\<close>, \<open>boost_text\<close>,
  \<open>json_conv\<close>, \<open>hash_impl\<close>, \<open>bcos_crypto\<close>, \<open>bcos_hex\<close>, \<open>doubles\<close> for the floating point numbers of the
  machine, \<open>config_ext\<close>), an argument of the definitions that use it; what they rely on is a
  named predicate (\<open>scale_ext_ok\<close>, \<open>jsoncpp_ok\<close>, \<open>abi_ext_ok\<close>, \<open>boost_ok\<close>, \<open>trims\<close>, \<open>abi_env_ok\<close>, ...), and an instance
  (\<open>jsoncpp0\<close>, \<open>abi_ext0\<close>, ...) shows that it can hold.

  \<^bold>\<open>Theories.\<close>

  \<^item> \<open>Prelude\<close>: exceptions, byte images of numbers, strings as bytes, web socket messages, and
    the locales \<open>invariant_system\<close> for invariants of step relations and \<open>refinement_system\<close> for
    refinement by functions. \<open>StdSet\<close>: \<open>std::set\<close> as a sorted list, \<open>std::unordered_map\<close> as an
    association list and \<open>std::map\<close> as an ordered one. \<open>Json\<close>: JSON values and
    jsoncpp.

  \<^item> \<open>ScaleStream\<close>, \<open>ScaleCodec\<close>, \<open>ScaleTypes\<close>, \<open>ScaleSafety\<close>
    (\<open>utilities/abi/scale/\<close>): the streams and the encoders and decoders of every supported type,
    composed by a universe of types, with maps and the one byte form of an optional \<open>bool\<close>. Shown: round trip for every type, unambiguous encodings, the
    exact domain of compact integers, which decoders stay inside the buffer on arbitrary input and
    which do not, and the values on which the signed decoders overflow.

  \<^item> \<open>AmopRequest\<close>, \<open>Amop\<close>, \<open>AmopProps\<close> (\<open>amop/\<close>): the wire format of requests, the topic
    manager and the client. Shown: after any sequence of operations and connections every connected
    node has been told the current topics; requests are restored; truncated input is refused; a
    request reaches the callback of its topic or the default one.

  \<^item> \<open>EventMessages\<close>, \<open>EventSub\<close>, \<open>EventProps\<close>, \<open>EventTheorems\<close> (\<open>event/\<close>): the JSON
    messages, and the subscription tasks with their maps of working and suspended tasks, the timer
    loop that subscribes again, and pushed events, as a step relation over a heap of tasks. The error that the service
    answers at once for a group without an end point is the argument \<open>refuses\<close>; \<open>service_refuses\<close> of \<open>SdkAssembly\<close> computes
    it from the service. Shown:
    a task is in one map at a time and the counter is right; a task is subscribed once while a
    response is awaited; a lost session suspends exactly its tasks, which continue after the last
    block seen; the timer asks again for exactly the suspended tasks that some end point serves; the race in which an unsubscribed task comes back.

  \<^item> \<open>RateLimiter\<close> (\<open>utilities/TimeWindowRateLimiter.{h,cpp}\<close>, \<open>RateReporter.h\<close>): the window
    limiter on 64 bit words with the clock as an argument. Shown: the permits granted and not given back over any
    requests and rollbacks, with the requests above the maximum when these are allowed. The waiting loop has fuel; three rounds
    are shown to be enough for a request within the maximum.

  \<^item> \<open>AbiTypes\<close> (\<open>utilities/abi/ContractABIType.h\<close>): the classes of ABI values as one datatype
    and their virtual methods. \<open>AbiSol\<close> (\<open>ContractABITypeCodec.cpp\<close>): the Solidity codec with its
    64 bit offsets and the 32 bit running offset. \<open>AbiSolProps\<close>: the round trip by induction on
    values and templates. \<open>AbiSpec\<close>: the encoding of the contract ABI as its specification states
    it, which the codec refines. \<open>AbiTheorems\<close>: the properties of values and codec.

  \<^item> \<open>AbiDefinition\<close> (\<open>ContractABIMethodDefinition\<close>, \<open>ContractABIDefinition\<close>), \<open>AbiFactory\<close>
    (\<open>ContractABIDefinitionFactory.cpp\<close>), \<open>AbiCodec\<close> (\<open>ContractABICodec.cpp\<close>): type names,
    methods and events, the templates built from them, and calls from JSON parameters.
    \<open>AbiNames\<close>, \<open>AbiParams\<close>, \<open>AbiCalls\<close>, \<open>AbiCallTheorems\<close>: type names are read back, the templates that
    are built, which JSON documents describe a value (\<open>describes\<close>, stated without the reader) and that the described
    value is read, lookup by name, the locale \<open>abi_codec\<close> for the codec of values, interpreted for
    the Solidity codec, and the round trip of calls. Reading a type from JSON is bounded by a
    nesting depth; \<open>buildNamedType_fuel\<close> shows that the depth of the document is enough.

  \<^item> \<open>GroupInfo\<close>, \<open>GroupProps\<close> (\<open>bcos-framework/interfaces/multigroup\<close>, \<open>multigroup/\<close>): what a node
    tells of a group and of itself, and the two JSON codecs; members that constructors leave
    uninitialised are optional. \<open>Handshake\<close> (\<open>ws/HandshakeResponse.cpp\<close>, \<open>ws/BlockNumberInfo.cpp\<close>,
    \<open>HandshakeRequest.h\<close>): the messages of the service. Shown: the node tables keep their order
    and names; what of a description survives the wire, and what is lost.

  \<^item> \<open>Service\<close> (\<open>ws/Service.{h,cpp}\<close>): routing tables, block heights, handshake and the choice of
    the connection for a request, with calls of the base class as effects. \<open>ServiceTables\<close> and
    \<open>ServiceProps\<close>: the invariant of the tables, and the refinement (locale \<open>refinement_system\<close>) of
    two specifications, the directory of announced nodes and the greatest heights.
    \<open>ServiceTheorems\<close>: routing, sending, heights, notifications and merged descriptions for every
    sequence of operations. \<open>ServiceRace\<close>: the handlers as threads that run one locked section at a
    time, also the heights of a handshake; in every interleaving a callback is called for a height at most as often as it
    is registered, and two interleavings leave wrong tables. The removal of a group's heights, which the SDK never calls,
    is left out there; \<open>removal_race\<close> shows what it would do.
    \<open>HandshakeTheorems\<close>: codecs and handshake end to end, and that waiting for a connection ends
    when each sleep takes the time asked for.

  \<^item> \<open>TarsStream\<close>, \<open>TarsFuel\<close>, \<open>TarsValues\<close>, \<open>TarsCodecs\<close> (\<open>utilities/tx/tars/tup/Tars.h\<close>): the input
    stream with its cursor and exceptions, the output stream, and the codecs of the types that the generated structs use.
    The routines that skip fields call each other; their fuel is \<open>tars_fuel buf\<close>, one more than the length of the
    buffer, and \<open>TarsFuel\<close> shows that it is never used up and that more changes nothing, since every round
    consumes a byte. The locale \<open>tars_codec\<close> is the contract of a codec (written, read back, skipped exactly), \<open>tars_struct\<close>
    that of a generated struct; both are interpreted for the codecs of the model.

  \<^item> \<open>Transaction\<close> (\<open>utilities/tx/Transaction.h\<close>), \<open>Receipt\<close> (\<open>utilities/receipt/TransactionReceipt.h\<close>),
    \<open>TxBuilder\<close> (\<open>TransactionBuilder.cpp\<close>, \<open>TransactionBuilderService.cpp\<close>, \<open>crypto/\<close>), \<open>TxTheorems\<close>: the four structs,
    their hashes, and building and signing. Shown: round trips, also with a field of a newer version behind; decoding ends;
    what a signed transaction holds; which data have the same hash.

  \<^item> \<open>TcJson\<close>, \<open>TcJsonProps\<close> (\<open>utilities/tx/tars/util/tc_json.{h,cpp}\<close>), \<open>TxJson\<close>, \<open>TxJsonTheorems\<close> (\<open>TarsJson.h\<close>, the
    JSON functions of the structs): the JSON reader and writer and the conversion of transactions. The reader has the fuel
    \<open>Suc (2 * length str)\<close>: an array enters its first element without reading a character, so each character pays for two
    calls, and \<open>TC_Json_getValue_fuel\<close> shows that any larger fuel gives the same result. Shown: what is written is
    read back in every iteration order of the maps (locale \<open>json_codec\<close>); numbers that are misread.

  \<^item> \<open>JsonRpc\<close>, \<open>JsonRpcTheorems\<close> (\<open>rpc/\<close>): requests, responses, every method of the client, and the service that signs
    and sends transactions. Shown: each call goes out once, over a connection that announced the node it names, which is
    one at the greatest height when the call names none; what is sent is what was signed.

  \<^item> \<open>LegacyAbi\<close>, \<open>LegacyAbiProps\<close>, \<open>LegacyAbiTheorems\<close> (\<open>utilities/abi/solidity/ContractABICodec.{h,cpp}\<close>): the
    templates over C++ types as functions of a datatype of types. Shown: equal to the Solidity codec of ABI values
    on standard types, its own round trip, and where it differs. \<open>LegacySignature\<close> (\<open>ContractABIType.{h,cpp}\<close>
    there): type names and signatures, and how far they are read like those of \<open>AbiDefinition\<close>.
    \<open>AbiLiquid\<close>: the codec for Liquid contracts as far as it is written, and what it leaves out.

  \<^item> \<open>SdkConfig\<close> (\<open>config/Config.cpp\<close>), \<open>SdkAssembly\<close> (\<open>SdkFactory.cpp\<close>, \<open>Sdk.h\<close>), \<open>SdkTheorems\<close>: the configuration, the
    assembled SDK with the handlers that the components register, its start and stop, and its transition system. Shown:
    its executions are executions of the components, so that their invariants hold of it (\<open>sdk_projects\<close>);
    what a handshake and a disconnection do across the components.

  \<^bold>\<open>Properties.\<close> The properties C1, C2, ... stand in the theories of the components, each after a text that states it.
  The properties that span components are those of \<open>SdkTheorems\<close> (service, AMOP and events), \<open>JsonRpcTheorems\<close> (client
  and service, transactions and service), \<open>HandshakeTheorems\<close> (messages and service), \<open>AbiCallTheorems\<close> (descriptions and
  codec), \<open>LegacyAbiTheorems\<close> (the two codecs) and \<open>TxJsonTheorems\<close> (binary and JSON forms of transactions).

  \<^bold>\<open>Not modelled.\<close> Locks: outside \<open>ServiceRace\<close> each operation is one step, as under its lock. Of the Tars runtime:
  maps, sets, floating point members, fixed arrays and the variants of the routines for them, which no struct of the
  repository uses, the display functions, the JSON writer to a stream, which repeats the one to a string, and the utilities
  \<open>tc_common\<close>, \<open>tc_strptime\<close> and \<open>tc_port\<close>, of which the modelled code calls only conversions of numbers to text. The
  averages of \<open>RateReporter\<close> in floating point. Decoding into vectors of \<open>bool\<close> in the legacy codec, which does not
  compile: \<open>cpp_decodable\<close> excludes it. Logging, the
  abstract interfaces of the node software (\<open>bcos-framework/\<close>) and the samples, which have no behaviour of the SDK.
\<close>

end
